(* ===== verification/Prelude.thy ===== *)
theory Prelude
  imports Main "HOL-Library.Word" "HOL-Library.Monad_Syntax" "HOL-Library.Sublist"
begin

unbundle bit_operations_syntax

text \<open>
  Shared vocabulary of the development: the machine types of the Rust sources, results as sums,
  checked, saturating and wrapping arithmetic, little and big endian byte codecs, and the generic
  list lemmas the component theories use.

  Conventions. A Rust \<open>usize\<close>, \<open>u16\<close>, \<open>u32\<close> or \<open>u64\<close> that is only counted and compared is a
  \<open>nat\<close>, with its bound written where the source checks or may pass it; one that is masked or
  shifted is a word. A signed integer is an \<open>int\<close> with its range written out. Binary data is a
  list of \<open>u8\<close>; a Rust \<open>str\<close> is a \<open>string\<close>, a list of \<open>char\<close>s each of which is one byte of its
  UTF-8 form. \<open>Result<T, E>\<close> is \<open>E + T\<close> with \<open>Inl\<close> for the error.
\<close>

section \<open>Machine types\<close>

type_synonym u8 = "8 word"
type_synonym u32 = "32 word"
type_synonym u64 = "64 word"

abbreviation USIZE_MAX :: nat where "USIZE_MAX \<equiv> 18446744073709551615"
abbreviation U64_MAX :: nat where "U64_MAX \<equiv> 18446744073709551615"
abbreviation U32_MAX :: nat where "U32_MAX \<equiv> 4294967295"
abbreviation I64_MAX :: int where "I64_MAX \<equiv> 9223372036854775807"
abbreviation I64_MIN :: int where "I64_MIN \<equiv> - 9223372036854775808"

named_theorems model_defs \<open>definitions of the model that proofs unfold\<close>
named_theorems std_defs \<open>definitions standing for the Rust standard library\<close>

section \<open>Results\<close>

definition and_then :: "'e + 'a \<Rightarrow> ('a \<Rightarrow> 'e + 'b) \<Rightarrow> 'e + 'b" where
  "and_then r f = (case r of Inl e \<Rightarrow> Inl e | Inr x \<Rightarrow> f x)"

definition ok_or :: "'a option \<Rightarrow> 'e \<Rightarrow> 'e + 'a" where
  "ok_or x e = (case x of None \<Rightarrow> Inl e | Some v \<Rightarrow> Inr v)"

definition is_ok :: "'e + 'a \<Rightarrow> bool" where
  "is_ok r = (case r of Inl _ \<Rightarrow> False | Inr _ \<Rightarrow> True)"

definition ok :: "'e + 'a \<Rightarrow> 'a option" where
  "ok r = (case r of Inl _ \<Rightarrow> None | Inr x \<Rightarrow> Some x)"

definition map_err :: "('e \<Rightarrow> 'f) \<Rightarrow> 'e + 'a \<Rightarrow> 'f + 'a" where
  "map_err f r = (case r of Inl e \<Rightarrow> Inl (f e) | Inr x \<Rightarrow> Inr x)"

lemma and_then_Inl [simp]: "and_then (Inl e) f = Inl e"
  and and_then_Inr [simp]: "and_then (Inr x) f = f x"
  by (simp_all add: and_then_def)

lemma ok_or_simps [simp]: "ok_or None e = Inl e" "ok_or (Some v) e = Inr v"
  by (simp_all add: ok_or_def)

lemma is_ok_simps [simp]: "\<not> is_ok (Inl e)" "is_ok (Inr x)"
  by (simp_all add: is_ok_def)

lemma ok_simps [simp]: "ok (Inl e) = None" "ok (Inr x) = Some x"
  by (simp_all add: ok_def)

lemma map_err_simps [simp]: "map_err f (Inl e) = Inl (f e)" "map_err f (Inr x) = Inr x"
  by (simp_all add: map_err_def)

lemma and_then_eq_Inr: "and_then r f = Inr y \<longleftrightarrow> (\<exists>x. r = Inr x \<and> f x = Inr y)"
  by (cases r) auto

lemma ok_or_eq_Inr: "ok_or x e = Inr y \<longleftrightarrow> x = Some y"
  by (cases x) auto

lemma is_ok_iff: "is_ok r \<longleftrightarrow> (\<exists>x. r = Inr x)"
  by (cases r) auto

lemmas result_inv = and_then_eq_Inr ok_or_eq_Inr is_ok_iff

section \<open>Arithmetic as the standard library defines it\<close>

text \<open>\<open>checked_add\<close> and \<open>checked_mul\<close> of an unsigned type with maximum \<open>m\<close>, \<open>checked_sub\<close>, and
  the saturating forms. \<open>saturating_sub\<close> is the subtraction of \<open>nat\<close>.\<close>

definition checked_add :: "nat \<Rightarrow> nat \<Rightarrow> nat \<Rightarrow> nat option" where
  [std_defs]: "checked_add m a b = (if a + b \<le> m then Some (a + b) else None)"

definition checked_mul :: "nat \<Rightarrow> nat \<Rightarrow> nat \<Rightarrow> nat option" where
  [std_defs]: "checked_mul m a b = (if a * b \<le> m then Some (a * b) else None)"

definition checked_sub :: "nat \<Rightarrow> nat \<Rightarrow> nat option" where
  [std_defs]: "checked_sub a b = (if b \<le> a then Some (a - b) else None)"

definition saturating_add :: "nat \<Rightarrow> nat \<Rightarrow> nat \<Rightarrow> nat" where
  [std_defs]: "saturating_add m a b = min m (a + b)"

definition saturating_mul :: "nat \<Rightarrow> nat \<Rightarrow> nat \<Rightarrow> nat" where
  [std_defs]: "saturating_mul m a b = min m (a * b)"

definition checked_i64 :: "int \<Rightarrow> int option" where
  [std_defs]: "checked_i64 x = (if I64_MIN \<le> x \<and> x \<le> I64_MAX then Some x else None)"

text \<open>Rust's signed division truncates towards zero.\<close>

definition tdiv :: "int \<Rightarrow> int \<Rightarrow> int" where
  [std_defs]: "tdiv a b = sgn a * sgn b * (\<bar>a\<bar> div \<bar>b\<bar>)"

definition div_ceil :: "nat \<Rightarrow> nat \<Rightarrow> nat" where
  [std_defs]: "div_ceil a b = (a + b - 1) div b"

text \<open>The cast \<open>as i16\<close> (wrapping), and the clamps to sixteen and eight bits.\<close>

definition wrap16 :: "int \<Rightarrow> int" where
  [std_defs]: "wrap16 x = signed_take_bit 15 x"

definition wrap32 :: "int \<Rightarrow> int" where
  [std_defs]: "wrap32 x = signed_take_bit 31 x"

definition clamp :: "int \<Rightarrow> int \<Rightarrow> int \<Rightarrow> int" where
  [std_defs]: "clamp lo hi x = (if x < lo then lo else if hi < x then hi else x)"

lemma clamp_bounds: "lo \<le> hi \<Longrightarrow> lo \<le> clamp lo hi x \<and> clamp lo hi x \<le> hi"
  by (simp add: clamp_def)

lemma tdiv_nonneg [simp]: "0 \<le> a \<Longrightarrow> 0 < b \<Longrightarrow> tdiv a b = a div b"
  by (cases "a = 0") (simp_all add: tdiv_def)

lemma checked_sub_Some: "checked_sub a b = Some c \<longleftrightarrow> b \<le> a \<and> c = a - b"
  by (auto simp: checked_sub_def)

lemma checked_sub_None: "checked_sub a b = None \<longleftrightarrow> a < b"
  by (auto simp: checked_sub_def)

lemma checked_add_Some: "checked_add m a b = Some c \<longleftrightarrow> a + b \<le> m \<and> c = a + b"
  by (auto simp: checked_add_def)

lemma checked_mul_Some: "checked_mul m a b = Some c \<longleftrightarrow> a * b \<le> m \<and> c = a * b"
  by (auto simp: checked_mul_def)

lemmas checked_iffs = checked_sub_Some checked_sub_None checked_add_Some checked_mul_Some

lemma div_ceil_bounds:
  assumes "0 < b"
  shows "a \<le> div_ceil a b * b \<and> div_ceil a b * b < a + b"
proof -
  have "(a + b - 1) div b * b + (a + b - 1) mod b = a + b - 1" by simp
  moreover have "(a + b - 1) mod b < b" using assms by simp
  ultimately show ?thesis using assms unfolding div_ceil_def by linarith
qed

section \<open>Byte codecs\<close>

text \<open>\<open>from_le_bytes\<close>, \<open>from_be_bytes\<close>, \<open>to_le_bytes\<close> and \<open>to_be_bytes\<close>, at any width; the signed
  readings take the width in bytes.\<close>

fun le_val :: "u8 list \<Rightarrow> nat" where
  "le_val [] = 0"
| "le_val (b # bs) = unat b + 256 * le_val bs"

definition be_val :: "u8 list \<Rightarrow> nat" where
  "be_val bs = le_val (rev bs)"

fun le_bytes :: "nat \<Rightarrow> nat \<Rightarrow> u8 list" where
  "le_bytes 0 v = []"
| "le_bytes (Suc n) v = word_of_nat (v mod 256) # le_bytes n (v div 256)"

definition be_bytes :: "nat \<Rightarrow> nat \<Rightarrow> u8 list" where
  "be_bytes n v = rev (le_bytes n v)"

definition signed_of :: "nat \<Rightarrow> nat \<Rightarrow> int" where
  "signed_of bits v = (if v < 2 ^ (bits - 1) then int v else int v - 2 ^ bits)"

definition unsigned_of :: "nat \<Rightarrow> int \<Rightarrow> nat" where
  "unsigned_of bits x = nat (x mod 2 ^ bits)"

lemma unat_byte_less [simp]: "unat (b :: u8) < 256"
  using unsigned_less [of b] by simp

lemma unat_byte_of_nat [simp]: "unat (word_of_nat v :: u8) = v mod 256"
  by (simp add: unat_of_nat)

lemma le_val_less: "le_val bs < 256 ^ length bs"
proof (induction bs)
  case (Cons b bs)
  have "unat b + 256 * le_val bs < 256 + 256 * le_val bs" by simp
  also have "\<dots> \<le> 256 * 256 ^ length bs" using Cons by simp
  finally show ?case by simp
qed simp

lemma length_le_bytes [simp]: "length (le_bytes n v) = n"
  by (induction n arbitrary: v) auto

lemma length_be_bytes [simp]: "length (be_bytes n v) = n"
  by (simp add: be_bytes_def)

lemma be_val_less: "be_val bs < 256 ^ length bs"
  using le_val_less [of "rev bs"] by (simp add: be_val_def)

lemma le_val_le_bytes: "le_val (le_bytes n v) = v mod 256 ^ n"
proof (induction n arbitrary: v)
  case (Suc n)
  have "v mod (256 * 256 ^ n) = 256 * (v div 256 mod 256 ^ n) + v mod 256"
    by (simp add: mod_mult2_eq)
  with Suc show ?case by simp
qed simp

lemma le_bytes_le_val: "le_bytes (length bs) (le_val bs) = bs"
proof (induction bs)
  case (Cons b bs)
  have "(unat b + 256 * le_val bs) mod 256 = unat b"
    by (simp add: mod_mult_self2)
  moreover have "(unat b + 256 * le_val bs) div 256 = le_val bs" by simp
  ultimately show ?case using Cons by simp
qed simp

lemma be_val_be_bytes: "be_val (be_bytes n v) = v mod 256 ^ n"
  by (simp add: be_val_def be_bytes_def le_val_le_bytes)

lemma be_bytes_be_val: "be_bytes (length bs) (be_val bs) = bs"
  using le_bytes_le_val [of "rev bs"] by (simp add: be_bytes_def be_val_def)

lemma signed_of_unsigned_of:
  assumes "0 < bits" and "- (2 ^ (bits - 1)) \<le> x" and "x < 2 ^ (bits - 1)"
  shows "signed_of bits (unsigned_of bits x) = x"
proof -
  have double: "(2 :: int) ^ bits = 2 * 2 ^ (bits - 1)"
    using assms(1) by (cases bits) auto
  show ?thesis
  proof (cases "0 \<le> x")
    case True
    then have "x mod 2 ^ bits = x" using assms(3) double by simp
    then show ?thesis using True assms(3)
      by (simp add: signed_of_def unsigned_of_def nat_less_iff)
  next
    case False
    have "(x + 2 ^ bits) mod 2 ^ bits = x + 2 ^ bits"
      using False assms(2) double by (intro mod_pos_pos_trivial) linarith+
    then have "x mod 2 ^ bits = x + 2 ^ bits" by simp
    then show ?thesis using False assms(2) double
      by (auto simp: signed_of_def unsigned_of_def nat_less_iff)
  qed
qed

lemma unsigned_of_signed_of:
  assumes "v < 2 ^ bits"
  shows "unsigned_of bits (signed_of bits v) = v"
proof -
  have "int v < 2 ^ bits" using assms by (metis of_nat_less_iff of_nat_numeral of_nat_power)
  then have "int v mod 2 ^ bits = int v" "(int v - 2 ^ bits) mod 2 ^ bits = int v"
    by (simp_all add: mod_pos_pos_trivial)
  then show ?thesis by (simp add: unsigned_of_def signed_of_def)
qed

lemma signed_of_range:
  assumes "0 < bits" and "v < 2 ^ bits"
  shows "- (2 ^ (bits - 1)) \<le> signed_of bits v \<and> signed_of bits v < 2 ^ (bits - 1)"
proof -
  have double: "(2 :: int) ^ bits = 2 * 2 ^ (bits - 1)"
    using assms(1) by (cases bits) auto
  have "int v < 2 ^ bits" using assms(2) by (metis of_nat_less_iff of_nat_numeral of_nat_power)
  moreover have "v < 2 ^ (bits - 1) \<longleftrightarrow> int v < 2 ^ (bits - 1)"
    by (metis of_nat_less_iff of_nat_numeral of_nat_power)
  ultimately show ?thesis using double by (auto simp: signed_of_def)
qed

section \<open>Slices\<close>

text \<open>\<open>s.get(a..b)\<close>: the bytes from \<open>a\<close> up to \<open>b\<close>, or \<open>None\<close> when the range is not inside the
  slice.\<close>

definition get_range :: "'a list \<Rightarrow> nat \<Rightarrow> nat \<Rightarrow> 'a list option" where
  [std_defs]: "get_range s a b = (if a \<le> b \<and> b \<le> length s then Some (take (b - a) (drop a s)) else None)"

text \<open>\<open>s.get(i)\<close>.\<close>

definition get_at :: "'a list \<Rightarrow> nat \<Rightarrow> 'a option" where
  [std_defs]: "get_at s i = (if i < length s then Some (s ! i) else None)"

abbreviation slice :: "'a list \<Rightarrow> nat \<Rightarrow> nat \<Rightarrow> 'a list" where
  "slice s a b \<equiv> take (b - a) (drop a s)"

lemma get_at_None [simp]: "length s \<le> i \<Longrightarrow> get_at s i = None"
  by (simp add: get_at_def)

lemma get_at_Some_iff: "get_at s i = Some x \<longleftrightarrow> i < length s \<and> s ! i = x"
  by (auto simp: get_at_def)

lemma get_at_Cons_0 [simp]: "get_at (x # xs) 0 = Some x"
  by (simp add: get_at_def)

lemma get_at_append_length [simp]: "get_at (xs @ y # ys) (length xs) = Some y"
  by (simp add: get_at_def)

lemma length_slice [simp]: "b \<le> length s \<Longrightarrow> length (slice s a b) = b - a"
  by simp

lemma slice_append: "a \<le> b \<Longrightarrow> b \<le> c \<Longrightarrow> slice s a b @ slice s b c = slice s a c"
proof -
  assume "a \<le> b" "b \<le> c"
  then have eq: "c - a = (b - a) + (c - b)" and d: "drop (b - a) (drop a s) = drop b s" by auto
  show ?thesis unfolding eq take_add d by simp
qed

section \<open>Binary search\<close>

text \<open>\<open>slice::binary_search_by\<close> as the standard library has it: the window \<open>base .. base + sz\<close>
  halves, keeping the upper half unless its first element compares greater. The index of a match, or
  \<open>None\<close> for \<open>Err\<close>.\<close>

datatype ordering = Less | Equal | Greater

fun bs_base :: "(nat \<Rightarrow> ordering) \<Rightarrow> nat \<Rightarrow> nat \<Rightarrow> nat" where
  "bs_base f base sz =
     (if sz \<le> 1 then base
      else (let half = sz div 2; mid = base + half
            in bs_base f (if f mid = Greater then base else mid) (sz - half)))"

declare bs_base.simps [simp del]

definition binary_search_by :: "('a \<Rightarrow> ordering) \<Rightarrow> 'a list \<Rightarrow> nat option" where
  "binary_search_by f xs =
     (if xs = [] then None
      else (let b = bs_base (\<lambda>i. f (xs ! i)) 0 (length xs)
            in if f (xs ! b) = Equal then Some b else None))"

definition cmp :: "'a :: linorder \<Rightarrow> 'a \<Rightarrow> ordering" where
  "cmp x y = (if x < y then Less else if x = y then Equal else Greater)"

text \<open>The order the search relies on: once the comparison is not \<open>Less\<close> it stays so, and once it is
  \<open>Greater\<close> it stays so.\<close>

definition bs_sorted :: "('a \<Rightarrow> ordering) \<Rightarrow> 'a list \<Rightarrow> bool" where
  "bs_sorted f xs \<longleftrightarrow>
     sorted_wrt (\<lambda>x y. (f x = Greater \<longrightarrow> f y = Greater) \<and> (f y = Less \<longrightarrow> f x = Less)) xs"

lemma bs_base_inv:
  assumes "0 < sz" "base + sz \<le> n" "base = 0 \<or> f base \<noteq> Greater"
    and "\<And>i. base + sz \<le> i \<Longrightarrow> i < n \<Longrightarrow> f i = Greater"
    and "\<And>i j. i < j \<Longrightarrow> j < n \<Longrightarrow> f i = Greater \<Longrightarrow> f j = Greater"
  shows "bs_base f base sz < n \<and> (bs_base f base sz = 0 \<or> f (bs_base f base sz) \<noteq> Greater)
    \<and> (\<forall>i < n. bs_base f base sz < i \<longrightarrow> f i = Greater)"
  using assms
proof (induction f base sz rule: bs_base.induct)
  case (1 f base sz)
  show ?case
  proof (cases "sz \<le> 1")
    case True
    then show ?thesis using "1.prems" by (auto simp: bs_base.simps [of f base sz])
  next
    case False
    define half where "half = sz div 2"
    have h: "0 < half" "half < sz" "0 < sz - half" "half \<le> sz - half" using False by (auto simp: half_def)
    define base' where "base' = (if f (base + half) = Greater then base else base + half)"
    have eq: "bs_base f base sz = bs_base f base' (sz - half)"
      using False by (simp add: bs_base.simps [of f base sz] Let_def half_def base'_def)
    have g: "f i = Greater" if "base' + (sz - half) \<le> i" "i < n" for i
    proof (cases "f (base + half) = Greater")
      case True
      then have "base + half \<le> i" using that h by (auto simp: base'_def)
      then show ?thesis using "1.prems"(5) [of "base + half" i] that True by (cases "base + half = i") auto
    next
      case False
      then show ?thesis using that h "1.prems"(4) [of i] by (auto simp: base'_def)
    qed
    have b: "base' + (sz - half) \<le> n" "base' = 0 \<or> f base' \<noteq> Greater"
      using h "1.prems"(2,3) by (auto simp: base'_def)
    show ?thesis
      unfolding eq
      by (rule "1.IH" [OF False half_def refl, folded base'_def, OF h(3) b g "1.prems"(5)])
  qed
qed

lemma bs_base_list:
  assumes "bs_sorted f xs" "xs \<noteq> []"
  defines "b \<equiv> bs_base (\<lambda>i. f (xs ! i)) 0 (length xs)"
  shows "b < length xs" "b = 0 \<or> f (xs ! b) \<noteq> Greater" "\<And>j. j < length xs \<Longrightarrow> b < j \<Longrightarrow> f (xs ! j) = Greater"
proof -
  have "f (xs ! j) = Greater" if "i < j" "j < length xs" "f (xs ! i) = Greater" for i j
    using sorted_wrt_nth_less [OF assms(1) [unfolded bs_sorted_def] that(1,2)] that(3) by blast
  then have "b < length xs \<and> (b = 0 \<or> f (xs ! b) \<noteq> Greater) \<and> (\<forall>i < length xs. b < i \<longrightarrow> f (xs ! i) = Greater)"
    unfolding b_def using assms(2) by (intro bs_base_inv) auto
  then show "b < length xs" "b = 0 \<or> f (xs ! b) \<noteq> Greater" "\<And>j. j < length xs \<Longrightarrow> b < j \<Longrightarrow> f (xs ! j) = Greater"
    by auto
qed

lemma binary_search_by_Some: "binary_search_by f xs = Some i \<Longrightarrow> bs_sorted f xs \<Longrightarrow> i < length xs \<and> f (xs ! i) = Equal"
  using bs_base_list by (auto simp: binary_search_by_def Let_def split: if_splits)

lemma binary_search_by_found:
  assumes "bs_sorted f xs" "x \<in> set xs" "f x = Equal"
  shows "\<exists>i. binary_search_by f xs = Some i"
proof -
  obtain i where i: "i < length xs" "xs ! i = x" using assms(2) by (auto simp: in_set_conv_nth)
  define b where "b = bs_base (\<lambda>i. f (xs ! i)) 0 (length xs)"
  have "xs \<noteq> []" using i by auto
  note b = bs_base_list [OF assms(1) this, folded b_def]
  have "i \<le> b" using b(3) [of i] i assms(3) by force
  moreover have "f (xs ! b) \<noteq> Less" if "i < b"
    using sorted_wrt_nth_less [OF assms(1) [unfolded bs_sorted_def] that b(1)] i assms(3) by auto
  ultimately have "f (xs ! b) = Equal"
    using b(2) assms(3) i by (cases "f (xs ! b)"; cases "i = b") auto
  then show ?thesis using i by (auto simp: binary_search_by_def Let_def b_def)
qed

text \<open>A binary search by a key on a list with strictly increasing keys is a lookup in the list.\<close>

lemma bs_sorted_key: "sorted_wrt (<) (map key xs) \<Longrightarrow> bs_sorted (\<lambda>x. cmp (key x) k) xs"
  unfolding bs_sorted_def sorted_wrt_map
  by (rule sorted_wrt_mono_rel [rotated], assumption) (auto simp: cmp_def split: if_splits)

lemma cmp_Equal [simp]: "cmp x y = Equal \<longleftrightarrow> x = y"
  by (auto simp: cmp_def)

lemma binary_search_key_None:
  assumes "sorted_wrt (<) (map key xs)"
  shows "binary_search_by (\<lambda>x. cmp (key x) k) xs = None \<longleftrightarrow> k \<notin> key ` set xs"
proof (cases "binary_search_by (\<lambda>x. cmp (key x) k) xs")
  case None
  then show ?thesis using binary_search_by_found [OF bs_sorted_key [OF assms, of k]] by force
next
  case (Some i)
  then have "i < length xs" "key (xs ! i) = k"
    using binary_search_by_Some [OF Some bs_sorted_key [OF assms]] by auto
  then have "k \<in> key ` set xs" by (metis imageI nth_mem)
  then show ?thesis using Some by simp
qed

lemma binary_search_key_Some:
  assumes "sorted_wrt (<) (map key xs)" "x \<in> set xs" "key x = k"
  shows "\<exists>i. binary_search_by (\<lambda>x. cmp (key x) k) xs = Some i \<and> i < length xs \<and> xs ! i = x"
proof -
  obtain i where i: "binary_search_by (\<lambda>x. cmp (key x) k) xs = Some i"
    using binary_search_by_found [OF bs_sorted_key [OF assms(1), of k] assms(2)] assms(3) by auto
  have ik: "i < length xs" "key (xs ! i) = k"
    using binary_search_by_Some [OF i bs_sorted_key [OF assms(1)]] by auto
  obtain j where j: "j < length xs" "xs ! j = x" using assms(2) by (auto simp: in_set_conv_nth)
  have "i = j"
    using assms(1,3) ik j sorted_wrt_nth_less [OF assms(1), of i j] sorted_wrt_nth_less [OF assms(1), of j i]
    by (cases i j rule: linorder_cases) auto
  then show ?thesis using i ik j by auto
qed


text \<open>\<open>Iterator::position\<close>.\<close>

fun position :: "('a \<Rightarrow> bool) \<Rightarrow> 'a list \<Rightarrow> nat option" where
  [std_defs]: "position P [] = None"
| "position P (x # xs) = (if P x then Some 0 else map_option Suc (position P xs))"

lemma position_Some: "position P xs = Some i \<longleftrightarrow> i < length xs \<and> P (xs ! i) \<and> (\<forall>j<i. \<not> P (xs ! j))"
proof (induction xs arbitrary: i)
  case (Cons x xs)
  show ?case
  proof (cases i)
    case (Suc k)
    then show ?thesis using Cons.IH [of k] by (auto simp: less_Suc_eq_0_disj)
  qed (simp)
qed simp

lemma position_None: "position P xs = None \<longleftrightarrow> (\<forall>x\<in>set xs. \<not> P x)"
  by (induction xs) auto

end
