(* ===== verification/Rust_Text.thy ===== *)
theory Rust_Text
  imports Prelude
begin

text \<open>
  The parts of Rust's standard library for text that the sources use: bytes of a \<open>str\<close>, UTF-8
  validation and encoding, Unicode white space and \<open>trim\<close>, splitting, and the decimal and
  hexadecimal formatting of integers. A \<open>str\<close> is the list of its UTF-8 bytes; where the source
  iterates over \<open>chars()\<close> the model works on the list of scalar values \<^verbatim>\<open>from_utf8\<close> returns.
\<close>

section \<open>Bytes\<close>

abbreviation byte :: "char \<Rightarrow> nat" where "byte c \<equiv> of_char c"

definition as_bytes :: "string \<Rightarrow> u8 list" where
  "as_bytes s = map of_char s"

definition of_bytes :: "u8 list \<Rightarrow> string" where
  "of_bytes bs = map (\<lambda>b. char_of (unat b)) bs"

definition is_ascii_digit :: "char \<Rightarrow> bool" where
  [std_defs]: "is_ascii_digit c \<longleftrightarrow> 48 \<le> byte c \<and> byte c \<le> 57"

definition is_ascii_alphanumeric :: "char \<Rightarrow> bool" where
  [std_defs]: "is_ascii_alphanumeric c \<longleftrightarrow>
     is_ascii_digit c \<or> (65 \<le> byte c \<and> byte c \<le> 90) \<or> (97 \<le> byte c \<and> byte c \<le> 122)"

text \<open>The digit a byte stands for, \<open>c - b'0'\<close>, and \<open>char::to_digit(16)\<close>.\<close>

definition digit_val :: "char \<Rightarrow> nat" where
  [std_defs]: "digit_val c = byte c - 48"

definition hex_digit :: "char \<Rightarrow> nat option" where
  [std_defs]: "hex_digit c =
     (if is_ascii_digit c then Some (byte c - 48)
      else if 97 \<le> byte c \<and> byte c \<le> 102 then Some (byte c - 87)
      else if 65 \<le> byte c \<and> byte c \<le> 70 then Some (byte c - 55)
      else None)"

lemma byte_less [simp]: "byte c < 256"
  using of_char_mod_256 [of c, where ?'a = nat] mod_less_divisor [of 256 "byte c"]
  by (metis zero_less_numeral)

lemma length_as_bytes [simp]: "length (as_bytes s) = length s"
  by (simp add: as_bytes_def)

lemma unat_of_char [simp]: "unat (of_char c :: u8) = byte c"
proof -
  have "(of_char c :: u8) = word_of_nat (byte c)"
    by (simp add: of_char_def)
  then show ?thesis by simp
qed

lemma of_bytes_as_bytes [simp]: "of_bytes (as_bytes s) = s"
  by (induction s) (simp_all add: of_bytes_def as_bytes_def)

lemma as_bytes_of_bytes [simp]: "as_bytes (of_bytes bs) = bs"
proof (induction bs)
  case (Cons b bs)
  have "unat (of_char (char_of (unat b) :: char) :: u8) = unat b" by simp
  then have "(of_char (char_of (unat b) :: char) :: u8) = b" by (simp only: word_unat_eq_iff)
  with Cons show ?case by (simp add: of_bytes_def as_bytes_def)
qed (simp add: of_bytes_def as_bytes_def)

section \<open>UTF-8\<close>

text \<open>A scalar value is a code point that is not a surrogate.\<close>

definition is_scalar :: "nat \<Rightarrow> bool" where
  [std_defs]: "is_scalar cp \<longleftrightarrow> cp < 55296 \<or> (57344 \<le> cp \<and> cp < 1114112)"

definition len_utf8 :: "nat \<Rightarrow> nat" where
  [std_defs]: "len_utf8 cp = (if cp < 128 then 1 else if cp < 2048 then 2 else if cp < 65536 then 3 else 4)"

definition encode_char :: "nat \<Rightarrow> string" where
  [std_defs]: "encode_char cp =
     (if cp < 128 then [char_of cp]
      else if cp < 2048 then [char_of (192 + cp div 64), char_of (128 + cp mod 64)]
      else if cp < 65536 then
        [char_of (224 + cp div 64 div 64), char_of (128 + cp div 64 mod 64), char_of (128 + cp mod 64)]
      else
        [char_of (240 + cp div 64 div 64 div 64), char_of (128 + cp div 64 div 64 mod 64),
         char_of (128 + cp div 64 mod 64), char_of (128 + cp mod 64)])"

definition encode_utf8 :: "nat list \<Rightarrow> string" where
  "encode_utf8 cps = concat (map encode_char cps)"

text \<open>A continuation byte, and the narrower ranges the byte after a three or four byte lead must be
  in so that overlong forms, surrogates and values past U+10FFFF are refused.\<close>

definition is_cont :: "char \<Rightarrow> bool" where
  [std_defs]: "is_cont c \<longleftrightarrow> 128 \<le> byte c \<and> byte c \<le> 191"

definition second_ok :: "char \<Rightarrow> char \<Rightarrow> bool" where
  [std_defs]: "second_ok c c1 \<longleftrightarrow> is_cont c1
     \<and> (byte c = 224 \<longrightarrow> 160 \<le> byte c1) \<and> (byte c = 237 \<longrightarrow> byte c1 \<le> 159)
     \<and> (byte c = 240 \<longrightarrow> 144 \<le> byte c1) \<and> (byte c = 244 \<longrightarrow> byte c1 \<le> 143)"

text \<open>The scalar value a lead byte's payload and its continuation bytes spell.\<close>

fun horner64 :: "nat \<Rightarrow> string \<Rightarrow> nat" where
  "horner64 v [] = v"
| "horner64 v (c # cs) = horner64 (v * 64 + (byte c - 128)) cs"

text \<open>\<open>std::str::from_utf8\<close>: the scalar values, or \<open>None\<close> for a malformed sequence (an overlong
  form, a surrogate, a value past U+10FFFF, a missing or stray continuation byte).\<close>

fun from_utf8 :: "string \<Rightarrow> nat list option" where
  "from_utf8 [] = Some []"
| "from_utf8 (c # cs) =
     (if byte c < 128 then map_option ((#) (byte c)) (from_utf8 cs)
      else if 194 \<le> byte c \<and> byte c \<le> 223 then
        (case cs of
           c1 # r \<Rightarrow>
             (if is_cont c1 then map_option ((#) (horner64 (byte c - 192) [c1])) (from_utf8 r) else None)
         | _ \<Rightarrow> None)
      else if 224 \<le> byte c \<and> byte c \<le> 239 then
        (case cs of
           c1 # c2 # r \<Rightarrow>
             (if second_ok c c1 \<and> is_cont c2
              then map_option ((#) (horner64 (byte c - 224) [c1, c2])) (from_utf8 r)
              else None)
         | _ \<Rightarrow> None)
      else if 240 \<le> byte c \<and> byte c \<le> 244 then
        (case cs of
           c1 # c2 # c3 # r \<Rightarrow>
             (if second_ok c c1 \<and> is_cont c2 \<and> is_cont c3
              then map_option ((#) (horner64 (byte c - 240) [c1, c2, c3])) (from_utf8 r)
              else None)
         | _ \<Rightarrow> None)
      else None)"

declare from_utf8.simps(2) [simp del]

definition utf8_valid :: "string \<Rightarrow> bool" where
  "utf8_valid s \<longleftrightarrow> from_utf8 s \<noteq> None"

text \<open>The length in bytes of a text given by its scalar values, \<open>String::len\<close>.\<close>

definition utf8_len :: "nat list \<Rightarrow> nat" where
  "utf8_len cps = sum_list (map len_utf8 cps)"

lemma length_encode_char: "length (encode_char cp) = len_utf8 cp"
  by (simp add: encode_char_def len_utf8_def)

lemma length_encode_utf8: "length (encode_utf8 cps) = utf8_len cps"
  by (induction cps) (simp_all add: encode_utf8_def utf8_len_def length_encode_char)

lemma utf8_len_simps [simp]: "utf8_len [] = 0" "utf8_len (c # cs) = len_utf8 c + utf8_len cs"
  "utf8_len (xs @ ys) = utf8_len xs + utf8_len ys"
  by (simp_all add: utf8_len_def)

lemma from_utf8_ascii: "byte c < 128 \<Longrightarrow> from_utf8 (c # cs) = map_option ((#) (byte c)) (from_utf8 cs)"
  by (simp add: from_utf8.simps(2))

lemma of_char_char_of_nat [simp]: "n < 256 \<Longrightarrow> byte (char_of n) = n"
  by simp

lemma radix64: "b < 64 \<Longrightarrow> (w * 64 + b) div 64 = w" "b < 64 \<Longrightarrow> (w * 64 + b) mod 64 = (b :: nat)"
  by simp_all

lemma byte_cont: "r < 64 \<Longrightarrow> byte (char_of (128 + r)) = 128 + r \<and> is_cont (char_of (128 + r))"
  by (simp add: is_cont_def)

lemma from_utf8_encode_char:
  assumes "is_scalar cp"
  shows "from_utf8 (encode_char cp @ s) = map_option ((#) cp) (from_utf8 s)"
proof -
  define q1 r1 q2 r2 q3 r3 where q: "q1 = cp div 64" "r1 = cp mod 64" "q2 = q1 div 64" "r2 = q1 mod 64"
    "q3 = q2 div 64" "r3 = q2 mod 64"
  have eqs: "cp = q1 * 64 + r1" "q1 = q2 * 64 + r2" "q2 = q3 * 64 + r3" unfolding q by simp_all
  have less: "r1 < 64" "r2 < 64" "r3 < 64" unfolding q by simp_all
  note conts = byte_cont [OF less(1)] byte_cont [OF less(2)] byte_cont [OF less(3)]
  note enc = encode_char_def [of cp, folded q]
  consider "cp < 128" | "128 \<le> cp" "cp < 2048" | "2048 \<le> cp" "cp < 65536" | "65536 \<le> cp" "cp < 1114112"
    using assms unfolding is_scalar_def
    by (cases "cp < 128"; cases "cp < 2048"; cases "cp < 65536") auto
  then show ?thesis
  proof cases
    case 1
    then show ?thesis by (simp add: enc from_utf8.simps(2))
  next
    case 2
    then have "2 \<le> q1" "q1 < 32" using eqs less by linarith+
    then show ?thesis using 2 conts by (simp add: enc from_utf8.simps(2) eqs [symmetric])
  next
    case 3
    have hi: "q2 < 16" using 3 eqs less by linarith
    have "q2 = 0 \<Longrightarrow> 32 \<le> r2" using 3 eqs(1,2) less by linarith
    moreover have "q2 = 13 \<Longrightarrow> r2 < 32"
      using assms eqs(1,2) less unfolding is_scalar_def by linarith
    ultimately have "second_ok (char_of (224 + q2)) (char_of (128 + r2))"
      using hi less conts by (auto simp: second_ok_def)
    then show ?thesis using 3 hi conts by (simp add: enc from_utf8.simps(2) eqs [symmetric])
  next
    case 4
    have hi: "q3 < 5" using 4 eqs less by linarith
    have "q3 = 0 \<Longrightarrow> 16 \<le> r3" "q3 = 4 \<Longrightarrow> r3 < 16" using 4 eqs less by linarith+
    then have "second_ok (char_of (240 + q3)) (char_of (128 + r3))"
      using hi less conts by (auto simp: second_ok_def)
    then show ?thesis using 4 hi conts by (simp add: enc from_utf8.simps(2) eqs [symmetric])
  qed
qed

lemma from_utf8_encode_utf8:
  assumes "\<forall>cp \<in> set cps. is_scalar cp"
  shows "from_utf8 (encode_utf8 cps) = Some cps"
  using assms by (induction cps) (simp_all add: encode_utf8_def from_utf8_encode_char)

text \<open>Conversely a valid text is the encoding of its scalar values: validation loses nothing.\<close>

lemma is_contE:
  assumes "is_cont c"
  obtains r where "byte c = 128 + r" "r < 64" "char_of (128 + r) = c"
proof
  show "byte c = 128 + (byte c - 128)" using assms by (simp add: is_cont_def)
  then show "char_of (128 + (byte c - 128)) = c" by (metis char_of_char)
  show "byte c - 128 < 64" using assms unfolding is_cont_def by linarith
qed

lemma byte_leadE:
  assumes "n \<le> byte c"
  obtains a where "byte c = n + a" "char_of (n + a) = c"
  using assms by (metis char_of_char le_Suc_ex)

lemma encode_char_1: "byte c < 128 \<Longrightarrow> encode_char (byte c) = [c] \<and> is_scalar (byte c)"
  by (simp add: encode_char_def is_scalar_def)

lemma encode_char_2:
  assumes "194 \<le> byte c" "byte c \<le> 223" "is_cont c1"
  shows "encode_char (horner64 (byte c - 192) [c1]) = [c, c1] \<and> is_scalar (horner64 (byte c - 192) [c1])"
proof -
  obtain a where a: "byte c = 192 + a" "char_of (192 + a) = c"
    using byte_leadE [of 192 c] assms by auto
  obtain r where r: "byte c1 = 128 + r" "r < 64" "char_of (128 + r) = c1"
    using is_contE [OF assms(3)] .
  have "2 \<le> a" "a < 32" using a assms by linarith+
  then show ?thesis using a r by (simp add: encode_char_def is_scalar_def)
qed

lemma encode_char_3:
  assumes "224 \<le> byte c" "byte c \<le> 239" "second_ok c c1" "is_cont c2"
  shows "encode_char (horner64 (byte c - 224) [c1, c2]) = [c, c1, c2]
         \<and> is_scalar (horner64 (byte c - 224) [c1, c2])"
proof -
  obtain a where a: "byte c = 224 + a" "char_of (224 + a) = c"
    using byte_leadE [OF assms(1)] .
  obtain r where r: "byte c1 = 128 + r" "r < 64" "char_of (128 + r) = c1"
    using assms(3) is_contE [of c1] unfolding second_ok_def by blast
  obtain s where s: "byte c2 = 128 + s" "s < 64" "char_of (128 + s) = c2"
    using is_contE [OF assms(4)] .
  define w where w: "w = a * 64 + r"
  let ?v = "w * 64 + s"
  have v: "horner64 (byte c - 224) [c1, c2] = ?v" using a r s by (simp add: w)
  have parts: "?v div 64 = w" "?v mod 64 = s" "w div 64 = a" "w mod 64 = r"
    using radix64 [OF s(2), of w] radix64 [OF r(2), of a] by (simp_all add: w [symmetric])
  have lim: "a < 16" "a = 0 \<Longrightarrow> 32 \<le> r" "a = 13 \<Longrightarrow> r < 32"
    using assms a r by (auto simp: second_ok_def)
  have "2048 \<le> ?v" "?v < 65536" using lim r s w by (cases "a = 0"; simp)+
  moreover have "?v < 55296 \<or> 57344 \<le> ?v"
    using lim r s w by (cases "a < 13"; cases "a = 13"; simp)
  ultimately show ?thesis unfolding v encode_char_def is_scalar_def parts using a r s by simp
qed

lemma encode_char_4:
  assumes "240 \<le> byte c" "byte c \<le> 244" "second_ok c c1" "is_cont c2" "is_cont c3"
  shows "encode_char (horner64 (byte c - 240) [c1, c2, c3]) = [c, c1, c2, c3]
         \<and> is_scalar (horner64 (byte c - 240) [c1, c2, c3])"
proof -
  obtain a where a: "byte c = 240 + a" "char_of (240 + a) = c"
    using byte_leadE [OF assms(1)] .
  obtain r where r: "byte c1 = 128 + r" "r < 64" "char_of (128 + r) = c1"
    using assms(3) is_contE [of c1] unfolding second_ok_def by blast
  obtain s where s: "byte c2 = 128 + s" "s < 64" "char_of (128 + s) = c2"
    using is_contE [OF assms(4)] .
  obtain u where u: "byte c3 = 128 + u" "u < 64" "char_of (128 + u) = c3"
    using is_contE [OF assms(5)] .
  define w where w: "w = a * 64 + r"
  define x where x: "x = w * 64 + s"
  let ?v = "x * 64 + u"
  have v: "horner64 (byte c - 240) [c1, c2, c3] = ?v" using a r s u by (simp add: w x)
  have parts: "?v div 64 = x" "?v mod 64 = u" "x div 64 = w" "x mod 64 = s" "w div 64 = a" "w mod 64 = r"
    using radix64 [OF u(2), of x] radix64 [OF s(2), of w] radix64 [OF r(2), of a]
    by (simp_all add: w [symmetric] x [symmetric])
  have lim: "a < 5" "a = 0 \<Longrightarrow> 16 \<le> r" "a = 4 \<Longrightarrow> r < 16"
    using assms a r by (auto simp: second_ok_def)
  have "65536 \<le> ?v" using lim w x by (cases "a = 0") simp_all
  moreover have "?v < 1114112" using lim r s u w x by (cases "a = 4"; simp)
  ultimately show ?thesis unfolding v encode_char_def is_scalar_def parts using a r s u by simp
qed

lemma encode_utf8_from_utf8:
  "from_utf8 s = Some cps \<Longrightarrow> encode_utf8 cps = s \<and> (\<forall>cp \<in> set cps. is_scalar cp)"
proof (induction s arbitrary: cps rule: from_utf8.induct)
  case 1
  then show ?case by (simp add: encode_utf8_def)
next
  case (2 c cs)
  show ?case
    using "2.prems" "2.IH"
    by (auto simp: from_utf8.simps(2) [of c cs] encode_utf8_def
        encode_char_1 encode_char_2 encode_char_3 encode_char_4
        simp del: horner64.simps split: if_split_asm list.split_asm)
qed

section \<open>White space, trimming and splitting\<close>

text \<open>\<open>char::is_whitespace\<close>: the Unicode property White_Space.\<close>

definition is_whitespace :: "nat \<Rightarrow> bool" where
  [std_defs]: "is_whitespace cp \<longleftrightarrow>
     (9 \<le> cp \<and> cp \<le> 13) \<or> cp = 32 \<or> cp = 133 \<or> cp = 160 \<or> cp = 5760
     \<or> (8192 \<le> cp \<and> cp \<le> 8202) \<or> cp = 8232 \<or> cp = 8233 \<or> cp = 8239 \<or> cp = 8287 \<or> cp = 12288"

definition trim_ws :: "nat list \<Rightarrow> nat list" where
  [std_defs]: "trim_ws cps = rev (dropWhile is_whitespace (rev (dropWhile is_whitespace cps)))"

fun split_on :: "char \<Rightarrow> string \<Rightarrow> string list" where
  "split_on c [] = [[]]"
| "split_on c (x # xs) =
     (if x = c then [] # split_on c xs
      else (case split_on c xs of [] \<Rightarrow> [[x]] | h # t \<Rightarrow> (x # h) # t))"

definition split_once :: "char \<Rightarrow> string \<Rightarrow> (string \<times> string) option" where
  [std_defs]: "split_once c s =
     (if c \<in> set s then Some (takeWhile (\<lambda>x. x \<noteq> c) s, tl (dropWhile (\<lambda>x. x \<noteq> c) s)) else None)"

definition rsplit_once :: "char \<Rightarrow> string \<Rightarrow> (string \<times> string) option" where
  [std_defs]: "rsplit_once c s = map_option (\<lambda>(a, b). (rev b, rev a)) (split_once c (rev s))"

definition strip_prefix :: "string \<Rightarrow> string \<Rightarrow> string option" where
  [std_defs]: "strip_prefix p s = (if take (length p) s = p then Some (drop (length p) s) else None)"

definition starts_with :: "string \<Rightarrow> string \<Rightarrow> bool" where
  [std_defs]: "starts_with p s \<longleftrightarrow> take (length p) s = p"

fun find_str :: "string \<Rightarrow> string \<Rightarrow> nat option" where
  "find_str p [] = (if p = [] then Some 0 else None)"
| "find_str p (x # xs) = (if starts_with p (x # xs) then Some 0 else map_option Suc (find_str p xs))"

text \<open>\<open>to_ascii_lowercase\<close> and \<open>eq_ignore_ascii_case\<close>.\<close>

definition ascii_lower :: "char \<Rightarrow> char" where
  [std_defs]: "ascii_lower c = (if 65 \<le> byte c \<and> byte c \<le> 90 then char_of (byte c + 32) else c)"

definition to_ascii_lowercase :: "string \<Rightarrow> string" where
  [std_defs]: "to_ascii_lowercase s = map ascii_lower s"

definition eq_ignore_ascii_case :: "string \<Rightarrow> string \<Rightarrow> bool" where
  [std_defs]: "eq_ignore_ascii_case a b \<longleftrightarrow> to_ascii_lowercase a = to_ascii_lowercase b"

text \<open>\<open>str::trim\<close>.\<close>

definition trim_str :: "string \<Rightarrow> string" where
  [std_defs]: "trim_str s = (case from_utf8 s of None \<Rightarrow> s | Some cps \<Rightarrow> encode_utf8 (trim_ws cps))"

lemma split_on_nonempty [simp]: "split_on c s \<noteq> []"
  by (induction s) (auto split: list.splits)

lemma split_on_single: "c \<notin> set s \<Longrightarrow> split_on c s = [s]"
  by (induction s) auto

lemma split_on_append: "c \<notin> set a \<Longrightarrow> split_on c (a @ c # b) = a # split_on c b"
  by (induction a) auto

lemma split_on_no_sep: "h \<in> set (split_on c s) \<Longrightarrow> c \<notin> set h"
  by (induction s arbitrary: h) (auto split: list.splits if_splits)

lemma split_once_append:
  assumes "c \<notin> set a"
  shows "split_once c (a @ c # b) = Some (a, b)"
proof -
  have neq: "x \<in> set a \<Longrightarrow> x \<noteq> c" for x using assms by auto
  then show ?thesis by (simp add: split_once_def takeWhile_append2)
qed

lemma split_once_Some: "split_once c s = Some (a, b) \<Longrightarrow> s = a @ c # b \<and> c \<notin> set a"
proof -
  assume eq: "split_once c s = Some (a, b)"
  then have c: "c \<in> set s" by (auto simp: split_once_def split: if_splits)
  then obtain ys zs where s: "s = ys @ c # zs" "c \<notin> set ys" by (meson split_list_first)
  with eq split_once_append [of c ys zs] show ?thesis by simp
qed

lemma rsplit_once_append: "c \<notin> set b \<Longrightarrow> rsplit_once c (a @ c # b) = Some (a, b)"
  using split_once_append [of c "rev b" "rev a"] by (simp add: rsplit_once_def)

lemma rsplit_once_Some: "rsplit_once c s = Some (a, b) \<Longrightarrow> s = a @ c # b \<and> c \<notin> set b"
proof -
  assume "rsplit_once c s = Some (a, b)"
  then obtain x y where xy: "split_once c (rev s) = Some (x, y)" "a = rev y" "b = rev x"
    by (auto simp: rsplit_once_def)
  from split_once_Some [OF xy(1)] have "rev s = x @ c # y" "c \<notin> set x" by auto
  then show ?thesis using xy(2,3) by (simp add: rev_swap)
qed

lemma strip_prefix_append [simp]: "strip_prefix p (p @ s) = Some s"
  by (simp add: strip_prefix_def)

lemma strip_prefix_Some: "strip_prefix p s = Some r \<longleftrightarrow> s = p @ r"
  by (auto simp: strip_prefix_def) (metis append_take_drop_id)

lemma find_str_Some: "find_str p s = Some i \<Longrightarrow> s = take i s @ p @ drop (i + length p) s"
proof (induction s arbitrary: i)
  case (Cons x xs)
  show ?case
  proof (cases "starts_with p (x # xs)")
    case True
    then have "i = 0" using Cons.prems by simp
    then show ?thesis using True by (metis append_take_drop_id starts_with_def self_append_conv2 take0 add_0)
  next
    case False
    then obtain j where "find_str p xs = Some j" "i = Suc j" using Cons.prems by auto
    then show ?thesis using Cons.IH [of j] by simp
  qed
qed (auto split: if_splits)

lemma trim_ws_idem: "trim_ws (trim_ws cps) = trim_ws cps"
proof -
  let ?P = is_whitespace
  have first: "dropWhile ?P (rev (dropWhile ?P (rev xs))) = rev (dropWhile ?P (rev xs))"
    if "dropWhile ?P xs = xs" for xs :: "nat list"
  proof (cases "rev (dropWhile ?P (rev xs))")
    case (Cons y ys)
    then have "prefix (y # ys) xs"
      by (metis rev_rev_ident suffix_dropWhile suffix_to_prefix)
    then obtain zs where "xs = y # zs" by (auto simp: prefix_def)
    then have "\<not> ?P y" using that by (metis dropWhile_eq_self_iff list.distinct(1) list.sel(1))
    then show ?thesis using Cons by simp
  next
    case Nil
    then show ?thesis by (simp only: dropWhile.simps)
  qed
  show ?thesis by (simp add: trim_ws_def first)
qed

lemma trim_ws_set: "set (trim_ws cps) \<subseteq> set cps"
  unfolding trim_ws_def by (metis set_dropWhileD set_rev subsetI)

lemma trim_ws_infix: "\<exists>a b. cps = a @ trim_ws cps @ b"
proof -
  obtain a where a: "cps = a @ dropWhile is_whitespace cps"
    by (metis takeWhile_dropWhile_id)
  obtain b where "rev (dropWhile is_whitespace cps) = b @ rev (trim_ws cps)"
    by (metis rev_rev_ident takeWhile_dropWhile_id trim_ws_def)
  then have "dropWhile is_whitespace cps = trim_ws cps @ rev b"
    by (metis rev_append rev_rev_ident)
  with a show ?thesis by metis
qed

lemma trim_ws_ends:
  assumes "trim_ws cps \<noteq> []"
  shows "\<not> is_whitespace (hd (trim_ws cps)) \<and> \<not> is_whitespace (last (trim_ws cps))"
proof -
  let ?d = "dropWhile is_whitespace cps"
  have "\<not> is_whitespace (last (trim_ws cps))"
    using assms by (simp add: trim_ws_def last_rev hd_dropWhile)
  moreover have "hd (trim_ws cps) = hd ?d"
  proof -
    have "prefix (trim_ws cps) ?d"
      unfolding trim_ws_def by (metis rev_rev_ident suffix_dropWhile suffix_to_prefix)
    then show ?thesis using assms by (auto simp: prefix_def)
  qed
  moreover have "?d \<noteq> []" using assms by (metis trim_ws_def dropWhile.simps(1) rev.simps(1))
  ultimately show ?thesis using hd_dropWhile by metis
qed

section \<open>Formatting of integers\<close>

definition digit_char :: "nat \<Rightarrow> char" where
  [std_defs]: "digit_char d = char_of (48 + d)"

text \<open>\<open>Display\<close> of an unsigned and of a signed integer, \<open>{:0w}\<close>, and lowercase hexadecimal.\<close>

fun show_nat :: "nat \<Rightarrow> string" where
  "show_nat n = (if n < 10 then [digit_char n] else show_nat (n div 10) @ [digit_char (n mod 10)])"

declare show_nat.simps [simp del]

definition show_int :: "int \<Rightarrow> string" where
  [std_defs]: "show_int x = (if x < 0 then CHR ''-'' # show_nat (nat (- x)) else show_nat (nat x))"

definition pad0 :: "nat \<Rightarrow> string \<Rightarrow> string" where
  [std_defs]: "pad0 w s = replicate (w - length s) (CHR ''0'') @ s"

definition show_int0 :: "nat \<Rightarrow> int \<Rightarrow> string" where
  [std_defs]: "show_int0 w x =
     (if x < 0 then CHR ''-'' # pad0 (w - 1) (show_nat (nat (- x))) else pad0 w (show_nat (nat x)))"

definition hex_char :: "nat \<Rightarrow> char" where
  [std_defs]: "hex_char d = (if d < 10 then char_of (48 + d) else char_of (87 + d))"

lemma digit_char_digit: "d < 10 \<Longrightarrow> is_ascii_digit (digit_char d) \<and> digit_val (digit_char d) = d"
  by (simp add: digit_char_def is_ascii_digit_def digit_val_def)

lemma hex_digit_hex_char: "d < 16 \<Longrightarrow> hex_digit (hex_char d) = Some d"
  by (simp add: hex_digit_def hex_char_def is_ascii_digit_def)

lemma show_nat_nonempty [simp]: "show_nat n \<noteq> []"
  by (subst show_nat.simps) simp

lemma show_nat_digits: "\<forall>c \<in> set (show_nat n). is_ascii_digit c"
proof (induction n rule: show_nat.induct)
  case (1 n)
  then show ?case by (cases "n < 10") (auto simp: show_nat.simps [of n] digit_char_digit)
qed

text \<open>The value of a string of decimal digits; \<open>show_nat\<close> is its right inverse.\<close>

definition decimal :: "string \<Rightarrow> nat" where
  "decimal s = foldl (\<lambda>v c. v * 10 + digit_val c) 0 s"

lemma decimal_append: "decimal (s @ [c]) = decimal s * 10 + digit_val c"
  by (simp add: decimal_def)

lemma decimal_show_nat: "decimal (show_nat n) = n"
proof (induction n rule: show_nat.induct)
  case (1 n)
  show ?case
  proof (cases "n < 10")
    case True
    then show ?thesis by (simp add: show_nat.simps [of n] decimal_def digit_char_digit)
  next
    case False
    then show ?thesis using 1 by (simp add: show_nat.simps [of n] decimal_append digit_char_digit)
  qed
qed

lemma show_nat_inject: "show_nat m = show_nat n \<longleftrightarrow> m = n"
  by (metis decimal_show_nat)

lemma show_nat_no_leading_zero: "0 < n \<Longrightarrow> hd (show_nat n) \<noteq> CHR ''0''"
proof (induction n rule: show_nat.induct)
  case (1 n)
  show ?case
  proof (cases "n < 10")
    case True
    have "byte (digit_char n) = 48 + n" using True by (simp add: digit_char_def)
    then have "digit_char n \<noteq> CHR ''0''" using 1 by auto
    then show ?thesis using True by (simp add: show_nat.simps [of n])
  next
    case False
    then show ?thesis using 1 by (simp add: show_nat.simps [of n])
  qed
qed

lemma length_show_nat_le: "n < 10 ^ Suc k \<Longrightarrow> length (show_nat n) \<le> Suc k"
proof (induction k arbitrary: n)
  case 0
  then show ?case by (simp add: show_nat.simps [of n])
next
  case (Suc k)
  then have "n div 10 < 10 ^ Suc k" by (simp add: less_mult_imp_div_less)
  then show ?case using Suc.IH [of "n div 10"] by (simp add: show_nat.simps [of n])
qed

text \<open>A digit string without a leading zero is the printed form of its value.\<close>

lemma show_nat_decimal:
  assumes "s \<noteq> []" "\<forall>c \<in> set s. is_ascii_digit c" "hd s \<noteq> CHR ''0'' \<or> length s = 1"
  shows "show_nat (decimal s) = s"
  using assms
proof (induction s rule: rev_induct)
  case (snoc c s)
  have c: "digit_val c < 10" "digit_char (digit_val c) = c"
    using snoc.prems by (auto simp: is_ascii_digit_def digit_val_def digit_char_def)
  show ?case
  proof (cases "s = []")
    case True
    then show ?thesis using c by (simp add: decimal_def show_nat.simps)
  next
    case False
    then have hd: "hd s \<noteq> CHR ''0''" using snoc.prems by auto
    then have IH: "show_nat (decimal s) = s" using snoc False by auto
    have "0 < decimal s"
    proof (rule ccontr)
      assume "\<not> 0 < decimal s"
      then have "s = show_nat 0" using IH by simp
      then show False using hd by (simp add: show_nat.simps digit_char_def char_of_def bit_0)
    qed
    then show ?thesis using IH c
      by (subst show_nat.simps) (simp add: decimal_append)
  qed
qed simp

lemma decimal_less: "\<forall>c \<in> set s. is_ascii_digit c \<Longrightarrow> decimal s < 10 ^ length s"
proof (induction s rule: rev_induct)
  case (snoc c s)
  then have "decimal s < 10 ^ length s" "digit_val c < 10" by (auto simp: is_ascii_digit_def digit_val_def)
  then show ?case by (simp add: decimal_append)
qed (simp add: decimal_def)

text \<open>\<open>str::parse\<close> at an unsigned type: digits with an optional plus sign, within the type's range.\<close>

definition parse_uint :: "nat \<Rightarrow> string \<Rightarrow> nat option" where
  [std_defs]: "parse_uint most s =
     (let ds = (case strip_prefix ''+'' s of Some r \<Rightarrow> r | None \<Rightarrow> s)
      in if ds \<noteq> [] \<and> list_all is_ascii_digit ds \<and> decimal ds \<le> most then Some (decimal ds) else None)"

lemma parse_uint_digits: "s \<noteq> [] \<Longrightarrow> list_all is_ascii_digit s \<Longrightarrow> decimal s \<le> most \<Longrightarrow> parse_uint most s = Some (decimal s)"
  by (cases s) (auto simp: parse_uint_def strip_prefix_def is_ascii_digit_def)

end
