(* ===== verification/Buf.thy ===== *)
theory Buf
  imports Rust_Text
begin

text \<open>
  \<^verbatim>\<open>crates/omt-common/src/buf.rs\<close>: the bounded buffer, the checked read cursor, hexadecimal and the
  strict decimal parser. Whether the allocator can serve a request is the environment's: every
  operation that may allocate takes \<open>alloc\<close>, which maps the requested capacity to the capacity
  obtained, or to \<open>None\<close> when the allocation fails. The zeroing of freed memory
  (\<open>wipe\<close>, \<open>wipe_vec\<close>, \<open>wipe_string\<close>) is not modelled: it has no effect a caller can observe.
\<close>

section \<open>The bounded buffer\<close>

record bounded_buf =
  bb_data :: "u8 list"
  bb_capacity :: nat
  bb_limit :: nat
  bb_failed :: bool

definition bb_new :: "nat \<Rightarrow> bounded_buf" where
  [model_defs]: "bb_new limit = \<lparr>bb_data = [], bb_capacity = 0, bb_limit = limit, bb_failed = False\<rparr>"

text \<open>The loop of \<open>reserve\<close>: doubling from a positive capacity. In Rust \<open>need\<close> is a \<open>usize\<close>, which
  the guard writes out.\<close>

function grow_cap :: "nat \<Rightarrow> nat \<Rightarrow> nat" where
  "grow_cap cap need =
     (if cap < need \<and> 0 < cap \<and> need \<le> USIZE_MAX
      then grow_cap (saturating_mul USIZE_MAX cap 2) need else cap)"
  by pat_completeness auto
termination
  by (relation "measure (\<lambda>(cap, need). need - cap)") (auto simp: saturating_mul_def)

declare grow_cap.simps [simp del]

definition bb_reserve :: "(nat \<Rightarrow> nat option) \<Rightarrow> bounded_buf \<Rightarrow> nat \<Rightarrow> bounded_buf \<times> bool" where
  [model_defs]: "bb_reserve alloc b extra =
     (if bb_failed b then (b, False)
      else (case checked_add USIZE_MAX (length (bb_data b)) extra of
              None \<Rightarrow> (b\<lparr>bb_failed := True\<rparr>, False)
            | Some need \<Rightarrow>
                if \<not> need \<le> bb_limit b then (b\<lparr>bb_failed := True\<rparr>, False)
                else if need \<le> bb_capacity b then (b, True)
                else (let cap = min (grow_cap (max (bb_capacity b) 64) need) (bb_limit b)
                      in case alloc cap of
                           None \<Rightarrow> (b\<lparr>bb_failed := True\<rparr>, False)
                         | Some c \<Rightarrow> (b\<lparr>bb_capacity := c\<rparr>, True))))"

definition bb_append :: "(nat \<Rightarrow> nat option) \<Rightarrow> bounded_buf \<Rightarrow> u8 list \<Rightarrow> bounded_buf" where
  [model_defs]: "bb_append alloc b bytes =
     (let (b', fits) = bb_reserve alloc b (length bytes)
      in if fits then b'\<lparr>bb_data := bb_data b' @ bytes\<rparr> else b')"

definition bb_push :: "(nat \<Rightarrow> nat option) \<Rightarrow> bounded_buf \<Rightarrow> u8 \<Rightarrow> bounded_buf" where
  [model_defs]: "bb_push alloc b x = bb_append alloc b [x]"

definition bb_push_str :: "(nat \<Rightarrow> nat option) \<Rightarrow> bounded_buf \<Rightarrow> string \<Rightarrow> bounded_buf" where
  [model_defs]: "bb_push_str alloc b s = bb_append alloc b (as_bytes s)"

text \<open>Lowercase hexadecimal, the free function \<open>hex\<close>.\<close>

definition hex :: "u8 list \<Rightarrow> string" where
  [model_defs]: "hex bytes = concat (map (\<lambda>b. [hex_char (unat b div 16), hex_char (unat b mod 16)]) bytes)"

definition bb_hex :: "(nat \<Rightarrow> nat option) \<Rightarrow> bounded_buf \<Rightarrow> u8 list \<Rightarrow> bounded_buf" where
  [model_defs]: "bb_hex alloc b bytes =
     (case checked_mul USIZE_MAX (length bytes) 2 of
        None \<Rightarrow> b\<lparr>bb_failed := True\<rparr>
      | Some width \<Rightarrow>
          (let (b', fits) = bb_reserve alloc b width
           in if fits then b'\<lparr>bb_data := bb_data b' @ as_bytes (hex bytes)\<rparr> else b'))"

definition bb_clear :: "bounded_buf \<Rightarrow> bounded_buf" where
  [model_defs]: "bb_clear b = b\<lparr>bb_data := [], bb_failed := False\<rparr>"

text \<open>\<open>wipe\<close>: the zeroing has no effect a caller can observe; the contents and the failure mark go.\<close>

definition bb_wipe :: "bounded_buf \<Rightarrow> bounded_buf" where
  [model_defs]: "bb_wipe b = b\<lparr>bb_data := [], bb_failed := False\<rparr>"

definition bb_as_str :: "bounded_buf \<Rightarrow> string" where
  [model_defs]: "bb_as_str b = (if utf8_valid (of_bytes (bb_data b)) then of_bytes (bb_data b) else [])"

definition bb_consume :: "bounded_buf \<Rightarrow> nat \<Rightarrow> bounded_buf" where
  [model_defs]: "bb_consume b n =
     (if length (bb_data b) \<le> n then bb_clear b else b\<lparr>bb_data := drop n (bb_data b)\<rparr>)"

definition bb_into_vec :: "bounded_buf \<Rightarrow> u8 list option" where
  [model_defs]: "bb_into_vec b = (if bb_failed b then None else Some (bb_data b))"

definition bb_into_string :: "bounded_buf \<Rightarrow> string option" where
  [model_defs]: "bb_into_string b =
     (case bb_into_vec b of
        None \<Rightarrow> None
      | Some v \<Rightarrow> if utf8_valid (of_bytes v) then Some (of_bytes v) else None)"

text \<open>\<open>fmt::Write::write_str\<close>.\<close>

definition bb_write_str :: "(nat \<Rightarrow> nat option) \<Rightarrow> bounded_buf \<Rightarrow> string \<Rightarrow> bounded_buf \<times> bool" where
  [model_defs]: "bb_write_str alloc b s = (let b' = bb_push_str alloc b s in (b', \<not> bb_failed b'))"

text \<open>The invariant: what is held never passes the limit, nor the allocation.\<close>

definition bb_ok :: "bounded_buf \<Rightarrow> bool" where
  "bb_ok b \<longleftrightarrow> length (bb_data b) \<le> bb_limit b \<and> length (bb_data b) \<le> bb_capacity b
     \<and> bb_limit b \<le> USIZE_MAX"

text \<open>What \<open>try_reserve_exact\<close> documents: on success there is at least the room asked for.\<close>

definition alloc_ok :: "(nat \<Rightarrow> nat option) \<Rightarrow> bool" where
  "alloc_ok alloc \<longleftrightarrow> (\<forall>n c. alloc n = Some c \<longrightarrow> n \<le> c)"

subsection \<open>What the growth loop reaches\<close>

lemma grow_cap_ge: "0 < cap \<Longrightarrow> need \<le> USIZE_MAX \<Longrightarrow> need \<le> grow_cap cap need \<and> cap \<le> grow_cap cap need"
proof (induction cap need rule: grow_cap.induct)
  case (1 cap need)
  show ?case
  proof (cases "cap < need")
    case True
    have pos: "0 < saturating_mul USIZE_MAX cap 2" "cap \<le> saturating_mul USIZE_MAX cap 2"
      using 1 True by (auto simp: saturating_mul_def)
    have "need \<le> grow_cap (saturating_mul USIZE_MAX cap 2) need"
         "saturating_mul USIZE_MAX cap 2 \<le> grow_cap (saturating_mul USIZE_MAX cap 2) need"
      using "1.IH" "1.prems" True pos(1) by auto
    moreover have "grow_cap cap need = grow_cap (saturating_mul USIZE_MAX cap 2) need"
      using "1.prems" True by (subst grow_cap.simps) simp
    ultimately show ?thesis using pos(2) by linarith
  next
    case False
    then show ?thesis by (simp add: grow_cap.simps [of cap need])
  qed
qed

text \<open>Doubling stops early: the capacity asked for is less than twice the need once past 64.\<close>

lemma grow_cap_le: "0 < cap \<Longrightarrow> need \<le> USIZE_MAX \<Longrightarrow> grow_cap cap need \<le> max cap (2 * need)"
proof (induction cap need rule: grow_cap.induct)
  case (1 cap need)
  show ?case
  proof (cases "cap < need")
    case True
    have pos: "0 < saturating_mul USIZE_MAX cap 2" using 1 by (auto simp: saturating_mul_def)
    have "grow_cap (saturating_mul USIZE_MAX cap 2) need \<le> max (saturating_mul USIZE_MAX cap 2) (2 * need)"
      using "1.IH" "1.prems" True pos by auto
    moreover have "saturating_mul USIZE_MAX cap 2 \<le> 2 * need" using True by (simp add: saturating_mul_def)
    ultimately show ?thesis using "1.prems" True by (simp add: grow_cap.simps [of cap need])
  next
    case False
    then show ?thesis by (simp add: grow_cap.simps [of cap need])
  qed
qed

lemma bb_reserve_cases:
  assumes "bb_ok b" and "alloc_ok alloc" and "bb_reserve alloc b extra = (b', fits)"
  shows "fits \<Longrightarrow> \<not> bb_failed b \<and> bb_data b' = bb_data b \<and> bb_limit b' = bb_limit b \<and> \<not> bb_failed b'
           \<and> length (bb_data b) + extra \<le> bb_limit b \<and> length (bb_data b) + extra \<le> bb_capacity b'"
    and "\<not> fits \<Longrightarrow> b' = b\<lparr>bb_failed := True\<rparr>"
proof -
  define need where need: "need = length (bb_data b) + extra"
  define cap where cap: "cap = min (grow_cap (max (bb_capacity b) 64) need) (bb_limit b)"
  have le: "need \<le> bb_limit b \<Longrightarrow> need \<le> cap"
    using assms(1) grow_cap_ge [of "max (bb_capacity b) 64" need] by (simp add: bb_ok_def cap)
  have room: "alloc cap = Some c \<Longrightarrow> cap \<le> c" for c using assms(2) by (simp add: alloc_ok_def)
  have eq: "bb_reserve alloc b extra =
     (if bb_failed b \<or> USIZE_MAX < need \<or> bb_limit b < need then (b\<lparr>bb_failed := True\<rparr>, False)
      else if need \<le> bb_capacity b then (b, True)
      else (case alloc cap of None \<Rightarrow> (b\<lparr>bb_failed := True\<rparr>, False)
            | Some c \<Rightarrow> (b\<lparr>bb_capacity := c\<rparr>, True)))"
    by (auto simp: bb_reserve_def checked_add_def Let_def need cap)
  show "fits \<Longrightarrow> \<not> bb_failed b \<and> bb_data b' = bb_data b \<and> bb_limit b' = bb_limit b \<and> \<not> bb_failed b'
      \<and> length (bb_data b) + extra \<le> bb_limit b \<and> length (bb_data b) + extra \<le> bb_capacity b'"
    using assms(3) le room unfolding eq need [symmetric]
    by (auto split: if_split_asm option.split_asm intro: le_trans)
  show "\<not> fits \<Longrightarrow> b' = b\<lparr>bb_failed := True\<rparr>"
    using assms(3) unfolding eq by (auto split: if_split_asm option.split_asm)
qed

lemma bb_reserveE:
  assumes "bb_ok b" and "alloc_ok alloc"
  obtains (fits) b' where "bb_reserve alloc b extra = (b', True)" "\<not> bb_failed b" "\<not> bb_failed b'"
      "bb_data b' = bb_data b" "bb_limit b' = bb_limit b"
      "length (bb_data b) + extra \<le> bb_limit b" "length (bb_data b) + extra \<le> bb_capacity b'"
    | (full) "bb_reserve alloc b extra = (b\<lparr>bb_failed := True\<rparr>, False)"
proof -
  obtain b' f where r: "bb_reserve alloc b extra = (b', f)" by fastforce
  show thesis
  proof (cases f)
    case True
    then show thesis using bb_reserve_cases(1) [OF assms r] r fits by simp
  next
    case False
    then show thesis using bb_reserve_cases(2) [OF assms r] r full by simp
  qed
qed

lemma bb_append_fits:
  assumes "bb_ok b" and "alloc_ok alloc" and "\<not> bb_failed (bb_append alloc b xs)"
  shows "\<not> bb_failed b \<and> bb_data (bb_append alloc b xs) = bb_data b @ xs"
  using assms(1,2)
  by (cases rule: bb_reserveE [of b alloc "length xs"]) (use assms(3) in \<open>simp_all add: bb_append_def\<close>)

lemma bb_append_failed:
  assumes "bb_ok b" and "alloc_ok alloc" and "bb_failed (bb_append alloc b xs)"
  shows "bb_append alloc b xs = b\<lparr>bb_failed := True\<rparr>"
  using assms(1,2)
  by (cases rule: bb_reserveE [of b alloc "length xs"]) (use assms(3) in \<open>simp_all add: bb_append_def\<close>)

lemma bb_append_ok: "bb_ok b \<Longrightarrow> alloc_ok alloc \<Longrightarrow> bb_ok (bb_append alloc b xs)"
  by (cases rule: bb_reserveE [of b alloc "length xs"]) (simp_all add: bb_append_def bb_ok_def)

lemma bb_append_sticky: "bb_failed b \<Longrightarrow> bb_append alloc b xs = b"
  by (simp add: bb_append_def bb_reserve_def)

lemma length_hex [simp]: "length (hex xs) = 2 * length xs"
  by (induction xs) (simp_all add: hex_def)

lemma bb_hex_ok: "bb_ok b \<Longrightarrow> alloc_ok alloc \<Longrightarrow> bb_ok (bb_hex alloc b xs)"
  by (cases rule: bb_reserveE [of b alloc "length xs * 2"])
    (simp_all add: bb_hex_def bb_ok_def checked_mul_def)

lemma bb_consume_ok: "bb_ok b \<Longrightarrow> bb_ok (bb_consume b n)"
  by (auto simp: bb_consume_def bb_clear_def bb_ok_def)

lemma bb_new_ok: "limit \<le> USIZE_MAX \<Longrightarrow> bb_ok (bb_new limit)"
  by (simp add: bb_new_def bb_ok_def)

section \<open>The contract of a sink that is checked once\<close>

text \<open>
  The module promises that a writer may append without looking and check the failure flag once at
  the end. The interface says what an append must keep for that to be sound; the client lemmas are
  proved from it alone.
\<close>

locale bounded_sink =
  fixes append :: "'b \<Rightarrow> 'c list \<Rightarrow> 'b"
    and contents :: "'b \<Rightarrow> 'c list"
    and failed :: "'b \<Rightarrow> bool"
    and invar :: "'b \<Rightarrow> bool"
  assumes append_invar: "invar b \<Longrightarrow> invar (append b xs)"
    and append_stored: "invar b \<Longrightarrow> \<not> failed (append b xs) \<Longrightarrow> contents (append b xs) = contents b @ xs"
    and append_refused: "invar b \<Longrightarrow> failed (append b xs) \<Longrightarrow> contents (append b xs) = contents b"
    and append_sticky: "invar b \<Longrightarrow> failed b \<Longrightarrow> failed (append b xs)"
begin

lemma write_all_invar: "invar b \<Longrightarrow> invar (foldl append b chunks)"
  by (induction chunks arbitrary: b) (auto intro: append_invar)

lemma write_all_sticky: "invar b \<Longrightarrow> failed b \<Longrightarrow> failed (foldl append b chunks)"
  by (induction chunks arbitrary: b) (auto intro: append_invar append_sticky)

lemma write_all_stored:
  "invar b \<Longrightarrow> \<not> failed (foldl append b chunks) \<Longrightarrow> contents (foldl append b chunks) = contents b @ concat chunks"
proof (induction chunks arbitrary: b)
  case (Cons c cs)
  then have "\<not> failed (append b c)" using write_all_sticky append_invar by auto
  with Cons show ?case by (simp add: append_invar append_stored)
qed simp

lemma write_all_contents:
  "invar b \<Longrightarrow> \<exists>ks. subseq ks chunks \<and> contents (foldl append b chunks) = contents b @ concat ks"
proof (induction chunks arbitrary: b)
  case (Cons c cs)
  then obtain ks where ks: "subseq ks cs" "contents (foldl append (append b c) cs) = contents (append b c) @ concat ks"
    using append_invar by meson
  show ?case
  proof (cases "failed (append b c)")
    case True
    then show ?thesis using ks Cons.prems by (auto simp: append_refused intro!: exI [of _ ks] list_emb_Cons)
  next
    case False
    then show ?thesis using ks Cons.prems by (auto simp: append_stored intro!: exI [of _ "c # ks"])
  qed
qed auto

end

interpretation bb: bounded_sink "bb_append alloc" bb_data bb_failed "\<lambda>b. bb_ok b \<and> alloc_ok alloc" for alloc
proof unfold_locales
  show "bb_ok b \<and> alloc_ok alloc \<Longrightarrow> bb_ok (bb_append alloc b xs) \<and> alloc_ok alloc" for b xs
    by (simp add: bb_append_ok)
  show "bb_ok b \<and> alloc_ok alloc \<Longrightarrow> \<not> bb_failed (bb_append alloc b xs)
     \<Longrightarrow> bb_data (bb_append alloc b xs) = bb_data b @ xs" for b xs
    by (simp add: bb_append_fits)
  show "bb_ok b \<and> alloc_ok alloc \<Longrightarrow> bb_failed (bb_append alloc b xs)
     \<Longrightarrow> bb_data (bb_append alloc b xs) = bb_data b" for b xs
    using bb_append_failed [of b alloc xs] by auto
  show "bb_ok b \<and> alloc_ok alloc \<Longrightarrow> bb_failed b \<Longrightarrow> bb_failed (bb_append alloc b xs)" for b xs
    by (simp add: bb_append_sticky)
qed

lemma bb_append_limit: "bb_limit (bb_append alloc b xs) = bb_limit b"
  by (auto simp: bb_append_def bb_reserve_def Let_def split: option.splits if_splits prod.splits)

lemma write_all_limit: "bb_limit (foldl (bb_append alloc) b chunks) = bb_limit b"
  by (induction chunks arbitrary: b) (simp_all add: bb_append_limit)

section \<open>The read cursor\<close>

text \<open>A cursor is the unread rest; each read returns the value and the cursor after it.\<close>

type_synonym cursor = "u8 list"

definition cur_take :: "cursor \<Rightarrow> nat \<Rightarrow> (u8 list \<times> cursor) option" where
  [model_defs]: "cur_take c n = (if n \<le> length c then Some (take n c, drop n c) else None)"

definition cur_skip :: "cursor \<Rightarrow> nat \<Rightarrow> cursor option" where
  [model_defs]: "cur_skip c n = map_option snd (cur_take c n)"

definition cur_u8 :: "cursor \<Rightarrow> (u8 \<times> cursor) option" where
  [model_defs]: "cur_u8 c = (case c of [] \<Rightarrow> None | b # tail \<Rightarrow> Some (b, tail))"

definition cur_be32 :: "cursor \<Rightarrow> (nat \<times> cursor) option" where
  [model_defs]: "cur_be32 c = (if 4 \<le> length c then Some (be_val (take 4 c), drop 4 c) else None)"

definition cur_be64 :: "cursor \<Rightarrow> (nat \<times> cursor) option" where
  [model_defs]: "cur_be64 c = (if 8 \<le> length c then Some (be_val (take 8 c), drop 8 c) else None)"

lemma cur_take_Some: "cur_take c n = Some (h, r) \<longleftrightarrow> c = h @ r \<and> length h = n"
  by (auto simp: cur_take_def)

lemma cur_be32_bytes: "cur_be32 (be_bytes 4 v @ r) = Some (v mod 4294967296, r)"
  using be_val_be_bytes [of 4 v] by (simp add: cur_be32_def)

lemma cur_be64_bytes: "cur_be64 (be_bytes 8 v @ r) = Some (v mod 18446744073709551616, r)"
  using be_val_be_bytes [of 8 v] by (simp add: cur_be64_def)

section \<open>The strict decimal parser\<close>

fun parse_u64_from :: "nat \<Rightarrow> string \<Rightarrow> nat \<Rightarrow> nat option" where
  "parse_u64_from value [] mx = Some value"
| "parse_u64_from value (c # s) mx =
     (if \<not> is_ascii_digit c then None
      else (case checked_mul U64_MAX value 10 of
              None \<Rightarrow> None
            | Some v10 \<Rightarrow>
                (case checked_add U64_MAX v10 (digit_val c) of
                   None \<Rightarrow> None
                 | Some v \<Rightarrow> if mx < v then None else parse_u64_from v s mx)))"

definition parse_u64 :: "string \<Rightarrow> nat \<Rightarrow> nat option" where
  [model_defs]: "parse_u64 s mx = (if s = [] then None else parse_u64_from 0 s mx)"

text \<open>The digits folded onto a starting value, the specification of the loop.\<close>

abbreviation decimal_from :: "nat \<Rightarrow> string \<Rightarrow> nat" where
  "decimal_from v s \<equiv> foldl (\<lambda>v c. v * 10 + digit_val c) v s"

lemma decimal_from_ge: "v \<le> decimal_from v s"
proof (induction s arbitrary: v)
  case (Cons c s)
  have "v \<le> v * 10 + digit_val c" by simp
  also have "\<dots> \<le> decimal_from (v * 10 + digit_val c) s" by (rule Cons.IH)
  finally show ?case by simp
qed simp

lemma parse_u64_from_Some:
  "mx \<le> U64_MAX \<Longrightarrow> v \<le> mx \<Longrightarrow>
   parse_u64_from v s mx = Some w \<longleftrightarrow>
     (\<forall>c \<in> set s. is_ascii_digit c) \<and> w = decimal_from v s \<and> decimal_from v s \<le> mx"
proof (induction s arbitrary: v)
  case (Cons c s)
  let ?v = "v * 10 + digit_val c"
  have ge: "?v \<le> decimal_from ?v s" by (rule decimal_from_ge)
  show ?case
  proof (cases "?v \<le> mx")
    case True
    then show ?thesis using Cons.IH [OF Cons.prems(1) True] Cons.prems
      by (auto simp: checked_mul_def checked_add_def)
  next
    case False
    then show ?thesis using ge Cons.prems by (auto simp: checked_mul_def checked_add_def)
  qed
qed auto

lemma parse_u64_Some:
  "mx \<le> U64_MAX \<Longrightarrow> parse_u64 s mx = Some v \<longleftrightarrow>
     s \<noteq> [] \<and> (\<forall>c \<in> set s. is_ascii_digit c) \<and> v = decimal s \<and> decimal s \<le> mx"
  using parse_u64_from_Some [of mx 0 s v] by (simp add: parse_u64_def decimal_def)

lemma parse_u64_None:
  "mx \<le> U64_MAX \<Longrightarrow> parse_u64 s mx = None \<longleftrightarrow>
     s = [] \<or> (\<exists>c \<in> set s. \<not> is_ascii_digit c) \<or> mx < decimal s"
  using parse_u64_Some [of mx s "decimal s"] parse_u64_Some [of mx s "the (parse_u64 s mx)"]
  by (cases "parse_u64 s mx") (simp_all, auto)

lemma parse_u64_show_nat: "mx \<le> U64_MAX \<Longrightarrow> n \<le> mx \<Longrightarrow> parse_u64 (show_nat n) mx = Some n"
  by (simp add: parse_u64_Some show_nat_digits decimal_show_nat)

section \<open>Properties\<close>

text \<open>C5. Checking once is enough: after any sequence of appends to a fresh buffer, under any
  behaviour of the allocator, the document is either complete or refused; never a partial document,
  and never more bytes than the limit.\<close>

theorem bounded_buf_check_once:
  assumes "limit \<le> USIZE_MAX" "alloc_ok alloc"
  shows "(let b = foldl (bb_append alloc) (bb_new limit) chunks
          in bb_into_vec b = (if bb_failed b then None else Some (concat chunks))
             \<and> length (bb_data b) \<le> limit
             \<and> (limit < length (concat chunks) \<longrightarrow> bb_into_vec b = None))"
proof -
  define b where "b = foldl (bb_append alloc) (bb_new limit) chunks"
  have inv: "bb_ok (bb_new limit) \<and> alloc_ok alloc" using assms bb_new_ok by blast
  note all = bb.write_all_stored [of "bb_new limit" alloc chunks] bb.write_all_invar [of "bb_new limit" alloc chunks]
  have lim: "bb_limit (foldl (bb_append alloc) (bb_new limit) chunks) = limit"
    using inv by (simp add: write_all_limit) (simp add: bb_new_def)
  then have len: "length (bb_data b) \<le> limit" using all(2) inv by (simp add: bb_ok_def b_def)
  have stored: "\<not> bb_failed b \<Longrightarrow> bb_data b = concat chunks" using all(1) inv by (simp add: b_def bb_new_def)
  have "limit < length (concat chunks) \<Longrightarrow> bb_into_vec b = None"
    using stored len by (cases "bb_failed b") (auto simp: bb_into_vec_def)
  then show ?thesis using stored len by (simp add: b_def [symmetric] bb_into_vec_def)
qed

theorem bounded_buf_check_once_witness:
  "bb_into_vec (foldl (bb_append (\<lambda>n. Some n)) (bb_new 4) [[97, 98, 99], [100, 101]]) = None
   \<and> bb_into_vec (foldl (bb_append (\<lambda>n. Some n)) (bb_new 4) [[97], [98]]) \<in> {None, Some [97, 98]}"
proof -
  have "alloc_ok (\<lambda>n. Some n)" by (simp add: alloc_ok_def)
  then show ?thesis
    using bounded_buf_check_once [of 4 "\<lambda>n. Some n" "[[97, 98, 99], [100, 101]]"]
      bounded_buf_check_once [of 4 "\<lambda>n. Some n" "[[97], [98]]"]
    by (auto simp: Let_def split: if_splits)
qed

text \<open>The strict decimal parser accepts exactly the non-empty strings of ASCII digits whose value
  is at most the given maximum, and returns that value; no intermediate overflow changes the answer.\<close>

lemma parse_u64_exact:
  assumes "mx \<le> U64_MAX"
  shows "parse_u64 s mx =
     (if s \<noteq> [] \<and> (\<forall>c \<in> set s. is_ascii_digit c) \<and> decimal s \<le> mx then Some (decimal s) else None)"
  using parse_u64_Some [OF assms, of s "decimal s"] parse_u64_None [OF assms, of s] by auto

end
