(* ===== verification/Timefmt.thy ===== *)
theory Timefmt
  imports Rust_Text
begin

text \<open>
  \<^verbatim>\<open>crates/omt-common/src/timefmt.rs\<close>: the calendar arithmetic of the status timestamps. The clock is
  the environment's: \<open>wall_clock\<close> takes what \<open>SystemTime::now().duration_since(UNIX_EPOCH)\<close> returned.
  The lemmas show that the civil-from-days algorithm and its inverse are inverse to each other on
  all days and on all valid dates, and that the RFC 3339 printer and parser round trip.
\<close>

section \<open>The clock and the calendar\<close>

definition secs_i64 :: "nat \<Rightarrow> int" where
  [model_defs]: "secs_i64 n = (if int n \<le> I64_MAX then int n else I64_MAX)"

definition wall_clock :: "(nat \<times> nat) + (nat \<times> nat) \<Rightarrow> int \<times> nat" where
  [model_defs]: "wall_clock since =
     (case since of
        Inr (secs, nanos) \<Rightarrow> (secs_i64 secs, nanos)
      | Inl (secs, nanos) \<Rightarrow>
          if nanos = 0 then (- secs_i64 secs, 0) else (- secs_i64 secs - 1, 1000000000 - nanos))"

definition unix_seconds :: "(nat \<times> nat) + (nat \<times> nat) \<Rightarrow> int" where
  [model_defs]: "unix_seconds since = fst (wall_clock since)"

definition civil_from_days :: "int \<Rightarrow> int \<times> nat \<times> nat" where
  "civil_from_days days =
     (let shifted = days + 719468;
          era = shifted div 146097;
          day_of_era = shifted - era * 146097;
          year_of_era = (day_of_era - day_of_era div 1460 + day_of_era div 36524 - day_of_era div 146096) div 365;
          y = year_of_era + era * 400;
          day_of_year = day_of_era - (365 * year_of_era + year_of_era div 4 - year_of_era div 100);
          month_prime = (5 * day_of_year + 2) div 153;
          d = day_of_year - (153 * month_prime + 2) div 5 + 1;
          m = month_prime + (if month_prime < 10 then 3 else - 9);
          y = (if m \<le> 2 then y + 1 else y)
      in (y, if 0 \<le> m then nat m else 1, if 0 \<le> d then nat d else 1))"

definition days_from_civil :: "int \<Rightarrow> nat \<Rightarrow> nat \<Rightarrow> int" where
  "days_from_civil year month day =
     (let y = year - (if month \<le> 2 then 1 else 0);
          era = y div 400;
          year_of_era = y - era * 400;
          m = int month;
          day_of_year = (153 * (if 2 < m then m - 3 else m + 9) + 2) div 5 + int day - 1;
          day_of_era = year_of_era * 365 + year_of_era div 4 - year_of_era div 100 + day_of_year
      in era * 146097 + day_of_era - 719468)"

record civil =
  c_year :: int
  c_month :: nat
  c_day :: nat
  c_hour :: int
  c_minute :: int
  c_second :: int

definition split_seconds :: "int \<Rightarrow> civil" where
  "split_seconds seconds =
     (let days = seconds div 86400;
          rest = seconds mod 86400;
          (year, month, day) = civil_from_days days
      in \<lparr>c_year = year, c_month = month, c_day = day,
          c_hour = rest div 3600, c_minute = rest mod 3600 div 60, c_second = rest mod 60\<rparr>)"

definition rfc3339_millis :: "int \<Rightarrow> nat \<Rightarrow> string" where
  "rfc3339_millis seconds millis =
     (let c = split_seconds seconds
      in show_int0 4 (c_year c) @ ''-'' @ show_int0 2 (int (c_month c)) @ ''-'' @ show_int0 2 (int (c_day c))
         @ ''T'' @ show_int0 2 (c_hour c) @ '':'' @ show_int0 2 (c_minute c) @ '':'' @ show_int0 2 (c_second c)
         @ ''.'' @ show_int0 3 (int (millis mod 1000)) @ ''Z'')"

definition now_rfc3339_millis :: "(nat \<times> nat) + (nat \<times> nat) \<Rightarrow> string" where
  [model_defs]: "now_rfc3339_millis since =
     (let (seconds, nanos) = wall_clock since in rfc3339_millis seconds (nanos div 1000000))"

definition compact_utc :: "int \<Rightarrow> string" where
  "compact_utc seconds =
     (let c = split_seconds seconds
      in show_int0 4 (c_year c) @ show_int0 2 (int (c_month c)) @ show_int0 2 (int (c_day c))
         @ ''T'' @ show_int0 2 (c_hour c) @ show_int0 2 (c_minute c) @ show_int0 2 (c_second c) @ ''Z'')"

section \<open>The parser\<close>

fun fold_digits :: "nat \<Rightarrow> string \<Rightarrow> nat option" where
  "fold_digits v [] = Some v"
| "fold_digits v (c # cs) = (if is_ascii_digit c then fold_digits (v * 10 + digit_val c) cs else None)"

definition digits :: "string \<Rightarrow> nat \<Rightarrow> nat \<Rightarrow> nat option" where
  [model_defs]: "digits s at n = do { field \<leftarrow> get_range s at (at + n); fold_digits 0 field }"

definition leap :: "int \<Rightarrow> bool" where
  "leap y \<longleftrightarrow> (y mod 4 = 0 \<and> y mod 100 \<noteq> 0) \<or> y mod 400 = 0"

definition DAYS_IN :: "nat list" where
  "DAYS_IN = [31, 28, 31, 30, 31, 30, 31, 31, 30, 31, 30, 31]"

text \<open>The fraction loop on the bytes from \<open>p\<close>: digits past the ninth are counted and dropped. It
  returns the fraction, the number of digits and the rest of the text.\<close>

fun frac_loop :: "nat \<Rightarrow> nat \<Rightarrow> string \<Rightarrow> nat \<times> nat \<times> string" where
  "frac_loop frac n [] = (frac, n, [])"
| "frac_loop frac n (c # cs) =
     (if is_ascii_digit c then frac_loop (if n < 9 then frac * 10 + digit_val c else frac) (n + 1) cs
      else (frac, n, c # cs))"

definition parse_fraction :: "string \<Rightarrow> (nat \<times> string) option" where
  "parse_fraction r =
     (case r of
        c # cs \<Rightarrow>
          if c = CHR ''.'' then
            (let (frac, n, r') = frac_loop 0 0 cs
             in if n = 0 then None else Some (frac * 10 ^ (9 - n), r'))
          else Some (0, r)
      | [] \<Rightarrow> Some (0, r))"

definition parse_offset :: "string \<Rightarrow> (int \<times> string) option" where
  "parse_offset r =
     (case r of
        [] \<Rightarrow> None
      | c # cs \<Rightarrow>
          if c = CHR ''Z'' \<or> c = CHR ''z'' then Some (0, cs)
          else if c = CHR ''+'' \<or> c = CHR ''-'' then
            do {
              oh \<leftarrow> digits r 1 2;
              om \<leftarrow> digits r 4 2;
              if get_at r 3 \<noteq> Some (CHR '':'') \<or> 23 < oh \<or> 59 < om then None
              else Some (int (oh * 3600 + om * 60) * (if c = CHR ''-'' then - 1 else 1), drop 6 r)
            }
          else None)"

definition parse_rfc3339 :: "string \<Rightarrow> (int \<times> nat) option" where
  "parse_rfc3339 s =
     do {
       year \<leftarrow> digits s 0 4;
       month \<leftarrow> digits s 5 2;
       day \<leftarrow> digits s 8 2;
       hour \<leftarrow> digits s 11 2;
       minute \<leftarrow> digits s 14 2;
       second \<leftarrow> digits s 17 2;
       if s ! 4 \<noteq> CHR ''-'' \<or> s ! 7 \<noteq> CHR ''-'' \<or> (s ! 10 \<noteq> CHR ''T'' \<and> s ! 10 \<noteq> CHR ''t'')
          \<or> s ! 13 \<noteq> CHR '':'' \<or> s ! 16 \<noteq> CHR '':'' then None
       else if \<not> (1 \<le> month \<and> month \<le> 12) \<or> day < 1 then None
       else
         (let dim = DAYS_IN ! (month - 1) + (if month = 2 \<and> leap (int year) then 1 else 0)
          in if dim < day \<or> 23 < hour \<or> 59 < minute \<or> 60 < second then None
             else do {
               (frac, r) \<leftarrow> parse_fraction (drop 19 s);
               (offset, r) \<leftarrow> parse_offset r;
               if r \<noteq> [] then None
               else Some (days_from_civil (int year) month day * 86400
                          + int (hour * 3600 + minute * 60 + second) - offset, frac)
             })
     }"

section \<open>The calendar is a bijection\<close>

text \<open>Days before the year \<open>y\<close> of an era, the years starting in March.\<close>

definition year_start :: "int \<Rightarrow> int" where
  "year_start y = 365 * y + y div 4 - y div 100 + y div 400"

definition doe_scaled :: "int \<Rightarrow> int" where
  "doe_scaled d = d - d div 1460 + d div 36524 - d div 146096"

lemma int_div_bounds: "0 < b \<Longrightarrow> b * (a div b) \<le> a \<and> a < b * (a div b) + b" for a b :: int
  using pos_mod_bound [of b a] pos_mod_sign [of b a] mult_div_mod_eq [of b a] by linarith

lemma div_step:
  fixes y n :: int
  assumes "0 < n"
  shows "(y + 1) div n = y div n + (if n dvd y + 1 then 1 else 0)"
proof -
  have y: "y = n * (y div n) + y mod n" "0 \<le> y mod n" "y mod n < n" using assms by simp_all
  show ?thesis
  proof (cases "y mod n + 1 = n")
    case True
    have "n * (y div n + 1) = n * (y div n) + n" by (simp add: distrib_left)
    then have "y + 1 = n * (y div n + 1)" using True y(1) by linarith
    then have "n dvd y + 1" "(y + 1) div n = y div n + 1" using assms by (metis dvd_triv_left, simp)
    then show ?thesis by simp
  next
    case False
    have "(y + 1) div n = y div n"
      using False y by (intro int_div_pos_eq [where r = "y mod n + 1"]) auto
    moreover have "\<not> n dvd y + 1"
    proof
      assume "n dvd y + 1"
      moreover have "n dvd y - y mod n" by (rule dvd_minus_mod)
      ultimately have "n dvd y + 1 - (y - y mod n)" by (rule dvd_diff)
      then have "n dvd y mod n + 1" by (simp add: algebra_simps)
      then show False using False y by (auto dest: zdvd_imp_le)
    qed
    ultimately show ?thesis by simp
  qed
qed

lemma doe_scaled_step: "doe_scaled d \<le> doe_scaled (d + 1)"
proof -
  have "146096 dvd d + 1 \<Longrightarrow> 36524 dvd d + 1" by (rule dvd_trans [of 36524 146096]) simp_all
  then show ?thesis by (auto simp: doe_scaled_def div_step)
qed

lemma doe_scaled_mono:
  assumes "a \<le> b"
  shows "doe_scaled a \<le> doe_scaled b"
proof -
  have "doe_scaled a \<le> doe_scaled (a + int n)" for n
  proof (induction n)
    case (Suc n)
    then show ?case using doe_scaled_step [of "a + int n"] by (simp add: algebra_simps)
  qed simp
  from this [of "nat (b - a)"] show ?thesis using assms by simp
qed

text \<open>At the first and at the last day of each of the 400 years of an era, the scaled day count
  divides to that year; monotonicity gives every day between them.\<close>

lemma year_boundaries:
  "list_all (\<lambda>y. 365 * y \<le> doe_scaled (year_start y) \<and> doe_scaled (year_start (y + 1) - 1) \<le> 365 * y + 364) [0..399]"
  by code_simp

lemma year_of_era:
  assumes "0 \<le> y" "y < 400" "year_start y \<le> d" "d < year_start (y + 1)"
  shows "doe_scaled d div 365 = y"
proof -
  have "y \<in> set [0..399]" using assms by simp
  then have "365 * y \<le> doe_scaled (year_start y)" "doe_scaled (year_start (y + 1) - 1) \<le> 365 * y + 364"
    using year_boundaries unfolding list_all_iff by blast+
  moreover have "doe_scaled (year_start y) \<le> doe_scaled d" "doe_scaled d \<le> doe_scaled (year_start (y + 1) - 1)"
    using assms by (simp_all add: doe_scaled_mono)
  ultimately show ?thesis by linarith
qed

lemma year_start_leap: "year_start (y + 1) - year_start y = (if leap (y + 1) then 366 else 365)"
proof -
  have "400 dvd y + 1 \<Longrightarrow> 100 dvd y + 1" by (rule dvd_trans [of 100 400]) simp_all
  moreover have "100 dvd y + 1 \<Longrightarrow> 4 dvd y + 1" by (rule dvd_trans [of 4 100]) simp_all
  ultimately show ?thesis
    by (auto simp: year_start_def leap_def div_step mod_eq_0_iff_dvd)
qed

lemma year_start_step: "365 \<le> year_start (y + 1) - year_start y \<and> year_start (y + 1) - year_start y \<le> 366"
  using year_start_leap [of y] by simp

lemma year_start_bounds:
  assumes "0 \<le> y" "y < 400"
  shows "0 \<le> year_start y" "year_start (y + 1) \<le> 146097"
proof -
  have "0 \<le> 365 * y - y div 100 + y div 4" "y div 400 = 0" using assms int_div_bounds [of 100 y] by auto
  then show "0 \<le> year_start y" unfolding year_start_def by linarith
  have "list_all (\<lambda>y. year_start (y + 1) \<le> 146097) [0..399]" by code_simp
  then show "year_start (y + 1) \<le> 146097" using assms unfolding list_all_iff by auto
qed

lemma year_exists:
  assumes "0 \<le> d" "d < 146097"
  obtains y where "0 \<le> y" "y < 400" "year_start y \<le> d" "d < year_start (y + 1)"
proof -
  have "\<exists>k < n. year_start (int k) \<le> d \<and> d < year_start (int k + 1)" if "d < year_start (int n)" for n
    using that
  proof (induction n)
    case 0
    then show ?case using assms by (simp add: year_start_def)
  next
    case (Suc n)
    show ?case
    proof (cases "d < year_start (int n)")
      case True
      then show ?thesis using Suc.IH less_Suc_eq by blast
    next
      case False
      then show ?thesis using Suc.prems by (intro exI [of _ n]) (simp add: algebra_simps)
    qed
  qed
  from this [of 400] obtain k where "k < 400" "year_start (int k) \<le> d" "d < year_start (int k + 1)"
    using assms(2) by (force simp: year_start_def)
  then show ?thesis using that [of "int k"] by simp
qed

text \<open>The month of a day of the year, the year starting in March.\<close>

lemma month_of_day:
  fixes doy :: int
  assumes "0 \<le> doy" "doy \<le> 365"
  defines "mp \<equiv> (5 * doy + 2) div 153"
  shows "0 \<le> mp" "mp \<le> 11" "(153 * mp + 2) div 5 \<le> doy" "doy < (153 * mp + 155) div 5"
proof -
  have m: "153 * mp \<le> 5 * doy + 2" "5 * doy + 2 < 153 * mp + 153"
    using int_div_bounds [of 153 "5 * doy + 2"] by (simp_all add: mp_def)
  show "0 \<le> mp" "mp \<le> 11" using m assms(1,2) by linarith+
  show "(153 * mp + 2) div 5 \<le> doy" using int_div_bounds [of 5 "153 * mp + 2"] m by linarith
  show "doy < (153 * mp + 155) div 5" using int_div_bounds [of 5 "153 * mp + 155"] m by linarith
qed

lemma day_of_month:
  fixes mp :: int
  assumes "0 \<le> mp" "mp \<le> 11" "(153 * mp + 2) div 5 \<le> doy" "doy < (153 * mp + 155) div 5"
  shows "(5 * doy + 2) div 153 = mp"
proof -
  have "153 * mp \<le> 5 * doy + 2" "5 * doy + 2 < 153 * mp + 153"
    using int_div_bounds [of 5 "153 * mp + 2"] int_div_bounds [of 5 "153 * mp + 155"] assms by linarith+
  then show ?thesis by (intro int_div_pos_eq [where r = "5 * doy + 2 - 153 * mp"]) auto
qed

text \<open>\<open>civil_from_days\<close> on a day given by its era, year of era and day of year.\<close>

lemma civil_from_days_eq:
  assumes y: "0 \<le> y" "y < 400" and doy: "0 \<le> doy" "doy < year_start (y + 1) - year_start y"
    and days: "days = era * 146097 + year_start y + doy - 719468"
  defines "mp \<equiv> (5 * doy + 2) div 153"
  shows "civil_from_days days =
     (y + era * 400 + (if mp < 10 then 0 else 1), nat (if mp < 10 then mp + 3 else mp - 9),
      nat (doy - (153 * mp + 2) div 5 + 1))"
proof -
  have b: "0 \<le> year_start y" "year_start (y + 1) \<le> 146097"
    using y by (simp_all add: year_start_bounds)
  have era: "(days + 719468) div 146097 = era"
    using b doy unfolding days by (intro int_div_pos_eq [where r = "year_start y + doy"]) auto
  have doe: "days + 719468 - era * 146097 = year_start y + doy" unfolding days by simp
  have yoe: "(year_start y + doy - (year_start y + doy) div 1460 + (year_start y + doy) div 36524
      - (year_start y + doy) div 146096) div 365 = y"
    using year_of_era [of y "year_start y + doy"] y doy by (simp add: doe_scaled_def)
  have "year_start y + doy - (365 * y + y div 4 - y div 100) = doy"
    using y by (simp add: year_start_def)
  note eqs = era doe yoe this
  have m: "0 \<le> mp" "mp \<le> 11" "(153 * mp + 2) div 5 \<le> doy"
    using month_of_day [of doy] doy year_start_step [of y] unfolding mp_def by auto
  show ?thesis
    unfolding civil_from_days_def Let_def eqs mp_def [symmetric] using m by simp
qed

definition valid_date :: "int \<Rightarrow> nat \<Rightarrow> nat \<Rightarrow> bool" where
  "valid_date y m d \<longleftrightarrow> 1 \<le> m \<and> m \<le> 12 \<and> 1 \<le> d \<and> d \<le> DAYS_IN ! (m - 1) + (if m = 2 \<and> leap y then 1 else 0)"

lemma leap_era: "leap (y - y div 400 * 400 + 1) \<longleftrightarrow> leap (y + 1)"
proof -
  have eq: "y - y div 400 * 400 + 1 = y + 1 - 400 * (y div 400)" by simp
  have "(y + 1 - 400 * (y div 400)) mod n = (y + 1) mod n" if "n dvd 400" for n
    using that by (metis (no_types) mod_diff_right_eq dvd_mult2 mod_0_imp_dvd dvd_imp_mod_0 diff_zero)
  then show ?thesis unfolding eq leap_def by simp
qed

lemma month_cases:
  assumes "1 \<le> m" "m \<le> (12 :: nat)"
  shows "m = 1 \<or> m = 2 \<or> m = 3 \<or> m = 4 \<or> m = 5 \<or> m = 6 \<or> m = 7 \<or> m = 8 \<or> m = 9 \<or> m = 10 \<or> m = 11 \<or> m = 12"
  using assms by presburger

text \<open>A valid date as a day of its March year: the month's first day is where the algorithm puts it,
  and the date falls inside its month and inside its year.\<close>

lemma valid_date_doy:
  assumes v: "valid_date year m d"
  defines "y \<equiv> year - (if m \<le> 2 then 1 else 0)"
    and "mp \<equiv> (if 2 < int m then int m - 3 else int m + 9)"
  shows "0 \<le> mp" "mp \<le> 11" "1 \<le> d" "int d - 1 < (153 * mp + 155) div 5 - (153 * mp + 2) div 5"
    "(153 * mp + 2) div 5 + int d - 1 < (if leap (y + 1) then 366 else 365)"
    "(153 * mp + 2) div 5 + int d - 1 \<ge> 0"
proof -
  from v have "1 \<le> m" "m \<le> 12" and d: "1 \<le> d" "d \<le> DAYS_IN ! (m - 1) + (if m = 2 \<and> leap year then 1 else 0)"
    by (auto simp: valid_date_def)
  note m = month_cases [OF this(1,2)]
  show "0 \<le> mp" "mp \<le> 11" "1 \<le> d" using m d by (auto simp: mp_def)
  show "int d - 1 < (153 * mp + 155) div 5 - (153 * mp + 2) div 5"
    using m d by (elim disjE) (auto simp: mp_def DAYS_IN_def split: if_splits)
  show "(153 * mp + 2) div 5 + int d - 1 < (if leap (y + 1) then 366 else 365)"
    using m d by (elim disjE) (auto simp: mp_def y_def DAYS_IN_def split: if_splits)
  show "(153 * mp + 2) div 5 + int d - 1 \<ge> 0"
    using m d by (elim disjE) (auto simp: mp_def)
qed

lemma days_from_civil_eq:
  assumes y: "year - (if m \<le> 2 then 1 else 0) = y + era * 400" "0 \<le> y" "y < 400"
    and mp: "(if 2 < int m then int m - 3 else int m + 9) = mp"
  shows "days_from_civil year m d = era * 146097 + year_start y + ((153 * mp + 2) div 5 + int d - 1) - 719468"
proof -
  have era: "(y + era * 400) div 400 = era" using y(2,3) by (intro int_div_pos_eq [where r = y]) auto
  have "y + era * 400 - era * 400 = y" by simp
  note eqs = y(1) era this mp
  have "y div 400 = 0" using y(2,3) by simp
  then show ?thesis unfolding days_from_civil_def Let_def eqs year_start_def by linarith
qed

lemma civil_from_days_from_civil:
  assumes "valid_date year m d"
  shows "civil_from_days (days_from_civil year m d) = (year, m, d)"
proof -
  define y where "y = year - (if m \<le> 2 then 1 else 0)"
  define mp where "mp = (if 2 < int m then int m - 3 else int m + 9)"
  define doy where "doy = (153 * mp + 2) div 5 + int d - 1"
  define era where "era = y div 400"
  define yoe where "yoe = y - era * 400"
  note v = valid_date_doy [OF assms, folded y_def mp_def]
  have yoe: "0 \<le> yoe" "yoe < 400" using int_div_bounds [of 400 y] by (simp_all add: yoe_def era_def)
  have lt: "doy < year_start (yoe + 1) - year_start yoe"
    using v(5) leap_era [of y] by (simp add: year_start_leap doy_def yoe_def era_def)
  have "days_from_civil year m d = era * 146097 + year_start yoe + doy - 719468"
    unfolding doy_def
    by (rule days_from_civil_eq) (use yoe in \<open>simp_all add: y_def [symmetric] mp_def yoe_def\<close>)
  moreover have mp: "(5 * doy + 2) div 153 = mp"
    using v by (intro day_of_month) (auto simp: doy_def)
  ultimately have "civil_from_days (days_from_civil year m d) =
      (yoe + era * 400 + (if mp < 10 then 0 else 1), nat (if mp < 10 then mp + 3 else mp - 9),
       nat (doy - (153 * mp + 2) div 5 + 1))"
    using civil_from_days_eq [OF yoe _ lt] v(6) unfolding doy_def by simp
  moreover have "yoe + era * 400 = y" by (simp add: yoe_def)
  ultimately show ?thesis using assms by (auto simp: doy_def y_def mp_def valid_date_def)
qed

lemma days_decompose:
  obtains era y doy where "days = era * 146097 + year_start y + doy - 719468" "0 \<le> y" "y < 400"
    "0 \<le> doy" "doy < year_start (y + 1) - year_start y"
proof -
  let ?e = "(days + 719468) div 146097" and ?d = "(days + 719468) mod 146097"
  obtain y where y: "0 \<le> y" "y < 400" "year_start y \<le> ?d" "?d < year_start (y + 1)"
    by (rule year_exists [of ?d]) auto
  have "days = ?e * 146097 + year_start y + (?d - year_start y) - 719468"
    using div_mult_mod_eq [of "days + 719468" 146097] by linarith
  then show ?thesis using y that [of ?e y "?d - year_start y"] by simp
qed

lemma mp_cases:
  assumes "0 \<le> mp" "mp \<le> (11 :: int)"
  shows "mp = 0 \<or> mp = 1 \<or> mp = 2 \<or> mp = 3 \<or> mp = 4 \<or> mp = 5 \<or> mp = 6 \<or> mp = 7 \<or> mp = 8 \<or> mp = 9 \<or> mp = 10 \<or> mp = 11"
  using assms by presburger

lemma civil_from_days_valid: "case civil_from_days days of (y, m, d) \<Rightarrow> valid_date y m d"
proof -
  obtain era y doy where days: "days = era * 146097 + year_start y + doy - 719468"
    and y: "0 \<le> y" "y < 400" and doy: "0 \<le> doy" "doy < year_start (y + 1) - year_start y"
    by (rule days_decompose)
  define mp where "mp = (5 * doy + 2) div 153"
  define Y where "Y = y + era * 400"
  have m: "0 \<le> mp" "mp \<le> 11" "(153 * mp + 2) div 5 \<le> doy" "doy < (153 * mp + 155) div 5"
    using month_of_day [of doy] doy year_start_step [of y] unfolding mp_def by auto
  have "Y div 400 = era" unfolding Y_def using y by (intro int_div_pos_eq [where r = y]) auto
  then have "leap (y + 1) \<longleftrightarrow> leap (Y + 1)" using leap_era [of Y] by (simp add: Y_def)
  then have lt: "doy < (if leap (Y + 1) then 366 else 365)" using doy(2) by (simp add: year_start_leap)
  note eq = civil_from_days_eq [OF y doy days, folded mp_def Y_def]
  show ?thesis
    unfolding eq prod.case valid_date_def
    using mp_cases [OF m(1,2)] m(3,4) lt
    by (elim disjE) (auto simp: DAYS_IN_def nat_le_iff split: if_splits)
qed

lemma days_from_civil_from_days: "(case civil_from_days days of (y, m, d) \<Rightarrow> days_from_civil y m d) = days"
proof -
  obtain era y doy where days: "days = era * 146097 + year_start y + doy - 719468"
    and y: "0 \<le> y" "y < 400" and doy: "0 \<le> doy" "doy < year_start (y + 1) - year_start y"
    by (rule days_decompose)
  define mp where "mp = (5 * doy + 2) div 153"
  define Y where "Y = y + era * 400"
  have m: "0 \<le> mp" "mp \<le> 11" "(153 * mp + 2) div 5 \<le> doy"
    using month_of_day [of doy] doy year_start_step [of y] unfolding mp_def by auto
  note eq = civil_from_days_eq [OF y doy days, folded mp_def Y_def]
  have "days_from_civil (Y + (if mp < 10 then 0 else 1)) (nat (if mp < 10 then mp + 3 else mp - 9))
      (nat (doy - (153 * mp + 2) div 5 + 1)) =
      era * 146097 + year_start y + ((153 * mp + 2) div 5 + int (nat (doy - (153 * mp + 2) div 5 + 1)) - 1) - 719468"
    by (rule days_from_civil_eq) (use m y in \<open>auto simp: Y_def nat_le_iff\<close>)
  also have "\<dots> = days" using m(3) days by simp
  finally show ?thesis by (simp add: eq)
qed

section \<open>Printed instants are read back\<close>

lemma fold_digits_append: "fold_digits v (s @ [c]) = do { w \<leftarrow> fold_digits v s; fold_digits w [c] }"
  by (induction s arbitrary: v) auto

lemma fold_digits_zeros: "fold_digits 0 (replicate k (CHR ''0'') @ s) = fold_digits 0 s"
  by (induction k) (auto simp: is_ascii_digit_def digit_val_def)

lemma fold_digits_show_nat: "fold_digits 0 (show_nat n) = Some n"
proof -
  have "fold_digits v s = Some (foldl (\<lambda>v c. v * 10 + digit_val c) v s)"
    if "\<forall>c \<in> set s. is_ascii_digit c" for v s
    using that by (induction s arbitrary: v) auto
  then show ?thesis using show_nat_digits decimal_show_nat [of n] by (simp add: decimal_def)
qed

text \<open>A field of fixed width: its length and its value.\<close>

lemma field_width:
  assumes "0 \<le> x" "x < 10 ^ Suc k"
  shows "length (show_int0 (Suc k) x) = Suc k" "fold_digits 0 (show_int0 (Suc k) x) = Some (nat x)"
proof -
  have "nat x < 10 ^ Suc k" using assms by (simp add: nat_less_iff)
  from length_show_nat_le [OF this] assms show
    "length (show_int0 (Suc k) x) = Suc k" "fold_digits 0 (show_int0 (Suc k) x) = Some (nat x)"
    by (simp_all add: show_int0_def pad0_def fold_digits_zeros fold_digits_show_nat)
qed

lemma field2:
  assumes "0 \<le> x" "x < 100"
  shows "length (show_int0 2 x) = 2" "fold_digits 0 (show_int0 2 x) = Some (nat x)"
  using field_width [of x 1] assms by (simp_all add: numeral_2_eq_2)

lemma field3:
  assumes "0 \<le> x" "x < 1000"
  shows "length (show_int0 3 x) = 3" "fold_digits 0 (show_int0 3 x) = Some (nat x)"
  using field_width [of x 2] assms by (simp_all add: numeral_3_eq_3)

lemma field4:
  assumes "0 \<le> x" "x < 10000"
  shows "length (show_int0 4 x) = 4" "fold_digits 0 (show_int0 4 x) = Some (nat x)"
  using field_width [of x 3] assms by simp_all

lemma length2E: "length s = 2 \<Longrightarrow> (\<And>a b. s = [a, b] \<Longrightarrow> P) \<Longrightarrow> P"
  by (auto simp: length_Suc_conv numeral_eq_Suc)

lemma length3E: "length s = 3 \<Longrightarrow> (\<And>a b c. s = [a, b, c] \<Longrightarrow> P) \<Longrightarrow> P"
  by (auto simp: length_Suc_conv numeral_eq_Suc)

lemma length4E: "length s = 4 \<Longrightarrow> (\<And>a b c d. s = [a, b, c, d] \<Longrightarrow> P) \<Longrightarrow> P"
  by (auto simp: length_Suc_conv numeral_eq_Suc)

text \<open>The parser on a text laid out as the printer lays it out, three fraction digits and \<open>Z\<close>.\<close>

lemma parse_layout:
  assumes len: "length y = 4" "length mo = 2" "length d = 2" "length h = 2" "length mi = 2" "length s = 2"
      "length f = 3"
    and val: "fold_digits 0 y = Some vy" "fold_digits 0 mo = Some vmo" "fold_digits 0 d = Some vd"
      "fold_digits 0 h = Some vh" "fold_digits 0 mi = Some vmi" "fold_digits 0 s = Some vs"
      "fold_digits 0 f = Some vf"
    and date: "valid_date (int vy) vmo vd" and time: "vh \<le> 23" "vmi \<le> 59" "vs \<le> 60"
  shows "parse_rfc3339 (y @ ''-'' @ mo @ ''-'' @ d @ ''T'' @ h @ '':'' @ mi @ '':'' @ s @ ''.'' @ f @ ''Z'') =
    Some (days_from_civil (int vy) vmo vd * 86400 + int (vh * 3600 + vmi * 60 + vs), vf * 1000000)"
proof -
  obtain y1 y2 y3 y4 where y: "y = [y1, y2, y3, y4]" using len(1) by (rule length4E)
  obtain mo1 mo2 where mo: "mo = [mo1, mo2]" using len(2) by (rule length2E)
  obtain d1 d2 where d: "d = [d1, d2]" using len(3) by (rule length2E)
  obtain h1 h2 where h: "h = [h1, h2]" using len(4) by (rule length2E)
  obtain mi1 mi2 where mi: "mi = [mi1, mi2]" using len(5) by (rule length2E)
  obtain s1 s2 where s: "s = [s1, s2]" using len(6) by (rule length2E)
  obtain f1 f2 f3 where f: "f = [f1, f2, f3]" using len(7) by (rule length3E)
  let ?t = "y @ ''-'' @ mo @ ''-'' @ d @ ''T'' @ h @ '':'' @ mi @ '':'' @ s @ ''.'' @ f @ ''Z''"
  have fields: "digits ?t 0 4 = Some vy" "digits ?t 5 2 = Some vmo" "digits ?t 8 2 = Some vd"
    "digits ?t 11 2 = Some vh" "digits ?t 14 2 = Some vmi" "digits ?t 17 2 = Some vs"
    using val(1-6) by (simp_all add: digits_def get_range_def y mo d h mi s f)
  have seps: "?t ! 4 = CHR ''-''" "?t ! 7 = CHR ''-''" "?t ! 10 = CHR ''T''" "?t ! 13 = CHR '':''"
    "?t ! 16 = CHR '':''" "drop 19 ?t = ''.'' @ f @ ''Z''"
    by (simp_all add: y mo d h mi s f)
  have "is_ascii_digit f1" "is_ascii_digit f2" "is_ascii_digit f3" "vf = (digit_val f1 * 10 + digit_val f2) * 10 + digit_val f3"
    using val(7) by (auto simp: f split: if_splits)
  then have frac: "parse_fraction (''.'' @ f @ ''Z'') = Some (vf * 1000000, ''Z'')"
    by (simp add: parse_fraction_def f is_ascii_digit_def [of "CHR ''Z''"])
  have off: "parse_offset ''Z'' = Some (0, [])" by (simp add: parse_offset_def)
  show ?thesis
    unfolding parse_rfc3339_def fields seps
    using date time by (auto simp: Let_def valid_date_def frac [simplified] off not_less)
qed

lemma valid_date_bounds:
  assumes "valid_date y m d"
  shows "m \<le> 12" "d \<le> 32"
proof -
  have "\<forall>x \<in> set DAYS_IN. x \<le> 31" by (simp add: DAYS_IN_def)
  moreover have "DAYS_IN ! (m - 1) \<in> set DAYS_IN"
    using assms by (intro nth_mem) (auto simp: valid_date_def DAYS_IN_def)
  ultimately have "DAYS_IN ! (m - 1) \<le> 31" by blast
  then show "m \<le> 12" "d \<le> 32" using assms by (auto simp: valid_date_def split: if_splits)
qed

section \<open>Properties\<close>

text \<open>The calendar is a bijection: every day count gives a valid proleptic Gregorian date that
  converts back to it, and every valid date converts to a day count that gives it back.\<close>

lemma calendar_bijection:
  "(case civil_from_days days of (y, m, d) \<Rightarrow> valid_date y m d \<and> days_from_civil y m d = days) \<and>
   (valid_date year month day \<longrightarrow> civil_from_days (days_from_civil year month day) = (year, month, day))"
  using civil_from_days_valid [of days] days_from_civil_from_days [of days] civil_from_days_from_civil
  by (auto split: prod.splits)

text \<open>C6. The instant the status writes is the instant its reader sees: parsing the printed RFC 3339
  text gives back the seconds and the milliseconds, for every instant of the years 0 to 9999.\<close>

theorem rfc3339_roundtrip:
  assumes "0 \<le> c_year (split_seconds seconds)" "c_year (split_seconds seconds) \<le> 9999" "millis < 1000"
  shows "parse_rfc3339 (rfc3339_millis seconds millis) = Some (seconds, millis * 1000000)"
proof -
  obtain year month day where civil: "civil_from_days (seconds div 86400) = (year, month, day)"
    by (metis prod_cases3)
  define rest where "rest = seconds mod 86400"
  have rest: "0 \<le> rest" "rest < 86400" by (simp_all add: rest_def)
  have v: "valid_date year month day" and inv: "days_from_civil year month day = seconds div 86400"
    using civil_from_days_valid [of "seconds div 86400"] days_from_civil_from_days [of "seconds div 86400"]
    by (simp_all add: civil)
  have year: "0 \<le> year" "year < 10000" using assms(1,2) by (simp_all add: split_seconds_def civil Let_def)
  have ms: "int millis < 1000" using assms(3) by simp
  have md: "int month < 100" "int day < 100"
    using valid_date_bounds [OF v] by simp_all
  have t: "0 \<le> rest div 3600" "rest div 3600 < 100" "0 \<le> rest mod 3600 div 60" "rest mod 3600 div 60 < 100"
    "0 \<le> rest mod 60" "rest mod 60 < 100" "rest div 3600 < 24" "rest mod 3600 div 60 < 60" "rest mod 60 < 60"
    using rest by simp_all
  have sum: "rest div 3600 * 3600 + rest mod 3600 div 60 * 60 + rest mod 60 = rest"
  proof -
    have "rest mod 3600 mod 60 = rest mod 60" by (simp add: mod_mod_cancel)
    then show ?thesis
      using div_mult_mod_eq [of rest 3600] div_mult_mod_eq [of "rest mod 3600" 60] by linarith
  qed
  note f = field4(1) [OF year] field2(1) [OF of_nat_0_le_iff md(1)] field2(1) [OF of_nat_0_le_iff md(2)] field2(1) [OF t(1,2)]
    field2(1) [OF t(3,4)] field2(1) [OF t(5,6)] field3(1) [OF of_nat_0_le_iff ms]
    field4(2) [OF year] field2(2) [OF of_nat_0_le_iff md(1)] field2(2) [OF of_nat_0_le_iff md(2)] field2(2) [OF t(1,2)]
    field2(2) [OF t(3,4)] field2(2) [OF t(5,6)] field3(2) [OF of_nat_0_le_iff ms]
  have "parse_rfc3339 (rfc3339_millis seconds millis) =
    Some (days_from_civil (int (nat year)) (nat (int month)) (nat (int day)) * 86400
      + int (nat (rest div 3600) * 3600 + nat (rest mod 3600 div 60) * 60 + nat (rest mod 60)),
      nat (int millis) * 1000000)"
    unfolding rfc3339_millis_def split_seconds_def civil Let_def prod.case rest_def [symmetric] civil.simps
      mod_less [OF assms(3)]
    by (rule parse_layout [OF f]) (use year t v in \<open>simp_all add: nat_le_iff\<close>)
  moreover have "int (nat (rest div 3600) * 3600 + nat (rest mod 3600 div 60) * 60 + nat (rest mod 60)) = rest"
    using t(1,3,5) sum by (simp only: of_nat_add of_nat_mult nat_0_le of_nat_numeral)
  moreover have "seconds div 86400 * 86400 + rest = seconds" by (simp add: rest_def)
  ultimately show ?thesis using year(1) inv by (simp only: nat_0_le nat_int)
qed

theorem rfc3339_roundtrip_witness:
  "rfc3339_millis 1709210096 789 = ''2024-02-29T12:34:56.789Z''
   \<and> parse_rfc3339 (rfc3339_millis 1709210096 789) = Some (1709210096, 789000000)"
proof -
  have "rfc3339_millis 1709210096 789 = ''2024-02-29T12:34:56.789Z''" by code_simp
  moreover have "c_year (split_seconds 1709210096) = 2024" by code_simp
  ultimately show ?thesis using rfc3339_roundtrip [of 1709210096 789] by simp
qed

end
