(* ===== verification/Nfc.thy ===== *)
theory Nfc
  imports Nfc_Tables Rust_Text
begin

text \<open>
  \<^verbatim>\<open>crates/omt-common/src/nfc.rs\<close>: Unicode Normalization Form C. The text is given as its scalar values
  (\<open>s.chars()\<close>) where the source iterates over characters, and as UTF-8 at the entry points. The
  in-place passes over the vector are kept as in-place updates of a list.
\<close>

section \<open>Hangul constants and table lookups\<close>

abbreviation S_BASE :: nat where "S_BASE \<equiv> 0xAC00"
abbreviation L_BASE :: nat where "L_BASE \<equiv> 0x1100"
abbreviation V_BASE :: nat where "V_BASE \<equiv> 0x1161"
abbreviation T_BASE :: nat where "T_BASE \<equiv> 0x11A7"
abbreviation L_COUNT :: nat where "L_COUNT \<equiv> 19"
abbreviation V_COUNT :: nat where "V_COUNT \<equiv> 21"
abbreviation T_COUNT :: nat where "T_COUNT \<equiv> 28"
abbreviation N_COUNT :: nat where "N_COUNT \<equiv> V_COUNT * T_COUNT"
abbreviation S_COUNT :: nat where "S_COUNT \<equiv> L_COUNT * N_COUNT"

definition combining_class :: "nat \<Rightarrow> nat" where
  "combining_class cp =
     (case binary_search_by (\<lambda>e. cmp (fst e) cp) CCC of None \<Rightarrow> 0 | Some i \<Rightarrow> snd (CCC ! i))"

definition compose_pair :: "nat \<Rightarrow> nat \<Rightarrow> nat option" where
  "compose_pair a b =
     (if L_BASE \<le> a \<and> a < L_BASE + L_COUNT \<and> V_BASE \<le> b \<and> b < V_BASE + V_COUNT
      then Some (S_BASE + ((a - L_BASE) * V_COUNT + (b - V_BASE)) * T_COUNT)
      else if S_BASE \<le> a \<and> a < S_BASE + S_COUNT \<and> (a - S_BASE) mod T_COUNT = 0
              \<and> T_BASE < b \<and> b < T_BASE + T_COUNT
      then Some (a + (b - T_BASE))
      else map_option (\<lambda>i. snd (snd (COMP ! i))) (binary_search_by (\<lambda>e. cmp (pair_key e) (a, b)) COMP))"

section \<open>Decomposition\<close>

definition push_limited :: "nat list \<Rightarrow> nat \<Rightarrow> nat \<Rightarrow> nat list \<times> bool" where
  "push_limited out limit c = (if limit \<le> length out then (out, False) else (out @ [c], True))"

function decompose :: "nat list \<Rightarrow> nat \<Rightarrow> nat \<Rightarrow> nat \<Rightarrow> nat list \<times> bool" where
  "decompose out cp depth limit =
     (if 8 < depth then (out, False)
      else if S_BASE \<le> cp \<and> cp < S_BASE + S_COUNT then
        (let index = cp - S_BASE;
             (out1, ok1) = push_limited out limit (L_BASE + index div N_COUNT)
         in if \<not> ok1 then (out1, False)
            else (let (out2, ok2) = push_limited out1 limit (V_BASE + index mod N_COUNT div T_COUNT)
                  in if \<not> ok2 then (out2, False)
                     else if index mod T_COUNT = 0 then (out2, True)
                     else push_limited out2 limit (T_BASE + index mod T_COUNT)))
      else (case binary_search_by (\<lambda>e. cmp (fst e) cp) DECOMP of
              None \<Rightarrow> push_limited out limit cp
            | Some i \<Rightarrow>
                (let (first, second) = snd (DECOMP ! i);
                     (out1, ok1) = decompose out first (depth + 1) limit
                 in if \<not> ok1 then (out1, False)
                    else if second = 0 then (out1, True)
                    else decompose out1 second (depth + 1) limit)))"
  by pat_completeness auto
termination
  by (relation "measure (\<lambda>(out, cp, depth, limit). 9 - depth)") auto

declare decompose.simps [simp del]

fun decompose_all :: "nat list \<Rightarrow> nat list \<Rightarrow> nat \<Rightarrow> nat list option" where
  "decompose_all v [] limit = Some v"
| "decompose_all v (c # cs) limit =
     (case decompose v c 0 limit of (v', fits) \<Rightarrow> if fits then decompose_all v' cs limit else None)"

section \<open>Canonical ordering and composition\<close>

text \<open>The inner loop of the insertion sort: marks of a greater class move up by one place.\<close>

fun shift_back :: "nat list \<Rightarrow> nat \<Rightarrow> nat \<Rightarrow> nat \<Rightarrow> nat list" where
  "shift_back v 0 cp c = v[0 := cp]"
| "shift_back v (Suc j) cp c =
     (let prev = combining_class (v ! j)
      in if prev = 0 \<or> prev \<le> c then v[Suc j := cp] else shift_back (v[Suc j := v ! j]) j cp c)"

definition order_step :: "nat list \<Rightarrow> nat \<Rightarrow> nat list" where
  "order_step v k =
     (let c = combining_class (v ! k) in if c = 0 then v else shift_back v k (v ! k) c)"

definition canonical_order :: "nat list \<Rightarrow> nat list" where
  "canonical_order v = foldl order_step v [1..<length v]"

record comp_state =
  cs_v :: "nat list"
  cs_starter :: "nat option"
  cs_out :: nat
  cs_last_class :: "nat option"

definition comp_keep :: "comp_state \<Rightarrow> nat \<Rightarrow> nat \<Rightarrow> comp_state" where
  "comp_keep s cp c =
     s\<lparr>cs_starter := (if c = 0 then Some (cs_out s) else cs_starter s),
       cs_last_class := (if c = 0 then None else Some c),
       cs_v := (cs_v s)[cs_out s := cp],
       cs_out := cs_out s + 1\<rparr>"

definition comp_step :: "comp_state \<Rightarrow> nat \<Rightarrow> comp_state" where
  "comp_step s k =
     (let cp = cs_v s ! k; c = combining_class cp
      in case cs_starter s of
           None \<Rightarrow> comp_keep s cp c
         | Some st \<Rightarrow>
             (let blocked = (case cs_last_class s of None \<Rightarrow> False | Some prev \<Rightarrow> prev = 0 \<or> c \<le> prev)
              in if blocked then comp_keep s cp c
                 else (case compose_pair (cs_v s ! st) cp of
                         None \<Rightarrow> comp_keep s cp c
                       | Some composite \<Rightarrow> s\<lparr>cs_v := (cs_v s)[st := composite]\<rparr>)))"

definition canonical_compose :: "nat list \<Rightarrow> nat list" where
  "canonical_compose v =
     (let s = foldl comp_step \<lparr>cs_v = v, cs_starter = None, cs_out = 0, cs_last_class = None\<rparr> [0..<length v]
      in take (cs_out s) (cs_v s))"

text \<open>\<open>to_nfc\<close> on the scalar values \<open>cs\<close> of the text; \<open>s.len()\<close> is their UTF-8 length.\<close>

definition to_nfc :: "nat list \<Rightarrow> nat list option" where
  "to_nfc cs =
     do {
       l4 \<leftarrow> checked_mul USIZE_MAX (utf8_len cs) 4;
       limit \<leftarrow> checked_add USIZE_MAX l4 16;
       v \<leftarrow> decompose_all [] cs limit;
       Some (canonical_compose (canonical_order v))
     }"

definition normalize :: "nat list \<Rightarrow> nat list option" where
  "normalize cs =
     do { v \<leftarrow> to_nfc cs; if list_all is_scalar v then Some v else None }"

definition is_normalized :: "nat list \<Rightarrow> nat \<Rightarrow> bool" where
  "is_normalized cs limit =
     (if limit < utf8_len cs then False
      else (case to_nfc cs of None \<Rightarrow> False | Some v \<Rightarrow> cs = v))"

section \<open>The tables as functions\<close>

lemma combining_class_ascii: "cp < 0x300 \<Longrightarrow> combining_class cp = 0"
proof -
  assume "cp < 0x300"
  then have "cp \<notin> fst ` set CCC" using CCC_from by fastforce
  then show ?thesis by (simp add: combining_class_def binary_search_key_None [OF CCC_sorted, THEN iffD2])
qed

lemma decomp_ascii: "cp < 0xC0 \<Longrightarrow> binary_search_by (\<lambda>e. cmp (fst e) cp) DECOMP = None"
proof -
  assume "cp < 0xC0"
  then have "cp \<notin> fst ` set DECOMP" using DECOMP_from by fastforce
  then show ?thesis by (simp add: binary_search_key_None [OF DECOMP_sorted])
qed

lemma compose_pair_ascii:
  assumes "b < 0x300"
  shows "compose_pair a b = None"
proof -
  have "(a, b) \<notin> pair_key ` set COMP" using COMP_from assms by force
  then show ?thesis using assms binary_search_key_None [OF COMP_sorted, of "(a, b)"]
    by (simp add: compose_pair_def)
qed

lemma combining_class_entry: "(cp, c) \<in> set CCC \<Longrightarrow> combining_class cp = c"
  using binary_search_key_Some [OF CCC_sorted, of "(cp, c)" cp]
  by (auto simp: combining_class_def)

section \<open>Text below the first combining mark\<close>

lemma decompose_ascii:
  "cp < 0xC0 \<Longrightarrow> length out < limit \<Longrightarrow> decompose out cp 0 limit = (out @ [cp], True)"
  by (subst decompose.simps) (simp add: decomp_ascii push_limited_def)

lemma decompose_all_ascii:
  "\<forall>c \<in> set cs. c < 0xC0 \<Longrightarrow> length v + length cs \<le> limit \<Longrightarrow> decompose_all v cs limit = Some (v @ cs)"
  by (induction cs arbitrary: v) (auto simp: decompose_ascii)

lemma order_step_starter: "combining_class (v ! k) = 0 \<Longrightarrow> order_step v k = v"
  by (simp add: order_step_def)

lemma canonical_order_starters:
  assumes "\<forall>c \<in> set v. combining_class c = 0"
  shows "canonical_order v = v"
proof -
  have "foldl order_step v ks = v" if "\<forall>k \<in> set ks. k < length v" for ks
    using that assms by (induction ks) (auto simp: order_step_starter)
  then show ?thesis by (simp add: canonical_order_def)
qed

text \<open>With no pair that composes, the composition pass rewrites each element in place.\<close>

lemma canonical_compose_inert:
  assumes "\<And>a c. c \<in> set v \<Longrightarrow> compose_pair a c = None"
  shows "canonical_compose v = v"
proof -
  let ?init = "\<lparr>cs_v = v, cs_starter = None, cs_out = 0, cs_last_class = None\<rparr>"
  have "cs_v (foldl comp_step ?init [0..<k]) = v \<and> cs_out (foldl comp_step ?init [0..<k]) = k"
    if "k \<le> length v" for k
    using that
  proof (induction k)
    case (Suc k)
    then have "\<And>a. compose_pair a (v ! k) = None" using assms by simp
    then show ?case using Suc
      by (auto simp: comp_step_def comp_keep_def Let_def split: option.splits)
  qed simp
  then show ?thesis by (simp add: canonical_compose_def Let_def)
qed

lemma to_nfc_ascii:
  assumes "\<forall>c \<in> set cs. c < 0xC0" "4 * utf8_len cs + 16 \<le> USIZE_MAX"
  shows "to_nfc cs = Some cs"
proof -
  have "length cs \<le> utf8_len cs" by (induction cs) (auto simp: len_utf8_def)
  then have "decompose_all [] cs (utf8_len cs * 4 + 16) = Some cs"
    using decompose_all_ascii [OF assms(1), of "[]" "utf8_len cs * 4 + 16"] by simp
  moreover have "canonical_order cs = cs"
    using assms(1) by (intro canonical_order_starters) (fastforce intro: combining_class_ascii)
  moreover have "canonical_compose cs = cs"
    using assms(1) by (intro canonical_compose_inert compose_pair_ascii) auto
  ultimately show ?thesis using assms(2)
    by (simp add: to_nfc_def checked_mul_def checked_add_def)
qed

lemma is_normalized_ascii:
  "\<forall>c \<in> set cs. c < 0xC0 \<Longrightarrow> utf8_len cs \<le> limit \<Longrightarrow> 4 * limit + 16 \<le> USIZE_MAX \<Longrightarrow> is_normalized cs limit"
  using to_nfc_ascii [of cs] by (simp add: is_normalized_def)

lemma is_normalized_bound: "is_normalized cs limit \<Longrightarrow> utf8_len cs \<le> limit"
  by (auto simp: is_normalized_def split: if_splits)

section \<open>Hangul\<close>

text \<open>Composing what a syllable decomposes to gives the syllable back.\<close>

lemma decompose_hangul:
  assumes "s < S_COUNT" "length out + 3 \<le> limit"
  shows "decompose out (S_BASE + s) 0 limit =
    (out @ [L_BASE + s div N_COUNT, V_BASE + s mod N_COUNT div T_COUNT]
         @ (if s mod T_COUNT = 0 then [] else [T_BASE + s mod T_COUNT]), True)"
  using assms by (subst decompose.simps) (simp add: push_limited_def)

lemma hangul_lv:
  assumes "i < L_COUNT * V_COUNT"
  shows "compose_pair (L_BASE + i div V_COUNT) (V_BASE + i mod V_COUNT) = Some (S_BASE + i * T_COUNT)"
proof -
  have "i div V_COUNT < L_COUNT" using assms by (simp add: less_mult_imp_div_less)
  moreover have "i div 21 * 21 + i mod 21 = i" by simp
  ultimately show ?thesis by (simp add: compose_pair_def del: div_mult_mod_eq)
qed

lemma hangul_lvt:
  assumes "i < L_COUNT * V_COUNT" "0 < t" "t < T_COUNT"
  shows "compose_pair (S_BASE + i * T_COUNT) (T_BASE + t) = Some (S_BASE + i * T_COUNT + t)"
proof -
  have "i * 28 < 11172" using assms(1) by simp
  then show ?thesis using assms by (simp add: compose_pair_def)
qed

text \<open>Composition inverts decomposition on every Hangul syllable: the decomposition of a syllable
  succeeds within its bound, and composing its parts in order gives the syllable back.\<close>

lemma hangul_roundtrip:
  assumes "s < S_COUNT" "3 \<le> limit"
  shows "\<exists>l v rest. decompose [] (S_BASE + s) 0 limit = (l # v # rest, True) \<and>
      foldl (\<lambda>acc c. Option.bind acc (\<lambda>a. compose_pair a c)) (Some l) (v # rest) = Some (S_BASE + s)"
proof -
  define i t where "i = s div T_COUNT" and "t = s mod T_COUNT"
  have i: "i < L_COUNT * V_COUNT" using assms(1) by (simp add: i_def less_mult_imp_div_less)
  have s: "s = i * T_COUNT + t" "t < T_COUNT" by (simp_all add: i_def t_def)
  have "s div N_COUNT = i div V_COUNT" "s mod N_COUNT div T_COUNT = i mod V_COUNT"
    using mod_mult2_eq [of s 28 21] unfolding i_def by (simp_all add: div_mult2_eq [symmetric])
  then show ?thesis
    using decompose_hangul [OF assms(1), of "[]" limit] assms(2) hangul_lv [OF i] hangul_lvt [OF i, of t] s
    by (cases "t = 0") (simp_all add: t_def [symmetric] add.assoc)
qed

end
