(* ===== verification/Rust_Float.thy ===== *)
theory Rust_Float
  imports Complex_Main Rust_Text
begin

text \<open>
  IEEE 754 arithmetic as far as the sources use it. A finite double is the rational number it stands
  for; a division or an addition is the exact result rounded to 53 significant bits, half to even.
  Every result the sources compare lies far inside the normal range, so subnormal numbers and
  overflow do not arise. A single-precision value keeps its bit pattern.
\<close>

section \<open>Binary logarithm of a positive rational\<close>

fun nlog2 :: "nat \<Rightarrow> nat" where
  "nlog2 n = (if n < 2 then 0 else Suc (nlog2 (n div 2)))"

declare nlog2.simps [simp del]

definition ilog2 :: "rat \<Rightarrow> int" where
  "ilog2 x =
     (let (n, d) = quotient_of x;
          k = int (nlog2 (nat n)) - int (nlog2 (nat d))
      in if 2 powi k \<le> x then k else k - 1)"

definition round_half_even :: "rat \<Rightarrow> int" where
  "round_half_even y =
     (let f = \<lfloor>y\<rfloor>; r = y - of_int f
      in if r < 1 / 2 then f else if 1 / 2 < r then f + 1 else if even f then f else f + 1)"

definition round_f64 :: "rat \<Rightarrow> rat" where
  "round_f64 x =
     (if x = 0 then 0
      else (let s = 52 - ilog2 \<bar>x\<bar>
            in sgn x * (of_int (round_half_even (\<bar>x\<bar> * 2 powi s)) * 2 powi (- s))))"

text \<open>\<open>f64::from(a) / f64::from(b)\<close> on positive 32-bit integers, and the sum of two doubles.\<close>

definition f64_div :: "nat \<Rightarrow> nat \<Rightarrow> rat" where
  [std_defs]: "f64_div a b = round_f64 (of_nat a / of_nat b)"

definition f64_add :: "rat \<Rightarrow> rat \<Rightarrow> rat" where
  [std_defs]: "f64_add a b = round_f64 (a + b)"

text \<open>\<open>f32::from_bits\<close>, \<open>is_finite\<close> and the value of a finite pattern.\<close>

definition f32_exponent :: "nat \<Rightarrow> nat" where
  [std_defs]: "f32_exponent bits = bits div 2 ^ 23 mod 256"

definition f32_is_finite :: "nat \<Rightarrow> bool" where
  [std_defs]: "f32_is_finite bits \<longleftrightarrow> f32_exponent bits \<noteq> 255"

definition f32_value :: "nat \<Rightarrow> rat" where
  [std_defs]: "f32_value bits =
     (let e = f32_exponent bits; m = bits mod 2 ^ 23; s = (if bits div 2 ^ 31 mod 2 = 1 then - 1 else 1)
      in s * (if e = 0 then of_nat m * 2 powi (- 149) else of_nat (2 ^ 23 + m) * 2 powi (int e - 150)))"

section \<open>What rounding keeps\<close>

lemma nlog2_bounds: "0 < n \<Longrightarrow> 2 ^ nlog2 n \<le> n \<and> n < 2 * 2 ^ nlog2 n"
proof (induction n rule: nlog2.induct)
  case (1 n)
  show ?case
  proof (cases "n < 2")
    case True
    then show ?thesis using 1 by (simp add: nlog2.simps [of n])
  next
    case False
    then have "2 ^ nlog2 (n div 2) \<le> n div 2" "n div 2 < 2 * 2 ^ nlog2 (n div 2)" using 1 by auto
    then show ?thesis using False by (simp add: nlog2.simps [of n]) linarith
  qed
qed

lemma powi_pos: "0 < (2 :: rat) powi k"
  by simp

lemma ilog2_bounds:
  assumes "0 < x"
  shows "2 powi (ilog2 x) \<le> x \<and> x < 2 * 2 powi (ilog2 x)"
proof -
  obtain n d where q: "quotient_of x = (n, d)" by fastforce
  have d: "0 < d" using q by (rule quotient_of_denom_pos)
  have x: "x = of_int n / of_int d" using q by (rule quotient_of_div)
  have n: "0 < n" using assms d unfolding x by (simp add: zero_less_divide_iff)
  define a b where "a = nlog2 (nat n)" and "b = nlog2 (nat d)"
  have "2 ^ a \<le> nat n" "nat n < 2 * 2 ^ a" "2 ^ b \<le> nat d" "nat d < 2 * 2 ^ b"
    using nlog2_bounds [of "nat n"] nlog2_bounds [of "nat d"] n d by (auto simp: a_def b_def)
  then have "rat_of_nat (2 ^ a) \<le> rat_of_nat (nat n)" "rat_of_nat (nat n) < rat_of_nat (2 * 2 ^ a)"
    "rat_of_nat (2 ^ b) \<le> rat_of_nat (nat d)" "rat_of_nat (nat d) < rat_of_nat (2 * 2 ^ b)"
    unfolding of_nat_le_iff of_nat_less_iff by auto
  then have nd: "(2 :: rat) ^ a \<le> of_int n" "(of_int n :: rat) < 2 * 2 ^ a"
    "(2 :: rat) ^ b \<le> of_int d" "(of_int d :: rat) < 2 * 2 ^ b"
    using n d by auto
  have p: "(2 :: rat) powi (int a - int b) = 2 ^ a / 2 ^ b" by (simp add: power_int_diff)
  have "x < 2 * (2 ^ a / 2 ^ b)"
  proof -
    have "x \<le> of_int n / 2 ^ b" unfolding x using nd n d by (intro divide_left_mono) (auto intro: mult_pos_pos)
    also have "\<dots> < 2 * 2 ^ a / 2 ^ b" using nd by (intro divide_strict_right_mono) auto
    finally show ?thesis by simp
  qed
  moreover have "2 ^ a / 2 ^ b / 2 < x"
  proof -
    have "2 ^ a / (2 * 2 ^ b) \<le> of_int n / (2 * (2 :: rat) ^ b)" using nd by (intro divide_right_mono) auto
    also have "\<dots> < x" unfolding x using nd n d by (intro divide_strict_left_mono) auto
    finally show ?thesis by simp
  qed
  moreover have "(2 :: rat) powi (int a - int b - 1) = 2 ^ a / 2 ^ b / 2"
    using p by (simp add: power_int_diff)
  ultimately show ?thesis using p
    by (auto simp: ilog2_def q a_def [symmetric] b_def [symmetric] Let_def)
qed

lemma round_half_even_error: "\<bar>of_int (round_half_even y) - y\<bar> \<le> 1 / 2"
proof -
  define z where "z = y - of_int \<lfloor>y\<rfloor>"
  have z: "0 \<le> z" "z < 1" using floor_correct [of y] by (simp_all add: z_def)
  have y: "y = of_int \<lfloor>y\<rfloor> + z" by (simp add: z_def)
  show ?thesis
    unfolding round_half_even_def Let_def z_def [symmetric] using z by (subst y) (auto simp: abs_le_iff)
qed

lemma round_half_even_le: "y \<le> of_int k \<Longrightarrow> round_half_even y \<le> k"
proof -
  assume le: "y \<le> of_int k"
  then have "\<lfloor>y\<rfloor> \<le> k" by (simp add: floor_le_iff)
  moreover have "y - of_int \<lfloor>y\<rfloor> = 0" if "\<lfloor>y\<rfloor> = k"
    using le of_int_floor_le [of y] that by simp
  ultimately show ?thesis by (cases "\<lfloor>y\<rfloor> = k") (simp_all add: round_half_even_def Let_def)
qed

lemma round_half_even_ge: "of_int k \<le> y \<Longrightarrow> k \<le> round_half_even y"
proof -
  assume "of_int k \<le> y"
  then have "k \<le> \<lfloor>y\<rfloor>" by (simp add: le_floor_iff)
  then show ?thesis by (simp add: round_half_even_def Let_def)
qed

lemma round_f64_pos:
  assumes "0 < x"
  shows "round_f64 x = of_int (round_half_even (x * 2 powi (52 - ilog2 x))) * 2 powi (ilog2 x - 52)"
  using assms by (simp add: round_f64_def Let_def)

lemma round_f64_error:
  assumes "0 < x"
  shows "\<bar>round_f64 x - x\<bar> \<le> x / 2 ^ 53"
proof -
  define L where "L = ilog2 x"
  have L: "2 powi L \<le> x" using ilog2_bounds [OF assms] by (simp add: L_def)
  have inv: "(2 :: rat) powi (52 - L) * 2 powi (L - 52) = 1" by (simp flip: power_int_add)
  have "round_f64 x - x = (of_int (round_half_even (x * 2 powi (52 - L))) - x * 2 powi (52 - L)) * 2 powi (L - 52)"
    using inv by (simp add: round_f64_pos [OF assms] L_def [symmetric] left_diff_distrib mult.assoc)
  then have "\<bar>round_f64 x - x\<bar> \<le> 1 / 2 * 2 powi (L - 52)"
    using round_half_even_error [of "x * 2 powi (52 - L)"] by (simp add: abs_mult mult_right_mono)
  also have "\<dots> = 2 powi L / 2 ^ 53" by (simp add: power_int_diff)
  also have "\<dots> \<le> x / 2 ^ 53" using L by (rule divide_right_mono) simp
  finally show ?thesis .
qed

text \<open>An integer below \<open>2 ^ 53\<close> is a double, so rounding never crosses it.\<close>

lemma integer_scale:
  assumes "0 < x" "x < 2 ^ 53"
  obtains j :: nat where "52 - ilog2 x = int j"
proof -
  have "2 powi (ilog2 x) < (2 :: rat) powi 53" using ilog2_bounds [OF assms(1)] assms(2) by simp
  then have "\<not> 53 \<le> ilog2 x" using power_int_increasing [of 53 "ilog2 x" "2 :: rat"] by auto
  then show ?thesis using that [of "nat (52 - ilog2 x)"] by simp
qed

lemma round_f64_le_integer:
  assumes "0 < x" "x \<le> of_nat k" "k < 2 ^ 53"
  shows "round_f64 x \<le> of_nat k"
proof -
  have "(of_nat k :: rat) < of_nat (2 ^ 53)" using assms(3) unfolding of_nat_less_iff .
  then have "x < 2 ^ 53" using assms(2) by simp
  then obtain j where j: "52 - ilog2 x = int j" using integer_scale assms(1) by blast
  then have neg: "ilog2 x - 52 = - int j" by simp
  have "x * 2 ^ j \<le> of_int (int k * 2 ^ j)" using assms(2) by simp
  then have "round_half_even (x * 2 ^ j) \<le> int k * 2 ^ j" by (rule round_half_even_le)
  then have "(of_int (round_half_even (x * 2 ^ j)) :: rat) \<le> of_int (int k * 2 ^ j)" unfolding of_int_le_iff .
  then show ?thesis
    by (simp add: round_f64_pos [OF assms(1)] j neg power_int_minus divide_simps)
qed

lemma round_f64_ge_integer:
  assumes "0 < x" "of_nat k \<le> x" "x < 2 ^ 53"
  shows "of_nat k \<le> round_f64 x"
proof -
  obtain j where j: "52 - ilog2 x = int j" using integer_scale assms(1,3) by blast
  then have neg: "ilog2 x - 52 = - int j" by simp
  have "of_int (int k * 2 ^ j) \<le> x * 2 ^ j" using assms(2) by simp
  then have "int k * 2 ^ j \<le> round_half_even (x * 2 ^ j)" by (rule round_half_even_ge)
  then have "(of_int (int k * 2 ^ j) :: rat) \<le> of_int (round_half_even (x * 2 ^ j))" unfolding of_int_le_iff .
  then show ?thesis
    by (simp add: round_f64_pos [OF assms(1)] j neg power_int_minus divide_simps)
qed

text \<open>The rounded quotient of two 32-bit integers lies below a small integer exactly when the
  quotient does: rounding cannot bring a quotient above the bound down to it.\<close>

lemma f64_div_le_iff:
  assumes "0 < a" "0 < b" "b < 2 ^ 31" "0 < k" "k \<le> 2 ^ 20"
  shows "f64_div a b \<le> of_nat k \<longleftrightarrow> a \<le> k * b"
proof -
  define x :: rat where "x = of_nat a / of_nat b"
  have pos: "0 < x" using assms by (simp add: x_def)
  have le: "x \<le> of_nat k \<longleftrightarrow> a \<le> k * b"
    using assms by (simp add: x_def divide_le_eq flip: of_nat_mult)
  show ?thesis
  proof (cases "a \<le> k * b")
    case True
    then show ?thesis using round_f64_le_integer [OF pos, of k] le assms(5) by (simp add: f64_div_def x_def)
  next
    case False
    then have "k * b + 1 \<le> a" by simp
    then have "(of_nat (k * b + 1) :: rat) \<le> of_nat a" unfolding of_nat_le_iff .
    then have "(of_nat k * of_nat b + 1) / of_nat b \<le> x"
      unfolding x_def using assms(2) by (intro divide_right_mono) simp_all
    then have "of_nat k + 1 / of_nat b \<le> x" using assms(2) by (simp add: add_divide_distrib)
    moreover have "(1 :: rat) / 2 ^ 31 \<le> 1 / of_nat b"
    proof -
      have "(of_nat b :: rat) \<le> of_nat (2 ^ 31)" using assms(3) unfolding of_nat_le_iff by simp
      then show ?thesis using assms(2) by (simp add: divide_simps)
    qed
    ultimately have gap: "of_nat k + 1 / 2 ^ 31 \<le> x" by linarith
    have kb: "(of_nat k :: rat) \<le> 2 ^ 20"
    proof -
      have "(of_nat k :: rat) \<le> of_nat (2 ^ 20)" using assms(5) unfolding of_nat_le_iff .
      then show ?thesis by simp
    qed
    have "x - x / 2 ^ 53 \<le> round_f64 x" using round_f64_error [OF pos] by linarith
    moreover have "of_nat k < x - x / 2 ^ 53" using gap kb by simp
    ultimately have "of_nat k < round_f64 x" by linarith
    then show ?thesis using False by (simp add: f64_div_def x_def)
  qed
qed

section \<open>Products and rounding to integers\<close>

definition f64_mul :: "rat \<Rightarrow> rat \<Rightarrow> rat" where
  [std_defs]: "f64_mul a b = round_f64 (a * b)"

text \<open>\<open>f64::round\<close>: half away from zero, here on values that are not negative.\<close>

definition f64_round :: "rat \<Rightarrow> int" where
  [std_defs]: "f64_round x = \<lfloor>x + 1 / 2\<rfloor>"

end
