(* ===== verification/Rust_Net.thy ===== *)
theory Rust_Net
  imports Rust_Text
begin

text \<open>
  The address parsers of \<open>std::net\<close> the target grammar calls. An \<open>Ipv4Addr\<close> is its four octets, an
  \<open>Ipv6Addr\<close> its eight segments. The parsers read a prefix of the text and return the rest, as the
  standard library's \<open>Parser\<close> does.
\<close>

section \<open>Numbers and separators\<close>

text \<open>\<open>read_number\<close>: all the digits that follow, at least one, at most \<open>maxd\<close>; a leading zero only where
  it is allowed; the value at most \<open>mx\<close>.\<close>

definition read_number :: "(char \<Rightarrow> nat option) \<Rightarrow> nat \<Rightarrow> nat \<Rightarrow> bool \<Rightarrow> nat \<Rightarrow> string \<Rightarrow> (nat \<times> string) option" where
  "read_number dig radix maxd zero_prefix mx s =
     (let ds = takeWhile (\<lambda>c. dig c \<noteq> None) s;
          v = foldl (\<lambda>v c. v * radix + the (dig c)) 0 ds
      in if ds = [] \<or> maxd < length ds then None
         else if \<not> zero_prefix \<and> hd ds = CHR ''0'' \<and> 1 < length ds then None
         else if mx < v then None
         else Some (v, drop (length ds) s))"

definition dec_digit :: "char \<Rightarrow> nat option" where
  "dec_digit c = (if is_ascii_digit c then Some (digit_val c) else None)"

definition read_char :: "char \<Rightarrow> string \<Rightarrow> string option" where
  "read_char c s = (case s of [] \<Rightarrow> None | d # r \<Rightarrow> if d = c then Some r else None)"

definition read_separator :: "char \<Rightarrow> nat \<Rightarrow> (string \<Rightarrow> ('a \<times> string) option) \<Rightarrow> string \<Rightarrow> ('a \<times> string) option" where
  "read_separator sep index inner s =
     (if index = 0 then inner s else do { r \<leftarrow> read_char sep s; inner r })"

section \<open>IPv4\<close>

abbreviation read_octet :: "string \<Rightarrow> (nat \<times> string) option" where
  "read_octet \<equiv> read_number dec_digit 10 3 False 255"

fun read_octets :: "nat \<Rightarrow> nat \<Rightarrow> string \<Rightarrow> (nat list \<times> string) option" where
  "read_octets 0 i s = Some ([], s)"
| "read_octets (Suc n) i s =
     do {
       (o1, r) \<leftarrow> read_separator (CHR ''.'') i read_octet s;
       (os, r) \<leftarrow> read_octets n (i + 1) r;
       Some (o1 # os, r)
     }"

definition read_ipv4_addr :: "string \<Rightarrow> (nat list \<times> string) option" where
  "read_ipv4_addr s = read_octets 4 0 s"

definition parse_ipv4 :: "string \<Rightarrow> nat list option" where
  "parse_ipv4 s =
     (if 15 < length s then None
      else (case read_ipv4_addr s of Some (a, []) \<Rightarrow> Some a | _ \<Rightarrow> None))"

definition ipv4_is_unspecified :: "nat list \<Rightarrow> bool" where
  "ipv4_is_unspecified a \<longleftrightarrow> a = [0, 0, 0, 0]"

definition ipv4_is_multicast :: "nat list \<Rightarrow> bool" where
  "ipv4_is_multicast a \<longleftrightarrow> 224 \<le> hd a \<and> hd a \<le> 239"

definition ipv4_is_broadcast :: "nat list \<Rightarrow> bool" where
  "ipv4_is_broadcast a \<longleftrightarrow> a = [255, 255, 255, 255]"

section \<open>IPv6\<close>

abbreviation read_group :: "string \<Rightarrow> (nat \<times> string) option" where
  "read_group \<equiv> read_number hex_digit 16 4 True 65535"

text \<open>\<open>read_groups\<close> into a slice of \<open>limit\<close> places from place \<open>i\<close>: the groups read, whether an embedded
  IPv4 address ended them, and the rest.\<close>

function read_groups :: "nat \<Rightarrow> nat \<Rightarrow> string \<Rightarrow> nat list \<times> bool \<times> string" where
  "read_groups limit i s =
     (if limit \<le> i then ([], False, s)
      else (case (if i + 1 < limit then read_separator (CHR '':'') i read_ipv4_addr s else None) of
              Some (a, r) \<Rightarrow> ([a ! 0 * 256 + a ! 1, a ! 2 * 256 + a ! 3], True, r)
            | None \<Rightarrow>
                (case read_separator (CHR '':'') i read_group s of
                   None \<Rightarrow> ([], False, s)
                 | Some (g, r) \<Rightarrow>
                     (case read_groups limit (i + 1) r of (gs, v4, r') \<Rightarrow> (g # gs, v4, r')))))"
  by pat_completeness auto
termination
  by (relation "measure (\<lambda>(limit, i, s). limit - i)") auto

declare read_groups.simps [simp del]

definition read_ipv6_addr :: "string \<Rightarrow> (nat list \<times> string) option" where
  "read_ipv6_addr s =
     (case read_groups 8 0 s of
        (head, v4, r) \<Rightarrow>
          if length head = 8 then Some (head, r)
          else if v4 then None
          else do {
            r \<leftarrow> read_char (CHR '':'') r;
            r \<leftarrow> read_char (CHR '':'') r;
            (case read_groups (8 - (length head + 1)) 0 r of
               (tail, _, r) \<Rightarrow>
                 Some (head @ replicate (8 - length head - length tail) 0 @ tail, r))
          })"

definition parse_ipv6 :: "string \<Rightarrow> nat list option" where
  "parse_ipv6 s = (case read_ipv6_addr s of Some (a, []) \<Rightarrow> Some a | _ \<Rightarrow> None)"

definition ipv6_is_unspecified :: "nat list \<Rightarrow> bool" where
  "ipv6_is_unspecified a \<longleftrightarrow> a = replicate 8 0"

definition ipv6_is_multicast :: "nat list \<Rightarrow> bool" where
  "ipv6_is_multicast a \<longleftrightarrow> hd a div 256 = 255"

section \<open>The shape of a parsed address\<close>

lemma read_number_max: "read_number dig radix maxd z mx s = Some (v, r) \<Longrightarrow> v \<le> mx"
  by (auto simp: read_number_def Let_def split: if_splits)

lemma read_number_consumes:
  "read_number dig radix maxd z mx s = Some (v, r) \<Longrightarrow> s = takeWhile (\<lambda>c. dig c \<noteq> None) s @ r"
proof -
  assume "read_number dig radix maxd z mx s = Some (v, r)"
  then have "r = drop (length (takeWhile (\<lambda>c. dig c \<noteq> None) s)) s"
    by (auto simp: read_number_def Let_def split: if_splits)
  then show ?thesis by (simp flip: dropWhile_eq_drop)
qed

lemma read_octets_shape:
  "read_octets n i s = Some (os, r) \<Longrightarrow> length os = n \<and> (\<forall>x \<in> set os. x \<le> 255)"
proof (induction n arbitrary: i s os r)
  case (Suc n)
  then show ?case
    by (auto simp: read_separator_def bind_eq_Some_conv dest!: read_number_max split: if_splits)
qed simp

lemma parse_ipv4_shape: "parse_ipv4 s = Some a \<Longrightarrow> length a = 4 \<and> (\<forall>x \<in> set a. x \<le> 255)"
  using read_octets_shape [of 4 0 s a "[]"]
  by (auto simp: parse_ipv4_def read_ipv4_addr_def split: if_splits option.splits list.splits)

lemma read_groups_shape:
  "i \<le> limit \<Longrightarrow> read_groups limit i s = (gs, v4, r) \<Longrightarrow>
   length gs \<le> limit - i \<and> (\<forall>x \<in> set gs. x \<le> 65535)"
proof (induction limit i s arbitrary: gs v4 r rule: read_groups.induct)
  case (1 limit i s)
  consider "limit \<le> i" | a r' where "i + 1 < limit" "read_separator (CHR '':'') i read_ipv4_addr s = Some (a, r')"
    | "i < limit" "(if i + 1 < limit then read_separator (CHR '':'') i read_ipv4_addr s else None) = None"
    by (cases "if i + 1 < limit then read_separator (CHR '':'') i read_ipv4_addr s else None")
       (fastforce split: if_splits)+
  then show ?case
  proof cases
    case 1
    then show ?thesis using "1.prems"(2) by (subst (asm) read_groups.simps) simp
  next
    case 2
    then have "length a = 4" "\<forall>x \<in> set a. x \<le> 255"
      by (auto simp: read_separator_def read_ipv4_addr_def bind_eq_Some_conv dest: read_octets_shape split: if_splits)
    then have "a ! 0 \<le> 255" "a ! 1 \<le> 255" "a ! 2 \<le> 255" "a ! 3 \<le> 255" by simp_all
    then show ?thesis using 2 "1.prems" by (auto simp: read_groups.simps [of limit i s])
  next
    case 3
    show ?thesis
    proof (cases "read_separator (CHR '':'') i read_group s")
      case None
      then show ?thesis using 3 "1.prems" by (simp add: read_groups.simps [of limit i s])
    next
      case (Some gr)
      obtain g r' where gr: "gr = (g, r')" by (cases gr)
      obtain gs' v4' r'' where rec: "read_groups limit (i + 1) r' = (gs', v4', r'')" by (metis prod_cases3)
      have "g \<le> 65535"
        using Some gr by (auto simp: read_separator_def bind_eq_Some_conv dest: read_number_max split: if_splits)
      moreover have "length gs' \<le> limit - (i + 1) \<and> (\<forall>x \<in> set gs'. x \<le> 65535)"
        using "1.IH" [OF _ 3(2) Some gr [symmetric] _ rec] 3(1) by simp
      ultimately show ?thesis using 3 Some gr rec "1.prems" by (auto simp: read_groups.simps [of limit i s])
    qed
  qed
qed

lemma parse_ipv6_shape: "parse_ipv6 s = Some a \<Longrightarrow> length a = 8 \<and> (\<forall>x \<in> set a. x \<le> 65535)"
proof -
  assume p: "parse_ipv6 s = Some a"
  obtain head v4 r where h: "read_groups 8 0 s = (head, v4, r)" by (metis prod_cases3)
  have hs: "length head \<le> 8" "\<forall>x \<in> set head. x \<le> 65535" using read_groups_shape [OF _ h] by auto
  show ?thesis
  proof (cases "length head = 8")
    case True
    then show ?thesis using p h hs
      by (auto simp: parse_ipv6_def read_ipv6_addr_def split: list.splits)
  next
    case False
    then obtain r' where r': "\<not> v4" "do { r \<leftarrow> read_char (CHR '':'') r; read_char (CHR '':'') r } = Some r'"
      using p h by (auto simp: parse_ipv6_def read_ipv6_addr_def bind_eq_Some_conv split: option.splits if_splits)
    obtain tl v4' r'' where t: "read_groups (8 - (length head + 1)) 0 r' = (tl, v4', r'')" by (metis prod_cases3)
    have ts: "length tl \<le> 8 - (length head + 1)" "\<forall>x \<in> set tl. x \<le> 65535" using read_groups_shape [OF _ t] by auto
    have "a = head @ replicate (8 - length head - length tl) 0 @ tl"
      using p h False r' t
      by (auto simp: parse_ipv6_def read_ipv6_addr_def bind_eq_Some_conv split: list.splits)
    then show ?thesis using hs ts False by auto
  qed
qed

section \<open>The characters of a parsed address\<close>

definition addr_char :: "char \<Rightarrow> bool" where
  "addr_char c \<longleftrightarrow> hex_digit c \<noteq> None \<or> c = CHR '':'' \<or> c = CHR ''.''"

text \<open>A reader that consumes address characters only.\<close>

definition reads_addr :: "string \<Rightarrow> string \<Rightarrow> bool" where
  "reads_addr s r \<longleftrightarrow> (\<exists>p. s = p @ r \<and> (\<forall>c \<in> set p. addr_char c))"

lemma reads_addr_refl [simp]: "reads_addr s s"
  by (simp add: reads_addr_def)

lemma reads_addr_trans: "reads_addr s r \<Longrightarrow> reads_addr r q \<Longrightarrow> reads_addr s q"
  unfolding reads_addr_def by (metis Un_iff append.assoc set_append)

lemma read_number_addr:
  assumes "read_number dig radix maxd z mx s = Some (v, r)" "\<And>c. dig c \<noteq> None \<Longrightarrow> addr_char c"
  shows "reads_addr s r"
  unfolding reads_addr_def
proof (intro exI conjI)
  show "s = takeWhile (\<lambda>c. dig c \<noteq> None) s @ r" using assms(1) by (rule read_number_consumes)
  show "\<forall>c \<in> set (takeWhile (\<lambda>c. dig c \<noteq> None) s). addr_char c" using assms(2) set_takeWhileD by fast
qed

lemma read_char_addr: "read_char c s = Some r \<Longrightarrow> addr_char c \<Longrightarrow> reads_addr s r"
  by (cases s) (auto simp: read_char_def reads_addr_def split: if_splits intro: exI [of _ "[c]"])

lemma addr_seps: "addr_char (CHR ''.'')" "addr_char (CHR '':'')"
  by (simp_all add: addr_char_def)

lemma dec_digit_addr: "dec_digit c \<noteq> None \<Longrightarrow> addr_char c"
  by (auto simp: dec_digit_def addr_char_def hex_digit_def split: if_splits)

lemma hex_digit_addr: "hex_digit c \<noteq> None \<Longrightarrow> addr_char c"
  by (simp add: addr_char_def)

lemma read_separator_addr:
  assumes "read_separator sep i inner s = Some (x, r)" "addr_char sep"
    and "\<And>s x r. inner s = Some (x, r) \<Longrightarrow> reads_addr s r"
  shows "reads_addr s r"
  using assms(1)
  by (auto simp: read_separator_def bind_eq_Some_conv split: if_splits
      intro: assms(3) reads_addr_trans [OF read_char_addr [OF _ assms(2)] assms(3)])

lemma read_octets_addr: "read_octets n i s = Some (os, r) \<Longrightarrow> reads_addr s r"
proof (induction n arbitrary: i s os)
  case (Suc n)
  then obtain x s' os' where "read_separator (CHR ''.'') i read_octet s = Some (x, s')"
    and rest: "read_octets n (i + 1) s' = Some (os', r)"
    by (auto simp: bind_eq_Some_conv)
  from this(1) have "reads_addr s s'"
    by (rule read_separator_addr [OF _ addr_seps(1)]) (erule read_number_addr, rule dec_digit_addr)
  then show ?case using Suc.IH [OF rest] by (rule reads_addr_trans)
qed simp

lemma read_groups_addr: "read_groups limit i s = (gs, v4, r) \<Longrightarrow> reads_addr s r"
proof (induction limit i s arbitrary: gs v4 rule: read_groups.induct)
  case (1 limit i s)
  let ?v4 = "if i + 1 < limit then read_separator (CHR '':'') i read_ipv4_addr s else None"
  show ?case
  proof (cases "limit \<le> i")
    case True
    then show ?thesis using "1.prems" by (subst (asm) read_groups.simps) simp
  next
    case lt: False
    show ?thesis
    proof (cases ?v4)
      case (Some ar)
      obtain a r' where ar: "ar = (a, r')" by (cases ar)
      have "reads_addr s r'"
      proof (rule read_separator_addr [OF _ addr_seps(2)])
        show "read_separator (CHR '':'') i read_ipv4_addr s = Some (a, r')"
          using Some ar by (simp split: if_splits)
      qed (simp add: read_ipv4_addr_def read_octets_addr)
      then show ?thesis using Some ar lt "1.prems" by (subst (asm) read_groups.simps) auto
    next
      case v4: None
      show ?thesis
      proof (cases "read_separator (CHR '':'') i read_group s")
        case None
        then show ?thesis using v4 lt "1.prems" by (subst (asm) read_groups.simps) simp
      next
        case (Some gr)
        obtain g r' where gr: "gr = (g, r')" by (cases gr)
        obtain gs' v4' r'' where rec: "read_groups limit (i + 1) r' = (gs', v4', r'')" by (metis prod_cases3)
        have "r'' = r" using "1.prems" v4 lt Some gr rec by (subst (asm) read_groups.simps) simp
        moreover have "reads_addr s r'"
          by (rule read_separator_addr [OF Some [unfolded gr] addr_seps(2)])
            (erule read_number_addr, rule hex_digit_addr)
        ultimately show ?thesis
          using "1.IH" [OF lt v4 Some gr [symmetric]] rec reads_addr_trans by blast
      qed
    qed
  qed
qed

lemma parse_ipv4_chars: "parse_ipv4 s = Some a \<Longrightarrow> c \<in> set s \<Longrightarrow> addr_char c"
  using read_octets_addr [of 4 0 s a "[]"]
  by (auto simp: parse_ipv4_def read_ipv4_addr_def reads_addr_def split: if_splits option.splits list.splits)

lemma parse_ipv6_chars:
  assumes "parse_ipv6 s = Some a" "c \<in> set s"
  shows "addr_char c"
proof -
  obtain head v4 r where h: "read_groups 8 0 s = (head, v4, r)" by (metis prod_cases3)
  have "reads_addr s []"
  proof (cases "length head = 8")
    case True
    then have "r = []" using assms(1) h by (auto simp: parse_ipv6_def read_ipv6_addr_def split: list.splits)
    then show ?thesis using read_groups_addr [OF h] by simp
  next
    case False
    then obtain q r' where r': "read_char (CHR '':'') r = Some q" "read_char (CHR '':'') q = Some r'" "\<not> v4"
      using assms(1) h by (auto simp: parse_ipv6_def read_ipv6_addr_def bind_eq_Some_conv split: option.splits if_splits)
    obtain tl v4' r'' where t: "read_groups (8 - (length head + 1)) 0 r' = (tl, v4', r'')" by (metis prod_cases3)
    have "r'' = []"
      using assms(1) h False r' t by (auto simp: parse_ipv6_def read_ipv6_addr_def bind_eq_Some_conv split: list.splits)
    then show ?thesis
      using read_groups_addr [OF h] read_char_addr [OF r'(1)] read_char_addr [OF r'(2)] read_groups_addr [OF t]
        addr_seps reads_addr_trans by metis
  qed
  then show ?thesis using assms(2) by (auto simp: reads_addr_def)
qed

lemma read_octets_plain: "read_octets n i s = Some (os, []) \<Longrightarrow> CHR '':'' \<notin> set s"
proof (induction n arbitrary: i s os)
  case (Suc n)
  then obtain x s' os' where x: "read_separator (CHR ''.'') i read_octet s = Some (x, s')"
    and rest: "read_octets n (i + 1) s' = Some (os', [])"
    by (auto simp: bind_eq_Some_conv)
  have num: "CHR '':'' \<notin> set q" if "read_octet q = Some (x, s')" for q
  proof -
    have "q = takeWhile (\<lambda>c. dec_digit c \<noteq> None) q @ s'" using that by (rule read_number_consumes)
    moreover have "CHR '':'' \<notin> set (takeWhile (\<lambda>c. dec_digit c \<noteq> None) q)"
      using set_takeWhileD by (fastforce simp: dec_digit_def is_ascii_digit_def)
    ultimately show ?thesis using Suc.IH [OF rest] by (metis Un_iff set_append)
  qed
  show ?case
    using x num by (auto simp: read_separator_def read_char_def bind_eq_Some_conv split: if_splits list.splits)
qed simp

end
