(* ===== verification/Protocol.thy ===== *)
theory Protocol
  imports Buf Nfc Rust_Float Rust_Net
begin

text \<open>
  \<^verbatim>\<open>crates/omt-protocol/src/lib.rs\<close>: the OMT wire headers and the target grammar. A header's integers
  are the values its bytes encode; \<open>aspect_ratio\<close> keeps its bit pattern. The lemmas show that the
  frame header parser accepts exactly the encodings of well-formed headers and bounds what the
  channel reads next, that the floating-point rate test is the exact rational one, that a metadata
  frame is parsed back, and what an accepted target looks like.
\<close>

section \<open>Data\<close>

abbreviation HEADER_SIZE :: nat where "HEADER_SIZE \<equiv> 16"
abbreviation VIDEO_HEADER_SIZE :: nat where "VIDEO_HEADER_SIZE \<equiv> 32"
abbreviation AUDIO_HEADER_SIZE :: nat where "AUDIO_HEADER_SIZE \<equiv> 24"
abbreviation VIDEO_MAX_SIZE :: nat where "VIDEO_MAX_SIZE \<equiv> 10485760"
abbreviation AUDIO_MAX_SIZE :: nat where "AUDIO_MAX_SIZE \<equiv> 1048576"
abbreviation METADATA_MAX_SIZE :: nat where "METADATA_MAX_SIZE \<equiv> 65536"
abbreviation SOURCE_NAME_MAX_BYTES :: nat where "SOURCE_NAME_MAX_BYTES \<equiv> 63"
abbreviation TARGET_MAX_BYTES :: nat where "TARGET_MAX_BYTES \<equiv> 512"
abbreviation HOST_MAX_BYTES :: nat where "HOST_MAX_BYTES \<equiv> 256"
abbreviation CODEC_VMX1 :: int where "CODEC_VMX1 \<equiv> 0x31584d56"
abbreviation CODEC_FPA1 :: int where "CODEC_FPA1 \<equiv> 0x31415046"

datatype frame_type = Metadata | Video | Audio

record frame_header =
  fh_frame_type :: frame_type
  fh_timestamp :: int
  fh_metadata_length :: nat
  fh_data_length :: nat

record video_header =
  vh_codec :: int
  vh_width :: int
  vh_height :: int
  vh_frame_rate_n :: int
  vh_frame_rate_d :: int
  vh_aspect_ratio :: nat
  vh_flags :: nat
  vh_color_space :: int

record audio_header =
  ah_codec :: int
  ah_sample_rate :: int
  ah_samples_per_channel :: int
  ah_channels :: int
  ah_active_channels :: nat

record direct_target =
  dt_host :: string
  dt_port :: nat

datatype proto_kind = Truncated | Unsupported | Oversized | Invalid

datatype proto_error = ProtoError (pe_kind: proto_kind) (pe_detail: string)

definition display_proto_error :: "proto_error \<Rightarrow> string" where
  "display_proto_error e =
     (case pe_kind e of
        Truncated \<Rightarrow> ''truncated'' | Unsupported \<Rightarrow> ''unsupported''
      | Oversized \<Rightarrow> ''oversized'' | Invalid \<Rightarrow> ''invalid'') @ '' '' @ pe_detail e"

definition proto_fail :: "proto_kind \<Rightarrow> string \<Rightarrow> proto_error + 'a" where
  [simp]: "proto_fail kind detail = Inl (ProtoError kind detail)"

section \<open>The headers\<close>

definition le16 :: "u8 list \<Rightarrow> nat \<Rightarrow> nat" where
  [model_defs]: "le16 b p = le_val (slice b p (p + 2))"

definition le32 :: "u8 list \<Rightarrow> nat \<Rightarrow> nat" where
  [model_defs]: "le32 b p = le_val (slice b p (p + 4))"

definition le_i32 :: "u8 list \<Rightarrow> nat \<Rightarrow> int" where
  [model_defs]: "le_i32 b p = signed_of 32 (le_val (slice b p (p + 4)))"

text \<open>The frame type of a type byte, with its extended header and its payload limit.\<close>

definition frame_kind :: "u8 \<Rightarrow> (frame_type \<times> nat \<times> nat) option" where
  "frame_kind b =
     (if b = 1 then Some (Metadata, 0, METADATA_MAX_SIZE)
      else if b = 2 then Some (Video, VIDEO_HEADER_SIZE, VIDEO_MAX_SIZE)
      else if b = 4 then Some (Audio, AUDIO_HEADER_SIZE, AUDIO_MAX_SIZE)
      else None)"

definition parse_frame_header :: "u8 list \<Rightarrow> proto_error + frame_header" where
  "parse_frame_header data =
     (if length data < HEADER_SIZE then proto_fail Truncated ''OMT frame header''
      else if data ! 0 \<noteq> 1 then proto_fail Unsupported ''OMT frame version''
      else (case frame_kind (data ! 1) of
              None \<Rightarrow> proto_fail Unsupported ''OMT frame type''
            | Some (frame_type, extension, maximum) \<Rightarrow>
                (let timestamp = signed_of 64 (le_val (slice data 2 10));
                     metadata_length = le16 data 10;
                     data_length = le32 data 12
                 in case checked_sub data_length extension of
                      None \<Rightarrow> proto_fail Invalid ''OMT frame is shorter than its extended header''
                    | Some payload \<Rightarrow>
                        if maximum < payload then proto_fail Oversized ''OMT frame payload''
                        else if payload < metadata_length
                        then proto_fail Invalid ''OMT metadata length exceeds the payload''
                        else Inr \<lparr>fh_frame_type = frame_type, fh_timestamp = timestamp,
                                  fh_metadata_length = metadata_length, fh_data_length = data_length\<rparr>)))"

definition parse_video_header :: "frame_header \<Rightarrow> u8 list \<Rightarrow> proto_error + video_header" where
  "parse_video_header frame data =
     (if fh_frame_type frame \<noteq> Video \<or> length data < VIDEO_HEADER_SIZE
      then proto_fail Truncated ''OMT video header''
      else
        (let v = \<lparr>vh_codec = le_i32 data 0, vh_width = le_i32 data 4, vh_height = le_i32 data 8,
                  vh_frame_rate_n = le_i32 data 12, vh_frame_rate_d = le_i32 data 16,
                  vh_aspect_ratio = le32 data 20, vh_flags = le32 data 24,
                  vh_color_space = le_i32 data 28\<rparr>
         in if \<not> (16 \<le> vh_width v \<and> vh_width v \<le> 1920) \<or> \<not> (16 \<le> vh_height v \<and> vh_height v \<le> 1080)
               \<or> vh_frame_rate_n v \<le> 0 \<or> vh_frame_rate_d v \<le> 0
            then proto_fail Unsupported ''OMT video dimensions or frame rate''
            else
              (let rate = f64_div (nat (vh_frame_rate_n v)) (nat (vh_frame_rate_d v))
               in if \<not> (0 \<le> rate \<and> rate \<le> 60) \<or> vh_codec v \<noteq> CODEC_VMX1
                  then proto_fail Unsupported ''OMT video format''
                  else if \<not> f32_is_finite (vh_aspect_ratio v)
                          \<or> \<not> (0 \<le> f32_value (vh_aspect_ratio v) \<and> f32_value (vh_aspect_ratio v) \<le> 10)
                          \<or> (vh_color_space v \<noteq> 0 \<and> vh_color_space v \<noteq> 601 \<and> vh_color_space v \<noteq> 709)
                          \<or> (word_of_nat (vh_flags v) :: u32) AND NOT 31 \<noteq> 0
                  then proto_fail Unsupported ''OMT video properties''
                  else Inr v)))"

definition count_ones :: "nat \<Rightarrow> nat" where
  "count_ones n = length (filter (\<lambda>i. bit n i) [0..<32])"

definition parse_audio_header :: "frame_header \<Rightarrow> u8 list \<Rightarrow> proto_error + audio_header" where
  "parse_audio_header frame data =
     (if fh_frame_type frame \<noteq> Audio \<or> length data < AUDIO_HEADER_SIZE
      then proto_fail Truncated ''OMT audio header''
      else
        (let a = \<lparr>ah_codec = le_i32 data 0, ah_sample_rate = le_i32 data 4,
                  ah_samples_per_channel = le_i32 data 8, ah_channels = le_i32 data 12,
                  ah_active_channels = le32 data 16\<rparr>
         in if ah_codec a \<noteq> CODEC_FPA1 \<or> \<not> (8000 \<le> ah_sample_rate a \<and> ah_sample_rate a \<le> 192000)
               \<or> \<not> (1 \<le> ah_channels a \<and> ah_channels a \<le> 32) \<or> ah_samples_per_channel a < 1
            then proto_fail Unsupported ''OMT audio format''
            else
              (let channels = nat (ah_channels a); samples = nat (ah_samples_per_channel a)
               in if AUDIO_MAX_SIZE < samples * channels * 4 then proto_fail Oversized ''decoded audio''
                  else
                    (let allowed = (if channels = 32 then - 1 else push_bit channels 1 - 1 :: u32)
                     in if (word_of_nat (ah_active_channels a) :: u32) AND NOT allowed \<noteq> 0
                        then proto_fail Invalid ''active audio channel''
                        else
                          (let compressed = count_ones (ah_active_channels a) * samples * 4
                           in case checked_sub (fh_data_length frame) AUDIO_HEADER_SIZE of
                                None \<Rightarrow> proto_fail Invalid ''audio payload''
                              | Some payload \<Rightarrow>
                                  if compressed + fh_metadata_length frame \<noteq> payload
                                  then proto_fail Invalid ''OMT planar audio payload length''
                                  else Inr a)))))"

definition build_metadata :: "u8 list \<Rightarrow> int \<Rightarrow> u8 list \<Rightarrow> proto_error + u8 list" where
  "build_metadata xml timestamp out =
     (if \<not> (length xml \<le> U32_MAX \<and> 0 < length xml \<and> length xml < METADATA_MAX_SIZE)
      then proto_fail Invalid ''metadata size''
      else Inr (out @ [1, 1] @ le_bytes 8 (unsigned_of 64 timestamp) @ le_bytes 2 0
                @ le_bytes 4 (length xml) @ xml))"

section \<open>Targets\<close>

definition valid_label :: "string \<Rightarrow> bool" where
  "valid_label label \<longleftrightarrow>
     label \<noteq> [] \<and> length label \<le> 63 \<and> hd label \<noteq> CHR ''-'' \<and> last label \<noteq> CHR ''-''
     \<and> list_all (\<lambda>c. is_ascii_alphanumeric c \<or> c = CHR ''-'') label"

definition valid_dns :: "string \<Rightarrow> bool" where
  "valid_dns host \<longleftrightarrow>
     (if host = [] \<or> 253 < length host then False else list_all valid_label (split_on (CHR ''.'') host))"

definition is_undiallable_ipv4 :: "nat list \<Rightarrow> bool" where
  "is_undiallable_ipv4 a \<longleftrightarrow> ipv4_is_unspecified a \<or> ipv4_is_multicast a \<or> ipv4_is_broadcast a"

definition is_undiallable_ipv6 :: "nat list \<Rightarrow> bool" where
  "is_undiallable_ipv6 a \<longleftrightarrow>
     ipv6_is_unspecified a \<or> ipv6_is_multicast a \<or> and (hd a) 0xFFC0 = 0xFE80"

definition bad_authority_byte :: "char \<Rightarrow> bool" where
  "bad_authority_byte b \<longleftrightarrow> b \<in> set ''/?#@'' \<or> byte b \<le> 31 \<or> byte b = 127"

text \<open>The host and port texts of an authority, and whether it is the bracketed form.\<close>

definition split_authority :: "string \<Rightarrow> proto_error + (string \<times> string \<times> bool)" where
  "split_authority auth =
     (case strip_prefix ''['' auth of
        Some rest \<Rightarrow>
          (case find_str '']:'' rest of
             None \<Rightarrow> Inl (ProtoError Invalid ''IPv6 target'')
           | Some close \<Rightarrow>
               (let host = take close rest; port = drop (close + 2) rest
                in if CHR '':'' \<in> set port then Inl (ProtoError Invalid ''IPv6 target'')
                   else Inr (host, port, True)))
      | None \<Rightarrow>
          (case rsplit_once (CHR '':'') auth of
             None \<Rightarrow> Inl (ProtoError Invalid ''OMT target port'')
           | Some (host, port) \<Rightarrow>
               if CHR '':'' \<in> set host then Inl (ProtoError Invalid ''IPv6 brackets'')
               else Inr (host, port, False)))"

definition parse_port :: "string \<Rightarrow> nat option" where
  "parse_port s =
     (case parse_u64 s 65535 of None \<Rightarrow> None | Some p \<Rightarrow> if p \<le> 65535 \<and> p \<noteq> 0 then Some p else None)"

definition check_host :: "string \<Rightarrow> bool \<Rightarrow> proto_error + unit" where
  "check_host host ipv6 =
     (if ipv6 then
        (case parse_ipv6 host of
           Some a \<Rightarrow> if CHR ''%'' \<notin> set host \<and> \<not> is_undiallable_ipv6 a then Inr ()
                     else Inl (ProtoError Invalid ''IPv6 target'')
         | None \<Rightarrow> Inl (ProtoError Invalid ''IPv6 target''))
      else
        (let v4 = parse_ipv4 host
         in if host = [] \<or> HOST_MAX_BYTES \<le> length host \<or> (v4 = None \<and> \<not> valid_dns host)
            then Inl (ProtoError Invalid ''OMT target host'')
            else (case v4 of
                    Some a \<Rightarrow> if is_undiallable_ipv4 a then Inl (ProtoError Invalid ''OMT target host'') else Inr ()
                  | None \<Rightarrow> Inr ())))"

definition parse_direct_target :: "string \<Rightarrow> proto_error + direct_target" where
  "parse_direct_target value =
     (if TARGET_MAX_BYTES < length value then Inl (ProtoError Invalid ''OMT direct target'')
      else and_then (ok_or (strip_prefix ''omt://'' value) (ProtoError Invalid ''OMT direct target'')) (\<lambda>auth.
        if list_ex bad_authority_byte auth then Inl (ProtoError Invalid ''OMT direct target'')
        else and_then (split_authority auth) (\<lambda>(host, port_text, ipv6).
          and_then (ok_or (parse_port port_text) (ProtoError Invalid ''OMT target port'')) (\<lambda>port.
            and_then (check_host host ipv6) (\<lambda>_.
              if HOST_MAX_BYTES \<le> length host then Inl (ProtoError Invalid ''OMT target host'')
              else Inr \<lparr>dt_host = host, dt_port = port\<rparr>)))))"

section \<open>Source names\<close>

definition FORBIDDEN_NAME_RANGES :: "(nat \<times> nat) list" where
  "FORBIDDEN_NAME_RANGES = [
    (0x0, 0x1f), (0x7f, 0x9f), (0xad, 0xad), (0x600, 0x605), (0x61c, 0x61c), (0x6dd, 0x6dd),
    (0x70f, 0x70f), (0x890, 0x891), (0x8e2, 0x8e2), (0x180e, 0x180e), (0x200b, 0x200f),
    (0x2028, 0x202e), (0x2060, 0x2064), (0x2066, 0x206f), (0xd800, 0xdfff), (0xfeff, 0xfeff),
    (0xfff9, 0xfffb), (0x110bd, 0x110bd), (0x110cd, 0x110cd), (0x13430, 0x1343f),
    (0x1bca0, 0x1bca3), (0x1d173, 0x1d17a), (0xe0001, 0xe0001), (0xe0020, 0xe007f)]"

definition range_cmp :: "nat \<Rightarrow> nat \<times> nat \<Rightarrow> ordering" where
  "range_cmp cp r = (if snd r < cp then Less else if cp < fst r then Greater else Equal)"

definition is_forbidden_name_char :: "nat \<Rightarrow> bool" where
  "is_forbidden_name_char cp \<longleftrightarrow> binary_search_by (range_cmp cp) FORBIDDEN_NAME_RANGES \<noteq> None"

text \<open>\<open>is_valid_source_name\<close> on the scalar values of the text.\<close>

definition is_valid_source_name :: "nat list \<Rightarrow> bool" where
  "is_valid_source_name cs =
     (if cs = [] \<or> SOURCE_NAME_MAX_BYTES < utf8_len cs then False
      else if \<not> is_normalized cs SOURCE_NAME_MAX_BYTES then False
      else if list_ex is_forbidden_name_char cs then False
      else \<not> is_whitespace (hd cs) \<and> \<not> is_whitespace (last cs))"

definition is_valid_source_name_bytes :: "u8 list \<Rightarrow> bool" where
  "is_valid_source_name_bytes value =
     (case from_utf8 (of_bytes value) of None \<Rightarrow> False | Some cs \<Rightarrow> is_valid_source_name cs)"

text \<open>\<open>is_valid_target\<close> on a \<open>str\<close>, whose bytes are valid UTF-8.\<close>

definition is_valid_target :: "string \<Rightarrow> bool" where
  "is_valid_target value =
     (if starts_with ''omt://'' value then is_ok (parse_direct_target value)
      else is_valid_source_name_bytes (as_bytes value))"

section \<open>The frame header\<close>

text \<open>The encoding a sender uses, and the headers the protocol admits.\<close>

definition encode_frame_header :: "frame_header \<Rightarrow> u8 list" where
  "encode_frame_header h =
     [1, case fh_frame_type h of Metadata \<Rightarrow> 1 | Video \<Rightarrow> 2 | Audio \<Rightarrow> 4]
     @ le_bytes 8 (unsigned_of 64 (fh_timestamp h)) @ le_bytes 2 (fh_metadata_length h)
     @ le_bytes 4 (fh_data_length h)"

definition extension_size :: "frame_type \<Rightarrow> nat" where
  "extension_size t = (case t of Metadata \<Rightarrow> 0 | Video \<Rightarrow> VIDEO_HEADER_SIZE | Audio \<Rightarrow> AUDIO_HEADER_SIZE)"

definition payload_limit :: "frame_type \<Rightarrow> nat" where
  "payload_limit t = (case t of Metadata \<Rightarrow> METADATA_MAX_SIZE | Video \<Rightarrow> VIDEO_MAX_SIZE | Audio \<Rightarrow> AUDIO_MAX_SIZE)"

definition frame_header_ok :: "frame_header \<Rightarrow> bool" where
  "frame_header_ok h \<longleftrightarrow>
     I64_MIN \<le> fh_timestamp h \<and> fh_timestamp h \<le> I64_MAX \<and> fh_metadata_length h < 65536
     \<and> extension_size (fh_frame_type h) \<le> fh_data_length h
     \<and> fh_data_length h - extension_size (fh_frame_type h) \<le> payload_limit (fh_frame_type h)
     \<and> fh_metadata_length h \<le> fh_data_length h - extension_size (fh_frame_type h)"

lemma frame_kind_Some:
  "frame_kind b = Some (t, e, m) \<longleftrightarrow>
     b = (case t of Metadata \<Rightarrow> 1 | Video \<Rightarrow> 2 | Audio \<Rightarrow> 4) \<and> e = extension_size t \<and> m = payload_limit t"
  by (cases t) (auto simp: frame_kind_def extension_size_def payload_limit_def)

lemma frame_header_ok_bounds:
  "frame_header_ok h \<Longrightarrow> fh_data_length h \<le> VIDEO_HEADER_SIZE + VIDEO_MAX_SIZE"
  by (cases "fh_frame_type h") (auto simp: frame_header_ok_def extension_size_def payload_limit_def)

lemma le_val_range: "length bs = n \<Longrightarrow> le_val bs < 256 ^ n"
  using le_val_less [of bs] by simp

lemma parse_frame_header_sound:
  assumes "parse_frame_header data = Inr h"
  shows "frame_header_ok h \<and> data = encode_frame_header h @ drop 16 data"
proof -
  from assms have len: "16 \<le> length data" and v: "data ! 0 = 1"
    by (auto simp: parse_frame_header_def split: if_splits)
  define ts ml dl where "ts = slice data 2 10" and "ml = slice data 10 12" and "dl = slice data 12 16"
  have lens: "length ts = 8" "length ml = 2" "length dl = 4" using len by (auto simp: ts_def ml_def dl_def)
  have data: "data = take 2 data @ ts @ ml @ dl @ drop 16 data"
  proof -
    have "take 2 data @ ts = take 10 data" "take 10 data @ ml = take 12 data" "take 12 data @ dl = take 16 data"
      using slice_append [of 0 2 10 data] slice_append [of 0 10 12 data] slice_append [of 0 12 16 data]
      by (simp_all add: ts_def ml_def dl_def)
    then show ?thesis by (metis append_assoc append_take_drop_id)
  qed
  have two: "take 2 data = [data ! 0, data ! 1]" using len by (cases data; cases "tl data") auto
  obtain t e m where k: "frame_kind (data ! 1) = Some (t, e, m)"
    using assms len v by (auto simp: parse_frame_header_def split: option.splits)
  note k' = k [unfolded frame_kind_Some]
  have h: "h = \<lparr>fh_frame_type = t, fh_timestamp = signed_of 64 (le_val ts),
      fh_metadata_length = le_val ml, fh_data_length = le_val dl\<rparr>"
    and ok: "e \<le> le_val dl" "le_val dl - e \<le> m" "le_val ml \<le> le_val dl - e"
    using assms len v k
    by (auto simp: parse_frame_header_def le16_def le32_def ts_def ml_def dl_def Let_def checked_iffs
        split: option.splits if_splits)
  have r: "le_val ts < 2 ^ 64" "le_val ml < 65536" "le_val dl < 2 ^ 32"
    using le_val_range [OF lens(1)] le_val_range [OF lens(2)] le_val_range [OF lens(3)] by simp_all
  have "frame_header_ok h"
    using signed_of_range [of 64 "le_val ts"] r ok k' by (simp add: h frame_header_ok_def)
  moreover have "encode_frame_header h = take 2 data @ ts @ ml @ dl"
    using le_bytes_le_val [of ts] le_bytes_le_val [of ml] le_bytes_le_val [of dl] lens r v k' two
    by (simp add: h encode_frame_header_def unsigned_of_signed_of)
  ultimately show ?thesis using data by simp
qed

lemma parse_frame_header_complete:
  assumes "frame_header_ok h"
  shows "parse_frame_header (encode_frame_header h @ rest) = Inr h"
proof -
  let ?ts = "le_bytes 8 (unsigned_of 64 (fh_timestamp h))" and ?ml = "le_bytes 2 (fh_metadata_length h)"
    and ?dl = "le_bytes 4 (fh_data_length h)"
  let ?d = "encode_frame_header h @ rest"
  have dl: "fh_data_length h < 2 ^ 32" using frame_header_ok_bounds [OF assms] by simp
  have u: "unsigned_of 64 (fh_timestamp h) < 2 ^ 64" by (simp add: unsigned_of_def nat_less_iff)
  have sl: "slice ?d 2 10 = ?ts" "slice ?d 10 12 = ?ml" "slice ?d 12 16 = ?dl"
    by (simp_all add: encode_frame_header_def del: le_bytes.simps)
  have vals: "signed_of 64 (le_val ?ts) = fh_timestamp h" "le_val ?ml = fh_metadata_length h" "le_val ?dl = fh_data_length h"
    using assms u dl signed_of_unsigned_of [of 64 "fh_timestamp h"]
    by (simp_all add: le_val_le_bytes frame_header_ok_def del: le_bytes.simps)
  have "frame_kind (?d ! 1) = Some (fh_frame_type h, extension_size (fh_frame_type h), payload_limit (fh_frame_type h))"
    by (simp add: frame_kind_Some encode_frame_header_def)
  moreover have "?d ! 0 = 1" "16 \<le> length ?d" by (simp_all add: encode_frame_header_def)
  ultimately show ?thesis
    using assms sl vals
    by (simp add: parse_frame_header_def le16_def le32_def checked_sub_def frame_header_ok_def not_less)
qed

section \<open>The media headers\<close>

lemma and_not_mask_eq_0: "w AND NOT (mask n) = 0 \<longleftrightarrow> unat w < 2 ^ n" if "n < LENGTH('a)" for w :: "'a::len word"
proof -
  have "w AND NOT (mask n) = 0 \<longleftrightarrow> take_bit n w = w"
    by (metis (no_types, lifting) and_zero_eq bit.conj_cancel_right take_bit_eq_mask and.assoc
        and.commute bit.conj_disj_distrib bit.disj_cancel_right and.right_neutral bit.conj_one_right or.right_neutral)
  also have "\<dots> \<longleftrightarrow> unat w < 2 ^ n"
    by (metis take_bit_eq_self_iff_drop_bit_eq_0 unsigned_take_bit_eq take_bit_nat_eq_self_iff word_unat_eq_iff)
  finally show ?thesis .
qed

text \<open>The header fields as the bytes encode them.\<close>

definition read_video_header :: "u8 list \<Rightarrow> video_header" where
  "read_video_header data =
     \<lparr>vh_codec = le_i32 data 0, vh_width = le_i32 data 4, vh_height = le_i32 data 8,
      vh_frame_rate_n = le_i32 data 12, vh_frame_rate_d = le_i32 data 16,
      vh_aspect_ratio = le32 data 20, vh_flags = le32 data 24, vh_color_space = le_i32 data 28\<rparr>"

text \<open>What the protocol admits, with the frame rate as the exact quotient.\<close>

definition video_header_ok :: "video_header \<Rightarrow> bool" where
  "video_header_ok v \<longleftrightarrow>
     16 \<le> vh_width v \<and> vh_width v \<le> 1920 \<and> 16 \<le> vh_height v \<and> vh_height v \<le> 1080
     \<and> 0 < vh_frame_rate_n v \<and> 0 < vh_frame_rate_d v \<and> vh_frame_rate_n v \<le> 60 * vh_frame_rate_d v
     \<and> vh_codec v = CODEC_VMX1
     \<and> f32_is_finite (vh_aspect_ratio v) \<and> 0 \<le> f32_value (vh_aspect_ratio v) \<and> f32_value (vh_aspect_ratio v) \<le> 10
     \<and> vh_color_space v \<in> {0, 601, 709} \<and> vh_flags v < 32"

lemma le32_less: "le32 data p < 4294967296"
proof -
  have "le_val (slice data p (p + 4)) < 256 ^ length (slice data p (p + 4))" by (rule le_val_less)
  also have "\<dots> \<le> 256 ^ 4" by (intro power_increasing) auto
  finally show ?thesis by (simp add: le32_def)
qed

lemma le_i32_bounds: "- 2147483648 \<le> le_i32 data p \<and> le_i32 data p < 2147483648"
  using signed_of_range [of 32 "le_val (slice data p (p + 4))"] le32_less [of data p]
  by (simp add: le_i32_def le32_def)

lemma flags_test:
  assumes "n < 4294967296"
  shows "(word_of_nat n :: u32) AND NOT 31 = 0 \<longleftrightarrow> n < 32"
proof -
  have "(31 :: u32) = mask 5" by (simp add: mask_eq_exp_minus_1)
  moreover have "unat (word_of_nat n :: u32) = n" using assms by (simp add: unat_of_nat)
  ultimately show ?thesis using and_not_mask_eq_0 [of 5 "word_of_nat n :: u32"] by simp
qed

lemma rate_test:
  assumes "0 < n" "0 < d" "d < 2147483648"
  shows "0 \<le> f64_div (nat n) (nat d) \<and> f64_div (nat n) (nat d) \<le> 60 \<longleftrightarrow> n \<le> 60 * d"
proof -
  have pos: "0 < (of_nat (nat n) / of_nat (nat d) :: rat)" using assms by simp
  have "0 \<le> f64_div (nat n) (nat d)"
    using round_f64_error [OF pos] pos by (simp add: f64_div_def abs_le_iff)
  moreover have "f64_div (nat n) (nat d) \<le> of_nat 60 \<longleftrightarrow> nat n \<le> 60 * nat d"
    using assms by (intro f64_div_le_iff) auto
  ultimately show ?thesis using assms by auto
qed

lemma parse_video_header_iff:
  "parse_video_header frame data = Inr v \<longleftrightarrow>
     fh_frame_type frame = Video \<and> VIDEO_HEADER_SIZE \<le> length data
     \<and> v = read_video_header data \<and> video_header_ok v"
proof (cases "fh_frame_type frame \<noteq> Video \<or> length data < VIDEO_HEADER_SIZE")
  case True
  then show ?thesis by (auto simp: parse_video_header_def)
next
  case False
  let ?v = "read_video_header data"
  have flags: "(word_of_nat (vh_flags ?v) :: u32) AND NOT 31 = 0 \<longleftrightarrow> vh_flags ?v < 32"
    using le32_less by (intro flags_test) (simp add: read_video_header_def)
  have d: "vh_frame_rate_d ?v < 2147483648" using le_i32_bounds by (simp add: read_video_header_def)
  have rate: "0 < vh_frame_rate_n ?v \<Longrightarrow> 0 < vh_frame_rate_d ?v \<Longrightarrow>
    0 \<le> f64_div (nat (vh_frame_rate_n ?v)) (nat (vh_frame_rate_d ?v)) \<and>
    f64_div (nat (vh_frame_rate_n ?v)) (nat (vh_frame_rate_d ?v)) \<le> 60 \<longleftrightarrow>
    vh_frame_rate_n ?v \<le> 60 * vh_frame_rate_d ?v"
    using d by (intro rate_test) auto
  show ?thesis
    using False
    unfolding parse_video_header_def Let_def read_video_header_def [symmetric] video_header_ok_def proto_fail_def
    using flags rate
    by (cases "0 < vh_frame_rate_n ?v \<and> 0 < vh_frame_rate_d ?v") (auto simp: not_le not_less split: if_splits)
qed

definition read_audio_header :: "u8 list \<Rightarrow> audio_header" where
  "read_audio_header data =
     \<lparr>ah_codec = le_i32 data 0, ah_sample_rate = le_i32 data 4, ah_samples_per_channel = le_i32 data 8,
      ah_channels = le_i32 data 12, ah_active_channels = le32 data 16\<rparr>"

definition audio_header_ok :: "frame_header \<Rightarrow> audio_header \<Rightarrow> bool" where
  "audio_header_ok frame a \<longleftrightarrow>
     ah_codec a = CODEC_FPA1 \<and> 8000 \<le> ah_sample_rate a \<and> ah_sample_rate a \<le> 192000
     \<and> 1 \<le> ah_channels a \<and> ah_channels a \<le> 32 \<and> 1 \<le> ah_samples_per_channel a
     \<and> ah_samples_per_channel a * ah_channels a * 4 \<le> int AUDIO_MAX_SIZE
     \<and> ah_active_channels a < 2 ^ nat (ah_channels a)
     \<and> fh_data_length frame =
         AUDIO_HEADER_SIZE + count_ones (ah_active_channels a) * nat (ah_samples_per_channel a) * 4
         + fh_metadata_length frame"

lemma channels_test:
  assumes "n < 4294967296" "c \<le> 32"
  shows "(word_of_nat n :: u32) AND NOT (if c = 32 then - 1 else push_bit c 1 - 1) = 0 \<longleftrightarrow> n < 2 ^ c"
proof (cases "c = 32")
  case True
  then show ?thesis using assms by simp
next
  case False
  then have c: "c < LENGTH(32)" using assms(2) by simp
  have "(push_bit c 1 - 1 :: u32) = mask c" by (simp add: mask_eq_exp_minus_1 push_bit_eq_mult)
  moreover have "unat (word_of_nat n :: u32) = n" using assms by (simp add: unat_of_nat)
  ultimately show ?thesis using and_not_mask_eq_0 [OF c, of "word_of_nat n"] False by simp
qed

lemma parse_audio_header_iff:
  "parse_audio_header frame data = Inr a \<longleftrightarrow>
     fh_frame_type frame = Audio \<and> AUDIO_HEADER_SIZE \<le> length data
     \<and> a = read_audio_header data \<and> audio_header_ok frame a"
proof (cases "fh_frame_type frame \<noteq> Audio \<or> length data < AUDIO_HEADER_SIZE")
  case True
  then show ?thesis by (auto simp: parse_audio_header_def)
next
  case False
  let ?a = "read_audio_header data"
  have active: "(word_of_nat (ah_active_channels ?a) :: u32)
      AND NOT (if nat (ah_channels ?a) = 32 then - 1 else push_bit (nat (ah_channels ?a)) 1 - 1) = 0
      \<longleftrightarrow> ah_active_channels ?a < 2 ^ nat (ah_channels ?a)" if "ah_channels ?a \<le> 32"
    using that le32_less by (intro channels_test) (simp_all add: read_audio_header_def)
  have size: "AUDIO_MAX_SIZE < nat (ah_samples_per_channel ?a) * nat (ah_channels ?a) * 4 \<longleftrightarrow>
      int AUDIO_MAX_SIZE < ah_samples_per_channel ?a * ah_channels ?a * 4"
    if "1 \<le> ah_samples_per_channel ?a" "1 \<le> ah_channels ?a"
  proof -
    have "int (nat (ah_samples_per_channel ?a) * nat (ah_channels ?a) * 4) = ah_samples_per_channel ?a * ah_channels ?a * 4"
      using that by simp
    then show ?thesis by linarith
  qed
  define basic where "basic \<longleftrightarrow> ah_codec ?a = CODEC_FPA1 \<and> 8000 \<le> ah_sample_rate ?a \<and> ah_sample_rate ?a \<le> 192000
     \<and> 1 \<le> ah_channels ?a \<and> ah_channels ?a \<le> 32 \<and> 1 \<le> ah_samples_per_channel ?a"
  have basic: "(ah_codec ?a \<noteq> CODEC_FPA1 \<or> \<not> (8000 \<le> ah_sample_rate ?a \<and> ah_sample_rate ?a \<le> 192000)
     \<or> \<not> (1 \<le> ah_channels ?a \<and> ah_channels ?a \<le> 32) \<or> ah_samples_per_channel ?a < 1) \<longleftrightarrow> \<not> basic"
    by (auto simp: basic_def)
  show ?thesis
  proof (cases basic)
    case True
    then have conds: "ah_channels ?a \<le> 32" "1 \<le> ah_samples_per_channel ?a" "1 \<le> ah_channels ?a" by (simp_all add: basic_def)
    have ok: "audio_header_ok frame ?a \<longleftrightarrow>
        \<not> AUDIO_MAX_SIZE < nat (ah_samples_per_channel ?a) * nat (ah_channels ?a) * 4
        \<and> ah_active_channels ?a < 2 ^ nat (ah_channels ?a)
        \<and> fh_data_length frame = AUDIO_HEADER_SIZE + count_ones (ah_active_channels ?a) * nat (ah_samples_per_channel ?a) * 4
          + fh_metadata_length frame"
      using True unfolding size [OF conds(2,3)] by (auto simp: audio_header_ok_def basic_def)
    show ?thesis
      unfolding parse_audio_header_def Let_def read_audio_header_def [symmetric] basic active [OF conds(1)]
      using False True ok by (auto simp: checked_sub_def)
  next
    case f: False
    then have "\<not> audio_header_ok frame ?a" by (auto simp: audio_header_ok_def basic_def)
    then show ?thesis
      unfolding parse_audio_header_def Let_def read_audio_header_def [symmetric] basic
      using f False by auto
  qed
qed

lemma count_ones_le:
  assumes "n < 2 ^ c"
  shows "count_ones n \<le> c"
proof -
  have "\<not> bit n i" if "c \<le> i" for i
    using assms that by (metis bit_take_bit_iff take_bit_nat_eq_self not_le)
  then have "set (filter (\<lambda>i. bit n i) [0..<32]) \<subseteq> {..<c}" using not_le by auto
  then have "card (set (filter (\<lambda>i. bit n i) [0..<32])) \<le> card {..<c}" by (rule card_mono [rotated]) simp
  moreover have "card (set (filter (\<lambda>i. bit n i) [0..<32])) = length (filter (\<lambda>i. bit n i) [0..<32])"
    by (rule distinct_card) simp
  ultimately show ?thesis by (simp add: count_ones_def)
qed

section \<open>The target grammar\<close>

lemma parse_port_Some:
  "parse_port s = Some p \<longleftrightarrow>
     s \<noteq> [] \<and> (\<forall>c \<in> set s. is_ascii_digit c) \<and> p = decimal s \<and> 1 \<le> p \<and> p \<le> 65535"
proof (cases "parse_u64 s 65535")
  case None
  then show ?thesis using parse_u64_None [of 65535 s] by (auto simp: parse_port_def)
next
  case (Some v)
  then show ?thesis using parse_u64_Some [of 65535 s v] by (auto simp: parse_port_def)
qed

text \<open>A target that can be dialled: a bracketed IPv6 literal, or a DNS name or IPv4 literal.\<close>

definition host_ok :: "bool \<Rightarrow> string \<Rightarrow> bool" where
  "host_ok v6 host \<longleftrightarrow>
     length host < HOST_MAX_BYTES \<and>
     (if v6 then (case parse_ipv6 host of Some a \<Rightarrow> \<not> is_undiallable_ipv6 a | None \<Rightarrow> False)
      else (case parse_ipv4 host of Some a \<Rightarrow> \<not> is_undiallable_ipv4 a | None \<Rightarrow> valid_dns host))"

definition format_target :: "bool \<Rightarrow> direct_target \<Rightarrow> string" where
  "format_target v6 t =
     ''omt://'' @ (if v6 then ''['' @ dt_host t @ '']'' else dt_host t) @ '':'' @ show_nat (dt_port t)"

lemma addr_char_plain: "addr_char c \<Longrightarrow> \<not> bad_authority_byte c \<and> c \<noteq> CHR ''['' \<and> c \<noteq> CHR '']'' \<and> c \<noteq> CHR ''%''"
  by (auto simp: addr_char_def bad_authority_byte_def hex_digit_def is_ascii_digit_def split: if_splits)

lemma digit_plain: "is_ascii_digit c \<Longrightarrow> \<not> bad_authority_byte c \<and> c \<noteq> CHR '':''"
  by (auto simp: bad_authority_byte_def is_ascii_digit_def)

lemma dns_char_plain:
  "is_ascii_alphanumeric c \<or> c = CHR ''-'' \<or> c = CHR ''.'' \<Longrightarrow>
   \<not> bad_authority_byte c \<and> c \<noteq> CHR '':'' \<and> c \<noteq> CHR ''[''"
  by (auto simp: bad_authority_byte_def is_ascii_alphanumeric_def is_ascii_digit_def)

lemma split_on_chars: "c \<in> set s \<Longrightarrow> c = sep \<or> (\<exists>part \<in> set (split_on sep s). c \<in> set part)"
  by (induction s) (auto split: list.splits if_splits)

lemma valid_dns_chars:
  assumes "valid_dns host" "c \<in> set host"
  shows "is_ascii_alphanumeric c \<or> c = CHR ''-'' \<or> c = CHR ''.''"
  using assms split_on_chars [OF assms(2), of "CHR ''.''"]
  by (auto simp: valid_dns_def valid_label_def list_all_iff split: if_splits)

lemma parse_ipv4_no_colon: "parse_ipv4 s = Some a \<Longrightarrow> CHR '':'' \<notin> set s"
  using read_octets_plain [of 4 0 s a]
  by (auto simp: parse_ipv4_def read_ipv4_addr_def split: if_splits option.splits list.splits)

lemma parse_ipv4_nonempty: "parse_ipv4 s = Some a \<Longrightarrow> s \<noteq> []"
  by (auto simp: parse_ipv4_def read_ipv4_addr_def numeral_eq_Suc read_separator_def read_number_def)

lemma host_plain:
  assumes "host_ok False host"
  shows "host \<noteq> []" "CHR '':'' \<notin> set host" "\<And>c. c \<in> set host \<Longrightarrow> \<not> bad_authority_byte c \<and> c \<noteq> CHR ''[''"
proof -
  consider a where "parse_ipv4 host = Some a" | "parse_ipv4 host = None" "valid_dns host"
    using assms by (auto simp: host_ok_def split: option.splits)
  then have "host \<noteq> [] \<and> CHR '':'' \<notin> set host \<and> (\<forall>c \<in> set host. \<not> bad_authority_byte c \<and> c \<noteq> CHR ''['')"
  proof cases
    case 1
    then show ?thesis using parse_ipv4_nonempty parse_ipv4_no_colon parse_ipv4_chars addr_char_plain by blast
  next
    case 2
    then show ?thesis using valid_dns_chars dns_char_plain by (auto simp: valid_dns_def)
  qed
  then show "host \<noteq> []" "CHR '':'' \<notin> set host" "\<And>c. c \<in> set host \<Longrightarrow> \<not> bad_authority_byte c \<and> c \<noteq> CHR ''[''"
    by auto
qed

lemma check_host_iff: "length host < HOST_MAX_BYTES \<and> check_host host v6 = Inr u \<longleftrightarrow> host_ok v6 host"
proof (cases v6)
  case True
  have "CHR ''%'' \<notin> set host" if "parse_ipv6 host = Some a" for a
    using parse_ipv6_chars [OF that] addr_char_plain by blast
  then show ?thesis using True by (auto simp: check_host_def host_ok_def split: option.splits if_splits)
next
  case False
  show ?thesis
  proof (cases "parse_ipv4 host")
    case None
    then show ?thesis using False by (auto simp: check_host_def host_ok_def Let_def valid_dns_def)
  next
    case (Some a)
    then show ?thesis using False parse_ipv4_nonempty [OF Some]
      by (auto simp: check_host_def host_ok_def Let_def)
  qed
qed

lemma find_close:
  assumes "CHR '']'' \<notin> set h"
  shows "find_str '']:'' (h @ '']:'' @ p) = Some (length h)"
  using assms by (induction h) (auto simp: starts_with_def)

lemma split_authority_v6:
  "split_authority auth = Inr (host, port, True) \<Longrightarrow> auth = ''['' @ host @ '']:'' @ port \<and> CHR '':'' \<notin> set port"
  by (auto simp: split_authority_def Let_def strip_prefix_Some split: option.splits if_splits dest: find_str_Some)

lemma split_authority_plain:
  "split_authority auth = Inr (host, port, False) \<Longrightarrow>
   auth = host @ '':'' @ port \<and> CHR '':'' \<notin> set port \<and> CHR '':'' \<notin> set host"
  by (auto simp: split_authority_def Let_def split: option.splits if_splits dest: rsplit_once_Some)

lemma parse_direct_target_sound:
  assumes "parse_direct_target value = Inr t"
  shows "\<exists>v6 port_text.
     value = ''omt://'' @ (if v6 then ''['' @ dt_host t @ '']'' else dt_host t) @ '':'' @ port_text
     \<and> parse_port port_text = Some (dt_port t) \<and> host_ok v6 (dt_host t) \<and> length value \<le> TARGET_MAX_BYTES"
proof -
  from assms obtain auth host port_text v6 u where a: "value = ''omt://'' @ auth" "length value \<le> TARGET_MAX_BYTES"
    "split_authority auth = Inr (host, port_text, v6)" "parse_port port_text = Some (dt_port t)"
    "check_host host v6 = Inr u" "length host < HOST_MAX_BYTES" "dt_host t = host"
    by (auto simp: parse_direct_target_def result_inv strip_prefix_Some split: if_splits)
  have "host_ok v6 host" using a(5,6) check_host_iff by blast
  moreover have "auth = (if v6 then ''['' @ host @ '']'' else host) @ '':'' @ port_text"
    using a(3) split_authority_v6 [of auth host port_text] split_authority_plain [of auth host port_text]
    by (cases v6) auto
  ultimately show ?thesis using a by (intro exI [of _ v6] exI [of _ port_text]) simp
qed

lemma separators_plain:
  "\<not> bad_authority_byte (CHR ''['')" "\<not> bad_authority_byte (CHR '']'')" "\<not> bad_authority_byte (CHR '':'')"
  by (simp_all add: bad_authority_byte_def)

lemma authority_v6:
  assumes "\<forall>c \<in> set h. \<not> bad_authority_byte c \<and> c \<noteq> CHR '']''"
    and "\<forall>c \<in> set p. \<not> bad_authority_byte c \<and> c \<noteq> CHR '':''"
  shows "split_authority (''['' @ h @ '']:'' @ p) = Inr (h, p, True)"
    "\<not> list_ex bad_authority_byte (''['' @ h @ '']:'' @ p)"
proof -
  have "find_str '']:'' (h @ '']:'' @ p) = Some (length h)" using assms(1) by (intro find_close) auto
  then show "split_authority (''['' @ h @ '']:'' @ p) = Inr (h, p, True)"
    using assms(2) by (auto simp: split_authority_def strip_prefix_def)
  show "\<not> list_ex bad_authority_byte (''['' @ h @ '']:'' @ p)"
    using assms separators_plain by (auto simp: list_ex_iff)
qed

lemma authority_plain:
  assumes "h \<noteq> []" "CHR '':'' \<notin> set h" "\<forall>c \<in> set h. \<not> bad_authority_byte c \<and> c \<noteq> CHR ''[''"
    and "\<forall>c \<in> set p. \<not> bad_authority_byte c \<and> c \<noteq> CHR '':''"
  shows "split_authority (h @ '':'' @ p) = Inr (h, p, False)" "\<not> list_ex bad_authority_byte (h @ '':'' @ p)"
proof -
  have "strip_prefix ''['' (h @ '':'' @ p) = None" using assms(1,3) by (cases h) (auto simp: strip_prefix_def)
  moreover have "rsplit_once (CHR '':'') (h @ '':'' @ p) = Some (h, p)"
    using assms(4) rsplit_once_append [of "CHR '':''" p h] by auto
  ultimately show "split_authority (h @ '':'' @ p) = Inr (h, p, False)"
    using assms(2) by (simp add: split_authority_def)
  show "\<not> list_ex bad_authority_byte (h @ '':'' @ p)"
    using assms separators_plain by (auto simp: list_ex_iff)
qed

lemma parse_direct_target_complete:
  assumes "host_ok v6 (dt_host t)" "1 \<le> dt_port t" "dt_port t \<le> 65535"
  shows "parse_direct_target (format_target v6 t) = Inr t"
proof -
  let ?p = "show_nat (dt_port t)" and ?h = "dt_host t"
  define auth where "auth = (if v6 then ''['' @ ?h @ '']:'' else ?h @ '':'') @ ?p"
  have port: "parse_port ?p = Some (dt_port t)"
    using assms(2,3) by (simp add: parse_port_Some show_nat_digits decimal_show_nat)
  have digits: "\<forall>c \<in> set ?p. \<not> bad_authority_byte c \<and> c \<noteq> CHR '':''"
    using show_nat_digits [of "dt_port t"] digit_plain by blast
  have len: "length ?p \<le> 5"
    using length_show_nat_le [of "dt_port t" 4] assms(3) by simp
  have check: "check_host ?h v6 = Inr ()" "length ?h < HOST_MAX_BYTES"
    using assms(1) check_host_iff [of ?h v6 "()"] by auto
  have auth: "split_authority auth = Inr (?h, ?p, v6) \<and> \<not> list_ex bad_authority_byte auth"
  proof (cases v6)
    case True
    then obtain a where "parse_ipv6 ?h = Some a" using assms(1) by (auto simp: host_ok_def split: option.splits)
    then have "\<forall>c \<in> set ?h. \<not> bad_authority_byte c \<and> c \<noteq> CHR '']''"
      using parse_ipv6_chars addr_char_plain by blast
    then show ?thesis using True authority_v6 [OF _ digits, of ?h] by (simp add: auth_def)
  next
    case False
    then have "host_ok False ?h" using assms(1) by simp
    note h = host_plain [OF this]
    then show ?thesis using False authority_plain [OF h(1,2) _ digits] by (simp add: auth_def)
  qed
  have "format_target v6 t = ''omt://'' @ auth" by (simp add: format_target_def auth_def)
  moreover have "length (''omt://'' @ auth) \<le> TARGET_MAX_BYTES" using len check(2) by (simp add: auth_def)
  ultimately show ?thesis using auth port check by (simp add: parse_direct_target_def strip_prefix_def)
qed

section \<open>Source names\<close>

lemma FORBIDDEN_sorted: "bs_sorted (range_cmp cp) FORBIDDEN_NAME_RANGES"
proof -
  have "sorted_wrt (\<lambda>r s. fst r \<le> snd r \<and> snd r < fst s \<and> fst s \<le> snd s) FORBIDDEN_NAME_RANGES"
    by (simp add: FORBIDDEN_NAME_RANGES_def)
  then show ?thesis
    unfolding bs_sorted_def
    by (rule sorted_wrt_mono_rel [rotated]) (auto simp: range_cmp_def split: if_splits)
qed

lemma range_cmp_Equal: "range_cmp cp r = Equal \<longleftrightarrow> fst r \<le> cp \<and> cp \<le> snd r"
  by (auto simp: range_cmp_def)

lemma is_forbidden_iff: "is_forbidden_name_char cp \<longleftrightarrow> (\<exists>(lo, hi) \<in> set FORBIDDEN_NAME_RANGES. lo \<le> cp \<and> cp \<le> hi)"
proof
  assume "is_forbidden_name_char cp"
  then obtain i where "binary_search_by (range_cmp cp) FORBIDDEN_NAME_RANGES = Some i"
    by (auto simp: is_forbidden_name_char_def)
  from binary_search_by_Some [OF this FORBIDDEN_sorted]
  show "\<exists>(lo, hi) \<in> set FORBIDDEN_NAME_RANGES. lo \<le> cp \<and> cp \<le> hi"
    by (auto simp: range_cmp_Equal intro!: bexI [of _ "FORBIDDEN_NAME_RANGES ! i"])
next
  assume "\<exists>(lo, hi) \<in> set FORBIDDEN_NAME_RANGES. lo \<le> cp \<and> cp \<le> hi"
  then obtain r where "r \<in> set FORBIDDEN_NAME_RANGES" "range_cmp cp r = Equal"
    by (auto simp: range_cmp_Equal)
  from binary_search_by_found [OF FORBIDDEN_sorted this] show "is_forbidden_name_char cp"
    by (auto simp: is_forbidden_name_char_def)
qed

lemma printable_not_forbidden: "0x20 \<le> cp \<Longrightarrow> cp \<le> 0x7e \<Longrightarrow> \<not> is_forbidden_name_char cp"
  by (auto simp: is_forbidden_iff FORBIDDEN_NAME_RANGES_def)

lemma trim_ws_fixed:
  assumes "cs \<noteq> []" "\<not> is_whitespace (hd cs)" "\<not> is_whitespace (last cs)"
  shows "trim_ws cs = cs"
proof -
  have "dropWhile is_whitespace cs = cs" using assms by (cases cs) auto
  moreover have "dropWhile is_whitespace (rev cs) = rev cs"
  proof -
    have "hd (rev cs) = last cs" by (rule hd_rev)
    moreover obtain x xs where "rev cs = x # xs" using assms(1) by (cases "rev cs") auto
    ultimately show ?thesis using assms(3) by (metis dropWhile.simps(2) list.sel(1))
  qed
  ultimately show ?thesis by (simp add: trim_ws_def)
qed

section \<open>Properties\<close>

text \<open>C1. The frame header parser accepts exactly the encodings of admitted headers: it returns \<open>h\<close>
  if and only if the data starts with the sixteen bytes that encode \<open>h\<close> and \<open>h\<close> respects the
  length limits (at most 10 MiB of video, 1 MiB of audio, 64 KiB of metadata, metadata inside the
  payload), so what the channel reads next never passes 10 MiB and 32 bytes.\<close>

theorem frame_header_exact:
  "(parse_frame_header data = Inr h \<longleftrightarrow> frame_header_ok h \<and> data = encode_frame_header h @ drop HEADER_SIZE data)
   \<and> (parse_frame_header data = Inr h \<longrightarrow> fh_data_length h \<le> VIDEO_HEADER_SIZE + VIDEO_MAX_SIZE)"
  using parse_frame_header_sound [of data h] parse_frame_header_complete [of h "drop HEADER_SIZE data"]
    frame_header_ok_bounds [of h] by metis

theorem frame_header_exact_witness:
  "parse_frame_header [1, 2, 0, 0, 0, 0, 0, 0, 0, 0, 0, 0, 33, 0, 0, 0] =
     Inr \<lparr>fh_frame_type = Video, fh_timestamp = 0, fh_metadata_length = 0, fh_data_length = 33\<rparr>
   \<and> (33 :: nat) \<le> VIDEO_HEADER_SIZE + VIDEO_MAX_SIZE"
proof -
  have "parse_frame_header [1, 2, 0, 0, 0, 0, 0, 0, 0, 0, 0, 0, 33, 0, 0, 0] =
     Inr \<lparr>fh_frame_type = Video, fh_timestamp = 0, fh_metadata_length = 0, fh_data_length = 33\<rparr>"
    by (simp add: parse_frame_header_def frame_kind_def le16_def le32_def checked_sub_def signed_of_def)
  then show ?thesis using frame_header_exact by fastforce
qed

text \<open>C2. The video header parser accepts exactly the headers of the supported formats. The frame rate is
  tested in floating point; the test accepts exactly the rates whose exact quotient is at most 60.\<close>

theorem video_header_exact:
  "parse_video_header frame data = Inr v \<longleftrightarrow>
     fh_frame_type frame = Video \<and> VIDEO_HEADER_SIZE \<le> length data
     \<and> v = read_video_header data \<and> video_header_ok v"
  by (rule parse_video_header_iff)

text \<open>C3. The audio header parser accepts exactly the supported formats whose planar payload has the
  announced length, and then the decoded samples fit in 1 MiB and so do the planes on the wire.\<close>

theorem audio_header_exact:
  "(parse_audio_header frame data = Inr a \<longleftrightarrow>
      fh_frame_type frame = Audio \<and> AUDIO_HEADER_SIZE \<le> length data
      \<and> a = read_audio_header data \<and> audio_header_ok frame a)
   \<and> (parse_audio_header frame data = Inr a \<longrightarrow>
      fh_data_length frame - AUDIO_HEADER_SIZE - fh_metadata_length frame \<le> AUDIO_MAX_SIZE)"
proof -
  have "fh_data_length frame - AUDIO_HEADER_SIZE - fh_metadata_length frame \<le> AUDIO_MAX_SIZE"
    if "audio_header_ok frame a"
  proof -
    let ?s = "nat (ah_samples_per_channel a)" and ?c = "nat (ah_channels a)"
    have ok: "1 \<le> ah_channels a" "1 \<le> ah_samples_per_channel a"
      "ah_samples_per_channel a * ah_channels a * 4 \<le> int AUDIO_MAX_SIZE"
      "ah_active_channels a < 2 ^ ?c"
      using that by (simp_all add: audio_header_ok_def)
    have "int (?s * ?c * 4) = ah_samples_per_channel a * ah_channels a * 4" using ok(1,2) by simp
    then have "?s * ?c * 4 \<le> AUDIO_MAX_SIZE" using ok(3) by linarith
    moreover have "count_ones (ah_active_channels a) * ?s * 4 \<le> ?c * ?s * 4"
      using count_ones_le [OF ok(4)] by (intro mult_right_mono) auto
    moreover have "?c * ?s * 4 = ?s * ?c * 4" by simp
    ultimately have "count_ones (ah_active_channels a) * ?s * 4 \<le> AUDIO_MAX_SIZE" by linarith
    then show ?thesis using that by (simp add: audio_header_ok_def)
  qed
  then show ?thesis using parse_audio_header_iff by blast
qed

theorem audio_header_exact_witness:
  "\<exists>a. parse_audio_header
       \<lparr>fh_frame_type = Audio, fh_timestamp = 0, fh_metadata_length = 0, fh_data_length = 40\<rparr>
       ([0x46, 0x50, 0x41, 0x31, 0x80, 0xbb, 0, 0, 2, 0, 0, 0, 2, 0, 0, 0, 3, 0, 0, 0, 0, 0, 0, 0]) = Inr a
   \<and> (40 :: nat) - AUDIO_HEADER_SIZE - 0 \<le> AUDIO_MAX_SIZE"
proof -
  let ?f = "\<lparr>fh_frame_type = Audio, fh_timestamp = 0, fh_metadata_length = 0, fh_data_length = 40\<rparr>"
  let ?d = "[0x46, 0x50, 0x41, 0x31, 0x80, 0xbb, 0, 0, 2, 0, 0, 0, 2, 0, 0, 0, 3, 0, 0, 0, 0, 0, 0, 0] :: u8 list"
  let ?a = "\<lparr>ah_codec = CODEC_FPA1, ah_sample_rate = 48000, ah_samples_per_channel = 2, ah_channels = 2,
    ah_active_channels = 3\<rparr>"
  have "read_audio_header ?d = ?a" by (simp add: read_audio_header_def le_i32_def le32_def signed_of_def)
  moreover have "count_ones 3 = 2" by (simp add: count_ones_def upt_conv_Cons bit_0)
  then have "audio_header_ok ?f ?a" by (simp add: audio_header_ok_def)
  ultimately have "parse_audio_header ?f ?d = Inr ?a" using audio_header_exact [of ?f ?d ?a] by simp
  then show ?thesis by simp
qed

text \<open>A metadata frame built for any text the protocol allows is parsed back as a metadata frame
  with that timestamp and that many payload bytes, followed by the text itself.\<close>

lemma metadata_roundtrip:
  assumes "0 < length xml" "length xml < METADATA_MAX_SIZE" "I64_MIN \<le> ts" "ts \<le> I64_MAX"
  shows "\<exists>frame. build_metadata xml ts out = Inr (out @ frame)
     \<and> parse_frame_header frame = Inr \<lparr>fh_frame_type = Metadata, fh_timestamp = ts,
         fh_metadata_length = 0, fh_data_length = length xml\<rparr>
     \<and> drop HEADER_SIZE frame = xml"
proof -
  let ?h = "\<lparr>fh_frame_type = Metadata, fh_timestamp = ts, fh_metadata_length = 0, fh_data_length = length xml\<rparr>"
  have "frame_header_ok ?h"
    using assms by (simp add: frame_header_ok_def extension_size_def payload_limit_def)
  then have "parse_frame_header (encode_frame_header ?h @ xml) = Inr ?h" by (rule parse_frame_header_complete)
  moreover have "build_metadata xml ts out = Inr (out @ encode_frame_header ?h @ xml)"
    using assms by (simp add: build_metadata_def encode_frame_header_def del: le_bytes.simps)
  moreover have "drop HEADER_SIZE (encode_frame_header ?h @ xml) = xml"
    by (simp add: encode_frame_header_def del: le_bytes.simps)
  ultimately show ?thesis by blast
qed



text \<open>Source names: a name is accepted only when it has at most 63 bytes, is already normalized, has no
  surrounding white space and no character of the published forbidden ranges (so the binary search
  over the ranges misses none); and every printable ASCII name of at most 63 bytes without
  surrounding spaces is accepted.\<close>

lemma source_name_rules:
  "(is_valid_source_name cs \<longrightarrow>
      cs \<noteq> [] \<and> utf8_len cs \<le> SOURCE_NAME_MAX_BYTES \<and> to_nfc cs = Some cs \<and> trim_ws cs = cs
      \<and> (\<forall>c \<in> set cs. \<forall>(lo, hi) \<in> set FORBIDDEN_NAME_RANGES. \<not> (lo \<le> c \<and> c \<le> hi)))
   \<and> (ns \<noteq> [] \<and> length ns \<le> SOURCE_NAME_MAX_BYTES \<and> (\<forall>c \<in> set ns. 0x20 \<le> c \<and> c \<le> 0x7e)
        \<and> hd ns \<noteq> 0x20 \<and> last ns \<noteq> 0x20 \<longrightarrow> is_valid_source_name ns)"
proof (intro conjI impI)
  assume v: "is_valid_source_name cs"
  then have v': "cs \<noteq> []" "utf8_len cs \<le> SOURCE_NAME_MAX_BYTES" "is_normalized cs SOURCE_NAME_MAX_BYTES"
    "\<not> list_ex is_forbidden_name_char cs" "\<not> is_whitespace (hd cs)" "\<not> is_whitespace (last cs)"
    by (auto simp: is_valid_source_name_def split: if_splits)
  show "cs \<noteq> []" "utf8_len cs \<le> SOURCE_NAME_MAX_BYTES" by fact+
  show "to_nfc cs = Some cs" using v'(3) by (auto simp: is_normalized_def split: if_splits option.splits)
  show "trim_ws cs = cs" using v' by (intro trim_ws_fixed)
  show "\<forall>c \<in> set cs. \<forall>(lo, hi) \<in> set FORBIDDEN_NAME_RANGES. \<not> (lo \<le> c \<and> c \<le> hi)"
    using v'(4) by (fastforce simp: list_ex_iff is_forbidden_iff)
next
  assume a: "ns \<noteq> [] \<and> length ns \<le> SOURCE_NAME_MAX_BYTES \<and> (\<forall>c \<in> set ns. 0x20 \<le> c \<and> c \<le> 0x7e)
    \<and> hd ns \<noteq> 0x20 \<and> last ns \<noteq> 0x20"
  then have p: "\<forall>c \<in> set ns. 0x20 \<le> c \<and> c \<le> 0x7e" by blast
  then have len: "utf8_len ns = length ns" by (induction ns) (auto simp: len_utf8_def)
  have "\<forall>c \<in> set ns. c < 0xC0" using p by force
  then have "is_normalized ns SOURCE_NAME_MAX_BYTES" using a len by (intro is_normalized_ascii) auto
  moreover have "\<not> is_whitespace c" if "c \<in> set ns" "c \<noteq> 0x20" for c
    using p that by (auto simp: is_whitespace_def)
  moreover have "\<not> list_ex is_forbidden_name_char ns"
    using p printable_not_forbidden by (auto simp: list_ex_iff)
  ultimately show "is_valid_source_name ns" using a len by (simp add: is_valid_source_name_def)
qed

end
