(* ===== verification/Ceiling.thy ===== *)
theory Ceiling
  imports Buf Rust_Float
begin

text \<open>
  \<^verbatim>\<open>crates/omt-receiver-core/src/ceiling.rs\<close>: the decode ceiling of a board. The lemmas show that the
  parser accepts exactly the canonical lists of one to four shapes, and between which exact frame
  rates the floating-point comparison decides.
\<close>

section \<open>The ceiling\<close>

abbreviation CEILING_MAX_SHAPES :: nat where "CEILING_MAX_SHAPES \<equiv> 4"
abbreviation CEILING_MAX_WIDTH :: nat where "CEILING_MAX_WIDTH \<equiv> 1920"
abbreviation CEILING_MAX_HEIGHT :: nat where "CEILING_MAX_HEIGHT \<equiv> 1080"
abbreviation CEILING_MAX_FPS :: nat where "CEILING_MAX_FPS \<equiv> 60"
abbreviation CEILING_MIN_DIMENSION :: nat where "CEILING_MIN_DIMENSION \<equiv> 16"

record shape =
  sh_width :: nat
  sh_height :: nat
  sh_fps :: nat

type_synonym video_ceiling = "shape list"

definition ceiling_number :: "string \<Rightarrow> nat option" where
  "ceiling_number s = (if s = [] \<or> 4 < length s \<or> starts_with ''0'' s then None else parse_u64 s 9999)"

definition parse_shape :: "string \<Rightarrow> shape option" where
  "parse_shape field =
     do {
       (sz, fps) \<leftarrow> split_once (CHR ''@'') field;
       (w, h) \<leftarrow> split_once (CHR ''x'') sz;
       width \<leftarrow> ceiling_number w;
       height \<leftarrow> ceiling_number h;
       rate \<leftarrow> ceiling_number fps;
       Some \<lparr>sh_width = width, sh_height = height, sh_fps = rate\<rparr>
     }"

definition shape_of :: "string \<Rightarrow> string + shape" where
  "shape_of field =
     (case parse_shape field of
        None \<Rightarrow> Inl (''Invalid video ceiling: '' @ field @ ''. Expected WIDTHxHEIGHT@FPS.'')
      | Some s \<Rightarrow>
          if \<not> (CEILING_MIN_DIMENSION \<le> sh_width s \<and> sh_width s \<le> CEILING_MAX_WIDTH)
             \<or> \<not> (CEILING_MIN_DIMENSION \<le> sh_height s \<and> sh_height s \<le> CEILING_MAX_HEIGHT)
             \<or> \<not> (1 \<le> sh_fps s \<and> sh_fps s \<le> CEILING_MAX_FPS)
          then Inl (''Video ceiling '' @ field @ '' is outside the supported 1920x1080 at 60 fps maximum.'')
          else Inr s)"

fun ceiling_fields :: "shape list \<Rightarrow> string list \<Rightarrow> string + shape list" where
  "ceiling_fields shapes [] = Inr shapes"
| "ceiling_fields shapes (field # fs) =
     (if length shapes = CEILING_MAX_SHAPES
      then Inl ''A video ceiling may list at most 4 resolutions.''
      else and_then (shape_of field) (\<lambda>s. ceiling_fields (shapes @ [s]) fs))"

definition ceiling_parse :: "string \<Rightarrow> string + video_ceiling" where
  "ceiling_parse text = ceiling_fields [] (split_on (CHR '','') text)"

definition describe_shape :: "shape \<Rightarrow> string" where
  "describe_shape s = show_nat (sh_width s) @ ''x'' @ show_nat (sh_height s) @ '' at '' @ show_nat (sh_fps s) @ '' fps''"

fun ceiling_describe :: "video_ceiling \<Rightarrow> string" where
  "ceiling_describe [] = []"
| "ceiling_describe [s] = describe_shape s"
| "ceiling_describe (s # ss) = describe_shape s @ '', or '' @ ceiling_describe ss"

text \<open>The double nearest to 0.01, and \<open>{rate:.2}\<close>: the exact value rounded half to even at two places.\<close>

definition F64_0_01 :: rat where
  [std_defs]: "F64_0_01 = 5764607523034235 / 576460752303423488"

definition show_fixed2 :: "rat \<Rightarrow> string" where
  [std_defs]: "show_fixed2 x =
     (let n = nat (round_half_even (x * 100)) in show_nat (n div 100) @ ''.'' @ pad0 2 (show_nat (n mod 100)))"

definition shape_admits :: "int \<Rightarrow> int \<Rightarrow> rat \<Rightarrow> shape \<Rightarrow> bool" where
  "shape_admits width height rate s \<longleftrightarrow>
     width \<le> int (sh_width s) \<and> height \<le> int (sh_height s) \<and> rate \<le> f64_add (of_nat (sh_fps s)) F64_0_01"

definition ceiling_admits :: "video_ceiling \<Rightarrow> int \<Rightarrow> int \<Rightarrow> rat \<Rightarrow> string + unit" where
  "ceiling_admits c width height rate =
     (if list_ex (shape_admits width height rate) c then Inr ()
      else Inl (show_int width @ ''x'' @ show_int height @ '' at '' @ show_fixed2 rate
                @ '' fps exceeds this appliance's limit of '' @ ceiling_describe c @ ''.''))"

section \<open>The parser reads exactly what the printer writes\<close>

definition shape_ok :: "shape \<Rightarrow> bool" where
  "shape_ok s \<longleftrightarrow>
     CEILING_MIN_DIMENSION \<le> sh_width s \<and> sh_width s \<le> CEILING_MAX_WIDTH
     \<and> CEILING_MIN_DIMENSION \<le> sh_height s \<and> sh_height s \<le> CEILING_MAX_HEIGHT
     \<and> 1 \<le> sh_fps s \<and> sh_fps s \<le> CEILING_MAX_FPS"

definition show_shape :: "shape \<Rightarrow> string" where
  "show_shape s = show_nat (sh_width s) @ ''x'' @ show_nat (sh_height s) @ ''@'' @ show_nat (sh_fps s)"

fun join_comma :: "string list \<Rightarrow> string" where
  "join_comma [] = []"
| "join_comma [s] = s"
| "join_comma (s # ss) = s @ '','' @ join_comma ss"

lemma ceiling_number_Some: "ceiling_number s = Some n \<longleftrightarrow> s = show_nat n \<and> 0 < n \<and> n \<le> 9999"
proof
  assume a: "ceiling_number s = Some n"
  then have s: "s \<noteq> []" "\<not> starts_with ''0'' s" "length s \<le> 4" "parse_u64 s 9999 = Some n"
    by (auto simp: ceiling_number_def split: if_splits)
  then have d: "\<forall>c \<in> set s. is_ascii_digit c" "n = decimal s" "n \<le> 9999"
    using parse_u64_Some [of 9999 s n] by auto
  have hd: "hd s \<noteq> CHR ''0''" using s by (cases s) (auto simp: starts_with_def)
  then have eq: "show_nat n = s" using show_nat_decimal [of s] s d by simp
  moreover have "n \<noteq> 0"
  proof
    assume "n = 0"
    then have "s = show_nat 0" using eq by simp
    then show False using hd by (simp add: show_nat.simps digit_char_def char_of_def bit_0)
  qed
  ultimately show "s = show_nat n \<and> 0 < n \<and> n \<le> 9999" using d by simp
next
  assume a: "s = show_nat n \<and> 0 < n \<and> n \<le> 9999"
  then have "length s \<le> 4" using length_show_nat_le [of n 3] by simp
  moreover have "\<not> starts_with ''0'' s"
    using show_nat_no_leading_zero [of n] a by (cases "show_nat n") (auto simp: starts_with_def)
  ultimately show "ceiling_number s = Some n"
    using a parse_u64_show_nat [of 9999 n] by (simp add: ceiling_number_def)
qed

lemma show_nat_no: "\<not> is_ascii_digit c \<Longrightarrow> c \<notin> set (show_nat n)"
  using show_nat_digits by blast

lemma parse_shape_Some:
  "parse_shape field = Some s \<longleftrightarrow>
     field = show_shape s \<and> 0 < sh_width s \<and> sh_width s \<le> 9999 \<and> 0 < sh_height s \<and> sh_height s \<le> 9999
     \<and> 0 < sh_fps s \<and> sh_fps s \<le> 9999"
proof
  assume "parse_shape field = Some s"
  then obtain sz fps w h where "split_once (CHR ''@'') field = Some (sz, fps)"
    "split_once (CHR ''x'') sz = Some (w, h)" "ceiling_number w = Some (sh_width s)"
    "ceiling_number h = Some (sh_height s)" "ceiling_number fps = Some (sh_fps s)"
    by (auto simp: parse_shape_def bind_eq_Some_conv)
  then show "field = show_shape s \<and> 0 < sh_width s \<and> sh_width s \<le> 9999 \<and> 0 < sh_height s \<and> sh_height s \<le> 9999
     \<and> 0 < sh_fps s \<and> sh_fps s \<le> 9999"
    by (auto simp: ceiling_number_Some show_shape_def dest!: split_once_Some)
next
  assume a: "field = show_shape s \<and> 0 < sh_width s \<and> sh_width s \<le> 9999 \<and> 0 < sh_height s \<and> sh_height s \<le> 9999
     \<and> 0 < sh_fps s \<and> sh_fps s \<le> 9999"
  have no: "CHR ''@'' \<notin> set (show_nat n)" "CHR ''x'' \<notin> set (show_nat n)" for n
    by (simp_all add: show_nat_no is_ascii_digit_def)
  have "split_once (CHR ''@'') field = Some (show_nat (sh_width s) @ ''x'' @ show_nat (sh_height s), show_nat (sh_fps s))"
    using a no split_once_append [of "CHR ''@''" "show_nat (sh_width s) @ ''x'' @ show_nat (sh_height s)" "show_nat (sh_fps s)"]
    by (simp add: show_shape_def)
  moreover have "split_once (CHR ''x'') (show_nat (sh_width s) @ ''x'' @ show_nat (sh_height s)) =
      Some (show_nat (sh_width s), show_nat (sh_height s))"
    using no split_once_append by simp
  ultimately show "parse_shape field = Some s"
    using a ceiling_number_Some [of "show_nat (sh_width s)" "sh_width s"]
      ceiling_number_Some [of "show_nat (sh_height s)" "sh_height s"] ceiling_number_Some [of "show_nat (sh_fps s)" "sh_fps s"]
    by (simp add: parse_shape_def)
qed

lemma shape_of_Inr: "shape_of field = Inr s \<longleftrightarrow> field = show_shape s \<and> shape_ok s"
proof
  assume "shape_of field = Inr s"
  then show "field = show_shape s \<and> shape_ok s"
    by (auto simp: shape_of_def shape_ok_def parse_shape_Some split: option.splits if_splits)
next
  assume "field = show_shape s \<and> shape_ok s"
  then have "parse_shape field = Some s" by (simp add: parse_shape_Some shape_ok_def)
  then show "shape_of field = Inr s" using \<open>field = show_shape s \<and> shape_ok s\<close>
    by (simp add: shape_of_def shape_ok_def)
qed

lemma ceiling_fields_Inr:
  "length shapes \<le> CEILING_MAX_SHAPES \<Longrightarrow>
   ceiling_fields shapes fs = Inr c \<longleftrightarrow>
     (\<exists>ss. c = shapes @ ss \<and> fs = map show_shape ss \<and> list_all shape_ok ss \<and> length c \<le> CEILING_MAX_SHAPES)"
proof (induction shapes fs rule: ceiling_fields.induct)
  case (2 shapes field fs)
  show ?case
  proof (cases "length shapes = CEILING_MAX_SHAPES")
    case True
    then show ?thesis by auto
  next
    case False
    have "ceiling_fields shapes (field # fs) = Inr c \<longleftrightarrow>
        (\<exists>s. field = show_shape s \<and> shape_ok s \<and> ceiling_fields (shapes @ [s]) fs = Inr c)"
      using False by (simp add: and_then_eq_Inr shape_of_Inr)
    also have "\<dots> \<longleftrightarrow> (\<exists>s ss. field = show_shape s \<and> shape_ok s \<and> c = shapes @ s # ss \<and> fs = map show_shape ss
        \<and> list_all shape_ok ss \<and> length c \<le> CEILING_MAX_SHAPES)"
      using 2 False by auto
    also have "\<dots> \<longleftrightarrow> (\<exists>ss. c = shapes @ ss \<and> field # fs = map show_shape ss \<and> list_all shape_ok ss
        \<and> length c \<le> CEILING_MAX_SHAPES)"
      by (auto simp: Cons_eq_map_conv)
    finally show ?thesis .
  qed
qed auto

lemma join_split: "join_comma (split_on (CHR '','') s) = s"
proof (induction s)
  case (Cons x s)
  obtain a as where "split_on (CHR '','') s = a # as" by (meson split_on_nonempty neq_Nil_conv)
  then show ?case using Cons by (cases as) auto
qed simp

lemma split_join:
  "ss \<noteq> [] \<Longrightarrow> \<forall>s \<in> set ss. CHR '','' \<notin> set s \<Longrightarrow> split_on (CHR '','') (join_comma ss) = ss"
proof (induction ss rule: join_comma.induct)
  case (2 s)
  then show ?case by (simp add: split_on_single)
next
  case (3 s t ss)
  then show ?case using split_on_append [of "CHR '',''" s] by simp
qed simp

lemma show_shape_plain: "CHR '','' \<notin> set (show_shape s)"
  by (simp add: show_shape_def show_nat_no is_ascii_digit_def)

section \<open>The rate comparison\<close>

lemma threshold_ge: "fps \<le> 60 \<Longrightarrow> of_nat fps \<le> f64_add (of_nat fps) F64_0_01"
proof -
  assume "fps \<le> 60"
  then have "(of_nat fps :: rat) \<le> 60" by simp
  then show ?thesis unfolding f64_add_def
    by (intro round_f64_ge_integer) (simp_all add: F64_0_01_def)
qed

lemma admits_below:
  assumes "0 < n" "0 < d" "d < 2 ^ 31" "n \<le> fps * d" "0 < fps" "fps \<le> 60"
  shows "f64_div n d \<le> f64_add (of_nat fps) F64_0_01"
proof -
  have "f64_div n d \<le> of_nat fps" using assms f64_div_le_iff [of n d fps] by simp
  then show ?thesis using threshold_ge [OF assms(6)] by linarith
qed

lemma tolerance_gap:
  fixes f x :: rat
  assumes "0 \<le> f" "f \<le> 60" "f + 1 / 50 \<le> x"
  shows "(f + F64_0_01) + (f + F64_0_01) / 2 ^ 53 < x - x / 2 ^ 53"
proof -
  define e :: rat where "e = 1 / 2 ^ 53"
  have e: "0 < e" "e < 1 / 1000000" by (simp_all add: e_def)
  have F: "F64_0_01 < 1 / 100 + 1 / 1000000" "0 < F64_0_01" by (simp_all add: F64_0_01_def)
  have "(f + F64_0_01) * e \<le> 61 * (1 / 1000000)" using assms e F by (intro mult_mono) auto
  moreover have "(f + 1 / 50) * (1 - e) \<le> x * (1 - e)" using assms e by (intro mult_right_mono) auto
  moreover have "(f + 1 / 50) * e \<le> 61 * (1 / 1000000)" using assms e by (intro mult_mono) auto
  ultimately have "(f + F64_0_01) + (f + F64_0_01) * e < x - x * e"
    using F by (simp add: right_diff_distrib)
  then show ?thesis by (simp add: e_def)
qed

lemma refuses_above:
  assumes "0 < n" "0 < d" "fps \<le> 60" "(50 * fps + 1) * d \<le> 50 * n"
  shows "\<not> f64_div n d \<le> f64_add (of_nat fps) F64_0_01"
proof -
  define x :: rat where "x = of_nat n / of_nat d"
  define t :: rat where "t = of_nat fps + F64_0_01"
  have f: "0 \<le> (of_nat fps :: rat)" "(of_nat fps :: rat) \<le> 60" using assms(3) by simp_all
  have pos: "0 < x" "0 < t" using assms f by (simp_all add: x_def t_def F64_0_01_def add_nonneg_pos)
  have "(of_nat ((50 * fps + 1) * d) :: rat) \<le> of_nat (50 * n)" using assms(4) unfolding of_nat_le_iff .
  then have gap: "of_nat fps + 1 / 50 \<le> x" using assms(2) by (simp add: x_def field_simps)
  have "x - x / 2 ^ 53 \<le> round_f64 x" using round_f64_error [OF pos(1)] by linarith
  moreover have "round_f64 t \<le> t + t / 2 ^ 53" using round_f64_error [OF pos(2)] by linarith
  moreover have "t + t / 2 ^ 53 < x - x / 2 ^ 53"
    unfolding t_def by (rule tolerance_gap [OF f gap])
  ultimately show ?thesis by (simp add: f64_div_def f64_add_def x_def t_def)
qed

section \<open>Properties\<close>

text \<open>C7. The ceiling parser accepts exactly the comma-separated lists of one to four shapes
  \<open>WIDTHxHEIGHT@FPS\<close> in canonical decimal within 1920x1080 at 60, and returns those shapes.\<close>

theorem ceiling_parse_exact:
  "ceiling_parse s = Inr c \<longleftrightarrow>
     s = join_comma (map show_shape c) \<and> c \<noteq> [] \<and> length c \<le> CEILING_MAX_SHAPES \<and> list_all shape_ok c"
proof
  assume "ceiling_parse s = Inr c"
  then have c: "split_on (CHR '','') s = map show_shape c" "list_all shape_ok c" "length c \<le> CEILING_MAX_SHAPES"
    using ceiling_fields_Inr [of "[]" "split_on (CHR '','') s" c] by (auto simp: ceiling_parse_def)
  then have "s = join_comma (map show_shape c)" using join_split [of s] by simp
  moreover have "c \<noteq> []" using c(1) by auto
  ultimately show "s = join_comma (map show_shape c) \<and> c \<noteq> [] \<and> length c \<le> CEILING_MAX_SHAPES \<and> list_all shape_ok c"
    using c by simp
next
  assume a: "s = join_comma (map show_shape c) \<and> c \<noteq> [] \<and> length c \<le> CEILING_MAX_SHAPES \<and> list_all shape_ok c"
  then have "split_on (CHR '','') s = map show_shape c" using show_shape_plain by (simp add: split_join)
  then show "ceiling_parse s = Inr c" using a ceiling_fields_Inr [of "[]" "map show_shape c" c]
    by (auto simp: ceiling_parse_def)
qed



end
