(* ===== verification/Channel.thy ===== *)
theory Channel
  imports Protocol
begin

text \<open>
  \<^verbatim>\<open>crates/omt-receiver/src/channel.rs\<close>: the receiver's network entry point. The socket, the clock, the
  allocator and \<open>poll\<close> are the environment: each iteration of a loop takes one record of what they
  answered, and a loop is a recursion over the list of these answers, \<open>None\<close> when the list ends before
  the loop returns. An answer to \<open>read\<close> holds at most as many bytes as were asked for, as \<open>Read::read\<close>
  documents (\<open>fits\<close>). A socket is either open or closed.
\<close>

section \<open>Frames and state\<close>

abbreviation MAX_ADDRESSES :: nat where "MAX_ADDRESSES \<equiv> 16"
abbreviation BODY_BUDGET_MS :: nat where "BODY_BUDGET_MS \<equiv> 6000"

record endpoint =
  ep_host :: string
  ep_port :: nat

record frame =
  fr_header :: "frame_header option"
  fr_video :: "video_header option"
  fr_audio :: "audio_header option"
  fr_buffer :: "u8 list"
  fr_len :: nat
  fr_header_ns :: nat
  fr_complete_ns :: nat

definition frame_default :: frame where
  "frame_default = \<lparr>fr_header = None, fr_video = None, fr_audio = None, fr_buffer = [], fr_len = 0,
     fr_header_ns = 0, fr_complete_ns = 0\<rparr>"

definition payload :: "frame \<Rightarrow> u8 list" where
  "payload f = take (fr_len f) (fr_buffer f)"

definition frame_type_of :: "frame \<Rightarrow> frame_type option" where
  "frame_type_of f = map_option fh_frame_type (fr_header f)"

definition metadata_length :: "frame \<Rightarrow> nat" where
  "metadata_length f = (case fr_header f of None \<Rightarrow> 0 | Some h \<Rightarrow> fh_metadata_length h)"

definition media :: "frame \<Rightarrow> nat \<Rightarrow> u8 list option" where
  "media f extended_header =
     (case checked_sub (fr_len f) (metadata_length f) of
        None \<Rightarrow> None
      | Some e \<Rightarrow> if e < extended_header then None else Some (slice (fr_buffer f) extended_header e))"

datatype recv = RecvOk | WouldBlock | TimedOut | RecvError

record partial =
  pt_fixed :: "u8 list"
  pt_fixed_len :: nat
  pt_header :: "frame_header option"
  pt_header_ns :: nat
  pt_body_len :: nat
  pt_budget_ms :: nat

definition partial_default :: partial where
  "partial_default = \<lparr>pt_fixed = replicate HEADER_SIZE 0, pt_fixed_len = 0, pt_header = None,
     pt_header_ns = 0, pt_body_len = 0, pt_budget_ms = 0\<rparr>"

definition started :: "partial \<Rightarrow> bool" where
  "started p \<longleftrightarrow> 0 < pt_fixed_len p"

record channel =
  ch_stream :: bool
  ch_frame :: frame
  ch_partial :: partial

definition channel_new :: channel where
  "channel_new = \<lparr>ch_stream = False, ch_frame = frame_default, ch_partial = partial_default\<rparr>"

definition close :: "channel \<Rightarrow> channel" where
  "close c = c\<lparr>ch_partial := partial_default, ch_stream := False\<rparr>"

definition body_deadline :: "nat \<Rightarrow> nat \<Rightarrow> nat" where
  "body_deadline now slice_ms = max slice_ms (now + BODY_BUDGET_MS)"

section \<open>Receiving\<close>

text \<open>\<open>complete\<close>: the extended header is validated before the frame is published.\<close>

definition complete :: "nat \<Rightarrow> frame \<Rightarrow> frame_header \<Rightarrow> nat \<Rightarrow> frame \<times> recv \<times> string option" where
  "complete ns f header header_ns =
     (let required = fh_data_length header;
          f = f\<lparr>fr_len := required, fr_header_ns := header_ns, fr_complete_ns := ns,
                fr_video := None, fr_audio := None, fr_header := None\<rparr>
      in case fh_frame_type header of
           Video \<Rightarrow>
             (case parse_video_header header (take required (fr_buffer f)) of
                Inr v \<Rightarrow> (f\<lparr>fr_video := Some v, fr_header := Some header\<rparr>, RecvOk, None)
              | Inl e \<Rightarrow> (f, RecvError, Some (display_proto_error e)))
         | Audio \<Rightarrow>
             (case parse_audio_header header (take required (fr_buffer f)) of
                Inr a \<Rightarrow> (f\<lparr>fr_audio := Some a, fr_header := Some header\<rparr>, RecvOk, None)
              | Inl e \<Rightarrow> (f, RecvError, Some (display_proto_error e)))
         | Metadata \<Rightarrow> (f\<lparr>fr_header := Some header\<rparr>, RecvOk, None))"

text \<open>What the environment answers to one iteration: the read, the clock at each point it may be
  read, whether the payload buffer can grow, and the poll (its count of ready descriptors).\<close>

datatype read_result = ReadOk "u8 list" | ReadInterrupted | ReadWouldBlock | ReadErr string

record io_answer =
  io_read :: read_result
  io_now :: nat
  io_now_left :: nat
  io_now_after :: nat
  io_ns :: nat
  io_ns_complete :: nat
  io_alloc :: bool
  io_poll :: "string + nat"

text \<open>The bytes a read stores at the front of its target.\<close>

definition store_at :: "u8 list \<Rightarrow> nat \<Rightarrow> u8 list \<Rightarrow> u8 list" where
  "store_at buf i bs = take i buf @ bs @ drop (i + length bs) buf"

definition target_room :: "channel \<Rightarrow> nat" where
  "target_room c =
     (case pt_header (ch_partial c) of
        None \<Rightarrow> length (pt_fixed (ch_partial c)) - pt_fixed_len (ch_partial c)
      | Some h \<Rightarrow> fh_data_length h - pt_body_len (ch_partial c))"

text \<open>The end of a successful read: the frame is complete when its body is.\<close>

definition after_read :: "io_answer \<Rightarrow> frame \<Rightarrow> partial \<Rightarrow> (frame \<times> partial) \<times> (recv \<times> string option) option" where
  "after_read io f p =
     (case pt_header p of
        Some h \<Rightarrow>
          if pt_body_len p = fh_data_length h then
            (case complete (io_ns_complete io) f h (pt_header_ns p) of
               (f', status, err) \<Rightarrow> ((f', partial_default), Some (status, err)))
          else ((f, p), None)
      | None \<Rightarrow> ((f, p), None))"

text \<open>A read of \<open>bs\<close>, not empty.\<close>

definition take_bytes :: "io_answer \<Rightarrow> u8 list \<Rightarrow> frame \<Rightarrow> partial \<Rightarrow> (frame \<times> partial) \<times> (recv \<times> string option) option" where
  "take_bytes io bs f p =
     (let p = (if \<not> started p then p\<lparr>pt_budget_ms := io_now io + BODY_BUDGET_MS\<rparr> else p)
      in case pt_header p of
           None \<Rightarrow>
             (let p = p\<lparr>pt_fixed := store_at (pt_fixed p) (pt_fixed_len p) bs, pt_fixed_len := pt_fixed_len p + length bs\<rparr>
              in if pt_fixed_len p < HEADER_SIZE then ((f, p), None)
                 else (let p = p\<lparr>pt_header_ns := io_ns io\<rparr>
                       in case parse_frame_header (pt_fixed p) of
                            Inl e \<Rightarrow> ((f, p), Some (RecvError, Some (display_proto_error e)))
                          | Inr header \<Rightarrow>
                              (let required = fh_data_length header
                               in if length (fr_buffer f) < required then
                                    (if \<not> io_alloc io
                                     then ((f, p), Some (RecvError, Some ''unable to allocate the bounded OMT frame''))
                                     else after_read io
                                            (f\<lparr>fr_buffer := fr_buffer f @ replicate (required - length (fr_buffer f)) 0\<rparr>)
                                            (p\<lparr>pt_header := Some header\<rparr>))
                                  else after_read io f (p\<lparr>pt_header := Some header\<rparr>))))
         | Some h \<Rightarrow>
             after_read io (f\<lparr>fr_buffer := store_at (fr_buffer f) (pt_body_len p) bs\<rparr>)
               (p\<lparr>pt_body_len := pt_body_len p + length bs\<rparr>))"

text \<open>One iteration of the loop of \<open>receive_inner\<close>: the state after it, and the result it returns, if
  it does.\<close>

definition receive_step :: "nat \<Rightarrow> bool \<Rightarrow> channel \<Rightarrow> io_answer \<Rightarrow> channel \<times> (recv \<times> string option) option" where
  "receive_step deadline_ms wait c io =
     (case io_read io of
        ReadOk bs \<Rightarrow>
          if bs = [] then (c, Some (RecvError, Some ''OMT source disconnected''))
          else (case take_bytes io bs (ch_frame c) (ch_partial c) of
                  ((f, p), r) \<Rightarrow> (c\<lparr>ch_frame := f, ch_partial := p\<rparr>, r))
      | ReadInterrupted \<Rightarrow> (c, None)
      | ReadWouldBlock \<Rightarrow>
          (let p = ch_partial c; began = started p
           in if began \<and> pt_budget_ms p \<le> io_now io
              then (c, Some (TimedOut, Some ''OMT frame was truncated by a timeout''))
              else (let until = (if began \<and> wait then max deadline_ms (pt_budget_ms p) else deadline_ms);
                        left = until - io_now_left io
                    in if left = 0 then (c, Some (WouldBlock, Some ''OMT socket deadline expired''))
                       else (case io_poll io of
                               Inr n \<Rightarrow>
                                 if n = 0 \<and> 0 < until - io_now_after io
                                 then (c, Some (WouldBlock, Some ''OMT read interrupted''))
                                 else (c, None)
                             | Inl e \<Rightarrow> (c, Some (RecvError, Some e)))))
      | ReadErr e \<Rightarrow> (c, Some (RecvError, Some e)))"

fun receive_loop :: "nat \<Rightarrow> bool \<Rightarrow> channel \<Rightarrow> io_answer list \<Rightarrow> (channel \<times> recv \<times> string option) option" where
  "receive_loop deadline_ms wait c [] = None"
| "receive_loop deadline_ms wait c (io # ios) =
     (case receive_step deadline_ms wait c io of
        (c', Some (status, err)) \<Rightarrow> Some (c', status, err)
      | (c', None) \<Rightarrow> receive_loop deadline_ms wait c' ios)"

definition receive_inner :: "nat \<Rightarrow> bool \<Rightarrow> channel \<Rightarrow> io_answer list \<Rightarrow> (channel \<times> recv \<times> string option) option" where
  "receive_inner deadline_ms wait c ios =
     (if \<not> ch_stream c then Some (c, RecvError, Some ''OMT socket closed'')
      else receive_loop deadline_ms wait c ios)"

definition finish :: "nat \<Rightarrow> bool \<Rightarrow> channel \<Rightarrow> io_answer list \<Rightarrow> (channel \<times> recv \<times> string option) option" where
  "finish deadline_ms wait c ios =
     map_option (\<lambda>(c', status, err).
        (if status \<noteq> RecvOk \<and> status \<noteq> WouldBlock then close c' else c', status, err))
       (receive_inner deadline_ms wait c ios)"

definition receive :: "nat \<Rightarrow> channel \<Rightarrow> io_answer list \<Rightarrow> (channel \<times> recv \<times> string option) option" where
  "receive deadline_ms c ios = finish deadline_ms True c ios"

definition receive_until :: "nat \<Rightarrow> channel \<Rightarrow> io_answer list \<Rightarrow> (channel \<times> recv \<times> string option) option" where
  "receive_until deadline_ms c ios = finish deadline_ms False c ios"

definition receive_ready :: "channel \<Rightarrow> io_answer list \<Rightarrow> (channel \<times> recv \<times> string option) option" where
  "receive_ready c ios = finish 0 False c ios"

definition take_frame :: "channel \<Rightarrow> u8 list \<Rightarrow> frame \<times> channel" where
  "take_frame c replacement = (ch_frame c, c\<lparr>ch_frame := frame_default\<lparr>fr_buffer := replacement\<rparr>\<rparr>)"

section \<open>Connecting\<close>

datatype write_result = WriteOk nat | WriteInterrupted | WriteWouldBlock "string + nat" | WriteErr string

text \<open>\<open>write_all_deadline\<close> over the answers to its writes (a would-block carries what \<open>poll\<close> then
  answered): the bytes sent, and the outcome.\<close>

fun write_all_deadline :: "u8 list \<Rightarrow> write_result list \<Rightarrow> (u8 list \<times> (string + unit) \<times> write_result list) option" where
  "write_all_deadline [] ws = Some ([], Inr (), ws)"
| "write_all_deadline data [] = None"
| "write_all_deadline data (w # ws) =
     (case w of
        WriteOk n \<Rightarrow>
          if n = 0 then Some ([], Inl ''EPIPE'', ws)
          else map_option (\<lambda>(sent, r, ws'). (take n data @ sent, r, ws')) (write_all_deadline (drop n data) ws)
      | WriteInterrupted \<Rightarrow> write_all_deadline data ws
      | WriteWouldBlock (Inr n) \<Rightarrow> if n = 0 then Some ([], Inl ''EAGAIN'', ws) else write_all_deadline data ws
      | WriteWouldBlock (Inl e) \<Rightarrow> Some ([], Inl e, ws)
      | WriteErr e \<Rightarrow> Some ([], Inl e, ws))"

definition subscription_xml :: "frame_type \<Rightarrow> string" where
  "subscription_xml kind =
     (case kind of
        Video \<Rightarrow> ''<OMTSubscribe Video=\"true\" />''
      | Audio \<Rightarrow> ''<OMTSubscribe Audio=\"true\" />''
      | Metadata \<Rightarrow> ''<OMTSubscribe Metadata=\"true\" />'')"

definition subscribe :: "channel \<Rightarrow> frame_type \<Rightarrow> write_result list \<Rightarrow> (u8 list \<times> channel \<times> (string + unit) \<times> write_result list) option" where
  "subscribe c kind ws =
     (case build_metadata (as_bytes (subscription_xml kind)) 0 [] of
        Inl e \<Rightarrow> Some ([], c, Inl (display_proto_error e), ws)
      | Inr message \<Rightarrow>
          if \<not> ch_stream c then Some ([], close c, Inl ''OMT socket closed'', ws)
          else map_option (\<lambda>(sent, r, ws'). (sent, if is_ok r then c else close c, r, ws'))
                 (write_all_deadline message ws))"

text \<open>\<open>resolve\<close>: the lookup is the environment's; at most sixteen of its addresses are used.\<close>

definition resolve :: "(string \<Rightarrow> nat \<Rightarrow> string + 'a list) \<Rightarrow> endpoint \<Rightarrow> string + 'a list" where
  "resolve lookup ep =
     (let host = (case split_once (CHR ''%'') (ep_host ep) of Some (h, _) \<Rightarrow> h | None \<Rightarrow> ep_host ep)
      in case lookup host (ep_port ep) of Inl e \<Rightarrow> Inl e | Inr addrs \<Rightarrow> Inr (take MAX_ADDRESSES addrs))"

text \<open>The loop over the addresses: each answer is the time left and the outcome of the attempt. It
  returns whether a socket was opened, and the last error.\<close>

fun try_addresses :: "string \<Rightarrow> 'a list \<Rightarrow> ('a \<Rightarrow> nat \<times> (string + unit)) \<Rightarrow> bool \<times> string" where
  "try_addresses err [] attempt = (False, err)"
| "try_addresses err (a # addrs) attempt =
     (case attempt a of
        (left, outcome) \<Rightarrow>
          if left = 0 then (False, err)
          else (case outcome of Inr _ \<Rightarrow> (True, err) | Inl e \<Rightarrow> try_addresses e addrs attempt))"

definition connect :: "(string \<Rightarrow> nat \<Rightarrow> string + 'a list) \<Rightarrow> ('a \<Rightarrow> nat \<times> (string + unit)) \<Rightarrow> channel
    \<Rightarrow> endpoint \<Rightarrow> frame_type \<Rightarrow> write_result list \<Rightarrow> (u8 list \<times> channel \<times> (string + unit)) option" where
  "connect lookup attempt c ep subscription ws =
     (let c = close c
      in case resolve lookup ep of
           Inl e \<Rightarrow> Some ([], c, Inl e)
         | Inr addrs \<Rightarrow>
             if addrs = [] then Some ([], c, Inl ''unable to connect to the OMT source'')
             else (case try_addresses ''unable to connect to the OMT source'' addrs attempt of
                     (False, err) \<Rightarrow> Some ([], c, Inl err)
                   | (True, _) \<Rightarrow>
                       (let c = c\<lparr>ch_stream := True\<rparr>
                        in if subscription = Video then
                             Option.bind (subscribe c Metadata ws) (\<lambda>(sent, c, r, ws).
                               case r of
                                 Inl e \<Rightarrow> Some (sent, c, Inl e)
                               | Inr _ \<Rightarrow> map_option (\<lambda>(sent', c, r, ws). (sent @ sent', c, r)) (subscribe c subscription ws))
                           else map_option (\<lambda>(sent, c, r, ws). (sent, c, r)) (subscribe c subscription ws))))"

section \<open>The invariant of the reader\<close>

text \<open>What a partial frame may look like between reads, and the bytes it stands for.\<close>

definition part_ok :: "frame \<Rightarrow> partial \<Rightarrow> bool" where
  "part_ok f p \<longleftrightarrow>
     length (pt_fixed p) = HEADER_SIZE \<and>
     (case pt_header p of
        None \<Rightarrow> pt_fixed_len p < HEADER_SIZE \<and> pt_body_len p = 0
      | Some h \<Rightarrow> pt_fixed_len p = HEADER_SIZE \<and> parse_frame_header (pt_fixed p) = Inr h
          \<and> pt_body_len p < fh_data_length h \<and> fh_data_length h \<le> length (fr_buffer f))"

definition pending :: "frame \<Rightarrow> partial \<Rightarrow> u8 list" where
  "pending f p =
     (case pt_header p of
        None \<Rightarrow> take (pt_fixed_len p) (pt_fixed p)
      | Some h \<Rightarrow> pt_fixed p @ take (pt_body_len p) (fr_buffer f))"

definition chan_ok :: "channel \<Rightarrow> bool" where
  "chan_ok c \<longleftrightarrow> part_ok (ch_frame c) (ch_partial c)"

text \<open>A published frame: its headers are validated against its own payload.\<close>

definition frame_valid :: "frame \<Rightarrow> bool" where
  "frame_valid f \<longleftrightarrow>
     (case fr_header f of
        None \<Rightarrow> False
      | Some h \<Rightarrow>
          frame_header_ok h \<and> fr_len f = fh_data_length h \<and> fr_len f \<le> length (fr_buffer f)
          \<and> (case fh_frame_type h of
               Video \<Rightarrow> fr_audio f = None \<and> (\<exists>v. fr_video f = Some v \<and> parse_video_header h (payload f) = Inr v)
             | Audio \<Rightarrow> fr_video f = None \<and> (\<exists>a. fr_audio f = Some a \<and> parse_audio_header h (payload f) = Inr a)
             | Metadata \<Rightarrow> fr_video f = None \<and> fr_audio f = None))"

abbreviation FRAME_MAX :: nat where "FRAME_MAX \<equiv> VIDEO_HEADER_SIZE + VIDEO_MAX_SIZE"

lemma part_ok_default: "part_ok f partial_default" "pending f partial_default = []"
  by (simp_all add: part_ok_def pending_def partial_default_def)

lemma store_at_length: "i + length bs \<le> length buf \<Longrightarrow> length (store_at buf i bs) = length buf"
  by (simp add: store_at_def)

lemma take_store_at: "i + length bs \<le> length buf \<Longrightarrow> take (i + length bs) (store_at buf i bs) = take i buf @ bs"
  by (simp add: store_at_def)

lemma complete_cases:
  assumes "complete ns f h hns = (f', status, err)" "frame_header_ok h" "fh_data_length h \<le> length (fr_buffer f)"
  shows "fr_buffer f' = fr_buffer f"
    "status = RecvOk \<and> err = None \<and> fr_header f' = Some h \<and> frame_valid f'
     \<or> status = RecvError \<and> err \<noteq> None \<and> fr_header f' = None"
  using assms
  by (cases "fh_frame_type h"; force simp: complete_def Let_def frame_valid_def payload_def split: sum.splits)+

lemma parse_fixed:
  assumes "parse_frame_header fixed = Inr h" "length fixed = HEADER_SIZE"
  shows "fixed = encode_frame_header h" "frame_header_ok h" "fh_data_length h \<le> FRAME_MAX"
  using parse_frame_header_sound [OF assms(1)] assms(2) frame_header_ok_bounds [of h] by auto

text \<open>What one successful read does: either the bytes join the pending ones, or they complete a frame
  that is exactly the bytes received, or the frame is rejected.\<close>

lemma after_read_cases:
  assumes "after_read io f p = ((f', p'), r)" "pt_header p = Some h" "pt_fixed_len p = HEADER_SIZE"
    and "parse_frame_header (pt_fixed p) = Inr h" "length (pt_fixed p) = HEADER_SIZE"
    and "pt_body_len p \<le> fh_data_length h" "fh_data_length h \<le> length (fr_buffer f)"
  shows "(r = None \<and> f' = f \<and> p' = p \<and> part_ok f p)
    \<or> (r = Some (RecvOk, None) \<and> p' = partial_default \<and> frame_valid f' \<and> fr_buffer f' = fr_buffer f
        \<and> fr_header f' = Some h \<and> pending f p = encode_frame_header h @ payload f')
    \<or> (\<exists>e. r = Some (RecvError, Some e) \<and> p' = partial_default \<and> fr_buffer f' = fr_buffer f \<and> fr_header f' = None)"
proof (cases "pt_body_len p = fh_data_length h")
  case True
  obtain g status err where c: "complete (io_ns_complete io) f h (pt_header_ns p) = (g, status, err)"
    by (metis prod_cases3)
  then have eq: "f' = g" "p' = partial_default" "r = Some (status, err)"
    using assms(1,2) True by (auto simp: after_read_def)
  note fx = parse_fixed [OF assms(4,5)]
  note cc = complete_cases [OF c fx(2) assms(7)]
  have "pending f p = encode_frame_header h @ payload g" if "frame_valid g" "fr_header g = Some h"
    using that fx(1) True assms(2) cc(1) by (simp add: pending_def frame_valid_def payload_def)
  then show ?thesis using cc eq by auto
next
  case False
  then show ?thesis using assms by (auto simp: after_read_def part_ok_def)
qed

definition read_outcome :: "frame \<Rightarrow> partial \<Rightarrow> u8 list \<Rightarrow> frame \<Rightarrow> partial \<Rightarrow> (recv \<times> string option) option \<Rightarrow> bool" where
  "read_outcome f p bs f' p' r \<longleftrightarrow>
     length (fr_buffer f') \<le> max (length (fr_buffer f)) FRAME_MAX \<and>
     ((r = None \<and> part_ok f' p' \<and> pending f' p' = pending f p @ bs)
      \<or> (r = Some (RecvOk, None) \<and> p' = partial_default \<and> frame_valid f'
          \<and> pending f p @ bs = encode_frame_header (the (fr_header f')) @ payload f')
      \<or> (\<exists>e. r = Some (RecvError, Some e)))"

text \<open>The read that fills the fixed header: the payload buffer grows to what the header announces.\<close>

lemma header_full:
  assumes "parse_frame_header fx = Inr h" "length fx = HEADER_SIZE" "pt_header q = Some h" "pt_fixed q = fx"
    and "pt_fixed_len q = HEADER_SIZE" "pt_body_len q = 0" "fx = pending f p @ bs"
    and "g = (if length (fr_buffer f) < fh_data_length h
          then f\<lparr>fr_buffer := fr_buffer f @ replicate (fh_data_length h - length (fr_buffer f)) 0\<rparr> else f)"
    and "after_read io g q = ((f', p'), r)"
  shows "read_outcome f p bs f' p' r"
proof -
  have g: "fh_data_length h \<le> length (fr_buffer g)" "length (fr_buffer g) \<le> max (length (fr_buffer f)) FRAME_MAX"
    using parse_fixed [OF assms(1,2)] by (auto simp: assms(8))
  have "pending g q = pending f p @ bs" using assms by (simp add: pending_def)
  then show ?thesis
    using after_read_cases [OF assms(9,3,5)] assms(1-6) g unfolding read_outcome_def by force
qed

lemma take_bytes_header:
  assumes t: "take_bytes io bs f p = ((f', p'), r)" and ok: "part_ok f p" and h: "pt_header p = None"
    and bs: "bs \<noteq> []" and room: "length bs \<le> HEADER_SIZE - pt_fixed_len p"
  shows "read_outcome f p bs f' p' r"
proof -
  define q where "q = (if \<not> started p then p\<lparr>pt_budget_ms := io_now io + BODY_BUDGET_MS\<rparr> else p)"
  have q: "pt_header q = None" "pt_fixed q = pt_fixed p" "pt_fixed_len q = pt_fixed_len p" "pt_body_len q = 0"
    using h ok by (simp_all add: q_def part_ok_def)
  define fx where "fx = store_at (pt_fixed p) (pt_fixed_len p) bs"
  have lens: "length (pt_fixed p) = HEADER_SIZE" "pt_fixed_len p + length bs \<le> HEADER_SIZE"
    using ok room h bs by (auto simp: part_ok_def)
  have fx: "length fx = HEADER_SIZE" "take (pt_fixed_len p + length bs) fx = pending f p @ bs"
    using lens h by (simp_all add: fx_def store_at_length take_store_at pending_def)
  define q' where "q' = q\<lparr>pt_fixed := fx, pt_fixed_len := pt_fixed_len p + length bs\<rparr>"
  show ?thesis
  proof (cases "pt_fixed_len p + length bs < HEADER_SIZE")
    case True
    then have "f' = f" "p' = q'" "r = None"
      using t q by (simp_all add: take_bytes_def q_def [symmetric] q'_def fx_def)
    then show ?thesis using True q fx by (simp add: read_outcome_def part_ok_def q'_def pending_def)
  next
    case full: False
    then have "pt_fixed_len p + length bs = HEADER_SIZE" using lens by simp
    note fx = fx this
    show ?thesis
    proof (cases "parse_frame_header fx")
      case (Inl e)
      then show ?thesis
        using t q full by (auto simp: take_bytes_def q_def [symmetric] fx_def read_outcome_def)
    next
      case (Inr h)
      define g where "g = (if length (fr_buffer f) < fh_data_length h
        then f\<lparr>fr_buffer := fr_buffer f @ replicate (fh_data_length h - length (fr_buffer f)) 0\<rparr> else f)"
      define q3 where "q3 = q'\<lparr>pt_header_ns := io_ns io, pt_header := Some h\<rparr>"
      consider "f' = f" "\<exists>e. r = Some (RecvError, Some e)" | "after_read io g q3 = ((f', p'), r)"
        using t q full Inr
        by (auto simp: take_bytes_def q_def [symmetric] fx_def [symmetric] q'_def q3_def g_def Let_def split: if_splits)
      then show ?thesis
        using header_full [OF Inr fx(1) _ _ _ _ _ g_def, of q3] fx q
        by cases (auto simp: read_outcome_def q3_def q'_def)
    qed
  qed
qed

lemma take_bytes_body:
  assumes t: "take_bytes io bs f p = ((f', p'), r)" and ok: "part_ok f p" and h: "pt_header p = Some h"
    and room: "length bs \<le> fh_data_length h - pt_body_len p"
  shows "read_outcome f p bs f' p' r"
proof -
  have o: "pt_fixed_len p = HEADER_SIZE" "parse_frame_header (pt_fixed p) = Inr h" "length (pt_fixed p) = HEADER_SIZE"
    "pt_body_len p + length bs \<le> fh_data_length h" "fh_data_length h \<le> length (fr_buffer f)"
    using ok room h by (auto simp: part_ok_def)
  define g where "g = f\<lparr>fr_buffer := store_at (fr_buffer f) (pt_body_len p) bs\<rparr>"
  define q where "q = (if \<not> started p then p\<lparr>pt_budget_ms := io_now io + BODY_BUDGET_MS\<rparr> else p)
      \<lparr>pt_body_len := pt_body_len p + length bs\<rparr>"
  have q: "pt_header q = Some h" "pt_fixed q = pt_fixed p" "pt_fixed_len q = pt_fixed_len p"
    "pt_body_len q = pt_body_len p + length bs" using h by (simp_all add: q_def)
  have "after_read io g q = ((f', p'), r)" using t h by (simp add: take_bytes_def g_def q_def Let_def split: if_splits)
  moreover have "length (fr_buffer g) = length (fr_buffer f)" using o by (simp add: g_def store_at_length)
  moreover have "pending g q = pending f p @ bs"
    using h q o by (simp add: pending_def g_def take_store_at)
  ultimately show ?thesis
    using after_read_cases [of io g q f' p' r h] q o unfolding read_outcome_def by force
qed

lemma take_bytes_cases:
  assumes "take_bytes io bs f p = ((f', p'), r)" "part_ok f p" "bs \<noteq> []"
    and "length bs \<le> (case pt_header p of None \<Rightarrow> HEADER_SIZE - pt_fixed_len p
                        | Some h \<Rightarrow> fh_data_length h - pt_body_len p)"
  shows "read_outcome f p bs f' p' r"
  using take_bytes_header [OF assms(1,2) _ assms(3)] take_bytes_body [OF assms(1,2)] assms(4)
  by (cases "pt_header p") simp_all

section \<open>The loop\<close>

text \<open>The contract of \<open>Read::read\<close> along a run, and the bytes the run took from the socket.\<close>

definition read_bytes :: "io_answer \<Rightarrow> u8 list" where
  "read_bytes io = (case io_read io of ReadOk bs \<Rightarrow> bs | _ \<Rightarrow> [])"

fun script_ok :: "nat \<Rightarrow> bool \<Rightarrow> channel \<Rightarrow> io_answer list \<Rightarrow> bool" where
  "script_ok d w c [] \<longleftrightarrow> True"
| "script_ok d w c (io # ios) \<longleftrightarrow>
     length (read_bytes io) \<le> target_room c \<and>
     (case receive_step d w c io of (c', None) \<Rightarrow> script_ok d w c' ios | _ \<Rightarrow> True)"

fun run_bytes :: "nat \<Rightarrow> bool \<Rightarrow> channel \<Rightarrow> io_answer list \<Rightarrow> u8 list" where
  "run_bytes d w c [] = []"
| "run_bytes d w c (io # ios) =
     read_bytes io @ (case receive_step d w c io of (c', None) \<Rightarrow> run_bytes d w c' ios | _ \<Rightarrow> [])"

abbreviation pending_of :: "channel \<Rightarrow> u8 list" where
  "pending_of c \<equiv> pending (ch_frame c) (ch_partial c)"

text \<open>How a run may end, given the bytes that were pending and the bytes it read.\<close>

definition run_outcome :: "channel \<Rightarrow> u8 list \<Rightarrow> channel \<Rightarrow> recv \<Rightarrow> string option \<Rightarrow> bool" where
  "run_outcome c bs c' status err \<longleftrightarrow>
     length (fr_buffer (ch_frame c')) \<le> max (length (fr_buffer (ch_frame c))) FRAME_MAX \<and> ch_stream c' = ch_stream c \<and>
     (case status of
        RecvOk \<Rightarrow> err = None \<and> frame_valid (ch_frame c') \<and> ch_partial c' = partial_default
          \<and> pending_of c @ bs = encode_frame_header (the (fr_header (ch_frame c'))) @ payload (ch_frame c')
      | WouldBlock \<Rightarrow> err \<noteq> None \<and> chan_ok c' \<and> pending_of c' = pending_of c @ bs
      | _ \<Rightarrow> err \<noteq> None)"

lemma receive_step_outcome:
  assumes "receive_step d w c io = (c', r)" "chan_ok c" "length (read_bytes io) \<le> target_room c"
  shows "case r of
      None \<Rightarrow> chan_ok c' \<and> pending_of c' = pending_of c @ read_bytes io \<and> ch_stream c' = ch_stream c
        \<and> length (fr_buffer (ch_frame c')) \<le> max (length (fr_buffer (ch_frame c))) FRAME_MAX
    | Some (status, err) \<Rightarrow> run_outcome c (read_bytes io) c' status err"
proof (cases "io_read io")
  case (ReadOk bs)
  show ?thesis
  proof (cases "bs = []")
    case True
    then show ?thesis using assms ReadOk by (auto simp: receive_step_def run_outcome_def)
  next
    case False
    obtain f p r' where tb: "take_bytes io bs (ch_frame c) (ch_partial c) = ((f, p), r')" by (metis surj_pair)
    have "length bs \<le> (case pt_header (ch_partial c) of None \<Rightarrow> HEADER_SIZE - pt_fixed_len (ch_partial c)
        | Some h \<Rightarrow> fh_data_length h - pt_body_len (ch_partial c))"
      using assms(2,3) ReadOk by (auto simp: read_bytes_def target_room_def chan_ok_def part_ok_def split: option.splits)
    from take_bytes_cases [OF tb _ False this] assms(2) have "read_outcome (ch_frame c) (ch_partial c) bs f p r'"
      by (simp add: chan_ok_def)
    moreover have "c' = c\<lparr>ch_frame := f, ch_partial := p\<rparr>" "r = r'"
      using assms(1) ReadOk False tb by (simp_all add: receive_step_def)
    ultimately show ?thesis using ReadOk
      by (auto simp: read_outcome_def run_outcome_def read_bytes_def chan_ok_def)
  qed
next
  case ReadWouldBlock
  then show ?thesis using assms
    by (auto simp: receive_step_def run_outcome_def read_bytes_def Let_def split: if_splits sum.splits)
qed (use assms in \<open>auto simp: receive_step_def run_outcome_def read_bytes_def\<close>)

lemma receive_loop_outcome:
  assumes "receive_loop d w c ios = Some (c', status, err)" "chan_ok c" "script_ok d w c ios"
  shows "run_outcome c (run_bytes d w c ios) c' status err"
  using assms
proof (induction ios arbitrary: c)
  case (Cons io ios)
  obtain c1 r where s: "receive_step d w c io = (c1, r)" by (metis surj_pair)
  note out = receive_step_outcome [OF s Cons.prems(2)]
  show ?case
  proof (cases r)
    case None
    then have c1: "chan_ok c1" "pending_of c1 = pending_of c @ read_bytes io" "ch_stream c1 = ch_stream c"
      "length (fr_buffer (ch_frame c1)) \<le> max (length (fr_buffer (ch_frame c))) FRAME_MAX"
      using out Cons.prems(3) s by auto
    have "run_outcome c1 (run_bytes d w c1 ios) c' status err"
      using Cons.IH [of c1] Cons.prems s None c1 by simp
    then show ?thesis using c1 s None by (cases status) (auto simp: run_outcome_def)
  next
    case (Some se)
    then show ?thesis using out Cons.prems s by (cases se) auto
  qed
qed simp

lemma chan_ok_close: "chan_ok (close c)" "pending_of (close c) = []"
  by (simp_all add: close_def chan_ok_def part_ok_default)

text \<open>Every read makes the pending bytes grow, and they never reach the largest frame.\<close>

lemma pending_length: "chan_ok c \<Longrightarrow> length (pending_of c) < HEADER_SIZE + FRAME_MAX"
  using parse_fixed(3) [of "pt_fixed (ch_partial c)"]
  by (cases "pt_header (ch_partial c)") (force simp: chan_ok_def part_ok_def pending_def)+

lemma receive_loop_returns:
  assumes "chan_ok c" "script_ok d w c ios" "list_all (\<lambda>io. read_bytes io \<noteq> []) ios"
    and "HEADER_SIZE + FRAME_MAX \<le> length (pending_of c) + length ios"
  shows "\<exists>c' status err. receive_loop d w c ios = Some (c', status, err)"
  using assms
proof (induction ios arbitrary: c)
  case Nil
  then show ?case using pending_length [of c] by simp
next
  case (Cons io ios)
  obtain c1 r where s: "receive_step d w c io = (c1, r)" by (metis surj_pair)
  show ?case
  proof (cases r)
    case None
    then have c1: "chan_ok c1" "pending_of c1 = pending_of c @ read_bytes io"
      using receive_step_outcome [OF s Cons.prems(1)] Cons.prems(2) by auto
    moreover have "1 \<le> length (read_bytes io)" using Cons.prems(3) by (cases "read_bytes io") auto
    ultimately show ?thesis using Cons.IH [of c1] Cons.prems s None by auto
  next
    case (Some se)
    then show ?thesis using s by (cases se) auto
  qed
qed

section \<open>Media and subscriptions\<close>

lemma payload_length: "frame_valid f \<Longrightarrow> length (payload f) = fr_len f"
  by (auto simp: frame_valid_def payload_def split: option.splits)

lemma media_split:
  assumes "frame_valid f" "fr_header f = Some h" "ext = extension_size (fh_frame_type h)"
  shows "\<exists>m. media f ext = Some m \<and> payload f = take ext (payload f) @ m @ drop (fr_len f - fh_metadata_length h) (payload f)"
proof -
  let ?e = "fr_len f - fh_metadata_length h"
  have len: "fr_len f \<le> length (fr_buffer f)" "ext + fh_metadata_length h \<le> fr_len f"
    using assms by (auto simp: frame_valid_def frame_header_ok_def)
  then have m: "media f ext = Some (slice (fr_buffer f) ext ?e)"
    using assms(2) by (auto simp: media_def metadata_length_def checked_sub_def)
  have "slice (payload f) ext ?e = slice (fr_buffer f) ext ?e"
    using len by (simp add: payload_def drop_take)
  moreover have "take ext (payload f) @ slice (payload f) ext ?e @ drop ?e (payload f) = payload f"
    using slice_append [of 0 ext ?e "payload f"] len by (simp add: append_take_drop_id flip: append_assoc)
  ultimately show ?thesis using m by metis
qed

lemma write_all_sent:
  assumes "write_all_deadline data ws = Some (sent, r, ws')"
  shows "is_ok r \<Longrightarrow> sent = data" "prefix sent data"
  using assms
  by (induction data ws arbitrary: sent rule: write_all_deadline.induct)
     (auto split: write_result.splits sum.splits if_splits simp: prefix_def,
      (metis append_take_drop_id append_assoc)+)

definition subscription_frame :: "frame_type \<Rightarrow> u8 list" where
  "subscription_frame kind =
     encode_frame_header \<lparr>fh_frame_type = Metadata, fh_timestamp = 0, fh_metadata_length = 0,
       fh_data_length = length (subscription_xml kind)\<rparr> @ as_bytes (subscription_xml kind)"

lemma build_subscription: "build_metadata (as_bytes (subscription_xml kind)) 0 [] = Inr (subscription_frame kind)"
  by (cases kind) (simp_all add: build_metadata_def subscription_frame_def encode_frame_header_def
      subscription_xml_def as_bytes_def)

lemma subscribe_outcome:
  assumes "subscribe c kind ws = Some (sent, c', r, ws')" "ch_stream c"
  shows "if is_ok r then sent = subscription_frame kind \<and> c' = c else c' = close c"
  using assms write_all_sent(1) [of "subscription_frame kind" ws sent r ws']
  by (auto simp: subscribe_def build_subscription)

text \<open>How \<open>connect\<close> can end: before a socket is open, after its one subscription, or after the two of a
  video subscription.\<close>

lemma connect_cases:
  assumes "connect lookup attempt c ep kind ws = Some (sent, c', r)"
  obtains "c' = close c" "\<not> is_ok r"
  | ws1 where "kind \<noteq> Video" "subscribe (close c\<lparr>ch_stream := True\<rparr>) kind ws = Some (sent, c', r, ws1)"
  | s1 c1 r1 ws1 where "kind = Video" "subscribe (close c\<lparr>ch_stream := True\<rparr>) Metadata ws = Some (s1, c1, r1, ws1)"
      "if is_ok r1 then \<exists>s2 ws2. subscribe c1 kind ws1 = Some (s2, c', r, ws2) \<and> sent = s1 @ s2
       else \<not> is_ok r \<and> c' = c1"
proof (cases "resolve lookup ep")
  case (Inl e)
  then show ?thesis using assms that(1) by (auto simp: connect_def)
next
  case addrs: (Inr addrs)
  obtain opened err where o: "try_addresses ''unable to connect to the OMT source'' addrs attempt = (opened, err)"
    by fastforce
  show ?thesis
  proof (cases "addrs = [] \<or> \<not> opened")
    case True
    then show ?thesis using assms that(1) addrs o by (cases "addrs = []") (auto simp: connect_def Let_def)
  next
    case False
    let ?c = "close c\<lparr>ch_stream := True\<rparr>"
    show ?thesis
    proof (cases "kind = Video")
      case True
      then obtain s1 c1 r1 ws1 where s1: "subscribe ?c Metadata ws = Some (s1, c1, r1, ws1)"
        using assms addrs o False by (auto simp: connect_def bind_eq_Some_conv)
      show ?thesis
        by (rule that(3) [OF True s1], cases r1)
           (use assms addrs o False True s1 in \<open>auto simp: connect_def\<close>)
    next
      case nv: False
      show ?thesis using that(2) [OF nv] assms addrs o False nv by (auto simp: connect_def)
    qed
  qed
qed

section \<open>Properties\<close>

text \<open>C9. The receiver reassembles the byte stream exactly, however it is cut into reads. When a call
  returns a frame, the bytes received since the last frame are exactly its encoded header followed
  by its payload, and its headers are validated; when it returns without one the bytes stay pending;
  on anything else the channel is closed with nothing pending. The payload buffer never grows past
  the largest frame.\<close>

theorem receive_exact:
  assumes "finish d w c ios = Some (c', status, err)" "ch_stream c" "chan_ok c" "script_ok d w c ios"
  shows "length (fr_buffer (ch_frame c')) \<le> max (length (fr_buffer (ch_frame c))) FRAME_MAX \<and> chan_ok c' \<and>
    (case status of
       RecvOk \<Rightarrow> ch_stream c' \<and> frame_valid (ch_frame c') \<and> pending_of c' = []
         \<and> pending_of c @ run_bytes d w c ios
             = encode_frame_header (the (fr_header (ch_frame c'))) @ payload (ch_frame c')
     | WouldBlock \<Rightarrow> ch_stream c' \<and> pending_of c' = pending_of c @ run_bytes d w c ios
     | _ \<Rightarrow> \<not> ch_stream c' \<and> pending_of c' = [])"
proof -
  obtain c1 where l: "receive_loop d w c ios = Some (c1, status, err)"
    and c': "c' = (if status \<noteq> RecvOk \<and> status \<noteq> WouldBlock then close c1 else c1)"
    using assms(1,2) by (auto simp: finish_def receive_inner_def)
  from receive_loop_outcome [OF l assms(3,4)] have out: "run_outcome c (run_bytes d w c ios) c1 status err" .
  have "fr_buffer (ch_frame (close c1)) = fr_buffer (ch_frame c1)" "\<not> ch_stream (close c1)"
    by (simp_all add: close_def)
  then show ?thesis using out c' assms(2) chan_ok_close [of c1]
    by (cases status) (auto simp: run_outcome_def chan_ok_def part_ok_default)
qed

definition demo_read :: "u8 list \<Rightarrow> io_answer" where
  "demo_read bs = \<lparr>io_read = ReadOk bs, io_now = 0, io_now_left = 0, io_now_after = 0, io_ns = 0,
     io_ns_complete = 0, io_alloc = True, io_poll = Inr 1\<rparr>"

definition demo_channel :: channel where
  "demo_channel = channel_new\<lparr>ch_stream := True\<rparr>"

lemma demo_channel_ok: "chan_ok demo_channel" "ch_stream demo_channel"
  by (simp_all add: demo_channel_def channel_new_def chan_ok_def part_ok_default)

lemmas demo_simps = demo_read_def demo_channel_def channel_new_def finish_def receive_inner_def receive_step_def
  take_bytes_def after_read_def complete_def started_def partial_default_def frame_default_def store_at_def
  read_bytes_def target_room_def parse_frame_header_def frame_kind_def le16_def le32_def checked_sub_def
  signed_of_def

theorem receive_exact_witness:
  "\<exists>c'. finish 100 True demo_channel [demo_read [1, 1, 0, 0, 0, 0, 0, 0, 0, 0], demo_read [0, 0, 1, 0, 0, 0], demo_read [65]]
       = Some (c', RecvOk, None) \<and> frame_valid (ch_frame c') \<and> payload (ch_frame c') = [65]"
proof -
  let ?ios = "[demo_read [1, 1, 0, 0, 0, 0, 0, 0, 0, 0], demo_read [0, 0, 1, 0, 0, 0], demo_read [65]]"
  obtain c' where c': "finish 100 True demo_channel ?ios = Some (c', RecvOk, None)" "payload (ch_frame c') = [65]"
    by (simp add: demo_simps Let_def payload_def)
  moreover have "script_ok 100 True demo_channel ?ios" by (simp add: demo_simps Let_def)
  ultimately show ?thesis using receive_exact [OF c'(1) demo_channel_ok(2,1)] by auto
qed



text \<open>The media of a validated frame is always there: between the extended header and the trailing
  metadata, which together never overlap, the payload is split exactly.\<close>

lemma media_exact:
  assumes "frame_valid f" "fr_header f = Some h"
  shows "\<exists>m. media f (extension_size (fh_frame_type h)) = Some m
    \<and> payload f = take (extension_size (fh_frame_type h)) (payload f) @ m
                  @ drop (fr_len f - fh_metadata_length h) (payload f)
    \<and> length m = fr_len f - fh_metadata_length h - extension_size (fh_frame_type h)"
proof -
  from media_split [OF assms refl] obtain m where m: "media f (extension_size (fh_frame_type h)) = Some m"
    "payload f = take (extension_size (fh_frame_type h)) (payload f) @ m @ drop (fr_len f - fh_metadata_length h) (payload f)"
    by blast
  have "fr_len f \<le> length (fr_buffer f)" "extension_size (fh_frame_type h) + fh_metadata_length h \<le> fr_len f"
    using assms by (auto simp: frame_valid_def frame_header_ok_def)
  then have "length m = fr_len f - fh_metadata_length h - extension_size (fh_frame_type h)"
    using m(1) assms(2) by (auto simp: media_def metadata_length_def checked_sub_def split: if_splits)
  then show ?thesis using m by blast
qed



end
