(* ===== verification/Handoff.thy ===== *)
theory Handoff
  imports Channel "HOL-Library.Sublist"
begin

text \<open>
  \<^verbatim>\<open>crates/omt-receiver/src/handoff.rs\<close>: the queue between the socket and the display or the audio device.
  Whether the deque can grow by one is the environment's answer. A payload buffer never shrinks, so
  its capacity is positive exactly when it has ever held a byte, that is when it is not empty.
\<close>

section \<open>The queue\<close>

abbreviation VIDEO_BYTE_CAP :: nat where "VIDEO_BYTE_CAP \<equiv> VIDEO_MAX_SIZE + 4096"
abbreviation AUDIO_BYTE_CAP :: nat where "AUDIO_BYTE_CAP \<equiv> 8388608"
abbreviation AUDIO_BACKLOG_NS :: nat where "AUDIO_BACKLOG_NS \<equiv> 100000000"
abbreviation SPARE_BUFFERS :: nat where "SPARE_BUFFERS \<equiv> 4"

datatype queue_kind = VideoQueue | AudioQueue

record queue =
  q_frames :: "frame list"
  q_bytes :: nat
  q_byte_cap :: nat
  q_interval_ns :: "nat option"
  q_kind :: queue_kind
  q_spares :: "u8 list list"

definition queue_new :: "queue_kind \<Rightarrow> nat \<Rightarrow> queue" where
  "queue_new kind byte_cap = \<lparr>q_frames = [], q_bytes = 0, q_byte_cap = byte_cap, q_interval_ns = None,
     q_kind = kind, q_spares = []\<rparr>"

definition take_spare :: "queue \<Rightarrow> u8 list \<times> queue" where
  "take_spare q =
     (if q_spares q = [] then ([], q) else (last (q_spares q), q\<lparr>q_spares := butlast (q_spares q)\<rparr>))"

definition recycle :: "queue \<Rightarrow> u8 list \<Rightarrow> queue" where
  "recycle q buffer =
     (if buffer \<noteq> [] \<and> length (q_spares q) < SPARE_BUFFERS then q\<lparr>q_spares := q_spares q @ [buffer]\<rparr> else q)"

definition drop_oldest :: "queue \<Rightarrow> queue" where
  "drop_oldest q =
     (case q_frames q of
        [] \<Rightarrow> q
      | f # fs \<Rightarrow> recycle (q\<lparr>q_frames := fs, q_bytes := q_bytes q - fr_len f\<rparr>) (fr_buffer f))"

text \<open>One audio frame's duration in nanoseconds.\<close>

definition audio_interval_ns :: "audio_header \<Rightarrow> nat option" where
  "audio_interval_ns h =
     (if ah_samples_per_channel h \<le> 0 \<or> ah_sample_rate h \<le> 0 then None
      else (let seconds = f64_div (nat (ah_samples_per_channel h)) (nat (ah_sample_rate h))
            in if seconds \<le> 0 \<or> 18000000000 < seconds then None
               else Some (nat (f64_round (f64_mul seconds 1000000000)))))"

definition audio_backlog_exceeded :: "queue \<Rightarrow> bool" where
  "audio_backlog_exceeded q =
     (case q_interval_ns q of
        Some interval \<Rightarrow> 1 < length (q_frames q) \<and> AUDIO_BACKLOG_NS < interval * length (q_frames q)
      | None \<Rightarrow> False)"

definition wanted :: "queue_kind \<Rightarrow> frame \<Rightarrow> bool" where
  "wanted kind f =
     (case kind of
        VideoQueue \<Rightarrow> fr_video f \<noteq> None \<and> frame_type_of f = Some Video
      | AudioQueue \<Rightarrow> fr_audio f \<noteq> None \<and> frame_type_of f = Some Audio)"

lemma length_drop_oldest: "length (q_frames (drop_oldest q)) = length (q_frames q) - 1"
  by (cases "q_frames q") (auto simp: drop_oldest_def recycle_def)

text \<open>The two loops of \<open>push\<close>: everything queued goes; then the oldest go while there is more than one
  frame and the queue is too large. Each returns the queue and how many frames it dropped.\<close>

function drop_all :: "queue \<Rightarrow> nat \<Rightarrow> queue \<times> nat" where
  "drop_all q dropped = (if q_frames q = [] then (q, dropped) else drop_all (drop_oldest q) (dropped + 1))"
  by pat_completeness auto
termination
proof (relation "measure (\<lambda>(q, dropped). length (q_frames q))")
  fix q :: queue and dropped :: nat
  assume "q_frames q \<noteq> []"
  then show "((drop_oldest q, dropped + 1), q, dropped) \<in> measure (\<lambda>(q, dropped). length (q_frames q))"
    by (cases "q_frames q") (simp_all add: length_drop_oldest)
qed simp

function trim :: "queue \<Rightarrow> nat \<Rightarrow> queue \<times> nat" where
  "trim q dropped =
     (if 1 < length (q_frames q) \<and> (q_byte_cap q < q_bytes q \<or> audio_backlog_exceeded q)
      then trim (drop_oldest q) (dropped + 1) else (q, dropped))"
  by pat_completeness auto
termination
  by (relation "measure (\<lambda>(q, dropped). length (q_frames q))") (auto simp: length_drop_oldest)

declare drop_all.simps [simp del] trim.simps [simp del]

definition queue_push :: "bool \<Rightarrow> queue \<Rightarrow> frame \<Rightarrow> queue \<times> nat" where
  "queue_push alloc q f =
     (if \<not> wanted (q_kind q) f \<or> q_byte_cap q < fr_len f then (recycle q (fr_buffer f), 0)
      else
        (let (q, dropped) =
               (if q_kind q = VideoQueue then drop_all q 0
                else (case Option.bind (fr_audio f) audio_interval_ns of
                        Some interval \<Rightarrow> (q\<lparr>q_interval_ns := Some interval\<rparr>, 0)
                      | None \<Rightarrow> (q, 0)))
         in if \<not> alloc then (recycle q (fr_buffer f), dropped)
            else trim (q\<lparr>q_bytes := q_bytes q + fr_len f, q_frames := q_frames q @ [f]\<rparr>) dropped))"

definition queue_pop :: "queue \<Rightarrow> (frame \<times> queue) option" where
  "queue_pop q =
     (case q_frames q of
        [] \<Rightarrow> None
      | f # fs \<Rightarrow> Some (f, q\<lparr>q_frames := fs, q_bytes := q_bytes q - fr_len f\<rparr>))"

section \<open>The invariant\<close>

definition queue_ok :: "queue \<Rightarrow> bool" where
  "queue_ok q \<longleftrightarrow>
     q_bytes q = sum_list (map fr_len (q_frames q)) \<and> q_bytes q \<le> q_byte_cap q
     \<and> length (q_spares q) \<le> SPARE_BUFFERS \<and> list_all (wanted (q_kind q)) (q_frames q)
     \<and> (q_kind q = VideoQueue \<longrightarrow> length (q_frames q) \<le> 1)"

text \<open>What the loops rely on: the same without the size limits.\<close>

definition queue_acct :: "queue \<Rightarrow> bool" where
  "queue_acct q \<longleftrightarrow>
     q_bytes q = sum_list (map fr_len (q_frames q)) \<and> length (q_spares q) \<le> SPARE_BUFFERS
     \<and> list_all (wanted (q_kind q)) (q_frames q)"

lemma recycle_fields [simp]:
  "q_frames (recycle q b) = q_frames q" "q_bytes (recycle q b) = q_bytes q"
  "q_byte_cap (recycle q b) = q_byte_cap q" "q_interval_ns (recycle q b) = q_interval_ns q"
  "q_kind (recycle q b) = q_kind q"
  by (simp_all add: recycle_def)

lemma recycle_spares: "length (q_spares q) \<le> SPARE_BUFFERS \<Longrightarrow> length (q_spares (recycle q b)) \<le> SPARE_BUFFERS"
  by (simp add: recycle_def)

lemma recycle_ok: "queue_ok q \<Longrightarrow> queue_ok (recycle q b)"
  using recycle_spares [of q b] by (simp add: queue_ok_def)

lemma queue_new_ok: "queue_ok (queue_new kind cap)"
  by (simp add: queue_ok_def queue_new_def)

lemma drop_oldest_fields [simp]:
  "q_byte_cap (drop_oldest q) = q_byte_cap q" "q_interval_ns (drop_oldest q) = q_interval_ns q"
  "q_kind (drop_oldest q) = q_kind q" "q_frames (drop_oldest q) = tl (q_frames q)"
  by (cases "q_frames q"; simp add: drop_oldest_def)+

lemma drop_oldest_acct: "queue_acct q \<Longrightarrow> queue_acct (drop_oldest q)"
  by (cases "q_frames q") (auto simp: drop_oldest_def queue_acct_def recycle_spares)

lemma drop_all_outcome:
  "queue_acct q \<Longrightarrow> drop_all q n = (q', n') \<Longrightarrow>
   queue_acct q' \<and> q_frames q' = [] \<and> n' = n + length (q_frames q) \<and> q_byte_cap q' = q_byte_cap q
   \<and> q_kind q' = q_kind q"
proof (induction q n rule: drop_all.induct)
  case (1 q n)
  show ?case
  proof (cases "q_frames q = []")
    case True
    then show ?thesis using "1.prems" by (simp add: drop_all.simps [of q n])
  next
    case False
    then have "drop_all (drop_oldest q) (n + 1) = (q', n')" using "1.prems" by (simp add: drop_all.simps [of q n])
    from "1.IH" [OF False drop_oldest_acct [OF "1.prems"(1)] this] False show ?thesis
      by (cases "q_frames q") simp_all
  qed
qed

text \<open>Trimming keeps the newest frames, at least one, and stops only when what is left is allowed.\<close>

lemma trim_outcome:
  assumes "queue_acct q" "q_frames q \<noteq> []" "trim q n = (q', n')"
  shows "queue_acct q' \<and> n \<le> n' \<and> q_frames q' = drop (n' - n) (q_frames q) \<and> q_frames q' \<noteq> []
    \<and> q_byte_cap q' = q_byte_cap q \<and> q_kind q' = q_kind q
    \<and> (length (q_frames q') \<le> 1 \<or> q_bytes q' \<le> q_byte_cap q' \<and> \<not> audio_backlog_exceeded q')"
  using assms
proof (induction q n rule: trim.induct)
  case (1 q n)
  show ?case
  proof (cases "1 < length (q_frames q) \<and> (q_byte_cap q < q_bytes q \<or> audio_backlog_exceeded q)")
    case True
    have t: "trim (drop_oldest q) (n + 1) = (q', n')" using "1.prems"(3) True by (simp add: trim.simps [of q n])
    have ne: "q_frames (drop_oldest q) \<noteq> []" using True by (cases "q_frames q") auto
    have IH: "queue_acct q' \<and> n + 1 \<le> n' \<and> q_frames q' = drop (n' - (n + 1)) (q_frames (drop_oldest q)) \<and> q_frames q' \<noteq> []
      \<and> q_byte_cap q' = q_byte_cap (drop_oldest q) \<and> q_kind q' = q_kind (drop_oldest q)
      \<and> (length (q_frames q') \<le> 1 \<or> q_bytes q' \<le> q_byte_cap q' \<and> \<not> audio_backlog_exceeded q')"
      by (rule "1.IH" [OF True drop_oldest_acct [OF "1.prems"(1)] ne t])
    then have "n' - n = Suc (n' - (n + 1))" by linarith
    then have "drop (n' - n) (q_frames q) = drop (n' - (n + 1)) (tl (q_frames q))" by (simp add: drop_Suc)
    then show ?thesis using IH unfolding drop_oldest_fields by (metis add_leD1)
  next
    case False
    then show ?thesis using "1.prems" by (auto simp: trim.simps [of q n] not_less)
  qed
qed

text \<open>The first part of \<open>push\<close>: the slot emptied for a video frame, the interval noted for an audio one.\<close>

lemma push_prepare:
  assumes "queue_ok q" "(if q_kind q = VideoQueue then drop_all q 0
      else (case Option.bind (fr_audio f) audio_interval_ns of
              Some interval \<Rightarrow> (q\<lparr>q_interval_ns := Some interval\<rparr>, 0) | None \<Rightarrow> (q, 0))) = (q1, n)"
  shows "queue_acct q1 \<and> q_byte_cap q1 = q_byte_cap q \<and> q_kind q1 = q_kind q \<and> q_frames q1 = drop n (q_frames q)
    \<and> n \<le> length (q_frames q) \<and> (q_kind q = VideoQueue \<longrightarrow> q_frames q1 = []) \<and> q_bytes q1 \<le> q_byte_cap q1"
proof -
  have acct: "queue_acct q" using assms(1) by (simp add: queue_ok_def queue_acct_def)
  show ?thesis
  proof (cases "q_kind q = VideoQueue")
    case True
    then have "drop_all q 0 = (q1, n)" using assms(2) by simp
    from drop_all_outcome [OF acct this] show ?thesis by (auto simp: queue_acct_def)
  next
    case False
    then show ?thesis using assms acct
      by (auto simp: queue_acct_def queue_ok_def split: option.splits)
  qed
qed

lemma backlog_single: "length (q_frames q) \<le> 1 \<Longrightarrow> \<not> audio_backlog_exceeded q"
  by (simp add: audio_backlog_exceeded_def split: option.splits)

text \<open>What \<open>push\<close> does: the frame is refused, or stored behind the newest of the frames before it.\<close>

lemma queue_push_outcome:
  assumes ok: "queue_ok q" and push: "queue_push alloc q f = (q', n)"
  shows "q_kind q' = q_kind q \<and> q_byte_cap q' = q_byte_cap q \<and> queue_ok q' \<and> n \<le> length (q_frames q) \<and>
    (if wanted (q_kind q) f \<and> fr_len f \<le> q_byte_cap q \<and> alloc
     then q_frames q' = drop n (q_frames q @ [f]) \<and> \<not> audio_backlog_exceeded q'
     else q_frames q' = drop n (q_frames q))"
proof (cases "wanted (q_kind q) f \<and> fr_len f \<le> q_byte_cap q")
  case False
  then have "q' = recycle q (fr_buffer f)" "n = 0" using push by (auto simp: queue_push_def)
  then show ?thesis using False recycle_ok [OF ok] by auto
next
  case True
  obtain q1 n1 where q1: "(if q_kind q = VideoQueue then drop_all q 0
      else (case Option.bind (fr_audio f) audio_interval_ns of
              Some interval \<Rightarrow> (q\<lparr>q_interval_ns := Some interval\<rparr>, 0) | None \<Rightarrow> (q, 0))) = (q1, n1)"
    by fastforce
  note p = push_prepare [OF ok q1]
  have "\<not> (\<not> wanted (q_kind q) f \<or> q_byte_cap q < fr_len f)" using True by auto
  then have eq: "(if \<not> alloc then (recycle q1 (fr_buffer f), n1)
      else trim (q1\<lparr>q_bytes := q_bytes q1 + fr_len f, q_frames := q_frames q1 @ [f]\<rparr>) n1) = (q', n)"
    using push q1 unfolding queue_push_def by simp
  show ?thesis
  proof (cases alloc)
    case False
    then have "q' = recycle q1 (fr_buffer f)" "n = n1" using eq by auto
    moreover have "queue_ok q1" using p by (auto simp: queue_ok_def queue_acct_def)
    ultimately show ?thesis using p True False recycle_ok [of q1] by simp
  next
    case a: True
    let ?q2 = "q1\<lparr>q_bytes := q_bytes q1 + fr_len f, q_frames := q_frames q1 @ [f]\<rparr>"
    have acct: "queue_acct ?q2" using p True by (auto simp: queue_acct_def)
    have "trim ?q2 n1 = (q', n)" using eq a by simp
    from trim_outcome [OF acct _ this] have t: "queue_acct q'" "n1 \<le> n" "q_frames q' = drop (n - n1) (q_frames q1 @ [f])"
      "q_frames q' \<noteq> []" "q_byte_cap q' = q_byte_cap q" "q_kind q' = q_kind q"
      "length (q_frames q') \<le> 1 \<or> q_bytes q' \<le> q_byte_cap q' \<and> \<not> audio_backlog_exceeded q'"
      using p by auto
    have frames: "q_frames q' = drop n (q_frames q @ [f])" using t(2,3) p by simp
    then have n: "n \<le> length (q_frames q)" using t(4) by (metis drop_all length_append_singleton not_less_eq_eq)
    have single: "q_frames q' = [f]" if "length (q_frames q') \<le> 1"
    proof -
      have "drop n (q_frames q) = []" using that n frames by simp
      then show ?thesis using frames n by simp
    qed
    have "q_bytes q' \<le> q_byte_cap q'" using t(1,5,7) single True by (auto simp: queue_acct_def)
    moreover have "length (q_frames q') \<le> 1" if "q_kind q = VideoQueue"
    proof -
      have "q_frames q1 @ [f] = [f]" using p that by blast
      then show ?thesis using t(3) by simp
    qed
    ultimately have "queue_ok q'" using t by (auto simp: queue_ok_def queue_acct_def)
    then show ?thesis using frames n t True a backlog_single [of q'] by auto
  qed
qed

section \<open>A relay between a producer and a consumer\<close>

text \<open>
  The interface the session relies on: a queue that may drop what it holds or refuse what it is given,
  but never reorders, duplicates or invents. The client lemma covers every interleaving of pushes and
  pops.
\<close>

datatype 'x relay_op = Push 'x | Pop

fun run_relay :: "('q \<Rightarrow> 'x \<Rightarrow> 'q) \<Rightarrow> ('q \<Rightarrow> ('y \<times> 'q) option) \<Rightarrow> 'q \<Rightarrow> 'x relay_op list \<Rightarrow> 'y list \<times> 'q" where
  "run_relay push pop q [] = ([], q)"
| "run_relay push pop q (Push x # ops) = run_relay push pop (push q x) ops"
| "run_relay push pop q (Pop # ops) =
     (case pop q of
        None \<Rightarrow> run_relay push pop q ops
      | Some (y, q') \<Rightarrow> (case run_relay push pop q' ops of (ys, q'') \<Rightarrow> (y # ys, q'')))"

definition pushed :: "'x relay_op list \<Rightarrow> 'x list" where
  "pushed ops = concat (map (\<lambda>op. case op of Push x \<Rightarrow> [x] | Pop \<Rightarrow> []) ops)"

locale relay =
  fixes push :: "'q \<Rightarrow> 'x \<Rightarrow> 'q"
    and pop :: "'q \<Rightarrow> ('y \<times> 'q) option"
    and contents :: "'q \<Rightarrow> 'y list"
    and item :: "'x \<Rightarrow> 'y"
    and invar :: "'q \<Rightarrow> bool"
  assumes push_invar: "invar q \<Longrightarrow> invar (push q x)"
    and push_contents: "invar q \<Longrightarrow> subseq (contents (push q x)) (contents q @ [item x])"
    and pop_Some: "invar q \<Longrightarrow> pop q = Some (y, q') \<Longrightarrow> invar q' \<and> contents q = y # contents q'"
begin

lemma run_invar: "invar q \<Longrightarrow> run_relay push pop q ops = (ys, q') \<Longrightarrow> invar q'"
proof (induction ops arbitrary: q ys)
  case (Cons op ops)
  show ?case
  proof (cases op)
    case (Push x)
    then show ?thesis using Cons.IH [OF push_invar [OF Cons.prems(1)]] Cons.prems(2) by simp
  next
    case Pop
    then show ?thesis using Cons by (auto split: option.splits prod.splits dest: pop_Some)
  qed
qed simp

lemma run_in_order:
  "invar q \<Longrightarrow> run_relay push pop q ops = (ys, q') \<Longrightarrow>
   subseq (ys @ contents q') (contents q @ map item (pushed ops))"
proof (induction ops arbitrary: q ys)
  case (Cons op ops)
  show ?case
  proof (cases op)
    case (Push x)
    then have "subseq (ys @ contents q') (contents (push q x) @ map item (pushed ops))"
      using Cons.IH [of "push q x"] Cons.prems by (simp add: push_invar)
    also have "subseq (contents (push q x) @ map item (pushed ops)) ((contents q @ [item x]) @ map item (pushed ops))"
      using push_contents [OF Cons.prems(1)] by (intro list_emb_append_mono) auto
    finally show ?thesis using Push by (simp add: pushed_def)
  next
    case Pop
    show ?thesis
    proof (cases "pop q")
      case None
      then show ?thesis using Cons Pop by (simp add: pushed_def)
    next
      case (Some r)
      obtain y q1 where r: "r = (y, q1)" by (cases r)
      obtain ys1 where rec: "run_relay push pop q1 ops = (ys1, q')" "ys = y # ys1"
        using Cons.prems(2) Pop Some r by (auto split: prod.splits)
      have "invar q1" "contents q = y # contents q1" using pop_Some Cons.prems(1) Some r by auto
      then show ?thesis using Cons.IH [OF _ rec(1)] rec(2) Pop by (simp add: pushed_def)
    qed
  qed
qed (auto simp: pushed_def)

end

abbreviation push_frame :: "queue \<Rightarrow> bool \<times> frame \<Rightarrow> queue" where
  "push_frame q x \<equiv> fst (queue_push (fst x) q (snd x))"

interpretation hq: relay push_frame queue_pop q_frames snd queue_ok
proof unfold_locales
  fix q and x :: "bool \<times> frame"
  assume ok: "queue_ok q"
  obtain q' n where p: "queue_push (fst x) q (snd x) = (q', n)" by fastforce
  note out = queue_push_outcome [OF ok p]
  show "queue_ok (push_frame q x)" using out p by simp
  have "subseq (drop n (q_frames q @ [snd x])) (q_frames q @ [snd x])"
    "subseq (drop n (q_frames q)) (q_frames q @ [snd x])"
  proof -
    show "subseq (drop n (q_frames q @ [snd x])) (q_frames q @ [snd x])"
      by (rule suffix_imp_subseq) (rule suffix_drop)
    have "subseq (drop n (q_frames q)) (q_frames q)" by (rule suffix_imp_subseq) (rule suffix_drop)
    then show "subseq (drop n (q_frames q)) (q_frames q @ [snd x])" by (rule list_emb_prefix)
  qed
  then show "subseq (q_frames (push_frame q x)) (q_frames q @ [snd x])"
    using out p by (auto split: if_splits)
next
  fix q y q'
  assume "queue_ok q" "queue_pop q = Some (y, q')"
  then show "queue_ok q' \<and> q_frames q = y # q_frames q'"
    by (cases "q_frames q") (auto simp: queue_pop_def queue_ok_def)
qed

section \<open>Properties\<close>

text \<open>C12. The queue between the socket and the consumer: under every interleaving of pushes and pops and
  every behaviour of the allocator, the frames handed out, followed by those still queued, are a
  subsequence of the frames pushed, in order; the byte account is exact and within the cap, a video
  queue holds at most one frame, and at most four spare buffers are kept.\<close>

theorem handoff_in_order:
  assumes "run_relay push_frame queue_pop (queue_new kind cap) ops = (out, q)"
  shows "subseq (out @ q_frames q) (map snd (pushed ops)) \<and> queue_ok q"
  using hq.run_in_order [OF queue_new_ok assms] hq.run_invar [OF queue_new_ok assms]
  by (simp add: queue_new_def)

definition demo_audio :: "nat \<Rightarrow> frame" where
  "demo_audio n = frame_default\<lparr>fr_len := n, fr_buffer := replicate n 0,
     fr_header := Some \<lparr>fh_frame_type = Audio, fh_timestamp = 0, fh_metadata_length = 0, fh_data_length = n\<rparr>,
     fr_audio := Some \<lparr>ah_codec = CODEC_FPA1, ah_sample_rate = 48000, ah_samples_per_channel = 0, ah_channels = 2,
       ah_active_channels = 0\<rparr>\<rparr>"

theorem handoff_in_order_witness:
  "\<exists>q. run_relay push_frame queue_pop (queue_new AudioQueue 5)
         [Push (True, demo_audio 2), Push (True, demo_audio 3), Pop] = ([demo_audio 2], q)
     \<and> subseq ([demo_audio 2] @ q_frames q) [demo_audio 2, demo_audio 3]"
proof -
  let ?ops = "[Push (True, demo_audio 2), Push (True, demo_audio 3), Pop] :: (bool \<times> frame) relay_op list"
  obtain q where "run_relay push_frame queue_pop (queue_new AudioQueue 5) ?ops = ([demo_audio 2], q)"
    by (simp add: queue_push_def queue_pop_def queue_new_def demo_audio_def wanted_def frame_type_of_def
        audio_interval_ns_def trim.simps audio_backlog_exceeded_def frame_default_def)
  from handoff_in_order [OF this] this show ?thesis by (auto simp: pushed_def)
qed

text \<open>A frame the queue stores is always its newest, and the frames given up for it are its oldest,
  exactly as many as the call reports; afterwards the queue is within its byte cap and an audio
  queue of more than one frame is within the backlog limit. A frame that is not wanted or too large,
  or for which there is no room, displaces only what a video slot held.\<close>

lemma handoff_push:
  assumes "queue_ok q" "queue_push alloc q f = (q', dropped)"
  shows "queue_ok q' \<and> dropped \<le> length (q_frames q) \<and>
    (if wanted (q_kind q) f \<and> fr_len f \<le> q_byte_cap q \<and> alloc
     then q_frames q' = drop dropped (q_frames q) @ [f] \<and> \<not> audio_backlog_exceeded q'
     else q_frames q' = drop dropped (q_frames q))"
  using queue_push_outcome [OF assms] by (auto split: if_splits)

end
