(* ===== verification/Scale.thy ===== *)
theory Scale
  imports Prelude
begin

text \<open>
  \<^verbatim>\<open>crates/omt-receiver/src/scale.rs\<close>: where each destination pixel of a fitted picture comes from. The
  products are taken at 128 bits in the source, which holds the product of two \<open>usize\<close> values, so
  they are exact here.
\<close>

section \<open>Placement and sampling\<close>

record placement =
  pl_x :: nat
  pl_y :: nat
  pl_width :: nat
  pl_height :: nat

text \<open>\<open>usize::try_from(v).unwrap_or(d)\<close>.\<close>

definition usize_or :: "nat \<Rightarrow> nat \<Rightarrow> nat" where
  [std_defs]: "usize_or v d = (if v \<le> USIZE_MAX then v else d)"

definition fit :: "nat \<Rightarrow> nat \<Rightarrow> nat \<Rightarrow> nat \<Rightarrow> placement option" where
  "fit sw sh mw mh =
     (if sw = 0 \<or> sh = 0 \<or> mw = 0 \<or> mh = 0 then None
      else
        (let source_ratio = sw * mh;
             mode_ratio = mw * sh;
             (width, height) =
               (if source_ratio \<le> mode_ratio
                then (min (usize_or (source_ratio div sh) mw) mw, mh)
                else (mw, min (usize_or (mode_ratio div sw) mh) mh));
             (width, height) = (max width 1, max height 1)
         in Some \<lparr>pl_x = (mw - width) div 2, pl_y = (mh - height) div 2, pl_width = width, pl_height = height\<rparr>))"

definition fills :: "placement \<Rightarrow> nat \<Rightarrow> nat \<Rightarrow> bool" where
  "fills p mw mh \<longleftrightarrow> pl_x p = 0 \<and> pl_y p = 0 \<and> pl_width p = mw \<and> pl_height p = mh"

definition sample :: "nat \<Rightarrow> nat \<Rightarrow> nat \<Rightarrow> nat" where
  "sample index destination source =
     (let numerator = (2 * index + 1) * source;
          coordinate = numerator div (2 * destination)
      in min (usize_or coordinate 0) (source - 1))"

record scaler =
  sc_placement :: placement
  sc_rows :: "nat list"
  sc_columns :: "nat list"

definition scale_table :: "nat \<Rightarrow> nat \<Rightarrow> nat list" where
  "scale_table n source = map (\<lambda>i. let c = sample i n source in if c \<le> U32_MAX then c else U32_MAX) [0..<n]"

definition scaler_new :: "nat \<Rightarrow> nat \<Rightarrow> placement \<Rightarrow> string + scaler" where
  "scaler_new sw sh p =
     (if sw = 0 \<or> sh = 0 \<or> U32_MAX < sw \<or> U32_MAX < sh \<or> pl_width p = 0 \<or> pl_height p = 0
      then Inl ''Video frame geometry cannot be scaled''
      else Inr \<lparr>sc_placement = p, sc_rows = scale_table (pl_height p) sh, sc_columns = scale_table (pl_width p) sw\<rparr>)"

section \<open>Sampling\<close>

text \<open>The coordinate of a pixel centre, before it is clamped, is already inside the source.\<close>

lemma centre_less:
  fixes i n s :: nat
  assumes "i < n" "0 < s"
  shows "(2 * i + 1) * s div (2 * n) < s"
proof -
  have "(2 * i + 1) * s < 2 * n * s" using assms by (intro mult_strict_right_mono) auto
  then show ?thesis by (simp add: less_mult_imp_div_less mult.commute)
qed

lemma sample_eq:
  assumes "i < n" "0 < s" "s \<le> USIZE_MAX"
  shows "sample i n s = (2 * i + 1) * s div (2 * n)" "sample i n s < s"
  using centre_less [OF assms(1,2)] assms by (simp_all add: sample_def usize_or_def Let_def)

lemma sample_mono:
  assumes "i \<le> j" "j < n" "0 < s" "s \<le> USIZE_MAX"
  shows "sample i n s \<le> sample j n s"
proof -
  have "(2 * i + 1) * s div (2 * n) \<le> (2 * j + 1) * s div (2 * n)"
    using assms by (intro div_le_mono mult_right_mono) auto
  then show ?thesis using assms by (simp add: sample_eq)
qed

lemma sample_id:
  assumes "i < n" "n \<le> USIZE_MAX"
  shows "sample i n n = i"
proof -
  have "(2 * i + 1) * n div (2 * n) = (2 * i + 1) div 2" using assms by (intro div_mult_mult2) auto
  then show ?thesis using assms by (simp add: sample_eq)
qed

lemma scale_table_nth:
  assumes "i < n" "0 < s" "s \<le> U32_MAX"
  shows "scale_table n s ! i = sample i n s"
  using sample_eq(2) [of i n s] assms by (simp add: scale_table_def)

lemma length_scale_table [simp]: "length (scale_table n s) = n"
  by (simp add: scale_table_def)

lemma scale_table_ok:
  assumes "0 < s" "s \<le> U32_MAX"
  shows "sorted (scale_table n s)" "\<forall>x \<in> set (scale_table n s). x < s"
proof -
  show "sorted (scale_table n s)"
    unfolding sorted_iff_nth_mono using assms by (auto simp: scale_table_nth sample_mono)
  show "\<forall>x \<in> set (scale_table n s). x < s"
    using assms by (auto simp: in_set_conv_nth scale_table_nth sample_eq(2))
qed

text \<open>Enlarging skips no source row or column.\<close>

lemma sample_onto:
  assumes "0 < s" "s \<le> n" "k < s" "s \<le> USIZE_MAX"
  shows "\<exists>i < n. sample i n s = k"
proof (cases "s = n")
  case True
  then show ?thesis using assms sample_id [of k n] by auto
next
  case False
  define i where "i = (2 * k * n + n) div (2 * s)"
  have up: "2 * s * i \<le> 2 * k * n + n" "2 * k * n + n < 2 * s * i + 2 * s"
    using assms(1) mult_div_mod_eq [of "2 * s" "2 * k * n + n"] mod_less_divisor [of "2 * s" "2 * k * n + n"]
    unfolding i_def by linarith+
  have kn: "(k + 1) * n \<le> s * n" using assms(3) by (intro mult_right_mono) auto
  have "0 < n" using assms by simp
  then have "2 * k * n + n < 2 * ((k + 1) * n)" by simp
  then have "2 * s * i < 2 * s * n" using up(1) kn by linarith
  then have i: "i < n" using assms(1) by simp
  have "2 * n * k \<le> (2 * i + 1) * s" using up(2) assms(2) by (simp add: algebra_simps)
  moreover have "(2 * i + 1) * s < 2 * n * k + 2 * n" using up(1) assms(2) False by (simp add: algebra_simps)
  ultimately have "(2 * i + 1) * s div (2 * n) = k"
    by (intro div_nat_eqI) (simp_all add: algebra_simps)
  then show ?thesis using i assms by (auto simp: sample_eq)
qed

section \<open>Placement\<close>

lemma fit_cases:
  assumes "0 < sw" "0 < sh" "0 < mw" "0 < mh" "mw \<le> USIZE_MAX" "mh \<le> USIZE_MAX"
  shows "fit sw sh mw mh = Some p \<longleftrightarrow>
    (if sw * mh \<le> mw * sh
     then p = (let w = max (sw * mh div sh) 1 in \<lparr>pl_x = (mw - w) div 2, pl_y = 0, pl_width = w, pl_height = mh\<rparr>)
     else p = (let h = max (mw * sh div sw) 1 in \<lparr>pl_x = 0, pl_y = (mh - h) div 2, pl_width = mw, pl_height = h\<rparr>))"
proof -
  have w: "sw * mh \<le> mw * sh \<Longrightarrow> sw * mh div sh \<le> mw"
    using div_le_mono [of "sw * mh" "mw * sh" sh] assms(2) by simp
  have h: "mw * sh \<le> sw * mh \<Longrightarrow> mw * sh div sw \<le> mh"
    using div_le_mono [of "mw * sh" "sw * mh" sw] assms(1) by simp
  have u: "min (usize_or v m) m = v" if "v \<le> m" "m \<le> USIZE_MAX" for v m using that by (simp add: usize_or_def)
  have m: "max mh 1 = mh" "max mw 1 = mw" using assms by simp_all
  have ne: "\<not> (sw = 0 \<or> sh = 0 \<or> mw = 0 \<or> mh = 0)" using assms by simp
  show ?thesis
  proof (cases "sw * mh \<le> mw * sh")
    case True
    show ?thesis unfolding fit_def Let_def using ne True m u [OF w [OF True] assms(5)] by auto
  next
    case False
    then have le: "mw * sh \<le> sw * mh" by simp
    show ?thesis unfolding fit_def Let_def using ne False m u [OF h [OF le] assms(6)] by auto
  qed
qed

section \<open>Properties\<close>



text \<open>C14. The sampling tables of a scaler have one entry per destination row and column, never point
  outside the source, do not decrease, sample each pixel's centre, and skip no source row or column
  when the picture is enlarged; at the source's own size they are the identity.\<close>

theorem scaler_tables:
  assumes "scaler_new sw sh p = Inr sc"
  shows "length (sc_rows sc) = pl_height p \<and> length (sc_columns sc) = pl_width p
    \<and> sorted (sc_rows sc) \<and> sorted (sc_columns sc)
    \<and> (\<forall>r \<in> set (sc_rows sc). r < sh) \<and> (\<forall>c \<in> set (sc_columns sc). c < sw)
    \<and> (\<forall>i < pl_height p. sc_rows sc ! i = (2 * i + 1) * sh div (2 * pl_height p))
    \<and> (sh \<le> pl_height p \<longrightarrow> set (sc_rows sc) = {..<sh}) \<and> (sw \<le> pl_width p \<longrightarrow> set (sc_columns sc) = {..<sw})
    \<and> (pl_height p = sh \<longrightarrow> sc_rows sc = [0..<sh])"
proof -
  have b: "0 < sw" "0 < sh" "sw \<le> U32_MAX" "sh \<le> U32_MAX"
    and sc: "sc_rows sc = scale_table (pl_height p) sh" "sc_columns sc = scale_table (pl_width p) sw"
    using assms by (auto simp: scaler_new_def split: if_splits)
  have onto: "set (scale_table n s) = {..<s}" if s: "0 < s" "s \<le> U32_MAX" "s \<le> n" for n s
  proof
    show "set (scale_table n s) \<subseteq> {..<s}" using scale_table_ok(2) [OF s(1,2)] by auto
    show "{..<s} \<subseteq> set (scale_table n s)"
    proof
      fix k assume "k \<in> {..<s}"
      then obtain i where "i < n" "sample i n s = k" using sample_onto [of s n k] s by auto
      then have "scale_table n s ! i = k" "i < length (scale_table n s)" using s by (simp_all add: scale_table_nth)
      then show "k \<in> set (scale_table n s)" by (metis nth_mem)
    qed
  qed
  have "scale_table sh sh = [0..<sh]"
    using b by (intro nth_equalityI) (simp_all add: scale_table_nth sample_id)
  moreover have "scale_table (pl_height p) sh ! i = (2 * i + 1) * sh div (2 * pl_height p)" if "i < pl_height p" for i
    using that b sample_eq(1) [of i "pl_height p" sh] by (simp add: scale_table_nth)
  ultimately show ?thesis using sc b scale_table_ok onto by auto
qed

theorem scaler_tables_witness:
  "\<exists>sc. scaler_new 2 2 \<lparr>pl_x = 0, pl_y = 0, pl_width = 3, pl_height = 2\<rparr> = Inr sc \<and> sc_rows sc = [0..<2]"
  using scaler_tables [of 2 2 "\<lparr>pl_x = 0, pl_y = 0, pl_width = 3, pl_height = 2\<rparr>"]
  by (simp add: scaler_new_def)

end
