(* ===== verification/Vmx_Bits.thy ===== *)
theory Vmx_Bits
  imports Prelude
begin

text \<open>
  \<^verbatim>\<open>crates/omt-vmx/src/bits.rs\<close>: the bit reader of the entropy decoder. The window is a 64-bit word;
  \<open>bits_left\<close> is an \<open>i32\<close>, an \<open>int\<close> here, and stays between 0 and 64 (\<open>reader_ok\<close>). The abstract
  view of a reader is the list of its unread bits, \<open>unread\<close>: the operations are shown to take bits
  from its front.
\<close>

section \<open>Streams\<close>

abbreviation PADDING :: nat where "PADDING \<equiv> 64"

record stream =
  st_buffer :: "u8 list"
  st_length :: nat
  st_capacity :: nat

definition stream_new :: "nat \<Rightarrow> stream" where
  "stream_new capacity = \<lparr>st_buffer = replicate PADDING 0xFF, st_length = PADDING, st_capacity = capacity\<rparr>"

text \<open>\<open>alloc\<close> answers \<open>try_reserve_exact\<close>.\<close>

definition stream_load :: "bool \<Rightarrow> stream \<Rightarrow> u8 list \<Rightarrow> bool \<times> stream" where
  "stream_load alloc s data =
     (if st_capacity s < length data then (False, s)
      else
        (let needed = length data + PADDING
         in if length (st_buffer s) < needed \<and> \<not> alloc then (False, s)
            else
              (let buffer = (if length (st_buffer s) < needed
                             then st_buffer s @ replicate (needed - length (st_buffer s)) 0 else st_buffer s)
               in (True, s\<lparr>st_buffer := data @ replicate PADDING 0xFF @ drop needed buffer, st_length := needed\<rparr>))))"

record reader =
  rd_buf :: "u8 list"
  rd_position :: nat
  rd_bits_left :: int
  rd_window :: u64
  rd_corrupt :: bool

definition shl64 :: "u64 \<Rightarrow> nat \<Rightarrow> u64" where
  "shl64 v n = (if 64 \<le> n then 0 else push_bit n v)"

text \<open>\<open>u64::leading_zeros\<close>.\<close>

definition clz64 :: "u64 \<Rightarrow> int" where
  "clz64 v = int (length (takeWhile Not (map (bit v) (rev [0..<64]))))"

definition rd_window_at :: "reader \<Rightarrow> nat \<Rightarrow> u64 \<times> reader" where
  "rd_window_at r pos =
     (if pos + 8 \<le> length (rd_buf r)
      then (word_of_nat (be_val (slice (rd_buf r) pos (pos + 8))), r)
      else (- 1, r\<lparr>rd_corrupt := True\<rparr>))"

definition stream_reader :: "stream \<Rightarrow> reader" where
  "stream_reader s =
     (let r = \<lparr>rd_buf = take (st_length s) (st_buffer s), rd_position = 0, rd_bits_left = 64, rd_window = 0,
               rd_corrupt = False\<rparr>;
          (w, r) = rd_window_at r 0
      in r\<lparr>rd_window := w\<rparr>)"

section \<open>The reader\<close>

definition rd_flush :: "reader \<Rightarrow> reader" where
  "rd_flush r =
     (if rd_bits_left r = 0 then
        (let r = r\<lparr>rd_bits_left := 64, rd_position := rd_position r + 8\<rparr>;
             (w, r) = rd_window_at r (rd_position r)
         in r\<lparr>rd_window := w\<rparr>)
      else r)"

definition rd_reload :: "reader \<Rightarrow> reader" where
  "rd_reload r =
     (if rd_bits_left r < 32 then
        if rd_bits_left r < 0 then r\<lparr>rd_corrupt := True\<rparr>
        else
          (let advance = (64 - rd_bits_left r) div 8;
               r = r\<lparr>rd_position := rd_position r + nat advance\<rparr>;
               (w, r) = rd_window_at r (rd_position r)
           in r\<lparr>rd_window := w, rd_bits_left := rd_bits_left r + advance * 8\<rparr>)
      else r)"

definition rd_take :: "reader \<Rightarrow> int \<Rightarrow> u64 \<times> reader" where
  "rd_take r count =
     (let r = r\<lparr>rd_bits_left := wrap32 (rd_bits_left r - count)\<rparr>
      in if rd_bits_left r < 0 \<or> \<not> (0 \<le> count \<and> count \<le> 64) then
           (let r = r\<lparr>rd_corrupt := True\<rparr>
            in (0, if rd_bits_left r < 0 then r\<lparr>rd_bits_left := 0\<rparr> else r))
         else
           (let mask = (if 64 \<le> count then - 1 else push_bit (nat count) 1 - 1);
                shifted = (if 64 \<le> rd_bits_left r then 0 else drop_bit (nat (rd_bits_left r)) (rd_window r))
            in (shifted AND mask, r)))"

definition rd_bit :: "reader \<Rightarrow> u64 \<times> reader" where
  "rd_bit r = (let (v, r) = rd_take r 1 in (v, rd_flush r))"

definition rd_leading_zeros :: "reader \<Rightarrow> int \<times> reader" where
  "rd_leading_zeros r =
     (if rd_bits_left r \<le> 0 \<or> 64 < rd_bits_left r then (0, r\<lparr>rd_corrupt := True\<rparr>)
      else (clz64 (shl64 (rd_window r) (nat (64 - rd_bits_left r))), r))"

definition rd_zeros_bare :: "reader \<Rightarrow> int \<times> reader" where
  "rd_zeros_bare r =
     (let (count, r) = rd_leading_zeros r
      in if rd_bits_left r < count then (0, r\<lparr>rd_corrupt := True\<rparr>)
         else (count, r\<lparr>rd_bits_left := rd_bits_left r - count\<rparr>))"

definition rd_zeros :: "reader \<Rightarrow> int \<times> reader" where
  "rd_zeros r =
     (let (count, r) = rd_leading_zeros r
      in if rd_bits_left r \<le> count then
           (let count = rd_bits_left r;
                r = rd_flush (r\<lparr>rd_bits_left := 0\<rparr>);
                extra = clz64 (rd_window r)
            in if rd_bits_left r < extra then (0, r\<lparr>rd_corrupt := True\<rparr>)
               else (count + extra, r\<lparr>rd_bits_left := rd_bits_left r - extra\<rparr>))
         else (count, r\<lparr>rd_bits_left := rd_bits_left r - count\<rparr>))"

text \<open>The loop of \<open>bits\<close>: every turn takes at least one bit.\<close>

function rd_bits_loop :: "int \<Rightarrow> u64 \<Rightarrow> reader \<Rightarrow> u64 \<times> reader" where
  "rd_bits_loop remaining v r =
     (if 0 < remaining then
        (let n = min remaining (rd_bits_left r)
         in if n \<le> 0 then (v, r\<lparr>rd_corrupt := True\<rparr>)
            else
              (let v = (if v \<noteq> 0 then shl64 v (nat n) else v);
                   (bits, r) = rd_take r n
               in rd_bits_loop (remaining - n) (v OR bits) (rd_flush r)))
      else (v, r))"
  by auto
termination by (relation "measure (\<lambda>(remaining, _, _). nat remaining)") auto

declare rd_bits_loop.simps [simp del]

definition rd_bits :: "reader \<Rightarrow> int \<Rightarrow> u64 \<times> reader" where
  "rd_bits r count = (if count < 0 then (0, r\<lparr>rd_corrupt := True\<rparr>) else rd_bits_loop count 0 r)"

definition rd_align :: "reader \<Rightarrow> reader" where
  "rd_align r =
     rd_flush (if rd_bits_left r < 64 then snd (rd_bits r (rd_bits_left r mod 8)) else r)"


section \<open>Bit lists\<close>

text \<open>The number a list of bits denotes, most significant first.\<close>

fun bval :: "bool list \<Rightarrow> nat" where
  "bval [] = 0"
| "bval (b # bs) = of_bool b * 2 ^ length bs + bval bs"

lemma bval_append: "bval (xs @ ys) = bval xs * 2 ^ length ys + bval ys"
  by (induction xs) (auto simp: algebra_simps power_add)

lemma bval_less: "bval xs < 2 ^ length xs"
  by (induction xs) auto

lemma bval_replicate_False [simp]: "bval (replicate n False) = 0"
  by (induction n) auto

lemma bval_take: "bval (take m xs) = bval xs div 2 ^ (length xs - m)"
proof -
  have "bval xs = bval (take m xs) * 2 ^ (length xs - m) + bval (drop m xs)"
    using bval_append [of "take m xs" "drop m xs"] by simp
  moreover have "bval (drop m xs) < 2 ^ (length xs - m)" using bval_less [of "drop m xs"] by simp
  ultimately show ?thesis by simp
qed

lemma bval_drop: "bval (drop m xs) = bval xs mod 2 ^ (length xs - m)"
proof -
  have "bval xs = bval (take m xs) * 2 ^ (length xs - m) + bval (drop m xs)"
    using bval_append [of "take m xs" "drop m xs"] by simp
  moreover have "bval (drop m xs) < 2 ^ (length xs - m)" using bval_less [of "drop m xs"] by simp
  ultimately show ?thesis by simp
qed

lemma bit_bval: "i < length xs \<Longrightarrow> bit (bval xs) i \<longleftrightarrow> xs ! (length xs - 1 - i)"
proof -
  assume i: "i < length xs"
  have "bit (bval xs) i = odd (bval (take (length xs - i) xs))"
    using i by (simp add: bit_iff_odd bval_take)
  also have "take (length xs - i) xs = take (length xs - 1 - i) xs @ [xs ! (length xs - 1 - i)]"
    using i by (metis Suc_diff_Suc diff_Suc_1 diff_commute diff_less less_nat_zero_code
        linorder_neqE_nat list.size(3) take_Suc_conv_app_nth zero_less_one zero_less_diff length_0_conv)
  finally show ?thesis by (simp add: bval_append)
qed

lemma bval_inj: "length xs = length ys \<Longrightarrow> bval xs = bval ys \<Longrightarrow> xs = ys"
proof (induction xs ys rule: list_induct2)
  case (Cons x xs y ys)
  have "bval xs < 2 ^ length ys" "bval ys < 2 ^ length ys" using Cons.hyps bval_less [of xs] bval_less [of ys] by auto
  then have "x = y" using Cons.prems Cons.hyps by (cases x; cases y) auto
  then show ?case using Cons by simp
qed simp

lemma bval_bits: "bval (map (bit (n :: nat)) (rev [0..<k])) = n mod 2 ^ k"
proof (induction k)
  case (Suc k)
  have "n mod 2 ^ Suc k = of_bool (bit n k) * 2 ^ k + n mod 2 ^ k"
    by (simp add: bit_iff_odd mod_mult2_eq mult.commute [of 2] of_bool_odd_eq_mod_2)
  then show ?case using Suc.IH by simp
qed simp

lemma bval_word_bits: "bval (map (bit (w :: u64)) (rev [0..<k])) = unat w mod 2 ^ k"
proof -
  have "map (bit w) (rev [0..<k]) = map (bit (unat w)) (rev [0..<k])"
    by (simp add: bit_unsigned_iff fun_eq_iff bit_imp_le_length)
  then show ?thesis by (metis bval_bits)
qed

lemma unat_u64_less: "unat (w :: u64) < 18446744073709551616"
  using unsigned_less [of w] by simp

lemma unat_u64_mod [simp]: "unat (w :: u64) mod 18446744073709551616 = unat w"
  using unat_u64_less by simp

lemma word_of_bval: "length xs = 64 \<Longrightarrow> map (bit (word_of_nat (bval xs) :: u64)) (rev [0..<64]) = xs"
proof (rule bval_inj)
  assume "length xs = 64"
  then show "bval (map (bit (word_of_nat (bval xs) :: u64)) (rev [0..<64])) = bval xs"
    using bval_less [of xs] by (simp add: bval_word_bits unat_of_nat)
qed simp

text \<open>The number of leading zeros is read off the magnitude.\<close>

lemma bval_zero_iff: "bval xs = 0 \<longleftrightarrow> True \<notin> set xs"
  by (induction xs) auto

lemma takeWhile_Not_iff:
  "z < length xs \<Longrightarrow> length (takeWhile Not xs) = z \<longleftrightarrow> 2 ^ (length xs - 1 - z) \<le> bval xs \<and> bval xs < 2 ^ (length xs - z)"
proof (induction xs arbitrary: z)
  case (Cons x xs)
  show ?case
  proof (cases z)
    case 0
    then show ?thesis using bval_less [of xs] by (cases x) auto
  next
    case (Suc k)
    have "2 ^ (length xs - k) \<le> (2 :: nat) ^ length xs" by (rule power_increasing) auto
    then have "x \<Longrightarrow> \<not> bval (x # xs) < 2 ^ (length xs - k)" by (simp add: not_less trans_le_add1)
    then show ?thesis using Cons Suc by (cases x) auto
  qed
qed simp

lemma takeWhile_Not_replicate: "takeWhile Not xs = replicate (length (takeWhile Not xs)) False"
  by (induction xs) auto


section \<open>The bits of the window\<close>

definition reader_ok :: "reader \<Rightarrow> bool" where
  "reader_ok r \<longleftrightarrow> 0 \<le> rd_bits_left r \<and> rd_bits_left r \<le> 64"

definition avail :: "reader \<Rightarrow> bool list" where
  "avail r = map (bit (rd_window r)) (rev [0..<nat (rd_bits_left r)])"

lemma length_avail [simp]: "length (avail r) = nat (rd_bits_left r)"
  by (simp add: avail_def)

lemma bval_avail: "bval (avail r) = unat (rd_window r) mod 2 ^ nat (rd_bits_left r)"
  by (simp add: avail_def bval_word_bits)

lemma avail_cong [simp]: "avail (r\<lparr>rd_corrupt := c\<rparr>) = avail r"
  by (simp add: avail_def)

lemma drop_rev_upt: "n \<le> k \<Longrightarrow> drop n (rev [0..<k]) = rev [0..<k - n]"
  by (simp add: drop_rev)

lemma avail_drop:
  "n \<le> nat (rd_bits_left r) \<Longrightarrow> avail (r\<lparr>rd_bits_left := rd_bits_left r - int n\<rparr>) = drop n (avail r)"
  using nat_diff_distrib' [of "rd_bits_left r" "int n"]
  by (cases "0 \<le> rd_bits_left r") (auto simp: avail_def drop_map drop_rev_upt)

lemma wrap32_id: "- 2147483648 \<le> x \<Longrightarrow> x < 2147483648 \<Longrightarrow> wrap32 x = x"
  unfolding wrap32_def by (rule signed_take_bit_int_eq_self) auto

lemma rd_take_ok:
  assumes "reader_ok r" "n \<le> nat (rd_bits_left r)"
  shows "rd_take r (int n) = (word_of_nat (bval (take n (avail r))), r\<lparr>rd_bits_left := rd_bits_left r - int n\<rparr>)"
proof -
  define k where "k = nat (rd_bits_left r) - n"
  have k: "nat (rd_bits_left r - int n) = k" "wrap32 (rd_bits_left r - int n) = rd_bits_left r - int n"
    "n \<le> 64" "k + n \<le> 64" "nat (rd_bits_left r) = k + n" "\<not> rd_bits_left r - int n < 0"
    using assms wrap32_id [of "rd_bits_left r - int n"] by (auto simp: reader_ok_def k_def)
  have "bval (take n (avail r)) = unat (rd_window r) div 2 ^ k mod 2 ^ n"
    using k by (simp add: bval_take bval_avail k_def [symmetric] power_add mod_mult2_eq)
  then have "unat (take_bit n (drop_bit k (rd_window r))) = bval (take n (avail r))"
    by (simp only: unsigned_take_bit_eq unsigned_drop_bit_eq) (simp add: take_bit_nat_def drop_bit_nat_def)
  then have v: "(word_of_nat (bval (take n (avail r))) :: u64) = take_bit n (drop_bit k (rd_window r))"
    by (metis of_nat_unat ucast_id)
  show ?thesis
  proof (cases "n = 64")
    case True
    then show ?thesis using k v assms(1) by (simp add: rd_take_def Let_def take_bit_word_eq_self reader_ok_def)
  next
    case False
    have m: "x AND (push_bit n 1 - 1) = take_bit n x" for x :: u64
      by (simp add: take_bit_eq_mask mask_eq_decr_exp push_bit_eq_mult)
    have s: "(if 64 \<le> rd_bits_left r - int n then 0 else drop_bit k (rd_window r)) = drop_bit k (rd_window r)"
      if "n \<noteq> 0 \<or> k < 64" using that k by auto
    show ?thesis
    proof (cases "n = 0")
      case True
      then show ?thesis using k v m by (simp add: rd_take_def Let_def)
    next
      case False
      then show ?thesis using k v m s \<open>n \<noteq> 64\<close> by (simp add: rd_take_def Let_def)
    qed
  qed
qed

lemma rd_take_fail:
  assumes "reader_ok r" "rd_bits_left r < c" "c \<le> 100"
  shows "rd_take r c = (0, r\<lparr>rd_corrupt := True, rd_bits_left := 0\<rparr>)"
proof -
  have "wrap32 (rd_bits_left r - c) = rd_bits_left r - c" using assms by (intro wrap32_id) (auto simp: reader_ok_def)
  then show ?thesis using assms by (simp add: rd_take_def Let_def)
qed

text \<open>The leading zeros of the window: past its end when all its bits are zero.\<close>

lemma shl64_avail:
  assumes "reader_ok r" "0 < rd_bits_left r"
  shows "map (bit (shl64 (rd_window r) (nat (64 - rd_bits_left r)))) (rev [0..<64])
    = avail r @ replicate (64 - nat (rd_bits_left r)) False"
proof (rule bval_inj)
  define k where "k = nat (rd_bits_left r)"
  have k: "0 < k" "k \<le> 64" "nat (64 - rd_bits_left r) = 64 - k" using assms by (auto simp: reader_ok_def k_def)
  have "unat (push_bit (64 - k) (rd_window r)) = unat (rd_window r) mod 2 ^ k * 2 ^ (64 - k)"
  proof -
    have "unat (push_bit (64 - k) (rd_window r)) = unat (rd_window r) * 2 ^ (64 - k) mod 2 ^ 64"
      by (simp only: unsigned_push_bit_eq) (simp add: take_bit_eq_mod push_bit_eq_mult)
    also have "(2 :: nat) ^ 64 = 2 ^ k * 2 ^ (64 - k)" using k by (simp flip: power_add)
    finally show ?thesis by (simp add: mult_mod_left)
  qed
  then show "bval (map (bit (shl64 (rd_window r) (nat (64 - rd_bits_left r)))) (rev [0..<64]))
    = bval (avail r @ replicate (64 - nat (rd_bits_left r)) False)"
    using k by (simp add: shl64_def bval_word_bits bval_append bval_avail flip: k_def)
qed (use assms in \<open>auto simp: reader_ok_def\<close>)

lemma clz64_avail:
  assumes "reader_ok r" "0 < rd_bits_left r"
  shows "clz64 (shl64 (rd_window r) (nat (64 - rd_bits_left r)))
    = (if True \<in> set (avail r) then int (length (takeWhile Not (avail r))) else 64)"
proof -
  have "(\<forall>x\<in>set (avail r). \<not> x) \<longleftrightarrow> True \<notin> set (avail r)" by (metis (full_types))
  moreover have "nat (rd_bits_left r) + (64 - nat (rd_bits_left r)) = 64" using assms by (auto simp: reader_ok_def)
  ultimately show ?thesis unfolding clz64_def shl64_avail [OF assms]
    by (simp add: takeWhile_append takeWhile_replicate)
qed


lemma rd_zeros_bare_ok:
  assumes "reader_ok r" "True \<in> set (avail r)"
  shows "rd_zeros_bare r = (int (length (takeWhile Not (avail r))),
     r\<lparr>rd_bits_left := rd_bits_left r - int (length (takeWhile Not (avail r)))\<rparr>)"
proof -
  have pos: "0 < rd_bits_left r" using assms(2) by (cases "rd_bits_left r > 0") (auto simp: avail_def)
  have "length (takeWhile Not (avail r)) \<le> nat (rd_bits_left r)" using length_takeWhile_le [of Not "avail r"] by simp
  then show ?thesis using pos assms clz64_avail [OF assms(1) pos]
    by (simp add: rd_zeros_bare_def rd_leading_zeros_def reader_ok_def)
qed

text \<open>A window without a one: the count runs past it, and the \<open>take\<close> that follows finds nothing.\<close>

lemma rd_zeros_bare_none:
  assumes "reader_ok r" "True \<notin> set (avail r)"
  shows "rd_bits_left r < 64 \<Longrightarrow> rd_zeros_bare r = (0, r\<lparr>rd_corrupt := True\<rparr>)"
    "rd_bits_left r = 64 \<Longrightarrow> rd_zeros_bare r = (64, r\<lparr>rd_bits_left := 0\<rparr>)"
  using assms clz64_avail [OF assms(1)]
  by (cases "0 < rd_bits_left r"; simp add: rd_zeros_bare_def rd_leading_zeros_def reader_ok_def)+

lemma reader_ok_corrupt [simp]: "reader_ok (r\<lparr>rd_corrupt := c\<rparr>) = reader_ok r"
  by (simp add: reader_ok_def)

lemma reader_ok_take: "reader_ok r \<Longrightarrow> 0 \<le> c \<Longrightarrow> c \<le> 100 \<Longrightarrow> reader_ok (snd (rd_take r c))"
  using rd_take_ok [of r "nat c"] rd_take_fail [of r c]
  by (cases "rd_bits_left r < c") (auto simp: reader_ok_def)

lemma reader_ok_zeros_bare: "reader_ok r \<Longrightarrow> reader_ok (snd (rd_zeros_bare r))"
  using rd_zeros_bare_ok [of r] rd_zeros_bare_none [of r] length_takeWhile_le [of Not "avail r"]
  by (cases "True \<in> set (avail r)"; cases "rd_bits_left r = 64") (auto simp: reader_ok_def)

lemma zeros_bare_range: "reader_ok r \<Longrightarrow> 0 \<le> fst (rd_zeros_bare r) \<and> fst (rd_zeros_bare r) \<le> 64"
  using rd_zeros_bare_ok [of r] rd_zeros_bare_none [of r] length_takeWhile_le [of Not "avail r"]
  by (cases "True \<in> set (avail r)"; cases "rd_bits_left r = 64") (auto simp: reader_ok_def)

lemma reader_ok_window_at [simp]: "reader_ok (snd (rd_window_at r p)) = reader_ok r"
  by (simp add: rd_window_at_def)

lemma reader_ok_flush: "reader_ok r \<Longrightarrow> reader_ok (rd_flush r)"
  by (simp add: rd_flush_def rd_window_at_def reader_ok_def Let_def)

lemma reader_ok_reload: "reader_ok r \<Longrightarrow> reader_ok (rd_reload r)"
  by (auto simp: rd_reload_def rd_window_at_def reader_ok_def Let_def)

section \<open>Refinement to the list of unread bits\<close>

definition byte_bits :: "u8 \<Rightarrow> bool list" where
  "byte_bits b = map (bit b) (rev [0..<8])"

definition stream_bits :: "u8 list \<Rightarrow> bool list" where
  "stream_bits bs = concat (map byte_bits bs)"

definition unread :: "reader \<Rightarrow> bool list" where
  "unread r = drop (8 * rd_position r + nat (64 - rd_bits_left r)) (stream_bits (rd_buf r))"

text \<open>A sound reader: its window holds the eight bytes at its position.\<close>

definition sound :: "reader \<Rightarrow> bool" where
  "sound r \<longleftrightarrow> reader_ok r \<and> \<not> rd_corrupt r \<and> rd_position r + 8 \<le> length (rd_buf r)
     \<and> rd_window r = word_of_nat (be_val (slice (rd_buf r) (rd_position r) (rd_position r + 8)))"

lemma length_byte_bits [simp]: "length (byte_bits b) = 8"
  by (simp add: byte_bits_def)

lemma stream_bits_simps [simp]:
  "stream_bits [] = []" "stream_bits (b # bs) = byte_bits b @ stream_bits bs"
  "stream_bits (xs @ ys) = stream_bits xs @ stream_bits ys"
  by (simp_all add: stream_bits_def)

lemma length_stream_bits [simp]: "length (stream_bits bs) = 8 * length bs"
  by (induction bs) auto

lemma drop_stream_bits: "drop (8 * n) (stream_bits bs) = stream_bits (drop n bs)"
  by (induction bs arbitrary: n) (auto split: nat.split simp: drop_Cons)

lemma take_stream_bits: "take (8 * n) (stream_bits bs) = stream_bits (take n bs)"
  by (induction bs arbitrary: n) (auto split: nat.split simp: take_Cons)

lemma bval_stream_bits: "bval (stream_bits bs) = be_val bs"
proof (induction bs rule: rev_induct)
  case (snoc b bs)
  have "map (bit b) (rev [0..<8]) = map (bit (unat b)) (rev [0..<8])"
    by (simp add: bit_unsigned_iff fun_eq_iff bit_imp_le_length)
  then have "bval (byte_bits b) = bval (map (bit (unat b)) (rev [0..<8]))" by (simp only: byte_bits_def)
  then have "bval (byte_bits b) = unat b" using bval_bits [of "unat b" 8] by simp
  then show ?case using snoc by (simp add: bval_append be_val_def)
qed (simp add: be_val_def)

lemma window_bits:
  assumes "p + 8 \<le> length bs"
  shows "map (bit (word_of_nat (be_val (slice bs p (p + 8))) :: u64)) (rev [0..<64]) = take 64 (drop (8 * p) (stream_bits bs))"
proof -
  have "take 64 (drop (8 * p) (stream_bits bs)) = stream_bits (slice bs p (p + 8))"
    using take_stream_bits [of 8 "drop p bs"] by (simp add: drop_stream_bits)
  moreover have "length (stream_bits (slice bs p (p + 8))) = 64" using assms by simp
  ultimately show ?thesis using word_of_bval [of "stream_bits (slice bs p (p + 8))"] by (simp add: bval_stream_bits)
qed

lemma sound_avail:
  assumes "sound r"
  shows "avail r = take (nat (rd_bits_left r)) (unread r)" "nat (rd_bits_left r) \<le> length (unread r)"
proof -
  define k where "k = nat (rd_bits_left r)"
  have k: "k \<le> 64" "nat (64 - rd_bits_left r) = 64 - k" using assms by (auto simp: sound_def reader_ok_def k_def)
  have "map (bit (rd_window r)) (rev [0..<64]) = take 64 (drop (8 * rd_position r) (stream_bits (rd_buf r)))"
    using assms window_bits by (auto simp: sound_def)
  then have "drop (64 - k) (map (bit (rd_window r)) (rev [0..<64])) = drop (64 - k) (take 64 (drop (8 * rd_position r) (stream_bits (rd_buf r))))"
    by simp
  then show "avail r = take (nat (rd_bits_left r)) (unread r)"
    using k by (simp add: avail_def unread_def drop_map drop_rev_upt drop_take add.commute flip: k_def)
  show "nat (rd_bits_left r) \<le> length (unread r)" using assms k by (auto simp: unread_def sound_def simp flip: k_def)
qed

lemma sound_advance:
  assumes "sound r" "n \<le> nat (rd_bits_left r)"
  shows "sound (r\<lparr>rd_bits_left := rd_bits_left r - int n\<rparr>)"
    "unread (r\<lparr>rd_bits_left := rd_bits_left r - int n\<rparr>) = drop n (unread r)"
  using assms by (auto simp: sound_def unread_def reader_ok_def nat_diff_distrib' nat_add_distrib algebra_simps intro!: arg_cong2 [of _ _ _ _ drop])


text \<open>Moving the window: the unread bits stay, and the reader stays sound while eight bytes remain.\<close>

lemma flush_unread:
  assumes "sound r"
  shows "unread (rd_flush r) = unread r"
    "rd_corrupt (rd_flush r) \<or> sound (rd_flush r) \<and> 0 < rd_bits_left (rd_flush r)"
    "64 \<le> length (unread r) \<Longrightarrow> \<not> rd_corrupt (rd_flush r)"
  using assms by (auto simp: rd_flush_def rd_window_at_def unread_def sound_def reader_ok_def Let_def algebra_simps)

lemma reload_unread:
  assumes "sound r"
  shows "unread (rd_reload r) = unread r"
    "rd_corrupt (rd_reload r) \<or> sound (rd_reload r) \<and> 32 \<le> rd_bits_left (rd_reload r)"
    "64 \<le> length (unread r) \<Longrightarrow> \<not> rd_corrupt (rd_reload r)"
proof -
  define a where "a = (64 - rd_bits_left r) div 8"
  have b: "0 \<le> rd_bits_left r" "rd_bits_left r \<le> 64" "0 \<le> a" "a * 8 \<le> 64 - rd_bits_left r"
    "64 - rd_bits_left r < a * 8 + 8" "rd_position r + 8 \<le> length (rd_buf r)" "\<not> rd_corrupt r"
    using assms by (auto simp: sound_def reader_ok_def a_def)
  have "8 * rd_position r + nat (64 - rd_bits_left r)
    = 8 * (rd_position r + nat a) + nat (64 - (rd_bits_left r + a * 8))"
    unfolding int_int_eq [symmetric] using b by simp
  then show "unread (rd_reload r) = unread r"
    using b by (simp add: rd_reload_def rd_window_at_def unread_def Let_def add.assoc flip: a_def)
  show "rd_corrupt (rd_reload r) \<or> sound (rd_reload r) \<and> 32 \<le> rd_bits_left (rd_reload r)"
    using b assms by (auto simp: rd_reload_def rd_window_at_def sound_def reader_ok_def Let_def simp flip: a_def)
  assume "64 \<le> length (unread r)"
  then have "rd_position r + nat a + 8 \<le> length (rd_buf r)" using b by (simp add: unread_def)
  then show "\<not> rd_corrupt (rd_reload r)"
    using b by (auto simp: rd_reload_def rd_window_at_def Let_def simp flip: a_def)
qed

lemma sound_take:
  assumes "sound r" "n \<le> nat (rd_bits_left r)" "rd_take r (int n) = (v, r')"
  shows "sound r'" "unread r' = drop n (unread r)" "unat v = bval (take n (unread r))"
proof -
  have ok: "reader_ok r" using assms by (simp add: sound_def)
  have n: "n \<le> 64" using assms by (auto simp: sound_def reader_ok_def)
  have e: "v = word_of_nat (bval (take n (avail r)))" "r' = r\<lparr>rd_bits_left := rd_bits_left r - int n\<rparr>"
    using rd_take_ok [OF ok assms(2)] assms(3) by auto
  show "sound r'" "unread r' = drop n (unread r)" using sound_advance [OF assms(1,2)] e by auto
  have "take n (avail r) = take n (unread r)" using sound_avail [OF assms(1)] assms(2) by (simp add: min_absorb1)
  moreover have "bval (take n (unread r)) < 2 ^ n"
    using bval_less [of "take n (unread r)"] sound_avail(2) [OF assms(1)] assms(2) by (simp add: min_absorb2)
  then have "bval (take n (unread r)) < 2 ^ 64" using n power_increasing [of n 64 "2 :: nat"] by linarith
  ultimately show "unat v = bval (take n (unread r))" using e by (simp add: unat_of_nat)
qed


text \<open>Corruption is never forgotten.\<close>

lemma corrupt_sticky [simp]:
  "rd_corrupt r \<Longrightarrow> rd_corrupt (rd_flush r)"
  "rd_corrupt r \<Longrightarrow> rd_corrupt (snd (rd_take r c))"
  "rd_corrupt r \<Longrightarrow> rd_corrupt (rd_reload r)"
  "rd_corrupt r \<Longrightarrow> rd_corrupt (snd (rd_zeros_bare r))"
  by (simp_all add: rd_flush_def rd_take_def rd_reload_def rd_zeros_bare_def rd_leading_zeros_def
      rd_window_at_def Let_def split: prod.splits)

lemma rd_bits_loop_corrupt: "rd_corrupt r \<Longrightarrow> rd_corrupt (snd (rd_bits_loop m v r))"
proof (induction m v r rule: rd_bits_loop.induct)
  case (1 m v r)
  show ?case
  proof (cases "0 < m \<and> 0 < min m (rd_bits_left r)")
    case True
    obtain b r1 where t: "rd_take r (min m (rd_bits_left r)) = (b, r1)" by fastforce
    then have "rd_corrupt (rd_flush r1)" using "1.prems" corrupt_sticky(2) by (metis corrupt_sticky(1) snd_conv)
    then show ?thesis using "1.IH" True t by (subst rd_bits_loop.simps) (auto simp: Let_def)
  next
    case False
    then show ?thesis using "1.prems" by (subst rd_bits_loop.simps) (auto simp: Let_def)
  qed
qed

text \<open>The loop of \<open>bits\<close> shifts in the next bits, across as many windows as it takes.\<close>

lemma shl_or_bits:
  assumes "bval xs < 2 ^ 64" "length xs + n \<le> 64" "length ys = n"
  shows "(if word_of_nat (bval xs) \<noteq> (0 :: u64) then shl64 (word_of_nat (bval xs)) n else word_of_nat (bval xs))
     OR word_of_nat (bval ys) = (word_of_nat (bval (xs @ ys)) :: u64)"
proof -
  let ?x = "word_of_nat (bval xs) :: u64" and ?y = "word_of_nat (bval ys) :: u64"
  have "shl64 ?x n = push_bit n ?x"
  proof (cases "n = 64")
    case True
    then have "xs = []" using assms by simp
    then show ?thesis using True by (simp add: shl64_def)
  qed (use assms in \<open>auto simp: shl64_def\<close>)
  then have l: "(if ?x \<noteq> 0 then shl64 ?x n else ?x) = push_bit n ?x" by auto
  have "?y = take_bit n ?y"
    using bval_less [of ys] assms by (simp add: take_bit_nat_eq_self flip: of_nat_take_bit)
  moreover have "push_bit n ?x AND take_bit n ?y = 0" by (auto simp: bit_eq_iff bit_simps)
  ultimately have "push_bit n ?x OR ?y = push_bit n ?x + ?y" by (simp add: disjunctive_add_eq_or)
  also have "\<dots> = word_of_nat (bval (xs @ ys))" using assms by (simp add: bval_append push_bit_eq_mult)
  finally show ?thesis using l by simp
qed


lemma rd_bits_loop_exact:
  assumes "sound r" "0 < rd_bits_left r" "length xs + m \<le> 64" "m \<le> length (unread r)"
    "rd_bits_loop (int m) (word_of_nat (bval xs)) r = (v, r')"
  shows "(\<not> rd_corrupt r' \<longrightarrow> sound r' \<and> 0 < rd_bits_left r' \<and> unread r' = drop m (unread r)
      \<and> v = word_of_nat (bval (xs @ take m (unread r))))
    \<and> (m + 64 \<le> length (unread r) \<longrightarrow> \<not> rd_corrupt r')"
  using assms
proof (induction m arbitrary: xs r rule: less_induct)
  case (less m)
  show ?case
  proof (cases "m = 0")
    case True
    then show ?thesis using less.prems by (simp add: rd_bits_loop.simps sound_def)
  next
    case False
    define n where "n = min m (nat (rd_bits_left r))"
    have n: "0 < n" "n \<le> m" "n \<le> nat (rd_bits_left r)" "min (int m) (rd_bits_left r) = int n"
      using False less.prems(2) by (auto simp: n_def)
    obtain b r1 where t: "rd_take r (int n) = (b, r1)" by fastforce
    note s = sound_take [OF less.prems(1) n(3) t]
    let ?ys = "take n (unread r)"
    have len: "length ?ys = n" using n less.prems(4) by simp
    have b: "b = word_of_nat (bval ?ys)" using s(3) by (metis of_nat_unat ucast_id)
    have x64: "bval xs < 2 ^ 64"
      using bval_less [of xs] power_increasing [of "length xs" 64 "2 :: nat"] less.prems(3) by linarith
    define v1 where "v1 = (word_of_nat (bval (xs @ ?ys)) :: u64)"
    have step: "rd_bits_loop (int (m - n)) v1 (rd_flush r1) = (v, r')"
    proof -
      have "rd_bits_loop (int m) (word_of_nat (bval xs)) r
        = rd_bits_loop (int m - int n) ((if word_of_nat (bval xs) \<noteq> (0 :: u64) then shl64 (word_of_nat (bval xs)) n else word_of_nat (bval xs)) OR b) (rd_flush r1)"
        using False n t by (subst rd_bits_loop.simps) (simp add: Let_def)
      also have "\<dots> = rd_bits_loop (int (m - n)) v1 (rd_flush r1)"
        unfolding b v1_def using shl_or_bits [OF x64 _ len] less.prems(3) n by (simp add: of_nat_diff)
      finally show ?thesis using less.prems(5) by simp
    qed
    note f = flush_unread [OF s(1)]
    show ?thesis
    proof (cases "rd_corrupt (rd_flush r1)")
      case True
      then have "rd_corrupt r'" using rd_bits_loop_corrupt [of "rd_flush r1" "int (m - n)" v1] step by simp
      moreover have "\<not> m + 64 \<le> length (unread r)"
      proof
        assume "m + 64 \<le> length (unread r)"
        then have "64 \<le> length (unread r1)" using s(2) n(2) by simp
        then show False using f(3) True by simp
      qed
      ultimately show ?thesis by simp
    next
      case c: False
      then have "sound (rd_flush r1)" "0 < rd_bits_left (rd_flush r1)" using f(2) by auto
      then show ?thesis using less.IH [of "m - n" "rd_flush r1" "xs @ ?ys"] n len step less.prems(3,4) f(1) s(2)
        by (auto simp: v1_def take_drop [symmetric] simp flip: append.assoc take_add)
    qed
  qed
qed


lemma rd_bits_exact:
  assumes "sound r" "0 < rd_bits_left r" "n \<le> 64" "n + 64 \<le> length (unread r)" "rd_bits r (int n) = (v, r')"
  shows "sound r' \<and> 0 < rd_bits_left r' \<and> unread r' = drop n (unread r) \<and> unat v = bval (take n (unread r))"
proof -
  have "rd_bits_loop (int n) (word_of_nat (bval [])) r = (v, r')" using assms(5) by (simp add: rd_bits_def)
  from rd_bits_loop_exact [OF assms(1,2) _ _ this] assms(3,4)
  have *: "sound r' \<and> 0 < rd_bits_left r' \<and> unread r' = drop n (unread r) \<and> v = word_of_nat (bval (take n (unread r)))"
    by simp
  have "bval (take n (unread r)) < 2 ^ n" using bval_less [of "take n (unread r)"] assms(4) by (simp add: min_absorb2)
  then have "bval (take n (unread r)) < 2 ^ 64" using assms(3) power_increasing [of n 64 "2 :: nat"] by linarith
  then show ?thesis using * by (simp add: unat_of_nat)
qed

lemma rd_zeros_exact:
  assumes r: "sound r" "0 < rd_bits_left r" and u: "unread r = replicate z False @ True # rest"
    and z: "z \<le> 64" and rest: "64 \<le> length rest" and res: "rd_zeros r = (c, r')"
  shows "c = int z \<and> sound r' \<and> 0 < rd_bits_left r' \<and> unread r' = True # rest"
proof -
  have ok: "reader_ok r" using r by (simp add: sound_def)
  define k where "k = nat (rd_bits_left r)"
  have k: "rd_bits_left r = int k" "0 < k" "k \<le> 64" using r ok by (auto simp: k_def reader_ok_def)
  have av: "avail r = take k (replicate z False @ True # rest)" using sound_avail(1) [OF r(1)] u k by simp
  have lz: "rd_leading_zeros r = (if True \<in> set (avail r) then int (length (takeWhile Not (avail r))) else 64, r)"
    using clz64_avail [OF ok r(2)] r(2) ok by (simp add: rd_leading_zeros_def reader_ok_def)
  show ?thesis
  proof (cases "z < k")
    case True
    then have a: "avail r = replicate z False @ True # take (k - z - 1) rest" using av by (cases "k - z") auto
    then have "takeWhile Not (avail r) = replicate z False" by (simp add: takeWhile_append)
    then have "(c, r') = (int z, r\<lparr>rd_bits_left := rd_bits_left r - int z\<rparr>)"
      using a lz res True k by (auto simp: rd_zeros_def)
    then show ?thesis using sound_advance [OF r(1), of z] True k u by simp
  next
    case False
    then have a: "avail r = replicate k False" using av by simp
    let ?r0 = "r\<lparr>rd_bits_left := rd_bits_left r - int k\<rparr>"
    have s0: "sound ?r0" "unread ?r0 = replicate (z - k) False @ True # rest"
      using sound_advance [OF r(1), of k] k u False by simp_all
    have r0: "?r0 = r\<lparr>rd_bits_left := 0\<rparr>" using k by simp
    define r1 where "r1 = rd_flush ?r0"
    have r1: "rd_flush (r\<lparr>rd_bits_left := 0\<rparr>) = r1" using r0 by (simp add: r1_def)
    note f = flush_unread [OF s0(1), folded r1_def]
    have s1: "sound r1" "unread r1 = replicate (z - k) False @ True # rest" using f s0 rest by auto
    have b1: "rd_bits_left r1 = 64" using r0 by (simp add: r1_def rd_flush_def rd_window_at_def Let_def)
    have "avail r1 = replicate (z - k) False @ True # take (63 - (z - k)) rest"
      using sound_avail(1) [OF s1(1)] b1 s1(2) z k by (simp add: Suc_diff_le) (simp add: take_Cons')
    moreover have "clz64 (rd_window r1) = int (length (takeWhile Not (avail r1)))"
      using b1 by (simp add: clz64_def avail_def)
    ultimately have e: "clz64 (rd_window r1) = int (z - k)" by (simp add: takeWhile_append)
    have "(c, r') = (int k + int (z - k), r1\<lparr>rd_bits_left := rd_bits_left r1 - int (z - k)\<rparr>)"
      using a lz res k b1 z e by (auto simp: rd_zeros_def Let_def r1 split: if_splits)
    then show ?thesis using sound_advance [OF s1(1), of "z - k"] b1 z k s1(2) False by auto
  qed
qed

text \<open>A loaded stream: its payload, then 512 ones; nothing of an earlier load shows.\<close>

definition stream_ok :: "stream \<Rightarrow> bool" where
  "stream_ok s \<longleftrightarrow> PADDING \<le> st_length s \<and> st_length s \<le> length (st_buffer s)"

lemma byte_bits_FF: "byte_bits 0xFF = replicate 8 True"
  by (simp add: byte_bits_def upt_rec eval_nat_numeral)

lemma stream_bits_padding: "stream_bits (replicate n 0xFF) = replicate (8 * n) True"
  by (induction n) (simp_all add: byte_bits_FF replicate_add [symmetric] add.commute)

lemma stream_new_ok: "stream_ok (stream_new c)"
  by (simp add: stream_ok_def stream_new_def)

lemma stream_load_ok:
  assumes "stream_ok s"
  shows "stream_ok (snd (stream_load a s data))" "st_capacity (snd (stream_load a s data)) = st_capacity s"
    "fst (stream_load a s data) \<longleftrightarrow> length data \<le> st_capacity s \<and> (a \<or> length data + PADDING \<le> length (st_buffer s))"
  using assms by (auto simp: stream_load_def stream_ok_def Let_def)

lemma stream_load_reader:
  assumes "stream_load a s data = (True, s')"
  shows "sound (stream_reader s')" "rd_bits_left (stream_reader s') = 64"
    "unread (stream_reader s') = stream_bits data @ replicate 512 True"
proof -
  have "st_buffer s' = data @ replicate PADDING 0xFF @ drop (length data + PADDING)
      (if length (st_buffer s) < length data + PADDING then st_buffer s @ replicate (length data + PADDING - length (st_buffer s)) 0 else st_buffer s)"
    and l: "st_length s' = length data + PADDING"
    using assms by (auto simp: stream_load_def Let_def split: if_splits)
  then have b: "take (st_length s') (st_buffer s') = data @ replicate PADDING 0xFF" by simp
  show "rd_bits_left (stream_reader s') = 64" by (simp add: stream_reader_def rd_window_at_def Let_def)
  show "sound (stream_reader s')"
    by (simp add: stream_reader_def rd_window_at_def Let_def b sound_def reader_ok_def)
  show "unread (stream_reader s') = stream_bits data @ replicate 512 True"
    using stream_bits_padding [of 64] by (simp add: stream_reader_def rd_window_at_def Let_def b unread_def)
qed

section \<open>Properties\<close>

text \<open>Reading fields of given widths, one after another.\<close>

fun read_fields :: "nat list \<Rightarrow> reader \<Rightarrow> nat list \<times> reader" where
  "read_fields [] r = ([], r)"
| "read_fields (n # ns) r =
     (let (v, r) = rd_bits r (int n); (vs, r) = read_fields ns r in (unat v # vs, r))"

fun cut_fields :: "nat list \<Rightarrow> bool list \<Rightarrow> nat list" where
  "cut_fields [] bs = []"
| "cut_fields (n # ns) bs = bval (take n bs) # cut_fields ns (drop n bs)"

lemma read_fields_exact:
  assumes "sound r" "0 < rd_bits_left r" "list_all (\<lambda>n. n \<le> 64) ns" "sum_list ns + 64 \<le> length (unread r)"
  shows "fst (read_fields ns r) = cut_fields ns (unread r) \<and> \<not> rd_corrupt (snd (read_fields ns r))"
  using assms
proof (induction ns arbitrary: r)
  case (Cons n ns)
  obtain v r1 where b: "rd_bits r (int n) = (v, r1)" by fastforce
  have "sound r1 \<and> 0 < rd_bits_left r1 \<and> unread r1 = drop n (unread r) \<and> unat v = bval (take n (unread r))"
    using Cons.prems by (intro rd_bits_exact [OF _ _ _ _ b]) auto
  moreover from this have "sum_list ns + 64 \<le> length (unread r1)" using Cons.prems(4) by simp
  ultimately show ?case using Cons.IH [of r1] Cons.prems b by (auto split: prod.splits)
qed (simp add: sound_def)

lemma cut_fields_append: "sum_list ns \<le> length xs \<Longrightarrow> cut_fields ns (xs @ ys) = cut_fields ns xs"
  by (induction ns arbitrary: xs) auto

text \<open>C19. The bit reader refines a list of bits. Load any payload that fits the capacity, over any earlier
  contents; then reading fields of up to 64 bits returns, in order, exactly the numbers the
  successive bits of the payload denote, wherever the fields straddle the reader's windows, and never
  reports corruption while the fields are inside the payload. An over-long payload is refused and
  leaves the stream as it was.\<close>

theorem bit_reader_refines:
  assumes "length data \<le> st_capacity s" "list_all (\<lambda>n. n \<le> 64) widths" "sum_list widths \<le> 8 * length data"
  shows "(case stream_load True s data of
            (loaded, s') \<Rightarrow> loaded
              \<and> fst (read_fields widths (stream_reader s')) = cut_fields widths (stream_bits data)
              \<and> \<not> rd_corrupt (snd (read_fields widths (stream_reader s'))))
    \<and> (\<forall>big. st_capacity s < length big \<longrightarrow> stream_load True s big = (False, s))"
proof -
  obtain s' where l: "stream_load True s data = (True, s')"
    using assms(1) by (simp add: stream_load_def Let_def)
  note r = stream_load_reader [OF l]
  have "fst (read_fields widths (stream_reader s')) = cut_fields widths (unread (stream_reader s'))
      \<and> \<not> rd_corrupt (snd (read_fields widths (stream_reader s')))"
    using assms r by (intro read_fields_exact) auto
  then show ?thesis using l r assms(3) by (auto simp: cut_fields_append stream_load_def)
qed

theorem bit_reader_refines_witness:
  "fst (read_fields [4, 4, 60, 2] (stream_reader (snd (stream_load True (stream_new 16) [0xB2, 0, 0, 0, 0, 0, 0, 0, 0x1F]))))
    = cut_fields [4, 4, 60, 2] (stream_bits [0xB2, 0, 0, 0, 0, 0, 0, 0, 0x1F])"
  using bit_reader_refines [of "[0xB2, 0, 0, 0, 0, 0, 0, 0, 0x1F]" "stream_new 16" "[4, 4, 60, 2]"]
  by (simp add: stream_new_def split: prod.splits)

text \<open>The code of the terms: as many zeros as the width of the number exceeds two, then the number.\<close>

definition golomb :: "nat \<Rightarrow> nat \<Rightarrow> bool list" where
  "golomb z v = replicate z False @ map (bit v) (rev [0..<z + 2])"

lemma golomb_True:
  assumes "2 ^ Suc z \<le> v" "v < 2 ^ (z + 2)"
  shows "golomb z v = replicate z False @ True # map (bit v) (rev [0..<Suc z])"
proof -
  have "v div 2 ^ Suc z = 1"
    using assms by (intro div_nat_eqI) auto
  then have "bit v (Suc z)" by (simp only: bit_iff_odd) simp
  then show ?thesis by (simp add: golomb_def)
qed

text \<open>An Exp-Golomb code reads back: from a reader whose unread bits start with the code of \<open>v\<close>, the
  zeros and then that many bits and two more return \<open>v\<close>, consume exactly the code, and leave the
  reader sound, across any window boundary.\<close>

lemma golomb_roundtrip:
  assumes "sound r" "0 < rd_bits_left r" "z \<le> 62" "2 ^ Suc z \<le> v" "v < 2 ^ (z + 2)"
    "unread r = golomb z v @ rest" "64 \<le> length rest"
  shows "case rd_zeros r of
           (c, r1) \<Rightarrow> c = int z \<and> (case rd_bits r1 (c + 2) of (w, r2) \<Rightarrow> unat w = v \<and> sound r2 \<and> unread r2 = rest)"
proof -
  have u: "unread r = replicate z False @ True # (map (bit v) (rev [0..<Suc z]) @ rest)"
    using assms(6) golomb_True [OF assms(4,5)] by simp
  obtain c r1 where z1: "rd_zeros r = (c, r1)" by fastforce
  have r1: "c = int z \<and> sound r1 \<and> 0 < rd_bits_left r1 \<and> unread r1 = map (bit v) (rev [0..<z + 2]) @ rest"
    using rd_zeros_exact [OF assms(1,2) u _ _ z1] assms(3,7) golomb_True [OF assms(4,5)]
    by (simp add: golomb_def)
  obtain w r2 where b: "rd_bits r1 (int (z + 2)) = (w, r2)" by fastforce
  have "sound r2 \<and> unread r2 = rest \<and> unat w = bval (map (bit v) (rev [0..<z + 2]))"
    using rd_bits_exact [OF _ _ _ _ b] r1 assms(3,7) by simp
  then show ?thesis using z1 b r1 assms(5) bval_bits [of v "z + 2"] by (simp add: add.commute)
qed

end
