(* ===== verification/Vmx_Tables.thy ===== *)
theory Vmx_Tables
  imports Prelude
begin

text \<open>
  \<^verbatim>\<open>crates/omt-vmx/src/tables.rs\<close>: the constants of the VMX codec, with the facts the decoder
  relies on when it indexes with them: the zig-zag order is a permutation of the block, the row
  counts bound every row a coefficient can be in, and no scaled quantisation step is truncated. An
  unsigned table that is only indexed with is a list of \<open>nat\<close>, a table of signed factors of
  \<open>int\<close>.
\<close>

abbreviation SLICE_HEIGHT :: nat where "SLICE_HEIGHT \<equiv> 16"
abbreviation QUALITY_COUNT :: nat where "QUALITY_COUNT \<equiv> 25"
abbreviation SHIFT_INV_ROW :: nat where "SHIFT_INV_ROW \<equiv> 11"
abbreviation SHIFT_INV_COL :: nat where "SHIFT_INV_COL \<equiv> 6"
abbreviation IRND_INV_ROW :: int where "IRND_INV_ROW \<equiv> 1024"
abbreviation IRND_INV_COL :: int where "IRND_INV_COL \<equiv> 32"
abbreviation IRND_INV_CORR :: int where "IRND_INV_CORR \<equiv> 31"
abbreviation TG_1_16 :: int where "TG_1_16 \<equiv> 13036"
abbreviation TG_2_16 :: int where "TG_2_16 \<equiv> 27146"
abbreviation TG_3_16 :: int where "TG_3_16 \<equiv> - 21746"
abbreviation COS_4_16 :: int where "COS_4_16 \<equiv> - 19195"

definition QUANTIZATION_MATRIX :: "int list" where
  "QUANTIZATION_MATRIX =
    [16, 16, 19, 22, 26, 27, 29, 34, 16, 16, 22, 24, 27, 29, 34, 37, 19, 22, 26, 27, 29, 34, 34, 38, 22, 
     22, 26, 27, 29, 34, 37, 40, 22, 26, 27, 29, 32, 35, 40, 48, 26, 27, 29, 32, 35, 40, 48, 58, 26, 27, 
     29, 34, 38, 46, 56, 69, 27, 29, 35, 38, 46, 56, 69, 83]"

definition QUALITY :: "int list" where
  "QUALITY =
    [1, 2, 3, 4, 5, 6, 7, 8, 10, 12, 14, 16, 18, 20, 22, 24, 28, 32, 36, 40, 44, 48, 52, 56, 64]"

definition YUV_RGB_709 :: "int list" where
  "YUV_RGB_709 =
    [19077, 29372, 3494, 8731, 17305]"

definition YUV_RGB_601 :: "int list" where
  "YUV_RGB_601 =
    [19077, 26149, 6419, 13320, 16525]"

definition ZIGZAG_NATURAL :: "nat list" where
  "ZIGZAG_NATURAL =
    [0, 1, 8, 16, 9, 2, 3, 10, 17, 24, 32, 25, 18, 11, 4, 5, 12, 19, 26, 33, 40, 48, 41, 34, 27, 20, 13, 
     6, 7, 14, 21, 28, 35, 42, 49, 56, 57, 50, 43, 36, 29, 22, 15, 23, 30, 37, 44, 51, 58, 59, 52, 45, 
     38, 31, 39, 46, 53, 60, 61, 54, 47, 55, 62, 63]"

definition ROWS_USED :: "nat list" where
  "ROWS_USED =
    [1, 1, 2, 3, 3, 3, 3, 3, 3, 4, 5, 5, 5, 5, 5, 5, 5, 5, 5, 5, 6, 7, 7, 7, 7, 7, 7, 7, 7, 7, 7, 7, 7, 
     7, 7, 8, 8, 8, 8, 8, 8, 8, 8, 8, 8, 8, 8, 8, 8, 8, 8, 8, 8, 8, 8, 8, 8, 8, 8, 8, 8, 8, 8, 8]"

definition TAB_I_04 :: "int list" where
  "TAB_I_04 =
    [16384, 21407, 16384, 8867, 16384, - 8867, 16384, - 21407, 16384, 8867, - 16384, - 21407, - 16384, 
     21407, 16384, - 8867, 22725, 19266, 19266, - 4520, 12873, - 22725, 4520, - 12873, 12873, 4520, 
     - 22725, - 12873, 4520, 19266, 19266, - 22725]"

definition TAB_I_17 :: "int list" where
  "TAB_I_17 =
    [22725, 29692, 22725, 12299, 22725, - 12299, 22725, - 29692, 22725, 12299, - 22725, - 29692, 
     - 22725, 29692, 22725, - 12299, 31521, 26722, 26722, - 6270, 17855, - 31521, 6270, - 17855, 17855, 
     6270, - 31521, - 17855, 6270, 26722, 26722, - 31521]"

definition TAB_I_26 :: "int list" where
  "TAB_I_26 =
    [21407, 27969, 21407, 11585, 21407, - 11585, 21407, - 27969, 21407, 11585, - 21407, - 27969, 
     - 21407, 27969, 21407, - 11585, 29692, 25172, 25172, - 5906, 16819, - 29692, 5906, - 16819, 16819, 
     5906, - 29692, - 16819, 5906, 25172, 25172, - 29692]"

definition TAB_I_35 :: "int list" where
  "TAB_I_35 =
    [19266, 25172, 19266, 10426, 19266, - 10426, 19266, - 25172, 19266, 10426, - 19266, - 25172, 
     - 19266, 25172, 19266, - 10426, 26722, 22654, 22654, - 5315, 15137, - 26722, 5315, - 15137, 15137, 
     5315, - 26722, - 15137, 5315, 22654, 22654, - 26722]"

definition decode_matrix :: "nat \<Rightarrow> int list" where
  "decode_matrix index =
     (let scale = QUALITY ! min index (QUALITY_COUNT - 1)
      in take 1 QUANTIZATION_MATRIX @ map (\<lambda>v. v * scale mod 65536) (drop 1 QUANTIZATION_MATRIX))"

definition quality_index :: "int \<Rightarrow> nat" where
  "quality_index quality =
     (case position (\<lambda>q. 100 - quality \<le> q) QUALITY of Some i \<Rightarrow> i | None \<Rightarrow> 0)"


section \<open>What the decoder relies on\<close>

lemma table_lengths [simp]:
  "length QUANTIZATION_MATRIX = 64" "length QUALITY = QUALITY_COUNT" "length ZIGZAG_NATURAL = 64"
  "length ROWS_USED = 64" "length YUV_RGB_709 = 5" "length YUV_RGB_601 = 5"
  "length TAB_I_04 = 32" "length TAB_I_17 = 32" "length TAB_I_26 = 32" "length TAB_I_35 = 32"
  by (simp_all add: QUANTIZATION_MATRIX_def QUALITY_def ZIGZAG_NATURAL_def ROWS_USED_def YUV_RGB_709_def
      YUV_RGB_601_def TAB_I_04_def TAB_I_17_def TAB_I_26_def TAB_I_35_def)

lemma length_decode_matrix [simp]: "length (decode_matrix i) = 64"
  by (simp add: decode_matrix_def Let_def)

lemma zigzag_set: "set ZIGZAG_NATURAL = {..<64}"
proof
  show "set ZIGZAG_NATURAL \<subseteq> {..<64}" by (simp add: ZIGZAG_NATURAL_def)
  have "list_all (\<lambda>i. i \<in> set ZIGZAG_NATURAL) [0..<64]" by code_simp
  then show "{..<64} \<subseteq> set ZIGZAG_NATURAL" by (auto simp: list_all_iff)
qed

lemma zigzag_distinct: "distinct ZIGZAG_NATURAL"
  by (simp add: ZIGZAG_NATURAL_def)

lemma zigzag_less [simp]: "p < 64 \<Longrightarrow> ZIGZAG_NATURAL ! p < 64"
  using zigzag_set nth_mem [of p ZIGZAG_NATURAL] by auto

lemma zigzag_inj: "p < 64 \<Longrightarrow> q < 64 \<Longrightarrow> ZIGZAG_NATURAL ! p = ZIGZAG_NATURAL ! q \<longleftrightarrow> p = q"
  using zigzag_distinct nth_eq_iff_index_eq by fastforce

text \<open>Every coefficient written up to zig-zag position \<open>p\<close> is in the first \<open>ROWS_USED ! p\<close> rows.\<close>

lemma rows_used_bound: "p < 64 \<Longrightarrow> q \<le> p \<Longrightarrow> ZIGZAG_NATURAL ! q < 8 * ROWS_USED ! p"
proof -
  have "list_all (\<lambda>p. list_all (\<lambda>q. ZIGZAG_NATURAL ! q < 8 * ROWS_USED ! p) [0..<Suc p]) [0..<64]" by code_simp
  then show "p < 64 \<Longrightarrow> q \<le> p \<Longrightarrow> ZIGZAG_NATURAL ! q < 8 * ROWS_USED ! p"
    by (cases "q = p") (auto simp: list_all_iff)
qed

lemma rows_used_range: "p < 64 \<Longrightarrow> 1 \<le> ROWS_USED ! p \<and> ROWS_USED ! p \<le> 8"
proof -
  have "list_all (\<lambda>r. 1 \<le> r \<and> r \<le> 8) ROWS_USED" by code_simp
  then show "p < 64 \<Longrightarrow> 1 \<le> ROWS_USED ! p \<and> ROWS_USED ! p \<le> 8" by (simp add: list_all_length)
qed

text \<open>No scaled step is truncated: the largest is 83 times 64.\<close>

lemma quality_range: "i < QUALITY_COUNT \<Longrightarrow> 1 \<le> QUALITY ! i \<and> QUALITY ! i \<le> 64"
proof -
  have "list_all (\<lambda>q. 1 \<le> q \<and> q \<le> 64) QUALITY" by code_simp
  then show "i < QUALITY_COUNT \<Longrightarrow> 1 \<le> QUALITY ! i \<and> QUALITY ! i \<le> 64" by (simp add: list_all_length)
qed

lemma matrix_range: "v \<in> set QUANTIZATION_MATRIX \<Longrightarrow> 16 \<le> v \<and> v \<le> 83"
  by (auto simp: QUANTIZATION_MATRIX_def)

lemma decode_matrix_exact:
  "decode_matrix i = take 1 QUANTIZATION_MATRIX @ map (\<lambda>v. v * QUALITY ! min i (QUALITY_COUNT - 1)) (drop 1 QUANTIZATION_MATRIX)"
proof -
  have "v * QUALITY ! min i 24 mod 65536 = v * QUALITY ! min i 24" if "v \<in> set (drop 1 QUANTIZATION_MATRIX)" for v
  proof -
    have v: "16 \<le> v \<and> v \<le> 83" by (rule matrix_range) (meson in_set_dropD that)
    have q: "1 \<le> QUALITY ! min i 24 \<and> QUALITY ! min i 24 \<le> 64" using quality_range [of "min i 24"] by simp
    have "v * QUALITY ! min i 24 \<le> 83 * 64" using v q by (intro mult_mono) auto
    moreover have "0 \<le> v * QUALITY ! min i 24" using v q by simp
    ultimately show ?thesis by (intro mod_pos_pos_trivial) auto
  qed
  then show ?thesis by (simp add: decode_matrix_def Let_def)
qed

lemma quality_index_less: "quality_index q < QUALITY_COUNT"
  by (auto simp: quality_index_def position_Some split: option.split)

end
