(* ===== verification/Vmx_Idct.thy ===== *)
theory Vmx_Idct
  imports Vmx_Tables
begin

text \<open>
  \<^verbatim>\<open>crates/omt-vmx/src/idct.rs\<close> and \<^verbatim>\<open>crates/omt-vmx/src/idct_sse2.rs\<close>: the inverse transform, the
  portable kernel and the x86-64 one. An \<open>i16\<close> lane is an \<open>int\<close>, with every wrap, saturation and
  shift of the source written out; a vector is the list of its eight lanes. An SSE2 register is the
  list of its eight 16-bit lanes, and an instruction on 32-bit lanes reads and writes them in pairs,
  low half first. A store outside the destination panics, which is \<open>None\<close>.
\<close>

section \<open>Lanes\<close>

definition sat16 :: "int \<Rightarrow> int" where
  "sat16 v = clamp (- 32768) 32767 v"

definition sat8 :: "int \<Rightarrow> u8" where
  "sat8 v = word_of_int (clamp 0 255 v)"

text \<open>\<open>i16::saturating_add\<close> and \<open>i16::saturating_sub\<close>.\<close>

definition sadd16 :: "int \<Rightarrow> int \<Rightarrow> int" where
  [std_defs]: "sadd16 a b = clamp (- 32768) 32767 (a + b)"

definition ssub16 :: "int \<Rightarrow> int \<Rightarrow> int" where
  [std_defs]: "ssub16 a b = clamp (- 32768) 32767 (a - b)"

definition map2v :: "int list \<Rightarrow> int list \<Rightarrow> (int \<Rightarrow> int \<Rightarrow> int) \<Rightarrow> int list" where
  "map2v a b f = map (\<lambda>lane. f (a ! lane) (b ! lane)) [0..<8]"

definition map1v :: "int list \<Rightarrow> (int \<Rightarrow> int) \<Rightarrow> int list" where
  "map1v a f = map (\<lambda>lane. f (a ! lane)) [0..<8]"

definition mulhi :: "int \<Rightarrow> int \<Rightarrow> int" where
  "mulhi a b = wrap16 (a * b div 65536)"

definition adds :: "int list \<Rightarrow> int list \<Rightarrow> int list" where
  "adds a b = map2v a b sadd16"

definition subs :: "int list \<Rightarrow> int list \<Rightarrow> int list" where
  "subs a b = map2v a b ssub16"

definition mulhi_by :: "int list \<Rightarrow> int \<Rightarrow> int list" where
  "mulhi_by a scale = map1v a (\<lambda>x. mulhi x scale)"

definition adds_constant :: "int list \<Rightarrow> int \<Rightarrow> int list" where
  "adds_constant a v = map1v a (\<lambda>x. sadd16 x v)"

definition shift_right :: "int list \<Rightarrow> int list" where
  "shift_right a = map1v a (\<lambda>x. x div 2 ^ SHIFT_INV_COL)"

definition or_correction :: "int list \<Rightarrow> int list" where
  "or_correction a = map1v a (\<lambda>x. x OR 1)"

definition store_row :: "u8 list \<Rightarrow> nat \<Rightarrow> int list \<Rightarrow> u8 list option" where
  "store_row dst pos v =
     (if pos + 8 \<le> length dst
      then Some (take pos dst @ map (\<lambda>lane. sat8 (v ! lane)) [0..<8] @ drop (pos + 8) dst) else None)"

section \<open>The portable kernel\<close>

definition product :: "int \<Rightarrow> int \<Rightarrow> int \<Rightarrow> int \<Rightarrow> int" where
  "product first first_scale second second_scale = wrap32 (first * first_scale + second * second_scale)"

text \<open>The sum and the difference of output pair \<open>index\<close>; the differences go to the mirrored places.\<close>

definition row_sums :: "int list \<Rightarrow> int list \<Rightarrow> nat \<Rightarrow> int \<times> int" where
  "row_sums x tab index =
     (let pair = index * 2;
          t0 = product (x ! 0) (tab ! pair) (x ! 2) (tab ! (pair + 1));
          t2 = product (x ! 4) (tab ! (8 + pair)) (x ! 6) (tab ! (9 + pair));
          t1 = product (x ! 1) (tab ! (16 + pair)) (x ! 3) (tab ! (17 + pair));
          t3 = product (x ! 5) (tab ! (24 + pair)) (x ! 7) (tab ! (25 + pair));
          even = wrap32 (wrap32 (t0 + IRND_INV_ROW) + t2);
          odd = wrap32 (t3 + t1)
      in (sat16 (wrap32 (odd + even) div 2 ^ SHIFT_INV_ROW), sat16 (wrap32 (even - odd) div 2 ^ SHIFT_INV_ROW)))"

definition row_pass :: "int list \<Rightarrow> int list \<Rightarrow> int list" where
  "row_pass x tab =
     map (\<lambda>index. fst (row_sums x tab index)) [0, 1, 2, 3] @ map (\<lambda>index. snd (row_sums x tab index)) [3, 2, 1, 0]"

text \<open>The rows the column butterfly stores, in the order it stores them.\<close>

definition column_pass :: "int list list \<Rightarrow> int list \<Rightarrow> (nat \<times> int list) list" where
  "column_pass rows bias =
     (let row0 = rows ! 0; row1 = rows ! 1; row2 = rows ! 2; row3 = rows ! 3;
          row4 = rows ! 4; row5 = rows ! 5; row6 = rows ! 6; row7 = rows ! 7;
          r2 = row5; r3 = row3; r0 = mulhi_by row5 TG_3_16; r1 = mulhi_by r3 TG_3_16;
          r4 = mulhi_by row7 TG_1_16; r0 = adds r0 r2; r5 = mulhi_by row1 TG_1_16; r1 = adds r1 r3;
          r7 = row6; r0 = adds r0 r3; r2 = subs r2 r1; r7 = mulhi_by r7 TG_2_16; r1 = r0;
          r3 = mulhi_by row2 TG_2_16; r5 = subs r5 row7; r4 = adds r4 row1; r0 = adds r0 r4;
          r0 = adds_constant r0 1; r4 = subs r4 r1; r6 = r5; r5 = subs r5 r2; r5 = adds_constant r5 1;
          r6 = adds r6 r2; temp7 = r0; r1 = r4; r4 = adds r4 r5; r2 = mulhi_by r4 COS_4_16; temp3 = r6;
          r1 = subs r1 r5; r7 = adds r7 row2; r3 = subs r3 row6; r6 = row0; r0 = mulhi_by r1 COS_4_16;
          r5 = row4; r5 = adds r5 r6; r6 = subs r6 row4; r4 = adds r4 r2; r4 = or_correction r4;
          r0 = adds r0 r1; r0 = or_correction r0; r2 = r5; r5 = adds r5 r7; r1 = r6;
          r5 = adds_constant r5 IRND_INV_COL; r2 = subs r2 r7; r7 = temp7; r6 = adds r6 r3;
          r6 = adds_constant r6 IRND_INV_COL; r7 = adds r7 r5; r7 = shift_right r7; r1 = subs r1 r3;
          r1 = adds_constant r1 IRND_INV_CORR; r3 = r6; r2 = adds_constant r2 IRND_INV_CORR;
          r6 = adds r6 r4; r7 = adds r7 bias; s0 = r7; r6 = shift_right r6; r6 = adds r6 bias; s1 = r6;
          r7 = r1; r1 = adds (shift_right (adds r1 r0)) bias; s2 = r1; r6 = temp3;
          r7 = shift_right (subs r7 r0); r5 = adds (shift_right (subs r5 temp7)) bias; s7 = r5;
          r3 = subs r3 r4; r6 = adds r6 r2; r2 = subs r2 temp3; r6 = shift_right r6; r2 = shift_right r2;
          r6 = adds r6 bias; s3 = r6; r3 = shift_right r3; r2 = adds r2 bias; s4 = r2; r7 = adds r7 bias;
          s5 = r7; r3 = adds r3 bias; s6 = r3
      in [(0, s0), (1, s1), (2, s2), (7, s7), (3, s3), (4, s4), (5, s5), (6, s6)])"

fun store_rows :: "u8 list \<Rightarrow> nat \<Rightarrow> (nat \<times> int list) list \<Rightarrow> u8 list option" where
  "store_rows dst stride [] = Some dst"
| "store_rows dst stride ((k, v) # rest) =
     Option.bind (store_row dst (k * stride) v) (\<lambda>dst. store_rows dst stride rest)"

definition dequantise :: "int list \<Rightarrow> int list \<Rightarrow> int list list" where
  "dequantise block matrix =
     map (\<lambda>r. map (\<lambda>c. wrap16 (block ! (8 * r + c) * wrap16 (matrix ! (8 * r + c))) div 16) [0..<8]) [0..<8]"

definition idct_scalar :: "int list \<Rightarrow> int list \<Rightarrow> u8 list \<Rightarrow> nat \<Rightarrow> int \<Rightarrow> u8 list option" where
  "idct_scalar block matrix dst stride add_value =
     (let rows = dequantise block matrix;
          transformed =
            [row_pass (rows ! 0) TAB_I_04, row_pass (rows ! 1) TAB_I_17, row_pass (rows ! 2) TAB_I_26,
             row_pass (rows ! 3) TAB_I_35, row_pass (rows ! 4) TAB_I_04, row_pass (rows ! 5) TAB_I_35,
             row_pass (rows ! 6) TAB_I_26, row_pass (rows ! 7) TAB_I_17]
      in store_rows dst stride (column_pass transformed (replicate 8 add_value)))"

text \<open>A block that carries only DC. The destination is asserted to hold it.\<close>

fun store_flat :: "u8 list \<Rightarrow> nat \<Rightarrow> u8 list \<Rightarrow> nat list \<Rightarrow> u8 list" where
  "store_flat dst stride bytes [] = dst"
| "store_flat dst stride bytes (row # rest) =
     store_flat (take (row * stride) dst @ bytes @ drop (row * stride + 8) dst) stride bytes rest"

definition broadcast_dc :: "int \<Rightarrow> u8 list \<Rightarrow> nat \<Rightarrow> int \<Rightarrow> u8 list option" where
  "broadcast_dc dc dst stride add_value =
     (let level = wrap16 (wrap16 (dc + 4) div 8 + add_value);
          row_bytes = replicate 8 (sat8 level)
      in if 8 \<le> stride \<and> 7 * stride + 8 \<le> length dst
         then Some (store_flat dst stride row_bytes [0..<8]) else None)"

section \<open>The SSE2 kernel\<close>

text \<open>The intrinsics the kernel calls, over the eight 16-bit lanes of a register.\<close>

definition lanes32 :: "int list \<Rightarrow> int list" where
  [std_defs]: "lanes32 v = map (\<lambda>i. wrap32 (v ! (2 * i) mod 65536 + v ! (2 * i + 1) * 65536)) [0, 1, 2, 3]"

definition of_lanes32 :: "int list \<Rightarrow> int list" where
  [std_defs]: "of_lanes32 w = concat (map (\<lambda>i. [wrap16 (w ! i), wrap16 (w ! i div 65536)]) [0, 1, 2, 3])"

definition mm_set1_epi16 :: "int \<Rightarrow> int list" where
  [std_defs]: "mm_set1_epi16 c = map (\<lambda>_. c) [0..<8]"

definition mm_set1_epi32 :: "int \<Rightarrow> int list" where
  [std_defs]: "mm_set1_epi32 c = of_lanes32 [c, c, c, c]"

definition mm_adds_epi16 :: "int list \<Rightarrow> int list \<Rightarrow> int list" where
  [std_defs]: "mm_adds_epi16 a b = map (\<lambda>i. sadd16 (a ! i) (b ! i)) [0..<8]"

definition mm_subs_epi16 :: "int list \<Rightarrow> int list \<Rightarrow> int list" where
  [std_defs]: "mm_subs_epi16 a b = map (\<lambda>i. ssub16 (a ! i) (b ! i)) [0..<8]"

definition mm_mulhi_epi16 :: "int list \<Rightarrow> int list \<Rightarrow> int list" where
  [std_defs]: "mm_mulhi_epi16 a b = map (\<lambda>i. wrap16 (a ! i * b ! i div 65536)) [0..<8]"

definition mm_mullo_epi16 :: "int list \<Rightarrow> int list \<Rightarrow> int list" where
  [std_defs]: "mm_mullo_epi16 a b = map (\<lambda>i. wrap16 (a ! i * b ! i)) [0..<8]"

definition mm_or_si128 :: "int list \<Rightarrow> int list \<Rightarrow> int list" where
  [std_defs]: "mm_or_si128 a b = map (\<lambda>i. a ! i OR b ! i) [0..<8]"

definition mm_srai_epi16 :: "nat \<Rightarrow> int list \<Rightarrow> int list" where
  [std_defs]: "mm_srai_epi16 n a = map (\<lambda>i. a ! i div 2 ^ n) [0..<8]"

definition mm_madd_epi16 :: "int list \<Rightarrow> int list \<Rightarrow> int list" where
  [std_defs]: "mm_madd_epi16 a b =
     of_lanes32 (map (\<lambda>i. wrap32 (a ! (2 * i) * b ! (2 * i) + a ! (2 * i + 1) * b ! (2 * i + 1))) [0, 1, 2, 3])"

definition mm_add_epi32 :: "int list \<Rightarrow> int list \<Rightarrow> int list" where
  [std_defs]: "mm_add_epi32 a b = of_lanes32 (map (\<lambda>i. wrap32 (lanes32 a ! i + lanes32 b ! i)) [0, 1, 2, 3])"

definition mm_sub_epi32 :: "int list \<Rightarrow> int list \<Rightarrow> int list" where
  [std_defs]: "mm_sub_epi32 a b = of_lanes32 (map (\<lambda>i. wrap32 (lanes32 a ! i - lanes32 b ! i)) [0, 1, 2, 3])"

definition mm_srai_epi32 :: "nat \<Rightarrow> int list \<Rightarrow> int list" where
  [std_defs]: "mm_srai_epi32 n a = of_lanes32 (map (\<lambda>i. lanes32 a ! i div 2 ^ n) [0, 1, 2, 3])"

definition mm_shuffle_epi32_1B :: "int list \<Rightarrow> int list" where
  [std_defs]: "mm_shuffle_epi32_1B a = of_lanes32 (map (\<lambda>i. lanes32 a ! i) [3, 2, 1, 0])"

definition mm_packs_epi32 :: "int list \<Rightarrow> int list \<Rightarrow> int list" where
  [std_defs]: "mm_packs_epi32 a b = map (clamp (- 32768) 32767) (lanes32 a @ lanes32 b)"

definition mm_packus_epi16 :: "int list \<Rightarrow> int list \<Rightarrow> u8 list" where
  [std_defs]: "mm_packus_epi16 a b = map (\<lambda>i. word_of_int (clamp 0 255 (a ! i))) [0..<8] @ map (\<lambda>i. word_of_int (clamp 0 255 (b ! i))) [0..<8]"

definition sse_row :: "int list \<Rightarrow> nat \<Rightarrow> int list" where
  "sse_row block index = slice block (index * 8) (index * 8 + 8)"

definition sse_table :: "int list \<Rightarrow> nat \<Rightarrow> int list" where
  "sse_table tab part = slice tab (part * 8) (part * 8 + 8)"

definition sse_pair :: "int \<Rightarrow> int \<Rightarrow> int list" where
  "sse_pair a b = mm_set1_epi32 (wrap32 (a mod 65536 OR push_bit 16 (b mod 65536)))"

definition sse_row_pass :: "int list \<Rightarrow> int list \<Rightarrow> int list" where
  "sse_row_pass x tab =
     (let t0 = mm_madd_epi16 (sse_pair (x ! 0) (x ! 2)) (sse_table tab 0);
          t2 = mm_madd_epi16 (sse_pair (x ! 4) (x ! 6)) (sse_table tab 1);
          t1 = mm_madd_epi16 (sse_pair (x ! 1) (x ! 3)) (sse_table tab 2);
          t3 = mm_madd_epi16 (sse_pair (x ! 5) (x ! 7)) (sse_table tab 3);
          even = mm_add_epi32 (mm_add_epi32 t0 (mm_set1_epi32 IRND_INV_ROW)) t2;
          odd = mm_add_epi32 t3 t1;
          sums = mm_srai_epi32 11 (mm_add_epi32 odd even);
          differences = mm_srai_epi32 11 (mm_sub_epi32 even odd)
      in mm_packs_epi32 sums (mm_shuffle_epi32_1B differences))"

definition sse_store :: "u8 list \<Rightarrow> nat \<Rightarrow> int list \<Rightarrow> u8 list option" where
  "sse_store dst pos v =
     (let bytes = mm_packus_epi16 v (replicate 8 0)
      in if pos + 8 \<le> length dst then Some (take pos dst @ take 8 bytes @ drop (pos + 8) dst) else None)"

definition sse_shift :: "int list \<Rightarrow> int list" where
  "sse_shift v = mm_srai_epi16 6 v"

definition sse_mulhi :: "int list \<Rightarrow> int \<Rightarrow> int list" where
  "sse_mulhi a c = mm_mulhi_epi16 a (mm_set1_epi16 c)"

definition sse_adds :: "int list \<Rightarrow> int list \<Rightarrow> int list" where
  "sse_adds a b = mm_adds_epi16 a b"

definition sse_subs :: "int list \<Rightarrow> int list \<Rightarrow> int list" where
  "sse_subs a b = mm_subs_epi16 a b"

definition sse_addc :: "int list \<Rightarrow> int \<Rightarrow> int list" where
  "sse_addc a c = mm_adds_epi16 a (mm_set1_epi16 c)"

definition sse_corr :: "int list \<Rightarrow> int list" where
  "sse_corr a = mm_or_si128 a (mm_set1_epi16 1)"

definition sse_column_pass :: "int list list \<Rightarrow> int list \<Rightarrow> (nat \<times> int list) list" where
  "sse_column_pass rows bias =
     (let row0 = rows ! 0; row1 = rows ! 1; row2 = rows ! 2; row3 = rows ! 3;
          row4 = rows ! 4; row5 = rows ! 5; row6 = rows ! 6; row7 = rows ! 7;
          r2 = row5; r3 = row3; r0 = sse_mulhi row5 TG_3_16; r1 = sse_mulhi r3 TG_3_16;
          r4 = sse_mulhi row7 TG_1_16; r0 = sse_adds r0 r2; r5 = sse_mulhi row1 TG_1_16;
          r1 = sse_adds r1 r3; r7 = row6; r0 = sse_adds r0 r3; r2 = sse_subs r2 r1;
          r7 = sse_mulhi r7 TG_2_16; r1 = r0; r3 = sse_mulhi row2 TG_2_16; r5 = sse_subs r5 row7;
          r4 = sse_adds r4 row1; r0 = sse_adds r0 r4; r0 = sse_addc r0 1; r4 = sse_subs r4 r1; r6 = r5;
          r5 = sse_subs r5 r2; r5 = sse_addc r5 1; r6 = sse_adds r6 r2; temp7 = r0; r1 = r4;
          r4 = sse_adds r4 r5; r2 = sse_mulhi r4 COS_4_16; temp3 = r6; r1 = sse_subs r1 r5;
          r7 = sse_adds r7 row2; r3 = sse_subs r3 row6; r6 = row0; r0 = sse_mulhi r1 COS_4_16; r5 = row4;
          r5 = sse_adds r5 r6; r6 = sse_subs r6 row4; r4 = sse_adds r4 r2; r4 = sse_corr r4;
          r0 = sse_adds r0 r1; r0 = sse_corr r0; r2 = r5; r5 = sse_adds r5 r7; r1 = r6;
          r5 = sse_addc r5 IRND_INV_COL; r2 = sse_subs r2 r7; r7 = temp7; r6 = sse_adds r6 r3;
          r6 = sse_addc r6 IRND_INV_COL; r7 = sse_adds r7 r5; r7 = sse_shift r7; r1 = sse_subs r1 r3;
          r1 = sse_addc r1 IRND_INV_CORR; r3 = r6; r2 = sse_addc r2 IRND_INV_CORR; r6 = sse_adds r6 r4;
          r7 = sse_adds r7 bias; s0 = r7; r6 = sse_shift r6; r6 = sse_adds r6 bias; s1 = r6; r7 = r1;
          r1 = sse_adds (sse_shift (sse_adds r1 r0)) bias; s2 = r1; r6 = temp3;
          r7 = sse_shift (sse_subs r7 r0); r5 = sse_adds (sse_shift (sse_subs r5 temp7)) bias; s7 = r5;
          r3 = sse_subs r3 r4; r6 = sse_adds r6 r2; r2 = sse_subs r2 temp3; r6 = sse_shift r6;
          r2 = sse_shift r2; r6 = sse_adds r6 bias; s3 = r6; r3 = sse_shift r3; r2 = sse_adds r2 bias;
          s4 = r2; r7 = sse_adds r7 bias; s5 = r7; r3 = sse_adds r3 bias; s6 = r3
      in [(0, s0), (1, s1), (2, s2), (7, s7), (3, s3), (4, s4), (5, s5), (6, s6)])"

fun sse_store_rows :: "u8 list \<Rightarrow> nat \<Rightarrow> (nat \<times> int list) list \<Rightarrow> u8 list option" where
  "sse_store_rows dst stride [] = Some dst"
| "sse_store_rows dst stride ((k, v) # rest) =
     Option.bind (sse_store dst (k * stride) v) (\<lambda>dst. sse_store_rows dst stride rest)"

definition sse_dequantise :: "int list \<Rightarrow> int list \<Rightarrow> int list list" where
  "sse_dequantise block matrix =
     map (\<lambda>r. mm_srai_epi16 4 (mm_mullo_epi16 (sse_row block r) (map (\<lambda>i. wrap16 (matrix ! (r * 8 + i))) [0..<8]))) [0..<8]"

definition sse_idct :: "int list \<Rightarrow> int list \<Rightarrow> u8 list \<Rightarrow> nat \<Rightarrow> int \<Rightarrow> u8 list option" where
  "sse_idct block matrix dst stride add_value =
     (let rows = sse_dequantise block matrix;
          transformed =
            [sse_row_pass (rows ! 0) TAB_I_04, sse_row_pass (rows ! 1) TAB_I_17, sse_row_pass (rows ! 2) TAB_I_26,
             sse_row_pass (rows ! 3) TAB_I_35, sse_row_pass (rows ! 4) TAB_I_04, sse_row_pass (rows ! 5) TAB_I_35,
             sse_row_pass (rows ! 6) TAB_I_26, sse_row_pass (rows ! 7) TAB_I_17]
      in sse_store_rows dst stride (sse_column_pass transformed (mm_set1_epi16 add_value)))"

section \<open>Agreement of the kernels\<close>

lemma sse_column_ops:
  "sse_shift = shift_right" "sse_mulhi = mulhi_by" "sse_adds = adds" "sse_subs = subs"
  "sse_addc = adds_constant" "sse_corr = or_correction"
  by (auto simp: fun_eq_iff sse_shift_def sse_mulhi_def sse_adds_def sse_subs_def sse_addc_def sse_corr_def
      shift_right_def mulhi_by_def adds_def subs_def adds_constant_def or_correction_def mulhi_def
      map1v_def map2v_def mm_srai_epi16_def mm_mulhi_epi16_def mm_adds_epi16_def mm_subs_epi16_def
      mm_or_si128_def mm_set1_epi16_def)

lemma sse_column_pass_eq: "sse_column_pass rows bias = column_pass rows bias"
  by (simp only: sse_column_pass_def column_pass_def sse_column_ops)

lemma sse_store_eq: "sse_store dst pos v = store_row dst pos v"
  by (simp add: sse_store_def store_row_def mm_packus_epi16_def sat8_def)

lemma sse_store_rows_eq: "sse_store_rows dst stride rs = store_rows dst stride rs"
  by (induction rs arbitrary: dst) (auto simp: sse_store_eq intro!: bind_option_cong)


text \<open>Ranges of the lanes.\<close>

definition i16 :: "int \<Rightarrow> bool" where
  "i16 x \<longleftrightarrow> - 32768 \<le> x \<and> x \<le> 32767"

definition i32 :: "int \<Rightarrow> bool" where
  "i32 x \<longleftrightarrow> - 2147483648 \<le> x \<and> x \<le> 2147483647"

lemma wrap16_eq: "wrap16 x = (x + 32768) mod 65536 - 32768"
  by (simp add: wrap16_def signed_take_bit_eq_take_bit_shift take_bit_eq_mod add.commute)

lemma wrap32_eq: "wrap32 x = (x + 2147483648) mod 4294967296 - 2147483648"
  by (simp add: wrap32_def signed_take_bit_eq_take_bit_shift take_bit_eq_mod add.commute)

lemma wrap16_id [simp]: "i16 x \<Longrightarrow> wrap16 x = x"
  by (simp add: wrap16_eq i16_def)

lemma wrap32_i32 [simp]: "i32 x \<Longrightarrow> wrap32 x = x"
  by (simp add: wrap32_eq i32_def)

lemma i16_wrap16 [simp]: "i16 (wrap16 x)"
  using pos_mod_bound [of 65536 "x + 32768"] pos_mod_sign [of 65536 "x + 32768"] by (simp add: wrap16_eq i16_def)

lemma i32_wrap32 [simp]: "i32 (wrap32 x)"
  using pos_mod_bound [of 4294967296 "x + 2147483648"] pos_mod_sign [of 4294967296 "x + 2147483648"]
  by (simp add: wrap32_eq i32_def)

lemma wrap16_add_mult: "wrap16 (x + 65536 * k) = wrap16 x"
proof -
  have "(x + 65536 * k + 32768) mod 65536 = (x + 32768) mod 65536"
    using mod_mult_self2 [of "x + 32768" 65536 k] by (simp add: algebra_simps)
  then show ?thesis by (simp add: wrap16_eq)
qed

lemma wrap32_decompose: "\<exists>k. wrap32 x = x + 4294967296 * k"
proof -
  have "wrap32 x = x + 4294967296 * (- ((x + 2147483648) div 4294967296))"
    unfolding wrap32_eq using div_mult_mod_eq [of "x + 2147483648" 4294967296] by linarith
  then show ?thesis by blast
qed

lemma wrap16_mod [simp]: "wrap16 x mod 65536 = x mod 65536"
  by (simp add: wrap16_eq mod_diff_left_eq)

lemma wrap16_of_mod: "wrap16 (x mod 65536) = wrap16 x"
  by (simp add: wrap16_eq mod_add_left_eq)

text \<open>The halves of a 32-bit lane.\<close>

lemma halves_join: "i32 w \<Longrightarrow> wrap32 (w mod 65536 + wrap16 (w div 65536) * 65536) = w"
proof -
  assume w: "i32 w"
  then have "i16 (w div 65536)" by (auto simp: i32_def i16_def div_int_pos_iff)
  then show ?thesis using w by simp
qed

lemma join_halves:
  assumes "i16 a" "i16 b" and c: "c = wrap32 (a mod 65536 + (b mod 65536) * 65536)"
  shows "wrap16 c = a" "wrap16 (c div 65536) = b"
proof -
  obtain k where k: "c = a mod 65536 + (b mod 65536) * 65536 + 4294967296 * k"
    using wrap32_decompose c by metis
  then have "c = a mod 65536 + 65536 * (b mod 65536 + 65536 * k)" by (simp add: algebra_simps)
  then have "wrap16 c = wrap16 (a mod 65536)" using wrap16_add_mult by metis
  then show "wrap16 c = a" using assms(1) by (simp add: wrap16_of_mod)
  have "c div 65536 = b mod 65536 + 65536 * k"
  proof -
    have "c = a mod 65536 + 65536 * (b mod 65536 + 65536 * k)" using k by (simp add: algebra_simps)
    then show ?thesis by (simp add: div_mult_self2)
  qed
  then have "wrap16 (c div 65536) = wrap16 (b mod 65536)" using wrap16_add_mult by metis
  then show "wrap16 (c div 65536) = b" using assms(2) by (simp add: wrap16_of_mod)
qed

lemma or_halves: "(a :: int) mod 65536 OR push_bit 16 b = a mod 65536 + b * 65536"
proof -
  have "a mod 65536 = take_bit 16 a" by (simp add: take_bit_eq_mod)
  moreover have "take_bit 16 a AND push_bit 16 b = 0" by (auto simp: bit_eq_iff bit_simps)
  ultimately have "a mod 65536 + push_bit 16 b = a mod 65536 OR push_bit 16 b"
    using disjunctive_add_eq_or [of "take_bit 16 a" "push_bit 16 b"] by simp
  then show ?thesis by (simp add: push_bit_eq_mult)
qed

lemma lanes32_of_lanes32: "i32 a \<Longrightarrow> i32 b \<Longrightarrow> i32 c \<Longrightarrow> i32 d \<Longrightarrow> lanes32 (of_lanes32 [a, b, c, d]) = [a, b, c, d]"
  by (simp add: lanes32_def of_lanes32_def halves_join)

lemma sse_pair_eq: "i16 a \<Longrightarrow> i16 b \<Longrightarrow> sse_pair a b = [a, b, a, b, a, b, a, b]"
  by (simp add: sse_pair_def mm_set1_epi32_def of_lanes32_def or_halves join_halves)


lemma i32_div: "i32 x \<Longrightarrow> i32 (x div 2048)"
  by (auto simp: i32_def div_int_pos_iff)

lemma i32_product [simp]: "i32 (product a s b t)"
  by (simp add: product_def)

lemma madd_pair:
  assumes "i16 a" "i16 b" "length tab = 32" "p < 4"
  shows "mm_madd_epi16 (sse_pair a b) (sse_table tab p) =
    of_lanes32 [product a (tab ! (8 * p)) b (tab ! (8 * p + 1)), product a (tab ! (8 * p + 2)) b (tab ! (8 * p + 3)),
      product a (tab ! (8 * p + 4)) b (tab ! (8 * p + 5)), product a (tab ! (8 * p + 6)) b (tab ! (8 * p + 7))]"
  using assms by (simp add: mm_madd_epi16_def sse_pair_eq sse_table_def product_def mult.commute [of p 8])

lemma lane_ops:
  assumes "i32 a" "i32 b" "i32 c" "i32 d"
  shows "mm_srai_epi32 11 (of_lanes32 [a, b, c, d]) = of_lanes32 [a div 2048, b div 2048, c div 2048, d div 2048]"
    "mm_shuffle_epi32_1B (of_lanes32 [a, b, c, d]) = of_lanes32 [d, c, b, a]"
  using assms by (simp_all add: mm_srai_epi32_def mm_shuffle_epi32_1B_def lanes32_of_lanes32)

lemma lane_ops2:
  assumes "i32 a" "i32 b" "i32 c" "i32 d" "i32 e" "i32 f" "i32 g" "i32 h"
  shows "mm_add_epi32 (of_lanes32 [a, b, c, d]) (of_lanes32 [e, f, g, h]) =
      of_lanes32 [wrap32 (a + e), wrap32 (b + f), wrap32 (c + g), wrap32 (d + h)]"
    "mm_sub_epi32 (of_lanes32 [a, b, c, d]) (of_lanes32 [e, f, g, h]) =
      of_lanes32 [wrap32 (a - e), wrap32 (b - f), wrap32 (c - g), wrap32 (d - h)]"
    "mm_packs_epi32 (of_lanes32 [a, b, c, d]) (of_lanes32 [e, f, g, h]) =
      [sat16 a, sat16 b, sat16 c, sat16 d, sat16 e, sat16 f, sat16 g, sat16 h]"
  using assms by (simp_all add: mm_add_epi32_def mm_sub_epi32_def mm_packs_epi32_def lanes32_of_lanes32 sat16_def)

lemma sse_row_pass_eq:
  assumes "list_all i16 x" "length x = 8" "length tab = 32"
  shows "sse_row_pass x tab = row_pass x tab"
proof -
  have x: "i16 (x ! k)" if "k < 8" for k using assms that by (simp add: list_all_length)
  have r: "mm_set1_epi32 IRND_INV_ROW = of_lanes32 [1024, 1024, 1024, 1024]" by (simp add: mm_set1_epi32_def)
  have c: "i32 1024" by (simp add: i32_def)
  have m: "mm_madd_epi16 (sse_pair (x ! j) (x ! k)) (sse_table tab p) =
    of_lanes32 [product (x ! j) (tab ! (8 * p)) (x ! k) (tab ! (8 * p + 1)), product (x ! j) (tab ! (8 * p + 2)) (x ! k) (tab ! (8 * p + 3)),
      product (x ! j) (tab ! (8 * p + 4)) (x ! k) (tab ! (8 * p + 5)), product (x ! j) (tab ! (8 * p + 6)) (x ! k) (tab ! (8 * p + 7))]"
    if "j < 8" "k < 8" "p < 4" for j k p
    using madd_pair [OF x [OF that(1)] x [OF that(2)] assms(3) that(3)] .
  have "sse_row_pass x tab = [fst (row_sums x tab 0), fst (row_sums x tab 1), fst (row_sums x tab 2), fst (row_sums x tab 3),
    snd (row_sums x tab 3), snd (row_sums x tab 2), snd (row_sums x tab 1), snd (row_sums x tab 0)]"
    unfolding sse_row_pass_def Let_def r
    by (simp add: m lane_ops lane_ops2 i32_div c row_sums_def Let_def) (simp add: numeral_2_eq_2)
  then show ?thesis by (simp only: row_pass_def list.map append.simps)
qed

lemma sse_dequantise_eq:
  "length block = 64 \<Longrightarrow> sse_dequantise block matrix = dequantise block matrix"
  by (simp add: sse_dequantise_def dequantise_def mm_srai_epi16_def mm_mullo_epi16_def sse_row_def mult.commute [of _ 8] cong: map_cong)

lemma i16_div: "i16 x \<Longrightarrow> i16 (x div 16)"
  by (auto simp: i16_def div_int_pos_iff)

lemma dequantise_rows: "k < 8 \<Longrightarrow> length (dequantise block matrix ! k) = 8 \<and> list_all i16 (dequantise block matrix ! k)"
  by (simp add: dequantise_def list_all_iff i16_div)

section \<open>Where a block is stored\<close>

text \<open>A zero row transforms to zero, so a kernel may skip it.\<close>

lemma row_pass_zero:
  assumes "length tab = 32"
  shows "row_pass (replicate 8 0) tab = replicate 8 0"
proof -
  have "row_sums (replicate 8 0) tab i = (0, 0)" for i
    by (simp add: row_sums_def product_def wrap32_eq sat16_def clamp_def)
  then show ?thesis by (simp add: row_pass_def eval_nat_numeral)
qed

lemma store_row_Some:
  "pos + 8 \<le> length dst \<Longrightarrow> store_row dst pos v = Some (take pos dst @ map (\<lambda>lane. sat8 (v ! lane)) [0..<8] @ drop (pos + 8) dst)"
  by (simp add: store_row_def)

text \<open>The block view of a destination: byte \<open>c\<close> of row \<open>k\<close> of a block is at \<open>k * stride + c\<close>.\<close>

definition agree_on :: "nat set \<Rightarrow> u8 list \<Rightarrow> u8 list \<Rightarrow> bool" where
  "agree_on A xs ys \<longleftrightarrow> length xs = length ys \<and> (\<forall>i\<in>A. i < length xs \<longrightarrow> xs ! i = ys ! i)"

definition row_cells :: "nat \<Rightarrow> nat \<Rightarrow> nat set" where
  "row_cells stride k = {k * stride..<k * stride + 8}"

definition block_cells :: "nat \<Rightarrow> nat set" where
  "block_cells stride = (\<Union>k<8. row_cells stride k)"

lemma overwrite_agree:
  assumes "agree_on A xs ys" "p + length bs \<le> length xs"
  shows "agree_on (A \<union> {p..<p + length bs}) (take p xs @ bs @ drop (p + length bs) xs) (take p ys @ bs @ drop (p + length bs) ys)"
  using assms by (auto simp: agree_on_def nth_append)

lemma overwrite_outside:
  assumes "p + length bs \<le> length xs"
  shows "agree_on (- {p..<p + length bs}) (take p xs @ bs @ drop (p + length bs) xs) xs"
  using assms by (auto simp: agree_on_def nth_append)

lemma agree_on_refl [simp]: "agree_on A xs xs"
  by (simp add: agree_on_def)

lemma agree_on_trans: "agree_on A xs ys \<Longrightarrow> agree_on A ys zs \<Longrightarrow> agree_on A xs zs"
  by (auto simp: agree_on_def)

lemma agree_on_mono: "agree_on A xs ys \<Longrightarrow> B \<subseteq> A \<Longrightarrow> agree_on B xs ys"
  by (auto simp: agree_on_def)

lemma agree_on_length: "agree_on A xs ys \<Longrightarrow> length xs = length ys"
  by (simp add: agree_on_def)

lemma store_rows_agree:
  assumes "agree_on A xs ys" "\<forall>(k, v)\<in>set rs. k * stride + 8 \<le> length xs"
  shows "\<exists>xs' ys'. store_rows xs stride rs = Some xs' \<and> store_rows ys stride rs = Some ys'
    \<and> agree_on (A \<union> (\<Union>(k, v)\<in>set rs. row_cells stride k)) xs' ys'"
  using assms
proof (induction rs arbitrary: xs ys A)
  case (Cons p rs)
  obtain k v where p: "p = (k, v)" by fastforce
  define bs where "bs = map (\<lambda>lane. sat8 (v ! lane)) [0..<8]"
  have bs: "length bs = 8" by (simp add: bs_def)
  let ?x = "take (k * stride) xs @ bs @ drop (k * stride + 8) xs"
  let ?y = "take (k * stride) ys @ bs @ drop (k * stride + 8) ys"
  have len: "k * stride + 8 \<le> length xs" "length xs = length ys"
    using Cons.prems p by (auto simp: agree_on_length)
  have s: "store_row xs (k * stride) v = Some ?x" "store_row ys (k * stride) v = Some ?y"
    using len by (simp_all add: store_row_Some bs_def)
  have "agree_on (A \<union> row_cells stride k) ?x ?y"
    using overwrite_agree [OF Cons.prems(1), of "k * stride" bs] len bs by (simp add: row_cells_def)
  moreover have "length ?x = length xs" using len bs by simp
  ultimately show ?case using Cons.IH [of "A \<union> row_cells stride k" ?x ?y] Cons.prems(2) p s
    by (auto simp: Un_assoc)
qed simp

lemma store_rows_outside:
  assumes "\<forall>(k, v)\<in>set rs. k * stride + 8 \<le> length xs" "store_rows xs stride rs = Some xs'"
  shows "agree_on (- (\<Union>(k, v)\<in>set rs. row_cells stride k)) xs' xs"
  using assms
proof (induction rs arbitrary: xs)
  case (Cons p rs)
  obtain k v where p: "p = (k, v)" by fastforce
  define x where "x = take (k * stride) xs @ map (\<lambda>lane. sat8 (v ! lane)) [0..<8] @ drop (k * stride + 8) xs"
  have len: "k * stride + 8 \<le> length xs" using Cons.prems p by auto
  then have s: "store_row xs (k * stride) v = Some x" by (simp add: store_row_Some x_def)
  have "agree_on (- row_cells stride k) x xs"
    using overwrite_outside [of "k * stride" "map (\<lambda>lane. sat8 (v ! lane)) [0..<8]" xs] len
    by (simp add: row_cells_def x_def)
  moreover have "length x = length xs" using len by (simp add: x_def)
  moreover have "store_rows x stride rs = Some xs'" using Cons.prems(2) p s by simp
  ultimately have "agree_on (- (\<Union>(k, v)\<in>set rs. row_cells stride k)) xs' x" "agree_on (- row_cells stride k) x xs"
    using Cons.IH [of x] Cons.prems(1) by auto
  then show ?case using p by (simp add: agree_on_def)
qed simp

lemma column_pass_rows: "map fst (column_pass rows bias) = [0, 1, 2, 7, 3, 4, 5, 6]"
  by (simp add: column_pass_def Let_def)

lemma column_pass_cells: "(\<Union>(k, v)\<in>set (column_pass rows bias). row_cells stride k) = block_cells stride"
proof -
  have "(\<Union>(k, v)\<in>set (column_pass rows bias). row_cells stride k) = (\<Union>k\<in>set (map fst (column_pass rows bias)). row_cells stride k)"
    by auto
  also have "set (map fst (column_pass rows bias)) = {..<8}"
    unfolding column_pass_rows by auto
  finally show ?thesis by (simp add: block_cells_def)
qed

text \<open>A kernel writes its block, whatever was there, and nothing else.\<close>

definition writes_block :: "(u8 list \<Rightarrow> u8 list option) \<Rightarrow> nat \<Rightarrow> bool" where
  "writes_block f stride \<longleftrightarrow>
     (\<forall>A xs ys. agree_on A xs ys \<longrightarrow> 7 * stride + 8 \<le> length xs \<longrightarrow>
        (\<exists>xs' ys'. f xs = Some xs' \<and> f ys = Some ys' \<and> agree_on (A \<union> block_cells stride) xs' ys'
           \<and> agree_on (- block_cells stride) xs' xs))"

lemma writes_blockD:
  assumes "writes_block f stride" "agree_on A xs ys" "7 * stride + 8 \<le> length xs"
  obtains xs' ys' where "f xs = Some xs'" "f ys = Some ys'" "agree_on (A \<union> block_cells stride) xs' ys'"
    "agree_on (- block_cells stride) xs' xs"
  using assms unfolding writes_block_def by metis

lemma idct_writes: "writes_block (\<lambda>dst. idct_scalar block matrix dst stride bias) stride"
  unfolding writes_block_def
proof (intro allI impI)
  fix A xs ys
  assume a: "agree_on A xs ys" "7 * stride + 8 \<le> length xs"
  obtain rows where rows: "\<And>dst. idct_scalar block matrix dst stride bias = store_rows dst stride (column_pass rows (replicate 8 bias))"
    by (simp add: idct_scalar_def Let_def)
  have "k \<le> 7" if "(k, v) \<in> set (column_pass rows (replicate 8 bias))" for k v
  proof -
    have "k \<in> set (map fst (column_pass rows (replicate 8 bias)))" using that by force
    then show ?thesis unfolding column_pass_rows by auto
  qed
  then have len: "\<forall>(k, v)\<in>set (column_pass rows (replicate 8 bias)). k * stride + 8 \<le> length xs"
    using a(2) by (auto intro: order_trans [OF add_mono [OF mult_le_mono1]])
  from store_rows_agree [OF a(1) len] store_rows_outside [OF len]
  show "\<exists>xs' ys'. idct_scalar block matrix xs stride bias = Some xs' \<and> idct_scalar block matrix ys stride bias = Some ys'
     \<and> agree_on (A \<union> block_cells stride) xs' ys' \<and> agree_on (- block_cells stride) xs' xs"
    unfolding rows column_pass_cells by blast
qed

lemma store_flat_rows:
  assumes "length bytes = 8" "\<forall>lane<8. sat8 (v ! lane) = bytes ! lane" "\<forall>k\<in>set ks. k * stride + 8 \<le> length dst"
  shows "Some (store_flat dst stride bytes ks) = store_rows dst stride (map (\<lambda>k. (k, v)) ks)"
  using assms(3)
proof (induction ks arbitrary: dst)
  case (Cons k ks)
  have "map (\<lambda>lane. sat8 (v ! lane)) [0..<8] = bytes" using assms(1,2) by (auto intro: nth_equalityI)
  then have "store_row dst (k * stride) v = Some (take (k * stride) dst @ bytes @ drop (k * stride + 8) dst)"
    using Cons.prems by (simp add: store_row_Some)
  then show ?case using Cons assms(1) by simp
qed simp

lemma broadcast_writes:
  assumes "8 \<le> stride"
  shows "writes_block (\<lambda>dst. broadcast_dc dc dst stride bias) stride"
  unfolding writes_block_def
proof (intro allI impI)
  fix A xs ys
  assume a: "agree_on A xs ys" "7 * stride + 8 \<le> length xs"
  define level where "level = wrap16 (wrap16 (dc + 4) div 8 + bias)"
  let ?rs = "map (\<lambda>k. (k, replicate 8 level)) [0..<8]"
  have "k * stride + 8 \<le> length xs" if "k < 8" for k
    using a(2) mult_le_mono1 [of k 7 stride] that by linarith
  then have len: "\<forall>(k, v)\<in>set ?rs. k * stride + 8 \<le> length xs" by auto
  have b: "broadcast_dc dc zs stride bias = store_rows zs stride ?rs" if "length zs = length xs" for zs
  proof -
    have "\<forall>k\<in>set [0..<8]. k * stride + 8 \<le> length zs" using len that by auto
    then show ?thesis using assms a(2) that store_flat_rows [of "replicate 8 (sat8 level)" "replicate 8 level" "[0..<8]" stride zs]
      by (simp only: broadcast_dc_def Let_def level_def [symmetric]) auto
  qed
  have c: "(\<Union>(k, v)\<in>set ?rs. row_cells stride k) = block_cells stride" by (auto simp: block_cells_def)
  from store_rows_agree [OF a(1) len] store_rows_outside [OF len]
  show "\<exists>xs' ys'. broadcast_dc dc xs stride bias = Some xs' \<and> broadcast_dc dc ys stride bias = Some ys'
     \<and> agree_on (A \<union> block_cells stride) xs' ys' \<and> agree_on (- block_cells stride) xs' xs"
    unfolding b [OF refl] b [OF agree_on_length [OF a(1), symmetric]] c by blast
qed

section \<open>Properties\<close>

text \<open>C17. The x86-64 kernel computes exactly what the portable kernel computes, bit for bit and panic for
  panic, for every block of 64 sixteen-bit coefficients, every matrix, destination and stride.\<close>

theorem sse2_kernel_agrees:
  assumes "length block = 64"
  shows "sse_idct block matrix dst stride add_value = idct_scalar block matrix dst stride add_value"
proof -
  have "mm_set1_epi16 add_value = replicate 8 add_value" by (simp add: mm_set1_epi16_def map_replicate_trivial flip: map_replicate_const)
  then show ?thesis using dequantise_rows [of _ block matrix]
    by (simp add: sse_idct_def idct_scalar_def sse_column_pass_eq sse_store_rows_eq sse_dequantise_eq assms sse_row_pass_eq)
qed

theorem sse2_kernel_agrees_witness:
  "sse_idct (replicate 64 0) (decode_matrix 0) (replicate 64 7) 8 128 = idct_scalar (replicate 64 0) (decode_matrix 0) (replicate 64 7) 8 128"
  by (rule sse2_kernel_agrees) simp

end
