(* ===== verification/Vmx_Lookahead.thy ===== *)
theory Vmx_Lookahead
  imports Prelude
begin

text \<open>
  \<^verbatim>\<open>crates/omt-vmx/src/ac_lookahead.rs\<close>: the table that resolves an AC code from the next twelve bits,
  entry by entry, in chunks. An entry is a \<open>u32\<close>, an \<open>int\<close> here: the coefficient's sixteen bits, then
  the code's length, then how many positions it moves on. The table is shown to be exactly the
  function \<open>lookahead_entry\<close>, which reads the code off the index; an index that does not hold a whole
  code has entry 0.
\<close>

section \<open>The table\<close>

definition AC_LOOKAHEAD_0 :: "int list" where
  "AC_LOOKAHEAD_0 = [
    0x00000000, 0x00000000, 0x00000000, 0x00000000, 0x00000000, 0x00000000, 0x00000000, 0x00000000, 0x00000000, 
    0x00000000, 0x00000000, 0x00000000, 0x00000000, 0x00000000, 0x00000000, 0x00000000, 0x00000000, 0x00000000, 
    0x00000000, 0x00000000, 0x00000000, 0x00000000, 0x00000000, 0x00000000, 0x00000000, 0x00000000, 0x00000000, 
    0x00000000, 0x00000000, 0x00000000, 0x00000000, 0x00000000, 0x00000000, 0x00000000, 0x00000000, 0x00000000, 
    0x00000000, 0x00000000, 0x00000000, 0x00000000, 0x00000000, 0x00000000, 0x00000000, 0x00000000, 0x00000000, 
    0x00000000, 0x00000000, 0x00000000, 0x00000000, 0x00000000, 0x00000000, 0x00000000, 0x00000000, 0x00000000, 
    0x00000000, 0x00000000, 0x00000000, 0x00000000, 0x00000000, 0x00000000, 0x00000000, 0x00000000, 0x00000000, 
    0x00000000, 0x010bfff0, 0x010bfff0, 0x010b0010, 0x010b0010, 0x010bffef, 0x010bffef, 0x010b0011, 0x010b0011, 
    0x010bffee, 0x010bffee, 0x010b0012, 0x010b0012, 0x010bffed, 0x010bffed, 0x010b0013, 0x010b0013, 0x010bffec, 
    0x010bffec, 0x010b0014, 0x010b0014, 0x010bffeb, 0x010bffeb, 0x010b0015, 0x010b0015, 0x010bffea, 0x010bffea, 
    0x010b0016, 0x010b0016, 0x010bffe9, 0x010bffe9, 0x010b0017, 0x010b0017, 0x010bffe8, 0x010bffe8, 0x010b0018, 
    0x010b0018, 0x010bffe7, 0x010bffe7, 0x010b0019, 0x010b0019, 0x010bffe6, 0x010bffe6, 0x010b001a, 0x010b001a, 
    0x010bffe5, 0x010bffe5, 0x010b001b, 0x010b001b, 0x010bffe4, 0x010bffe4, 0x010b001c, 0x010b001c, 0x010bffe3, 
    0x010bffe3, 0x010b001d, 0x010b001d, 0x010bffe2, 0x010bffe2, 0x010b001e, 0x010b001e, 0x010bffe1, 0x010bffe1, 
    0x010b001f, 0x010b001f, 0x0109fff8, 0x0109fff8, 0x0109fff8, 0x0109fff8, 0x0109fff8, 0x0109fff8, 0x0109fff8, 
    0x0109fff8, 0x01090008, 0x01090008, 0x01090008, 0x01090008, 0x01090008, 0x01090008, 0x01090008, 0x01090008, 
    0x0109fff7, 0x0109fff7, 0x0109fff7, 0x0109fff7, 0x0109fff7, 0x0109fff7, 0x0109fff7, 0x0109fff7, 0x01090009, 
    0x01090009, 0x01090009, 0x01090009, 0x01090009, 0x01090009, 0x01090009, 0x01090009, 0x0109fff6, 0x0109fff6, 
    0x0109fff6, 0x0109fff6, 0x0109fff6, 0x0109fff6, 0x0109fff6, 0x0109fff6, 0x0109000a, 0x0109000a, 0x0109000a, 
    0x0109000a, 0x0109000a, 0x0109000a, 0x0109000a, 0x0109000a, 0x0109fff5, 0x0109fff5, 0x0109fff5, 0x0109fff5, 
    0x0109fff5, 0x0109fff5, 0x0109fff5, 0x0109fff5, 0x0109000b, 0x0109000b, 0x0109000b, 0x0109000b, 0x0109000b, 
    0x0109000b, 0x0109000b, 0x0109000b, 0x0109fff4, 0x0109fff4, 0x0109fff4, 0x0109fff4, 0x0109fff4, 0x0109fff4, 
    0x0109fff4, 0x0109fff4, 0x0109000c, 0x0109000c, 0x0109000c, 0x0109000c, 0x0109000c, 0x0109000c, 0x0109000c, 
    0x0109000c, 0x0109fff3, 0x0109fff3, 0x0109fff3, 0x0109fff3, 0x0109fff3, 0x0109fff3, 0x0109fff3, 0x0109fff3, 
    0x0109000d, 0x0109000d, 0x0109000d, 0x0109000d, 0x0109000d, 0x0109000d, 0x0109000d, 0x0109000d, 0x0109fff2, 
    0x0109fff2, 0x0109fff2, 0x0109fff2, 0x0109fff2, 0x0109fff2, 0x0109fff2, 0x0109fff2, 0x0109000e, 0x0109000e, 
    0x0109000e, 0x0109000e, 0x0109000e, 0x0109000e, 0x0109000e, 0x0109000e, 0x0109fff1, 0x0109fff1, 0x0109fff1, 
    0x0109fff1, 0x0109fff1, 0x0109fff1, 0x0109fff1, 0x0109fff1, 0x0109000f, 0x0109000f, 0x0109000f, 0x0109000f, 
    0x0109000f, 0x0109000f, 0x0109000f, 0x0109000f, 0x0107fffc, 0x0107fffc, 0x0107fffc, 0x0107fffc, 0x0107fffc, 
    0x0107fffc, 0x0107fffc, 0x0107fffc, 0x0107fffc, 0x0107fffc, 0x0107fffc, 0x0107fffc, 0x0107fffc, 0x0107fffc, 
    0x0107fffc, 0x0107fffc, 0x0107fffc, 0x0107fffc, 0x0107fffc, 0x0107fffc, 0x0107fffc, 0x0107fffc, 0x0107fffc, 
    0x0107fffc, 0x0107fffc, 0x0107fffc, 0x0107fffc, 0x0107fffc, 0x0107fffc, 0x0107fffc, 0x0107fffc, 0x0107fffc, 
    0x01070004, 0x01070004, 0x01070004, 0x01070004, 0x01070004, 0x01070004, 0x01070004, 0x01070004, 0x01070004, 
    0x01070004, 0x01070004, 0x01070004, 0x01070004, 0x01070004, 0x01070004, 0x01070004, 0x01070004, 0x01070004, 
    0x01070004, 0x01070004, 0x01070004, 0x01070004, 0x01070004, 0x01070004, 0x01070004, 0x01070004, 0x01070004, 
    0x01070004, 0x01070004, 0x01070004, 0x01070004, 0x01070004, 0x0107fffb, 0x0107fffb, 0x0107fffb, 0x0107fffb, 
    0x0107fffb, 0x0107fffb, 0x0107fffb, 0x0107fffb, 0x0107fffb, 0x0107fffb, 0x0107fffb, 0x0107fffb, 0x0107fffb, 
    0x0107fffb, 0x0107fffb, 0x0107fffb, 0x0107fffb, 0x0107fffb, 0x0107fffb, 0x0107fffb, 0x0107fffb, 0x0107fffb, 
    0x0107fffb, 0x0107fffb, 0x0107fffb, 0x0107fffb, 0x0107fffb, 0x0107fffb, 0x0107fffb, 0x0107fffb, 0x0107fffb, 
    0x0107fffb, 0x01070005, 0x01070005, 0x01070005, 0x01070005, 0x01070005, 0x01070005, 0x01070005, 0x01070005, 
    0x01070005, 0x01070005, 0x01070005, 0x01070005, 0x01070005, 0x01070005, 0x01070005, 0x01070005, 0x01070005, 
    0x01070005, 0x01070005, 0x01070005, 0x01070005, 0x01070005, 0x01070005, 0x01070005, 0x01070005, 0x01070005, 
    0x01070005, 0x01070005, 0x01070005, 0x01070005, 0x01070005, 0x01070005, 0x0107fffa, 0x0107fffa, 0x0107fffa, 
    0x0107fffa, 0x0107fffa, 0x0107fffa, 0x0107fffa, 0x0107fffa, 0x0107fffa, 0x0107fffa, 0x0107fffa, 0x0107fffa, 
    0x0107fffa, 0x0107fffa, 0x0107fffa, 0x0107fffa, 0x0107fffa, 0x0107fffa, 0x0107fffa, 0x0107fffa, 0x0107fffa, 
    0x0107fffa, 0x0107fffa, 0x0107fffa, 0x0107fffa, 0x0107fffa, 0x0107fffa, 0x0107fffa, 0x0107fffa, 0x0107fffa, 
    0x0107fffa, 0x0107fffa, 0x01070006, 0x01070006, 0x01070006, 0x01070006, 0x01070006, 0x01070006, 0x01070006, 
    0x01070006, 0x01070006, 0x01070006, 0x01070006, 0x01070006, 0x01070006, 0x01070006, 0x01070006, 0x01070006, 
    0x01070006, 0x01070006, 0x01070006, 0x01070006, 0x01070006, 0x01070006, 0x01070006, 0x01070006, 0x01070006, 
    0x01070006, 0x01070006, 0x01070006, 0x01070006, 0x01070006, 0x01070006, 0x01070006, 0x0107fff9, 0x0107fff9, 
    0x0107fff9, 0x0107fff9, 0x0107fff9, 0x0107fff9, 0x0107fff9, 0x0107fff9, 0x0107fff9, 0x0107fff9, 0x0107fff9, 
    0x0107fff9, 0x0107fff9, 0x0107fff9, 0x0107fff9, 0x0107fff9, 0x0107fff9, 0x0107fff9, 0x0107fff9, 0x0107fff9, 
    0x0107fff9, 0x0107fff9, 0x0107fff9, 0x0107fff9, 0x0107fff9, 0x0107fff9, 0x0107fff9, 0x0107fff9, 0x0107fff9, 
    0x0107fff9, 0x0107fff9, 0x0107fff9, 0x01070007, 0x01070007, 0x01070007, 0x01070007, 0x01070007, 0x01070007, 
    0x01070007, 0x01070007, 0x01070007, 0x01070007, 0x01070007, 0x01070007, 0x01070007, 0x01070007, 0x01070007, 
    0x01070007, 0x01070007, 0x01070007, 0x01070007, 0x01070007, 0x01070007, 0x01070007, 0x01070007, 0x01070007, 
    0x01070007, 0x01070007, 0x01070007, 0x01070007, 0x01070007, 0x01070007, 0x01070007, 0x01070007, 0x0105fffe, 
    0x0105fffe, 0x0105fffe, 0x0105fffe, 0x0105fffe, 0x0105fffe, 0x0105fffe, 0x0105fffe, 0x0105fffe, 0x0105fffe, 
    0x0105fffe, 0x0105fffe, 0x0105fffe, 0x0105fffe, 0x0105fffe, 0x0105fffe, 0x0105fffe, 0x0105fffe, 0x0105fffe, 
    0x0105fffe, 0x0105fffe, 0x0105fffe, 0x0105fffe, 0x0105fffe, 0x0105fffe, 0x0105fffe, 0x0105fffe, 0x0105fffe, 
    0x0105fffe, 0x0105fffe, 0x0105fffe, 0x0105fffe, 0x0105fffe, 0x0105fffe, 0x0105fffe, 0x0105fffe, 0x0105fffe, 
    0x0105fffe, 0x0105fffe, 0x0105fffe, 0x0105fffe, 0x0105fffe, 0x0105fffe, 0x0105fffe, 0x0105fffe, 0x0105fffe, 
    0x0105fffe, 0x0105fffe, 0x0105fffe, 0x0105fffe, 0x0105fffe, 0x0105fffe, 0x0105fffe, 0x0105fffe, 0x0105fffe, 
    0x0105fffe, 0x0105fffe, 0x0105fffe, 0x0105fffe, 0x0105fffe, 0x0105fffe, 0x0105fffe, 0x0105fffe, 0x0105fffe, 
    0x0105fffe, 0x0105fffe, 0x0105fffe, 0x0105fffe, 0x0105fffe, 0x0105fffe, 0x0105fffe, 0x0105fffe, 0x0105fffe, 
    0x0105fffe, 0x0105fffe, 0x0105fffe, 0x0105fffe, 0x0105fffe, 0x0105fffe, 0x0105fffe, 0x0105fffe, 0x0105fffe, 
    0x0105fffe, 0x0105fffe, 0x0105fffe, 0x0105fffe, 0x0105fffe, 0x0105fffe, 0x0105fffe, 0x0105fffe, 0x0105fffe, 
    0x0105fffe, 0x0105fffe, 0x0105fffe, 0x0105fffe, 0x0105fffe, 0x0105fffe, 0x0105fffe, 0x0105fffe, 0x0105fffe, 
    0x0105fffe, 0x0105fffe, 0x0105fffe, 0x0105fffe, 0x0105fffe, 0x0105fffe, 0x0105fffe, 0x0105fffe, 0x0105fffe, 
    0x0105fffe, 0x0105fffe, 0x0105fffe, 0x0105fffe, 0x0105fffe, 0x0105fffe, 0x0105fffe, 0x0105fffe, 0x0105fffe, 
    0x0105fffe, 0x0105fffe, 0x0105fffe, 0x0105fffe, 0x0105fffe, 0x0105fffe, 0x0105fffe, 0x0105fffe, 0x0105fffe, 
    0x0105fffe, 0x01050002, 0x01050002, 0x01050002, 0x01050002, 0x01050002, 0x01050002, 0x01050002, 0x01050002, 
    0x01050002, 0x01050002, 0x01050002, 0x01050002, 0x01050002, 0x01050002, 0x01050002, 0x01050002, 0x01050002, 
    0x01050002, 0x01050002, 0x01050002, 0x01050002, 0x01050002, 0x01050002, 0x01050002, 0x01050002, 0x01050002, 
    0x01050002, 0x01050002, 0x01050002, 0x01050002, 0x01050002, 0x01050002, 0x01050002, 0x01050002, 0x01050002, 
    0x01050002, 0x01050002, 0x01050002, 0x01050002, 0x01050002, 0x01050002, 0x01050002, 0x01050002, 0x01050002, 
    0x01050002, 0x01050002, 0x01050002, 0x01050002, 0x01050002, 0x01050002, 0x01050002, 0x01050002, 0x01050002, 
    0x01050002, 0x01050002, 0x01050002, 0x01050002, 0x01050002, 0x01050002, 0x01050002, 0x01050002, 0x01050002, 
    0x01050002, 0x01050002, 0x01050002, 0x01050002, 0x01050002, 0x01050002, 0x01050002, 0x01050002, 0x01050002, 
    0x01050002, 0x01050002, 0x01050002, 0x01050002, 0x01050002, 0x01050002, 0x01050002, 0x01050002, 0x01050002, 
    0x01050002, 0x01050002, 0x01050002, 0x01050002, 0x01050002, 0x01050002, 0x01050002, 0x01050002, 0x01050002, 
    0x01050002, 0x01050002, 0x01050002, 0x01050002, 0x01050002, 0x01050002, 0x01050002, 0x01050002, 0x01050002, 
    0x01050002, 0x01050002, 0x01050002, 0x01050002, 0x01050002, 0x01050002, 0x01050002, 0x01050002, 0x01050002, 
    0x01050002, 0x01050002, 0x01050002, 0x01050002, 0x01050002, 0x01050002, 0x01050002, 0x01050002, 0x01050002, 
    0x01050002, 0x01050002, 0x01050002, 0x01050002, 0x01050002, 0x01050002, 0x01050002, 0x01050002, 0x01050002, 
    0x01050002, 0x01050002, 0x01050002, 0x0105fffd, 0x0105fffd, 0x0105fffd, 0x0105fffd, 0x0105fffd, 0x0105fffd, 
    0x0105fffd, 0x0105fffd, 0x0105fffd, 0x0105fffd, 0x0105fffd, 0x0105fffd, 0x0105fffd, 0x0105fffd, 0x0105fffd, 
    0x0105fffd, 0x0105fffd, 0x0105fffd, 0x0105fffd, 0x0105fffd, 0x0105fffd, 0x0105fffd, 0x0105fffd, 0x0105fffd, 
    0x0105fffd, 0x0105fffd, 0x0105fffd, 0x0105fffd, 0x0105fffd, 0x0105fffd, 0x0105fffd, 0x0105fffd, 0x0105fffd, 
    0x0105fffd, 0x0105fffd, 0x0105fffd, 0x0105fffd, 0x0105fffd, 0x0105fffd, 0x0105fffd, 0x0105fffd, 0x0105fffd, 
    0x0105fffd, 0x0105fffd, 0x0105fffd, 0x0105fffd, 0x0105fffd, 0x0105fffd, 0x0105fffd, 0x0105fffd, 0x0105fffd, 
    0x0105fffd, 0x0105fffd, 0x0105fffd, 0x0105fffd, 0x0105fffd, 0x0105fffd, 0x0105fffd, 0x0105fffd, 0x0105fffd, 
    0x0105fffd, 0x0105fffd, 0x0105fffd, 0x0105fffd, 0x0105fffd, 0x0105fffd, 0x0105fffd, 0x0105fffd, 0x0105fffd, 
    0x0105fffd, 0x0105fffd, 0x0105fffd, 0x0105fffd, 0x0105fffd, 0x0105fffd, 0x0105fffd, 0x0105fffd, 0x0105fffd, 
    0x0105fffd, 0x0105fffd, 0x0105fffd, 0x0105fffd, 0x0105fffd, 0x0105fffd, 0x0105fffd, 0x0105fffd, 0x0105fffd, 
    0x0105fffd, 0x0105fffd, 0x0105fffd, 0x0105fffd, 0x0105fffd, 0x0105fffd, 0x0105fffd, 0x0105fffd, 0x0105fffd]"

definition AC_LOOKAHEAD_1 :: "int list" where
  "AC_LOOKAHEAD_1 = [
    0x0105fffd, 0x0105fffd, 0x0105fffd, 0x0105fffd, 0x0105fffd, 0x0105fffd, 0x0105fffd, 0x0105fffd, 0x0105fffd, 
    0x0105fffd, 0x0105fffd, 0x0105fffd, 0x0105fffd, 0x0105fffd, 0x0105fffd, 0x0105fffd, 0x0105fffd, 0x0105fffd, 
    0x0105fffd, 0x0105fffd, 0x0105fffd, 0x0105fffd, 0x0105fffd, 0x0105fffd, 0x0105fffd, 0x0105fffd, 0x0105fffd, 
    0x0105fffd, 0x0105fffd, 0x0105fffd, 0x0105fffd, 0x0105fffd, 0x01050003, 0x01050003, 0x01050003, 0x01050003, 
    0x01050003, 0x01050003, 0x01050003, 0x01050003, 0x01050003, 0x01050003, 0x01050003, 0x01050003, 0x01050003, 
    0x01050003, 0x01050003, 0x01050003, 0x01050003, 0x01050003, 0x01050003, 0x01050003, 0x01050003, 0x01050003, 
    0x01050003, 0x01050003, 0x01050003, 0x01050003, 0x01050003, 0x01050003, 0x01050003, 0x01050003, 0x01050003, 
    0x01050003, 0x01050003, 0x01050003, 0x01050003, 0x01050003, 0x01050003, 0x01050003, 0x01050003, 0x01050003, 
    0x01050003, 0x01050003, 0x01050003, 0x01050003, 0x01050003, 0x01050003, 0x01050003, 0x01050003, 0x01050003, 
    0x01050003, 0x01050003, 0x01050003, 0x01050003, 0x01050003, 0x01050003, 0x01050003, 0x01050003, 0x01050003, 
    0x01050003, 0x01050003, 0x01050003, 0x01050003, 0x01050003, 0x01050003, 0x01050003, 0x01050003, 0x01050003, 
    0x01050003, 0x01050003, 0x01050003, 0x01050003, 0x01050003, 0x01050003, 0x01050003, 0x01050003, 0x01050003, 
    0x01050003, 0x01050003, 0x01050003, 0x01050003, 0x01050003, 0x01050003, 0x01050003, 0x01050003, 0x01050003, 
    0x01050003, 0x01050003, 0x01050003, 0x01050003, 0x01050003, 0x01050003, 0x01050003, 0x01050003, 0x01050003, 
    0x01050003, 0x01050003, 0x01050003, 0x01050003, 0x01050003, 0x01050003, 0x01050003, 0x01050003, 0x01050003, 
    0x01050003, 0x01050003, 0x01050003, 0x01050003, 0x01050003, 0x01050003, 0x01050003, 0x01050003, 0x01050003, 
    0x01050003, 0x01050003, 0x01050003, 0x01050003, 0x01050003, 0x01050003, 0x01050003, 0x01050003, 0x01050003, 
    0x01050003, 0x01050003, 0x01050003, 0x01050003, 0x01050003, 0x01050003, 0x01050003, 0x0103ffff, 0x0103ffff, 
    0x0103ffff, 0x0103ffff, 0x0103ffff, 0x0103ffff, 0x0103ffff, 0x0103ffff, 0x0103ffff, 0x0103ffff, 0x0103ffff, 
    0x0103ffff, 0x0103ffff, 0x0103ffff, 0x0103ffff, 0x0103ffff, 0x0103ffff, 0x0103ffff, 0x0103ffff, 0x0103ffff, 
    0x0103ffff, 0x0103ffff, 0x0103ffff, 0x0103ffff, 0x0103ffff, 0x0103ffff, 0x0103ffff, 0x0103ffff, 0x0103ffff, 
    0x0103ffff, 0x0103ffff, 0x0103ffff, 0x0103ffff, 0x0103ffff, 0x0103ffff, 0x0103ffff, 0x0103ffff, 0x0103ffff, 
    0x0103ffff, 0x0103ffff, 0x0103ffff, 0x0103ffff, 0x0103ffff, 0x0103ffff, 0x0103ffff, 0x0103ffff, 0x0103ffff, 
    0x0103ffff, 0x0103ffff, 0x0103ffff, 0x0103ffff, 0x0103ffff, 0x0103ffff, 0x0103ffff, 0x0103ffff, 0x0103ffff, 
    0x0103ffff, 0x0103ffff, 0x0103ffff, 0x0103ffff, 0x0103ffff, 0x0103ffff, 0x0103ffff, 0x0103ffff, 0x0103ffff, 
    0x0103ffff, 0x0103ffff, 0x0103ffff, 0x0103ffff, 0x0103ffff, 0x0103ffff, 0x0103ffff, 0x0103ffff, 0x0103ffff, 
    0x0103ffff, 0x0103ffff, 0x0103ffff, 0x0103ffff, 0x0103ffff, 0x0103ffff, 0x0103ffff, 0x0103ffff, 0x0103ffff, 
    0x0103ffff, 0x0103ffff, 0x0103ffff, 0x0103ffff, 0x0103ffff, 0x0103ffff, 0x0103ffff, 0x0103ffff, 0x0103ffff, 
    0x0103ffff, 0x0103ffff, 0x0103ffff, 0x0103ffff, 0x0103ffff, 0x0103ffff, 0x0103ffff, 0x0103ffff, 0x0103ffff, 
    0x0103ffff, 0x0103ffff, 0x0103ffff, 0x0103ffff, 0x0103ffff, 0x0103ffff, 0x0103ffff, 0x0103ffff, 0x0103ffff, 
    0x0103ffff, 0x0103ffff, 0x0103ffff, 0x0103ffff, 0x0103ffff, 0x0103ffff, 0x0103ffff, 0x0103ffff, 0x0103ffff, 
    0x0103ffff, 0x0103ffff, 0x0103ffff, 0x0103ffff, 0x0103ffff, 0x0103ffff, 0x0103ffff, 0x0103ffff, 0x0103ffff, 
    0x0103ffff, 0x0103ffff, 0x0103ffff, 0x0103ffff, 0x0103ffff, 0x0103ffff, 0x0103ffff, 0x0103ffff, 0x0103ffff, 
    0x0103ffff, 0x0103ffff, 0x0103ffff, 0x0103ffff, 0x0103ffff, 0x0103ffff, 0x0103ffff, 0x0103ffff, 0x0103ffff, 
    0x0103ffff, 0x0103ffff, 0x0103ffff, 0x0103ffff, 0x0103ffff, 0x0103ffff, 0x0103ffff, 0x0103ffff, 0x0103ffff, 
    0x0103ffff, 0x0103ffff, 0x0103ffff, 0x0103ffff, 0x0103ffff, 0x0103ffff, 0x0103ffff, 0x0103ffff, 0x0103ffff, 
    0x0103ffff, 0x0103ffff, 0x0103ffff, 0x0103ffff, 0x0103ffff, 0x0103ffff, 0x0103ffff, 0x0103ffff, 0x0103ffff, 
    0x0103ffff, 0x0103ffff, 0x0103ffff, 0x0103ffff, 0x0103ffff, 0x0103ffff, 0x0103ffff, 0x0103ffff, 0x0103ffff, 
    0x0103ffff, 0x0103ffff, 0x0103ffff, 0x0103ffff, 0x0103ffff, 0x0103ffff, 0x0103ffff, 0x0103ffff, 0x0103ffff, 
    0x0103ffff, 0x0103ffff, 0x0103ffff, 0x0103ffff, 0x0103ffff, 0x0103ffff, 0x0103ffff, 0x0103ffff, 0x0103ffff, 
    0x0103ffff, 0x0103ffff, 0x0103ffff, 0x0103ffff, 0x0103ffff, 0x0103ffff, 0x0103ffff, 0x0103ffff, 0x0103ffff, 
    0x0103ffff, 0x0103ffff, 0x0103ffff, 0x0103ffff, 0x0103ffff, 0x0103ffff, 0x0103ffff, 0x0103ffff, 0x0103ffff, 
    0x0103ffff, 0x0103ffff, 0x0103ffff, 0x0103ffff, 0x0103ffff, 0x0103ffff, 0x0103ffff, 0x0103ffff, 0x0103ffff, 
    0x0103ffff, 0x0103ffff, 0x0103ffff, 0x0103ffff, 0x0103ffff, 0x0103ffff, 0x0103ffff, 0x0103ffff, 0x0103ffff, 
    0x0103ffff, 0x0103ffff, 0x0103ffff, 0x0103ffff, 0x0103ffff, 0x0103ffff, 0x0103ffff, 0x0103ffff, 0x0103ffff, 
    0x0103ffff, 0x0103ffff, 0x0103ffff, 0x0103ffff, 0x0103ffff, 0x0103ffff, 0x0103ffff, 0x0103ffff, 0x0103ffff, 
    0x0103ffff, 0x0103ffff, 0x0103ffff, 0x0103ffff, 0x0103ffff, 0x0103ffff, 0x0103ffff, 0x0103ffff, 0x0103ffff, 
    0x0103ffff, 0x0103ffff, 0x0103ffff, 0x0103ffff, 0x0103ffff, 0x0103ffff, 0x0103ffff, 0x0103ffff, 0x0103ffff, 
    0x0103ffff, 0x0103ffff, 0x0103ffff, 0x0103ffff, 0x0103ffff, 0x0103ffff, 0x0103ffff, 0x0103ffff, 0x0103ffff, 
    0x0103ffff, 0x0103ffff, 0x0103ffff, 0x0103ffff, 0x0103ffff, 0x0103ffff, 0x0103ffff, 0x0103ffff, 0x0103ffff, 
    0x0103ffff, 0x0103ffff, 0x0103ffff, 0x0103ffff, 0x0103ffff, 0x0103ffff, 0x0103ffff, 0x0103ffff, 0x0103ffff, 
    0x0103ffff, 0x0103ffff, 0x0103ffff, 0x0103ffff, 0x0103ffff, 0x0103ffff, 0x0103ffff, 0x0103ffff, 0x0103ffff, 
    0x0103ffff, 0x0103ffff, 0x0103ffff, 0x0103ffff, 0x0103ffff, 0x0103ffff, 0x0103ffff, 0x0103ffff, 0x0103ffff, 
    0x0103ffff, 0x0103ffff, 0x0103ffff, 0x0103ffff, 0x0103ffff, 0x0103ffff, 0x0103ffff, 0x0103ffff, 0x0103ffff, 
    0x0103ffff, 0x0103ffff, 0x0103ffff, 0x0103ffff, 0x0103ffff, 0x0103ffff, 0x0103ffff, 0x0103ffff, 0x0103ffff, 
    0x0103ffff, 0x0103ffff, 0x0103ffff, 0x0103ffff, 0x0103ffff, 0x0103ffff, 0x0103ffff, 0x0103ffff, 0x0103ffff, 
    0x0103ffff, 0x0103ffff, 0x0103ffff, 0x0103ffff, 0x0103ffff, 0x0103ffff, 0x0103ffff, 0x0103ffff, 0x0103ffff, 
    0x0103ffff, 0x0103ffff, 0x0103ffff, 0x0103ffff, 0x0103ffff, 0x0103ffff, 0x0103ffff, 0x0103ffff, 0x0103ffff, 
    0x0103ffff, 0x0103ffff, 0x0103ffff, 0x0103ffff, 0x0103ffff, 0x0103ffff, 0x0103ffff, 0x0103ffff, 0x0103ffff, 
    0x0103ffff, 0x0103ffff, 0x0103ffff, 0x0103ffff, 0x0103ffff, 0x0103ffff, 0x0103ffff, 0x0103ffff, 0x0103ffff, 
    0x0103ffff, 0x0103ffff, 0x0103ffff, 0x0103ffff, 0x0103ffff, 0x0103ffff, 0x0103ffff, 0x0103ffff, 0x0103ffff, 
    0x0103ffff, 0x0103ffff, 0x0103ffff, 0x0103ffff, 0x0103ffff, 0x0103ffff, 0x0103ffff, 0x0103ffff, 0x0103ffff, 
    0x0103ffff, 0x0103ffff, 0x0103ffff, 0x0103ffff, 0x0103ffff, 0x0103ffff, 0x0103ffff, 0x0103ffff, 0x0103ffff, 
    0x0103ffff, 0x0103ffff, 0x0103ffff, 0x0103ffff, 0x0103ffff, 0x0103ffff, 0x0103ffff, 0x0103ffff, 0x0103ffff, 
    0x0103ffff, 0x0103ffff, 0x0103ffff, 0x0103ffff, 0x0103ffff, 0x0103ffff, 0x0103ffff, 0x0103ffff, 0x0103ffff, 
    0x0103ffff, 0x0103ffff, 0x0103ffff, 0x0103ffff, 0x0103ffff, 0x0103ffff, 0x0103ffff, 0x0103ffff, 0x0103ffff, 
    0x0103ffff, 0x0103ffff, 0x0103ffff, 0x0103ffff, 0x0103ffff, 0x0103ffff, 0x0103ffff, 0x0103ffff, 0x0103ffff, 
    0x0103ffff, 0x0103ffff, 0x0103ffff, 0x0103ffff, 0x0103ffff, 0x0103ffff, 0x0103ffff, 0x0103ffff, 0x0103ffff, 
    0x0103ffff, 0x0103ffff, 0x0103ffff, 0x0103ffff, 0x0103ffff, 0x0103ffff, 0x0103ffff, 0x0103ffff, 0x0103ffff, 
    0x0103ffff, 0x0103ffff, 0x0103ffff, 0x0103ffff, 0x0103ffff, 0x0103ffff, 0x0103ffff, 0x0103ffff, 0x0103ffff, 
    0x0103ffff, 0x0103ffff, 0x0103ffff, 0x0103ffff, 0x0103ffff, 0x0103ffff, 0x0103ffff, 0x0103ffff, 0x0103ffff, 
    0x0103ffff, 0x0103ffff, 0x0103ffff, 0x0103ffff, 0x0103ffff, 0x0103ffff, 0x0103ffff, 0x0103ffff, 0x0103ffff, 
    0x0103ffff, 0x0103ffff, 0x0103ffff, 0x0103ffff, 0x0103ffff, 0x0103ffff, 0x0103ffff, 0x0103ffff, 0x0103ffff, 
    0x0103ffff, 0x0103ffff, 0x0103ffff, 0x0103ffff, 0x0103ffff, 0x0103ffff, 0x0103ffff, 0x0103ffff, 0x0103ffff, 
    0x0103ffff, 0x0103ffff, 0x0103ffff, 0x0103ffff, 0x0103ffff, 0x0103ffff, 0x01030001, 0x01030001, 0x01030001, 
    0x01030001, 0x01030001, 0x01030001, 0x01030001, 0x01030001, 0x01030001, 0x01030001, 0x01030001, 0x01030001, 
    0x01030001, 0x01030001, 0x01030001, 0x01030001, 0x01030001, 0x01030001, 0x01030001, 0x01030001, 0x01030001, 
    0x01030001, 0x01030001, 0x01030001, 0x01030001, 0x01030001, 0x01030001, 0x01030001, 0x01030001, 0x01030001, 
    0x01030001, 0x01030001, 0x01030001, 0x01030001, 0x01030001, 0x01030001, 0x01030001, 0x01030001, 0x01030001, 
    0x01030001, 0x01030001, 0x01030001, 0x01030001, 0x01030001, 0x01030001, 0x01030001, 0x01030001, 0x01030001, 
    0x01030001, 0x01030001, 0x01030001, 0x01030001, 0x01030001, 0x01030001, 0x01030001, 0x01030001, 0x01030001, 
    0x01030001, 0x01030001, 0x01030001, 0x01030001, 0x01030001, 0x01030001, 0x01030001, 0x01030001, 0x01030001, 
    0x01030001, 0x01030001, 0x01030001, 0x01030001, 0x01030001, 0x01030001, 0x01030001, 0x01030001, 0x01030001, 
    0x01030001, 0x01030001, 0x01030001, 0x01030001, 0x01030001, 0x01030001, 0x01030001, 0x01030001, 0x01030001, 
    0x01030001, 0x01030001, 0x01030001, 0x01030001, 0x01030001, 0x01030001, 0x01030001, 0x01030001, 0x01030001, 
    0x01030001, 0x01030001, 0x01030001, 0x01030001, 0x01030001, 0x01030001, 0x01030001, 0x01030001, 0x01030001, 
    0x01030001, 0x01030001, 0x01030001, 0x01030001, 0x01030001, 0x01030001, 0x01030001, 0x01030001, 0x01030001, 
    0x01030001, 0x01030001, 0x01030001, 0x01030001, 0x01030001, 0x01030001, 0x01030001, 0x01030001, 0x01030001, 
    0x01030001, 0x01030001, 0x01030001, 0x01030001, 0x01030001, 0x01030001, 0x01030001, 0x01030001, 0x01030001, 
    0x01030001, 0x01030001, 0x01030001, 0x01030001, 0x01030001, 0x01030001, 0x01030001, 0x01030001, 0x01030001, 
    0x01030001, 0x01030001, 0x01030001, 0x01030001, 0x01030001, 0x01030001, 0x01030001, 0x01030001, 0x01030001, 
    0x01030001, 0x01030001, 0x01030001, 0x01030001, 0x01030001, 0x01030001, 0x01030001, 0x01030001, 0x01030001, 
    0x01030001, 0x01030001, 0x01030001, 0x01030001, 0x01030001, 0x01030001, 0x01030001, 0x01030001, 0x01030001, 
    0x01030001, 0x01030001, 0x01030001, 0x01030001, 0x01030001, 0x01030001, 0x01030001, 0x01030001, 0x01030001, 
    0x01030001, 0x01030001, 0x01030001, 0x01030001, 0x01030001, 0x01030001, 0x01030001, 0x01030001, 0x01030001, 
    0x01030001, 0x01030001, 0x01030001, 0x01030001, 0x01030001, 0x01030001, 0x01030001, 0x01030001, 0x01030001]"

definition AC_LOOKAHEAD_2 :: "int list" where
  "AC_LOOKAHEAD_2 = [
    0x01030001, 0x01030001, 0x01030001, 0x01030001, 0x01030001, 0x01030001, 0x01030001, 0x01030001, 0x01030001, 
    0x01030001, 0x01030001, 0x01030001, 0x01030001, 0x01030001, 0x01030001, 0x01030001, 0x01030001, 0x01030001, 
    0x01030001, 0x01030001, 0x01030001, 0x01030001, 0x01030001, 0x01030001, 0x01030001, 0x01030001, 0x01030001, 
    0x01030001, 0x01030001, 0x01030001, 0x01030001, 0x01030001, 0x01030001, 0x01030001, 0x01030001, 0x01030001, 
    0x01030001, 0x01030001, 0x01030001, 0x01030001, 0x01030001, 0x01030001, 0x01030001, 0x01030001, 0x01030001, 
    0x01030001, 0x01030001, 0x01030001, 0x01030001, 0x01030001, 0x01030001, 0x01030001, 0x01030001, 0x01030001, 
    0x01030001, 0x01030001, 0x01030001, 0x01030001, 0x01030001, 0x01030001, 0x01030001, 0x01030001, 0x01030001, 
    0x01030001, 0x01030001, 0x01030001, 0x01030001, 0x01030001, 0x01030001, 0x01030001, 0x01030001, 0x01030001, 
    0x01030001, 0x01030001, 0x01030001, 0x01030001, 0x01030001, 0x01030001, 0x01030001, 0x01030001, 0x01030001, 
    0x01030001, 0x01030001, 0x01030001, 0x01030001, 0x01030001, 0x01030001, 0x01030001, 0x01030001, 0x01030001, 
    0x01030001, 0x01030001, 0x01030001, 0x01030001, 0x01030001, 0x01030001, 0x01030001, 0x01030001, 0x01030001, 
    0x01030001, 0x01030001, 0x01030001, 0x01030001, 0x01030001, 0x01030001, 0x01030001, 0x01030001, 0x01030001, 
    0x01030001, 0x01030001, 0x01030001, 0x01030001, 0x01030001, 0x01030001, 0x01030001, 0x01030001, 0x01030001, 
    0x01030001, 0x01030001, 0x01030001, 0x01030001, 0x01030001, 0x01030001, 0x01030001, 0x01030001, 0x01030001, 
    0x01030001, 0x01030001, 0x01030001, 0x01030001, 0x01030001, 0x01030001, 0x01030001, 0x01030001, 0x01030001, 
    0x01030001, 0x01030001, 0x01030001, 0x01030001, 0x01030001, 0x01030001, 0x01030001, 0x01030001, 0x01030001, 
    0x01030001, 0x01030001, 0x01030001, 0x01030001, 0x01030001, 0x01030001, 0x01030001, 0x01030001, 0x01030001, 
    0x01030001, 0x01030001, 0x01030001, 0x01030001, 0x01030001, 0x01030001, 0x01030001, 0x01030001, 0x01030001, 
    0x01030001, 0x01030001, 0x01030001, 0x01030001, 0x01030001, 0x01030001, 0x01030001, 0x01030001, 0x01030001, 
    0x01030001, 0x01030001, 0x01030001, 0x01030001, 0x01030001, 0x01030001, 0x01030001, 0x01030001, 0x01030001, 
    0x01030001, 0x01030001, 0x01030001, 0x01030001, 0x01030001, 0x01030001, 0x01030001, 0x01030001, 0x01030001, 
    0x01030001, 0x01030001, 0x01030001, 0x01030001, 0x01030001, 0x01030001, 0x01030001, 0x01030001, 0x01030001, 
    0x01030001, 0x01030001, 0x01030001, 0x01030001, 0x01030001, 0x01030001, 0x01030001, 0x01030001, 0x01030001, 
    0x01030001, 0x01030001, 0x01030001, 0x01030001, 0x01030001, 0x01030001, 0x01030001, 0x01030001, 0x01030001, 
    0x01030001, 0x01030001, 0x01030001, 0x01030001, 0x01030001, 0x01030001, 0x01030001, 0x01030001, 0x01030001, 
    0x01030001, 0x01030001, 0x01030001, 0x01030001, 0x01030001, 0x01030001, 0x01030001, 0x01030001, 0x01030001, 
    0x01030001, 0x01030001, 0x01030001, 0x01030001, 0x01030001, 0x01030001, 0x01030001, 0x01030001, 0x01030001, 
    0x01030001, 0x01030001, 0x01030001, 0x01030001, 0x01030001, 0x01030001, 0x01030001, 0x01030001, 0x01030001, 
    0x01030001, 0x01030001, 0x01030001, 0x01030001, 0x01030001, 0x01030001, 0x01030001, 0x01030001, 0x01030001, 
    0x01030001, 0x01030001, 0x01030001, 0x01030001, 0x01030001, 0x01030001, 0x01030001, 0x01030001, 0x01030001, 
    0x01030001, 0x01030001, 0x01030001, 0x01030001, 0x01030001, 0x01030001, 0x01030001, 0x01030001, 0x01030001, 
    0x01030001, 0x01030001, 0x01030001, 0x01030001, 0x01030001, 0x01030001, 0x01030001, 0x01030001, 0x01030001, 
    0x01030001, 0x01030001, 0x01030001, 0x01030001, 0x01030001, 0x01030001, 0x01030001, 0x01030001, 0x01030001, 
    0x01030001, 0x01030001, 0x01030001, 0x01030001, 0x01030001, 0x01030001, 0x01030001, 0x01030001, 0x01030001, 
    0x01030001, 0x01030001, 0x01030001, 0x01030001, 0x01030001, 0x01030001, 0x01030001, 0x01030001, 0x01030001, 
    0x01030001, 0x01030001, 0x01030001, 0x01030001, 0x01030001, 0x00000000, 0x00000000, 0x00000000, 0x00000000, 
    0x00000000, 0x00000000, 0x00000000, 0x00000000, 0x00000000, 0x00000000, 0x00000000, 0x00000000, 0x00000000, 
    0x00000000, 0x00000000, 0x00000000, 0x00000000, 0x00000000, 0x00000000, 0x00000000, 0x00000000, 0x00000000, 
    0x00000000, 0x00000000, 0x00000000, 0x00000000, 0x00000000, 0x00000000, 0x00000000, 0x00000000, 0x00000000, 
    0x00000000, 0x200c0000, 0x210c0000, 0x220c0000, 0x230c0000, 0x240c0000, 0x250c0000, 0x260c0000, 0x270c0000, 
    0x280c0000, 0x290c0000, 0x2a0c0000, 0x2b0c0000, 0x2c0c0000, 0x2d0c0000, 0x2e0c0000, 0x2f0c0000, 0x300c0000, 
    0x310c0000, 0x320c0000, 0x330c0000, 0x340c0000, 0x350c0000, 0x360c0000, 0x370c0000, 0x380c0000, 0x390c0000, 
    0x3a0c0000, 0x3b0c0000, 0x3c0c0000, 0x3d0c0000, 0x3e0c0000, 0x3f0c0000, 0x100a0000, 0x100a0000, 0x100a0000, 
    0x100a0000, 0x110a0000, 0x110a0000, 0x110a0000, 0x110a0000, 0x120a0000, 0x120a0000, 0x120a0000, 0x120a0000, 
    0x130a0000, 0x130a0000, 0x130a0000, 0x130a0000, 0x140a0000, 0x140a0000, 0x140a0000, 0x140a0000, 0x150a0000, 
    0x150a0000, 0x150a0000, 0x150a0000, 0x160a0000, 0x160a0000, 0x160a0000, 0x160a0000, 0x170a0000, 0x170a0000, 
    0x170a0000, 0x170a0000, 0x180a0000, 0x180a0000, 0x180a0000, 0x180a0000, 0x190a0000, 0x190a0000, 0x190a0000, 
    0x190a0000, 0x1a0a0000, 0x1a0a0000, 0x1a0a0000, 0x1a0a0000, 0x1b0a0000, 0x1b0a0000, 0x1b0a0000, 0x1b0a0000, 
    0x1c0a0000, 0x1c0a0000, 0x1c0a0000, 0x1c0a0000, 0x1d0a0000, 0x1d0a0000, 0x1d0a0000, 0x1d0a0000, 0x1e0a0000, 
    0x1e0a0000, 0x1e0a0000, 0x1e0a0000, 0x1f0a0000, 0x1f0a0000, 0x1f0a0000, 0x1f0a0000, 0x08080000, 0x08080000, 
    0x08080000, 0x08080000, 0x08080000, 0x08080000, 0x08080000, 0x08080000, 0x08080000, 0x08080000, 0x08080000, 
    0x08080000, 0x08080000, 0x08080000, 0x08080000, 0x08080000, 0x09080000, 0x09080000, 0x09080000, 0x09080000, 
    0x09080000, 0x09080000, 0x09080000, 0x09080000, 0x09080000, 0x09080000, 0x09080000, 0x09080000, 0x09080000, 
    0x09080000, 0x09080000, 0x09080000, 0x0a080000, 0x0a080000, 0x0a080000, 0x0a080000, 0x0a080000, 0x0a080000, 
    0x0a080000, 0x0a080000, 0x0a080000, 0x0a080000, 0x0a080000, 0x0a080000, 0x0a080000, 0x0a080000, 0x0a080000, 
    0x0a080000, 0x0b080000, 0x0b080000, 0x0b080000, 0x0b080000, 0x0b080000, 0x0b080000, 0x0b080000, 0x0b080000, 
    0x0b080000, 0x0b080000, 0x0b080000, 0x0b080000, 0x0b080000, 0x0b080000, 0x0b080000, 0x0b080000, 0x0c080000, 
    0x0c080000, 0x0c080000, 0x0c080000, 0x0c080000, 0x0c080000, 0x0c080000, 0x0c080000, 0x0c080000, 0x0c080000, 
    0x0c080000, 0x0c080000, 0x0c080000, 0x0c080000, 0x0c080000, 0x0c080000, 0x0d080000, 0x0d080000, 0x0d080000, 
    0x0d080000, 0x0d080000, 0x0d080000, 0x0d080000, 0x0d080000, 0x0d080000, 0x0d080000, 0x0d080000, 0x0d080000, 
    0x0d080000, 0x0d080000, 0x0d080000, 0x0d080000, 0x0e080000, 0x0e080000, 0x0e080000, 0x0e080000, 0x0e080000, 
    0x0e080000, 0x0e080000, 0x0e080000, 0x0e080000, 0x0e080000, 0x0e080000, 0x0e080000, 0x0e080000, 0x0e080000, 
    0x0e080000, 0x0e080000, 0x0f080000, 0x0f080000, 0x0f080000, 0x0f080000, 0x0f080000, 0x0f080000, 0x0f080000, 
    0x0f080000, 0x0f080000, 0x0f080000, 0x0f080000, 0x0f080000, 0x0f080000, 0x0f080000, 0x0f080000, 0x0f080000, 
    0x04060000, 0x04060000, 0x04060000, 0x04060000, 0x04060000, 0x04060000, 0x04060000, 0x04060000, 0x04060000, 
    0x04060000, 0x04060000, 0x04060000, 0x04060000, 0x04060000, 0x04060000, 0x04060000, 0x04060000, 0x04060000, 
    0x04060000, 0x04060000, 0x04060000, 0x04060000, 0x04060000, 0x04060000, 0x04060000, 0x04060000, 0x04060000, 
    0x04060000, 0x04060000, 0x04060000, 0x04060000, 0x04060000, 0x04060000, 0x04060000, 0x04060000, 0x04060000, 
    0x04060000, 0x04060000, 0x04060000, 0x04060000, 0x04060000, 0x04060000, 0x04060000, 0x04060000, 0x04060000, 
    0x04060000, 0x04060000, 0x04060000, 0x04060000, 0x04060000, 0x04060000, 0x04060000, 0x04060000, 0x04060000, 
    0x04060000, 0x04060000, 0x04060000, 0x04060000, 0x04060000, 0x04060000, 0x04060000, 0x04060000, 0x04060000, 
    0x04060000, 0x05060000, 0x05060000, 0x05060000, 0x05060000, 0x05060000, 0x05060000, 0x05060000, 0x05060000, 
    0x05060000, 0x05060000, 0x05060000, 0x05060000, 0x05060000, 0x05060000, 0x05060000, 0x05060000, 0x05060000, 
    0x05060000, 0x05060000, 0x05060000, 0x05060000, 0x05060000, 0x05060000, 0x05060000, 0x05060000, 0x05060000, 
    0x05060000, 0x05060000, 0x05060000, 0x05060000, 0x05060000, 0x05060000, 0x05060000, 0x05060000, 0x05060000, 
    0x05060000, 0x05060000, 0x05060000, 0x05060000, 0x05060000, 0x05060000, 0x05060000, 0x05060000, 0x05060000, 
    0x05060000, 0x05060000, 0x05060000, 0x05060000, 0x05060000, 0x05060000, 0x05060000, 0x05060000, 0x05060000, 
    0x05060000, 0x05060000, 0x05060000, 0x05060000, 0x05060000, 0x05060000, 0x05060000, 0x05060000, 0x05060000, 
    0x05060000, 0x05060000, 0x06060000, 0x06060000, 0x06060000, 0x06060000, 0x06060000, 0x06060000, 0x06060000, 
    0x06060000, 0x06060000, 0x06060000, 0x06060000, 0x06060000, 0x06060000, 0x06060000, 0x06060000, 0x06060000, 
    0x06060000, 0x06060000, 0x06060000, 0x06060000, 0x06060000, 0x06060000, 0x06060000, 0x06060000, 0x06060000, 
    0x06060000, 0x06060000, 0x06060000, 0x06060000, 0x06060000, 0x06060000, 0x06060000, 0x06060000, 0x06060000, 
    0x06060000, 0x06060000, 0x06060000, 0x06060000, 0x06060000, 0x06060000, 0x06060000, 0x06060000, 0x06060000, 
    0x06060000, 0x06060000, 0x06060000, 0x06060000, 0x06060000, 0x06060000, 0x06060000, 0x06060000, 0x06060000, 
    0x06060000, 0x06060000, 0x06060000, 0x06060000, 0x06060000, 0x06060000, 0x06060000, 0x06060000, 0x06060000, 
    0x06060000, 0x06060000, 0x06060000, 0x07060000, 0x07060000, 0x07060000, 0x07060000, 0x07060000, 0x07060000, 
    0x07060000, 0x07060000, 0x07060000, 0x07060000, 0x07060000, 0x07060000, 0x07060000, 0x07060000, 0x07060000, 
    0x07060000, 0x07060000, 0x07060000, 0x07060000, 0x07060000, 0x07060000, 0x07060000, 0x07060000, 0x07060000, 
    0x07060000, 0x07060000, 0x07060000, 0x07060000, 0x07060000, 0x07060000, 0x07060000, 0x07060000, 0x07060000, 
    0x07060000, 0x07060000, 0x07060000, 0x07060000, 0x07060000, 0x07060000, 0x07060000, 0x07060000, 0x07060000, 
    0x07060000, 0x07060000, 0x07060000, 0x07060000, 0x07060000, 0x07060000, 0x07060000, 0x07060000, 0x07060000, 
    0x07060000, 0x07060000, 0x07060000, 0x07060000, 0x07060000, 0x07060000, 0x07060000, 0x07060000, 0x07060000, 
    0x07060000, 0x07060000, 0x07060000, 0x07060000, 0x02040000, 0x02040000, 0x02040000, 0x02040000, 0x02040000, 
    0x02040000, 0x02040000, 0x02040000, 0x02040000, 0x02040000, 0x02040000, 0x02040000, 0x02040000, 0x02040000, 
    0x02040000, 0x02040000, 0x02040000, 0x02040000, 0x02040000, 0x02040000, 0x02040000, 0x02040000, 0x02040000, 
    0x02040000, 0x02040000, 0x02040000, 0x02040000, 0x02040000, 0x02040000, 0x02040000, 0x02040000, 0x02040000]"

definition AC_LOOKAHEAD_3 :: "int list" where
  "AC_LOOKAHEAD_3 = [
    0x02040000, 0x02040000, 0x02040000, 0x02040000, 0x02040000, 0x02040000, 0x02040000, 0x02040000, 0x02040000, 
    0x02040000, 0x02040000, 0x02040000, 0x02040000, 0x02040000, 0x02040000, 0x02040000, 0x02040000, 0x02040000, 
    0x02040000, 0x02040000, 0x02040000, 0x02040000, 0x02040000, 0x02040000, 0x02040000, 0x02040000, 0x02040000, 
    0x02040000, 0x02040000, 0x02040000, 0x02040000, 0x02040000, 0x02040000, 0x02040000, 0x02040000, 0x02040000, 
    0x02040000, 0x02040000, 0x02040000, 0x02040000, 0x02040000, 0x02040000, 0x02040000, 0x02040000, 0x02040000, 
    0x02040000, 0x02040000, 0x02040000, 0x02040000, 0x02040000, 0x02040000, 0x02040000, 0x02040000, 0x02040000, 
    0x02040000, 0x02040000, 0x02040000, 0x02040000, 0x02040000, 0x02040000, 0x02040000, 0x02040000, 0x02040000, 
    0x02040000, 0x02040000, 0x02040000, 0x02040000, 0x02040000, 0x02040000, 0x02040000, 0x02040000, 0x02040000, 
    0x02040000, 0x02040000, 0x02040000, 0x02040000, 0x02040000, 0x02040000, 0x02040000, 0x02040000, 0x02040000, 
    0x02040000, 0x02040000, 0x02040000, 0x02040000, 0x02040000, 0x02040000, 0x02040000, 0x02040000, 0x02040000, 
    0x02040000, 0x02040000, 0x02040000, 0x02040000, 0x02040000, 0x02040000, 0x02040000, 0x02040000, 0x02040000, 
    0x02040000, 0x02040000, 0x02040000, 0x02040000, 0x02040000, 0x02040000, 0x02040000, 0x02040000, 0x02040000, 
    0x02040000, 0x02040000, 0x02040000, 0x02040000, 0x02040000, 0x02040000, 0x02040000, 0x02040000, 0x02040000, 
    0x02040000, 0x02040000, 0x02040000, 0x02040000, 0x02040000, 0x02040000, 0x02040000, 0x02040000, 0x02040000, 
    0x02040000, 0x02040000, 0x02040000, 0x02040000, 0x02040000, 0x02040000, 0x02040000, 0x02040000, 0x02040000, 
    0x02040000, 0x02040000, 0x02040000, 0x02040000, 0x02040000, 0x02040000, 0x02040000, 0x02040000, 0x02040000, 
    0x02040000, 0x02040000, 0x02040000, 0x02040000, 0x02040000, 0x02040000, 0x02040000, 0x02040000, 0x02040000, 
    0x02040000, 0x02040000, 0x02040000, 0x02040000, 0x02040000, 0x02040000, 0x02040000, 0x02040000, 0x02040000, 
    0x02040000, 0x02040000, 0x02040000, 0x02040000, 0x02040000, 0x02040000, 0x02040000, 0x02040000, 0x02040000, 
    0x02040000, 0x02040000, 0x02040000, 0x02040000, 0x02040000, 0x02040000, 0x02040000, 0x02040000, 0x02040000, 
    0x02040000, 0x02040000, 0x02040000, 0x02040000, 0x02040000, 0x02040000, 0x02040000, 0x02040000, 0x02040000, 
    0x02040000, 0x02040000, 0x02040000, 0x02040000, 0x02040000, 0x02040000, 0x02040000, 0x02040000, 0x02040000, 
    0x02040000, 0x02040000, 0x02040000, 0x02040000, 0x02040000, 0x02040000, 0x02040000, 0x02040000, 0x02040000, 
    0x02040000, 0x02040000, 0x02040000, 0x02040000, 0x02040000, 0x02040000, 0x02040000, 0x02040000, 0x02040000, 
    0x02040000, 0x02040000, 0x02040000, 0x02040000, 0x02040000, 0x02040000, 0x02040000, 0x02040000, 0x03040000, 
    0x03040000, 0x03040000, 0x03040000, 0x03040000, 0x03040000, 0x03040000, 0x03040000, 0x03040000, 0x03040000, 
    0x03040000, 0x03040000, 0x03040000, 0x03040000, 0x03040000, 0x03040000, 0x03040000, 0x03040000, 0x03040000, 
    0x03040000, 0x03040000, 0x03040000, 0x03040000, 0x03040000, 0x03040000, 0x03040000, 0x03040000, 0x03040000, 
    0x03040000, 0x03040000, 0x03040000, 0x03040000, 0x03040000, 0x03040000, 0x03040000, 0x03040000, 0x03040000, 
    0x03040000, 0x03040000, 0x03040000, 0x03040000, 0x03040000, 0x03040000, 0x03040000, 0x03040000, 0x03040000, 
    0x03040000, 0x03040000, 0x03040000, 0x03040000, 0x03040000, 0x03040000, 0x03040000, 0x03040000, 0x03040000, 
    0x03040000, 0x03040000, 0x03040000, 0x03040000, 0x03040000, 0x03040000, 0x03040000, 0x03040000, 0x03040000, 
    0x03040000, 0x03040000, 0x03040000, 0x03040000, 0x03040000, 0x03040000, 0x03040000, 0x03040000, 0x03040000, 
    0x03040000, 0x03040000, 0x03040000, 0x03040000, 0x03040000, 0x03040000, 0x03040000, 0x03040000, 0x03040000, 
    0x03040000, 0x03040000, 0x03040000, 0x03040000, 0x03040000, 0x03040000, 0x03040000, 0x03040000, 0x03040000, 
    0x03040000, 0x03040000, 0x03040000, 0x03040000, 0x03040000, 0x03040000, 0x03040000, 0x03040000, 0x03040000, 
    0x03040000, 0x03040000, 0x03040000, 0x03040000, 0x03040000, 0x03040000, 0x03040000, 0x03040000, 0x03040000, 
    0x03040000, 0x03040000, 0x03040000, 0x03040000, 0x03040000, 0x03040000, 0x03040000, 0x03040000, 0x03040000, 
    0x03040000, 0x03040000, 0x03040000, 0x03040000, 0x03040000, 0x03040000, 0x03040000, 0x03040000, 0x03040000, 
    0x03040000, 0x03040000, 0x03040000, 0x03040000, 0x03040000, 0x03040000, 0x03040000, 0x03040000, 0x03040000, 
    0x03040000, 0x03040000, 0x03040000, 0x03040000, 0x03040000, 0x03040000, 0x03040000, 0x03040000, 0x03040000, 
    0x03040000, 0x03040000, 0x03040000, 0x03040000, 0x03040000, 0x03040000, 0x03040000, 0x03040000, 0x03040000, 
    0x03040000, 0x03040000, 0x03040000, 0x03040000, 0x03040000, 0x03040000, 0x03040000, 0x03040000, 0x03040000, 
    0x03040000, 0x03040000, 0x03040000, 0x03040000, 0x03040000, 0x03040000, 0x03040000, 0x03040000, 0x03040000, 
    0x03040000, 0x03040000, 0x03040000, 0x03040000, 0x03040000, 0x03040000, 0x03040000, 0x03040000, 0x03040000, 
    0x03040000, 0x03040000, 0x03040000, 0x03040000, 0x03040000, 0x03040000, 0x03040000, 0x03040000, 0x03040000, 
    0x03040000, 0x03040000, 0x03040000, 0x03040000, 0x03040000, 0x03040000, 0x03040000, 0x03040000, 0x03040000, 
    0x03040000, 0x03040000, 0x03040000, 0x03040000, 0x03040000, 0x03040000, 0x03040000, 0x03040000, 0x03040000, 
    0x03040000, 0x03040000, 0x03040000, 0x03040000, 0x03040000, 0x03040000, 0x03040000, 0x03040000, 0x03040000, 
    0x03040000, 0x03040000, 0x03040000, 0x03040000, 0x03040000, 0x03040000, 0x03040000, 0x03040000, 0x03040000, 
    0x03040000, 0x03040000, 0x03040000, 0x03040000, 0x03040000, 0x03040000, 0x03040000, 0x03040000, 0x03040000, 
    0x03040000, 0x03040000, 0x03040000, 0x03040000, 0x03040000, 0x03040000, 0x03040000, 0x03040000, 0x03040000, 
    0x03040000, 0x03040000, 0x03040000, 0x03040000, 0x03040000, 0x03040000, 0x03040000, 0x03040000, 0x03040000, 
    0x03040000, 0x03040000, 0x03040000, 0x01020000, 0x01020000, 0x01020000, 0x01020000, 0x01020000, 0x01020000, 
    0x01020000, 0x01020000, 0x01020000, 0x01020000, 0x01020000, 0x01020000, 0x01020000, 0x01020000, 0x01020000, 
    0x01020000, 0x01020000, 0x01020000, 0x01020000, 0x01020000, 0x01020000, 0x01020000, 0x01020000, 0x01020000, 
    0x01020000, 0x01020000, 0x01020000, 0x01020000, 0x01020000, 0x01020000, 0x01020000, 0x01020000, 0x01020000, 
    0x01020000, 0x01020000, 0x01020000, 0x01020000, 0x01020000, 0x01020000, 0x01020000, 0x01020000, 0x01020000, 
    0x01020000, 0x01020000, 0x01020000, 0x01020000, 0x01020000, 0x01020000, 0x01020000, 0x01020000, 0x01020000, 
    0x01020000, 0x01020000, 0x01020000, 0x01020000, 0x01020000, 0x01020000, 0x01020000, 0x01020000, 0x01020000, 
    0x01020000, 0x01020000, 0x01020000, 0x01020000, 0x01020000, 0x01020000, 0x01020000, 0x01020000, 0x01020000, 
    0x01020000, 0x01020000, 0x01020000, 0x01020000, 0x01020000, 0x01020000, 0x01020000, 0x01020000, 0x01020000, 
    0x01020000, 0x01020000, 0x01020000, 0x01020000, 0x01020000, 0x01020000, 0x01020000, 0x01020000, 0x01020000, 
    0x01020000, 0x01020000, 0x01020000, 0x01020000, 0x01020000, 0x01020000, 0x01020000, 0x01020000, 0x01020000, 
    0x01020000, 0x01020000, 0x01020000, 0x01020000, 0x01020000, 0x01020000, 0x01020000, 0x01020000, 0x01020000, 
    0x01020000, 0x01020000, 0x01020000, 0x01020000, 0x01020000, 0x01020000, 0x01020000, 0x01020000, 0x01020000, 
    0x01020000, 0x01020000, 0x01020000, 0x01020000, 0x01020000, 0x01020000, 0x01020000, 0x01020000, 0x01020000, 
    0x01020000, 0x01020000, 0x01020000, 0x01020000, 0x01020000, 0x01020000, 0x01020000, 0x01020000, 0x01020000, 
    0x01020000, 0x01020000, 0x01020000, 0x01020000, 0x01020000, 0x01020000, 0x01020000, 0x01020000, 0x01020000, 
    0x01020000, 0x01020000, 0x01020000, 0x01020000, 0x01020000, 0x01020000, 0x01020000, 0x01020000, 0x01020000, 
    0x01020000, 0x01020000, 0x01020000, 0x01020000, 0x01020000, 0x01020000, 0x01020000, 0x01020000, 0x01020000, 
    0x01020000, 0x01020000, 0x01020000, 0x01020000, 0x01020000, 0x01020000, 0x01020000, 0x01020000, 0x01020000, 
    0x01020000, 0x01020000, 0x01020000, 0x01020000, 0x01020000, 0x01020000, 0x01020000, 0x01020000, 0x01020000, 
    0x01020000, 0x01020000, 0x01020000, 0x01020000, 0x01020000, 0x01020000, 0x01020000, 0x01020000, 0x01020000, 
    0x01020000, 0x01020000, 0x01020000, 0x01020000, 0x01020000, 0x01020000, 0x01020000, 0x01020000, 0x01020000, 
    0x01020000, 0x01020000, 0x01020000, 0x01020000, 0x01020000, 0x01020000, 0x01020000, 0x01020000, 0x01020000, 
    0x01020000, 0x01020000, 0x01020000, 0x01020000, 0x01020000, 0x01020000, 0x01020000, 0x01020000, 0x01020000, 
    0x01020000, 0x01020000, 0x01020000, 0x01020000, 0x01020000, 0x01020000, 0x01020000, 0x01020000, 0x01020000, 
    0x01020000, 0x01020000, 0x01020000, 0x01020000, 0x01020000, 0x01020000, 0x01020000, 0x01020000, 0x01020000, 
    0x01020000, 0x01020000, 0x01020000, 0x01020000, 0x01020000, 0x01020000, 0x01020000, 0x01020000, 0x01020000, 
    0x01020000, 0x01020000, 0x01020000, 0x01020000, 0x01020000, 0x01020000, 0x01020000, 0x01020000, 0x01020000, 
    0x01020000, 0x01020000, 0x01020000, 0x01020000, 0x01020000, 0x01020000, 0x01020000, 0x01020000, 0x01020000, 
    0x01020000, 0x01020000, 0x01020000, 0x01020000, 0x01020000, 0x01020000, 0x01020000, 0x01020000, 0x01020000, 
    0x01020000, 0x01020000, 0x01020000, 0x01020000, 0x01020000, 0x01020000, 0x01020000, 0x01020000, 0x01020000, 
    0x01020000, 0x01020000, 0x01020000, 0x01020000, 0x01020000, 0x01020000, 0x01020000, 0x01020000, 0x01020000, 
    0x01020000, 0x01020000, 0x01020000, 0x01020000, 0x01020000, 0x01020000, 0x01020000, 0x01020000, 0x01020000, 
    0x01020000, 0x01020000, 0x01020000, 0x01020000, 0x01020000, 0x01020000, 0x01020000, 0x01020000, 0x01020000, 
    0x01020000, 0x01020000, 0x01020000, 0x01020000, 0x01020000, 0x01020000, 0x01020000, 0x01020000, 0x01020000, 
    0x01020000, 0x01020000, 0x01020000, 0x01020000, 0x01020000, 0x01020000, 0x01020000, 0x01020000, 0x01020000, 
    0x01020000, 0x01020000, 0x01020000, 0x01020000, 0x01020000, 0x01020000, 0x01020000, 0x01020000, 0x01020000, 
    0x01020000, 0x01020000, 0x01020000, 0x01020000, 0x01020000, 0x01020000, 0x01020000, 0x01020000, 0x01020000, 
    0x01020000, 0x01020000, 0x01020000, 0x01020000, 0x01020000, 0x01020000, 0x01020000, 0x01020000, 0x01020000, 
    0x01020000, 0x01020000, 0x01020000, 0x01020000, 0x01020000, 0x01020000, 0x01020000, 0x01020000, 0x01020000, 
    0x01020000, 0x01020000, 0x01020000, 0x01020000, 0x01020000, 0x01020000, 0x01020000, 0x01020000, 0x01020000, 
    0x01020000, 0x01020000, 0x01020000, 0x01020000, 0x01020000, 0x01020000, 0x01020000, 0x01020000, 0x01020000, 
    0x01020000, 0x01020000, 0x01020000, 0x01020000, 0x01020000, 0x01020000, 0x01020000, 0x01020000, 0x01020000]"

definition AC_LOOKAHEAD_4 :: "int list" where
  "AC_LOOKAHEAD_4 = [
    0x01020000, 0x01020000, 0x01020000, 0x01020000, 0x01020000, 0x01020000, 0x01020000, 0x01020000, 0x01020000, 
    0x01020000, 0x01020000, 0x01020000, 0x01020000, 0x01020000, 0x01020000, 0x01020000, 0x01020000, 0x01020000, 
    0x01020000, 0x01020000, 0x01020000, 0x01020000, 0x01020000, 0x01020000, 0x01020000, 0x01020000, 0x01020000, 
    0x01020000, 0x01020000, 0x01020000, 0x01020000, 0x01020000, 0x01020000, 0x01020000, 0x01020000, 0x01020000, 
    0x01020000, 0x01020000, 0x01020000, 0x01020000, 0x01020000, 0x01020000, 0x01020000, 0x01020000, 0x01020000, 
    0x01020000, 0x01020000, 0x01020000, 0x01020000, 0x01020000, 0x01020000, 0x01020000, 0x01020000, 0x01020000, 
    0x01020000, 0x01020000, 0x01020000, 0x01020000, 0x01020000, 0x01020000, 0x01020000, 0x01020000, 0x01020000, 
    0x01020000, 0x01020000, 0x01020000, 0x01020000, 0x01020000, 0x01020000, 0x01020000, 0x01020000, 0x01020000, 
    0x01020000, 0x01020000, 0x01020000, 0x01020000, 0x01020000, 0x01020000, 0x01020000, 0x01020000, 0x01020000, 
    0x01020000, 0x01020000, 0x01020000, 0x01020000, 0x01020000, 0x01020000, 0x01020000, 0x01020000, 0x01020000, 
    0x01020000, 0x01020000, 0x01020000, 0x01020000, 0x01020000, 0x01020000, 0x01020000, 0x01020000, 0x01020000, 
    0x01020000, 0x01020000, 0x01020000, 0x01020000, 0x01020000, 0x01020000, 0x01020000, 0x01020000, 0x01020000, 
    0x01020000, 0x01020000, 0x01020000, 0x01020000, 0x01020000, 0x01020000, 0x01020000, 0x01020000, 0x01020000, 
    0x01020000, 0x01020000, 0x01020000, 0x01020000, 0x01020000, 0x01020000, 0x01020000, 0x01020000, 0x01020000, 
    0x01020000, 0x01020000, 0x01020000, 0x01020000, 0x01020000, 0x01020000, 0x01020000, 0x01020000, 0x01020000, 
    0x01020000, 0x01020000, 0x01020000, 0x01020000, 0x01020000, 0x01020000, 0x01020000, 0x01020000, 0x01020000, 
    0x01020000, 0x01020000, 0x01020000, 0x01020000, 0x01020000, 0x01020000, 0x01020000, 0x01020000, 0x01020000, 
    0x01020000, 0x01020000, 0x01020000, 0x01020000, 0x01020000, 0x01020000, 0x01020000, 0x01020000, 0x01020000, 
    0x01020000, 0x01020000, 0x01020000, 0x01020000, 0x01020000, 0x01020000, 0x01020000, 0x01020000, 0x01020000, 
    0x01020000, 0x01020000, 0x01020000, 0x01020000, 0x01020000, 0x01020000, 0x01020000, 0x01020000, 0x01020000, 
    0x01020000, 0x01020000, 0x01020000, 0x01020000, 0x01020000, 0x01020000, 0x01020000, 0x01020000, 0x01020000, 
    0x01020000, 0x01020000, 0x01020000, 0x01020000, 0x01020000, 0x01020000, 0x01020000, 0x01020000, 0x01020000, 
    0x01020000, 0x01020000, 0x01020000, 0x01020000, 0x01020000, 0x01020000, 0x01020000, 0x01020000, 0x01020000, 
    0x01020000, 0x01020000, 0x01020000, 0x01020000, 0x01020000, 0x01020000, 0x01020000, 0x01020000, 0x01020000, 
    0x01020000, 0x01020000, 0x01020000, 0x01020000, 0x01020000, 0x01020000, 0x01020000, 0x01020000, 0x01020000, 
    0x01020000, 0x01020000, 0x01020000, 0x01020000, 0x01020000, 0x01020000, 0x01020000, 0x01020000, 0x01020000, 
    0x01020000, 0x01020000, 0x01020000, 0x01020000, 0x01020000, 0x01020000, 0x01020000, 0x01020000, 0x01020000, 
    0x01020000, 0x01020000, 0x01020000, 0x01020000, 0x01020000, 0x01020000, 0x01020000, 0x01020000, 0x01020000, 
    0x01020000, 0x01020000, 0x01020000, 0x01020000, 0x01020000, 0x01020000, 0x01020000, 0x01020000, 0x01020000, 
    0x01020000, 0x01020000, 0x01020000, 0x01020000, 0x01020000, 0x01020000, 0x01020000, 0x01020000, 0x01020000, 
    0x01020000, 0x01020000, 0x01020000, 0x01020000, 0x01020000, 0x01020000, 0x01020000, 0x01020000, 0x01020000, 
    0x01020000, 0x01020000, 0x01020000, 0x01020000, 0x01020000, 0x01020000, 0x01020000, 0x01020000, 0x01020000, 
    0x01020000, 0x01020000, 0x01020000, 0x01020000, 0x01020000, 0x01020000, 0x01020000, 0x01020000, 0x01020000, 
    0x01020000, 0x01020000, 0x01020000, 0x01020000, 0x01020000, 0x01020000, 0x01020000, 0x01020000, 0x01020000, 
    0x01020000, 0x01020000, 0x01020000, 0x01020000, 0x01020000, 0x01020000, 0x01020000, 0x01020000, 0x01020000, 
    0x01020000, 0x01020000, 0x01020000, 0x01020000, 0x01020000, 0x01020000, 0x01020000, 0x01020000, 0x01020000, 
    0x01020000, 0x01020000, 0x01020000, 0x01020000, 0x01020000, 0x01020000, 0x01020000, 0x01020000, 0x01020000, 
    0x01020000, 0x01020000, 0x01020000, 0x01020000, 0x01020000, 0x01020000, 0x01020000, 0x01020000, 0x01020000, 
    0x01020000, 0x01020000, 0x01020000, 0x01020000, 0x01020000, 0x01020000, 0x01020000, 0x01020000, 0x01020000, 
    0x01020000, 0x01020000, 0x01020000, 0x01020000, 0x01020000, 0x01020000, 0x01020000, 0x01020000, 0x01020000, 
    0x01020000, 0x01020000, 0x01020000, 0x01020000, 0x01020000, 0x01020000, 0x01020000, 0x01020000, 0x01020000, 
    0x01020000, 0x01020000, 0x01020000, 0x01020000, 0x01020000, 0x01020000, 0x01020000, 0x01020000, 0x01020000, 
    0x01020000, 0x01020000, 0x01020000, 0x01020000, 0x01020000, 0x01020000, 0x01020000, 0x01020000, 0x01020000, 
    0x01020000, 0x01020000, 0x01020000, 0x01020000, 0x01020000, 0x01020000, 0x01020000, 0x01020000, 0x01020000, 
    0x01020000, 0x01020000, 0x01020000, 0x01020000, 0x01020000, 0x01020000, 0x01020000, 0x01020000, 0x01020000, 
    0x01020000, 0x01020000, 0x01020000, 0x01020000, 0x01020000, 0x01020000, 0x01020000, 0x01020000, 0x01020000, 
    0x01020000, 0x01020000, 0x01020000, 0x01020000, 0x01020000, 0x01020000, 0x01020000, 0x01020000, 0x01020000, 
    0x01020000, 0x01020000, 0x01020000, 0x01020000, 0x01020000, 0x01020000, 0x01020000, 0x01020000, 0x01020000, 
    0x01020000, 0x01020000, 0x01020000, 0x01020000, 0x01020000, 0x01020000, 0x01020000, 0x01020000, 0x01020000, 
    0x01020000, 0x01020000, 0x01020000, 0x01020000, 0x01020000, 0x01020000, 0x01020000, 0x01020000, 0x01020000, 
    0x01020000, 0x01020000, 0x01020000, 0x01020000, 0x01020000, 0x01020000, 0x01020000, 0x01020000, 0x01020000, 
    0x01020000, 0x01020000, 0x01020000, 0x01020000, 0x01020000, 0x01020000, 0x01020000, 0x01020000, 0x01020000, 
    0x01020000, 0x01020000, 0x01020000, 0x01020000, 0x01020000, 0x01020000, 0x01020000, 0x01020000, 0x01020000, 
    0x01020000, 0x01020000, 0x01020000, 0x01020000, 0x01020000, 0x01020000, 0x01020000, 0x01020000, 0x01020000, 
    0x01020000, 0x01020000, 0x01020000, 0x01020000, 0x01020000, 0x01020000, 0x01020000, 0x01020000, 0x01020000, 
    0x01020000, 0x01020000, 0x01020000, 0x01020000, 0x01020000, 0x01020000, 0x01020000, 0x01020000, 0x01020000, 
    0x01020000, 0x01020000, 0x01020000, 0x01020000, 0x01020000, 0x01020000, 0x01020000, 0x01020000, 0x01020000, 
    0x01020000, 0x01020000, 0x01020000, 0x01020000, 0x01020000, 0x01020000, 0x01020000, 0x01020000, 0x01020000, 
    0x01020000, 0x01020000, 0x01020000, 0x01020000, 0x01020000, 0x01020000, 0x01020000, 0x01020000, 0x01020000, 
    0x01020000, 0x01020000, 0x01020000, 0x01020000, 0x01020000, 0x01020000, 0x01020000, 0x01020000, 0x01020000, 
    0x01020000, 0x01020000, 0x01020000, 0x01020000, 0x01020000, 0x01020000, 0x01020000, 0x01020000, 0x01020000, 
    0x01020000, 0x01020000, 0x01020000, 0x01020000, 0x01020000, 0x01020000, 0x01020000, 0x01020000, 0x01020000, 
    0x01020000, 0x01020000, 0x01020000, 0x01020000, 0x01020000, 0x01020000, 0x01020000, 0x01020000, 0x01020000, 
    0x01020000, 0x01020000, 0x01020000, 0x01020000, 0x01020000, 0x01020000, 0x01020000, 0x01020000, 0x01020000, 
    0x01020000, 0x01020000, 0x01020000, 0x01020000, 0x01020000, 0x01020000, 0x01020000, 0x01020000, 0x01020000, 
    0x01020000, 0x01020000, 0x01020000, 0x01020000, 0x01020000, 0x01020000, 0x01020000, 0x01020000, 0x01020000, 
    0x01020000, 0x01020000, 0x01020000, 0x01020000, 0x01020000, 0x01020000, 0x01020000, 0x01020000, 0x01020000, 
    0x01020000, 0x01020000, 0x01020000, 0x01020000, 0x01020000, 0x01020000, 0x01020000, 0x01020000, 0x01020000, 
    0x01020000, 0x01020000, 0x01020000, 0x01020000, 0x01020000, 0x01020000, 0x01020000, 0x01020000, 0x01020000, 
    0x01020000, 0x01020000, 0x01020000, 0x01020000, 0x01020000, 0x01020000, 0x01020000, 0x01020000, 0x01020000, 
    0x01020000, 0x01020000, 0x01020000, 0x01020000, 0x01020000, 0x01020000, 0x01020000, 0x01020000, 0x01020000, 
    0x01020000]"

definition AC_LOOKAHEAD :: "int list" where
  "AC_LOOKAHEAD = AC_LOOKAHEAD_0 @ AC_LOOKAHEAD_1 @ AC_LOOKAHEAD_2 @ AC_LOOKAHEAD_3 @ AC_LOOKAHEAD_4"

section \<open>What it holds\<close>

text \<open>A coefficient code is a zero, \<open>z\<close> zeros and a number of \<open>z + 2\<close> bits starting with a one; a run
  code is the same after \<open>10\<close>; \<open>11\<close> is a run of one.\<close>

definition coefficient_of :: "int \<Rightarrow> int" where
  "coefficient_of v = (if even v then - (v div 2) else v div 2)"

definition lookahead_entry :: "int \<Rightarrow> int" where
  "lookahead_entry i =
     (if 3072 \<le> i then 2 ^ 24 + 2 * 2 ^ 16
      else if 2048 \<le> i then
        (if 2560 \<le> i then ((i - 2048) div 256) * 2 ^ 24 + 4 * 2 ^ 16
         else if 2304 \<le> i then ((i - 2048) div 64) * 2 ^ 24 + 6 * 2 ^ 16
         else if 2176 \<le> i then ((i - 2048) div 16) * 2 ^ 24 + 8 * 2 ^ 16
         else if 2112 \<le> i then ((i - 2048) div 4) * 2 ^ 24 + 10 * 2 ^ 16
         else if 2080 \<le> i then (i - 2048) * 2 ^ 24 + 12 * 2 ^ 16
         else 0)
      else
        (if 1024 \<le> i then 2 ^ 24 + 3 * 2 ^ 16 + coefficient_of (i div 512) mod 65536
         else if 512 \<le> i then 2 ^ 24 + 5 * 2 ^ 16 + coefficient_of (i div 128) mod 65536
         else if 256 \<le> i then 2 ^ 24 + 7 * 2 ^ 16 + coefficient_of (i div 32) mod 65536
         else if 128 \<le> i then 2 ^ 24 + 9 * 2 ^ 16 + coefficient_of (i div 8) mod 65536
         else if 64 \<le> i then 2 ^ 24 + 11 * 2 ^ 16 + coefficient_of (i div 2) mod 65536
         else 0))"

lemma lookahead_chunk_0: "AC_LOOKAHEAD_0 = map lookahead_entry [0..863]"
  by code_simp

lemma lookahead_chunk_1: "AC_LOOKAHEAD_1 = map lookahead_entry [864..1727]"
  by code_simp

lemma lookahead_chunk_2: "AC_LOOKAHEAD_2 = map lookahead_entry [1728..2591]"
  by code_simp

lemma lookahead_chunk_3: "AC_LOOKAHEAD_3 = map lookahead_entry [2592..3455]"
  by code_simp

lemma lookahead_chunk_4: "AC_LOOKAHEAD_4 = map lookahead_entry [3456..4095]"
  by code_simp

lemma AC_LOOKAHEAD_eq: "AC_LOOKAHEAD = map lookahead_entry [0..4095]"
proof -
  have "[0..4095] = [0..863] @ [864..1727] @ [1728..2591] @ [2592..3455] @ [3456..4095 :: int]"
    using upto_split1 [of 0 864 4095] upto_split1 [of 864 1728 4095] upto_split1 [of 1728 2592 4095]
      upto_split1 [of 2592 3456 4095] by (simp del: upto_rec_numeral)
  then show ?thesis
    unfolding AC_LOOKAHEAD_def lookahead_chunk_0 lookahead_chunk_1 lookahead_chunk_2 lookahead_chunk_3 lookahead_chunk_4
    by (simp only: map_append)
qed

lemma AC_LOOKAHEAD_nth: "i < 4096 \<Longrightarrow> AC_LOOKAHEAD ! i = lookahead_entry (int i)"
  by (simp add: AC_LOOKAHEAD_eq nth_upto del: upto_rec_numeral)

lemma length_AC_LOOKAHEAD [simp]: "length AC_LOOKAHEAD = 4096"
  by (simp add: AC_LOOKAHEAD_eq del: upto_rec_numeral)

end

