(* ===== verification/Vmx_Plane.thy ===== *)
theory Vmx_Plane
  imports Vmx_Bits Vmx_Idct Vmx_Lookahead
begin

text \<open>
  \<^verbatim>\<open>crates/omt-vmx/src/plane.rs\<close>: the entropy decoder of one plane of a slice, with the table lookups of
  its fast path, the block it keeps between transforms and the guards on damaged streams. A panic is
  \<open>None\<close>; a rejected stream is the result \<open>False\<close>. The transform is the portable kernel
  (\<open>Vmx_Idct\<close>). \<open>reference_plane\<close> is the specification: the same decoder reading one bit field at a
  time, with a fresh block for every transform, as the agreement test of the source has it.
\<close>

section \<open>The decoder\<close>

abbreviation MAX_SYMBOLS_PER_BLOCK :: nat where "MAX_SYMBOLS_PER_BLOCK \<equiv> 4096"
abbreviation LOOKAHEAD_BITS :: int where "LOOKAHEAD_BITS \<equiv> 12"

definition mag_sign :: "u64 \<Rightarrow> int" where
  "mag_sign v =
     (let input = v - 1; parity = input AND 1; adjusted = input + parity;
          result = drop_bit 1 adjusted - adjusted * parity
      in wrap16 (uint result))"

definition shift_signed :: "int \<Rightarrow> int \<Rightarrow> int" where
  "shift_signed v shift =
     (if shift \<le> 0 then v
      else if 16 \<le> shift then 0
      else wrap16 (v mod 65536 * 2 ^ nat shift))"

record terms =
  tm_ac :: reader
  tm_pending :: nat
  tm_last :: nat
  tm_block :: "int list"

text \<open>The bit-by-bit path: one code.\<close>

definition ac_slow :: "terms \<Rightarrow> terms" where
  "ac_slow t =
     (let (b, ac) = rd_take (tm_ac t) 1
      in if b = 1 then
           (let (b, ac) = rd_take ac 1
            in if b = 1 then t\<lparr>tm_ac := ac, tm_pending := tm_pending t + 1\<rparr>
               else
                 (let (z, ac) = rd_zeros_bare ac; (run, ac) = rd_take ac (z + 2)
                  in t\<lparr>tm_ac := ac, tm_pending := min (tm_pending t + unat run) U32_MAX\<rparr>))
         else
           (let (z, ac) = rd_zeros_bare ac; (v, ac) = rd_take ac (z + 2);
                t = t\<lparr>tm_ac := ac\<rparr>;
                t = (if tm_pending t < 64
                     then t\<lparr>tm_last := tm_pending t,
                            tm_block := (tm_block t)[ZIGZAG_NATURAL ! tm_pending t mod 64 := mag_sign v]\<rparr>
                     else t)
            in t\<lparr>tm_pending := tm_pending t + 1\<rparr>))"

definition ac_entry :: "reader \<Rightarrow> int" where
  "ac_entry ac =
     (if LOOKAHEAD_BITS \<le> rd_bits_left ac then
        (let index = drop_bit (nat (64 - LOOKAHEAD_BITS)) (push_bit (nat (64 - rd_bits_left ac)) (rd_window ac))
         in AC_LOOKAHEAD ! (unat index mod 4096))
      else 0)"

definition ac_code :: "terms \<Rightarrow> terms" where
  "ac_code t =
     (let entry = ac_entry (tm_ac t)
      in if entry \<noteq> 0 then
           (let coefficient = wrap16 entry
            in t\<lparr>tm_ac := (tm_ac t)\<lparr>rd_bits_left := rd_bits_left (tm_ac t) - entry div 65536 mod 256\<rparr>,
                 tm_block := (tm_block t)[ZIGZAG_NATURAL ! (tm_pending t mod 64) mod 64 := coefficient],
                 tm_last := (if coefficient \<noteq> 0 then tm_pending t else tm_last t),
                 tm_pending := tm_pending t + nat (entry div 16777216)\<rparr>)
         else ac_slow t)"

text \<open>The codes of one block; the result says whether the stream was accepted.\<close>

function ac_terms :: "(terms \<Rightarrow> terms) \<Rightarrow> nat \<Rightarrow> terms \<Rightarrow> bool \<times> terms" where
  "ac_terms code guard t =
     (if tm_pending t < 64 then
        if MAX_SYMBOLS_PER_BLOCK < guard + 1 then (False, t)
        else
          (let t = code t; t = t\<lparr>tm_ac := rd_reload (tm_ac t)\<rparr>
           in if rd_corrupt (tm_ac t) then (False, t) else ac_terms code (guard + 1) t)
      else (True, t))"
  by auto
termination by (relation "measure (\<lambda>(_, guard, _). Suc MAX_SYMBOLS_PER_BLOCK - guard)") auto

declare ac_terms.simps [simp del]

text \<open>The DC term of one block.\<close>

definition dc_term :: "reader \<Rightarrow> int \<Rightarrow> int list \<Rightarrow> reader \<times> int list" where
  "dc_term dc dc_shift block =
     (let (b, dc) = rd_bit dc
      in if b = 1 then (snd (rd_bit dc), block)
         else
           (let (z, dc) = rd_zeros dc; (v, dc) = rd_bits dc (z + 2)
            in (dc, block[0 := shift_signed (mag_sign v) dc_shift])))"

record plane =
  pn_dc :: reader
  pn_ac :: reader
  pn_pending :: nat
  pn_prediction :: int
  pn_block :: "int list"
  pn_dst :: "u8 list"

text \<open>\<open>&mut dst[base..]\<close>: the kernel works on the tail of the destination.\<close>

definition on_tail :: "nat \<Rightarrow> (u8 list \<Rightarrow> u8 list option) \<Rightarrow> u8 list \<Rightarrow> u8 list option" where
  "on_tail base f dst =
     (if base \<le> length dst then map_option (\<lambda>tail. take base dst @ tail) (f (drop base dst)) else None)"

definition plane_block :: "nat \<Rightarrow> int \<Rightarrow> int list \<Rightarrow> int \<Rightarrow> nat \<Rightarrow> plane \<Rightarrow> (bool \<times> plane) option" where
  "plane_block stride bias matrix dc_shift base p =
     (let decoded_terms = pn_pending p < 64;
          (accepted, t) = ac_terms ac_code 0
            \<lparr>tm_ac = pn_ac p, tm_pending = pn_pending p, tm_last = 0, tm_block = pn_block p\<rparr>;
          p = p\<lparr>pn_ac := tm_ac t, pn_pending := tm_pending t, pn_block := tm_block t\<rparr>
      in if \<not> accepted then Some (False, p)
         else
           (let p = p\<lparr>pn_pending := pn_pending p - 64\<rparr>;
                (dc, block) = dc_term (pn_dc p) dc_shift (pn_block p);
                p = p\<lparr>pn_dc := dc, pn_block := block\<rparr>
            in if rd_corrupt (pn_dc p) then Some (False, p)
               else
                 (let level = wrap16 (pn_block p ! 0 + pn_prediction p);
                      p = p\<lparr>pn_block := (pn_block p)[0 := level], pn_prediction := level\<rparr>
                  in if decoded_terms then
                       (let rows = ROWS_USED ! (tm_last t mod 64)
                        in map_option (\<lambda>dst. (True, p\<lparr>pn_dst := dst, pn_block := replicate (rows * 8) 0 @ drop (rows * 8) (pn_block p)\<rparr>))
                             (on_tail base (\<lambda>tail. idct_scalar (pn_block p) matrix tail stride bias) (pn_dst p)))
                     else
                       map_option (\<lambda>dst. (True, p\<lparr>pn_dst := dst, pn_block := (pn_block p)[0 := 0]\<rparr>))
                         (on_tail base (\<lambda>tail. broadcast_dc (pn_block p ! 0) tail stride bias) (pn_dst p)))))"

text \<open>The blocks of a plane in order, each given by the offset of its first byte.\<close>

definition plane_bases :: "nat \<Rightarrow> nat list" where
  "plane_bases stride = concat (map (\<lambda>row. map (\<lambda>column. row * stride + 8 * column) [0..<stride div 8]) [0, 8])"

fun plane_blocks :: "(nat \<Rightarrow> plane \<Rightarrow> (bool \<times> plane) option) \<Rightarrow> nat list \<Rightarrow> plane \<Rightarrow> (bool \<times> plane) option" where
  "plane_blocks f [] p = Some (True, p)"
| "plane_blocks f (base # bases) p =
     (case f base p of
        None \<Rightarrow> None
      | Some (accepted, p) \<Rightarrow> if accepted then plane_blocks f bases p else Some (False, p))"

text \<open>The readers and the destination after the plane, and whether it was accepted.\<close>

definition plane_end :: "bool \<times> plane \<Rightarrow> bool \<times> reader \<times> reader \<times> u8 list" where
  "plane_end r =
     (case r of
        (accepted, p) \<Rightarrow>
          if \<not> accepted then (False, pn_dc p, pn_ac p, pn_dst p)
          else (let dc = rd_align (pn_dc p); ac = rd_align (pn_ac p)
                in (\<not> (rd_corrupt dc \<or> rd_corrupt ac), dc, ac, pn_dst p)))"

definition decode_plane :: "reader \<Rightarrow> reader \<Rightarrow> nat \<Rightarrow> int \<Rightarrow> int list \<Rightarrow> int \<Rightarrow> u8 list
    \<Rightarrow> (bool \<times> reader \<times> reader \<times> u8 list) option" where
  "decode_plane dc ac stride bias matrix dc_shift dst =
     (if stride = 0 \<or> stride mod 8 \<noteq> 0 \<or> length dst div SLICE_HEIGHT < stride then Some (False, dc, ac, dst)
      else map_option plane_end
             (plane_blocks (plane_block stride bias matrix dc_shift) (plane_bases stride)
                \<lparr>pn_dc = dc, pn_ac = ac, pn_pending = 0, pn_prediction = 0, pn_block = replicate 64 0, pn_dst = dst\<rparr>))"

section \<open>The specification\<close>

text \<open>One block of the reference: a fresh block, and the codes read bit field by bit field.\<close>

definition reference_block :: "nat \<Rightarrow> int \<Rightarrow> int list \<Rightarrow> int \<Rightarrow> nat \<Rightarrow> plane \<Rightarrow> (bool \<times> plane) option" where
  "reference_block stride bias matrix dc_shift base p =
     (let decoded_terms = pn_pending p < 64;
          (accepted, t) = ac_terms ac_slow 0
            \<lparr>tm_ac = pn_ac p, tm_pending = pn_pending p, tm_last = 0, tm_block = replicate 64 0\<rparr>;
          p = p\<lparr>pn_ac := tm_ac t, pn_pending := tm_pending t\<rparr>
      in if \<not> accepted then Some (False, p)
         else
           (let p = p\<lparr>pn_pending := pn_pending p - 64\<rparr>;
                (dc, block) = dc_term (pn_dc p) dc_shift (tm_block t);
                p = p\<lparr>pn_dc := dc\<rparr>
            in if rd_corrupt (pn_dc p) then Some (False, p)
               else
                 (let level = wrap16 (block ! 0 + pn_prediction p);
                      block = block[0 := level];
                      p = p\<lparr>pn_prediction := level\<rparr>
                  in map_option (\<lambda>dst. (True, p\<lparr>pn_dst := dst\<rparr>))
                       (on_tail base (\<lambda>tail. if decoded_terms then idct_scalar block matrix tail stride bias
                                              else broadcast_dc level tail stride bias) (pn_dst p)))))"

definition reference_plane :: "reader \<Rightarrow> reader \<Rightarrow> nat \<Rightarrow> int \<Rightarrow> int list \<Rightarrow> int \<Rightarrow> u8 list
    \<Rightarrow> (bool \<times> reader \<times> reader \<times> u8 list) option" where
  "reference_plane dc ac stride bias matrix dc_shift dst =
     (if stride = 0 \<or> stride mod 8 \<noteq> 0 \<or> length dst div SLICE_HEIGHT < stride then Some (False, dc, ac, dst)
      else map_option plane_end
             (plane_blocks (reference_block stride bias matrix dc_shift) (plane_bases stride)
                \<lparr>pn_dc = dc, pn_ac = ac, pn_pending = 0, pn_prediction = 0, pn_block = replicate 64 0, pn_dst = dst\<rparr>))"


section \<open>The lookahead table resolves codes as the bits do\<close>

lemma wrap16_uint: "wrap16 (uint (word_of_int x :: u64)) = wrap16 x"
proof -
  have "uint (word_of_int x :: u64) = x + 65536 * (- (x div 18446744073709551616) * 281474976710656)"
    by (simp add: uint_word_of_int minus_mult_div_eq_mod)
  then show ?thesis using wrap16_add_mult by metis
qed

lemma half_word: "k < 2 ^ 63 \<Longrightarrow> drop_bit 1 (word_of_nat (2 * k) :: u64) = word_of_nat k"
proof -
  assume k: "k < 2 ^ 63"
  have "unat (drop_bit 1 (word_of_nat (2 * k) :: u64)) = drop_bit 1 (unat (word_of_nat (2 * k) :: u64))"
    by (simp only: unsigned_drop_bit_eq) (simp add: take_bit_nat_def)
  also have "\<dots> = k" using k by (simp only: unat_of_nat drop_bit_nat_def) simp
  finally show ?thesis by (metis of_nat_unat ucast_id)
qed

lemma mag_sign_eq:
  assumes "1 \<le> v" "v < 2 ^ 64"
  shows "mag_sign (word_of_nat v) = wrap16 (coefficient_of (int v))"
proof (cases "even v")
  case True
  then obtain k where k: "v = 2 * k" by blast
  have w: "(word_of_nat v :: u64) - 1 = word_of_nat (v - 1)" using assms by (simp add: of_nat_diff)
  have "odd (v - 1)" using True assms by simp
  then have p: "(word_of_nat v :: u64) - 1 AND 1 = 1"
    unfolding w by (simp add: and_one_eq mod_2_eq_odd)
  have "drop_bit 1 (word_of_nat v :: u64) = word_of_nat k" unfolding k using assms k by (intro half_word) simp
  then have "drop_bit 1 (word_of_nat v :: u64) - word_of_nat v = word_of_int (- int k)" using k by simp
  then show ?thesis using p k wrap16_uint [of "- int k"]
    by (simp add: mag_sign_def coefficient_of_def Let_def)
next
  case False
  then obtain k where k: "v = 2 * k + 1" using oddE by blast
  have "(word_of_nat v :: u64) - 1 = word_of_nat (2 * k)" using k by simp
  moreover have "(word_of_nat (2 * k) :: u64) AND 1 = 0" by (simp add: and_one_eq mod_2_eq_odd)
  moreover have "drop_bit 1 (word_of_nat (2 * k) :: u64) = word_of_nat k" using assms k by (intro half_word) simp
  ultimately show ?thesis using k wrap16_uint [of "int k"]
    by (simp add: mag_sign_def coefficient_of_def Let_def)
qed


text \<open>One code of the bit-by-bit path, from the bits of the window.\<close>

lemma take_one:
  assumes "reader_ok r" "avail r = b # rest"
  shows "rd_take r 1 = (of_bool b, r\<lparr>rd_bits_left := rd_bits_left r - 1\<rparr>)"
    "reader_ok (r\<lparr>rd_bits_left := rd_bits_left r - 1\<rparr>)" "avail (r\<lparr>rd_bits_left := rd_bits_left r - 1\<rparr>) = rest"
proof -
  have "length (avail r) = Suc (length rest)" using assms(2) by simp
  then have l: "1 \<le> nat (rd_bits_left r)" by simp
  show "rd_take r 1 = (of_bool b, r\<lparr>rd_bits_left := rd_bits_left r - 1\<rparr>)"
    using rd_take_ok [OF assms(1) l] assms(2) by simp
  show "reader_ok (r\<lparr>rd_bits_left := rd_bits_left r - 1\<rparr>)" using assms(1) l by (simp add: reader_ok_def)
  show "avail (r\<lparr>rd_bits_left := rd_bits_left r - 1\<rparr>) = rest" using avail_drop [OF l] assms(2) by simp
qed

text \<open>The number of an Exp-Golomb code inside the window.\<close>

lemma take_golomb:
  assumes "reader_ok r" "z = length (takeWhile Not (avail r))" "2 * z + 2 \<le> length (avail r)"
  shows "rd_zeros_bare r = (int z, r\<lparr>rd_bits_left := rd_bits_left r - int z\<rparr>)"
    "rd_take (r\<lparr>rd_bits_left := rd_bits_left r - int z\<rparr>) (int z + 2) =
       (word_of_nat (bval (take (2 * z + 2) (avail r))), r\<lparr>rd_bits_left := rd_bits_left r - int (2 * z + 2)\<rparr>)"
proof -
  let ?r = "r\<lparr>rd_bits_left := rd_bits_left r - int z\<rparr>"
  have "takeWhile Not (avail r) \<noteq> avail r"
  proof
    assume "takeWhile Not (avail r) = avail r"
    then have "z = length (avail r)" using assms(2) by (simp only:)
    then show False using assms(3) by simp
  qed
  then have t: "True \<in> set (avail r)" by (metis (full_types) takeWhile_eq_all_conv)
  show "rd_zeros_bare r = (int z, ?r)" using rd_zeros_bare_ok [OF assms(1) t] assms(2) by simp
  have z: "z \<le> nat (rd_bits_left r)" using assms(3) by simp
  have ok: "reader_ok ?r" using assms(1) z by (auto simp: reader_ok_def)
  have a: "avail ?r = drop z (avail r)" by (rule avail_drop [OF z])
  have "rd_take ?r (int (z + 2)) = (word_of_nat (bval (take (z + 2) (drop z (avail r)))), ?r\<lparr>rd_bits_left := rd_bits_left ?r - int (z + 2)\<rparr>)"
    using rd_take_ok [OF ok, of "z + 2"] a assms(3) by simp
  moreover have "bval (take (2 * z + 2) (avail r)) = bval (take (z + 2) (drop z (avail r)))"
  proof -
    have "take (2 * z + 2) (avail r) = take z (avail r) @ take (z + 2) (drop z (avail r))"
      using take_add [of z "z + 2" "avail r"] by (simp add: mult_2)
    moreover have "take z (avail r) = takeWhile Not (avail r)"
      unfolding assms(2) by (rule takeWhile_eq_take [symmetric])
    moreover have "bval (takeWhile Not (avail r)) = 0"
      by (metis bval_replicate_False takeWhile_Not_replicate)
    ultimately show ?thesis by (simp add: bval_append)
  qed
  ultimately show "rd_take ?r (int z + 2) =
       (word_of_nat (bval (take (2 * z + 2) (avail r))), r\<lparr>rd_bits_left := rd_bits_left r - int (2 * z + 2)\<rparr>)"
    by (simp add: algebra_simps)
qed


lemma ac_entry_eq:
  assumes "reader_ok r" "12 \<le> rd_bits_left r"
  shows "ac_entry r = lookahead_entry (int (bval (take 12 (avail r))))"
proof -
  let ?w = "push_bit (nat (64 - rd_bits_left r)) (rd_window r)"
  have b: "0 < rd_bits_left r" "nat (64 - rd_bits_left r) < 64" using assms by auto
  have "unat ?w = bval (map (bit ?w) (rev [0..<64]))" by (simp add: bval_word_bits)
  also have "\<dots> = bval (avail r @ replicate (64 - nat (rd_bits_left r)) False)"
    using shl64_avail [OF assms(1) b(1)] b(2) by (simp add: shl64_def)
  finally have w: "unat ?w = bval (avail r @ replicate (64 - nat (rd_bits_left r)) False)" .
  have "unat (drop_bit 52 ?w) = unat ?w div 2 ^ 52"
    by (simp only: unsigned_drop_bit_eq) (simp add: drop_bit_nat_def take_bit_nat_def)
  also have "\<dots> = bval (take 12 (avail r))"
    using bval_take [of 12 "avail r @ replicate (64 - nat (rd_bits_left r)) False"] assms
    by (simp add: w reader_ok_def)
  finally have i: "unat (drop_bit 52 ?w) = bval (take 12 (avail r))" .
  have "length (take 12 (avail r)) = 12" using assms(2) by simp
  then have l: "bval (take 12 (avail r)) < 4096" using bval_less [of "take 12 (avail r)"] by simp
  show ?thesis using assms(2) i l by (simp add: ac_entry_def Let_def AC_LOOKAHEAD_nth)
qed

text \<open>The bits of an index: its first bit, and the leading zeros of the rest.\<close>

lemma split_index:
  assumes "12 \<le> length A" "i = bval (take 12 A)"
  obtains b R where "A = b # R" "11 \<le> length R" "i = of_bool b * 2048 + bval (take 11 R)" "bval (take 11 R) < 2048"
proof -
  obtain b R where A: "A = b # R" using assms(1) by (cases A) auto
  have "length (take 11 R) = 11" using assms(1) A by simp
  then have "bval (take 11 R) < 2048" using bval_less [of "take 11 R"] by simp
  moreover have "i = of_bool b * 2048 + bval (take 11 R)"
    using assms A by (simp add: take_Cons')
  ultimately show ?thesis using that A assms(1) by simp
qed

lemma zeros_of_index:
  assumes "n \<le> length R" "z < n" "2 ^ (n - 1 - z) \<le> bval (take n R)" "bval (take n R) < 2 ^ (n - z)" "2 * z + 2 \<le> n"
  shows "z = length (takeWhile Not R)" "bval (take (2 * z + 2) R) = bval (take n R) div 2 ^ (n - (2 * z + 2))"
proof -
  have l: "length (take n R) = n" using assms(1) by simp
  have z: "length (takeWhile Not (take n R)) = z" using takeWhile_Not_iff [of z "take n R"] assms l by simp
  then have "takeWhile Not (take n R) \<noteq> take n R" using l assms(2) by (metis less_irrefl)
  then obtain x where "x \<in> set (take n R)" "\<not> \<not> x" by (metis takeWhile_eq_all_conv)
  then have "takeWhile Not (take n R @ drop n R) = takeWhile Not (take n R)" by (intro takeWhile_append1) auto
  then show "z = length (takeWhile Not R)" using z by simp
  have "take (2 * z + 2) (take n R) = take (2 * z + 2) R" using assms(5) by (simp only: take_take min_absorb1)
  then show "bval (take (2 * z + 2) R) = bval (take n R) div 2 ^ (n - (2 * z + 2))"
    using bval_take [of "2 * z + 2" "take n R"] l by (simp only:)
qed


text \<open>The two kinds of code the table resolves, as the bits read.\<close>

lemma slow_value:
  assumes "reader_ok (tm_ac t)" "avail (tm_ac t) = False # R" "tm_pending t < 64"
    "z = length (takeWhile Not R)" "2 * z + 2 \<le> length R"
  shows "ac_slow t = t\<lparr>tm_ac := (tm_ac t)\<lparr>rd_bits_left := rd_bits_left (tm_ac t) - int (2 * z + 3)\<rparr>,
     tm_last := tm_pending t,
     tm_block := (tm_block t)[ZIGZAG_NATURAL ! tm_pending t := mag_sign (word_of_nat (bval (take (2 * z + 2) R)))],
     tm_pending := tm_pending t + 1\<rparr>"
proof -
  note one = take_one [OF assms(1,2)]
  have len: "2 * z + 2 \<le> length (avail ((tm_ac t)\<lparr>rd_bits_left := rd_bits_left (tm_ac t) - 1\<rparr>))"
    using one(3) assms(5) by (simp only:)
  note g = take_golomb [OF one(2) _ len]
  show ?thesis using one g assms(3,4) by (simp add: ac_slow_def Let_def algebra_simps)
qed

lemma slow_run:
  assumes "reader_ok (tm_ac t)" "avail (tm_ac t) = True # False # R"
    "z = length (takeWhile Not R)" "2 * z + 2 \<le> length R"
  shows "ac_slow t = t\<lparr>tm_ac := (tm_ac t)\<lparr>rd_bits_left := rd_bits_left (tm_ac t) - int (2 * z + 4)\<rparr>,
     tm_pending := min (tm_pending t + unat (word_of_nat (bval (take (2 * z + 2) R)) :: u64)) U32_MAX\<rparr>"
proof -
  note one = take_one [OF assms(1,2)]
  note two = take_one [OF one(2,3), simplified]
  have len: "2 * z + 2 \<le> length (avail ((tm_ac t)\<lparr>rd_bits_left := rd_bits_left (tm_ac t) - 2\<rparr>))"
    using two(3) assms(4) by (simp only:)
  note g = take_golomb [OF two(2) _ len]
  show ?thesis using one two g assms(3,4) by (simp add: ac_slow_def Let_def algebra_simps)
qed

lemma slow_skip:
  assumes "reader_ok (tm_ac t)" "avail (tm_ac t) = True # True # R"
  shows "ac_slow t = t\<lparr>tm_ac := (tm_ac t)\<lparr>rd_bits_left := rd_bits_left (tm_ac t) - 2\<rparr>, tm_pending := tm_pending t + 1\<rparr>"
proof -
  note one = take_one [OF assms(1,2)]
  note two = take_one [OF one(2,3)]
  show ?thesis using one two by (simp add: ac_slow_def Let_def)
qed


text \<open>The fields of an entry.\<close>

lemma entry_fields:
  assumes e: "e = n * 2 ^ 24 + l * 2 ^ 16 + c mod 65536" and l: "0 < l" "l < 256"
  shows "wrap16 e = wrap16 c" "e div 65536 mod 256 = l" "e div 16777216 = n"
proof -
  have e': "e = c mod 65536 + 65536 * (l + 256 * n)" using e by simp
  show "wrap16 e = wrap16 c" unfolding e' wrap16_add_mult by (rule wrap16_of_mod)
  have d: "e div 65536 = l + 256 * n" unfolding e' by (simp add: div_mult_self2)
  then show "e div 65536 mod 256 = l" using l by simp
  have "e div 16777216 = e div 65536 div 256" by (simp add: div_mult2_eq [symmetric])
  then show "e div 16777216 = n" using d l by simp
qed

lemma five_cases: "(z :: nat) \<le> 4 \<Longrightarrow> z = 0 \<or> z = 1 \<or> z = 2 \<or> z = 3 \<or> z = 4"
  by linarith

lemma entry_value:
  assumes "z \<le> 4" "2 ^ (10 - z) \<le> i" "i < (2 :: int) ^ (11 - z)"
  shows "lookahead_entry i = 1 * 2 ^ 24 + (2 * int z + 3) * 2 ^ 16 + coefficient_of (i div 2 ^ (9 - 2 * z)) mod 65536"
  using five_cases [OF assms(1)] assms(2,3) by (elim disjE) (simp_all add: lookahead_entry_def)

lemma entry_run:
  assumes "z \<le> 4" "2 ^ (9 - z) \<le> j" "j < (2 :: int) ^ (10 - z)"
  shows "lookahead_entry (2048 + j) = (j div 2 ^ (8 - 2 * z)) * 2 ^ 24 + (2 * int z + 4) * 2 ^ 16 + 0 mod 65536"
  using five_cases [OF assms(1)] assms(2,3) by (elim disjE) (simp_all add: lookahead_entry_def)

lemma entry_resolved_value:
  assumes "i < 2048" "lookahead_entry (int i) \<noteq> 0"
  obtains z where "z \<le> 4" "2 ^ (10 - z) \<le> i" "i < 2 ^ (11 - z)"
proof -
  have "64 \<le> i" using assms by (cases "64 \<le> i") (auto simp: lookahead_entry_def)
  then have "1024 \<le> i \<or> 512 \<le> i \<and> i < 1024 \<or> 256 \<le> i \<and> i < 512 \<or> 128 \<le> i \<and> i < 256 \<or> 64 \<le> i \<and> i < 128" by linarith
  then show ?thesis using assms(1) that [of 0] that [of 1] that [of 2] that [of 3] that [of 4] by auto
qed

lemma entry_resolved_run:
  assumes "j < 1024" "lookahead_entry (2048 + int j) \<noteq> 0"
  obtains z where "z \<le> 4" "2 ^ (9 - z) \<le> j" "j < 2 ^ (10 - z)"
proof -
  have "32 \<le> j" using assms by (cases "32 \<le> j") (auto simp: lookahead_entry_def)
  then have "512 \<le> j \<or> 256 \<le> j \<and> j < 512 \<or> 128 \<le> j \<and> j < 256 \<or> 64 \<le> j \<and> j < 128 \<or> 32 \<le> j \<and> j < 64" by linarith
  then show ?thesis using assms(1) that [of 0] that [of 1] that [of 2] that [of 3] that [of 4] by auto
qed

text \<open>The table, where it resolves a code, does what the bit-by-bit path does.\<close>

definition fresh_from :: "nat \<Rightarrow> int list \<Rightarrow> bool" where
  "fresh_from p block \<longleftrightarrow> length block = 64 \<and> (\<forall>q. p \<le> q \<longrightarrow> q < 64 \<longrightarrow> block ! (ZIGZAG_NATURAL ! q) = 0)"

lemma ac_code_value:
  assumes "reader_ok (tm_ac t)" "12 \<le> rd_bits_left (tm_ac t)" "tm_pending t < 64"
    "avail (tm_ac t) = False # R" "ac_entry (tm_ac t) \<noteq> 0"
  shows "ac_code t = ac_slow t"
proof -
  define i where "i = bval (take 11 R)"
  have len: "11 \<le> length R" using assms(2,4) length_avail [of "tm_ac t"] by simp
  have e: "ac_entry (tm_ac t) = lookahead_entry (int i)" "i < 2048"
    using ac_entry_eq [OF assms(1,2)] assms(4) bval_less [of "take 11 R"] len by (auto simp: i_def take_Cons')
  obtain z where z: "z \<le> 4" "2 ^ (10 - z) \<le> i" "i < 2 ^ (11 - z)"
    using entry_resolved_value [of i] e assms(5) by auto
  have zz: "z = length (takeWhile Not R)" "bval (take (2 * z + 2) R) = i div 2 ^ (9 - 2 * z)"
    using zeros_of_index [of 11 R z] z len by (simp_all add: i_def)
  define v where "v = i div 2 ^ (9 - 2 * z)"
  have v: "2 \<le> v" "v < 64" using z five_cases [OF z(1)] by (auto simp: v_def)
  have iv: "int i div 2 ^ (9 - 2 * z) = int v" by (simp add: v_def zdiv_int)
  have ee: "ac_entry (tm_ac t) = 1 * 2 ^ 24 + (2 * int z + 3) * 2 ^ 16 + coefficient_of (int v) mod 65536"
    using entry_value [of z "int i"] z e iv by simp
  have c: "wrap16 (coefficient_of (int v)) = coefficient_of (int v)" "coefficient_of (int v) \<noteq> 0"
    "mag_sign (word_of_nat v) = coefficient_of (int v)"
  proof -
    have "i16 (coefficient_of (int v))" using v by (auto simp: coefficient_of_def i16_def)
    then show w: "wrap16 (coefficient_of (int v)) = coefficient_of (int v)" by simp
    show "coefficient_of (int v) \<noteq> 0" using v by (auto simp: coefficient_of_def)
    show "mag_sign (word_of_nat v) = coefficient_of (int v)" using v mag_sign_eq [of v] w by simp
  qed
  note f = entry_fields [OF ee]
  have "2 * z + 2 \<le> length R" using z len by simp
  from slow_value [OF assms(1,4,3) zz(1) this, unfolded zz(2), folded v_def] show ?thesis
    using assms(3,5) f z(1) c by (simp add: ac_code_def Let_def algebra_simps)
qed


lemma wrap16_0 [simp]: "wrap16 0 = 0"
  by (simp add: wrap16_eq)

lemma store_zero: "fresh_from p block \<Longrightarrow> p < 64 \<Longrightarrow> block[ZIGZAG_NATURAL ! p := 0] = block"
  by (metis fresh_from_def list_update_id order_refl)

lemma ac_code_run:
  assumes "reader_ok (tm_ac t)" "12 \<le> rd_bits_left (tm_ac t)" "tm_pending t < 64"
    "avail (tm_ac t) = True # R'" "ac_entry (tm_ac t) \<noteq> 0" "fresh_from (tm_pending t) (tm_block t)"
  shows "ac_code t = ac_slow t"
proof -
  obtain b R where R': "R' = b # R" using assms(2,4) length_avail [of "tm_ac t"] by (cases R') auto
  define j where "j = bval (take 10 R)"
  have len: "10 \<le> length R" using assms(2,4) R' length_avail [of "tm_ac t"] by simp
  have j: "j < 1024" using bval_less [of "take 10 R"] len by (simp add: j_def)
  have e: "ac_entry (tm_ac t) = lookahead_entry (2048 + of_bool b * 1024 + int j)"
    using ac_entry_eq [OF assms(1,2)] assms(4) R' len by (simp add: j_def take_Cons')
  note z0 = store_zero [OF assms(6,3)]
  show ?thesis
  proof (cases b)
    case True
    then have "ac_entry (tm_ac t) = 1 * 2 ^ 24 + 2 * 2 ^ 16 + 0 mod 65536" using e by (simp add: lookahead_entry_def)
    note f = entry_fields [OF this]
    show ?thesis using slow_skip [OF assms(1), of R] assms(3,4,5) R' True f z0
      by (simp add: ac_code_def Let_def)
  next
    case False
    then have e': "ac_entry (tm_ac t) = lookahead_entry (2048 + int j)" using e by simp
    obtain z where z: "z \<le> 4" "2 ^ (9 - z) \<le> j" "j < 2 ^ (10 - z)"
      using entry_resolved_run [OF j] e' assms(5) by auto
    have zz: "z = length (takeWhile Not R)" "bval (take (2 * z + 2) R) = j div 2 ^ (8 - 2 * z)"
      using zeros_of_index [of 10 R z] z len by (simp_all add: j_def)
    define v where "v = j div 2 ^ (8 - 2 * z)"
    have v: "v < 64" using z five_cases [OF z(1)] by (auto simp: v_def)
    have iv: "int j div 2 ^ (8 - 2 * z) = int v" by (simp add: v_def zdiv_int)
    have "ac_entry (tm_ac t) = int v * 2 ^ 24 + (2 * int z + 4) * 2 ^ 16 + 0 mod 65536"
      using entry_run [of z "int j"] z e' iv by simp
    note f = entry_fields [OF this]
    have u: "unat (word_of_nat v :: u64) = v" using v by (simp add: unat_of_nat)
    have "2 * z + 2 \<le> length R" using z len by simp
    from slow_run [OF assms(1) _ zz(1) this, unfolded zz(2), folded v_def] show ?thesis
      using assms(3,4,5) R' False f z(1) v z0 u by (simp add: ac_code_def Let_def algebra_simps)
  qed
qed

lemma ac_code_eq:
  assumes "reader_ok (tm_ac t)" "tm_pending t < 64" "fresh_from (tm_pending t) (tm_block t)"
  shows "ac_code t = ac_slow t"
proof (cases "ac_entry (tm_ac t) = 0")
  case True
  then show ?thesis by (simp add: ac_code_def)
next
  case False
  then have b: "12 \<le> rd_bits_left (tm_ac t)" by (auto simp: ac_entry_def split: if_splits)
  then obtain c R where "avail (tm_ac t) = c # R" using length_avail [of "tm_ac t"] by (cases "avail (tm_ac t)") auto
  then show ?thesis using ac_code_value [OF assms(1) b assms(2)] ac_code_run [OF assms(1) b assms(2)] assms(3) False
    by (cases c) auto
qed


section \<open>Every accepted code moves on\<close>

lemma unat_small: "n < 2 ^ 64 \<Longrightarrow> unat (word_of_nat n :: u64) = n"
  by (simp add: unat_of_nat)

lemma golomb_at_least_two:
  assumes "reader_ok r" "rd_zeros_bare r = (z, r1)" "rd_take r1 (z + 2) = (v, r2)" "\<not> rd_corrupt r2"
  shows "2 \<le> unat v"
proof -
  have c1: "\<not> rd_corrupt r1" using corrupt_sticky(2) [of r1 "z + 2"] assms(3,4) by auto
  have ok1: "reader_ok r1" "0 \<le> z" "z \<le> 64" using reader_ok_zeros_bare [OF assms(1)] zeros_bare_range [OF assms(1)] assms(2) by auto
  have fits: "z + 2 \<le> rd_bits_left r1"
  proof (rule ccontr)
    assume "\<not> z + 2 \<le> rd_bits_left r1"
    then have "rd_take r1 (z + 2) = (0, r1\<lparr>rd_corrupt := True, rd_bits_left := 0\<rparr>)" using rd_take_fail ok1 by simp
    then show False using assms(3,4) by auto
  qed
  have t: "True \<in> set (avail r)"
  proof (rule ccontr)
    assume n: "True \<notin> set (avail r)"
    show False
    proof (cases "rd_bits_left r = 64")
      case True
      then show False using rd_zeros_bare_none(2) [OF assms(1) n True] assms(2) fits by auto
    next
      case False
      then have "rd_bits_left r < 64" using assms(1) by (simp add: reader_ok_def)
      then show False using rd_zeros_bare_none(1) [OF assms(1) n] assms(2) c1 by auto
    qed
  qed
  define k where "k = length (takeWhile Not (avail r))"
  have zk: "z = int k" "r1 = r\<lparr>rd_bits_left := rd_bits_left r - int k\<rparr>"
    using rd_zeros_bare_ok [OF assms(1) t] assms(2) by (auto simp: k_def)
  have "k \<le> nat (rd_bits_left r)" using fits zk by simp
  then have a: "avail r1 = dropWhile Not (avail r)" using avail_drop zk by (simp add: k_def dropWhile_eq_drop)
  obtain ys where ys: "dropWhile Not (avail r) = True # ys"
    using t by (metis (full_types) dropWhile_eq_Cons_conv dropWhile_eq_Nil_conv list.exhaust)
  have len: "k + 2 \<le> length (True # ys)" using fits zk a ys length_avail [of r1] by simp
  have v: "v = word_of_nat (bval (take (k + 2) (True # ys)))"
    using rd_take_ok [OF ok1(1), of "k + 2"] fits zk assms(3) a ys by (simp add: add.commute)
  have "2 ^ Suc 0 \<le> (2 :: nat) ^ length (take (k + 1) ys)" using len by (intro power_increasing) auto
  then have two: "2 \<le> bval (take (k + 2) (True # ys))" by simp
  have "k + 2 \<le> 64" using fits ok1 zk by (simp add: reader_ok_def)
  then have "(2 :: nat) ^ (k + 2) \<le> 2 ^ 64" by (rule power_increasing) simp
  moreover have "length (take (k + 2) (True # ys)) = k + 2" using len by simp
  ultimately have "bval (take (k + 2) (True # ys)) < 2 ^ 64"
    using bval_less [of "take (k + 2) (True # ys)"] by (metis less_le_trans)
  then have "unat v = bval (take (k + 2) (True # ys))" unfolding v by (rule unat_small)
  then show ?thesis using two by simp
qed

text \<open>The two shapes of a step of the bit-by-bit path.\<close>

lemma ac_slow_cases:
  assumes "reader_ok (tm_ac t)" "tm_pending t < 64"
  obtains (store) ac x where "reader_ok ac" "ac_slow t = t\<lparr>tm_ac := ac, tm_last := tm_pending t,
      tm_block := (tm_block t)[ZIGZAG_NATURAL ! tm_pending t := x], tm_pending := tm_pending t + 1\<rparr>"
  | (skip) ac n where "reader_ok ac" "tm_pending t \<le> n" "rd_corrupt ac \<or> tm_pending t < n"
      "ac_slow t = t\<lparr>tm_ac := ac, tm_pending := n\<rparr>"
proof -
  obtain b r1 where 1: "rd_take (tm_ac t) 1 = (b, r1)" by fastforce
  have ok1: "reader_ok r1" using reader_ok_take [OF assms(1), of 1] 1 by simp
  obtain z2 r2 where 2: "rd_zeros_bare r1 = (z2, r2)" by fastforce
  have ok2: "reader_ok r2" "0 \<le> z2" "z2 \<le> 64" using reader_ok_zeros_bare [OF ok1] zeros_bare_range [OF ok1] 2 by auto
  obtain v3 r3 where 3: "rd_take r2 (z2 + 2) = (v3, r3)" by fastforce
  have ok3: "reader_ok r3" using reader_ok_take [OF ok2(1), of "z2 + 2"] ok2 3 by simp
  obtain b4 r4 where 4: "rd_take r1 1 = (b4, r4)" by fastforce
  have ok4: "reader_ok r4" using reader_ok_take [OF ok1, of 1] 4 by simp
  obtain z5 r5 where 5: "rd_zeros_bare r4 = (z5, r5)" by fastforce
  have ok5: "reader_ok r5" "0 \<le> z5" "z5 \<le> 64" using reader_ok_zeros_bare [OF ok4] zeros_bare_range [OF ok4] 5 by auto
  obtain v6 r6 where 6: "rd_take r5 (z5 + 2) = (v6, r6)" by fastforce
  have ok6: "reader_ok r6" using reader_ok_take [OF ok5(1), of "z5 + 2"] ok5 6 by simp
  show ?thesis
  proof (cases "b = 1")
    case False
    then show ?thesis using that(1) [OF ok3, of "mag_sign v3"] 1 2 3 assms(2) by (simp add: ac_slow_def Let_def)
  next
    case b: True
    show ?thesis
    proof (cases "b4 = 1")
      case True
      then show ?thesis using that(2) [OF ok4, of "tm_pending t + 1"] 1 4 b by (simp add: ac_slow_def Let_def)
    next
      case False
      have "rd_corrupt r6 \<or> tm_pending t < min (tm_pending t + unat v6) U32_MAX"
        using golomb_at_least_two [OF ok4 5 6] assms(2) by (cases "rd_corrupt r6") auto
      then show ?thesis using that(2) [OF ok6, of "min (tm_pending t + unat v6) U32_MAX"] 1 4 5 6 b False assms(2)
        by (simp add: ac_slow_def Let_def)
    qed
  qed
qed


section \<open>The invariant of a block\<close>

definition terms_ok :: "terms \<Rightarrow> bool" where
  "terms_ok t \<longleftrightarrow> reader_ok (tm_ac t) \<and> tm_last t < 64 \<and> fresh_from (tm_pending t) (tm_block t)
     \<and> (\<forall>q<64. tm_block t ! (ZIGZAG_NATURAL ! q) \<noteq> 0 \<longrightarrow> q \<le> tm_last t)"

lemma fresh_from_mono: "fresh_from p b \<Longrightarrow> p \<le> n \<Longrightarrow> fresh_from n b"
  by (simp add: fresh_from_def)

lemma fresh_from_store: "fresh_from p b \<Longrightarrow> p < 64 \<Longrightarrow> fresh_from (p + 1) (b[ZIGZAG_NATURAL ! p := x])"
  by (auto simp: fresh_from_def nth_list_update zigzag_inj)

lemma ac_slow_ok: "terms_ok t \<Longrightarrow> tm_pending t < 64 \<Longrightarrow> terms_ok (ac_slow t)"
proof -
  assume t: "terms_ok t" and p: "tm_pending t < 64"
  have ok: "reader_ok (tm_ac t)" using t by (simp add: terms_ok_def)
  show ?thesis
  proof (cases rule: ac_slow_cases [OF ok p])
    case (1 ac x)
    have "q \<le> tm_pending t"
      if "q < 64" "(tm_block t)[ZIGZAG_NATURAL ! tm_pending t := x] ! (ZIGZAG_NATURAL ! q) \<noteq> 0" for q
    proof (rule ccontr)
      assume "\<not> q \<le> tm_pending t"
      then show False using that t p by (auto simp: terms_ok_def fresh_from_def nth_list_update zigzag_inj)
    qed
    moreover have "fresh_from (tm_pending t + 1) ((tm_block t)[ZIGZAG_NATURAL ! tm_pending t := x])"
      using t p by (intro fresh_from_store) (auto simp: terms_ok_def)
    ultimately show ?thesis using 1 t p by (simp add: terms_ok_def)
  next
    case (2 ac n)
    then show ?thesis using t fresh_from_mono [of "tm_pending t" "tm_block t" n] by (simp add: terms_ok_def)
  qed
qed

lemma terms_ok_reload: "terms_ok t \<Longrightarrow> terms_ok (t\<lparr>tm_ac := rd_reload (tm_ac t)\<rparr>)"
  by (simp add: terms_ok_def reader_ok_reload)

text \<open>Equivalence of the loops, their invariant, and that only a damaged stream is rejected.\<close>

lemma ac_terms_equiv:
  "terms_ok t \<Longrightarrow> ac_terms ac_code guard t = ac_terms ac_slow guard t \<and> terms_ok (snd (ac_terms ac_slow guard t))"
proof (induction "ac_slow" guard t rule: ac_terms.induct)
  case (1 guard t)
  show ?case
  proof (cases "tm_pending t < 64 \<and> \<not> MAX_SYMBOLS_PER_BLOCK < guard + 1")
    case False
    then show ?thesis using "1.prems" by (simp add: ac_terms.simps [of _ guard t])
  next
    case True
    have eq: "ac_code t = ac_slow t" using "1.prems" True by (intro ac_code_eq) (auto simp: terms_ok_def)
    define t' where "t' = (ac_slow t)\<lparr>tm_ac := rd_reload (tm_ac (ac_slow t))\<rparr>"
    have ok: "terms_ok t'" using ac_slow_ok "1.prems" True by (auto simp: t'_def intro!: terms_ok_reload)
    have step: "ac_terms code guard t = (if rd_corrupt (tm_ac t') then (False, t') else ac_terms code (guard + 1) t')"
      if "code t = ac_slow t" for code
      using True that by (subst ac_terms.simps) (simp add: Let_def t'_def)
    show ?thesis using step [of ac_code, OF eq] step [of ac_slow, OF refl] ok "1.hyps" [OF _ _ refl t'_def] True by auto
  qed
qed

lemma ac_terms_progress:
  assumes "reader_ok (tm_ac t)" "guard + 64 \<le> MAX_SYMBOLS_PER_BLOCK + tm_pending t"
    "ac_terms ac_slow guard t = (accepted, t')"
  shows "(\<not> accepted \<longrightarrow> rd_corrupt (tm_ac t')) \<and> (accepted \<longrightarrow> 64 \<le> tm_pending t')"
  using assms
proof (induction "ac_slow" guard t rule: ac_terms.induct)
  case (1 guard t)
  show ?case
  proof (cases "tm_pending t < 64")
    case False
    then show ?thesis using "1.prems" by (simp add: ac_terms.simps)
  next
    case True
    then have g: "\<not> MAX_SYMBOLS_PER_BLOCK < guard + 1" using "1.prems"(2) by simp
    define u where "u = (ac_slow t)\<lparr>tm_ac := rd_reload (tm_ac (ac_slow t))\<rparr>"
    have step: "ac_terms ac_slow guard t = (if rd_corrupt (tm_ac u) then (False, u) else ac_terms ac_slow (guard + 1) u)"
      using True g by (subst ac_terms.simps) (simp add: Let_def u_def)
    show ?thesis
    proof (cases "rd_corrupt (tm_ac u)")
      case True
      then show ?thesis using step "1.prems"(3) by auto
    next
      case False
      have "reader_ok (tm_ac (ac_slow t)) \<and> (rd_corrupt (tm_ac (ac_slow t)) \<or> tm_pending t < tm_pending (ac_slow t))"
        by (cases rule: ac_slow_cases [OF "1.prems"(1) \<open>tm_pending t < 64\<close>]) auto
      then have "reader_ok (tm_ac u)" "tm_pending t < tm_pending u"
        using False by (auto simp: u_def reader_ok_reload)
      then show ?thesis using "1.hyps" [OF True g refl u_def False] "1.prems"(2,3) step False by auto
    qed
  qed
qed


section \<open>The block between transforms\<close>

text \<open>After the rows the stream could have written are cleared, the block is zero again.\<close>

lemma block_cleared:
  assumes "length block = 64" "\<forall>q<64. block ! (ZIGZAG_NATURAL ! q) \<noteq> 0 \<longrightarrow> q \<le> last_pos \<or> q = 0" "last_pos < 64"
  shows "replicate (ROWS_USED ! last_pos * 8) 0 @ drop (ROWS_USED ! last_pos * 8) block = replicate 64 0"
proof -
  have r: "1 \<le> ROWS_USED ! last_pos" "ROWS_USED ! last_pos \<le> 8" using rows_used_range [OF assms(3)] by auto
  then have l: "length (replicate (ROWS_USED ! last_pos * 8) 0 @ drop (ROWS_USED ! last_pos * 8) block) = length (replicate 64 (0 :: int))"
    using assms(1) by simp
  have "(replicate (ROWS_USED ! last_pos * 8) 0 @ drop (ROWS_USED ! last_pos * 8) block) ! i = replicate 64 0 ! i" if i: "i < 64" for i
  proof -
    obtain q where q: "q < 64" "i = ZIGZAG_NATURAL ! q"
      using zigzag_set i by (metis in_set_conv_nth lessThan_iff table_lengths(3))
    have "block ! i = 0" if "ROWS_USED ! last_pos * 8 \<le> i"
    proof (rule ccontr)
      assume "block ! i \<noteq> 0"
      then have "q \<le> last_pos" using assms(2) q by auto
      then have "i < 8 * ROWS_USED ! last_pos" using rows_used_bound [OF assms(3)] q by simp
      then show False using that by simp
    qed
    then show ?thesis using i assms(1) r by (simp add: nth_append)
  qed
  then show ?thesis using l by (intro nth_equalityI) auto
qed

lemma dc_term_block: "\<exists>x. snd (dc_term dc s block) = block \<or> snd (dc_term dc s block) = block[0 := x]"
  by (auto simp: dc_term_def Let_def split: prod.splits)

lemma dc_term_block0:
  "length (snd (dc_term dc s block)) = length block \<and> (\<forall>i. i \<noteq> 0 \<longrightarrow> snd (dc_term dc s block) ! i = block ! i)"
  by (auto simp: dc_term_def Let_def split: prod.splits)

lemma dc_term_reader: "fst (dc_term dc s block) = fst (dc_term dc s block')"
  by (simp add: dc_term_def Let_def split: prod.splits)

lemma zigzag_0: "ZIGZAG_NATURAL ! 0 = 0"
  by (simp add: ZIGZAG_NATURAL_def)

lemma zigzag_nonzero: "q < 64 \<Longrightarrow> q \<noteq> 0 \<Longrightarrow> ZIGZAG_NATURAL ! q \<noteq> 0"
  using zigzag_inj [of q 0] zigzag_0 by simp

text \<open>One block: with a zero block before it, the decoder does what the reference does, and leaves a
  zero block.\<close>

definition same_plane :: "plane \<Rightarrow> plane \<Rightarrow> bool" where
  "same_plane p q \<longleftrightarrow> p\<lparr>pn_block := []\<rparr> = q\<lparr>pn_block := []\<rparr>"

lemma terms_ok_start: "reader_ok ac \<Longrightarrow> terms_ok \<lparr>tm_ac = ac, tm_pending = p, tm_last = 0, tm_block = replicate 64 0\<rparr>"
  by (simp add: terms_ok_def fresh_from_def)

definition plane_ok :: "plane \<Rightarrow> bool" where
  "plane_ok p \<longleftrightarrow> reader_ok (pn_ac p) \<and> pn_block p = replicate 64 0"

lemma plane_block_reference:
  assumes "plane_ok p"
  shows "case (plane_block stride bias matrix s base p, reference_block stride bias matrix s base p) of
      (None, None) \<Rightarrow> True
    | (Some (a, q), Some (b, q')) \<Rightarrow> a = b \<and> same_plane q q' \<and> (a \<longrightarrow> q = q' \<and> plane_ok q)
    | _ \<Rightarrow> False"
proof -
  let ?t = "\<lparr>tm_ac = pn_ac p, tm_pending = pn_pending p, tm_last = 0, tm_block = replicate 64 0\<rparr>"
  have b: "pn_block p = replicate 64 0" and ac: "reader_ok (pn_ac p)" using assms by (auto simp: plane_ok_def)
  obtain accepted t where t: "ac_terms ac_slow 0 ?t = (accepted, t)" by fastforce
  have e: "ac_terms ac_code 0 ?t = (accepted, t)" and ok: "terms_ok t"
    using ac_terms_equiv [OF terms_ok_start [OF ac, of "pn_pending p"], of 0] t by auto
  obtain dc block where d: "dc_term (pn_dc p) s (tm_block t) = (dc, block)" by fastforce
  define level where "level = wrap16 (block ! 0 + pn_prediction p)"
  have bl: "length block = 64" using dc_term_block0 [of "pn_dc p" s "tm_block t"] d ok
    by (simp add: terms_ok_def fresh_from_def)
  have nz: "\<forall>q<64. block[0 := level] ! (ZIGZAG_NATURAL ! q) \<noteq> 0 \<longrightarrow> q \<le> tm_last t \<or> q = 0"
  proof (intro allI impI)
    fix q
    assume q: "q < 64" "block[0 := level] ! (ZIGZAG_NATURAL ! q) \<noteq> 0"
    show "q \<le> tm_last t \<or> q = 0"
    proof (cases "q = 0")
      case False
      then have "tm_block t ! (ZIGZAG_NATURAL ! q) \<noteq> 0"
        using q zigzag_nonzero dc_term_block0 [of "pn_dc p" s "tm_block t"] d by simp
      then show ?thesis using ok q(1) by (simp add: terms_ok_def)
    qed simp
  qed
  have clear: "replicate (ROWS_USED ! tm_last t * 8) 0 @ drop (ROWS_USED ! tm_last t * 8) (block[0 := level]) = replicate 64 0"
    using block_cleared [OF _ nz] bl ok by (simp add: terms_ok_def)
  have last64: "tm_last t mod 64 = tm_last t" using ok by (simp add: terms_ok_def)
  have okt: "reader_ok (tm_ac t)" using ok by (simp add: terms_ok_def)
  show ?thesis
  proof (cases "accepted \<and> \<not> rd_corrupt dc")
    case False
    then show ?thesis using e t d b by (auto simp: plane_block_def reference_block_def Let_def same_plane_def split: prod.splits)
  next
    case acc: True
    show ?thesis
    proof (cases "pn_pending p < 64")
      case True
      let ?f = "\<lambda>tail. idct_scalar (block[0 := level]) matrix tail stride bias"
      show ?thesis using e t d b acc True bl clear last64 okt
        by (cases "on_tail base ?f (pn_dst p)")
          (simp_all add: plane_block_def reference_block_def Let_def same_plane_def plane_ok_def level_def)
    next
      case False
      then have tt: "t = ?t" using t by (simp add: ac_terms.simps)
      have "snd (dc_term (pn_dc p) s (replicate 64 0)) = block" using d tt by simp
      then have z: "block[0 := x, 0 := 0] = replicate 64 0" for x
        using dc_term_block [of "pn_dc p" s "replicate 64 0"] by (auto simp: list_update_overwrite intro: list_update_id [of "replicate 64 0" 0, simplified])
      let ?f = "\<lambda>tail. broadcast_dc level tail stride bias"
      show ?thesis using e t d b acc False bl z okt
        by (cases "on_tail base ?f (pn_dst p)")
          (simp_all add: plane_block_def reference_block_def Let_def same_plane_def plane_ok_def level_def)
    qed
  qed
qed


section \<open>The plane\<close>

lemma plane_end_same: "same_plane p q \<Longrightarrow> plane_end (a, p) = plane_end (a, q)"
proof -
  assume "same_plane p q"
  then have "pn_dc p = pn_dc q" "pn_ac p = pn_ac q" "pn_dst p = pn_dst q"
    unfolding same_plane_def by (metis plane.surjective plane.update_convs(5) plane.select_convs)+
  then show ?thesis by (simp add: plane_end_def)
qed

lemma plane_blocks_reference:
  assumes "plane_ok p"
  shows "map_option plane_end (plane_blocks (plane_block stride bias matrix s) bases p)
    = map_option plane_end (plane_blocks (reference_block stride bias matrix s) bases p)"
  using assms
proof (induction bases arbitrary: p)
  case (Cons base bases)
  show ?case using plane_block_reference [OF Cons.prems, of stride bias matrix s base] Cons.IH plane_end_same
    by (auto split: option.splits prod.splits)
qed simp

text \<open>No block panics, and what it stores does not depend on what was there.\<close>

definition plane_agree :: "nat set \<Rightarrow> plane \<Rightarrow> plane \<Rightarrow> bool" where
  "plane_agree A p q \<longleftrightarrow> p\<lparr>pn_dst := []\<rparr> = q\<lparr>pn_dst := []\<rparr> \<and> agree_on A (pn_dst p) (pn_dst q)"

lemma on_tail_writes:
  assumes "writes_block f stride" "agree_on A xs ys" "base + 7 * stride + 8 \<le> length xs"
  obtains xs' ys' where "on_tail base f xs = Some xs'" "on_tail base f ys = Some ys'"
    "agree_on (A \<union> (+) base ` block_cells stride) xs' ys'" "agree_on (- (+) base ` block_cells stride) xs' xs"
proof -
  define B where "B = {i. base + i \<in> A}"
  have l: "length ys = length xs" using assms(2) by (simp add: agree_on_def)
  have "agree_on B (drop base xs) (drop base ys)" using assms(2,3) by (auto simp: agree_on_def B_def)
  then obtain u v where uv: "f (drop base xs) = Some u" "f (drop base ys) = Some v"
    "agree_on (B \<union> block_cells stride) u v" "agree_on (- block_cells stride) u (drop base xs)"
    using assms(1,3) by (elim writes_blockD) auto
  have lu: "length u = length xs - base" "length v = length xs - base" using uv(3,4) by (auto simp: agree_on_def)
  have "(take base xs @ u) ! i = (take base ys @ v) ! i"
    if "i \<in> A \<union> (+) base ` block_cells stride" "i < length xs" for i
  proof (cases "i < base")
    case True
    then show ?thesis using that assms(2,3) l by (auto simp: agree_on_def nth_append)
  next
    case False
    then have "i - base \<in> B \<union> block_cells stride" using that by (auto simp: B_def)
    then show ?thesis using False that uv(3) lu l assms(3) by (simp add: agree_on_def nth_append)
  qed
  then have a: "agree_on (A \<union> (+) base ` block_cells stride) (take base xs @ u) (take base ys @ v)"
    using lu l assms(3) by (simp add: agree_on_def)
  have "(take base xs @ u) ! i = xs ! i" if "i \<notin> (+) base ` block_cells stride" "i < length xs" for i
  proof (cases "i < base")
    case False
    then have "i - base \<notin> block_cells stride" using that(1) by (auto simp: image_iff)
    then show ?thesis using False that(2) uv(4) lu assms(3) by (simp add: agree_on_def nth_append)
  qed (use assms(3) in \<open>simp add: nth_append\<close>)
  then have "agree_on (- (+) base ` block_cells stride) (take base xs @ u) xs"
    using lu assms(3) by (simp add: agree_on_def)
  then show ?thesis using that [OF _ _ a] uv l assms(3) by (simp add: on_tail_def)
qed


lemma reference_block_agree:
  assumes pq: "plane_agree A p q" and len: "base + 7 * stride + 8 \<le> length (pn_dst p)" and s: "8 \<le> stride"
  obtains a p' q' where "reference_block stride bias matrix sh base p = Some (a, p')"
    "reference_block stride bias matrix sh base q = Some (a, q')"
    "plane_agree (if a then A \<union> (+) base ` block_cells stride else A) p' q'"
    "agree_on (- (+) base ` block_cells stride) (pn_dst p') (pn_dst p)"
proof -
  have q: "q = p\<lparr>pn_dst := pn_dst q\<rparr>"
    using pq unfolding plane_agree_def
    by (metis plane.surjective plane.update_convs(6))
  have ag: "agree_on A (pn_dst p) (pn_dst q)" using pq by (simp add: plane_agree_def)
  let ?t = "\<lparr>tm_ac = pn_ac p, tm_pending = pn_pending p, tm_last = 0, tm_block = replicate 64 0\<rparr>"
  obtain accepted t where t: "ac_terms ac_slow 0 ?t = (accepted, t)" by fastforce
  obtain dc block where d: "dc_term (pn_dc p) sh (tm_block t) = (dc, block)" by fastforce
  define level where "level = wrap16 (block ! 0 + pn_prediction p)"
  let ?f = "\<lambda>tail. if pn_pending p < 64 then idct_scalar (block[0 := level]) matrix tail stride bias else broadcast_dc level tail stride bias"
  have "writes_block ?f stride"
    using idct_writes broadcast_writes [OF s] by (cases "pn_pending p < 64") simp_all
  from on_tail_writes [OF this ag len] obtain xs' ys' where w: "on_tail base ?f (pn_dst p) = Some xs'"
    "on_tail base ?f (pn_dst q) = Some ys'" "agree_on (A \<union> (+) base ` block_cells stride) xs' ys'"
    "agree_on (- (+) base ` block_cells stride) xs' (pn_dst p)" by blast
  show ?thesis
  proof (cases "accepted \<and> \<not> rd_corrupt dc")
    case False
    define p' where "p' = (if accepted then p\<lparr>pn_ac := tm_ac t, pn_pending := tm_pending t - 64, pn_dc := dc\<rparr>
      else p\<lparr>pn_ac := tm_ac t, pn_pending := tm_pending t\<rparr>)"
    have "reference_block stride bias matrix sh base p = Some (False, p')"
      using False t d by (auto simp: reference_block_def Let_def p'_def)
    moreover have "reference_block stride bias matrix sh base q = Some (False, p'\<lparr>pn_dst := pn_dst q\<rparr>)"
      using False t d by (subst q) (auto simp: reference_block_def Let_def p'_def)
    ultimately show ?thesis using that [of False] ag by (simp add: plane_agree_def p'_def)
  next
    case True
    define p' where "p' = p\<lparr>pn_ac := tm_ac t, pn_pending := tm_pending t - 64, pn_dc := dc, pn_prediction := level, pn_dst := xs'\<rparr>"
    have "reference_block stride bias matrix sh base p = Some (True, p')"
      using True t d w(1) [unfolded level_def] by (simp add: reference_block_def Let_def p'_def level_def)
    moreover have "reference_block stride bias matrix sh base q = Some (True, p'\<lparr>pn_dst := ys'\<rparr>)"
      using True t d w(2) [unfolded level_def] by (subst q) (simp add: reference_block_def Let_def p'_def level_def)
    ultimately show ?thesis using that [of True] w(3,4) by (simp add: plane_agree_def p'_def)
  qed
qed


lemma reference_blocks_agree:
  assumes "plane_agree A p q" "\<forall>base\<in>set bases. base + 7 * stride + 8 \<le> length (pn_dst p)" "8 \<le> stride"
  shows "\<exists>a p' q'. plane_blocks (reference_block stride bias matrix sh) bases p = Some (a, p')
    \<and> plane_blocks (reference_block stride bias matrix sh) bases q = Some (a, q')
    \<and> plane_agree (if a then A \<union> (\<Union>base\<in>set bases. (+) base ` block_cells stride) else {}) p' q'
    \<and> agree_on (- (\<Union>base\<in>set bases. (+) base ` block_cells stride)) (pn_dst p') (pn_dst p)"
  using assms(1,2)
proof (induction bases arbitrary: p q A)
  case Nil
  then show ?case by auto
next
  case (Cons base bases)
  have len: "base + 7 * stride + 8 \<le> length (pn_dst p)" using Cons.prems(2) by simp
  obtain a p1 q1 where s: "reference_block stride bias matrix sh base p = Some (a, p1)"
    "reference_block stride bias matrix sh base q = Some (a, q1)"
    "plane_agree (if a then A \<union> (+) base ` block_cells stride else A) p1 q1"
    "agree_on (- (+) base ` block_cells stride) (pn_dst p1) (pn_dst p)"
    using reference_block_agree [OF Cons.prems(1) len assms(3)] by blast
  have l1: "length (pn_dst p1) = length (pn_dst p)" using s(4) by (simp add: agree_on_def)
  show ?case
  proof (cases a)
    case False
    have "plane_agree {} p1 q1" using s(3) by (auto simp: plane_agree_def agree_on_def)
    moreover have "agree_on (- (\<Union>b\<in>set (base # bases). (+) b ` block_cells stride)) (pn_dst p1) (pn_dst p)"
      using s(4) by (rule agree_on_mono) auto
    ultimately show ?thesis using s False by auto
  next
    case True
    have "plane_agree (A \<union> (+) base ` block_cells stride) p1 q1" using s(3) True by simp
    from Cons.IH [OF this] Cons.prems(2) l1 obtain b p' q' where
      r: "plane_blocks (reference_block stride bias matrix sh) bases p1 = Some (b, p')"
      "plane_blocks (reference_block stride bias matrix sh) bases q1 = Some (b, q')"
      "plane_agree (if b then A \<union> (+) base ` block_cells stride \<union> (\<Union>base\<in>set bases. (+) base ` block_cells stride) else {}) p' q'"
      "agree_on (- (\<Union>base\<in>set bases. (+) base ` block_cells stride)) (pn_dst p') (pn_dst p1)" by auto
    have "agree_on (- (\<Union>b\<in>set (base # bases). (+) b ` block_cells stride)) (pn_dst p') (pn_dst p)"
      by (rule agree_on_trans [OF agree_on_mono [OF r(4)] agree_on_mono [OF s(4)]]) auto
    then show ?thesis using s True r by (auto simp: Un_assoc)
  qed
qed

text \<open>The blocks of a plane tile its sixteen rows.\<close>

lemma plane_bases_bound:
  assumes "stride mod 8 = 0" "base \<in> set (plane_bases stride)"
  shows "base + 7 * stride + 8 \<le> 16 * stride"
proof -
  obtain k where k: "stride = 8 * k" using assms(1) by (auto simp: mod_eq_0_iff_dvd)
  then obtain c where "c < k" "base = 8 * c \<or> base = 8 * stride + 8 * c"
    using assms(2) by (auto simp: plane_bases_def)
  then show ?thesis using k by auto
qed

lemma plane_bases_tile:
  assumes "stride mod 8 = 0" "i < 16 * stride"
  shows "\<exists>base\<in>set (plane_bases stride). i \<in> (+) base ` block_cells stride"
proof -
  obtain k where k: "stride = 8 * k" using assms(1) by (auto simp: mod_eq_0_iff_dvd)
  define r c where "r = i div stride" and "c = i mod stride"
  have pos: "0 < stride" using assms(2) by (cases stride) auto
  have i: "i = r * stride + c" "c < stride" "r < 16"
    using pos assms(2) by (auto simp: r_def c_def less_mult_imp_div_less)
  define base where "base = (8 * (r div 8)) * stride + 8 * (c div 8)"
  have "c div 8 < stride div 8" using i(2) k by (simp add: less_mult_imp_div_less)
  moreover have "r div 8 = 0 \<or> r div 8 = 1" using i(3) by linarith
  ultimately have "base \<in> set (plane_bases stride)" by (auto simp: plane_bases_def base_def)
  moreover have "(r mod 8) * stride + c mod 8 \<in> block_cells stride"
    by (auto simp: block_cells_def row_cells_def intro!: bexI [of _ "r mod 8"])
  moreover have "i = base + ((r mod 8) * stride + c mod 8)"
  proof -
    have "r * stride = 8 * (r div 8) * stride + r mod 8 * stride" by (metis add_mult_distrib mult_div_mod_eq)
    moreover have "c = 8 * (c div 8) + c mod 8" by (simp only: mult_div_mod_eq)
    ultimately show ?thesis unfolding base_def using i(1) by linarith
  qed
  ultimately show ?thesis by blast
qed

lemma plane_bases_cells:
  assumes "stride mod 8 = 0"
  shows "(\<Union>base\<in>set (plane_bases stride). (+) base ` block_cells stride) = {..<16 * stride}"
proof
  show "{..<16 * stride} \<subseteq> (\<Union>base\<in>set (plane_bases stride). (+) base ` block_cells stride)"
    using plane_bases_tile [OF assms] by auto
  have "j < 7 * stride + 8" if j: "j \<in> block_cells stride" for j
  proof -
    obtain k where "k < 8" "j < k * stride + 8" using j by (auto simp: block_cells_def row_cells_def)
    then show ?thesis using mult_le_mono1 [of k 7 stride] by linarith
  qed
  then show "(\<Union>base\<in>set (plane_bases stride). (+) base ` block_cells stride) \<subseteq> {..<16 * stride}"
    using plane_bases_bound [OF assms] by fastforce
qed


lemma decode_plane_reference:
  assumes "reader_ok ac"
  shows "decode_plane dc ac stride bias matrix dc_shift dst = reference_plane dc ac stride bias matrix dc_shift dst"
  using plane_blocks_reference [of "\<lparr>pn_dc = dc, pn_ac = ac, pn_pending = 0, pn_prediction = 0, pn_block = replicate 64 0, pn_dst = dst\<rparr>"]
    assms by (simp add: decode_plane_def reference_plane_def plane_ok_def)

lemma reference_plane_total:
  assumes "length dst' = length dst"
  shows "\<exists>a dc' ac' d d'. reference_plane dc ac stride bias matrix s dst = Some (a, dc', ac', d)
    \<and> reference_plane dc ac stride bias matrix s dst' = Some (a, dc', ac', d')
    \<and> length d = length dst \<and> drop (16 * stride) d = drop (16 * stride) dst
    \<and> (a \<longrightarrow> 0 < stride \<and> 16 * stride \<le> length dst \<and> take (16 * stride) d = take (16 * stride) d')"
proof (cases "stride = 0 \<or> stride mod 8 \<noteq> 0 \<or> length dst div SLICE_HEIGHT < stride")
  case True
  then show ?thesis using assms by (auto simp: reference_plane_def)
next
  case False
  then have st: "8 \<le> stride" "stride mod 8 = 0" "16 * stride \<le> length dst"
    by (cases "stride < 8"; auto simp: not_less less_eq_div_iff_mult_less_eq mult.commute)+
  let ?p = "\<lparr>pn_dc = dc, pn_ac = ac, pn_pending = 0, pn_prediction = 0, pn_block = replicate 64 0, pn_dst = dst\<rparr>"
  have ag: "plane_agree {} ?p (?p\<lparr>pn_dst := dst'\<rparr>)" using assms by (simp add: plane_agree_def agree_on_def)
  have len: "\<forall>base\<in>set (plane_bases stride). base + 7 * stride + 8 \<le> length (pn_dst ?p)"
    using plane_bases_bound [OF st(2)] st(3) by fastforce
  obtain a p q where r: "plane_blocks (reference_block stride bias matrix s) (plane_bases stride) ?p = Some (a, p)"
    "plane_blocks (reference_block stride bias matrix s) (plane_bases stride) (?p\<lparr>pn_dst := dst'\<rparr>) = Some (a, q)"
    "plane_agree (if a then {..<16 * stride} else {}) p q" "agree_on (- {..<16 * stride}) (pn_dst p) dst"
    using reference_blocks_agree [OF ag len st(1), of bias matrix s, unfolded plane_bases_cells [OF st(2)] Un_empty_left]
    by auto
  have same: "pn_dc p = pn_dc q" "pn_ac p = pn_ac q"
    using r(3) unfolding plane_agree_def by (metis plane.surjective plane.update_convs(6) plane.select_convs)+
  have d: "length (pn_dst p) = length dst" "drop (16 * stride) (pn_dst p) = drop (16 * stride) dst"
    using r(4) by (auto simp: agree_on_def intro!: nth_equalityI)
  have e: "take (16 * stride) (pn_dst p) = take (16 * stride) (pn_dst q)" if a
    using r(3) that by (auto simp: plane_agree_def agree_on_def intro!: nth_equalityI)
  show ?thesis using False r(1,2) same d e st assms
    by (cases a) (auto simp: reference_plane_def plane_end_def Let_def)
qed

lemma decode_plane_total:
  assumes "reader_ok ac" "length dst' = length dst"
  shows "\<exists>a dc' ac' d d'. decode_plane dc ac stride bias matrix s dst = Some (a, dc', ac', d)
    \<and> decode_plane dc ac stride bias matrix s dst' = Some (a, dc', ac', d')
    \<and> length d = length dst \<and> drop (16 * stride) d = drop (16 * stride) dst
    \<and> (a \<longrightarrow> 0 < stride \<and> 16 * stride \<le> length dst \<and> take (16 * stride) d = take (16 * stride) d')"
  unfolding decode_plane_reference [OF assms(1)] by (rule reference_plane_total [OF assms(2)])

text \<open>An accepted plane leaves the reader of its codes ready for the next plane.\<close>

lemma reader_ok_bits_loop: "reader_ok r \<Longrightarrow> reader_ok (snd (rd_bits_loop m v r))"
proof (induction m v r rule: rd_bits_loop.induct)
  case (1 m v r)
  show ?case
  proof (cases "0 < m \<and> 0 < min m (rd_bits_left r)")
    case True
    obtain b r1 where t: "rd_take r (min m (rd_bits_left r)) = (b, r1)" by fastforce
    have "min m (rd_bits_left r) \<le> 100" using "1.prems" by (auto simp: reader_ok_def)
    then have "reader_ok (rd_flush r1)"
      using reader_ok_take [OF "1.prems", of "min m (rd_bits_left r)"] True t by (simp add: reader_ok_flush)
    then show ?thesis using "1.IH" True t by (subst rd_bits_loop.simps) (auto simp: Let_def)
  next
    case False
    then show ?thesis using "1.prems" by (subst rd_bits_loop.simps) (auto simp: Let_def)
  qed
qed

lemma reader_ok_align: "reader_ok r \<Longrightarrow> reader_ok (rd_align r)"
  using reader_ok_bits_loop by (auto simp: rd_align_def rd_bits_def intro!: reader_ok_flush)

lemma plane_blocks_ok:
  assumes "plane_ok p" "plane_blocks (plane_block stride bias matrix s) bases p = Some (True, q)"
  shows "plane_ok q"
  using assms
proof (induction bases arbitrary: p)
  case (Cons base bases)
  then obtain p1 where p1: "plane_block stride bias matrix s base p = Some (True, p1)"
    "plane_blocks (plane_block stride bias matrix s) bases p1 = Some (True, q)"
    by (auto split: option.splits prod.splits if_splits)
  then have "plane_ok p1" using plane_block_reference [OF Cons.prems(1), of stride bias matrix s base]
    by (auto split: option.splits prod.splits)
  then show ?case using Cons.IH p1(2) by blast
qed simp

lemma decode_plane_reader:
  assumes "reader_ok ac" "decode_plane dc ac stride bias matrix s dst = Some (True, dc', ac', d)"
  shows "reader_ok ac'"
proof -
  let ?p = "\<lparr>pn_dc = dc, pn_ac = ac, pn_pending = 0, pn_prediction = 0, pn_block = replicate 64 0, pn_dst = dst\<rparr>"
  obtain r where r: "plane_blocks (plane_block stride bias matrix s) (plane_bases stride) ?p = Some r" "plane_end r = (True, dc', ac', d)"
    using assms(2) by (auto simp: decode_plane_def split: if_splits)
  then obtain q where q: "r = (True, q)" "ac' = rd_align (pn_ac q)"
    by (cases r) (auto simp: plane_end_def Let_def split: if_splits)
  have "plane_ok ?p" using assms(1) by (simp add: plane_ok_def)
  then have "plane_ok q" using plane_blocks_ok r(1) q(1) by blast
  then show ?thesis using q(2) by (simp add: plane_ok_def reader_ok_align)
qed

lemma stream_reader_ok: "reader_ok (stream_reader s)"
  by (simp add: stream_reader_def rd_window_at_def Let_def reader_ok_def)

section \<open>Properties\<close>

text \<open>C15. The plane decoder, with its lookahead table, its block reused between transforms and its partial
  clearing, does exactly what the reference does: for every pair of readers, stride, bias, matrix,
  shift and destination, damaged streams included, it accepts or rejects the same streams, leaves the
  same readers and writes the same bytes.\<close>

theorem plane_equals_reference:
  assumes "reader_ok ac"
  shows "decode_plane dc ac stride bias matrix dc_shift dst = reference_plane dc ac stride bias matrix dc_shift dst"
  by (rule decode_plane_reference [OF assms])

theorem plane_equals_reference_witness:
  "decode_plane (stream_reader (stream_new 16)) (stream_reader (stream_new 16)) 8 128 (decode_matrix 3) 0 (replicate 128 0)
    = reference_plane (stream_reader (stream_new 16)) (stream_reader (stream_new 16)) 8 128 (decode_matrix 3) 0 (replicate 128 0)"
  by (rule plane_equals_reference [OF stream_reader_ok])

text \<open>C16. The plane decoder is safe on every input: it never panics and never writes outside the sixteen
  rows of the plane; a plane it accepts is wholly overwritten, so that nothing of what the reused
  scratch held before can be seen in it; and whether it accepts, and where it leaves the readers, does
  not depend on the scratch either.\<close>

theorem plane_safe:
  assumes "reader_ok ac" "length scratch = length dst"
  shows "\<exists>accepted dc' ac' d d'.
      decode_plane dc ac stride bias matrix dc_shift dst = Some (accepted, dc', ac', d)
    \<and> decode_plane dc ac stride bias matrix dc_shift scratch = Some (accepted, dc', ac', d')
    \<and> length d = length dst \<and> drop (16 * stride) d = drop (16 * stride) dst
    \<and> (accepted \<longrightarrow> 0 < stride \<and> 16 * stride \<le> length dst \<and> take (16 * stride) d = take (16 * stride) d')"
  by (rule decode_plane_total [OF assms])

theorem plane_safe_witness:
  "\<exists>accepted dc' ac' d. decode_plane (stream_reader (stream_new 16)) (stream_reader (stream_new 16)) 8 128 (decode_matrix 3) 0
     (replicate 128 0) = Some (accepted, dc', ac', d) \<and> length d = 128"
  using plane_safe [OF stream_reader_ok [of "stream_new 16"], of "replicate 128 7" "replicate 128 0"
      "stream_reader (stream_new 16)" 8 128 "decode_matrix 3" 0] by auto

text \<open>Every code moves the decoder on: a block is abandoned only because its reader found the stream
  damaged, and an accepted block has reached its last position. The limit of 4096 symbols per block is
  never what stops it.\<close>

lemma plane_codes_progress:
  assumes "reader_ok ac"
  shows "case ac_terms ac_code 0 \<lparr>tm_ac = ac, tm_pending = pending, tm_last = 0, tm_block = replicate 64 0\<rparr> of
           (accepted, t) \<Rightarrow> (if accepted then 64 \<le> tm_pending t else rd_corrupt (tm_ac t))"
  using ac_terms_equiv [OF terms_ok_start [OF assms], of 0 pending]
    ac_terms_progress [of "\<lparr>tm_ac = ac, tm_pending = pending, tm_last = 0, tm_block = replicate 64 0\<rparr>" 0] assms
  by (auto split: prod.splits)

end
