(* ===== verification/Vmx_Convert.thy ===== *)
theory Vmx_Convert
  imports Vmx_Idct
begin

text \<open>
  \<^verbatim>\<open>crates/omt-vmx/src/convert.rs\<close>: the packed output rows. An index outside a slice panics, which is
  \<open>None\<close>; the theorems give the bytes of every row whose operands are long enough, and show that
  none of the 16-bit steps of the colour conversion saturates or wraps except where it is meant to.
\<close>

section \<open>Rows\<close>

definition uyvy_row :: "u8 list \<Rightarrow> u8 list \<Rightarrow> u8 list \<Rightarrow> nat \<Rightarrow> u8 list \<Rightarrow> u8 list option" where
  "uyvy_row luma blue red width out =
     (let pairs = width div 2
      in if length out < pairs * 4 then None
         else if pairs \<le> length blue \<and> pairs \<le> length red \<and> 2 * pairs \<le> length luma
           then Some (concat (map (\<lambda>pair. [blue ! pair, luma ! (2 * pair), red ! pair, luma ! (2 * pair + 1)]) [0..<pairs])
                      @ drop (pairs * 4) out)
         else None)"

definition round_channel :: "int \<Rightarrow> u8" where
  "round_channel v = sat8 (sadd16 v 8 div 16)"

text \<open>The three channels of one pixel from its luma and the chroma terms of its pair.\<close>

definition bgra_pixel :: "u8 \<Rightarrow> int \<Rightarrow> int \<Rightarrow> int \<Rightarrow> int \<Rightarrow> int \<Rightarrow> u8 list" where
  "bgra_pixel y chroma_blue green_from_blue green_from_red chroma_red c0 =
     (let floored = int (unat y - 16);
          scaled = mulhi (wrap16 (floored * 64)) c0
      in [round_channel (sadd16 chroma_blue scaled),
          round_channel (ssub16 (ssub16 scaled green_from_blue) green_from_red),
          round_channel (sadd16 chroma_red scaled),
          0xFF])"

definition bgra_pair :: "u8 list \<Rightarrow> u8 list \<Rightarrow> u8 list \<Rightarrow> int list \<Rightarrow> nat \<Rightarrow> u8 list" where
  "bgra_pair luma blue red c pair =
     (let blue_difference = int (unat (blue ! pair)) - 128;
          red_difference = int (unat (red ! pair)) - 128;
          chroma_red = mulhi (wrap16 (red_difference * 64)) (c ! 1);
          chroma_blue = mulhi (wrap16 (blue_difference * 128)) (c ! 4);
          green_from_blue = mulhi (wrap16 (blue_difference * 64)) (c ! 2);
          green_from_red = mulhi (wrap16 (red_difference * 64)) (c ! 3)
      in concat (map (\<lambda>k. bgra_pixel (luma ! (2 * pair + k)) chroma_blue green_from_blue green_from_red chroma_red (c ! 0)) [0, 1]))"

definition bgra_row :: "u8 list \<Rightarrow> u8 list \<Rightarrow> u8 list \<Rightarrow> nat \<Rightarrow> u8 list \<Rightarrow> int list \<Rightarrow> u8 list option" where
  "bgra_row luma blue red width out c =
     (let pairs = width div 2
      in if length luma < pairs * 2 \<or> length blue < pairs \<or> length red < pairs \<or> length out < pairs * 8 then None
         else Some (concat (map (bgra_pair luma blue red c) [0..<pairs]) @ drop (pairs * 8) out))"

section \<open>Their size\<close>

lemma length_concat_const: "(\<And>x. x \<in> set xs \<Longrightarrow> length (f x) = n) \<Longrightarrow> length (concat (map f xs)) = length xs * n"
  by (induction xs) auto

lemma length_bgra_pair [simp]: "length (bgra_pair luma blue red c pair) = 8"
  by (simp add: bgra_pair_def bgra_pixel_def Let_def)

lemma length_bgra_pairs [simp]: "length (concat (map (bgra_pair luma blue red c) [0..<pairs])) = pairs * 8"
  by (subst length_concat_const [of _ _ 8]) auto

lemma length_uyvy_pairs [simp]:
  "length (concat (map (\<lambda>pair. [blue ! pair, luma ! (2 * pair), red ! pair, luma ! (2 * pair + 1)]) [0..<pairs])) = pairs * 4"
  by (subst length_concat_const [of _ _ 4]) auto


section \<open>Properties\<close>

text \<open>The exact value of a channel: the terms of the codec's fixed-point formula, rounded down one by one
  to sixteenths, and their sum rounded and clamped to a byte.\<close>

definition exact_channel :: "int \<Rightarrow> u8" where
  "exact_channel v = word_of_int (max 0 (min 255 ((v + 8) div 16)))"

definition exact_pixel :: "int list \<Rightarrow> u8 \<Rightarrow> u8 \<Rightarrow> u8 \<Rightarrow> u8 list" where
  "exact_pixel c y cb cr =
     (let l = max 0 (int (unat y) - 16) * 64 * c ! 0 div 65536;
          b = (int (unat cb) - 128); r = (int (unat cr) - 128)
      in [exact_channel (l + b * 128 * c ! 4 div 65536),
          exact_channel (l - b * 64 * c ! 2 div 65536 - r * 64 * c ! 3 div 65536),
          exact_channel (l + r * 64 * c ! 1 div 65536),
          0xFF])"

lemma mulhi_exact:
  assumes "- 16384 \<le> a" "a \<le> 16383" "0 \<le> c" "c \<le> 32767"
  shows "mulhi (wrap16 a) c = a * c div 65536" "- 8192 \<le> a * c div 65536" "a * c div 65536 \<le> 8191"
proof -
  have "a * c \<le> 16383 * c" using assms by (intro mult_right_mono) auto
  moreover have "(- 16384) * c \<le> a * c" using assms by (intro mult_right_mono) auto
  ultimately have p: "- 536870912 \<le> a * c" "a * c \<le> 536870911" using assms by auto
  then show q: "- 8192 \<le> a * c div 65536" "a * c div 65536 \<le> 8191" by auto
  have "wrap16 a = a" using assms by (simp add: i16_def)
  then show "mulhi (wrap16 a) c = a * c div 65536" using q by (simp add: mulhi_def i16_def)
qed

lemma sadd16_exact: "- 32768 \<le> a + b \<Longrightarrow> a + b \<le> 32767 \<Longrightarrow> sadd16 a b = a + b"
  by (simp add: sadd16_def clamp_def)

lemma ssub16_exact: "- 32768 \<le> a - b \<Longrightarrow> a - b \<le> 32767 \<Longrightarrow> ssub16 a b = a - b"
  by (simp add: ssub16_def clamp_def)

lemma round_channel_exact: "- 32768 \<le> v \<Longrightarrow> v \<le> 32759 \<Longrightarrow> round_channel v = exact_channel v"
  by (simp add: round_channel_def sadd16_exact sat8_def clamp_def exact_channel_def max_def min_def)

lemma bgra_pixel_exact:
  assumes c: "\<forall>k<5. 0 \<le> c ! k \<and> c ! k \<le> 32767"
  shows "bgra_pixel y (mulhi (wrap16 ((int (unat cb) - 128) * 128)) (c ! 4)) (mulhi (wrap16 ((int (unat cb) - 128) * 64)) (c ! 2))
      (mulhi (wrap16 ((int (unat cr) - 128) * 64)) (c ! 3)) (mulhi (wrap16 ((int (unat cr) - 128) * 64)) (c ! 1)) (c ! 0)
    = exact_pixel c y cb cr"
proof -
  have u: "unat y < 256" "unat cb < 256" "unat cr < 256" by simp_all
  have y: "int (unat y - 16) = max 0 (int (unat y) - 16)" by linarith
  have k: "0 \<le> c ! 0" "c ! 0 \<le> 32767" "0 \<le> c ! 1" "c ! 1 \<le> 32767" "0 \<le> c ! 2" "c ! 2 \<le> 32767"
    "0 \<le> c ! 3" "c ! 3 \<le> 32767" "0 \<le> c ! 4" "c ! 4 \<le> 32767"
    using c by simp_all
  define Y B R where "Y = max 0 (int (unat y) - 16)" and "B = int (unat cb) - 128" and "R = int (unat cr) - 128"
  have r: "0 \<le> Y" "Y \<le> 239" "- 128 \<le> B" "B \<le> 127" "- 128 \<le> R" "R \<le> 127"
    unfolding Y_def B_def R_def using u by linarith+
  have l: "mulhi (wrap16 (Y * 64)) (c ! 0) = Y * 64 * c ! 0 div 65536"
    "- 8192 \<le> Y * 64 * c ! 0 div 65536" "Y * 64 * c ! 0 div 65536 \<le> 8191"
    using r k by (intro mulhi_exact; simp)+
  have b4: "mulhi (wrap16 (B * 128)) (c ! 4) = B * 128 * c ! 4 div 65536"
    "- 8192 \<le> B * 128 * c ! 4 div 65536" "B * 128 * c ! 4 div 65536 \<le> 8191"
    using r k by (intro mulhi_exact; simp)+
  have b2: "mulhi (wrap16 (B * 64)) (c ! 2) = B * 64 * c ! 2 div 65536"
    "- 8192 \<le> B * 64 * c ! 2 div 65536" "B * 64 * c ! 2 div 65536 \<le> 8191"
    using r k by (intro mulhi_exact; simp)+
  have r3: "mulhi (wrap16 (R * 64)) (c ! 3) = R * 64 * c ! 3 div 65536"
    "- 8192 \<le> R * 64 * c ! 3 div 65536" "R * 64 * c ! 3 div 65536 \<le> 8191"
    using r k by (intro mulhi_exact; simp)+
  have r1: "mulhi (wrap16 (R * 64)) (c ! 1) = R * 64 * c ! 1 div 65536"
    "- 8192 \<le> R * 64 * c ! 1 div 65536" "R * 64 * c ! 1 div 65536 \<le> 8191"
    using r k by (intro mulhi_exact; simp)+
  have ch: "round_channel (sadd16 s t) = exact_channel (t + s)" "round_channel (ssub16 (ssub16 t s) v) = exact_channel (t - s - v)"
    if "- 8192 \<le> s" "s \<le> 8191" "- 8192 \<le> t" "t \<le> 8191" "- 8192 \<le> v" "v \<le> 8191" for s t v
    using that by (simp_all add: sadd16_exact ssub16_exact round_channel_exact add.commute)
  show ?thesis
    unfolding bgra_pixel_def exact_pixel_def Let_def y Y_def [symmetric] B_def [symmetric] R_def [symmetric] l(1) b4(1) b2(1) r3(1) r1(1)
    using ch(1) [OF b4(2,3) l(2,3) l(2,3)] ch(2) [OF b2(2,3) l(2,3) r3(2,3)] ch(1) [OF r1(2,3) l(2,3) l(2,3)] by (simp only:)
qed

text \<open>C18. The packed conversion of a row is the exact formula at every pixel: for rows long enough for the
  width and either colour space of the codec, the kernel does not panic, writes four bytes for every
  pixel and leaves the rest of the output; no 16-bit step of it wraps or saturates, so every channel is
  the exact sum of its terms, rounded and clamped once.\<close>

theorem bgra_row_exact:
  assumes "c = YUV_RGB_601 \<or> c = YUV_RGB_709" "even width" "width \<le> length luma" "width div 2 \<le> length blue"
    "width div 2 \<le> length red" "4 * width \<le> length out"
  shows "bgra_row luma blue red width out c =
    Some (concat (map (\<lambda>x. exact_pixel c (luma ! x) (blue ! (x div 2)) (red ! (x div 2))) [0..<width]) @ drop (4 * width) out)"
proof -
  have c: "\<forall>k<5. 0 \<le> c ! k \<and> c ! k \<le> 32767"
    using assms(1) by (auto simp: YUV_RGB_601_def YUV_RGB_709_def less_Suc_eq numeral_eq_Suc)
  obtain n where n: "width = 2 * n" using assms(2) by blast
  have p: "bgra_pair luma blue red c pair =
    exact_pixel c (luma ! (2 * pair)) (blue ! pair) (red ! pair) @ exact_pixel c (luma ! (2 * pair + 1)) (blue ! pair) (red ! pair)" for pair
    unfolding bgra_pair_def Let_def bgra_pixel_exact [OF c] by simp
  have "concat (map (bgra_pair luma blue red c) [0..<m]) =
    concat (map (\<lambda>x. exact_pixel c (luma ! x) (blue ! (x div 2)) (red ! (x div 2))) [0..<2 * m])" for m
    by (induction m) (simp_all add: p)
  then show ?thesis using assms n by (simp add: bgra_row_def Let_def mult.commute [of n])
qed

theorem bgra_row_exact_witness:
  "bgra_row [16, 235] [128] [128] 2 (replicate 8 0) YUV_RGB_709 = Some [0, 0, 0, 255, 255, 255, 255, 255]"
proof -
  have "concat (map (\<lambda>x. exact_pixel YUV_RGB_709 ([16, 235] ! x) ([128] ! (x div 2)) ([128] ! (x div 2))) [0..<2])
    @ drop (4 * 2) (replicate 8 0) = [0, 0, 0, 255, 255, 255, 255, 255 :: u8]" by code_simp
  then show ?thesis using bgra_row_exact [of YUV_RGB_709 2 "[16, 235]" "[128]" "[128]" "replicate 8 0"] by simp
qed

end
