(* ===== verification/Vmx_Decoder.thy ===== *)
theory Vmx_Decoder
  imports Vmx_Plane Vmx_Convert
begin

text \<open>
  \<^verbatim>\<open>crates/omt-vmx/src/lib.rs\<close> and \<^verbatim>\<open>crates/omt-vmx/src/output.rs\<close>: the decoder of one geometry. A frame is
  loaded (its envelope validated and split into slice streams) and then decoded slice by slice into a
  packed output, three planes, or a placement within an output. A panic is \<open>None\<close>; an output view is
  its buffer, \<open>None\<close> for the empty view. The allocator and the spawning of threads are parameters. How
  the pool schedules the slices is \<open>Vmx_Pool\<close>.
\<close>

section \<open>Types\<close>

abbreviation MAX_WIDTH :: nat where "MAX_WIDTH \<equiv> 1920"
abbreviation MAX_HEIGHT :: nat where "MAX_HEIGHT \<equiv> 1080"
abbreviation MAX_COMPRESSED_BYTES :: nat where "MAX_COMPRESSED_BYTES \<equiv> 10485760"
abbreviation MAX_WORKERS :: nat where "MAX_WORKERS \<equiv> 8"
abbreviation MAX_PLACED_WIDTH :: nat where "MAX_PLACED_WIDTH \<equiv> 8192"
abbreviation MAX_PLACED_HEIGHT :: nat where "MAX_PLACED_HEIGHT \<equiv> 8192"
abbreviation FORMAT_PROGRESSIVE :: u8 where "FORMAT_PROGRESSIVE \<equiv> 1"
abbreviation FORMAT_INTERLACED :: u8 where "FORMAT_INTERLACED \<equiv> 2"
abbreviation FORMAT_EXTENDED :: u8 where "FORMAT_EXTENDED \<equiv> 3"

datatype vmx_status = InvalidDimensions | VmxEmpty | Oversized | Truncated | InvalidFormat
  | UnsupportedFormat | SliceCount | OutputSize | WorkerFailure | CorruptStream

fun status_name :: "vmx_status \<Rightarrow> string" where
  "status_name InvalidDimensions = ''InvalidDimensions''"
| "status_name VmxEmpty = ''Empty''"
| "status_name Oversized = ''Oversized''"
| "status_name Truncated = ''Truncated''"
| "status_name InvalidFormat = ''InvalidFormat''"
| "status_name UnsupportedFormat = ''UnsupportedFormat''"
| "status_name SliceCount = ''SliceCount''"
| "status_name OutputSize = ''OutputSize''"
| "status_name WorkerFailure = ''WorkerFailure''"
| "status_name CorruptStream = ''CorruptStream''"

datatype color_space = Bt601 | Bt709

definition color_resolve :: "int \<Rightarrow> nat \<Rightarrow> color_space" where
  "color_resolve v height =
     (if v = 601 then Bt601 else if v = 709 then Bt709 else if 720 \<le> height then Bt709 else Bt601)"

fun coefficients :: "color_space \<Rightarrow> int list" where
  "coefficients Bt601 = YUV_RGB_601"
| "coefficients Bt709 = YUV_RGB_709"

record vmx_placement =
  vp_x :: nat
  vp_y :: nat
  vp_columns :: "nat list"
  vp_rows :: "nat list"

datatype pixels = Uyvy | Bgrx | Yuv422p

record vslice =
  sl_dc :: stream
  sl_ac :: stream
  sl_rows :: nat
  sl_placed :: "nat \<times> nat"

record scratch =
  sx_luma :: "u8 list"
  sx_blue :: "u8 list"
  sx_red :: "u8 list"
  sx_source_row :: "u8 list"
  sx_placed_row :: "u8 list"

record job =
  jb_pixels :: pixels
  jb_matrix :: "int list"
  jb_dc_shift :: int
  jb_coefficients :: "int list"
  jb_plane_strides :: "nat list"
  jb_stride :: nat
  jb_placement :: "vmx_placement option"

text \<open>The shared geometry and slices, and the decoder's own fields; \<open>de_threads\<close> counts the workers.\<close>

record decoder =
  de_width :: nat
  de_luma_stride :: nat
  de_chroma_stride :: nat
  de_slices :: "vslice list"
  de_scratch :: "scratch list"
  de_threads :: nat
  de_height :: nat
  de_color_space :: color_space
  de_matrix :: "int list"
  de_dc_shift :: int
  de_loaded :: bool
  de_placed_capacity :: nat

section \<open>Construction\<close>

definition align8 :: "nat \<Rightarrow> nat" where
  "align8 v = (v + 7) div 8 * 8"

definition slice_new :: "nat \<Rightarrow> nat \<Rightarrow> nat \<Rightarrow> vslice" where
  "slice_new luma_stride height i =
     \<lparr>sl_dc = stream_new (luma_stride * SLICE_HEIGHT * 2), sl_ac = stream_new (luma_stride * SLICE_HEIGHT * 4),
      sl_rows = min (height - i * SLICE_HEIGHT) SLICE_HEIGHT, sl_placed = (0, 0)\<rparr>"

definition scratch_new :: "nat \<Rightarrow> nat \<Rightarrow> nat \<Rightarrow> scratch" where
  "scratch_new width luma_stride chroma_stride =
     \<lparr>sx_luma = replicate (luma_stride * SLICE_HEIGHT) 0, sx_blue = replicate (chroma_stride * SLICE_HEIGHT) 0,
      sx_red = replicate (chroma_stride * SLICE_HEIGHT) 0, sx_source_row = replicate (width * 4) 0, sx_placed_row = []\<rparr>"

text \<open>\<open>spawn i\<close> answers whether worker \<open>i\<close> could be started.\<close>

definition decoder_new :: "(nat \<Rightarrow> bool) \<Rightarrow> nat \<Rightarrow> nat \<Rightarrow> color_space \<Rightarrow> nat \<Rightarrow> vmx_status + decoder" where
  "decoder_new spawn width height color_space workers =
     (if \<not> (16 \<le> width \<and> width \<le> MAX_WIDTH) \<or> width mod 2 \<noteq> 0 \<or> \<not> (16 \<le> height \<and> height \<le> MAX_HEIGHT)
         \<or> \<not> (1 \<le> workers \<and> workers \<le> MAX_WORKERS)
      then Inl InvalidDimensions
      else
        (let luma_stride = align8 width;
             chroma_stride = align8 (width div 2);
             slice_count = div_ceil height SLICE_HEIGHT;
             workers = min workers slice_count
         in if list_all spawn [1..<workers] then
              Inr \<lparr>de_width = width, de_luma_stride = luma_stride, de_chroma_stride = chroma_stride,
                   de_slices = map (slice_new luma_stride height) [0..<slice_count],
                   de_scratch = replicate workers (scratch_new width luma_stride chroma_stride),
                   de_threads = workers - 1, de_height = height, de_color_space = color_space,
                   de_matrix = decode_matrix 0, de_dc_shift = 0, de_loaded = False, de_placed_capacity = 0\<rparr>
            else Inl WorkerFailure))"

section \<open>Loading\<close>

definition take_stream :: "u8 list \<Rightarrow> nat \<Rightarrow> vmx_status + (u8 list \<times> nat)" where
  "take_stream input cursor =
     (if length input < cursor then Inl Truncated
      else
        (let rest = drop cursor input
         in if length rest < 4 then Inl Truncated
            else
              (let n = le_val (take 4 rest); rest = drop 4 rest
               in if length rest < n then Inl Truncated else Inr (take n rest, cursor + 4 + n))))"

text \<open>The two loops over the slices. A failed slice leaves the ones before it loaded.\<close>

fun load_dc :: "bool list \<Rightarrow> u8 list \<Rightarrow> nat \<Rightarrow> vslice list \<Rightarrow> vslice list \<times> (vmx_status + nat)" where
  "load_dc allocs input cursor [] = ([], Inr cursor)"
| "load_dc allocs input cursor (s # slices) =
     (case take_stream input cursor of
        Inl e \<Rightarrow> (s # slices, Inl e)
      | Inr (data, cursor) \<Rightarrow>
          (case stream_load (allocs \<noteq> [] \<and> hd allocs) (sl_dc s) data of
             (False, dc) \<Rightarrow> (s\<lparr>sl_dc := dc\<rparr> # slices, Inl Oversized)
           | (True, dc) \<Rightarrow>
               (case load_dc (tl allocs) input cursor slices of
                  (slices', r) \<Rightarrow> (s\<lparr>sl_dc := dc\<rparr> # slices', r))))"

fun load_ac :: "bool \<Rightarrow> bool list \<Rightarrow> u8 list \<Rightarrow> nat \<Rightarrow> vslice list \<Rightarrow> vslice list \<times> (vmx_status + nat)" where
  "load_ac has_ac allocs input cursor [] = ([], Inr cursor)"
| "load_ac has_ac allocs input cursor (s # slices) =
     (case (if has_ac then take_stream input cursor else Inr ([], cursor)) of
        Inl e \<Rightarrow> (s # slices, Inl e)
      | Inr (data, cursor) \<Rightarrow>
          (case stream_load (allocs \<noteq> [] \<and> hd allocs) (sl_ac s) data of
             (False, ac) \<Rightarrow> (s\<lparr>sl_ac := ac\<rparr> # slices, Inl Oversized)
           | (True, ac) \<Rightarrow>
               (case load_ac has_ac (tl allocs) input cursor slices of
                  (slices', r) \<Rightarrow> (s\<lparr>sl_ac := ac\<rparr> # slices', r))))"

text \<open>The envelope: the offset of the progressive header and the DC shift, or the refusal.\<close>

definition envelope :: "decoder \<Rightarrow> u8 list \<Rightarrow> vmx_status + (nat \<times> int)" where
  "envelope d input =
     (if input = [] then Inl VmxEmpty
      else if MAX_COMPRESSED_BYTES < length input then Inl Oversized
      else if length input < 5 then Inl Truncated
      else if input ! 0 = FORMAT_INTERLACED then Inl UnsupportedFormat
      else if input ! 0 \<noteq> FORMAT_PROGRESSIVE \<and> input ! 0 \<noteq> FORMAT_EXTENDED then Inl InvalidFormat
      else
        (let (offset, dc_shift) = (if input ! 0 = FORMAT_EXTENDED then (2, int (unat (input ! 1))) else (0, 0))
         in if length input \<le> offset + 2 then Inl Truncated
            else if input ! offset \<noteq> FORMAT_PROGRESSIVE then Inl UnsupportedFormat
            else if unat (input ! (offset + 2)) \<noteq> length (de_slices d) then Inl SliceCount
            else Inr (offset, dc_shift)))"

definition load :: "bool list \<Rightarrow> bool list \<Rightarrow> decoder \<Rightarrow> u8 list \<Rightarrow> decoder \<times> (vmx_status + unit)" where
  "load dc_allocs ac_allocs d input =
     (let d = d\<lparr>de_loaded := False\<rparr>
      in case envelope d input of
           Inl e \<Rightarrow> (d, Inl e)
         | Inr (offset, dc_shift) \<Rightarrow>
             (let quality = int (unat (input ! (offset + 1)));
                  (slices, r) = load_dc dc_allocs input (3 + offset) (de_slices d);
                  d = d\<lparr>de_slices := slices\<rparr>
              in case r of
                   Inl e \<Rightarrow> (d, Inl e)
                 | Inr cursor \<Rightarrow>
                     (let has_ac = cursor < length input;
                          (slices, r) = load_ac has_ac ac_allocs input cursor (de_slices d);
                          d = d\<lparr>de_slices := slices\<rparr>
                      in case r of
                           Inl e \<Rightarrow> (d, Inl e)
                         | Inr _ \<Rightarrow>
                             (d\<lparr>de_matrix := decode_matrix (quality_index quality), de_dc_shift := dc_shift,
                                de_loaded := True\<rparr>, Inr ()))))"


section \<open>Outputs and bands\<close>

text \<open>\<open>Out::row\<close>: a view of \<open>len\<close> bytes at \<open>offset\<close> when they are all inside the buffer, and the store
  of what was written through it.\<close>

definition out_row :: "u8 list option \<Rightarrow> nat \<Rightarrow> nat \<Rightarrow> u8 list option" where
  "out_row view offset len =
     (case view of
        None \<Rightarrow> None
      | Some b \<Rightarrow> if length b < offset \<or> length b - offset < len then None else Some (slice b offset (offset + len)))"

definition out_store :: "u8 list option \<Rightarrow> nat \<Rightarrow> u8 list \<Rightarrow> u8 list option" where
  "out_store view offset bytes = map_option (\<lambda>b. take offset b @ bytes @ drop (offset + length bytes) b) view"

definition tail_from :: "'a list \<Rightarrow> nat \<Rightarrow> 'a list option" where
  "tail_from xs n = (if n \<le> length xs then Some (drop n xs) else None)"

record band =
  bd_first_row :: nat
  bd_rows :: nat
  bd_width :: nat

text \<open>\<open>convert_band\<close>: the rows of a slice into the packed output.\<close>

fun convert_rows :: "u8 list \<Rightarrow> u8 list \<Rightarrow> u8 list \<Rightarrow> nat \<Rightarrow> nat \<Rightarrow> job \<Rightarrow> band \<Rightarrow> nat list \<Rightarrow> u8 list option
    \<Rightarrow> (bool \<times> u8 list option) option" where
  "convert_rows luma blue red ls cs jb bd [] output = Some (True, output)"
| "convert_rows luma blue red ls cs jb bd (row # rest) output =
     (let row_bytes = bd_width bd * (if jb_pixels jb = Uyvy then 2 else 4);
          offset = (bd_first_row bd + row) * jb_stride jb
      in case out_row output offset row_bytes of
           None \<Rightarrow> Some (False, output)
         | Some out \<Rightarrow>
             do { l \<leftarrow> tail_from luma (row * ls);
                  b \<leftarrow> tail_from blue (row * cs);
                  r \<leftarrow> tail_from red (row * cs);
                  bytes \<leftarrow> (if jb_pixels jb = Uyvy then uyvy_row l b r (bd_width bd) out
                           else bgra_row l b r (bd_width bd) out (jb_coefficients jb));
                  convert_rows luma blue red ls cs jb bd rest (out_store output offset bytes) })"

definition convert_band :: "u8 list \<Rightarrow> u8 list \<Rightarrow> u8 list \<Rightarrow> nat \<Rightarrow> nat \<Rightarrow> job \<Rightarrow> band \<Rightarrow> u8 list option
    \<Rightarrow> (bool \<times> u8 list option) option" where
  "convert_band luma blue red ls cs jb bd output = convert_rows luma blue red ls cs jb bd [0..<bd_rows bd] output"

text \<open>\<open>copy_band\<close>: the rows of a slice of one plane, in one copy when both sides are tightly packed.\<close>

fun copy_rows :: "u8 list \<Rightarrow> nat \<Rightarrow> nat \<Rightarrow> band \<Rightarrow> nat list \<Rightarrow> u8 list option \<Rightarrow> (bool \<times> u8 list option) option" where
  "copy_rows source source_stride stride bd [] plane = Some (True, plane)"
| "copy_rows source source_stride stride bd (row # rest) plane =
     (case out_row plane ((bd_first_row bd + row) * stride) (bd_width bd) of
        None \<Rightarrow> Some (False, plane)
      | Some out \<Rightarrow>
          if row * source_stride + bd_width bd \<le> length source then
            copy_rows source source_stride stride bd rest
              (out_store plane ((bd_first_row bd + row) * stride)
                 (slice source (row * source_stride) (row * source_stride + bd_width bd)))
          else None)"

definition copy_band :: "u8 list \<Rightarrow> nat \<Rightarrow> u8 list option \<Rightarrow> nat \<Rightarrow> band \<Rightarrow> (bool \<times> u8 list option) option" where
  "copy_band source source_stride plane stride bd =
     (if source_stride = bd_width bd \<and> stride = bd_width bd then
        (let len = bd_rows bd * bd_width bd
         in case out_row plane (bd_first_row bd * stride) len of
              None \<Rightarrow> Some (False, plane)
            | Some out \<Rightarrow>
                if len \<le> length source
                then Some (True, out_store plane (bd_first_row bd * stride) (take len source)) else None)
      else copy_rows source source_stride stride bd [0..<bd_rows bd] plane)"

section \<open>Placement\<close>

text \<open>One gathered row: four bytes of the source row for every column.\<close>

fun gather :: "u8 list \<Rightarrow> nat list \<Rightarrow> u8 list option" where
  "gather source_row [] = Some []"
| "gather source_row (c # cs) =
     (if c * 4 + 4 \<le> length source_row
      then map_option (\<lambda>rest. slice source_row (c * 4) (c * 4 + 4) @ rest) (gather source_row cs)
      else None)"

text \<open>A source row converted into the worker's row buffer and gathered into its placed row.\<close>

definition place_source :: "nat \<Rightarrow> nat \<Rightarrow> nat \<Rightarrow> nat \<Rightarrow> job \<Rightarrow> vmx_placement \<Rightarrow> nat \<Rightarrow> scratch \<Rightarrow> scratch option" where
  "place_source width ls cs first_row jb p source sx =
     (if source < first_row then None
      else
        (let row = source - first_row
         in do { l \<leftarrow> tail_from (sx_luma sx) (row * ls);
                 b \<leftarrow> tail_from (sx_blue sx) (row * cs);
                 r \<leftarrow> tail_from (sx_red sx) (row * cs);
                 source_row \<leftarrow> bgra_row l b r width (sx_source_row sx) (jb_coefficients jb);
                 row_bytes \<leftarrow> Some (length (vp_columns p) * 4);
                 placed \<leftarrow> (if row_bytes \<le> length (sx_placed_row sx) then gather source_row (vp_columns p) else None);
                 Some (sx\<lparr>sx_source_row := source_row, sx_placed_row := placed @ drop row_bytes (sx_placed_row sx)\<rparr>) }))"

fun place_rows :: "nat \<Rightarrow> nat \<Rightarrow> nat \<Rightarrow> nat \<Rightarrow> job \<Rightarrow> vmx_placement \<Rightarrow> (nat \<times> nat) list \<Rightarrow> nat \<Rightarrow> scratch \<Rightarrow> u8 list option
    \<Rightarrow> (bool \<times> scratch \<times> u8 list option) option" where
  "place_rows width ls cs first_row jb p [] converted sx output = Some (True, sx, output)"
| "place_rows width ls cs first_row jb p ((y, source) # rest) converted sx output =
     (let row_bytes = length (vp_columns p) * 4
      in do { sx \<leftarrow> (if source \<noteq> converted then place_source width ls cs first_row jb p source sx else Some sx);
              (let offset = (vp_y p + y) * jb_stride jb + vp_x p * 4
               in case out_row output offset row_bytes of
                    None \<Rightarrow> Some (False, sx, output)
                  | Some out \<Rightarrow>
                      if row_bytes \<le> length (sx_placed_row sx) then
                        place_rows width ls cs first_row jb p rest source sx
                          (out_store output offset (take row_bytes (sx_placed_row sx)))
                      else None) })"

text \<open>The checks of \<open>prepare_placement\<close> on the tables and the output, in the order of the source.\<close>

definition check_placement :: "decoder \<Rightarrow> vmx_placement \<Rightarrow> nat \<Rightarrow> nat \<Rightarrow> vmx_status + unit" where
  "check_placement d p output_len stride =
     (let width = length (vp_columns p); height = length (vp_rows p)
      in if width = 0 \<or> height = 0 \<or> MAX_PLACED_WIDTH < width \<or> MAX_PLACED_HEIGHT < height then Inl InvalidDimensions
         else if list_ex (\<lambda>c. de_width d \<le> c) (vp_columns p) then Inl InvalidDimensions
         else if list_ex (\<lambda>r. de_height d \<le> r) (vp_rows p) \<or> \<not> sorted (vp_rows p) then Inl InvalidDimensions
         else
           (case Option.bind (checked_add USIZE_MAX (vp_x p) width) (\<lambda>r. checked_mul USIZE_MAX r 4) of
              None \<Rightarrow> Inl OutputSize
            | Some right \<Rightarrow>
                (case Option.bind (Option.bind (checked_add USIZE_MAX (vp_y p) (height - 1)) (\<lambda>l. checked_mul USIZE_MAX l stride))
                        (\<lambda>e. checked_add USIZE_MAX e right) of
                   None \<Rightarrow> Inl OutputSize
                 | Some e \<Rightarrow> if stride < right \<or> output_len < e then Inl OutputSize else Inr ())))"

text \<open>The loop that assigns every slice the destination rows whose source is in it: \<open>y\<close> moves on while
  the source row is above the slice's end.\<close>

fun advance_rows :: "nat \<Rightarrow> nat \<Rightarrow> nat list \<Rightarrow> nat" where
  "advance_rows limit y [] = y"
| "advance_rows limit y (r # rest) = (if r < limit then advance_rows limit (y + 1) rest else y)"

fun assign_rows :: "nat list \<Rightarrow> nat \<Rightarrow> nat \<Rightarrow> vslice list \<Rightarrow> vslice list" where
  "assign_rows rows i first [] = []"
| "assign_rows rows i first (s # slices) =
     (let y = advance_rows ((i + 1) * SLICE_HEIGHT) first (drop first rows)
      in s\<lparr>sl_placed := (first, y)\<rparr> # assign_rows rows (i + 1) y slices)"

text \<open>Growing the workers' row buffers: \<open>None\<close> when one of them cannot.\<close>

fun grow_rows :: "bool list \<Rightarrow> nat \<Rightarrow> scratch list \<Rightarrow> bool \<times> scratch list" where
  "grow_rows allocs row_bytes [] = (True, [])"
| "grow_rows allocs row_bytes (s # rest) =
     (if length (sx_placed_row s) < row_bytes \<and> \<not> (allocs \<noteq> [] \<and> hd allocs) then (False, s # rest)
      else
        (case grow_rows (tl allocs) row_bytes rest of
           (done_all, rest') \<Rightarrow>
             (done_all, s\<lparr>sx_placed_row := take row_bytes (sx_placed_row s)
                          @ replicate (row_bytes - length (sx_placed_row s)) 0\<rparr> # rest')))"

definition prepare_placement :: "bool list \<Rightarrow> decoder \<Rightarrow> vmx_placement \<Rightarrow> nat \<Rightarrow> nat \<Rightarrow> decoder \<times> (vmx_status + unit)" where
  "prepare_placement allocs d p output_len stride =
     (case check_placement d p output_len stride of
        Inl e \<Rightarrow> (d, Inl e)
      | Inr _ \<Rightarrow>
          (let row_bytes = length (vp_columns p) * 4;
               (grown, scratch) = (if de_placed_capacity d < row_bytes then grow_rows allocs row_bytes (de_scratch d)
                                   else (True, de_scratch d));
               d = d\<lparr>de_scratch := scratch\<rparr>
           in if \<not> grown then (d, Inl WorkerFailure)
              else (d\<lparr>de_placed_capacity := max (de_placed_capacity d) row_bytes,
                      de_slices := assign_rows (vp_rows p) 0 0 (de_slices d)\<rparr>, Inr ())))"

section \<open>Slices\<close>

text \<open>The three planes of a slice into the scratch.\<close>

definition decode_planes :: "decoder \<Rightarrow> job \<Rightarrow> vslice \<Rightarrow> scratch \<Rightarrow> (bool \<times> scratch) option" where
  "decode_planes d jb s sx =
     do { (accepted, dc, ac, luma) \<leftarrow> decode_plane (stream_reader (sl_dc s)) (stream_reader (sl_ac s)) (de_luma_stride d) 128
            (jb_matrix jb) (jb_dc_shift jb) (sx_luma sx);
          sx \<leftarrow> Some (sx\<lparr>sx_luma := luma\<rparr>);
          if \<not> accepted then Some (False, sx)
          else
            do { (accepted, dc, ac, blue) \<leftarrow> decode_plane dc ac (de_chroma_stride d) 0 (jb_matrix jb) (jb_dc_shift jb) (sx_blue sx);
                 sx \<leftarrow> Some (sx\<lparr>sx_blue := blue\<rparr>);
                 if \<not> accepted then Some (False, sx)
                 else
                   do { (accepted, dc, ac, red) \<leftarrow> decode_plane dc ac (de_chroma_stride d) 0 (jb_matrix jb) (jb_dc_shift jb) (sx_red sx);
                        Some (accepted, sx\<lparr>sx_red := red\<rparr>) } } }"

text \<open>\<open>decode_slice\<close>. The outputs are the packed view and the three planes.\<close>

definition decode_slice :: "decoder \<Rightarrow> job \<Rightarrow> nat \<Rightarrow> scratch \<Rightarrow> u8 list option \<times> u8 list option \<times> u8 list option \<times> u8 list option
    \<Rightarrow> (bool \<times> scratch \<times> u8 list option \<times> u8 list option \<times> u8 list option \<times> u8 list option) option" where
  "decode_slice d jb index sx outs =
     (case outs of
        (output, p0, p1, p2) \<Rightarrow>
          (let s = de_slices d ! index; ls = de_luma_stride d; cs = de_chroma_stride d; width = de_width d;
               first_row = index * SLICE_HEIGHT
           in do { (accepted, sx) \<leftarrow> decode_planes d jb s sx;
                   if \<not> accepted then Some (False, sx, outs)
                   else
                     (case jb_placement jb of
                        Some p \<Rightarrow>
                          do { (r, sx, output) \<leftarrow> place_rows width ls cs first_row jb p
                                 (drop (fst (sl_placed s)) (take (snd (sl_placed s)) (List.enumerate 0 (vp_rows p))))
                                 USIZE_MAX sx output;
                               Some (r, sx, output, p0, p1, p2) }
                      | None \<Rightarrow>
                          if jb_pixels jb = Yuv422p then
                            do { (r, p0) \<leftarrow> copy_band (sx_luma sx) ls p0 (jb_plane_strides jb ! 0)
                                   \<lparr>bd_first_row = first_row, bd_rows = sl_rows s, bd_width = width\<rparr>;
                                 if \<not> r then Some (False, sx, output, p0, p1, p2)
                                 else
                                   do { (r, p1) \<leftarrow> copy_band (sx_blue sx) cs p1 (jb_plane_strides jb ! 1)
                                          \<lparr>bd_first_row = first_row, bd_rows = sl_rows s, bd_width = width div 2\<rparr>;
                                        if \<not> r then Some (False, sx, output, p0, p1, p2)
                                        else
                                          do { (r, p2) \<leftarrow> copy_band (sx_red sx) cs p2 (jb_plane_strides jb ! 2)
                                                 \<lparr>bd_first_row = first_row, bd_rows = sl_rows s, bd_width = width div 2\<rparr>;
                                               Some (r, sx, output, p0, p1, p2) } } }
                          else
                            do { (r, output) \<leftarrow> convert_band (sx_luma sx) (sx_blue sx) (sx_red sx) ls cs jb
                                   \<lparr>bd_first_row = first_row, bd_rows = sl_rows s, bd_width = width\<rparr> output;
                                 Some (r, sx, output, p0, p1, p2) }) }))"

section \<open>Requests\<close>

definition check_packed :: "decoder \<Rightarrow> nat \<Rightarrow> nat \<Rightarrow> nat \<Rightarrow> vmx_status + unit" where
  "check_packed d len stride minimum =
     (if \<not> de_loaded d then Inl VmxEmpty
      else
        (case checked_mul USIZE_MAX stride (de_height d) of
           None \<Rightarrow> Inl OutputSize
         | Some needed \<Rightarrow> if stride < minimum \<or> len < needed then Inl OutputSize else Inr ()))"

definition make_job :: "decoder \<Rightarrow> pixels \<Rightarrow> nat \<Rightarrow> nat list \<Rightarrow> vmx_placement option \<Rightarrow> job" where
  "make_job d px stride plane_strides p =
     \<lparr>jb_pixels = px, jb_matrix = de_matrix d, jb_dc_shift = de_dc_shift d, jb_coefficients = coefficients (de_color_space d),
      jb_plane_strides = plane_strides, jb_stride = stride, jb_placement = p\<rparr>"

text \<open>The checks of \<open>decode_yuv422p\<close> on its planes.\<close>

definition check_planes :: "decoder \<Rightarrow> (nat \<times> nat) list \<Rightarrow> vmx_status + unit" where
  "check_planes d planes =
     (if \<not> de_loaded d then Inl VmxEmpty
      else if list_all (\<lambda>((len, stride), w). case checked_mul USIZE_MAX stride (de_height d) of
                None \<Rightarrow> False | Some needed \<Rightarrow> w \<le> stride \<and> needed \<le> len)
              (zip planes [de_width d, de_width d div 2, de_width d div 2])
        then Inr () else Inl OutputSize)"


type_synonym outs = "u8 list option \<times> u8 list option \<times> u8 list option \<times> u8 list option"

text \<open>The entry points, up to the call of \<open>run\<close>: the job and the views it is run with, or the refusal.\<close>

definition decode_uyvy :: "decoder \<Rightarrow> u8 list \<Rightarrow> nat \<Rightarrow> vmx_status + (job \<times> outs)" where
  "decode_uyvy d output stride =
     (case check_packed d (length output) stride (de_width d * 2) of
        Inl e \<Rightarrow> Inl e
      | Inr _ \<Rightarrow> Inr (make_job d Uyvy stride [0, 0, 0] None, Some output, None, None, None))"

definition decode_bgrx :: "decoder \<Rightarrow> u8 list \<Rightarrow> nat \<Rightarrow> vmx_status + (job \<times> outs)" where
  "decode_bgrx d output stride =
     (case check_packed d (length output) stride (de_width d * 4) of
        Inl e \<Rightarrow> Inl e
      | Inr _ \<Rightarrow> Inr (make_job d Bgrx stride [0, 0, 0] None, Some output, None, None, None))"

definition decode_yuv422p :: "decoder \<Rightarrow> u8 list \<times> nat \<Rightarrow> u8 list \<times> nat \<Rightarrow> u8 list \<times> nat \<Rightarrow> vmx_status + (job \<times> outs)" where
  "decode_yuv422p d a b c =
     (case check_planes d [(length (fst a), snd a), (length (fst b), snd b), (length (fst c), snd c)] of
        Inl e \<Rightarrow> Inl e
      | Inr _ \<Rightarrow> Inr (make_job d Yuv422p 0 [snd a, snd b, snd c] None, None, Some (fst a), Some (fst b), Some (fst c)))"

definition decode_bgrx_placed :: "bool list \<Rightarrow> decoder \<Rightarrow> u8 list \<Rightarrow> nat \<Rightarrow> vmx_placement \<Rightarrow> decoder \<times> (vmx_status + (job \<times> outs))" where
  "decode_bgrx_placed allocs d output stride p =
     (if \<not> de_loaded d then (d, Inl VmxEmpty)
      else
        (case prepare_placement allocs d p (length output) stride of
           (d, Inl e) \<Rightarrow> (d, Inl e)
         | (d, Inr _) \<Rightarrow> (d, Inr (make_job d Bgrx stride [0, 0, 0] (Some p), Some output, None, None, None))))"

end
