(* ===== verification/Vmx_Pool.thy ===== *)
theory Vmx_Pool
  imports Prelude
begin

text \<open>
  The worker pool of \<^verbatim>\<open>crates/omt-vmx/src/lib.rs\<close> (\<open>run\<close>, \<open>worker_main\<close>, \<open>decode_claimed\<close>): a step relation
  on the shared state, one step for every access a thread makes to the counter, the failure flag or
  the locked pool state, and one for the decoding of a slice. Thread 0 is the caller, the others the
  workers. What a slice decode does is a parameter; the contract the pool needs of it is the locale
  \<open>slice_decoder\<close>, which \<open>Vmx_Frames\<close> interprets by the decoder's own slices. A wait on a condition
  variable is a step that is enabled when the awaited condition holds: both conditions are changed
  only under the lock the waiter holds, and each change is followed by a notification.
\<close>

section \<open>The pool\<close>

datatype phase = Idle | Claiming | Decoding nat | Failing | Finished | Exited

record ('s, 'o) pool =
  po_generation :: nat
  po_running :: nat
  po_shutdown :: bool
  po_job :: bool
  po_next :: nat
  po_failed :: bool
  po_out :: 'o
  po_scratch :: "'s list"
  po_phase :: "phase list"
  po_seen :: "nat list"

definition pool_new :: "nat \<Rightarrow> 's \<Rightarrow> 'o \<Rightarrow> ('s, 'o) pool" where
  "pool_new threads s out =
     \<lparr>po_generation = 0, po_running = 0, po_shutdown = False, po_job = False, po_next = 0, po_failed = False,
      po_out = out, po_scratch = replicate threads s, po_phase = replicate threads Idle, po_seen = replicate threads 0\<rparr>"

text \<open>\<open>run\<close> publishes a job: the counter and the flag are reset, and the workers, if any, are told.\<close>

definition publish :: "('s, 'o) pool \<Rightarrow> ('s, 'o) pool" where
  "publish p =
     (let p = p\<lparr>po_next := 0, po_failed := False, po_phase := (po_phase p)[0 := Claiming]\<rparr>
      in if length (po_phase p) \<le> 1 then p
         else p\<lparr>po_job := True, po_running := length (po_phase p) - 1, po_generation := po_generation p + 1\<rparr>)"

text \<open>\<open>run\<close> returns once no worker is running; the job is taken back.\<close>

definition retire :: "('s, 'o) pool \<Rightarrow> ('s, 'o) pool" where
  "retire p = p\<lparr>po_job := False, po_phase := (po_phase p)[0 := Idle]\<rparr>"

inductive pool_step :: "(nat \<Rightarrow> 's \<Rightarrow> 'o \<Rightarrow> (bool \<times> 's \<times> 'o) option) \<Rightarrow> nat \<Rightarrow> ('s, 'o) pool \<Rightarrow> ('s, 'o) pool \<Rightarrow> bool"
  for dec count where
  claim: "t < length (po_phase p) \<Longrightarrow> po_phase p ! t = Claiming \<Longrightarrow>
    pool_step dec count p
      (p\<lparr>po_next := po_next p + 1, po_phase := (po_phase p)[t := if count \<le> po_next p then Finished else Decoding (po_next p)]\<rparr>)"
| decoded: "t < length (po_phase p) \<Longrightarrow> po_phase p ! t = Decoding i \<Longrightarrow> dec i (po_scratch p ! t) (po_out p) = Some (accepted, s, out) \<Longrightarrow>
    pool_step dec count p
      (p\<lparr>po_out := out, po_scratch := (po_scratch p)[t := s], po_failed := po_failed p \<or> \<not> accepted,
         po_phase := (po_phase p)[t := if accepted then Claiming else Failing]\<rparr>)"
| stop: "t < length (po_phase p) \<Longrightarrow> po_phase p ! t = Failing \<Longrightarrow>
    pool_step dec count p (p\<lparr>po_next := count, po_phase := (po_phase p)[t := Finished]\<rparr>)"
| wake: "0 < t \<Longrightarrow> t < length (po_phase p) \<Longrightarrow> po_phase p ! t = Idle \<Longrightarrow> \<not> po_shutdown p \<Longrightarrow> po_generation p \<noteq> po_seen p ! t \<Longrightarrow>
    pool_step dec count p
      (p\<lparr>po_seen := (po_seen p)[t := po_generation p], po_phase := (po_phase p)[t := if po_job p then Claiming else Finished]\<rparr>)"
| report: "0 < t \<Longrightarrow> t < length (po_phase p) \<Longrightarrow> po_phase p ! t = Finished \<Longrightarrow>
    pool_step dec count p (p\<lparr>po_running := po_running p - 1, po_phase := (po_phase p)[t := Idle]\<rparr>)"
| return: "po_phase p \<noteq> [] \<Longrightarrow> po_phase p ! 0 = Finished \<Longrightarrow> po_running p = 0 \<Longrightarrow>
    pool_step dec count p (retire p)"
| exit: "0 < t \<Longrightarrow> t < length (po_phase p) \<Longrightarrow> po_phase p ! t = Idle \<Longrightarrow> po_shutdown p \<Longrightarrow>
    pool_step dec count p (p\<lparr>po_phase := (po_phase p)[t := Exited]\<rparr>)"

text \<open>Dropping the decoder asks the workers to exit.\<close>

definition pool_drop :: "('s, 'o) pool \<Rightarrow> ('s, 'o) pool" where
  "pool_drop p = p\<lparr>po_shutdown := True\<rparr>"

inductive_cases pool_stepE: "pool_step dec count p q"

text \<open>Between frames: the caller holds no borrow, no worker is awake.\<close>

definition pool_idle :: "('s, 'o) pool \<Rightarrow> bool" where
  "pool_idle p \<longleftrightarrow> po_phase p \<noteq> [] \<and> length (po_scratch p) = length (po_phase p) \<and> length (po_seen p) = length (po_phase p)
     \<and> (\<forall>t < length (po_phase p). po_phase p ! t = Idle) \<and> (\<forall>t. 0 < t \<longrightarrow> t < length (po_phase p) \<longrightarrow> po_seen p ! t = po_generation p)
     \<and> po_running p = 0 \<and> \<not> po_job p \<and> \<not> po_shutdown p"

lemma pool_new_idle: "0 < n \<Longrightarrow> pool_idle (pool_new n s out)"
  by (auto simp: pool_idle_def pool_new_def)

text \<open>The states a frame can reach once it is published, until the caller returns.\<close>

inductive frame_reach :: "(nat \<Rightarrow> 's \<Rightarrow> 'o \<Rightarrow> (bool \<times> 's \<times> 'o) option) \<Rightarrow> nat \<Rightarrow> ('s, 'o) pool \<Rightarrow> ('s, 'o) pool \<Rightarrow> bool"
  for dec count p0 where
  published: "frame_reach dec count p0 (publish p0)"
| step: "frame_reach dec count p0 p \<Longrightarrow> po_phase p ! 0 \<noteq> Idle \<Longrightarrow> pool_step dec count p q \<Longrightarrow> frame_reach dec count p0 q"

text \<open>The work left: two for every slice nobody has claimed, and the steps each thread still has.\<close>

fun phase_work :: "phase \<Rightarrow> bool \<Rightarrow> nat" where
  "phase_work Idle awake = (if awake then 0 else 3)"
| "phase_work Claiming awake = 2"
| "phase_work (Decoding i) awake = 3"
| "phase_work Failing awake = 2"
| "phase_work Finished awake = 1"
| "phase_work Exited awake = 0"

definition pool_work :: "nat \<Rightarrow> ('s, 'o) pool \<Rightarrow> nat" where
  "pool_work count p = 2 * (count - po_next p)
     + (\<Sum>t<length (po_phase p). phase_work (po_phase p ! t) (t = 0 \<or> po_seen p ! t = po_generation p))"

text \<open>What the threads together must amount to: the slices one after the other, up to the first failure.\<close>

fun decode_all :: "(nat \<Rightarrow> 's \<Rightarrow> 'o \<Rightarrow> (bool \<times> 's \<times> 'o) option) \<Rightarrow> nat list \<Rightarrow> 's \<Rightarrow> 'o \<Rightarrow> (bool \<times> 's \<times> 'o) option" where
  "decode_all dec [] s out = Some (True, s, out)"
| "decode_all dec (i # is) s out =
     (case dec i s out of
        None \<Rightarrow> None
      | Some (accepted, s, out) \<Rightarrow> if accepted then decode_all dec is s out else Some (False, s, out))"

section \<open>The contract of a slice decode\<close>

locale slice_decoder =
  fixes wf :: "'j \<Rightarrow> bool"
    and count :: "'j \<Rightarrow> nat"
    and dec :: "'j \<Rightarrow> nat \<Rightarrow> 's \<Rightarrow> 'o \<Rightarrow> (bool \<times> 's \<times> 'o) option"
    and scratch_ok :: "'j \<Rightarrow> 's \<Rightarrow> bool"
    and out_ok :: "'j \<Rightarrow> 'o \<Rightarrow> bool"
    and verdict :: "'j \<Rightarrow> nat \<Rightarrow> bool"
    and cells :: "'j \<Rightarrow> nat \<Rightarrow> 'c set"
    and content :: "'j \<Rightarrow> nat \<Rightarrow> 'c \<Rightarrow> 'v"
    and look :: "'o \<Rightarrow> 'c \<Rightarrow> 'v"
  assumes slice_total: "\<lbrakk>wf j; i < count j; scratch_ok j s; out_ok j out\<rbrakk> \<Longrightarrow>
      \<exists>s' out'. dec j i s out = Some (verdict j i, s', out') \<and> scratch_ok j s' \<and> out_ok j out'
        \<and> (\<forall>c. c \<notin> cells j i \<longrightarrow> look out' c = look out c)
        \<and> (verdict j i \<longrightarrow> (\<forall>c\<in>cells j i. look out' c = content j i c))"
    and slice_disjoint: "\<lbrakk>wf j; i < count j; k < count j; i \<noteq> k\<rbrakk> \<Longrightarrow> cells j i \<inter> cells j k = {}"
    and out_ext: "\<lbrakk>out_ok j out; out_ok j out'; \<And>c. look out c = look out' c\<rbrakk> \<Longrightarrow> out = out'"
begin

definition settled :: "'j \<Rightarrow> ('s, 'o) pool \<Rightarrow> nat \<Rightarrow> bool" where
  "settled j p i \<longleftrightarrow> verdict j i \<and> (\<forall>c\<in>cells j i. look (po_out p) c = content j i c)"

definition busy :: "('s, 'o) pool \<Rightarrow> nat \<Rightarrow> bool" where
  "busy p t \<longleftrightarrow> po_phase p ! t \<noteq> Idle \<or> po_seen p ! t \<noteq> po_generation p"

text \<open>The invariant of a frame in progress: the threads, the count of the running ones, what they have
  claimed, and what they have written.\<close>

definition threads_inv :: "('s, 'o) pool \<Rightarrow> bool" where
  "threads_inv p \<longleftrightarrow>
     po_phase p \<noteq> [] \<and> length (po_scratch p) = length (po_phase p) \<and> length (po_seen p) = length (po_phase p)
     \<and> \<not> po_shutdown p \<and> po_phase p ! 0 \<noteq> Idle \<and> (\<forall>t < length (po_phase p). po_phase p ! t \<noteq> Exited)
     \<and> (1 < length (po_phase p) \<longrightarrow> po_job p)
     \<and> (\<forall>t. 0 < t \<longrightarrow> t < length (po_phase p) \<longrightarrow> po_phase p ! t \<noteq> Idle \<longrightarrow> po_seen p ! t = po_generation p)"

definition running_inv :: "('s, 'o) pool \<Rightarrow> bool" where
  "running_inv p \<longleftrightarrow> po_running p = card {t. 0 < t \<and> t < length (po_phase p) \<and> busy p t}"

definition claims_inv :: "'j \<Rightarrow> ('s, 'o) pool \<Rightarrow> bool" where
  "claims_inv j p \<longleftrightarrow>
     (\<forall>t < length (po_phase p). \<forall>i. po_phase p ! t = Decoding i \<longrightarrow> i < po_next p \<and> i < count j)
     \<and> (\<forall>t < length (po_phase p). \<forall>u < length (po_phase p). \<forall>i. po_phase p ! t = Decoding i \<longrightarrow> po_phase p ! u = Decoding i \<longrightarrow> t = u)
     \<and> (\<forall>t < length (po_phase p). po_phase p ! t = Finished \<longrightarrow> count j \<le> po_next p)
     \<and> (\<forall>t < length (po_phase p). po_phase p ! t = Failing \<longrightarrow> po_failed p)"

definition out_inv :: "'j \<Rightarrow> 'o \<Rightarrow> ('s, 'o) pool \<Rightarrow> bool" where
  "out_inv j out0 p \<longleftrightarrow>
     (\<forall>t < length (po_scratch p). scratch_ok j (po_scratch p ! t)) \<and> out_ok j (po_out p)
     \<and> (po_failed p \<longrightarrow> (\<exists>i < count j. \<not> verdict j i))
     \<and> (\<not> po_failed p \<longrightarrow> (\<forall>i. i < po_next p \<longrightarrow> i < count j \<longrightarrow>
          (\<exists>t < length (po_phase p). po_phase p ! t = Decoding i) \<or> settled j p i))
     \<and> (\<forall>c. (\<forall>i < count j. c \<notin> cells j i) \<longrightarrow> look (po_out p) c = look out0 c)"

lemma threads_inv_update:
  assumes "threads_inv p" "t < length (po_phase p)" "x \<noteq> Exited" "t = 0 \<longrightarrow> x \<noteq> Idle"
    "po_phase q = (po_phase p)[t := x]" "length (po_scratch q) = length (po_scratch p)" "po_shutdown q = po_shutdown p"
    "po_job q = po_job p" "po_generation q = po_generation p"
    "po_seen q = po_seen p \<and> (po_phase p ! t \<noteq> Idle \<or> t = 0) \<or> po_seen q = (po_seen p)[t := po_generation p]"
  shows "threads_inv q"
proof -
  have "po_phase q ! 0 \<noteq> Idle" using assms by (cases "t = 0") (auto simp: threads_inv_def)
  moreover have "\<forall>u < length (po_phase q). po_phase q ! u \<noteq> Exited"
    using assms(1,2,3,5) by (simp add: threads_inv_def nth_list_update)
  moreover have "po_seen q ! u = po_generation q" if "0 < u" "u < length (po_phase q)" "po_phase q ! u \<noteq> Idle" for u
  proof (cases "u = t")
    case True
    then show ?thesis using assms that by (auto simp: threads_inv_def)
  next
    case False
    then have "po_seen p ! u = po_generation p" using assms(1,5) that by (simp add: threads_inv_def)
    then show ?thesis using assms(9,10) False by auto
  qed
  moreover have "length (po_seen q) = length (po_seen p)" using assms(10) by auto
  ultimately show ?thesis using assms(1,5,6,7,8) unfolding threads_inv_def by simp
qed

lemma threads_inv_step:
  assumes "pool_step (dec j) n p q" "threads_inv p" "po_phase q ! 0 \<noteq> Idle"
  shows "threads_inv q"
  using assms(1)
proof (cases rule: pool_step.cases)
  case (claim t)
  then show ?thesis
    by (intro threads_inv_update [OF assms(2), of t "if n \<le> po_next p then Finished else Decoding (po_next p)"]) simp_all
next
  case (decoded t i accepted s out)
  then show ?thesis by (intro threads_inv_update [OF assms(2), of t "if accepted then Claiming else Failing"]) simp_all
next
  case (stop t)
  then show ?thesis by (intro threads_inv_update [OF assms(2), of t Finished]) simp_all
next
  case (wake t)
  then show ?thesis by (intro threads_inv_update [OF assms(2), of t "if po_job p then Claiming else Finished"]) simp_all
next
  case (report t)
  then show ?thesis by (intro threads_inv_update [OF assms(2), of t Idle]) simp_all
next
  case return
  then show ?thesis using assms(3) by (simp add: retire_def)
next
  case (exit t)
  then show ?thesis using assms(2) by (simp add: threads_inv_def)
qed

lemma busy_update:
  assumes "running_inv p" "t < length (po_phase p)" "po_phase p ! t \<noteq> Idle" "x \<noteq> Idle"
    "po_phase q = (po_phase p)[t := x]" "po_seen q = po_seen p" "po_generation q = po_generation p" "po_running q = po_running p"
  shows "running_inv q"
proof -
  have "busy q u = busy p u" if "u < length (po_phase p)" for u
    using assms that by (auto simp: busy_def nth_list_update)
  then have "{u. 0 < u \<and> u < length (po_phase p) \<and> busy q u} = {u. 0 < u \<and> u < length (po_phase p) \<and> busy p u}" by blast
  then show ?thesis using assms by (simp add: running_inv_def)
qed

lemma running_inv_wake:
  assumes "running_inv p" "threads_inv p" "t < length (po_phase p)" "po_phase p ! t = Idle" "po_generation p \<noteq> po_seen p ! t"
    "x \<noteq> Idle" "po_phase q = (po_phase p)[t := x]" "po_seen q = (po_seen p)[t := po_generation p]"
    "po_generation q = po_generation p" "po_running q = po_running p"
  shows "running_inv q"
proof -
  have "busy q u = busy p u" if "u < length (po_phase p)" for u
    using assms(3-9) by (cases "u = t") (simp_all add: busy_def)
  then have "{u. 0 < u \<and> u < length (po_phase p) \<and> busy q u} = {u. 0 < u \<and> u < length (po_phase p) \<and> busy p u}" by blast
  then show ?thesis using assms(1,7,10) by (simp add: running_inv_def)
qed

lemma running_inv_report:
  assumes "running_inv p" "threads_inv p" "0 < t" "t < length (po_phase p)" "po_phase p ! t = Finished"
    "po_phase q = (po_phase p)[t := Idle]" "po_seen q = po_seen p" "po_generation q = po_generation p" "po_running q = po_running p - 1"
  shows "running_inv q"
proof -
  let ?B = "{u. 0 < u \<and> u < length (po_phase p) \<and> busy p u}"
  have "po_seen p ! t = po_generation p" using assms(2-5) unfolding threads_inv_def by (metis phase.distinct(7))
  then have "busy q u = (busy p u \<and> u \<noteq> t)" if "u < length (po_phase p)" for u
    using assms(4-8) by (cases "u = t") (simp_all add: busy_def)
  then have "{u. 0 < u \<and> u < length (po_phase p) \<and> busy q u} = ?B - {t}" by blast
  moreover have "t \<in> ?B" using assms(3-5) by (simp add: busy_def)
  ultimately show ?thesis using assms(1,6,9) by (simp add: running_inv_def)
qed

lemma running_inv_step:
  assumes "pool_step (dec j) n p q" "threads_inv p" "running_inv p" "po_phase q ! 0 \<noteq> Idle"
  shows "running_inv q"
  using assms(1)
proof (cases rule: pool_step.cases)
  case (claim t)
  then show ?thesis by (intro busy_update [OF assms(3), of t "if n \<le> po_next p then Finished else Decoding (po_next p)"]) simp_all
next
  case (decoded t i accepted s out)
  then show ?thesis by (intro busy_update [OF assms(3), of t "if accepted then Claiming else Failing"]) simp_all
next
  case (stop t)
  then show ?thesis by (intro busy_update [OF assms(3), of t Finished]) simp_all
next
  case (wake t)
  then show ?thesis by (intro running_inv_wake [OF assms(3,2), of t "if po_job p then Claiming else Finished"]) simp_all
next
  case (report t)
  then show ?thesis by (intro running_inv_report [OF assms(3,2), of t]) simp_all
next
  case return
  then show ?thesis using assms(4) by (simp add: retire_def)
next
  case (exit t)
  then show ?thesis using assms(2) by (simp add: threads_inv_def)
qed

text \<open>A thread's phase changes to one that claims nothing, or to a slice nobody has.\<close>

lemma claims_inv_update:
  assumes "claims_inv j p" "t < length (po_phase p)" "po_phase q = (po_phase p)[t := x]"
    "po_next p \<le> po_next q \<or> count j \<le> po_next q" "po_failed p \<longrightarrow> po_failed q"
    "\<forall>i. x = Decoding i \<longrightarrow> i = po_next p \<and> i < po_next q \<and> i < count j"
    "x = Finished \<longrightarrow> count j \<le> po_next q" "x = Failing \<longrightarrow> po_failed q"
  shows "claims_inv j q"
proof -
  have c: "i < po_next p \<and> i < count j" if "u < length (po_phase p)" "po_phase p ! u = Decoding i" for u i
    using assms(1) that by (simp add: claims_inv_def)
  have ph: "po_phase q ! u = (if u = t then x else po_phase p ! u)" if "u < length (po_phase p)" for u
    using assms(2,3) that by (simp add: nth_list_update)
  have l: "length (po_phase q) = length (po_phase p)" using assms(3) by simp
  have "i < po_next q \<and> i < count j" if "u < length (po_phase p)" "po_phase q ! u = Decoding i" for u i
    using c [of u i] ph [of u] assms(4,6) that by (auto split: if_splits)
  moreover have "u = v" if "u < length (po_phase p)" "v < length (po_phase p)" "po_phase q ! u = Decoding i" "po_phase q ! v = Decoding i" for u v i
  proof (rule ccontr)
    assume "u \<noteq> v"
    then consider "u = t" "v \<noteq> t" | "v = t" "u \<noteq> t" | "u \<noteq> t" "v \<noteq> t" by blast
    then show False
    proof cases
      case 1
      then show False using that ph c [of v i] assms(6) by simp
    next
      case 2
      then show False using that ph c [of u i] assms(6) by simp
    next
      case 3
      then show False using that ph assms(1) \<open>u \<noteq> v\<close> unfolding claims_inv_def by metis
    qed
  qed
  moreover have "count j \<le> po_next q" if "u < length (po_phase p)" "po_phase q ! u = Finished" for u
    using that ph assms(1,4,7) unfolding claims_inv_def by (metis le_trans)
  moreover have "po_failed q" if "u < length (po_phase p)" "po_phase q ! u = Failing" for u
    using that ph assms(1,5,8) unfolding claims_inv_def by metis
  ultimately show ?thesis unfolding claims_inv_def l by blast
qed

lemma claims_inv_step:
  assumes "pool_step (dec j) (count j) p q" "threads_inv p" "claims_inv j p"
  shows "claims_inv j q"
  using assms(1)
proof (cases rule: pool_step.cases)
  case (claim t)
  then show ?thesis
    by (intro claims_inv_update [OF assms(3), of t q "if count j \<le> po_next p then Finished else Decoding (po_next p)"]) simp_all
next
  case (decoded t i accepted s out)
  then show ?thesis
    by (intro claims_inv_update [OF assms(3), of t q "if accepted then Claiming else Failing"]) simp_all
next
  case (stop t)
  then show ?thesis by (intro claims_inv_update [OF assms(3), of t q Finished]) simp_all
next
  case (wake t)
  then have "po_job p" using assms(2) by (simp add: threads_inv_def)
  then show ?thesis using wake by (intro claims_inv_update [OF assms(3), of t q Claiming]) simp_all
next
  case (report t)
  then show ?thesis by (intro claims_inv_update [OF assms(3), of t q Idle]) simp_all
next
  case return
  then show ?thesis by (intro claims_inv_update [OF assms(3), of 0 q Idle]) (simp_all add: retire_def)
next
  case (exit t)
  then show ?thesis using assms(2) by (simp add: threads_inv_def)
qed

text \<open>A step that only moves a thread that is not decoding.\<close>

lemma out_inv_move:
  assumes "out_inv j out0 p" "t < length (po_phase p)" "\<forall>i. po_phase p ! t \<noteq> Decoding i"
    "po_phase q = (po_phase p)[t := x]" "po_scratch q = po_scratch p" "po_out q = po_out p" "po_failed q = po_failed p"
    "\<not> po_failed p \<longrightarrow> (\<forall>i. i < po_next q \<longrightarrow> i < count j \<longrightarrow> i < po_next p \<or> x = Decoding i)"
  shows "out_inv j out0 q"
proof -
  have "(\<exists>u < length (po_phase q). po_phase q ! u = Decoding i) \<or> settled j q i"
    if i: "\<not> po_failed p" "i < po_next q" "i < count j" for i
  proof (cases "x = Decoding i")
    case True
    then show ?thesis using assms(2,4) by (intro disjI1 exI [of _ t]) simp
  next
    case False
    then have "i < po_next p" using assms(8) i by blast
    then consider u where "u < length (po_phase p)" "po_phase p ! u = Decoding i" | "settled j p i"
      using assms(1) i unfolding out_inv_def by blast
    then show ?thesis
    proof cases
      case 1
      then have "u \<noteq> t" using assms(3) by auto
      then show ?thesis using 1 assms(4) by (intro disjI1 exI [of _ u]) simp
    next
      case 2
      then show ?thesis using assms(6) by (simp add: settled_def)
    qed
  qed
  then show ?thesis using assms(1,5,6,7) unfolding out_inv_def by simp
qed

lemma out_inv_decoded:
  assumes wf: "wf j" and inv: "out_inv j out0 p" "claims_inv j p" "threads_inv p" and t: "t < length (po_phase p)"
    "po_phase p ! t = Decoding i" and d: "dec j i (po_scratch p ! t) (po_out p) = Some (accepted, s, out)"
    and q: "q = p\<lparr>po_out := out, po_scratch := (po_scratch p)[t := s], po_failed := po_failed p \<or> \<not> accepted,
         po_phase := (po_phase p)[t := if accepted then Claiming else Failing]\<rparr>"
  shows "out_inv j out0 q"
proof -
  have i: "i < count j" using inv(2) t by (simp add: claims_inv_def)
  have ls: "length (po_scratch p) = length (po_phase p)" using inv(3) by (simp add: threads_inv_def)
  have "scratch_ok j (po_scratch p ! t)" "out_ok j (po_out p)" using inv(1) t(1) ls by (simp_all add: out_inv_def)
  from slice_total [OF wf i this] d have r: "accepted = verdict j i" "scratch_ok j s" "out_ok j out"
    "\<And>c. c \<notin> cells j i \<Longrightarrow> look out c = look (po_out p) c" "accepted \<Longrightarrow> \<forall>c\<in>cells j i. look out c = content j i c"
    by auto
  have "(\<exists>u < length (po_phase q). po_phase q ! u = Decoding k) \<or> settled j q k"
    if k: "\<not> po_failed q" "k < po_next p" "k < count j" for k
  proof -
    have acc: accepted using k(1) q by simp
    have "\<not> po_failed p" using k(1) q by simp
    then have "(\<exists>u < length (po_phase p). po_phase p ! u = Decoding k) \<or> settled j p k"
      using inv(1) k(2,3) unfolding out_inv_def by blast
    then consider "k = i" | u where "k \<noteq> i" "u < length (po_phase p)" "po_phase p ! u = Decoding k" | "k \<noteq> i" "settled j p k"
      by blast
    then show ?thesis
    proof cases
      case 1
      then show ?thesis using r acc q by (simp add: settled_def)
    next
      case 2
      then have "u \<noteq> t" using t by auto
      then show ?thesis using 2 q by (intro disjI1 exI [of _ u]) simp
    next
      case 3
      have "c \<notin> cells j i" if "c \<in> cells j k" for c using slice_disjoint [OF wf i k(3)] 3 that by auto
      then show ?thesis using 3 r(4) q by (simp add: settled_def)
    qed
  qed
  moreover have "po_failed q \<Longrightarrow> \<exists>i < count j. \<not> verdict j i"
    using q inv(1) r(1) i unfolding out_inv_def by auto
  moreover have "\<forall>u < length (po_scratch q). scratch_ok j (po_scratch q ! u)"
    using inv(1) r(2) q t(1) ls unfolding out_inv_def by (simp add: nth_list_update)
  moreover have "look out c = look out0 c" if "\<forall>i < count j. c \<notin> cells j i" for c
    using that i r(4) [of c] inv(1) unfolding out_inv_def by auto
  ultimately show ?thesis using q r(3) unfolding out_inv_def by simp
qed

lemma out_inv_step:
  assumes "wf j" "pool_step (dec j) (count j) p q" "threads_inv p" "claims_inv j p" "out_inv j out0 p"
  shows "out_inv j out0 q"
  using assms(2)
proof (cases rule: pool_step.cases)
  case (claim t)
  then show ?thesis
    by (intro out_inv_move [OF assms(5), of t q "if count j \<le> po_next p then Finished else Decoding (po_next p)"]) (auto simp: less_Suc_eq)
next
  case (decoded t i accepted s out)
  then show ?thesis by (intro out_inv_decoded [OF assms(1,5,4,3)])
next
  case (stop t)
  then have "po_failed p" using assms(4) by (simp add: claims_inv_def)
  then show ?thesis using stop by (intro out_inv_move [OF assms(5), of t q Finished]) simp_all
next
  case (wake t)
  then show ?thesis by (intro out_inv_move [OF assms(5), of t q "if po_job p then Claiming else Finished"]) simp_all
next
  case (report t)
  then show ?thesis by (intro out_inv_move [OF assms(5), of t q Idle]) simp_all
next
  case return
  then show ?thesis by (intro out_inv_move [OF assms(5), of 0 q Idle]) (simp_all add: retire_def)
next
  case (exit t)
  then show ?thesis using assms(3) by (simp add: threads_inv_def)
qed

section \<open>A frame\<close>

definition frame_inv :: "'j \<Rightarrow> 'o \<Rightarrow> ('s, 'o) pool \<Rightarrow> bool" where
  "frame_inv j out0 p \<longleftrightarrow> threads_inv p \<and> running_inv p \<and> claims_inv j p \<and> out_inv j out0 p"

text \<open>A pool between frames, ready for job \<open>j\<close>.\<close>

definition ready :: "'j \<Rightarrow> ('s, 'o) pool \<Rightarrow> bool" where
  "ready j p \<longleftrightarrow> pool_idle p \<and> wf j \<and> (\<forall>t < length (po_scratch p). scratch_ok j (po_scratch p ! t)) \<and> out_ok j (po_out p)"

lemma publish_inv:
  assumes "ready j p"
  shows "frame_inv j (po_out p) (publish p)"
proof -
  let ?q = "publish p"
  have p: "pool_idle p" "\<forall>t < length (po_scratch p). scratch_ok j (po_scratch p ! t)" "out_ok j (po_out p)"
    using assms by (simp_all add: ready_def)
  have f: "po_phase ?q = (po_phase p)[0 := Claiming]" "po_seen ?q = po_seen p" "po_next ?q = 0" "\<not> po_failed ?q"
    "po_scratch ?q = po_scratch p" "po_out ?q = po_out p" "po_shutdown ?q = po_shutdown p"
    by (simp_all add: publish_def Let_def)
  have ph: "po_phase ?q ! t = (if t = 0 then Claiming else Idle)" if "t < length (po_phase p)" for t
    using p(1) that f(1) by (simp add: pool_idle_def nth_list_update)
  have th: "threads_inv ?q" using p(1) f ph by (auto simp: threads_inv_def pool_idle_def publish_def Let_def)
  have "running_inv ?q"
  proof (cases "length (po_phase p) \<le> 1")
    case True
    then have "{t. 0 < t \<and> t < length (po_phase ?q) \<and> busy ?q t} = {}" using f(1) by auto
    then show ?thesis using True p(1) by (simp add: running_inv_def publish_def Let_def pool_idle_def)
  next
    case False
    have "po_seen p ! t \<noteq> po_generation ?q" if "0 < t" "t < length (po_phase p)" for t
      using p(1) that False by (simp add: pool_idle_def publish_def Let_def)
    then have "{t. 0 < t \<and> t < length (po_phase ?q) \<and> busy ?q t} = {0 <..< length (po_phase p)}"
      using f(1,2) by (auto simp: busy_def)
    then show ?thesis using False by (simp add: running_inv_def publish_def Let_def)
  qed
  moreover have "claims_inv j ?q" using ph f(1) by (auto simp: claims_inv_def split: if_splits)
  moreover have "out_inv j (po_out p) ?q" using p f by (simp add: out_inv_def)
  ultimately show ?thesis using th by (simp add: frame_inv_def)
qed

lemma frame_inv_step:
  assumes "wf j" "frame_inv j out0 p" "pool_step (dec j) (count j) p q" "po_phase q ! 0 \<noteq> Idle"
  shows "frame_inv j out0 q"
  using assms threads_inv_step [OF assms(3)] running_inv_step [OF assms(3)] claims_inv_step [OF assms(3)]
    out_inv_step [OF assms(1,3)] by (simp add: frame_inv_def)

text \<open>Only the return of the caller ends a frame, and then the pool is between frames again.\<close>

lemma step_from_frame:
  assumes "frame_inv j out0 p" "pool_step (dec j) (count j) p q" "po_phase q ! 0 = Idle"
  shows "q = retire p \<and> po_phase p ! 0 = Finished \<and> po_running p = 0"
  using assms(2)
proof (cases rule: pool_step.cases)
  case (claim t)
  then show ?thesis using assms(1,3) by (cases "t = 0") (auto simp: frame_inv_def threads_inv_def split: if_splits)
next
  case (decoded t i accepted s out)
  then show ?thesis using assms(1,3) by (cases "t = 0") (auto simp: frame_inv_def threads_inv_def split: if_splits)
next
  case (stop t)
  then show ?thesis using assms(1,3) by (cases "t = 0") (auto simp: frame_inv_def threads_inv_def)
next
  case (wake t)
  then show ?thesis using assms(1,3) by (auto simp: frame_inv_def threads_inv_def)
next
  case (report t)
  then show ?thesis using assms(1,3) by (auto simp: frame_inv_def threads_inv_def)
next
  case return
  then show ?thesis by simp
next
  case (exit t)
  then show ?thesis using assms(1) by (simp add: frame_inv_def threads_inv_def)
qed

lemma all_quiet:
  assumes "frame_inv j out0 p" "po_running p = 0" "0 < t" "t < length (po_phase p)"
  shows "po_phase p ! t = Idle \<and> po_seen p ! t = po_generation p"
proof -
  have "card {t. 0 < t \<and> t < length (po_phase p) \<and> busy p t} = 0"
    using assms(1,2) by (simp add: frame_inv_def running_inv_def)
  then have "{t. 0 < t \<and> t < length (po_phase p) \<and> busy p t} = {}" by simp
  then show ?thesis using assms(3,4) by (auto simp: busy_def)
qed

lemma frame_end:
  assumes "frame_inv j out0 p" "po_phase p ! 0 = Finished" "po_running p = 0"
  shows "pool_idle (retire p)"
    "po_failed (retire p) \<longleftrightarrow> (\<exists>i < count j. \<not> verdict j i)"
    "\<not> po_failed (retire p) \<Longrightarrow> i < count j \<Longrightarrow> c \<in> cells j i \<Longrightarrow> look (po_out (retire p)) c = content j i c"
    "\<forall>i < count j. c \<notin> cells j i \<Longrightarrow> look (po_out (retire p)) c = look out0 c"
proof -
  note q = all_quiet [OF assms(1,3)]
  have ne: "po_phase p \<noteq> []" using assms(1) by (simp add: frame_inv_def threads_inv_def)
  have "0 < length (po_phase p)" using ne by simp
  then have n: "count j \<le> po_next p" using assms(1,2) unfolding frame_inv_def claims_inv_def by blast
  have no: "po_phase p ! t \<noteq> Decoding i" if "t < length (po_phase p)" for t i
    using q [of t] assms(2) that by (cases "t = 0") auto
  have s: "settled j p i" if "\<not> po_failed p" "i < count j" for i
    using assms(1) that n no unfolding frame_inv_def out_inv_def by (metis less_le_trans)
  show "pool_idle (retire p)"
    using assms(1,3) q ne by (auto simp: pool_idle_def retire_def frame_inv_def threads_inv_def nth_list_update)
  show "po_failed (retire p) \<longleftrightarrow> (\<exists>i < count j. \<not> verdict j i)"
    using assms(1) s by (auto simp: retire_def frame_inv_def out_inv_def settled_def)
  show "look (po_out (retire p)) c = content j i c" if "\<not> po_failed (retire p)" "i < count j" "c \<in> cells j i"
    using s [of i] that by (simp add: retire_def settled_def)
  show "look (po_out (retire p)) c = look out0 c" if "\<forall>i < count j. c \<notin> cells j i"
    using assms(1) that by (simp add: retire_def frame_inv_def out_inv_def)
qed

lemma retire_idle: "po_phase p \<noteq> [] \<Longrightarrow> po_phase (retire p) ! 0 = Idle"
  by (simp add: retire_def)

lemma reach_cases:
  assumes "ready j p0" "frame_reach (dec j) (count j) p0 p"
  shows "po_phase p ! 0 \<noteq> Idle \<and> frame_inv j (po_out p0) p
    \<or> (\<exists>q. p = retire q \<and> frame_inv j (po_out p0) q \<and> po_phase q ! 0 = Finished \<and> po_running q = 0 \<and> po_phase p ! 0 = Idle)"
  using assms(2)
proof (induction rule: frame_reach.induct)
  case published
  then show ?case using publish_inv [OF assms(1)] by (auto simp: frame_inv_def threads_inv_def)
next
  case (step p q)
  have wf: "wf j" using assms(1) by (simp add: ready_def)
  have inv: "frame_inv j (po_out p0) p" using step by auto
  show ?case
  proof (cases "po_phase q ! 0 = Idle")
    case True
    then show ?thesis using step_from_frame [OF inv step.hyps(3)] inv by blast
  next
    case False
    then show ?thesis using frame_inv_step [OF wf inv step.hyps(3)] by blast
  qed
qed

text \<open>What a frame returns: deterministic whatever the schedule.\<close>

lemma frame_result:
  assumes "ready j p0" "frame_reach (dec j) (count j) p0 p" "po_phase p ! 0 = Idle"
  shows "pool_idle p" "po_failed p \<longleftrightarrow> (\<exists>i < count j. \<not> verdict j i)"
    "\<not> po_failed p \<Longrightarrow> i < count j \<Longrightarrow> c \<in> cells j i \<Longrightarrow> look (po_out p) c = content j i c"
    "\<forall>i < count j. c \<notin> cells j i \<Longrightarrow> look (po_out p) c = look (po_out p0) c"
proof -
  obtain q where q: "p = retire q" "frame_inv j (po_out p0) q" "po_phase q ! 0 = Finished" "po_running q = 0"
    using reach_cases [OF assms(1,2)] assms(3) by blast
  note e = frame_end [OF q(2-4)]
  show "pool_idle p" "po_failed p \<longleftrightarrow> (\<exists>i < count j. \<not> verdict j i)" using e q(1) by auto
  show "look (po_out p) c = content j i c" if "\<not> po_failed p" "i < count j" "c \<in> cells j i"
    using e(3) q(1) that by simp
  show "look (po_out p) c = look (po_out p0) c" if "\<forall>i < count j. c \<notin> cells j i"
    using e(4) q(1) that by simp
qed

lemma frame_keeps:
  assumes "ready j p0" "frame_reach (dec j) (count j) p0 p"
  shows "out_ok j (po_out p)" "length (po_scratch p) = length (po_phase p)" "t < length (po_scratch p) \<Longrightarrow> scratch_ok j (po_scratch p ! t)"
  using reach_cases [OF assms] by (auto simp: retire_def frame_inv_def out_inv_def threads_inv_def)

text \<open>The reference: every slice decoded in turn by one thread.\<close>

lemma decode_all_result:
  assumes "wf j"
  shows "\<lbrakk>set is \<subseteq> {..<count j}; distinct is; scratch_ok j s; out_ok j out\<rbrakk> \<Longrightarrow>
    \<exists>s' out'. decode_all (dec j) is s out = Some (\<forall>i\<in>set is. verdict j i, s', out') \<and> out_ok j out'
      \<and> (\<forall>c. (\<forall>i\<in>set is. c \<notin> cells j i) \<longrightarrow> look out' c = look out c)
      \<and> ((\<forall>i\<in>set is. verdict j i) \<longrightarrow> (\<forall>i\<in>set is. \<forall>c\<in>cells j i. look out' c = content j i c))"
proof (induction "is" arbitrary: s out)
  case Nil
  then show ?case by simp
next
  case (Cons i rest)
  have i: "i < count j" "set rest \<subseteq> {..<count j}" "distinct rest" "i \<notin> set rest" using Cons.prems by auto
  obtain s1 out1 where r: "dec j i s out = Some (verdict j i, s1, out1)" "scratch_ok j s1" "out_ok j out1"
    "\<forall>c. c \<notin> cells j i \<longrightarrow> look out1 c = look out c" "verdict j i \<longrightarrow> (\<forall>c\<in>cells j i. look out1 c = content j i c)"
    using slice_total [OF assms i(1) Cons.prems(3,4)] by blast
  show ?case
  proof (cases "verdict j i")
    case False
    then show ?thesis using r by auto
  next
    case True
    obtain s' out' where q: "decode_all (dec j) rest s1 out1 = Some (\<forall>i\<in>set rest. verdict j i, s', out')" "out_ok j out'"
      "\<forall>c. (\<forall>i\<in>set rest. c \<notin> cells j i) \<longrightarrow> look out' c = look out1 c"
      "(\<forall>i\<in>set rest. verdict j i) \<longrightarrow> (\<forall>i\<in>set rest. \<forall>c\<in>cells j i. look out' c = content j i c)"
      using Cons.IH [OF i(2,3) r(2,3)] by blast
    have "look out' c = content j i c" if "c \<in> cells j i" for c
    proof -
      have "\<forall>k\<in>set rest. c \<notin> cells j k" using slice_disjoint [OF assms i(1)] i(2,4) that by blast
      then show ?thesis using q(3) r(5) True that by simp
    qed
    then show ?thesis using q r(1,4) True by auto
  qed
qed

lemma frame_sequential:
  assumes "ready j p0" "frame_reach (dec j) (count j) p0 p" "po_phase p ! 0 = Idle"
  shows "\<exists>s out. decode_all (dec j) [0..<count j] (po_scratch p0 ! 0) (po_out p0) = Some (\<not> po_failed p, s, out)
    \<and> (\<not> po_failed p \<longrightarrow> po_out p = out)"
proof -
  have wf: "wf j" and s: "scratch_ok j (po_scratch p0 ! 0)" and out: "out_ok j (po_out p0)"
    using assms(1) by (auto simp: ready_def pool_idle_def)
  note fr = frame_result [OF assms]
  have sub: "set [0..<count j] \<subseteq> {..<count j}" by auto
  obtain s' out' where q: "decode_all (dec j) [0..<count j] (po_scratch p0 ! 0) (po_out p0) = Some (\<forall>i\<in>set [0..<count j]. verdict j i, s', out')"
    "out_ok j out'" "\<forall>c. (\<forall>i\<in>set [0..<count j]. c \<notin> cells j i) \<longrightarrow> look out' c = look (po_out p0) c"
    "(\<forall>i\<in>set [0..<count j]. verdict j i) \<longrightarrow> (\<forall>i\<in>set [0..<count j]. \<forall>c\<in>cells j i. look out' c = content j i c)"
    using decode_all_result [OF wf sub distinct_upt s out] by blast
  have v: "(\<forall>i\<in>set [0..<count j]. verdict j i) = (\<not> po_failed p)" using fr(2) by auto
  have "po_out p = out'" if ok: "\<not> po_failed p"
  proof (rule out_ext [OF frame_keeps(1) [OF assms(1,2)] q(2)])
    fix c show "look (po_out p) c = look out' c"
    proof (cases "\<exists>i < count j. c \<in> cells j i")
      case True
      then show ?thesis using fr(3) [OF ok] q(4) v ok by auto
    next
      case False
      then show ?thesis using fr(4) q(3) by auto
    qed
  qed
  then show ?thesis using q(1) v by simp
qed

text \<open>Two threads never decode the same slice, so no byte is written by two of them.\<close>

lemma no_race:
  assumes "ready j p0" "frame_reach (dec j) (count j) p0 p" "t < length (po_phase p)" "u < length (po_phase p)" "t \<noteq> u"
    "po_phase p ! t = Decoding i" "po_phase p ! u = Decoding k"
  shows "i < count j \<and> k < count j \<and> i \<noteq> k \<and> cells j i \<inter> cells j k = {}"
proof -
  have wf: "wf j" using assms(1) by (simp add: ready_def)
  have "frame_inv j (po_out p0) p"
  proof (cases "po_phase p ! 0 = Idle")
    case True
    then have "pool_idle p" by (rule frame_result(1) [OF assms(1,2)])
    then show ?thesis using assms(3,6) by (simp add: pool_idle_def)
  next
    case False
    then show ?thesis using reach_cases [OF assms(1,2)] by blast
  qed
  then have c: "claims_inv j p" by (simp add: frame_inv_def)
  then have "i < count j" "k < count j" using assms(3,4,6,7) by (auto simp: claims_inv_def)
  moreover have "i \<noteq> k" using c assms(3-7) unfolding claims_inv_def by blast
  ultimately show ?thesis using slice_disjoint [OF wf] by simp
qed

text \<open>A frame in progress can always go on.\<close>

lemma thread_can_step:
  assumes wf: "wf j" and inv: "frame_inv j out0 p" and t: "t < length (po_phase p)"
    and busy: "po_phase p ! t = Claiming \<or> po_phase p ! t = Failing \<or> (\<exists>i. po_phase p ! t = Decoding i)
      \<or> 0 < t \<and> (po_phase p ! t = Finished \<or> po_phase p ! t = Idle \<and> po_seen p ! t \<noteq> po_generation p)"
  shows "\<exists>q. pool_step (dec j) (count j) p q"
proof -
  have ls: "length (po_scratch p) = length (po_phase p)" "\<not> po_shutdown p" using inv by (simp_all add: frame_inv_def threads_inv_def)
  have dec: "\<exists>q. pool_step (dec j) (count j) p q" if i: "po_phase p ! t = Decoding i" for i
  proof -
    have "i < count j" using inv t i by (simp add: frame_inv_def claims_inv_def)
    moreover have "scratch_ok j (po_scratch p ! t)" "out_ok j (po_out p)" using inv t ls by (simp_all add: frame_inv_def out_inv_def)
    ultimately obtain s out where "dec j i (po_scratch p ! t) (po_out p) = Some (verdict j i, s, out)"
      using slice_total [OF wf] by blast
    from pool_step.decoded [where dec = "dec j" and count = "count j", OF t i this] show ?thesis by blast
  qed
  show ?thesis using busy
  proof (elim disjE exE conjE)
    assume "po_phase p ! t = Claiming"
    from pool_step.claim [OF t this] show ?thesis by blast
  next
    assume "po_phase p ! t = Failing"
    from pool_step.stop [OF t this] show ?thesis by blast
  next
    fix i assume "po_phase p ! t = Decoding i"
    then show ?thesis by (rule dec)
  next
    assume "0 < t" "po_phase p ! t = Finished"
    from pool_step.report [OF this(1) t this(2)] show ?thesis by blast
  next
    assume "0 < t" "po_phase p ! t = Idle" "po_seen p ! t \<noteq> po_generation p"
    from pool_step.wake [OF this(1) t this(2) ls(2) this(3) [symmetric]] show ?thesis by blast
  qed
qed

lemma no_deadlock:
  assumes wf: "wf j" and inv: "frame_inv j out0 p"
  shows "\<exists>q. pool_step (dec j) (count j) p q"
proof (cases "po_phase p ! 0 = Finished")
  case False
  have z: "0 < length (po_phase p)" "po_phase p ! 0 \<noteq> Idle" "po_phase p ! 0 \<noteq> Exited"
    using inv by (auto simp: frame_inv_def threads_inv_def)
  then have "po_phase p ! 0 = Claiming \<or> po_phase p ! 0 = Failing \<or> (\<exists>i. po_phase p ! 0 = Decoding i)"
    using False by (cases "po_phase p ! 0") auto
  then show ?thesis using thread_can_step [OF wf inv z(1)] by blast
next
  case True
  show ?thesis
  proof (cases "po_running p = 0")
    case z: True
    have "po_phase p \<noteq> []" using inv by (simp add: frame_inv_def threads_inv_def)
    from pool_step.return [OF this True z] show ?thesis by blast
  next
    case False
    have "po_running p = card {t. 0 < t \<and> t < length (po_phase p) \<and> busy p t}"
      using inv unfolding frame_inv_def running_inv_def by blast
    then have "{t. 0 < t \<and> t < length (po_phase p) \<and> busy p t} \<noteq> {}" using False by (metis card.empty)
    then obtain t where t: "0 < t" "t < length (po_phase p)" "busy p t" by blast
    have "po_phase p ! t \<noteq> Exited" using inv t by (simp add: frame_inv_def threads_inv_def)
    then have "po_phase p ! t = Claiming \<or> po_phase p ! t = Failing \<or> (\<exists>i. po_phase p ! t = Decoding i)
      \<or> 0 < t \<and> (po_phase p ! t = Finished \<or> po_phase p ! t = Idle \<and> po_seen p ! t \<noteq> po_generation p)"
      using t by (cases "po_phase p ! t") (auto simp: busy_def)
    then show ?thesis by (rule thread_can_step [OF wf inv t(2)])
  qed
qed

text \<open>Every step uses up work.\<close>

lemma sum_update_less:
  fixes f g :: "nat \<Rightarrow> nat"
  assumes "t < n" "\<And>u. u < n \<Longrightarrow> u \<noteq> t \<Longrightarrow> f u = g u" "f t + a < g t + b"
  shows "a + (\<Sum>u<n. f u) < b + (\<Sum>u<n. g u)"
proof -
  have "(\<Sum>u<n. f u) = f t + (\<Sum>u\<in>{..<n} - {t}. f u)" "(\<Sum>u<n. g u) = g t + (\<Sum>u\<in>{..<n} - {t}. g u)"
    using assms(1) by (simp_all add: sum.remove)
  moreover have "(\<Sum>u\<in>{..<n} - {t}. f u) = (\<Sum>u\<in>{..<n} - {t}. g u)" using assms(2) by (intro sum.cong) auto
  ultimately show ?thesis using assms(3) by linarith
qed

lemma pool_work_update:
  assumes "t < length (po_phase p)" "po_phase q = (po_phase p)[t := x]" "length (po_seen q) = length (po_seen p)"
    "length (po_seen p) = length (po_phase p)"
    "po_generation q = po_generation p" "\<And>u. u \<noteq> t \<Longrightarrow> po_seen q ! u = po_seen p ! u"
    "phase_work x (t = 0 \<or> po_seen q ! t = po_generation p) + 2 * (n - po_next q)
      < phase_work (po_phase p ! t) (t = 0 \<or> po_seen p ! t = po_generation p) + 2 * (n - po_next p)"
  shows "pool_work n q < pool_work n p"
  unfolding pool_work_def using assms
  by (simp, intro sum_update_less [of t]) simp_all

lemma step_work:
  assumes "frame_inv j out0 p" "pool_step (dec j) (count j) p q"
  shows "pool_work (count j) q < pool_work (count j) p"
  using assms(2)
proof (cases rule: pool_step.cases)
  case (claim t)
  then show ?thesis using assms(1)
    by (intro pool_work_update [of t p q "if count j \<le> po_next p then Finished else Decoding (po_next p)"])
      (auto simp: frame_inv_def threads_inv_def)
next
  case (decoded t i accepted s out)
  then show ?thesis using assms(1)
    by (intro pool_work_update [of t p q "if accepted then Claiming else Failing"]) (auto simp: frame_inv_def threads_inv_def)
next
  case (stop t)
  then show ?thesis using assms(1)
    by (intro pool_work_update [of t p q Finished]) (auto simp: frame_inv_def threads_inv_def)
next
  case (wake t)
  then show ?thesis using assms(1)
    by (intro pool_work_update [of t p q "if po_job p then Claiming else Finished"]) (auto simp: frame_inv_def threads_inv_def)
next
  case (report t)
  then have "po_seen p ! t = po_generation p" using assms(1) unfolding frame_inv_def threads_inv_def by (metis phase.distinct(7))
  then show ?thesis using report assms(1)
    by (intro pool_work_update [of t p q Idle]) (auto simp: frame_inv_def threads_inv_def)
next
  case return
  then show ?thesis using assms(1)
    by (intro pool_work_update [of 0 p q Idle]) (auto simp: frame_inv_def threads_inv_def retire_def)
next
  case (exit t)
  then show ?thesis using assms(1) by (simp add: frame_inv_def threads_inv_def)
qed

lemma frame_progress:
  assumes "ready j p0" "frame_reach (dec j) (count j) p0 p" "po_phase p ! 0 \<noteq> Idle"
  shows "(\<exists>q. pool_step (dec j) (count j) p q) \<and> (\<forall>q. pool_step (dec j) (count j) p q \<longrightarrow> pool_work (count j) q < pool_work (count j) p)"
proof -
  have wf: "wf j" using assms(1) by (simp add: ready_def)
  have inv: "frame_inv j (po_out p0) p" using reach_cases [OF assms(1,2)] assms(3) by blast
  show ?thesis using no_deadlock [OF wf inv] step_work [OF inv] by blast
qed

text \<open>So every frame returns.\<close>

lemma frame_returns:
  assumes "ready j p0" "frame_reach (dec j) (count j) p0 p"
  shows "\<exists>q. frame_reach (dec j) (count j) p0 q \<and> po_phase q ! 0 = Idle"
  using assms(2)
proof (induction "pool_work (count j) p" arbitrary: p rule: less_induct)
  case less
  show ?case
  proof (cases "po_phase p ! 0 = Idle")
    case False
    then obtain q where "pool_step (dec j) (count j) p q" "pool_work (count j) q < pool_work (count j) p"
      using frame_progress [OF assms(1) less.prems] by blast
    then show ?thesis using less.hyps [of q] frame_reach.step [OF less.prems False] by blast
  qed (use less.prems in blast)
qed

end

end
