(* ===== verification/Vmx_Frames.thy ===== *)
theory Vmx_Frames
  imports Vmx_Decoder Vmx_Pool
begin

text \<open>
  The decoder and its pool together. The slice decode of \<open>Vmx_Decoder\<close> is shown to keep the contract
  the pool of \<open>Vmx_Pool\<close> relies on: it never panics, its verdict and the bytes it writes depend on
  nothing but the frame, and different slices write different bytes. The interpretation then gives
  the properties of a whole frame under every schedule of the threads.
\<close>

section \<open>Views\<close>

definition view_agree :: "nat set \<Rightarrow> u8 list option \<Rightarrow> u8 list option \<Rightarrow> bool" where
  "view_agree A v w \<longleftrightarrow> (case (v, w) of (Some xs, Some ys) \<Rightarrow> agree_on A xs ys | (None, None) \<Rightarrow> True | _ \<Rightarrow> False)"

definition view_len :: "u8 list option \<Rightarrow> nat" where
  "view_len v = (case v of None \<Rightarrow> 0 | Some b \<Rightarrow> length b)"

lemma view_agree_refl [simp]: "view_agree A v v"
  by (simp add: view_agree_def split: option.split)

lemma view_agree_mono: "view_agree A v w \<Longrightarrow> B \<subseteq> A \<Longrightarrow> view_agree B v w"
  by (auto simp: view_agree_def split: option.splits intro: agree_on_mono)

lemma view_agree_trans: "view_agree A u v \<Longrightarrow> view_agree A v w \<Longrightarrow> view_agree A u w"
  by (auto simp: view_agree_def split: option.splits intro: agree_on_trans)

lemma view_agree_len: "view_agree A v w \<Longrightarrow> view_len v = view_len w \<and> (v = None \<longleftrightarrow> w = None)"
  by (auto simp: view_agree_def view_len_def agree_on_def split: option.splits)

lemma view_store:
  assumes "view_agree A v w" "v \<noteq> None" "off + length bytes \<le> view_len v"
  shows "view_agree (A \<union> {off..<off + length bytes}) (out_store v off bytes) (out_store w off bytes)"
    "view_agree (- {off..<off + length bytes}) (out_store v off bytes) v"
    "view_len (out_store v off bytes) = view_len v" "out_store v off bytes \<noteq> None"
  using assms overwrite_agree [of A "the v" "the w" off bytes] overwrite_outside [of off bytes "the v"]
  by (auto simp: view_agree_def view_len_def out_store_def split: option.splits)

lemma out_row_Some:
  assumes "v \<noteq> None" "off + n \<le> view_len v"
  obtains out where "out_row v off n = Some out" "length out = n"
proof -
  obtain b where b: "v = Some b" using assms(1) by blast
  have "out_row v off n = Some (slice b off (off + n))" using assms(2) b by (simp add: out_row_def view_len_def)
  moreover have "length (slice b off (off + n)) = n" using assms(2) b by (simp add: view_len_def)
  ultimately show ?thesis by (rule that)
qed

text \<open>What a run of stores does: both views are written alike on \<open>C\<close>, and only there.\<close>

definition writes_view :: "nat set \<Rightarrow> nat set \<Rightarrow> u8 list option \<Rightarrow> u8 list option \<Rightarrow> u8 list option \<Rightarrow> u8 list option \<Rightarrow> bool" where
  "writes_view A C v w v' w' \<longleftrightarrow> view_agree (A \<union> C) v' w' \<and> view_agree (- C) v' v \<and> view_agree (- C) w' w"

lemma writes_view_trans:
  assumes "writes_view A C v w v1 w1" "writes_view (A \<union> C) D v1 w1 v2 w2"
  shows "writes_view A (C \<union> D) v w v2 w2"
  using assms unfolding writes_view_def
  by (auto simp: Un_assoc intro: view_agree_trans view_agree_mono)

lemma writes_view_store:
  assumes "view_agree A v w" "v \<noteq> None" "off + length bytes \<le> view_len v"
  shows "writes_view A {off..<off + length bytes} v w (out_store v off bytes) (out_store w off bytes)"
  using view_store [OF assms] view_store(2) [of A w v off bytes] assms view_agree_len [OF assms(1)]
    view_store(2) [of UNIV w w off bytes]
  by (simp add: writes_view_def)

lemma writes_view_len: "writes_view A C v w v' w' \<Longrightarrow> view_len v' = view_len v \<and> (v' = None \<longleftrightarrow> v = None)"
  unfolding writes_view_def using view_agree_len by blast

section \<open>Bands\<close>

definition row_span :: "nat \<Rightarrow> nat \<Rightarrow> nat \<Rightarrow> nat set" where
  "row_span stride n row = {row * stride..<row * stride + n}"

lemma tail_from_Some: "n \<le> length xs \<Longrightarrow> tail_from xs n = Some (drop n xs)"
  by (simp add: tail_from_def)

text \<open>The bytes of one converted row.\<close>

definition row_width :: "job \<Rightarrow> nat \<Rightarrow> nat" where
  "row_width jb width = width * (if jb_pixels jb = Uyvy then 2 else 4)"

lemma row_kernel:
  assumes "even width" "width \<le> length l" "width div 2 \<le> length b" "width div 2 \<le> length r"
  shows "\<exists>bytes. length bytes = row_width jb width \<and> (\<forall>out. length out = row_width jb width \<longrightarrow>
      (if jb_pixels jb = Uyvy then uyvy_row l b r width out else bgra_row l b r width out c) = Some bytes)"
proof (cases "jb_pixels jb = Uyvy")
  case True
  obtain n where n: "width = 2 * n" using assms(1) by blast
  show ?thesis
    by (rule exI [of _ "concat (map (\<lambda>pair. [b ! pair, l ! (2 * pair), r ! pair, l ! (2 * pair + 1)]) [0..<n])"])
      (use True n assms length_uyvy_pairs [of b l r n] in \<open>simp_all add: row_width_def uyvy_row_def Let_def\<close>)
next
  case False
  obtain n where n: "width = 2 * n" using assms(1) by blast
  show ?thesis
    by (rule exI [of _ "concat (map (bgra_pair l b r c) [0..<n])"])
      (use False n assms in \<open>simp_all add: row_width_def bgra_row_def Let_def\<close>)
qed

lemma convert_rows_writes:
  assumes "view_agree A v w" "v \<noteq> None" "even (bd_width bd)"
    "\<forall>row\<in>set rs. (bd_first_row bd + row) * jb_stride jb + row_width jb (bd_width bd) \<le> view_len v"
    "\<forall>row\<in>set rs. row * ls + bd_width bd \<le> length luma \<and> row * cs + bd_width bd div 2 \<le> length blue
       \<and> row * cs + bd_width bd div 2 \<le> length red"
  shows "\<exists>v' w'. convert_rows luma blue red ls cs jb bd rs v = Some (True, v')
    \<and> convert_rows luma blue red ls cs jb bd rs w = Some (True, w')
    \<and> writes_view A (\<Union>row\<in>set rs. row_span (jb_stride jb) (row_width jb (bd_width bd)) (bd_first_row bd + row)) v w v' w'"
  using assms
proof (induction rs arbitrary: v w A)
  case Nil
  then show ?case by (simp add: writes_view_def)
next
  case (Cons row rs)
  let ?off = "(bd_first_row bd + row) * jb_stride jb" and ?n = "row_width jb (bd_width bd)"
  have w: "w \<noteq> None" "view_len w = view_len v" using view_agree_len [OF Cons.prems(1)] Cons.prems(2) by auto
  have fits: "?off + ?n \<le> view_len v" using Cons.prems(4) by simp
  obtain o1 where o1: "out_row v ?off ?n = Some o1" "length o1 = ?n" using out_row_Some [OF Cons.prems(2) fits] .
  obtain o2 where o2: "out_row w ?off ?n = Some o2" "length o2 = ?n" using out_row_Some [OF w(1), of ?off ?n] fits w(2) by auto
  have kernel: "bd_width bd \<le> length (drop (row * ls) luma)" "bd_width bd div 2 \<le> length (drop (row * cs) blue)"
    "bd_width bd div 2 \<le> length (drop (row * cs) red)" using Cons.prems(5) by auto
  obtain bytes where b: "length bytes = ?n" "\<And>out. length out = ?n \<Longrightarrow>
      (if jb_pixels jb = Uyvy then uyvy_row (drop (row * ls) luma) (drop (row * cs) blue) (drop (row * cs) red) (bd_width bd) out
       else bgra_row (drop (row * ls) luma) (drop (row * cs) blue) (drop (row * cs) red) (bd_width bd) out (jb_coefficients jb)) = Some bytes"
    using row_kernel [OF Cons.prems(3) kernel, of jb "jb_coefficients jb"] by blast
  have tails: "tail_from luma (row * ls) = Some (drop (row * ls) luma)" "tail_from blue (row * cs) = Some (drop (row * cs) blue)"
    "tail_from red (row * cs) = Some (drop (row * cs) red)"
    using Cons.prems(5) by (auto intro!: tail_from_Some)
  let ?v = "out_store v ?off bytes" and ?w = "out_store w ?off bytes"
  have step: "convert_rows luma blue red ls cs jb bd (row # rs) v = convert_rows luma blue red ls cs jb bd rs ?v"
    "convert_rows luma blue red ls cs jb bd (row # rs) w = convert_rows luma blue red ls cs jb bd rs ?w"
    using o1 o2 b(2) [OF o1(2)] b(2) [OF o2(2)] tails by (simp_all add: Let_def row_width_def)
  have st: "writes_view A {?off..<?off + ?n} v w ?v ?w"
    using writes_view_store [OF Cons.prems(1,2), of ?off bytes] b(1) fits by simp
  have "view_agree (A \<union> {?off..<?off + ?n}) ?v ?w" using st by (simp add: writes_view_def)
  from Cons.IH [OF this] writes_view_len [OF st] Cons.prems(2-5) obtain v' w' where
    r: "convert_rows luma blue red ls cs jb bd rs ?v = Some (True, v')" "convert_rows luma blue red ls cs jb bd rs ?w = Some (True, w')"
    "writes_view (A \<union> {?off..<?off + ?n}) (\<Union>row\<in>set rs. row_span (jb_stride jb) ?n (bd_first_row bd + row)) ?v ?w v' w'"
    by auto
  have "writes_view A (\<Union>row\<in>set (row # rs). row_span (jb_stride jb) ?n (bd_first_row bd + row)) v w v' w'"
    using writes_view_trans [OF st r(3)] by (simp add: row_span_def)
  then show ?case using step r by simp
qed


lemma copy_rows_writes:
  assumes "view_agree A v w" "v \<noteq> None"
    "\<forall>row\<in>set rs. (bd_first_row bd + row) * stride + bd_width bd \<le> view_len v"
    "\<forall>row\<in>set rs. row * ss + bd_width bd \<le> length source"
  shows "\<exists>v' w'. copy_rows source ss stride bd rs v = Some (True, v') \<and> copy_rows source ss stride bd rs w = Some (True, w')
    \<and> writes_view A (\<Union>row\<in>set rs. row_span stride (bd_width bd) (bd_first_row bd + row)) v w v' w'"
  using assms
proof (induction rs arbitrary: v w A)
  case Nil
  then show ?case by (simp add: writes_view_def)
next
  case (Cons row rs)
  let ?off = "(bd_first_row bd + row) * stride" and ?n = "bd_width bd"
  let ?bytes = "slice source (row * ss) (row * ss + bd_width bd)"
  have w: "w \<noteq> None" "view_len w = view_len v" using view_agree_len [OF Cons.prems(1)] Cons.prems(2) by auto
  have fits: "?off + ?n \<le> view_len v" using Cons.prems(3) by simp
  have b: "length ?bytes = ?n" using Cons.prems(4) by (auto simp: min_def)
  obtain o1 where o1: "out_row v ?off ?n = Some o1" using out_row_Some [OF Cons.prems(2) fits] by blast
  obtain o2 where o2: "out_row w ?off ?n = Some o2" using out_row_Some [OF w(1), of ?off ?n] fits w(2) by auto
  let ?v = "out_store v ?off ?bytes" and ?w = "out_store w ?off ?bytes"
  have step: "copy_rows source ss stride bd (row # rs) v = copy_rows source ss stride bd rs ?v"
    "copy_rows source ss stride bd (row # rs) w = copy_rows source ss stride bd rs ?w"
    using o1 o2 Cons.prems(4) by simp_all
  have st: "writes_view A {?off..<?off + ?n} v w ?v ?w"
    using writes_view_store [OF Cons.prems(1,2), of ?off ?bytes] b fits by simp
  have "view_agree (A \<union> {?off..<?off + ?n}) ?v ?w" using st by (simp add: writes_view_def)
  from Cons.IH [OF this] writes_view_len [OF st] Cons.prems(2-4) obtain v' w' where
    r: "copy_rows source ss stride bd rs ?v = Some (True, v')" "copy_rows source ss stride bd rs ?w = Some (True, w')"
    "writes_view (A \<union> {?off..<?off + ?n}) (\<Union>row\<in>set rs. row_span stride ?n (bd_first_row bd + row)) ?v ?w v' w'"
    by auto
  have "writes_view A (\<Union>row\<in>set (row # rs). row_span stride ?n (bd_first_row bd + row)) v w v' w'"
    using writes_view_trans [OF st r(3)] by (simp add: row_span_def)
  then show ?case using step r by simp
qed

text \<open>The rows of a band that are tightly packed are one span.\<close>

lemma tight_span:
  "(\<Union>row\<in>set [0..<rows]. row_span n n (first + row)) = {first * n..<first * n + rows * n}"
proof (induction rows)
  case (Suc rows)
  have "(\<Union>row\<in>set [0..<Suc rows]. row_span n n (first + row))
    = {first * n..<first * n + rows * n} \<union> {(first + rows) * n..<(first + rows) * n + n}"
    using Suc.IH by (auto simp: row_span_def)
  also have "\<dots> = {first * n..<first * n + Suc rows * n}"
    by (simp add: ivl_disj_un_two(3) algebra_simps)
  finally show ?case .
qed simp

lemma copy_band_writes:
  assumes "view_agree A v w" "v \<noteq> None" "0 < bd_rows bd"
    "\<forall>row<bd_rows bd. (bd_first_row bd + row) * stride + bd_width bd \<le> view_len v"
    "\<forall>row<bd_rows bd. row * ss + bd_width bd \<le> length source"
  shows "\<exists>v' w'. copy_band source ss v stride bd = Some (True, v') \<and> copy_band source ss w stride bd = Some (True, w')
    \<and> writes_view A (\<Union>row\<in>set [0..<bd_rows bd]. row_span stride (bd_width bd) (bd_first_row bd + row)) v w v' w'"
proof (cases "ss = bd_width bd \<and> stride = bd_width bd")
  case False
  then have "copy_band source ss u stride bd = copy_rows source ss stride bd [0..<bd_rows bd] u" for u
    unfolding copy_band_def by (rule if_not_P)
  then show ?thesis using copy_rows_writes [OF assms(1,2), of "[0..<bd_rows bd]" bd stride ss source] assms(4,5) by simp
next
  case True
  let ?n = "bd_width bd" and ?len = "bd_rows bd * bd_width bd" and ?off = "bd_first_row bd * bd_width bd"
  have w: "w \<noteq> None" "view_len w = view_len v" using view_agree_len [OF assms(1)] assms(2) by auto
  obtain k where k: "bd_rows bd = Suc k" using assms(3) by (cases "bd_rows bd") auto
  have fits: "?off + ?len \<le> view_len v" using assms(4) True k by (auto simp: algebra_simps dest: spec [of _ k])
  have src: "?len \<le> length source" using assms(5) True k by (auto simp: algebra_simps dest: spec [of _ k])
  obtain o1 where o1: "out_row v ?off ?len = Some o1" using out_row_Some [OF assms(2) fits] by blast
  obtain o2 where o2: "out_row w ?off ?len = Some o2" using out_row_Some [OF w(1), of ?off ?len] fits w(2) by auto
  have "writes_view A {?off..<?off + ?len} v w (out_store v ?off (take ?len source)) (out_store w ?off (take ?len source))"
    using writes_view_store [OF assms(1,2), of ?off "take ?len source"] src fits by (simp add: min_absorb2)
  then show ?thesis using True o1 o2 src tight_span [where rows = "bd_rows bd" and n = ?n and first = "bd_first_row bd"] by (simp add: copy_band_def Let_def)
qed


section \<open>Placed rows\<close>

lemma gather_Some:
  "\<forall>c\<in>set cs. c * 4 + 4 \<le> length source_row \<Longrightarrow> \<exists>bytes. gather source_row cs = Some bytes \<and> length bytes = length cs * 4"
  by (induction cs) auto

text \<open>A worker's scratch while it decodes a frame of this geometry.\<close>

definition scratch_fits :: "decoder \<Rightarrow> nat \<Rightarrow> scratch \<Rightarrow> bool" where
  "scratch_fits d row_bytes sx \<longleftrightarrow>
     length (sx_luma sx) = 16 * de_luma_stride d \<and> length (sx_blue sx) = 16 * de_chroma_stride d
     \<and> length (sx_red sx) = 16 * de_chroma_stride d \<and> length (sx_source_row sx) = de_width d * 4
     \<and> row_bytes \<le> length (sx_placed_row sx)"

definition same_planes :: "scratch \<Rightarrow> scratch \<Rightarrow> bool" where
  "same_planes sx sy \<longleftrightarrow> sx_luma sx = sx_luma sy \<and> sx_blue sx = sx_blue sy \<and> sx_red sx = sx_red sy"

definition geometry_ok :: "decoder \<Rightarrow> bool" where
  "geometry_ok d \<longleftrightarrow> 16 \<le> de_width d \<and> even (de_width d) \<and> de_luma_stride d = align8 (de_width d)
     \<and> de_chroma_stride d = align8 (de_width d div 2) \<and> 16 \<le> de_height d \<and> de_height d \<le> MAX_HEIGHT
     \<and> length (de_slices d) = div_ceil (de_height d) SLICE_HEIGHT
     \<and> (\<forall>i < length (de_slices d). sl_rows (de_slices d ! i) = min (de_height d - i * SLICE_HEIGHT) SLICE_HEIGHT)"

lemma align8_ge: "v \<le> align8 v" "align8 v mod 8 = 0"
  by (auto simp: align8_def)

lemma strides_ok:
  assumes "geometry_ok d"
  shows "de_width d \<le> de_luma_stride d" "de_width d div 2 \<le> de_chroma_stride d"
  using assms align8_ge by (simp_all add: geometry_ok_def)

lemma plane_row_fits:
  assumes "row < 16" "n \<le> s" "length xs = 16 * s"
  shows "row * s + n \<le> length xs" "n \<le> length (drop (row * s) xs)"
proof -
  have "row * s + s \<le> 16 * s" using assms(1) mult_le_mono1 [of "Suc row" 16 s] by (simp only: mult_Suc) linarith
  then show "row * s + n \<le> length xs" "n \<le> length (drop (row * s) xs)"
    using assms(2,3) by (simp_all only: length_drop)
qed

lemma place_source_ok:
  assumes g: "geometry_ok d" and src: "first \<le> source" "source < first + 16"
    and cols: "\<forall>c\<in>set (vp_columns p). c < de_width d"
    and cap: "length (vp_columns p) * 4 \<le> cap"
    and fits: "scratch_fits d cap sx" "scratch_fits d cap sy" and same: "same_planes sx sy"
  shows "\<exists>row placed. length row = de_width d * 4 \<and> length placed = length (vp_columns p) * 4
    \<and> place_source (de_width d) (de_luma_stride d) (de_chroma_stride d) first jb p source sx
        = Some (sx\<lparr>sx_source_row := row, sx_placed_row := placed @ drop (length (vp_columns p) * 4) (sx_placed_row sx)\<rparr>)
    \<and> place_source (de_width d) (de_luma_stride d) (de_chroma_stride d) first jb p source sy
        = Some (sy\<lparr>sx_source_row := row, sx_placed_row := placed @ drop (length (vp_columns p) * 4) (sx_placed_row sy)\<rparr>)"
proof -
  obtain n where n: "de_width d = 2 * n" using g by (auto simp: geometry_ok_def)
  define r where "r = source - first"
  have r: "r < 16" using src by (simp add: r_def)
  let ?l = "drop (r * de_luma_stride d) (sx_luma sx)" and ?b = "drop (r * de_chroma_stride d) (sx_blue sx)"
    and ?e = "drop (r * de_chroma_stride d) (sx_red sx)"
  define row where "row = concat (map (bgra_pair ?l ?b ?e (jb_coefficients jb)) [0..<n])"
  have len: "length row = de_width d * 4" using n by (simp add: row_def)
  have k: "de_width d \<le> length ?l" "de_width d div 2 \<le> length ?b" "de_width d div 2 \<le> length ?e"
    using fits(1) strides_ok [OF g] plane_row_fits(2) [OF r] unfolding scratch_fits_def by blast+
  have t: "r * de_luma_stride d \<le> length (sx_luma sx)" "r * de_chroma_stride d \<le> length (sx_blue sx)" "r * de_chroma_stride d \<le> length (sx_red sx)"
    using fits(1) r by (auto simp: scratch_fits_def)
  have kern: "bgra_row ?l ?b ?e (de_width d) out (jb_coefficients jb) = Some row" if "length out = de_width d * 4" for out
    using k n that by (simp add: bgra_row_def Let_def row_def)
  have "\<forall>c\<in>set (vp_columns p). c * 4 + 4 \<le> length row" using cols len by auto
  then obtain placed where pl: "gather row (vp_columns p) = Some placed" "length placed = length (vp_columns p) * 4"
    using gather_Some by blast
  have "place_source (de_width d) (de_luma_stride d) (de_chroma_stride d) first jb p source s
      = Some (s\<lparr>sx_source_row := row, sx_placed_row := placed @ drop (length (vp_columns p) * 4) (sx_placed_row s)\<rparr>)"
    if "same_planes sx s" "scratch_fits d cap s" for s
    using that cap src(1) t kern [of "sx_source_row s"] pl
    by (simp add: place_source_def Let_def tail_from_def same_planes_def scratch_fits_def flip: r_def)
  then show ?thesis using fits same len pl(2) by (auto simp: same_planes_def)
qed

text \<open>Reusing the row already gathered, or gathering the next.\<close>

lemma place_step:
  assumes g: "geometry_ok d" and cols: "\<forall>c\<in>set (vp_columns p). c < de_width d" and rb: "rb = length (vp_columns p) * 4" "rb \<le> cap"
    and src: "first \<le> source" "source < first + 16" "source \<noteq> USIZE_MAX"
    and sx: "scratch_fits d cap sx" "scratch_fits d cap sy" "same_planes sx sy"
    and conv: "converted = USIZE_MAX \<or> take rb (sx_placed_row sx) = take rb (sx_placed_row sy)"
  shows "\<exists>s1 s2. (if source \<noteq> converted then place_source (de_width d) (de_luma_stride d) (de_chroma_stride d) first jb p source sx else Some sx) = Some s1
    \<and> (if source \<noteq> converted then place_source (de_width d) (de_luma_stride d) (de_chroma_stride d) first jb p source sy else Some sy) = Some s2
    \<and> scratch_fits d cap s1 \<and> scratch_fits d cap s2 \<and> same_planes s1 s2 \<and> take rb (sx_placed_row s1) = take rb (sx_placed_row s2)"
proof (cases "source \<noteq> converted")
  case True
  obtain row placed where q: "length row = de_width d * 4" "length placed = rb"
    "place_source (de_width d) (de_luma_stride d) (de_chroma_stride d) first jb p source sx
      = Some (sx\<lparr>sx_source_row := row, sx_placed_row := placed @ drop rb (sx_placed_row sx)\<rparr>)"
    "place_source (de_width d) (de_luma_stride d) (de_chroma_stride d) first jb p source sy
      = Some (sy\<lparr>sx_source_row := row, sx_placed_row := placed @ drop rb (sx_placed_row sy)\<rparr>)"
    using place_source_ok [OF g src(1,2) cols rb(2) [unfolded rb(1)] sx, of jb] unfolding rb(1) by blast
  show ?thesis unfolding q(3,4) using True q(1,2) sx rb(2)
    by (simp add: scratch_fits_def same_planes_def)
next
  case False
  then show ?thesis using sx conv src(3) by auto
qed

lemma place_rows_writes:
  assumes g: "geometry_ok d" and cols: "\<forall>c\<in>set (vp_columns p). c < de_width d"
    and rb: "rb = length (vp_columns p) * 4" "rb \<le> cap"
  shows "view_agree A v w \<Longrightarrow> v \<noteq> None \<Longrightarrow> scratch_fits d cap sx \<Longrightarrow> scratch_fits d cap sy \<Longrightarrow> same_planes sx sy
    \<Longrightarrow> \<forall>(y, source)\<in>set rs. first \<le> source \<and> source < first + 16 \<and> source \<noteq> USIZE_MAX
          \<and> (vp_y p + y) * jb_stride jb + vp_x p * 4 + rb \<le> view_len v
    \<Longrightarrow> converted = USIZE_MAX \<or> take rb (sx_placed_row sx) = take rb (sx_placed_row sy)
    \<Longrightarrow> \<exists>sx' sy' v' w'.
      place_rows (de_width d) (de_luma_stride d) (de_chroma_stride d) first jb p rs converted sx v = Some (True, sx', v')
    \<and> place_rows (de_width d) (de_luma_stride d) (de_chroma_stride d) first jb p rs converted sy w = Some (True, sy', w')
    \<and> scratch_fits d cap sx' \<and> scratch_fits d cap sy'
    \<and> writes_view A (\<Union>(y, source)\<in>set rs. {(vp_y p + y) * jb_stride jb + vp_x p * 4..<(vp_y p + y) * jb_stride jb + vp_x p * 4 + rb}) v w v' w'"
proof (induction rs arbitrary: A v w sx sy converted)
  case Nil
  then show ?case by (simp add: writes_view_def)
next
  case (Cons e rs)
  obtain y source where e: "e = (y, source)" by fastforce
  let ?off = "(vp_y p + y) * jb_stride jb + vp_x p * 4"
  let ?C = "{?off..<?off + rb}"
  have src: "first \<le> source" "source < first + 16" "source \<noteq> USIZE_MAX" and fits: "?off + rb \<le> view_len v"
    using Cons.prems(6) e by auto
  have w: "w \<noteq> None" "view_len w = view_len v" using view_agree_len [OF Cons.prems(1)] Cons.prems(2) by auto
  let ?go = "\<lambda>s. if source \<noteq> converted then place_source (de_width d) (de_luma_stride d) (de_chroma_stride d) first jb p source s else Some s"
  obtain s1 s2 where s: "?go sx = Some s1" "?go sy = Some s2" "scratch_fits d cap s1" "scratch_fits d cap s2" "same_planes s1 s2"
    "take rb (sx_placed_row s1) = take rb (sx_placed_row s2)"
    using place_step [OF g cols rb src Cons.prems(3-5,7), of jb] by blast
  obtain o1 where o1: "out_row v ?off rb = Some o1" using out_row_Some [OF Cons.prems(2) fits] by blast
  obtain o2 where o2: "out_row w ?off rb = Some o2" using out_row_Some [OF w(1), of ?off rb] fits w(2) by auto
  let ?bytes = "take rb (sx_placed_row s1)"
  have lb: "rb \<le> length (sx_placed_row s1)" "rb \<le> length (sx_placed_row s2)" using s(3,4) rb(2) by (auto simp: scratch_fits_def)
  let ?v = "out_store v ?off ?bytes" and ?w = "out_store w ?off ?bytes"
  let ?P = "place_rows (de_width d) (de_luma_stride d) (de_chroma_stride d) first jb p"
  have step: "?P (e # rs) converted sx v = ?P rs source s1 ?v" "?P (e # rs) converted sy w = ?P rs source s2 ?w"
    by (simp_all only: e place_rows.simps Let_def rb(1) [symmetric] s(1) s(2) Option.bind.simps o1 o2 option.case lb if_True s(6))
  have st: "writes_view A ?C v w ?v ?w"
    using writes_view_store [OF Cons.prems(1,2), of ?off ?bytes] lb fits by (simp add: min_absorb2)
  have ag: "view_agree (A \<union> ?C) ?v ?w" using st by (simp add: writes_view_def)
  have rest: "\<forall>(y, source)\<in>set rs. first \<le> source \<and> source < first + 16 \<and> source \<noteq> USIZE_MAX
          \<and> (vp_y p + y) * jb_stride jb + vp_x p * 4 + rb \<le> view_len ?v"
    using Cons.prems(6) writes_view_len [OF st] by auto
  have nv: "?v \<noteq> None" using writes_view_len [OF st] Cons.prems(2) by auto
  from Cons.IH [OF ag nv s(3-5) rest, of source] s(6) obtain sx' sy' v' w' where
    r: "?P rs source s1 ?v = Some (True, sx', v')" "?P rs source s2 ?w = Some (True, sy', w')" "scratch_fits d cap sx'" "scratch_fits d cap sy'"
    "writes_view (A \<union> ?C) (\<Union>(y, source)\<in>set rs. {(vp_y p + y) * jb_stride jb + vp_x p * 4..<(vp_y p + y) * jb_stride jb + vp_x p * 4 + rb}) ?v ?w v' w'"
    by blast
  have "writes_view A (\<Union>(y, source)\<in>set (e # rs). {(vp_y p + y) * jb_stride jb + vp_x p * 4..<(vp_y p + y) * jb_stride jb + vp_x p * 4 + rb}) v w v' w'"
    using writes_view_trans [OF st r(5)] e by simp
  then show ?case using step r(1-4)
    by (intro exI [of _ sx'] exI [of _ sy'] exI [of _ v'] exI [of _ w']) (simp only: simp_thms)
qed


section \<open>The planes of a slice\<close>

lemma plane_pair:
  assumes "reader_ok ac" "length xs = 16 * stride" "length ys = 16 * stride"
  shows "\<exists>a dc' ac' d d'. decode_plane dc ac stride bias matrix s xs = Some (a, dc', ac', d)
    \<and> decode_plane dc ac stride bias matrix s ys = Some (a, dc', ac', d')
    \<and> length d = 16 * stride \<and> length d' = 16 * stride \<and> (a \<longrightarrow> d = d' \<and> reader_ok ac')"
proof -
  obtain a dc' ac' d d' where r: "decode_plane dc ac stride bias matrix s xs = Some (a, dc', ac', d)"
    "decode_plane dc ac stride bias matrix s ys = Some (a, dc', ac', d')" "length d = length xs"
    "a \<longrightarrow> take (16 * stride) d = take (16 * stride) d'"
    using decode_plane_total [OF assms(1), of ys xs dc stride bias matrix s] assms(2,3) by auto
  have l: "length d' = length ys" using decode_plane_total [OF assms(1), of xs ys dc stride bias matrix s] r(2) assms(2,3) by auto
  have "a \<longrightarrow> reader_ok ac'" using decode_plane_reader [OF assms(1), of dc stride bias matrix s xs dc' ac' d] r(1) by auto
  moreover have "a \<longrightarrow> d = d'" using r(3,4) l assms(2,3) by simp
  ultimately show ?thesis using r l assms(2,3) by simp
qed

lemma decode_planes_pair:
  assumes "scratch_fits d rb sx" "scratch_fits d rb sy"
  shows "\<exists>a sx' sy'. decode_planes d jb s sx = Some (a, sx') \<and> decode_planes d jb s sy = Some (a, sy')
    \<and> scratch_fits d rb sx' \<and> scratch_fits d rb sy' \<and> (a \<longrightarrow> same_planes sx' sy')"
proof -
  note f = assms [unfolded scratch_fits_def]
  obtain a dc ac l l' where l:
    "decode_plane (stream_reader (sl_dc s)) (stream_reader (sl_ac s)) (de_luma_stride d) 128 (jb_matrix jb) (jb_dc_shift jb) (sx_luma sx) = Some (a, dc, ac, l)"
    "decode_plane (stream_reader (sl_dc s)) (stream_reader (sl_ac s)) (de_luma_stride d) 128 (jb_matrix jb) (jb_dc_shift jb) (sx_luma sy) = Some (a, dc, ac, l')"
    "length l = 16 * de_luma_stride d" "length l' = 16 * de_luma_stride d" "a \<longrightarrow> l = l' \<and> reader_ok ac"
    using plane_pair [OF stream_reader_ok, of "sx_luma sx" "de_luma_stride d" "sx_luma sy"] f by blast
  show ?thesis
  proof (cases a)
    case False
    then show ?thesis using l f by (simp add: decode_planes_def scratch_fits_def) blast
  next
    case True
    obtain b dc1 ac1 u u' where u:
      "decode_plane dc ac (de_chroma_stride d) 0 (jb_matrix jb) (jb_dc_shift jb) (sx_blue sx) = Some (b, dc1, ac1, u)"
      "decode_plane dc ac (de_chroma_stride d) 0 (jb_matrix jb) (jb_dc_shift jb) (sx_blue sy) = Some (b, dc1, ac1, u')"
      "length u = 16 * de_chroma_stride d" "length u' = 16 * de_chroma_stride d" "b \<longrightarrow> u = u' \<and> reader_ok ac1"
      using plane_pair [of ac "sx_blue sx" "de_chroma_stride d" "sx_blue sy"] f l(5) True by blast
    show ?thesis
    proof (cases b)
      case False
      then show ?thesis using l u f True by (simp add: decode_planes_def scratch_fits_def) blast
    next
      case b: True
      obtain c dc2 ac2 v v' where v:
        "decode_plane dc1 ac1 (de_chroma_stride d) 0 (jb_matrix jb) (jb_dc_shift jb) (sx_red sx) = Some (c, dc2, ac2, v)"
        "decode_plane dc1 ac1 (de_chroma_stride d) 0 (jb_matrix jb) (jb_dc_shift jb) (sx_red sy) = Some (c, dc2, ac2, v')"
        "length v = 16 * de_chroma_stride d" "length v' = 16 * de_chroma_stride d" "c \<longrightarrow> v = v' \<and> reader_ok ac2"
        using plane_pair [of ac1 "sx_red sx" "de_chroma_stride d" "sx_red sy"] f u(5) b by blast
      show ?thesis using l u v f True b by (simp add: decode_planes_def scratch_fits_def same_planes_def)
    qed
  qed
qed


section \<open>Frames\<close>

fun out_view :: "nat \<Rightarrow> outs \<Rightarrow> u8 list option" where
  "out_view k (output, p0, p1, p2) = (if k = 0 then output else if k = 1 then p0 else if k = 2 then p1 else if k = 3 then p2 else None)"

fun look :: "outs \<Rightarrow> nat \<times> nat \<Rightarrow> u8" where
  "look v (k, n) = (case out_view k v of None \<Rightarrow> 0 | Some b \<Rightarrow> if n < length b then b ! n else 0)"

definition same_shape :: "outs \<Rightarrow> outs \<Rightarrow> bool" where
  "same_shape v w \<longleftrightarrow> (\<forall>k. view_agree {} (out_view k v) (out_view k w))"

text \<open>A decode stores the same bytes at the cells \<open>C\<close> of two outputs, and nothing elsewhere.\<close>

definition writes_outs :: "(nat \<times> nat) set \<Rightarrow> outs \<Rightarrow> outs \<Rightarrow> outs \<Rightarrow> outs \<Rightarrow> bool" where
  "writes_outs C v w v' w' \<longleftrightarrow>
     (\<forall>k. writes_view {} {n. (k, n) \<in> C} (out_view k v) (out_view k w) (out_view k v') (out_view k w'))"

lemma view_agree_look:
  "view_agree A (out_view k v) (out_view k w) \<Longrightarrow> n \<in> A \<Longrightarrow> look v (k, n) = look w (k, n)"
  by (auto simp: view_agree_def agree_on_def split: option.splits)

lemma writes_outs_look:
  assumes "writes_outs C v w v' w'"
  shows "c \<in> C \<Longrightarrow> look v' c = look w' c" "c \<notin> C \<Longrightarrow> look v' c = look v c" "same_shape v' v"
proof -
  obtain k n where c: "c = (k, n)" by fastforce
  note w = assms [unfolded writes_outs_def writes_view_def, rule_format, of k]
  show "look v' c = look w' c" if "c \<in> C" using w that c view_agree_look by blast
  show "look v' c = look v c" if "c \<notin> C" using w that c view_agree_look by blast
  show "same_shape v' v"
    using assms by (auto simp: writes_outs_def writes_view_def same_shape_def intro: view_agree_mono)
qed

lemma look_ext:
  assumes "same_shape v w" "\<And>c. look v c = look w c"
  shows "v = w"
proof -
  have "out_view k v = out_view k w" for k
    using assms(1) [unfolded same_shape_def, rule_format, of k] assms(2) [of "(k, n)" for n]
    by (auto simp: view_agree_def agree_on_def intro!: nth_equalityI split: option.splits if_splits) metis
  from this [of 0] this [of 1] this [of 2] this [of 3] show ?thesis by (cases v, cases w) simp
qed

text \<open>The request a frame is run with, once its checks have passed. \<open>placed_before\<close> counts the rows of a
  placement whose source lies above a slice.\<close>

definition placed_before :: "nat list \<Rightarrow> nat \<Rightarrow> nat" where
  "placed_before rows i = length (takeWhile (\<lambda>r. r < i * SLICE_HEIGHT) rows)"

definition view_holds :: "decoder \<Rightarrow> nat \<Rightarrow> nat \<Rightarrow> u8 list option \<Rightarrow> bool" where
  "view_holds d stride n view \<longleftrightarrow> view \<noteq> None \<and> n \<le> stride \<and> stride * de_height d \<le> view_len view"

definition placement_fits :: "decoder \<Rightarrow> job \<Rightarrow> vmx_placement \<Rightarrow> u8 list option \<Rightarrow> bool" where
  "placement_fits d jb p view \<longleftrightarrow>
     view \<noteq> None \<and> vp_rows p \<noteq> [] \<and> (\<forall>c\<in>set (vp_columns p). c < de_width d) \<and> (\<forall>r\<in>set (vp_rows p). r < de_height d)
     \<and> sorted (vp_rows p)
     \<and> (vp_x p + length (vp_columns p)) * 4 \<le> jb_stride jb
     \<and> (vp_y p + (length (vp_rows p) - 1)) * jb_stride jb + (vp_x p + length (vp_columns p)) * 4 \<le> view_len view
     \<and> (\<forall>i < length (de_slices d). sl_placed (de_slices d ! i) = (placed_before (vp_rows p) i, placed_before (vp_rows p) (Suc i)))"

definition plane_width :: "decoder \<Rightarrow> nat \<Rightarrow> nat" where
  "plane_width d k = (if k = 0 then de_width d else de_width d div 2)"

type_synonym vmx_frame = "decoder \<times> job \<times> outs"

fun frame_ok :: "vmx_frame \<Rightarrow> bool" where
  "frame_ok (d, jb, outs) \<longleftrightarrow> geometry_ok d \<and>
     (case jb_placement jb of
        Some p \<Rightarrow> placement_fits d jb p (out_view 0 outs)
      | None \<Rightarrow>
          if jb_pixels jb = Yuv422p
          then \<forall>k < 3. view_holds d (jb_plane_strides jb ! k) (plane_width d k) (out_view (Suc k) outs)
          else view_holds d (jb_stride jb) (row_width jb (de_width d)) (out_view 0 outs))"

fun frame_row_bytes :: "vmx_frame \<Rightarrow> nat" where
  "frame_row_bytes (d, jb, outs) = (case jb_placement jb of None \<Rightarrow> 0 | Some p \<Rightarrow> length (vp_columns p) * 4)"

definition placed_span :: "job \<Rightarrow> vmx_placement \<Rightarrow> nat \<Rightarrow> nat set" where
  "placed_span jb p y = {(vp_y p + y) * jb_stride jb + vp_x p * 4..<(vp_y p + y) * jb_stride jb + vp_x p * 4 + length (vp_columns p) * 4}"

text \<open>The bytes a slice owns.\<close>

fun slice_cells :: "vmx_frame \<Rightarrow> nat \<Rightarrow> (nat \<times> nat) set" where
  "slice_cells (d, jb, outs) i =
     (case jb_placement jb of
        Some p \<Rightarrow> {0} \<times> (\<Union>y\<in>{placed_before (vp_rows p) i..<placed_before (vp_rows p) (Suc i)}. placed_span jb p y)
      | None \<Rightarrow>
          if jb_pixels jb = Yuv422p
          then \<Union>k\<in>{..<3}. {Suc k} \<times> (\<Union>row\<in>{..<sl_rows (de_slices d ! i)}. row_span (jb_plane_strides jb ! k) (plane_width d k) (i * SLICE_HEIGHT + row))
          else {0} \<times> (\<Union>row\<in>{..<sl_rows (de_slices d ! i)}. row_span (jb_stride jb) (row_width jb (de_width d)) (i * SLICE_HEIGHT + row)))"


text \<open>A placed row belongs to the slice its source row lies in.\<close>

lemma placed_before_source:
  assumes "sorted rows" "placed_before rows i \<le> y" "y < placed_before rows (Suc i)"
  shows "y < length rows" "i * 16 \<le> rows ! y" "rows ! y < i * 16 + 16"
proof -
  have y: "y < length (takeWhile (\<lambda>r. r < Suc i * SLICE_HEIGHT) rows)" using assms(3) by (simp add: placed_before_def)
  then show len: "y < length rows" using length_takeWhile_le less_le_trans by blast
  have "takeWhile (\<lambda>r. r < Suc i * SLICE_HEIGHT) rows ! y \<in> set (takeWhile (\<lambda>r. r < Suc i * SLICE_HEIGHT) rows)"
    using y by (rule nth_mem)
  then show "rows ! y < i * 16 + 16" using set_takeWhileD takeWhile_nth [OF y] by fastforce
  have a: "placed_before rows i < length rows" using assms(2) len by simp
  then have "\<not> rows ! placed_before rows i < i * SLICE_HEIGHT"
    unfolding placed_before_def by (rule nth_length_takeWhile)
  moreover have "rows ! placed_before rows i \<le> rows ! y" using sorted_nth_mono [OF assms(1,2) len] .
  ultimately show "i * 16 \<le> rows ! y" by simp
qed

lemma set_placed_rows:
  "set (drop a (take b (List.enumerate 0 rows))) = (\<lambda>y. (y, rows ! y)) ` {y. a \<le> y \<and> y < b \<and> y < length rows}"
proof -
  have l: "length (drop a (take b (List.enumerate 0 rows))) = min b (length rows) - a" by (simp add: min.commute)
  have n: "drop a (take b (List.enumerate 0 rows)) ! k = (a + k, rows ! (a + k))" if "k < min b (length rows) - a" for k
    using that by (subst nth_drop) (auto simp: nth_enumerate_eq)
  show ?thesis
  proof (intro set_eqI iffI)
    fix e assume "e \<in> set (drop a (take b (List.enumerate 0 rows)))"
    then obtain k where "k < min b (length rows) - a" "e = (a + k, rows ! (a + k))" using l n by (metis in_set_conv_nth)
    then show "e \<in> (\<lambda>y. (y, rows ! y)) ` {y. a \<le> y \<and> y < b \<and> y < length rows}" by auto
  next
    fix e assume "e \<in> (\<lambda>y. (y, rows ! y)) ` {y. a \<le> y \<and> y < b \<and> y < length rows}"
    then obtain y where y: "e = (y, rows ! y)" "a \<le> y" "y < b" "y < length rows" by auto
    then have "y - a < min b (length rows) - a" by simp
    from nth_mem [OF this [folded l]] n [OF this] y show "e \<in> set (drop a (take b (List.enumerate 0 rows)))" by simp
  qed
qed

lemma placed_before_mono: "i \<le> k \<Longrightarrow> placed_before rows i \<le> placed_before rows k"
proof (induction rows)
  case (Cons r rows)
  then have "r < i * 16 \<Longrightarrow> r < k * 16" by linarith
  then show ?case using Cons by (simp add: placed_before_def)
qed (simp add: placed_before_def)

text \<open>Rows of different slices do not overlap.\<close>

lemma span_disjoint:
  fixes r r' :: nat
  assumes "r \<noteq> r'" "a + n \<le> stride"
  shows "{r * stride + a..<r * stride + a + n} \<inter> {r' * stride + a..<r' * stride + a + n} = {}"
proof -
  have "q * stride + a + n \<le> q' * stride" if "q < q'" for q q' :: nat
  proof -
    have "Suc q * stride \<le> q' * stride" using that by (intro mult_le_mono1) simp
    then show ?thesis using assms(2) by simp
  qed
  then have "q * stride + a + n \<le> q' * stride + a" if "q < q'" for q q' :: nat using that trans_le_add1 by blast
  from this [of r r'] this [of r' r] show ?thesis using assms(1) by (cases r r' rule: linorder_cases) auto
qed

lemma row_span_disjoint: "r \<noteq> r' \<Longrightarrow> n \<le> stride \<Longrightarrow> row_span stride n r \<inter> row_span stride n r' = {}"
  using span_disjoint [of r r' 0 n stride] by (simp add: row_span_def)

lemma slice_rows_differ:
  assumes "geometry_ok d" "i < length (de_slices d)" "row < sl_rows (de_slices d ! i)"
  shows "row < 16" "i * 16 + row < de_height d"
  using assms by (auto simp: geometry_ok_def)

lemma band_disjoint:
  assumes g: "geometry_ok d" and i: "i < length (de_slices d)" and k: "k < length (de_slices d)" and ne: "i \<noteq> k" and n: "n \<le> stride"
  shows "(\<Union>row\<in>{..<sl_rows (de_slices d ! i)}. row_span stride n (i * 16 + row))
    \<inter> (\<Union>row\<in>{..<sl_rows (de_slices d ! k)}. row_span stride n (k * 16 + row)) = {}"
proof -
  have "row_span stride n (i * 16 + a) \<inter> row_span stride n (k * 16 + b) = {}"
    if "a < sl_rows (de_slices d ! i)" "b < sl_rows (de_slices d ! k)" for a b
    using slice_rows_differ(1) [OF g i that(1)] slice_rows_differ(1) [OF g k that(2)] ne n
    by (intro row_span_disjoint) auto
  then show ?thesis by blast
qed

lemma slice_cells_disjoint:
  assumes "frame_ok j" "i < length (de_slices (fst j))" "k < length (de_slices (fst j))" "i \<noteq> k"
  shows "slice_cells j i \<inter> slice_cells j k = {}"
proof -
  obtain d jb outs where j: "j = (d, jb, outs)" by (cases j)
  have g: "geometry_ok d" and i: "i < length (de_slices d)" and k: "k < length (de_slices d)" using assms j by auto
  note band = band_disjoint [OF g i k assms(4)]
  show ?thesis
  proof (cases "jb_placement jb")
    case None
    show ?thesis
    proof (cases "jb_pixels jb = Yuv422p")
      case True
      then have "plane_width d m \<le> jb_plane_strides jb ! m" if "m < 3" for m
        using assms(1) j None that by (auto simp: view_holds_def)
      then have "(\<Union>row\<in>{..<sl_rows (de_slices d ! i)}. row_span (jb_plane_strides jb ! m) (plane_width d m) (i * 16 + row))
        \<inter> (\<Union>row\<in>{..<sl_rows (de_slices d ! k)}. row_span (jb_plane_strides jb ! m) (plane_width d m) (k * 16 + row)) = {}" if "m < 3" for m
        using band that by blast
      then show ?thesis unfolding j slice_cells.simps None option.case True simp_thms if_True by blast
    next
      case False
      then have "row_width jb (de_width d) \<le> jb_stride jb" using assms(1) j None by (auto simp: view_holds_def)
      from band [OF this] show ?thesis using False unfolding j slice_cells.simps None option.case by auto
    qed
  next
    case (Some p)
    then have p: "placement_fits d jb p (out_view 0 outs)" using assms(1) j by simp
    have ne: "y \<noteq> z" if "y \<in> {placed_before (vp_rows p) i..<placed_before (vp_rows p) (Suc i)}"
      "z \<in> {placed_before (vp_rows p) k..<placed_before (vp_rows p) (Suc k)}" for y z
      using that placed_before_source(2,3) [of "vp_rows p" i y] placed_before_source(2,3) [of "vp_rows p" k z] p assms(4)
      by (auto simp: placement_fits_def)
    have "vp_x p * 4 + length (vp_columns p) * 4 \<le> jb_stride jb" using p by (simp add: placement_fits_def algebra_simps)
    then have "placed_span jb p y \<inter> placed_span jb p z = {}" if "y \<noteq> z" for y z
      unfolding placed_span_def using that by (intro span_disjoint) simp_all
    then show ?thesis using ne unfolding j slice_cells.simps Some option.case by blast
  qed
qed


section \<open>One slice\<close>

lemma same_shape_pair:
  assumes "same_shape v outs" "same_shape w outs"
  shows "view_agree {} (out_view k v) (out_view k w)" "view_len (out_view k v) = view_len (out_view k outs)"
    "out_view k v = None \<longleftrightarrow> out_view k outs = None"
  using assms [unfolded same_shape_def, rule_format, of k]
  by (cases "out_view k v"; cases "out_view k w"; cases "out_view k outs"; simp add: view_agree_def agree_on_def view_len_def)+

lemma row_in_view:
  assumes "view_holds d stride n view" "r < de_height d"
  shows "r * stride + n \<le> view_len view"
proof -
  have "Suc r * stride \<le> stride * de_height d" using assms(2) by (metis Suc_leI mult.commute mult_le_mono2)
  then show ?thesis using assms(1) by (simp add: view_holds_def)
qed

lemma packed_slice:
  assumes j: "frame_ok (d, jb, outs)" "jb_placement jb = None" "jb_pixels jb \<noteq> Yuv422p" and i: "i < length (de_slices d)"
    and s: "scratch_fits d rb sx" "scratch_fits d rb sy" "same_planes sx sy" and v: "same_shape v outs" "same_shape w outs"
    and bd: "bd = \<lparr>bd_first_row = i * SLICE_HEIGHT, bd_rows = sl_rows (de_slices d ! i), bd_width = de_width d\<rparr>"
  shows "\<exists>v0 w0. convert_band (sx_luma sx) (sx_blue sx) (sx_red sx) (de_luma_stride d) (de_chroma_stride d) jb bd (out_view 0 v) = Some (True, v0)
    \<and> convert_band (sx_luma sy) (sx_blue sy) (sx_red sy) (de_luma_stride d) (de_chroma_stride d) jb bd (out_view 0 w) = Some (True, w0)
    \<and> writes_view {} {n. (0, n) \<in> slice_cells (d, jb, outs) i} (out_view 0 v) (out_view 0 w) v0 w0"
proof -
  have g: "geometry_ok d" and h: "view_holds d (jb_stride jb) (row_width jb (de_width d)) (out_view 0 outs)" using j by simp_all
  note w = same_shape_pair [OF v, of 0]
  have ne: "out_view 0 v \<noteq> None" using w(3) h by (simp add: view_holds_def)
  have ev: "even (bd_width bd)" using g bd by (simp add: geometry_ok_def)
  have rows: "\<forall>row\<in>set [0..<bd_rows bd]. (bd_first_row bd + row) * jb_stride jb + row_width jb (bd_width bd) \<le> view_len (out_view 0 v)"
    using row_in_view [OF h slice_rows_differ(2) [OF g i]] w(2) bd by simp
  have fits: "\<forall>row\<in>set [0..<bd_rows bd]. row * de_luma_stride d + bd_width bd \<le> length (sx_luma sx)
      \<and> row * de_chroma_stride d + bd_width bd div 2 \<le> length (sx_blue sx) \<and> row * de_chroma_stride d + bd_width bd div 2 \<le> length (sx_red sx)"
  proof (intro ballI conjI)
    fix row assume "row \<in> set [0..<bd_rows bd]"
    then have "row < 16" using slice_rows_differ(1) [OF g i] bd by simp
    then show "row * de_luma_stride d + bd_width bd \<le> length (sx_luma sx)" "row * de_chroma_stride d + bd_width bd div 2 \<le> length (sx_blue sx)"
      "row * de_chroma_stride d + bd_width bd div 2 \<le> length (sx_red sx)"
      using s(1) strides_ok [OF g] plane_row_fits(1) [of row] unfolding bd band.select_convs scratch_fits_def by blast+
  qed
  have "{n. (0, n) \<in> slice_cells (d, jb, outs) i} = (\<Union>row\<in>set [0..<bd_rows bd]. row_span (jb_stride jb) (row_width jb (bd_width bd)) (bd_first_row bd + row))"
    using j(2,3) bd by auto
  then show ?thesis using convert_rows_writes [OF w(1) ne ev rows fits] s(3) by (simp add: convert_band_def same_planes_def)
qed

lemma plane_slice:
  assumes j: "frame_ok (d, jb, outs)" "jb_placement jb = None" "jb_pixels jb = Yuv422p" and i: "i < length (de_slices d)"
    and k: "k < 3" and s: "length source = 16 * ss" "plane_width d k \<le> ss" and v: "same_shape v outs" "same_shape w outs"
    and bd: "bd = \<lparr>bd_first_row = i * SLICE_HEIGHT, bd_rows = sl_rows (de_slices d ! i), bd_width = plane_width d k\<rparr>"
  shows "\<exists>v0 w0. copy_band source ss (out_view (Suc k) v) (jb_plane_strides jb ! k) bd = Some (True, v0)
    \<and> copy_band source ss (out_view (Suc k) w) (jb_plane_strides jb ! k) bd = Some (True, w0)
    \<and> writes_view {} {n. (Suc k, n) \<in> slice_cells (d, jb, outs) i} (out_view (Suc k) v) (out_view (Suc k) w) v0 w0"
proof -
  have g: "geometry_ok d" and h: "view_holds d (jb_plane_strides jb ! k) (plane_width d k) (out_view (Suc k) outs)" using j k by simp_all
  note w = same_shape_pair [OF v, of "Suc k"]
  have ne: "out_view (Suc k) v \<noteq> None" using w(3) h by (simp add: view_holds_def)
  have pos: "0 < bd_rows bd" using g i bd by (auto simp: geometry_ok_def div_ceil_def split: if_splits)
  have rows: "\<forall>row<bd_rows bd. (bd_first_row bd + row) * (jb_plane_strides jb ! k) + bd_width bd \<le> view_len (out_view (Suc k) v)"
    using row_in_view [OF h slice_rows_differ(2) [OF g i]] w(2) bd by simp
  have fits: "\<forall>row<bd_rows bd. row * ss + bd_width bd \<le> length source"
    using plane_row_fits(1) [OF _ s(2,1)] slice_rows_differ(1) [OF g i] bd by simp
  have "{n. (Suc k, n) \<in> slice_cells (d, jb, outs) i} = (\<Union>row\<in>set [0..<bd_rows bd]. row_span (jb_plane_strides jb ! k) (bd_width bd) (bd_first_row bd + row))"
    using j(2,3) bd k by auto
  then show ?thesis using copy_band_writes [OF w(1) ne pos rows fits] by simp
qed

lemma placed_slice:
  assumes j: "frame_ok (d, jb, outs)" "jb_placement jb = Some p" and i: "i < length (de_slices d)"
    and s: "scratch_fits d cap sx" "scratch_fits d cap sy" "same_planes sx sy" and v: "same_shape v outs" "same_shape w outs"
    and rb: "rb = length (vp_columns p) * 4" "rb \<le> cap"
    and rs: "rs = drop (fst (sl_placed (de_slices d ! i))) (take (snd (sl_placed (de_slices d ! i))) (List.enumerate 0 (vp_rows p)))"
  shows "\<exists>sx' sy' v0 w0.
      place_rows (de_width d) (de_luma_stride d) (de_chroma_stride d) (i * SLICE_HEIGHT) jb p rs USIZE_MAX sx (out_view 0 v) = Some (True, sx', v0)
    \<and> place_rows (de_width d) (de_luma_stride d) (de_chroma_stride d) (i * SLICE_HEIGHT) jb p rs USIZE_MAX sy (out_view 0 w) = Some (True, sy', w0)
    \<and> scratch_fits d cap sx' \<and> scratch_fits d cap sy'
    \<and> writes_view {} {n. (0, n) \<in> slice_cells (d, jb, outs) i} (out_view 0 v) (out_view 0 w) v0 w0"
proof -
  have g: "geometry_ok d" and p: "placement_fits d jb p (out_view 0 outs)" using j by simp_all
  note w = same_shape_pair [OF v, of 0]
  have ne: "out_view 0 v \<noteq> None" using w(3) p by (simp add: placement_fits_def)
  let ?I = "{placed_before (vp_rows p) i..<placed_before (vp_rows p) (Suc i)}"
  have len: "y < length (vp_rows p)" "i * 16 \<le> vp_rows p ! y" "vp_rows p ! y < i * 16 + 16" if "y \<in> ?I" for y
    using placed_before_source [of "vp_rows p" i y] that p by (auto simp: placement_fits_def)
  have set: "set rs = (\<lambda>y. (y, vp_rows p ! y)) ` ?I"
    using p i len(1) unfolding rs set_placed_rows by (auto simp: placement_fits_def)
  have src: "vp_rows p ! y \<noteq> USIZE_MAX" if "y \<in> ?I" for y
  proof -
    have "vp_rows p ! y < de_height d" using p len(1) [OF that] by (simp add: placement_fits_def)
    then show ?thesis using g by (simp add: geometry_ok_def)
  qed
  have fits: "(vp_y p + y) * jb_stride jb + vp_x p * 4 + rb \<le> view_len (out_view 0 v)" if "y \<in> ?I" for y
  proof -
    have "(vp_y p + y) * jb_stride jb \<le> (vp_y p + (length (vp_rows p) - 1)) * jb_stride jb"
      using len(1) [OF that] by (intro mult_le_mono1) simp
    moreover have "(vp_y p + (length (vp_rows p) - 1)) * jb_stride jb + (vp_x p + length (vp_columns p)) * 4 \<le> view_len (out_view 0 outs)"
      using p by (simp add: placement_fits_def)
    ultimately show ?thesis using w(2) rb unfolding add_mult_distrib [of "vp_x p"] by linarith
  qed
  have "{n. (0, n) \<in> slice_cells (d, jb, outs) i} = (\<Union>(y, source)\<in>set rs.
      {(vp_y p + y) * jb_stride jb + vp_x p * 4..<(vp_y p + y) * jb_stride jb + vp_x p * 4 + rb})"
    using j(2) rb by (auto simp: set placed_span_def)
  moreover have "\<forall>(y, source)\<in>set rs. i * SLICE_HEIGHT \<le> source \<and> source < i * SLICE_HEIGHT + 16 \<and> source \<noteq> USIZE_MAX
          \<and> (vp_y p + y) * jb_stride jb + vp_x p * 4 + rb \<le> view_len (out_view 0 v)"
    unfolding set using len src fits by auto
  moreover have "\<forall>c\<in>set (vp_columns p). c < de_width d" using p by (simp add: placement_fits_def)
  ultimately show ?thesis using place_rows_writes [OF g _ rb w(1) ne s, of rs "i * SLICE_HEIGHT" jb USIZE_MAX] by simp
qed


lemma writes_outs_one:
  assumes "writes_view {} {n. (0, n) \<in> C} (out_view 0 v) (out_view 0 w) v0 w0" "\<forall>(k, n)\<in>C. k = 0" "same_shape v outs" "same_shape w outs"
    "v = (a, p)" "w = (b, q)"
  shows "writes_outs C v w (v0, p) (w0, q)"
proof -
  have "writes_view {} {n. (k, n) \<in> C} (out_view k v) (out_view k w) (out_view k (v0, p)) (out_view k (w0, q))" if "k \<noteq> 0" for k
  proof -
    have c: "{n. (k, n) \<in> C} = {}" using assms(2) that by auto
    have "out_view k (v0, p) = out_view k v" "out_view k (w0, q) = out_view k w" using that assms(5,6) by (cases p, cases q, simp)+
    then show ?thesis using same_shape_pair(1) [OF assms(3,4), of k] c by (simp add: writes_view_def)
  qed
  moreover have "out_view 0 (v0, p) = v0" "out_view 0 (w0, q) = w0" by (cases p, simp) (cases q, simp)
  ultimately show ?thesis using assms(1) unfolding writes_outs_def by metis
qed

lemma decode_slice_pair:
  assumes j: "frame_ok (d, jb, outs)" and i: "i < length (de_slices d)" and rb: "frame_row_bytes (d, jb, outs) \<le> cap"
    and s: "scratch_fits d cap sx" "scratch_fits d cap sy" and v: "same_shape v outs" "same_shape w outs"
  shows "\<exists>a sx' sy' v' w'. decode_slice d jb i sx v = Some (a, sx', v') \<and> decode_slice d jb i sy w = Some (a, sy', w')
    \<and> scratch_fits d cap sx' \<and> scratch_fits d cap sy' \<and> (if a then writes_outs (slice_cells (d, jb, outs) i) v w v' w' else v' = v \<and> w' = w)"
proof -
  let ?s = "de_slices d ! i"
  let ?C = "slice_cells (d, jb, outs) i"
  obtain v0 v1 v2 v3 where vv: "v = (v0, v1, v2, v3)" by (cases v)
  obtain w0 w1 w2 w3 where ww: "w = (w0, w1, w2, w3)" by (cases w)
  obtain a sx1 sy1 where p: "decode_planes d jb ?s sx = Some (a, sx1)" "decode_planes d jb ?s sy = Some (a, sy1)"
    "scratch_fits d cap sx1" "scratch_fits d cap sy1" "a \<longrightarrow> same_planes sx1 sy1"
    using decode_planes_pair [OF s] by blast
  consider "\<not> a" | (placed) q where "a" "jb_placement jb = Some q" | (planar) "a" "jb_placement jb = None" "jb_pixels jb = Yuv422p"
    | (packed) "a" "jb_placement jb = None" "jb_pixels jb \<noteq> Yuv422p" by (cases a; cases "jb_placement jb") auto
  then show ?thesis
  proof cases
    case 1
    then show ?thesis using p vv ww by (intro exI [of _ False] exI [of _ sx1] exI [of _ sy1]) (simp add: decode_slice_def Let_def)
  next
    case placed
    have sp: "same_planes sx1 sy1" using p(5) placed by blast
    have "length (vp_columns q) * 4 \<le> cap" using rb placed by simp
    from placed_slice [OF j placed(2) i p(3,4) sp v refl this refl] obtain sx2 sy2 x y where
      r: "place_rows (de_width d) (de_luma_stride d) (de_chroma_stride d) (i * SLICE_HEIGHT) jb q
          (drop (fst (sl_placed ?s)) (take (snd (sl_placed ?s)) (List.enumerate 0 (vp_rows q)))) USIZE_MAX sx1 (out_view 0 v) = Some (True, sx2, x)"
      "place_rows (de_width d) (de_luma_stride d) (de_chroma_stride d) (i * SLICE_HEIGHT) jb q
          (drop (fst (sl_placed ?s)) (take (snd (sl_placed ?s)) (List.enumerate 0 (vp_rows q)))) USIZE_MAX sy1 (out_view 0 w) = Some (True, sy2, y)"
      "scratch_fits d cap sx2" "scratch_fits d cap sy2" "writes_view {} {n. (0, n) \<in> ?C} (out_view 0 v) (out_view 0 w) x y"
      by blast
    have "writes_outs ?C v w (x, v1, v2, v3) (y, w1, w2, w3)"
      by (rule writes_outs_one [OF r(5) _ v vv ww]) (use placed in auto)
    then show ?thesis using p r placed vv ww
      by (intro exI [of _ True] exI [of _ sx2] exI [of _ sy2]) (simp add: decode_slice_def Let_def)
  next
    case packed
    have sp: "same_planes sx1 sy1" using p(5) packed by blast
    from packed_slice [OF j packed(2,3) i p(3,4) sp v refl] obtain x y where
      r: "convert_band (sx_luma sx1) (sx_blue sx1) (sx_red sx1) (de_luma_stride d) (de_chroma_stride d) jb
          \<lparr>bd_first_row = i * SLICE_HEIGHT, bd_rows = sl_rows ?s, bd_width = de_width d\<rparr> (out_view 0 v) = Some (True, x)"
      "convert_band (sx_luma sy1) (sx_blue sy1) (sx_red sy1) (de_luma_stride d) (de_chroma_stride d) jb
          \<lparr>bd_first_row = i * SLICE_HEIGHT, bd_rows = sl_rows ?s, bd_width = de_width d\<rparr> (out_view 0 w) = Some (True, y)"
      "writes_view {} {n. (0, n) \<in> ?C} (out_view 0 v) (out_view 0 w) x y" by blast
    have "writes_outs ?C v w (x, v1, v2, v3) (y, w1, w2, w3)"
      by (rule writes_outs_one [OF r(3) _ v vv ww]) (use packed in auto)
    then show ?thesis using p r packed vv ww
      by (intro exI [of _ True] exI [of _ sx1] exI [of _ sy1]) (simp add: decode_slice_def Let_def)
  next
    case planar
    have sp: "sx_luma sx1 = sx_luma sy1" "sx_blue sx1 = sx_blue sy1" "sx_red sx1 = sx_red sy1"
      using p(5) planar by (simp_all add: same_planes_def)
    have len: "length (sx_luma sy1) = 16 * de_luma_stride d" "length (sx_blue sy1) = 16 * de_chroma_stride d" "length (sx_red sy1) = 16 * de_chroma_stride d"
      using p(4) by (simp_all add: scratch_fits_def)
    have g: "geometry_ok d" using j by simp
    have wd: "plane_width d 0 \<le> de_luma_stride d" "plane_width d 1 \<le> de_chroma_stride d" "plane_width d 2 \<le> de_chroma_stride d"
      using strides_ok [OF g] by (simp_all add: plane_width_def)
    let ?b = "\<lambda>n. \<lparr>bd_first_row = i * SLICE_HEIGHT, bd_rows = sl_rows ?s, bd_width = plane_width d n\<rparr>"
    obtain x0 y0 where r0: "copy_band (sx_luma sy1) (de_luma_stride d) (out_view 1 v) (jb_plane_strides jb ! 0) (?b 0) = Some (True, x0)"
      "copy_band (sx_luma sy1) (de_luma_stride d) (out_view 1 w) (jb_plane_strides jb ! 0) (?b 0) = Some (True, y0)"
      "writes_view {} {n. (1, n) \<in> ?C} (out_view 1 v) (out_view 1 w) x0 y0"
      using plane_slice [OF j planar(2,3) i _ len(1) wd(1) v refl] by auto
    obtain x1 y1 where r1: "copy_band (sx_blue sy1) (de_chroma_stride d) (out_view 2 v) (jb_plane_strides jb ! 1) (?b 1) = Some (True, x1)"
      "copy_band (sx_blue sy1) (de_chroma_stride d) (out_view 2 w) (jb_plane_strides jb ! 1) (?b 1) = Some (True, y1)"
      "writes_view {} {n. (2, n) \<in> ?C} (out_view 2 v) (out_view 2 w) x1 y1"
      using plane_slice [OF j planar(2,3) i _ len(2) wd(2) v refl] unfolding numeral_2_eq_2 One_nat_def by auto
    obtain x2 y2 where r2: "copy_band (sx_red sy1) (de_chroma_stride d) (out_view 3 v) (jb_plane_strides jb ! 2) (?b 2) = Some (True, x2)"
      "copy_band (sx_red sy1) (de_chroma_stride d) (out_view 3 w) (jb_plane_strides jb ! 2) (?b 2) = Some (True, y2)"
      "writes_view {} {n. (3, n) \<in> ?C} (out_view 3 v) (out_view 3 w) x2 y2"
      using plane_slice [OF j planar(2,3) i _ len(3) wd(3) v refl] unfolding numeral_3_eq_3 numeral_2_eq_2 by auto
    have "writes_view {} {n. (k, n) \<in> ?C} (out_view k v) (out_view k w) (out_view k (v0, x0, x1, x2)) (out_view k (w0, y0, y1, y2))" for k
    proof -
      have z: "writes_view {} {n. (k, n) \<in> ?C} (out_view k v) (out_view k w) (out_view k v) (out_view k w)" if "k = 0 \<or> 3 < k"
      proof -
        have "{n. (k, n) \<in> ?C} = {}" using that planar by auto
        then show ?thesis using same_shape_pair(1) [OF v, of k] by (simp add: writes_view_def)
      qed
      consider "k = 0" | "k = 1" | "k = 2" | "k = 3" | "3 < k" by linarith
      then show ?thesis using z r0(3) r1(3) r2(3) vv ww by cases auto
    qed
    then have "writes_outs ?C v w (v0, x0, x1, x2) (w0, y0, y1, y2)" unfolding writes_outs_def by blast
    then show ?thesis using p r0(1,2) r1(1,2) r2(1,2) planar vv ww sp
      by (intro exI [of _ True] exI [of _ sx1] exI [of _ sy1]) (simp add: decode_slice_def Let_def plane_width_def)
  qed
qed


section \<open>The decoder keeps its buffers consistent\<close>

definition decoder_ok :: "decoder \<Rightarrow> bool" where
  "decoder_ok d \<longleftrightarrow> geometry_ok d \<and> de_scratch d \<noteq> [] \<and> length (de_scratch d) = Suc (de_threads d)
     \<and> (\<forall>sx\<in>set (de_scratch d). scratch_fits d (de_placed_capacity d) sx)"

lemma geometry_ok_slices:
  assumes "geometry_ok d" "map sl_rows ss = map sl_rows (de_slices d)"
  shows "geometry_ok (d\<lparr>de_slices := ss\<rparr>)"
proof -
  have "length ss = length (de_slices d)" using assms(2) map_eq_imp_length_eq by blast
  moreover have "sl_rows (ss ! i) = sl_rows (de_slices d ! i)" if "i < length ss" for i
    using that assms(2) calculation by (metis nth_map)
  ultimately show ?thesis using assms(1) by (simp add: geometry_ok_def)
qed

lemma scratch_fits_update [simp]:
  "scratch_fits (d\<lparr>de_slices := ss\<rparr>) n sx = scratch_fits d n sx" "scratch_fits (d\<lparr>de_loaded := l\<rparr>) n sx = scratch_fits d n sx"
  "scratch_fits (d\<lparr>de_matrix := m\<rparr>) n sx = scratch_fits d n sx" "scratch_fits (d\<lparr>de_dc_shift := k\<rparr>) n sx = scratch_fits d n sx"
  "scratch_fits (d\<lparr>de_scratch := sc\<rparr>) n sx = scratch_fits d n sx" "scratch_fits (d\<lparr>de_placed_capacity := c\<rparr>) n sx = scratch_fits d n sx"
  by (simp_all add: scratch_fits_def)

lemma geometry_ok_update [simp]:
  "geometry_ok (d\<lparr>de_loaded := l\<rparr>) = geometry_ok d" "geometry_ok (d\<lparr>de_matrix := m\<rparr>) = geometry_ok d"
  "geometry_ok (d\<lparr>de_dc_shift := k\<rparr>) = geometry_ok d" "geometry_ok (d\<lparr>de_scratch := sc\<rparr>) = geometry_ok d"
  "geometry_ok (d\<lparr>de_placed_capacity := c\<rparr>) = geometry_ok d"
  by (simp_all add: geometry_ok_def)

lemma decoder_new_ok:
  assumes "decoder_new spawn width height color_space workers = Inr d"
  shows "decoder_ok d"
proof -
  have g: "16 \<le> width" "width \<le> MAX_WIDTH" "even width" "16 \<le> height" "height \<le> MAX_HEIGHT" "1 \<le> workers" "workers \<le> MAX_WORKERS"
    using assms by (auto simp: decoder_new_def even_iff_mod_2_eq_zero split: if_splits)
  have pos: "0 < min workers (div_ceil height SLICE_HEIGHT)" using g(4,6) by (auto simp: div_ceil_def)
  show ?thesis using assms g pos
    by (auto simp: decoder_new_def decoder_ok_def geometry_ok_def slice_new_def scratch_fits_def scratch_new_def Let_def split: if_splits)
qed

lemma load_dc_rows: "map sl_rows (fst (load_dc allocs input cursor slices)) = map sl_rows slices"
  by (induction allocs input cursor slices rule: load_dc.induct) (auto split: sum.splits prod.splits bool.splits)

lemma load_ac_rows: "map sl_rows (fst (load_ac has_ac allocs input cursor slices)) = map sl_rows slices"
  by (induction has_ac allocs input cursor slices rule: load_ac.induct) (auto split: sum.splits prod.splits bool.splits)

lemma decoder_ok_slices: "decoder_ok d \<Longrightarrow> map sl_rows ss = map sl_rows (de_slices d) \<Longrightarrow> decoder_ok (d\<lparr>de_slices := ss\<rparr>)"
  by (simp add: decoder_ok_def geometry_ok_slices)

lemma decoder_ok_update [simp]:
  "decoder_ok (d\<lparr>de_loaded := l\<rparr>) = decoder_ok d" "decoder_ok (d\<lparr>de_matrix := m\<rparr>) = decoder_ok d" "decoder_ok (d\<lparr>de_dc_shift := k\<rparr>) = decoder_ok d"
  by (simp_all add: decoder_ok_def)

lemma load_keeps:
  assumes "decoder_ok d"
  shows "decoder_ok (fst (load dc_allocs ac_allocs d input))"
proof (cases "envelope (d\<lparr>de_loaded := False\<rparr>) input")
  case (Inl e)
  then show ?thesis using assms by (simp add: load_def Let_def)
next
  case (Inr r)
  obtain off shift where r: "r = (off, shift)" by fastforce
  let ?d = "d\<lparr>de_loaded := False\<rparr>"
  obtain ss q where a: "load_dc dc_allocs input (3 + off) (de_slices ?d) = (ss, q)" by fastforce
  have d1: "decoder_ok (?d\<lparr>de_slices := ss\<rparr>)"
    by (rule decoder_ok_slices) (use assms load_dc_rows [of dc_allocs input "3 + off" "de_slices ?d"] a in simp_all)
  show ?thesis
  proof (cases q)
    case (Inl e)
    then show ?thesis using a d1 Inr r by (simp add: load_def Let_def)
  next
    case q: (Inr cursor)
    obtain ts u where b: "load_ac (cursor < length input) ac_allocs input cursor ss = (ts, u)" by fastforce
    have "decoder_ok (?d\<lparr>de_slices := ss, de_slices := ts\<rparr>)"
      by (rule decoder_ok_slices [OF d1]) (use load_ac_rows [of "cursor < length input" ac_allocs input cursor ss] b in simp)
    moreover have "map sl_rows ts = map sl_rows (de_slices d)"
      using load_ac_rows [of "cursor < length input" ac_allocs input cursor ss] load_dc_rows [of dc_allocs input "3 + off" "de_slices ?d"] a b by simp
    ultimately show ?thesis using a b q Inr r decoder_ok_slices [OF assms, of ts] by (cases u) (simp_all add: load_def Let_def)
  qed
qed

lemma grow_rows_ok:
  assumes "\<forall>sx\<in>set scratch. scratch_fits d cap sx" "cap \<le> n"
  shows "length (snd (grow_rows allocs n scratch)) = length scratch"
    "\<forall>sx\<in>set (snd (grow_rows allocs n scratch)). scratch_fits d (if fst (grow_rows allocs n scratch) then n else cap) sx"
proof -
  show "length (snd (grow_rows allocs n scratch)) = length scratch"
    by (induction allocs n scratch rule: grow_rows.induct) (auto split: prod.splits)
  show "\<forall>sx\<in>set (snd (grow_rows allocs n scratch)). scratch_fits d (if fst (grow_rows allocs n scratch) then n else cap) sx"
    using assms
  proof (induction allocs n scratch rule: grow_rows.induct)
    case (2 allocs n s rest)
    let ?s = "s\<lparr>sx_placed_row := take n (sx_placed_row s) @ replicate (n - length (sx_placed_row s)) 0\<rparr>"
    have s: "scratch_fits d k ?s" if "k \<le> n" for k using "2.prems" that by (auto simp: scratch_fits_def)
    show ?case
    proof (cases "length (sx_placed_row s) < n \<and> \<not> (allocs \<noteq> [] \<and> hd allocs)")
      case True
      then have "grow_rows allocs n (s # rest) = (False, s # rest)" by simp
      then show ?thesis using "2.prems" by simp
    next
      case False
      obtain b rest' where r: "grow_rows (tl allocs) n rest = (b, rest')" by fastforce
      then have "grow_rows allocs n (s # rest) = (b, ?s # rest')" using False by auto
      then show ?thesis using "2.IH" [OF False] "2.prems" r s by auto
    qed
  qed simp
qed

lemma prepare_placement_cases:
  obtains e where "check_placement d p len stride = Inl e" "prepare_placement allocs d p len stride = (d, Inl e)"
  | sc where "check_placement d p len stride = Inr ()" "de_placed_capacity d < length (vp_columns p) * 4"
      "grow_rows allocs (length (vp_columns p) * 4) (de_scratch d) = (False, sc)"
      "prepare_placement allocs d p len stride = (d\<lparr>de_scratch := sc\<rparr>, Inl WorkerFailure)"
  | sc where "check_placement d p len stride = Inr ()"
      "de_placed_capacity d < length (vp_columns p) * 4 \<and> grow_rows allocs (length (vp_columns p) * 4) (de_scratch d) = (True, sc)
       \<or> length (vp_columns p) * 4 \<le> de_placed_capacity d \<and> sc = de_scratch d"
      "prepare_placement allocs d p len stride = (d\<lparr>de_scratch := sc, de_placed_capacity := max (de_placed_capacity d) (length (vp_columns p) * 4),
         de_slices := assign_rows (vp_rows p) 0 0 (de_slices d)\<rparr>, Inr ())"
proof (cases "check_placement d p len stride")
  case (Inl e)
  then show ?thesis using that(1) by (simp add: prepare_placement_def)
next
  case (Inr u)
  show ?thesis
  proof (cases "de_placed_capacity d < length (vp_columns p) * 4")
    case True
    obtain b sc where "grow_rows allocs (length (vp_columns p) * 4) (de_scratch d) = (b, sc)" by fastforce
    then show ?thesis using that(2,3) True Inr by (cases b) (simp_all add: prepare_placement_def Let_def)
  next
    case False
    then show ?thesis using that(3) [of "de_scratch d"] Inr by (simp add: prepare_placement_def Let_def)
  qed
qed

lemma assign_rows_rows: "map sl_rows (assign_rows rows i first ss) = map sl_rows ss"
  by (induction ss arbitrary: i first) (auto simp: Let_def)

lemma prepare_placement_keeps:
  assumes "decoder_ok d"
  shows "decoder_ok (fst (prepare_placement allocs d p len stride))"
proof (cases rule: prepare_placement_cases [where d = d and p = p and len = len and stride = stride and allocs = allocs])
  case (1 e)
  then show ?thesis using assms by simp
next
  case (2 sc)
  then show ?thesis using assms grow_rows_ok [of "de_scratch d" d "de_placed_capacity d" "length (vp_columns p) * 4" allocs]
    by (auto simp: decoder_ok_def)
next
  case (3 sc)
  have "length sc = length (de_scratch d)"
    "\<forall>sx\<in>set sc. scratch_fits d (max (de_placed_capacity d) (length (vp_columns p) * 4)) sx"
    using 3(2) assms grow_rows_ok [of "de_scratch d" d "de_placed_capacity d" "length (vp_columns p) * 4" allocs]
    by (auto simp: decoder_ok_def max_def)
  then have "decoder_ok (d\<lparr>de_scratch := sc, de_placed_capacity := max (de_placed_capacity d) (length (vp_columns p) * 4)\<rparr>)"
    using assms by (auto simp: decoder_ok_def)
  from decoder_ok_slices [OF this] assign_rows_rows [of "vp_rows p" 0 0 "de_slices d"] 3(3) show ?thesis by simp
qed


text \<open>The tables a slice follows are the ones the checks saw.\<close>

lemma advance_rows_takeWhile: "advance_rows limit y xs = y + length (takeWhile (\<lambda>r. r < limit) xs)"
  by (induction xs arbitrary: y) auto

lemma advance_placed_before:
  "advance_rows (Suc i * SLICE_HEIGHT) (placed_before rows i) (drop (placed_before rows i) rows) = placed_before rows (Suc i)"
proof -
  let ?a = "placed_before rows i"
  have "r < Suc i * SLICE_HEIGHT" if "r \<in> set (take ?a rows)" for r
  proof -
    have "take ?a rows = takeWhile (\<lambda>r. r < i * SLICE_HEIGHT) rows" unfolding placed_before_def by (metis takeWhile_eq_take)
    then show ?thesis using that by (auto dest: set_takeWhileD)
  qed
  then have "takeWhile (\<lambda>r. r < Suc i * SLICE_HEIGHT) (take ?a rows @ drop ?a rows) = take ?a rows @ takeWhile (\<lambda>r. r < Suc i * SLICE_HEIGHT) (drop ?a rows)"
    by (rule takeWhile_append2)
  then have e: "takeWhile (\<lambda>r. r < Suc i * SLICE_HEIGHT) rows = take ?a rows @ takeWhile (\<lambda>r. r < Suc i * SLICE_HEIGHT) (drop ?a rows)" by simp
  have "?a \<le> length rows" unfolding placed_before_def by (rule length_takeWhile_le)
  then show ?thesis unfolding advance_rows_takeWhile using arg_cong [OF e, of length] by (simp add: placed_before_def)
qed

lemma assign_rows_placed:
  "k < length ss \<Longrightarrow> sl_placed (assign_rows rows i (placed_before rows i) ss ! k) = (placed_before rows (i + k), placed_before rows (Suc (i + k)))"
proof (induction ss arbitrary: i k)
  case (Cons s ss)
  have "assign_rows rows i (placed_before rows i) (s # ss) = s\<lparr>sl_placed := (placed_before rows i, placed_before rows (Suc i))\<rparr>
      # assign_rows rows (Suc i) (placed_before rows (Suc i)) ss"
    using advance_placed_before [of i rows] by (simp add: Let_def)
  then show ?case using Cons.IH [of "k - 1" "Suc i"] Cons.prems by (cases k) simp_all
qed simp

lemma placed_before_0: "placed_before rows 0 = 0"
  by (cases rows) (simp_all add: placed_before_def)

lemma check_placement_ok:
  assumes "check_placement d p len stride = Inr u"
  shows "vp_columns p \<noteq> []" "vp_rows p \<noteq> []" "\<forall>c\<in>set (vp_columns p). c < de_width d" "\<forall>r\<in>set (vp_rows p). r < de_height d" "sorted (vp_rows p)"
    "(vp_x p + length (vp_columns p)) * 4 \<le> stride"
    "(vp_y p + (length (vp_rows p) - 1)) * stride + (vp_x p + length (vp_columns p)) * 4 \<le> len"
proof -
  have c: "\<not> (length (vp_columns p) = 0 \<or> length (vp_rows p) = 0 \<or> MAX_PLACED_WIDTH < length (vp_columns p) \<or> MAX_PLACED_HEIGHT < length (vp_rows p))"
    "\<not> list_ex (\<lambda>c. de_width d \<le> c) (vp_columns p)" "\<not> (list_ex (\<lambda>r. de_height d \<le> r) (vp_rows p) \<or> \<not> sorted (vp_rows p))"
    using assms by (auto simp: check_placement_def Let_def split: if_splits)
  then show "vp_columns p \<noteq> []" "vp_rows p \<noteq> []" "\<forall>c\<in>set (vp_columns p). c < de_width d" "\<forall>r\<in>set (vp_rows p). r < de_height d" "sorted (vp_rows p)"
    by (auto simp: list_ex_iff not_le)
  show "(vp_x p + length (vp_columns p)) * 4 \<le> stride"
    "(vp_y p + (length (vp_rows p) - 1)) * stride + (vp_x p + length (vp_columns p)) * 4 \<le> len"
    using assms unfolding check_placement_def Let_def if_not_P [OF c(1)] if_not_P [OF c(2)] if_not_P [OF c(3)]
    by (auto simp: checked_add_def checked_mul_def Let_def split: if_splits option.splits Option.bind_splits)
qed

lemma placed_frame_ok:
  assumes "decoder_ok d" "prepare_placement allocs d p (length output) stride = (d', Inr u)"
  shows "frame_ok (d', make_job d' Bgrx stride ps (Some p), Some output, None, None, None)"
    "length (vp_columns p) * 4 \<le> de_placed_capacity d'"
proof -
  have ok: "decoder_ok d'" using prepare_placement_keeps [OF assms(1), of allocs p "length output" stride] assms(2) by simp
  obtain sc where c: "check_placement d p (length output) stride = Inr ()" and d': "d' = d\<lparr>de_scratch := sc,
      de_placed_capacity := max (de_placed_capacity d) (length (vp_columns p) * 4), de_slices := assign_rows (vp_rows p) 0 0 (de_slices d)\<rparr>"
    using assms(2) by (cases rule: prepare_placement_cases [where d = d and p = p and len = "length output" and stride = stride and allocs = allocs]) auto
  have len: "length (assign_rows (vp_rows p) 0 0 (de_slices d)) = length (de_slices d)"
    using arg_cong [OF assign_rows_rows, of length "vp_rows p" 0 0 "de_slices d"] by simp
  have pl: "sl_placed (assign_rows (vp_rows p) 0 0 (de_slices d) ! k) = (placed_before (vp_rows p) k, placed_before (vp_rows p) (Suc k))"
    if "k < length (de_slices d)" for k
    using assign_rows_placed [OF that, of "vp_rows p" 0] by (simp add: placed_before_0)
  show "length (vp_columns p) * 4 \<le> de_placed_capacity d'" by (simp add: d')
  show "frame_ok (d', make_job d' Bgrx stride ps (Some p), Some output, None, None, None)"
    using ok check_placement_ok [OF c] pl len by (simp add: make_job_def placement_fits_def decoder_ok_def d' view_len_def)
qed

lemma check_packed_ok:
  assumes "check_packed d len stride n = Inr u"
  shows "n \<le> stride \<and> stride * de_height d \<le> len"
  using assms by (auto simp: check_packed_def checked_mul_def Let_def split: if_splits option.splits)

end
