(* ===== verification/Vmx_Run.thy ===== *)
theory Vmx_Run
  imports Vmx_Frames
begin

text \<open>
  Whole frames: the entry points of \<^verbatim>\<open>crates/omt-vmx/src/lib.rs\<close> run on the pool. The contract of
  \<open>Vmx_Pool\<close> is interpreted by the decoder's slices, and what its lemmas say of every schedule is stated
  for the frames the entry points start.
\<close>

section \<open>The contract, for the decoder's slices\<close>

definition blank_scratch :: "decoder \<Rightarrow> nat \<Rightarrow> scratch" where
  "blank_scratch d n =
     \<lparr>sx_luma = replicate (16 * de_luma_stride d) 0, sx_blue = replicate (16 * de_chroma_stride d) 0,
      sx_red = replicate (16 * de_chroma_stride d) 0, sx_source_row = replicate (de_width d * 4) 0, sx_placed_row = replicate n 0\<rparr>"

fun frame_capacity :: "vmx_frame \<Rightarrow> nat" where
  "frame_capacity (d, jb, outs) = max (de_placed_capacity d) (frame_row_bytes (d, jb, outs))"

fun frame_count :: "vmx_frame \<Rightarrow> nat" where
  "frame_count (d, jb, outs) = length (de_slices d)"

fun frame_dec :: "vmx_frame \<Rightarrow> nat \<Rightarrow> scratch \<Rightarrow> outs \<Rightarrow> (bool \<times> scratch \<times> outs) option" where
  "frame_dec (d, jb, outs) = decode_slice d jb"

fun frame_scratch :: "vmx_frame \<Rightarrow> scratch \<Rightarrow> bool" where
  "frame_scratch (d, jb, outs) sx = scratch_fits d (frame_capacity (d, jb, outs)) sx"

fun frame_shape :: "vmx_frame \<Rightarrow> outs \<Rightarrow> bool" where
  "frame_shape (d, jb, outs) v = same_shape v outs"

text \<open>What a slice decodes to, on buffers that hold nothing.\<close>

fun slice_alone :: "vmx_frame \<Rightarrow> nat \<Rightarrow> bool \<times> outs" where
  "slice_alone (d, jb, outs) i =
     (case decode_slice d jb i (blank_scratch d (frame_capacity (d, jb, outs))) outs of
        None \<Rightarrow> (False, outs)
      | Some (accepted, sx, v) \<Rightarrow> (accepted, v))"

lemma same_shape_refl [simp]: "same_shape v v"
  by (simp add: same_shape_def)

lemma same_shape_trans: "same_shape u v \<Longrightarrow> same_shape v w \<Longrightarrow> same_shape u w"
  unfolding same_shape_def using view_agree_trans by blast

lemma view_agree_sym: "view_agree A v w \<Longrightarrow> view_agree A w v"
  by (auto simp: view_agree_def agree_on_def split: option.splits)

lemma same_shape_sym: "same_shape v w \<Longrightarrow> same_shape w v"
  unfolding same_shape_def using view_agree_sym by blast

lemma slice_contract:
  assumes "frame_ok j" "i < frame_count j" "frame_scratch j s" "frame_shape j out"
  shows "\<exists>s' out'. frame_dec j i s out = Some (fst (slice_alone j i), s', out') \<and> frame_scratch j s' \<and> frame_shape j out'
    \<and> (\<forall>c. c \<notin> slice_cells j i \<longrightarrow> look out' c = look out c)
    \<and> (fst (slice_alone j i) \<longrightarrow> (\<forall>c\<in>slice_cells j i. look out' c = look (snd (slice_alone j i)) c))"
proof -
  obtain d jb outs where j: "j = (d, jb, outs)" by (cases j)
  let ?n = "frame_capacity (d, jb, outs)"
  have blank: "scratch_fits d ?n (blank_scratch d ?n)" by (simp add: scratch_fits_def blank_scratch_def)
  obtain a sx sy v w where r: "decode_slice d jb i s out = Some (a, sx, v)" "decode_slice d jb i (blank_scratch d ?n) outs = Some (a, sy, w)"
    "scratch_fits d ?n sx" "if a then writes_outs (slice_cells (d, jb, outs) i) out outs v w else v = out \<and> w = outs"
    using decode_slice_pair [of d jb outs i ?n s "blank_scratch d ?n" out outs] assms j blank by auto
  have alone: "slice_alone (d, jb, outs) i = (a, w)" using r(2) by simp
  show ?thesis
  proof (cases a)
    case True
    have "writes_outs (slice_cells (d, jb, outs) i) out outs v w" using r(4) True by simp
    note q = writes_outs_look [OF this]
    have "same_shape v outs" using same_shape_trans [OF q(3)] assms(4) j by simp
    then show ?thesis using r(1,3) q(1,2) True unfolding j alone fst_conv snd_conv frame_dec.simps frame_scratch.simps frame_shape.simps by blast
  next
    case False
    then have "v = out" using r(4) by simp
    then show ?thesis using r(1,3) False assms(4) unfolding j alone fst_conv snd_conv frame_dec.simps frame_scratch.simps frame_shape.simps by blast
  qed
qed

interpretation vf: slice_decoder frame_ok frame_count frame_dec frame_scratch frame_shape "\<lambda>j i. fst (slice_alone j i)"
  slice_cells "\<lambda>j i. look (snd (slice_alone j i))" look
proof (unfold_locales, goal_cases)
  case (1 j i s out)
  then show ?case by (rule slice_contract)
next
  case (2 j i k)
  then show ?case using slice_cells_disjoint [of j i k] by (cases j) simp
next
  case (3 j out out')
  have "same_shape out out'" using 3(1,2) by (cases j) (auto intro: same_shape_trans same_shape_sym)
  then show ?case using look_ext 3(3) by blast
qed

section \<open>Frames as the entry points start them\<close>

inductive frame_request :: "decoder \<Rightarrow> decoder \<Rightarrow> job \<Rightarrow> outs \<Rightarrow> bool" where
  uyvy: "decode_uyvy d output stride = Inr (jb, outs) \<Longrightarrow> frame_request d d jb outs"
| bgrx: "decode_bgrx d output stride = Inr (jb, outs) \<Longrightarrow> frame_request d d jb outs"
| yuv422p: "decode_yuv422p d a b c = Inr (jb, outs) \<Longrightarrow> frame_request d d jb outs"
| placed: "decode_bgrx_placed allocs d output stride p = (d', Inr (jb, outs)) \<Longrightarrow> frame_request d d' jb outs"

text \<open>The pool of a decoder between frames, given the outputs of the next.\<close>

definition pool_for :: "decoder \<Rightarrow> outs \<Rightarrow> (scratch, outs) pool \<Rightarrow> bool" where
  "pool_for d outs p \<longleftrightarrow> pool_idle p \<and> po_scratch p = de_scratch d \<and> po_out p = outs"

lemma check_planes_ok:
  assumes "check_planes d [a, b, c] = Inr u" "k < 3"
  shows "plane_width d k \<le> snd ([a, b, c] ! k) \<and> snd ([a, b, c] ! k) * de_height d \<le> fst ([a, b, c] ! k)"
proof -
  consider "k = 0" | "k = 1" | "k = 2" using assms(2) by linarith
  then show ?thesis using assms(1)
    by cases (auto simp: check_planes_def plane_width_def checked_mul_def split: if_splits option.splits prod.splits)
qed

lemma request_ok:
  assumes "frame_request d d' jb outs" "decoder_ok d"
  shows "frame_ok (d', jb, outs)" "decoder_ok d'" "frame_row_bytes (d', jb, outs) \<le> de_placed_capacity d'"
proof -
  have g: "geometry_ok d" using assms(2) by (simp add: decoder_ok_def)
  have "frame_ok (d', jb, outs) \<and> decoder_ok d' \<and> frame_row_bytes (d', jb, outs) \<le> de_placed_capacity d'"
    using assms(1)
  proof cases
    case (uyvy view stride)
    then have "check_packed d (length view) stride (de_width d * 2) = Inr ()" "jb = make_job d Uyvy stride [0, 0, 0] None" "outs = (Some view, None, None, None)"
      by (auto simp: decode_uyvy_def split: sum.splits)
    then show ?thesis using check_packed_ok uyvy(1) g assms(2) by (fastforce simp: make_job_def view_holds_def row_width_def view_len_def)
  next
    case (bgrx view stride)
    then have "check_packed d (length view) stride (de_width d * 4) = Inr ()" "jb = make_job d Bgrx stride [0, 0, 0] None" "outs = (Some view, None, None, None)"
      by (auto simp: decode_bgrx_def split: sum.splits)
    then show ?thesis using check_packed_ok bgrx(1) g assms(2) by (fastforce simp: make_job_def view_holds_def row_width_def view_len_def)
  next
    case (yuv422p a b c)
    then have r: "check_planes d [(length (fst a), snd a), (length (fst b), snd b), (length (fst c), snd c)] = Inr ()"
      "jb = make_job d Yuv422p 0 [snd a, snd b, snd c] None" "outs = (None, Some (fst a), Some (fst b), Some (fst c))"
      by (auto simp: decode_yuv422p_def split: sum.splits)
    have "view_holds d (jb_plane_strides jb ! k) (plane_width d k) (out_view (Suc k) outs)" if k: "k < 3" for k
    proof -
      consider "k = 0" | "k = 1" | "k = 2" using k by linarith
      then show ?thesis using check_planes_ok [OF r(1) k] r(2,3) by cases (simp_all add: view_holds_def view_len_def make_job_def)
    qed
    then show ?thesis using g assms(2) yuv422p(1) r(2) by (simp add: make_job_def)
  next
    case (placed allocs view stride p)
    then have r: "prepare_placement allocs d p (length view) stride = (d', Inr ())" "jb = make_job d' Bgrx stride [0, 0, 0] (Some p)"
      "outs = (Some view, None, None, None)"
      by (auto simp: decode_bgrx_placed_def split: if_splits prod.splits sum.splits)
    show ?thesis using placed_frame_ok [OF assms(2) r(1)] prepare_placement_keeps [OF assms(2), of allocs p "length view" stride] r
      by (simp add: make_job_def)
  qed
  then show "frame_ok (d', jb, outs)" "decoder_ok d'" "frame_row_bytes (d', jb, outs) \<le> de_placed_capacity d'" by auto
qed

lemma request_ready:
  assumes "frame_request d d' jb outs" "decoder_ok d" "pool_for d' outs p"
  shows "vf.ready (d', jb, outs) p"
proof -
  note r = request_ok [OF assms(1,2)]
  have "frame_capacity (d', jb, outs) = de_placed_capacity d'" using r(3) by (simp add: max_absorb1)
  then show ?thesis using assms(3) r(1,2) by (simp add: vf.ready_def pool_for_def decoder_ok_def)
qed

lemma frame_keeps_decoder:
  assumes "frame_request d d' jb outs" "decoder_ok d" "pool_for d' outs p0"
    "frame_reach (decode_slice d' jb) (length (de_slices d')) p0 p"
  shows "length (po_scratch p) = length (po_phase p)" "\<forall>sx\<in>set (po_scratch p). scratch_fits d' (de_placed_capacity d') sx"
proof -
  note r = request_ok [OF assms(1,2)]
  note k = vf.frame_keeps [OF request_ready [OF assms(1-3)], simplified, OF assms(4)]
  show "length (po_scratch p) = length (po_phase p)" by (rule k(2))
  show "\<forall>sx\<in>set (po_scratch p). scratch_fits d' (de_placed_capacity d') sx"
    using k(3) r(3) by (auto simp: in_set_conv_nth max_absorb1)
qed


section \<open>What a frame's envelope loads\<close>

text \<open>The envelope of a progressive frame, as a sender writes it.\<close>

definition prefixed :: "u8 list \<Rightarrow> u8 list" where
  "prefixed data = le_bytes 4 (length data) @ data"

definition frame_bytes :: "u8 \<Rightarrow> u8 list list \<Rightarrow> u8 list list \<Rightarrow> u8 list" where
  "frame_bytes quality dcs acs =
     [FORMAT_PROGRESSIVE, quality, of_nat (length dcs)] @ concat (map prefixed dcs) @ concat (map prefixed acs)"

definition stream_holds :: "stream \<Rightarrow> u8 list \<Rightarrow> bool" where
  "stream_holds s data \<longleftrightarrow> take (st_length s) (st_buffer s) = data @ replicate PADDING 0xFF"

lemma stream_load_holds:
  assumes "length data \<le> st_capacity s"
  obtains s' where "stream_load True s data = (True, s')" "stream_holds s' data"
proof -
  obtain s' where s: "stream_load True s data = (True, s')" using assms by (simp add: stream_load_def Let_def)
  then have "stream_holds s' data" using assms
    by (auto simp: stream_load_def Let_def stream_holds_def split: if_splits)
  with s show ?thesis by (rule that)
qed

lemma take_stream_prefixed:
  assumes "length data < 2 ^ 32"
  shows "take_stream (pre @ prefixed data @ post) (length pre) = Inr (data, length pre + length (prefixed data))"
  using assms by (simp add: take_stream_def prefixed_def le_val_le_bytes Let_def)

lemma load_dc_prefixed:
  assumes "list_all2 (\<lambda>s data. length data \<le> st_capacity (sl_dc s)) slices datas" "\<forall>data\<in>set datas. length data < 2 ^ 32"
  shows "\<exists>slices'. load_dc (replicate (length slices) True) (pre @ concat (map prefixed datas) @ post) (length pre) slices
      = (slices', Inr (length pre + length (concat (map prefixed datas))))
    \<and> list_all2 (\<lambda>s data. stream_holds (sl_dc s) data) slices' datas \<and> map sl_ac slices' = map sl_ac slices"
  using assms
proof (induction slices datas arbitrary: pre rule: list_all2_induct)
  case (Cons s slices data datas)
  obtain dc where dc: "stream_load True (sl_dc s) data = (True, dc)" "stream_holds dc data" using stream_load_holds Cons.hyps(1) by blast
  have t: "take_stream (pre @ prefixed data @ concat (map prefixed datas) @ post) (length pre) = Inr (data, length pre + length (prefixed data))"
    using Cons.prems by (intro take_stream_prefixed) simp
  from Cons.IH [of "pre @ prefixed data"] Cons.prems dc t show ?case by (auto simp: add.assoc)
qed simp

lemma load_ac_prefixed:
  assumes "list_all2 (\<lambda>s data. length data \<le> st_capacity (sl_ac s)) slices datas" "\<forall>data\<in>set datas. length data < 2 ^ 32"
  shows "\<exists>slices'. load_ac True (replicate (length slices) True) (pre @ concat (map prefixed datas) @ post) (length pre) slices
      = (slices', Inr (length pre + length (concat (map prefixed datas))))
    \<and> list_all2 (\<lambda>s data. stream_holds (sl_ac s) data) slices' datas \<and> map sl_dc slices' = map sl_dc slices"
  using assms
proof (induction slices datas arbitrary: pre rule: list_all2_induct)
  case (Cons s slices data datas)
  obtain ac where ac: "stream_load True (sl_ac s) data = (True, ac)" "stream_holds ac data" using stream_load_holds Cons.hyps(1) by blast
  have t: "take_stream (pre @ prefixed data @ concat (map prefixed datas) @ post) (length pre) = Inr (data, length pre + length (prefixed data))"
    using Cons.prems by (intro take_stream_prefixed) simp
  from Cons.IH [of "pre @ prefixed data"] Cons.prems ac t show ?case by (auto simp: add.assoc)
qed simp


lemma load_encoded:
  assumes "length (de_slices d) = length dcs" "length acs = length dcs" "dcs \<noteq> []" "length dcs < 256"
    "list_all2 (\<lambda>s data. length data \<le> st_capacity (sl_dc s)) (de_slices d) dcs"
    "list_all2 (\<lambda>s data. length data \<le> st_capacity (sl_ac s)) (de_slices d) acs"
    "length (frame_bytes quality dcs acs) \<le> MAX_COMPRESSED_BYTES"
  shows "\<exists>slices. load (replicate (length dcs) True) (replicate (length dcs) True) d (frame_bytes quality dcs acs)
      = (d\<lparr>de_slices := slices, de_matrix := decode_matrix (quality_index (int (unat quality))), de_dc_shift := 0, de_loaded := True\<rparr>, Inr ())
    \<and> list_all2 (\<lambda>s data. stream_holds (sl_dc s) data) slices dcs \<and> list_all2 (\<lambda>s data. stream_holds (sl_ac s) data) slices acs"
proof -
  let ?f = "frame_bytes quality dcs acs"
  let ?h = "[FORMAT_PROGRESSIVE, quality, of_nat (length dcs)]"
  have in_concat: "length data \<le> length (concat (map prefixed xs))" if "data \<in> set xs" for data xs
    using that by (induction xs) (auto simp: prefixed_def)
  have small: "length data < 2 ^ 32" if "data \<in> set dcs \<or> data \<in> set acs" for data
    using in_concat [of data dcs] in_concat [of data acs] that assms(7) by (auto simp: frame_bytes_def)
  have "0 < length (concat (map prefixed acs))" "0 < length (concat (map prefixed dcs))"
    using assms(2,3) by (cases acs; cases dcs; simp add: prefixed_def)+
  moreover have "4 \<le> length (concat (map prefixed dcs))" using assms(3) by (cases dcs) (simp_all add: prefixed_def)
  ultimately have len: "5 \<le> length ?f" and more: "length ?h + length (concat (map prefixed dcs)) < length ?f" by (simp_all add: frame_bytes_def)
  have "unat (of_nat (length dcs) :: u8) = length dcs"
    using assms(4) by (simp add: unsigned_of_nat take_bit_nat_eq_self)
  then have env: "envelope (d\<lparr>de_loaded := False\<rparr>) ?f = Inr (0, 0)"
    using assms(1,7) len by (simp add: envelope_def frame_bytes_def)
  have smalls: "\<forall>data\<in>set dcs. length data < 2 ^ 32" "\<forall>data\<in>set acs. length data < 2 ^ 32" using small by blast+
  have f: "?h @ concat (map prefixed dcs) @ concat (map prefixed acs) = ?f" and h3: "length ?h = 3" by (simp_all add: frame_bytes_def)
  have lf: "3 + length (concat (map prefixed dcs)) + length (concat (map prefixed acs)) = length ?f" by (simp add: frame_bytes_def)
  obtain ss where ss: "load_dc (replicate (length dcs) True) ?f 3 (de_slices d) = (ss, Inr (3 + length (concat (map prefixed dcs))))"
    "list_all2 (\<lambda>s data. stream_holds (sl_dc s) data) ss dcs" "map sl_ac ss = map sl_ac (de_slices d)"
    using load_dc_prefixed [OF assms(5) smalls(1), of ?h "concat (map prefixed acs)", unfolded h3 f assms(1)] by blast
  have caps: "list_all2 (\<lambda>s data. length data \<le> st_capacity (sl_ac s)) ss acs"
    using assms(6) ss(3) unfolding list_all2_conv_all_nth by (metis map_eq_imp_length_eq nth_map)
  have lss: "length ss = length dcs" using ss(2) by (rule list_all2_lengthD)
  obtain ts where ts: "load_ac True (replicate (length dcs) True) ?f (3 + length (concat (map prefixed dcs))) ss = (ts, Inr (length ?f))"
    "list_all2 (\<lambda>s data. stream_holds (sl_ac s) data) ts acs" "map sl_dc ts = map sl_dc ss"
    using load_ac_prefixed [OF caps smalls(2), of "?h @ concat (map prefixed dcs)" "[]", unfolded lss append_Nil2 append_assoc f length_append h3]
      lf by auto
  have "list_all2 (\<lambda>s data. stream_holds (sl_dc s) data) ts dcs"
    using ss(2) ts(3) unfolding list_all2_conv_all_nth by (metis map_eq_imp_length_eq nth_map)
  moreover have "load (replicate (length dcs) True) (replicate (length dcs) True) d ?f
      = (d\<lparr>de_slices := ts, de_matrix := decode_matrix (quality_index (int (unat quality))), de_dc_shift := 0, de_loaded := True\<rparr>, Inr ())"
    using env ss(1) ts(1) more by (simp add: load_def Let_def) (simp add: frame_bytes_def)
  ultimately show ?thesis using ts(2) by blast
qed

lemma load_failed: "snd (load dc_allocs ac_allocs d input) = Inl e \<Longrightarrow> \<not> de_loaded (fst (load dc_allocs ac_allocs d input))"
  by (auto simp: load_def Let_def split: sum.splits prod.splits)


text \<open>A small decoder, loaded with an empty preview frame, for the instances below.\<close>

definition small_decoder :: decoder where
  "small_decoder = fst (load [True, True] [True, True] (projr (decoder_new (\<lambda>_. True) 16 32 Bt601 2)) [1, 0, 2, 0, 0, 0, 0, 0, 0, 0, 0])"

lemma small_new: "\<exists>d. decoder_new (\<lambda>_. True) 16 32 Bt601 2 = Inr d"
  by (simp add: decoder_new_def Let_def list_all_iff)

lemma small_decoder_ok: "decoder_ok small_decoder"
  using small_new decoder_new_ok load_keeps unfolding small_decoder_def by (metis sum.sel(2))

lemma small_decoder_fields: "de_loaded small_decoder" "de_width small_decoder = 16" "de_height small_decoder = 32" "length (de_scratch small_decoder) = 2"
  "length (de_slices small_decoder) = 2"
  by (simp_all add: small_decoder_def decoder_new_def upt_rec load_def envelope_def Let_def div_ceil_def slice_new_def take_stream_def
      stream_load_def stream_new_def)

definition small_pool :: "(scratch, outs) pool" where
  "small_pool = \<lparr>po_generation = 0, po_running = 0, po_shutdown = False, po_job = False, po_next = 0, po_failed = False,
     po_out = (Some (replicate 2048 0), None, None, None), po_scratch = de_scratch small_decoder, po_phase = [Idle, Idle], po_seen = [0, 0]\<rparr>"

definition small_job :: job where
  "small_job = make_job small_decoder Bgrx 64 [0, 0, 0] None"

lemma small_request: "frame_request small_decoder small_decoder small_job (Some (replicate 2048 0), None, None, None)"
  by (rule bgrx [of _ "replicate 2048 0" 64])
    (simp add: decode_bgrx_def check_packed_def small_decoder_fields checked_mul_def small_job_def)

lemma small_pool_for: "pool_for small_decoder (Some (replicate 2048 0), None, None, None) small_pool"
  using small_decoder_fields(4) by (auto simp: pool_for_def small_pool_def pool_idle_def less_Suc_eq nth_Cons')

section \<open>Properties\<close>

text \<open>C20. A frame decodes the same whatever the schedule. Take a decoder in order, any of its four entry points, and
  any interleaving of the caller and the workers, from the moment the job is published to the moment
  the caller returns. The call fails exactly when decoding the slices one after the other on a single
  thread would fail, and otherwise the outputs hold exactly the bytes that single thread would have
  written. On return no worker is awake, and the scratch buffers are fit for the next frame.\<close>

theorem frame_refines_sequential:
  assumes "decoder_ok d" "frame_request d d' jb outs" "pool_for d' outs p0"
    "frame_reach (decode_slice d' jb) (length (de_slices d')) p0 p" "po_phase p ! 0 = Idle"
  shows "(\<exists>s out. decode_all (decode_slice d' jb) [0..<length (de_slices d')] (hd (de_scratch d')) outs = Some (\<not> po_failed p, s, out)
      \<and> (\<not> po_failed p \<longrightarrow> po_out p = out))
    \<and> pool_idle p \<and> (\<forall>sx\<in>set (po_scratch p). scratch_fits d' (de_placed_capacity d') sx)"
proof -
  note ready = request_ready [OF assms(2,1,3)]
  have reach: "frame_reach (frame_dec (d', jb, outs)) (frame_count (d', jb, outs)) p0 p" using assms(4) by simp
  have "hd (de_scratch d') = po_scratch p0 ! 0" "po_out p0 = outs"
    using assms(3) request_ok(2) [OF assms(2,1)] by (simp_all add: pool_for_def decoder_ok_def hd_conv_nth)
  then show ?thesis
    using vf.frame_sequential [OF ready reach assms(5)] vf.frame_result(1) [OF ready reach assms(5)] frame_keeps_decoder(2) [OF assms(2,1,3,4)]
    by simp
qed

theorem frame_refines_sequential_witness:
  "\<exists>p. frame_reach (decode_slice small_decoder small_job) (length (de_slices small_decoder)) small_pool p \<and> pool_idle p"
proof -
  note ready = request_ready [OF small_request small_decoder_ok small_pool_for]
  obtain p where "frame_reach (decode_slice small_decoder small_job) (length (de_slices small_decoder)) small_pool p" "po_phase p ! 0 = Idle"
    using vf.frame_returns [OF ready frame_reach.published] by auto
  then show ?thesis using frame_refines_sequential [OF small_decoder_ok small_request small_pool_for] by blast
qed

text \<open>C21. Two threads never touch the same byte. Whenever two threads of a frame are decoding at the same time
  they decode different slices, the bytes those slices own are disjoint, and a slice writes only bytes
  it owns; so the shared views of the output are never written by two threads.\<close>

theorem frame_no_race:
  assumes "decoder_ok d" "frame_request d d' jb outs" "pool_for d' outs p0"
    "frame_reach (decode_slice d' jb) (length (de_slices d')) p0 p"
    "t < length (po_phase p)" "u < length (po_phase p)" "t \<noteq> u" "po_phase p ! t = Decoding i" "po_phase p ! u = Decoding k"
  shows "i \<noteq> k \<and> slice_cells (d', jb, outs) i \<inter> slice_cells (d', jb, outs) k = {}
    \<and> (\<exists>accepted s out. decode_slice d' jb i (po_scratch p ! t) (po_out p) = Some (accepted, s, out)
         \<and> (\<forall>c. c \<notin> slice_cells (d', jb, outs) i \<longrightarrow> look out c = look (po_out p) c))"
proof -
  note ready = request_ready [OF assms(2,1,3)]
  have reach: "frame_reach (frame_dec (d', jb, outs)) (frame_count (d', jb, outs)) p0 p" using assms(4) by simp
  note r = vf.no_race [OF ready reach assms(5-9)]
  note k = vf.frame_keeps [OF ready reach]
  have i: "i < frame_count (d', jb, outs)" and s: "frame_scratch (d', jb, outs) (po_scratch p ! t)" using r k(2,3) assms(5) by auto
  show ?thesis using slice_contract [OF request_ok(1) [OF assms(2,1)] i s k(1)] r unfolding frame_dec.simps by blast
qed

lemma claim_step:
  assumes "t < length (po_phase p)" "po_phase p ! t = Claiming" "po_next p < n"
    "q = p\<lparr>po_next := po_next p + 1, po_phase := (po_phase p)[t := Decoding (po_next p)]\<rparr>"
  shows "pool_step dec n p q"
  using pool_step.claim [OF assms(1,2), of dec n] assms(3,4) by simp

theorem frame_no_race_witness:
  "\<exists>p. frame_reach (decode_slice small_decoder small_job) (length (de_slices small_decoder)) small_pool p
     \<and> po_phase p = [Decoding 0, Decoding 1]
     \<and> slice_cells (small_decoder, small_job, Some (replicate 2048 0), None, None, None) 0
        \<inter> slice_cells (small_decoder, small_job, Some (replicate 2048 0), None, None, None) 1 = {}"
proof -
  let ?R = "frame_reach (decode_slice small_decoder small_job) (length (de_slices small_decoder)) small_pool"
  define p1 where "p1 = (publish small_pool)\<lparr>po_next := 1, po_phase := [Decoding 0, Idle]\<rparr>"
  define p2 where "p2 = p1\<lparr>po_seen := [0, 1], po_phase := [Decoding 0, Claiming]\<rparr>"
  define p3 where "p3 = p2\<lparr>po_next := 2, po_phase := [Decoding 0, Decoding 1]\<rparr>"
  have r0: "?R (publish small_pool)" by (rule frame_reach.published)
  have s1: "pool_step (decode_slice small_decoder small_job) (length (de_slices small_decoder)) (publish small_pool) p1"
    by (rule claim_step [of 0]) (simp_all add: small_decoder_fields publish_def small_pool_def p1_def)
  have r1: "?R p1" by (rule frame_reach.step [OF r0 _ s1]) (simp add: publish_def small_pool_def)
  have s2: "pool_step (decode_slice small_decoder small_job) (length (de_slices small_decoder)) p1 p2"
    using pool_step.wake [of 1 p1] by (simp add: publish_def small_pool_def p1_def p2_def)
  have r2: "?R p2" by (rule frame_reach.step [OF r1 _ s2]) (simp add: p1_def)
  have s3: "pool_step (decode_slice small_decoder small_job) (length (de_slices small_decoder)) p2 p3"
    by (rule claim_step [of 1]) (simp_all add: small_decoder_fields publish_def small_pool_def p1_def p2_def p3_def)
  have r3: "?R p3" by (rule frame_reach.step [OF r2 _ s3]) (simp add: p2_def)
  have "po_phase p3 = [Decoding 0, Decoding 1]" by (simp add: p3_def)
  then show ?thesis using r3 frame_no_race [OF small_decoder_ok small_request small_pool_for r3, of 0 1 0 1] by auto
qed



text \<open>C23. The decoder's buffers stay consistent: a new decoder has a geometry, strides and scratch buffers that
  fit each other, and loading any input, well formed or not, with any allocation failing, or starting a
  placed frame, accepted or refused, keeps them so.\<close>

theorem decoder_consistent:
  assumes "decoder_new spawn width height color_space workers = Inr d0" "decoder_ok d"
  shows "decoder_ok d0 \<and> decoder_ok (fst (load dc_allocs ac_allocs d input)) \<and> decoder_ok (fst (decode_bgrx_placed allocs d output stride p))"
proof (intro conjI)
  show "decoder_ok d0" by (rule decoder_new_ok [OF assms(1)])
  show "decoder_ok (fst (load dc_allocs ac_allocs d input))" by (rule load_keeps [OF assms(2)])
  show "decoder_ok (fst (decode_bgrx_placed allocs d output stride p))"
    using prepare_placement_keeps [OF assms(2), of allocs p "length output" stride] assms(2)
    by (auto simp: decode_bgrx_placed_def split: prod.splits sum.splits)
qed

theorem decoder_consistent_witness: "\<exists>d. decoder_ok d \<and> decoder_ok (fst (load [] [] d [9, 9, 9, 9, 9]))"
  using decoder_consistent [OF _ small_decoder_ok] small_new small_decoder_ok by blast



text \<open>C25. A frame that does not load is never shown: after a refused load, whatever the reason and however far it got,
  every entry point refuses to decode until another frame has been loaded.\<close>

theorem failed_load_refuses:
  assumes "snd (load dc_allocs ac_allocs d input) = Inl e" "d' = fst (load dc_allocs ac_allocs d input)"
  shows "decode_uyvy d' output stride = Inl VmxEmpty \<and> decode_bgrx d' output stride = Inl VmxEmpty
    \<and> decode_yuv422p d' a b c = Inl VmxEmpty \<and> decode_bgrx_placed allocs d' output stride p = (d', Inl VmxEmpty)"
  using load_failed [OF assms(1)] assms(2)
  by (simp add: decode_uyvy_def decode_bgrx_def decode_yuv422p_def decode_bgrx_placed_def check_packed_def check_planes_def)

theorem failed_load_refuses_witness:
  "decode_bgrx (fst (load [] [] small_decoder [1, 0, 9, 0, 0])) (replicate 2048 0) 64 = Inl VmxEmpty"
  using failed_load_refuses [of "[]" "[]" small_decoder "[1, 0, 9, 0, 0]" SliceCount]
  by (simp add: load_def envelope_def Let_def small_decoder_fields)

end
