(* ===== verification/Json.thy ===== *)
theory Json
  imports Rust_Text Rust_Float
begin

text \<open>
  \<^verbatim>\<open>crates/omt-common/src/json.rs\<close>: the strict JSON parser and the string escaping of the writers. The parser
  is a function of the text that is left, the nesting depth and the budget that is left; \<open>None\<close> would
  mean that the recursion ran out of fuel, which the fuel given never does. A double is a sign and a
  magnitude, so that the two zeros differ; a literal is rounded once, half to even, over the whole range
  of the format.
\<close>

section \<open>Values\<close>

datatype f64v = Finite bool rat | Infinite bool

text \<open>\<open>str::parse::<f64>\<close> on the magnitude of a literal: the nearest double, subnormal ones included.\<close>

definition round_double :: "rat \<Rightarrow> rat option" where
  "round_double x =
     (if x = 0 then Some 0
      else (let e = max (- 1074) (ilog2 x - 52);
                r = of_int (round_half_even (x * 2 powi (- e))) * 2 powi e
            in if 2 powi 1024 \<le> r then None else Some r))"

definition parse_f64 :: "bool \<Rightarrow> rat \<Rightarrow> f64v" where
  "parse_f64 negative x = (case round_double x of None \<Rightarrow> Infinite negative | Some r \<Rightarrow> Finite negative r)"

record number =
  nu_integer :: bool
  nu_negative :: bool
  nu_magnitude :: "nat option"
  nu_value :: f64v

datatype json_value = Null | Bool bool | Number number | String string
  | Array "json_value list" | Object "(string \<times> json_value) list"

definition nu_as_u64 :: "number \<Rightarrow> nat option" where
  "nu_as_u64 n =
     (if \<not> nu_integer n then None
      else Option.bind (nu_magnitude n) (\<lambda>m. if nu_negative n \<and> m \<noteq> 0 then None else Some m))"

definition nu_as_i64 :: "number \<Rightarrow> int option" where
  "nu_as_i64 n =
     (if \<not> nu_integer n then None
      else Option.bind (nu_magnitude n) (\<lambda>m. if nu_negative n then checked_i64 (0 - int m) else checked_i64 (int m)))"

fun get :: "json_value \<Rightarrow> string \<Rightarrow> json_value option" where
  "get (Object members) key = map_option snd (List.find (\<lambda>(k, _). k = key) members)"
| "get _ key = None"

fun only_keys :: "json_value \<Rightarrow> string list \<Rightarrow> bool" where
  "only_keys (Object members) allowed = list_all (\<lambda>(k, _). k \<in> set allowed) members"
| "only_keys _ allowed = False"

fun as_u64 :: "json_value \<Rightarrow> nat option" where
  "as_u64 (Number n) = nu_as_u64 n"
| "as_u64 _ = None"

fun as_i64 :: "json_value \<Rightarrow> int option" where
  "as_i64 (Number n) = nu_as_i64 n"
| "as_i64 _ = None"

fun as_f64 :: "json_value \<Rightarrow> f64v option" where
  "as_f64 (Number n) = Some (nu_value n)"
| "as_f64 _ = None"

fun as_bool :: "json_value \<Rightarrow> bool option" where
  "as_bool (Bool b) = Some b"
| "as_bool _ = None"

fun as_str :: "json_value \<Rightarrow> string option" where
  "as_str (String s) = (if CHR 0x00 \<in> set s then None else Some s)"
| "as_str _ = None"

fun as_raw_str :: "json_value \<Rightarrow> string option" where
  "as_raw_str (String s) = Some s"
| "as_raw_str _ = None"

fun as_array :: "json_value \<Rightarrow> json_value list option" where
  "as_array (Array items) = Some items"
| "as_array _ = None"

fun as_object :: "json_value \<Rightarrow> (string \<times> json_value) list option" where
  "as_object (Object members) = Some members"
| "as_object _ = None"

section \<open>The parser\<close>

abbreviation MAX_DEPTH :: nat where "MAX_DEPTH \<equiv> 128"
abbreviation NODE_COST :: nat where "NODE_COST \<equiv> 80"
abbreviation SLOT_COST :: nat where "SLOT_COST \<equiv> 8"

definition charge :: "nat \<Rightarrow> nat \<Rightarrow> string + nat" where
  "charge budget bytes =
     ok_or (checked_sub budget (saturating_mul USIZE_MAX (div_ceil bytes 16) 16)) ''JSON document too large''"

definition is_json_ws :: "char \<Rightarrow> bool" where
  "is_json_ws c \<longleftrightarrow> byte c = 32 \<or> byte c = 9 \<or> byte c = 10 \<or> byte c = 13"

definition skip_ws :: "string \<Rightarrow> string" where
  "skip_ws s = dropWhile is_json_ws s"

definition json_literal :: "string \<Rightarrow> string \<Rightarrow> string + string" where
  "json_literal word s = (if starts_with word s then Inr (drop (length word) s) else Inl ''invalid JSON literal'')"

fun hex_fold :: "nat \<Rightarrow> string \<Rightarrow> string + nat" where
  "hex_fold v [] = Inr v"
| "hex_fold v (d # ds) =
     (case hex_digit d of None \<Rightarrow> Inl ''invalid JSON escape'' | Some n \<Rightarrow> hex_fold (v * 16 + n) ds)"

definition hex4 :: "string \<Rightarrow> string + (nat \<times> string)" where
  "hex4 s =
     (if length s < 4 then Inl ''truncated JSON escape''
      else and_then (hex_fold 0 (take 4 s)) (\<lambda>v. Inr (v, drop 4 s)))"

definition unicode_escape :: "string \<Rightarrow> string + (nat \<times> string)" where
  "unicode_escape s =
     and_then (hex4 s) (\<lambda>(cp, s).
       if 0xDC00 \<le> cp \<and> cp \<le> 0xDFFF then Inl ''lone JSON surrogate''
       else
         and_then
           (if 0xD800 \<le> cp \<and> cp \<le> 0xDBFF then
              (if \<not> starts_with [CHR 0x5C, CHR ''u''] s then Inl ''lone JSON surrogate''
               else and_then (hex4 (drop 2 s)) (\<lambda>(low, s).
                      if \<not> (0xDC00 \<le> low \<and> low \<le> 0xDFFF) then Inl ''lone JSON surrogate''
                      else Inr (0x10000 + (cp - 0xD800) * 1024 + (low - 0xDC00), s)))
            else Inr (cp, s))
           (\<lambda>(cp, s). if is_scalar cp then Inr (cp, s) else Inl ''invalid JSON escape''))"

definition escape_char :: "char \<Rightarrow> string \<Rightarrow> string + (nat \<times> string)" where
  "escape_char e s =
     (if byte e = 34 then Inr (34, s)
      else if byte e = 92 then Inr (92, s)
      else if e = CHR ''/'' then Inr (47, s)
      else if e = CHR ''b'' then Inr (8, s)
      else if e = CHR ''f'' then Inr (12, s)
      else if e = CHR ''n'' then Inr (10, s)
      else if e = CHR ''r'' then Inr (13, s)
      else if e = CHR ''t'' then Inr (9, s)
      else if e = CHR ''u'' then unicode_escape s
      else Inl ''invalid JSON escape'')"

definition is_plain :: "char \<Rightarrow> bool" where
  "is_plain c \<longleftrightarrow> byte c \<noteq> 34 \<and> byte c \<noteq> 92 \<and> 32 \<le> byte c"

lemma hex4_shorter: "hex4 s = Inr (v, r) \<Longrightarrow> length r \<le> length s"
  by (auto simp: hex4_def and_then_eq_Inr split: if_splits)

lemma unicode_escape_shorter: "unicode_escape s = Inr (cp, r) \<Longrightarrow> length r \<le> length s"
  by (auto simp: unicode_escape_def and_then_eq_Inr split: if_splits prod.splits dest!: hex4_shorter)

lemma escape_char_shorter: "escape_char e s = Inr (cp, r) \<Longrightarrow> length r \<le> length s"
  by (auto simp: escape_char_def split: if_splits dest: unicode_escape_shorter)

text \<open>The loop of \<open>string\<close>: the text decoded so far, and what is left.\<close>

function string_loop :: "string \<Rightarrow> string \<Rightarrow> string + (string \<times> string)" where
  "string_loop acc [] = Inl ''unterminated JSON string''"
| "string_loop acc (c # s) =
     (if byte c = 34 then Inr (acc, s)
      else if byte c < 32 then Inl ''control character in JSON string''
      else if byte c = 92 then
        (case s of
           [] \<Rightarrow> Inl ''truncated JSON escape''
         | e # s \<Rightarrow>
             (case escape_char e s of
                Inl err \<Rightarrow> Inl err
              | Inr (ch, s) \<Rightarrow> string_loop (acc @ encode_char ch) s))
      else string_loop (acc @ takeWhile is_plain (c # s)) (dropWhile is_plain (c # s)))"
  by pat_completeness auto
termination
proof (relation "measure (\<lambda>(acc, s). length s)", goal_cases)
  case (2 acc c s e s' a ch s'')
  then show ?case using escape_char_shorter [of e s'] by fastforce
next
  case (3 acc c s)
  then have "is_plain c" by (simp add: is_plain_def)
  then show ?case using length_dropWhile_le [of is_plain s] by simp
qed simp

declare string_loop.simps(2) [simp del]

definition json_string :: "string \<Rightarrow> nat \<Rightarrow> string + (string \<times> string \<times> nat)" where
  "json_string s budget =
     and_then (string_loop [] s) (\<lambda>(txt, s).
       and_then (charge budget (length txt + 1)) (\<lambda>budget.
         if utf8_valid txt then Inr (txt, s, budget) else Inl ''JSON is not valid UTF-8''))"


subsection \<open>Numbers\<close>

abbreviation INVALID :: string where "INVALID \<equiv> ''invalid JSON number''"

definition digits :: "string \<Rightarrow> string \<times> string" where
  "digits s = (takeWhile is_ascii_digit s, dropWhile is_ascii_digit s)"

fun mag_fold :: "nat \<Rightarrow> string \<Rightarrow> nat option" where
  "mag_fold m [] = Some m"
| "mag_fold m (d # ds) =
     Option.bind (checked_mul U64_MAX m 10) (\<lambda>m. Option.bind (checked_add U64_MAX m (digit_val d)) (\<lambda>m. mag_fold m ds))"

text \<open>The fraction and the exponent: whether there is one, its digits, and what is left.\<close>

definition fraction_part :: "string \<Rightarrow> string + (bool \<times> string \<times> string)" where
  "fraction_part s =
     (if s \<noteq> [] \<and> hd s = CHR ''.'' then
        (let (f, r) = digits (tl s) in if f = [] then Inl INVALID else Inr (True, f, r))
      else Inr (False, [], s))"

definition exponent_part :: "string \<Rightarrow> string + (bool \<times> bool \<times> string \<times> string)" where
  "exponent_part s =
     (if s \<noteq> [] \<and> (hd s = CHR ''e'' \<or> hd s = CHR ''E'') then
        (let s = tl s;
             neg_exp = (s \<noteq> [] \<and> hd s = CHR ''-'');
             s = (if s \<noteq> [] \<and> (hd s = CHR ''+'' \<or> hd s = CHR ''-'') then tl s else s);
             (e, r) = digits s
         in if e = [] then Inl INVALID else Inr (True, neg_exp, e, r))
      else Inr (False, False, [], s))"

definition exact_value :: "string \<Rightarrow> string \<Rightarrow> bool \<Rightarrow> string \<Rightarrow> rat" where
  "exact_value ints fracs neg_exp exps =
     of_nat (decimal (ints @ fracs)) * 10 powi ((if neg_exp then - int (decimal exps) else int (decimal exps)) - int (length fracs))"

definition number_tail :: "bool \<Rightarrow> string \<Rightarrow> string \<Rightarrow> string \<Rightarrow> string + (number \<times> string)" where
  "number_tail negative start ints s =
     and_then (fraction_part s) (\<lambda>(has_fraction, fracs, s).
       and_then (exponent_part s) (\<lambda>(has_exponent, neg_exp, exps, s).
         (let integer = (\<not> has_fraction \<and> \<not> has_exponent);
              magnitude = (if integer then mag_fold 0 ints else None)
          in if 64 \<le> length start - length s then
               (if integer then Inr (\<lparr>nu_integer = integer, nu_negative = negative, nu_magnitude = None, nu_value = Infinite negative\<rparr>, s)
                else Inl ''JSON number too long'')
             else
               (let val = parse_f64 negative (exact_value ints fracs neg_exp exps)
                in if val = Infinite negative \<and> \<not> integer then Inl ''non-finite JSON number''
                   else Inr (\<lparr>nu_integer = integer, nu_negative = negative, nu_magnitude = magnitude, nu_value = val\<rparr>, s)))))"

definition json_number :: "string \<Rightarrow> string + (number \<times> string)" where
  "json_number start =
     (let negative = (start \<noteq> [] \<and> hd start = CHR ''-'');
          s = (if negative then tl start else start)
      in case s of
           [] \<Rightarrow> Inl INVALID
         | c # r \<Rightarrow>
             if c = CHR ''0'' then
               (if r \<noteq> [] \<and> is_ascii_digit (hd r) then Inl INVALID else number_tail negative start [c] r)
             else if is_ascii_digit c then
               (let (ints, r) = digits s in number_tail negative start ints r)
             else Inl INVALID)"

subsection \<open>Values and containers\<close>

type_synonym 'a parsed = "(string + ('a \<times> string \<times> nat)) option"

definition finish_container :: "bool \<Rightarrow> json_value list \<Rightarrow> (string \<times> json_value) list \<Rightarrow> json_value" where
  "finish_container object items members = (if object then Object members else Array items)"

text \<open>The key of a member, up to and with its colon.\<close>

definition member_key :: "(string \<times> json_value) list \<Rightarrow> string \<Rightarrow> nat \<Rightarrow> string + (string \<times> string \<times> nat)" where
  "member_key members s budget =
     (let s = skip_ws s
      in if s = [] \<or> byte (hd s) \<noteq> 34 then Inl ''expected JSON object key''
         else
           and_then (json_string (tl s) budget) (\<lambda>(key, s, budget).
             if list_ex (\<lambda>(k, _). k = key) members then Inl ''duplicate JSON key''
             else
               (let s = skip_ws s
                in if s = [] \<or> hd s \<noteq> CHR '':'' then Inl (''expected '' @ [CHR 0x27, CHR '':'', CHR 0x27] @ '' in JSON object'') else Inr (key, tl s, budget))))"

text \<open>\<open>value\<close> and the loop of \<open>container\<close>, given the functions they call for what is nested.\<close>

definition container :: "(bool \<Rightarrow> nat \<Rightarrow> json_value list \<Rightarrow> (string \<times> json_value) list \<Rightarrow> string \<Rightarrow> nat \<Rightarrow> json_value parsed)
    \<Rightarrow> bool \<Rightarrow> nat \<Rightarrow> string \<Rightarrow> nat \<Rightarrow> json_value parsed" where
  "container items_loop object depth r budget =
     (if MAX_DEPTH < depth + 1 then Some (Inl ''JSON nested too deeply'')
      else
        (let s = skip_ws r
         in if s \<noteq> [] \<and> hd s = (if object then CHR ''}'' else CHR '']'')
            then Some (Inr (finish_container object [] [], tl s, budget))
            else items_loop object (depth + 1) [] [] s budget))"

definition val_step :: "(bool \<Rightarrow> nat \<Rightarrow> json_value list \<Rightarrow> (string \<times> json_value) list \<Rightarrow> string \<Rightarrow> nat \<Rightarrow> json_value parsed)
    \<Rightarrow> nat \<Rightarrow> string \<Rightarrow> nat \<Rightarrow> json_value parsed" where
  "val_step items_loop depth txt budget =
     (let s = skip_ws txt
      in case s of
           [] \<Rightarrow> Some (Inl ''unexpected end of JSON'')
         | c # r \<Rightarrow>
             (case charge budget NODE_COST of
                Inl e \<Rightarrow> Some (Inl e)
              | Inr budget \<Rightarrow>
                  if c = CHR ''n'' then Some (and_then (json_literal ''null'' s) (\<lambda>s. Inr (Null, s, budget)))
                  else if c = CHR ''t'' then Some (and_then (json_literal ''true'' s) (\<lambda>s. Inr (Bool True, s, budget)))
                  else if c = CHR ''f'' then Some (and_then (json_literal ''false'' s) (\<lambda>s. Inr (Bool False, s, budget)))
                  else if byte c = 34 then Some (and_then (json_string r budget) (\<lambda>(t, s, budget). Inr (String t, s, budget)))
                  else if c = CHR ''['' \<or> c = CHR ''{'' then
                    container items_loop (c = CHR ''{'') depth r budget
                  else if c = CHR ''-'' \<or> is_ascii_digit c then Some (and_then (json_number s) (\<lambda>(m, s). Inr (Number m, s, budget)))
                  else Some (Inl ''unexpected JSON character'')))"

definition items_step :: "(nat \<Rightarrow> string \<Rightarrow> nat \<Rightarrow> json_value parsed)
    \<Rightarrow> (bool \<Rightarrow> nat \<Rightarrow> json_value list \<Rightarrow> (string \<times> json_value) list \<Rightarrow> string \<Rightarrow> nat \<Rightarrow> json_value parsed)
    \<Rightarrow> bool \<Rightarrow> nat \<Rightarrow> json_value list \<Rightarrow> (string \<times> json_value) list \<Rightarrow> string \<Rightarrow> nat \<Rightarrow> json_value parsed" where
  "items_step val_of items_loop object depth items members s budget =
     (case and_then (charge budget (if object then SLOT_COST * 3 else SLOT_COST))
             (\<lambda>budget. if object then member_key members s budget else Inr ([], s, budget)) of
        Inl e \<Rightarrow> Some (Inl e)
      | Inr (key, s, budget) \<Rightarrow>
          (case val_of depth s budget of
             None \<Rightarrow> None
           | Some (Inl e) \<Rightarrow> Some (Inl e)
           | Some (Inr (v, s, budget)) \<Rightarrow>
               (let items = (if object then items else items @ [v]);
                    members = (if object then members @ [(key, v)] else members);
                    s = skip_ws s
                in if s = [] then Some (Inl ''unexpected end of JSON'')
                   else if hd s = CHR '','' then items_loop object depth items members (tl s) budget
                   else if hd s = (if object then CHR ''}'' else CHR '']'')
                   then Some (Inr (finish_container object items members, tl s, budget))
                   else Some (Inl (''expected '' @ [CHR 0x27, CHR '','', CHR 0x27] @ '' in JSON container'')))))"

fun json_val :: "nat \<Rightarrow> nat \<Rightarrow> string \<Rightarrow> nat \<Rightarrow> json_value parsed"
and json_items :: "nat \<Rightarrow> bool \<Rightarrow> nat \<Rightarrow> json_value list \<Rightarrow> (string \<times> json_value) list \<Rightarrow> string \<Rightarrow> nat \<Rightarrow> json_value parsed" where
  "json_val 0 = (\<lambda>depth s budget. None)"
| "json_val (Suc n) = val_step (json_items n)"
| "json_items 0 = (\<lambda>object depth items members s budget. None)"
| "json_items (Suc n) = items_step (json_val n) (json_items n)"

text \<open>Twice the length of the text and one more is fuel enough, as \<open>json_val_total\<close> shows.\<close>

definition parse_with_budget :: "string \<Rightarrow> nat \<Rightarrow> (string + json_value) option" where
  "parse_with_budget txt budget =
     (if \<not> utf8_valid txt then Some (Inl ''JSON is not valid UTF-8'')
      else
        (case json_val (2 * length txt + 1) 0 txt budget of
           None \<Rightarrow> None
         | Some (Inl e) \<Rightarrow> Some (Inl e)
         | Some (Inr (v, s, _)) \<Rightarrow>
             if skip_ws s \<noteq> [] then Some (Inl ''trailing characters after JSON'') else Some (Inr v)))"

definition json_parse :: "string \<Rightarrow> (string + json_value) option" where
  "json_parse txt = parse_with_budget txt (saturating_add USIZE_MAX (saturating_mul USIZE_MAX (length txt) 64) 65536)"

section \<open>The writer\<close>

definition write_escape :: "char \<Rightarrow> string" where
  "write_escape c =
     (if byte c = 34 then [CHR 0x5C, CHR 0x22]
      else if byte c = 92 then [CHR 0x5C, CHR 0x5C]
      else if byte c = 8 then [CHR 0x5C, CHR ''b'']
      else if byte c = 12 then [CHR 0x5C, CHR ''f'']
      else if byte c = 10 then [CHR 0x5C, CHR ''n'']
      else if byte c = 13 then [CHR 0x5C, CHR ''r'']
      else if byte c = 9 then [CHR 0x5C, CHR ''t'']
      else CHR 0x5C # ''u00'' @ [hex_char (byte c div 16), hex_char (byte c mod 16)])"

text \<open>The loop: the bytes left, the run of bytes not yet copied, and the output.\<close>

fun write_loop :: "string \<Rightarrow> string \<Rightarrow> string \<Rightarrow> string" where
  "write_loop [] run out = out @ run"
| "write_loop (c # s) run out =
     (if byte c = 34 \<or> byte c = 92 \<or> byte c < 32 then write_loop s [] (out @ run @ write_escape c)
      else write_loop s (run @ [c]) out)"

definition write_string :: "string \<Rightarrow> string \<Rightarrow> string" where
  "write_string out s = write_loop s [] (out @ [CHR 0x22]) @ [CHR 0x22]"

definition quote :: "string \<Rightarrow> string" where
  "quote s = write_string [] s"

text \<open>\<open>Value::wipe\<close> empties every string.\<close>

fun json_wipe :: "json_value \<Rightarrow> json_value" where
  "json_wipe (String s) = String []"
| "json_wipe (Array items) = Array (map json_wipe items)"
| "json_wipe (Object members) = Object (map (\<lambda>(k, v). ([], json_wipe v)) members)"
| "json_wipe v = v"


section \<open>The parser ends, and consumes what it reads\<close>

lemma skip_ws_le: "length (skip_ws s) \<le> length s"
  by (simp add: skip_ws_def length_dropWhile_le)

lemma string_loop_shorter: "string_loop acc s = Inr (t, r) \<Longrightarrow> length r < length s"
proof (induction acc s rule: string_loop.induct)
  case (2 acc c s)
  note [simp] = string_loop.simps(2) [of acc c s]
  consider (close) "byte c = 34" | (esc) "byte c = 92" "byte c \<noteq> 34" "\<not> byte c < 32" | (plain) "byte c \<noteq> 92" "byte c \<noteq> 34" "\<not> byte c < 32"
    using "2.prems" by (auto split: if_splits)
  then show ?case
  proof cases
    case close
    then show ?thesis using "2.prems" by simp
  next
    case esc
    then obtain e s1 cp s2 where s: "s = e # s1" "escape_char e s1 = Inr (cp, s2)" "string_loop (acc @ encode_char cp) s2 = Inr (t, r)"
      using "2.prems" by (auto split: list.splits sum.splits)
    then have "length r < length s2" using "2.IH"(1) esc by blast
    then show ?thesis using escape_char_shorter [OF s(2)] s(1) by simp
  next
    case plain
    then have p: "is_plain c" by (simp add: is_plain_def)
    have "length r < length (dropWhile is_plain (c # s))" using "2.IH"(2) "2.prems" plain by simp
    then show ?thesis using p length_dropWhile_le [of is_plain s] by simp
  qed
qed simp

lemma json_string_shorter: "json_string s b = Inr (t, r, b') \<Longrightarrow> length r < length s"
  by (auto simp: json_string_def and_then_eq_Inr split: if_splits dest!: string_loop_shorter)

lemma digits_le: "digits s = (d, r) \<Longrightarrow> length r \<le> length s"
  by (auto simp: digits_def length_dropWhile_le)

lemma fraction_part_le: "fraction_part s = Inr (b, f, r) \<Longrightarrow> length r \<le> length s"
  using length_dropWhile_le [of is_ascii_digit "tl s"] by (auto simp: fraction_part_def digits_def split: if_splits)

lemma exponent_part_le: "exponent_part s = Inr (b, m, e, r) \<Longrightarrow> length r \<le> length s"
  using length_dropWhile_le [of is_ascii_digit "tl s"] length_dropWhile_le [of is_ascii_digit "tl (tl s)"]
  by (auto simp: exponent_part_def digits_def Let_def split: if_splits)

lemma number_tail_le: "number_tail neg start ints s = Inr (m, r) \<Longrightarrow> length r \<le> length s"
  by (auto simp: number_tail_def and_then_eq_Inr Let_def split: if_splits dest!: fraction_part_le exponent_part_le)

lemma json_number_shorter: "json_number s = Inr (m, r) \<Longrightarrow> length r < length s"
proof -
  assume a: "json_number s = Inr (m, r)"
  let ?s = "if s \<noteq> [] \<and> hd s = CHR ''-'' then tl s else s"
  obtain c t where t: "?s = c # t" using a by (cases ?s) (simp_all add: json_number_def Let_def)
  have "length ?s \<le> length s" by simp
  moreover have "length r < length ?s"
    using a t length_dropWhile_le [of is_ascii_digit t] unfolding json_number_def Let_def t
    by (auto simp: digits_def split: if_splits dest!: number_tail_le)
  ultimately show ?thesis by linarith
qed

lemma json_literal_shorter: "word \<noteq> [] \<Longrightarrow> json_literal word s = Inr r \<Longrightarrow> length r < length s"
  by (auto simp: json_literal_def starts_with_def split: if_splits) (metis diff_less length_greater_0_conv take_eq_Nil)

lemma member_key_shorter: "member_key members s b = Inr (k, r, b') \<Longrightarrow> length r < length s"
  using skip_ws_le [of s]
  by (auto simp: member_key_def and_then_eq_Inr Let_def split: if_splits dest!: json_string_shorter)
    (metis (no_types, lifting) diff_Suc_less le_trans length_greater_0_conv length_tl less_le_trans less_trans not_less skip_ws_le)

definition consumes :: "('a parsed) \<Rightarrow> nat \<Rightarrow> bool" where
  "consumes r n \<longleftrightarrow> (case r of Some (Inr (v, s, b)) \<Rightarrow> length s < n | _ \<Rightarrow> True)"


lemma consumes_Some [simp]:
  "consumes None n" "consumes (Some (Inl e)) n" "consumes (Some (Inr (v, s, b))) n \<longleftrightarrow> length s < n"
  by (simp_all add: consumes_def)

lemma consumes_and_then: "consumes (Some (and_then x g)) n \<longleftrightarrow> (\<forall>y. x = Inr y \<longrightarrow> consumes (Some (g y)) n)"
  by (cases x) simp_all

lemma consumes_mono: "consumes r m \<Longrightarrow> m \<le> n \<Longrightarrow> consumes r n"
  by (auto simp: consumes_def split: option.splits sum.splits)

lemma skip_ws_Cons: "skip_ws s = c # r \<Longrightarrow> length r < length s"
  using skip_ws_le [of s] by simp

lemma val_step_consumes:
  assumes "\<And>object items members s b. length s < length txt \<Longrightarrow> consumes (f object (depth + 1) items members s b) (length txt)"
  shows "consumes (val_step f depth txt budget) (length txt)"
proof (cases "skip_ws txt")
  case Nil
  then show ?thesis by (simp add: val_step_def)
next
  case (Cons c r)
  note len = skip_ws_Cons [OF Cons]
  have lit: "length s < length txt" if "json_literal word (c # r) = Inr s" "word \<noteq> []" for word s
    using json_literal_shorter [OF that(2,1)] len by simp
  have str: "length s < length txt" if "json_string r b = Inr (t, s, b')" for t s b b'
    using json_string_shorter [OF that] len by simp
  have num: "length s < length txt" if "json_number (c # r) = Inr (m, s)" for m s
    using json_number_shorter [OF that] len by simp
  have ws: "length (skip_ws r) < length txt" using skip_ws_le [of r] len by simp
  have tl: "length (tl (skip_ws r)) < length txt" using ws by simp
  have con: "consumes (container f object depth r b) (length txt)" for object b
    using tl assms [OF ws] by (simp add: container_def Let_def)
  show ?thesis
    unfolding val_step_def Let_def Cons
    using lit str num con
    by (auto simp: consumes_and_then split: sum.split)
qed

lemma items_step_consumes:
  assumes "\<And>s b. length s \<le> length txt \<Longrightarrow> consumes (v depth s b) (length s)"
    "\<And>items members s b. length s < length txt \<Longrightarrow> consumes (f object depth items members s b) (length s)"
  shows "consumes (items_step v f object depth items members txt budget) (length txt)"
proof (cases "and_then (charge budget (if object then SLOT_COST * 3 else SLOT_COST))
    (\<lambda>budget. if object then member_key members txt budget else Inr ([], txt, budget))")
  case (Inl e)
  then show ?thesis unfolding items_step_def by simp
next
  case (Inr x)
  obtain key s b where x: "x = (key, s, b)" by (cases x)
  have ls: "length s \<le> length txt"
    using Inr x member_key_shorter [of members "txt" _ key s b] by (fastforce simp: and_then_eq_Inr split: if_splits)
  show ?thesis
  proof (cases "v depth s b")
    case None
    then show ?thesis unfolding items_step_def Inr x by simp
  next
    case (Some r)
    show ?thesis
    proof (cases r)
      case Inl
      then show ?thesis using Some unfolding items_step_def Inr x by simp
    next
      case r: (Inr y)
      obtain w t b' where y: "y = (w, t, b')" by (cases y)
      have "length t < length s" using assms(1) [OF ls, of b] Some r y by simp
      then have t: "length (skip_ws t) < length txt" using skip_ws_le [of t] ls by linarith
      then have tl: "length (tl (skip_ws t)) < length txt" by simp
      have f: "consumes (f object depth i m (tl (skip_ws t)) b') (length txt)" for i m
        using consumes_mono [OF assms(2) [OF tl]] tl by simp
      show ?thesis using Some r y tl f unfolding items_step_def Inr x by (simp add: Let_def)
    qed
  qed
qed

lemma json_consumes:
  "consumes (json_val n depth s budget) (length s)"
  "consumes (json_items n object depth items members s budget) (length s)"
proof (induction n arbitrary: depth s budget object items members)
  case 0
  { case 1 then show ?case by simp }
  { case 2 then show ?case by simp }
next
  case (Suc n)
  { case 1
    show ?case unfolding json_val.simps
      using consumes_mono [OF Suc.IH(2)] by (intro val_step_consumes) simp }
  { case 2
    show ?case unfolding json_items.simps using Suc.IH by (intro items_step_consumes) }
qed

text \<open>With that, the fuel is enough.\<close>

lemma val_step_total:
  assumes "\<And>object s b. length s < length txt \<Longrightarrow> f object (depth + 1) [] [] s b \<noteq> None"
  shows "val_step f depth txt budget \<noteq> None"
proof (cases "skip_ws txt")
  case Nil
  then show ?thesis by (simp add: val_step_def)
next
  case (Cons c r)
  then have "length (skip_ws r) < length txt" using skip_ws_le [of r] skip_ws_Cons [OF Cons] by simp
  then have "container f object depth r b \<noteq> None" for object b using assms by (simp add: container_def Let_def)
  then show ?thesis unfolding val_step_def Let_def Cons by (simp split: sum.split)
qed

lemma items_step_total:
  assumes "\<And>s b. length s \<le> length txt \<Longrightarrow> v depth s b \<noteq> None \<and> consumes (v depth s b) (length s)"
    "\<And>items members s b. length s < length txt \<Longrightarrow> f object depth items members s b \<noteq> None"
  shows "items_step v f object depth items members txt budget \<noteq> None"
proof (cases "and_then (charge budget (if object then SLOT_COST * 3 else SLOT_COST))
    (\<lambda>budget. if object then member_key members txt budget else Inr ([], txt, budget))")
  case (Inl e)
  then show ?thesis unfolding items_step_def by simp
next
  case (Inr x)
  obtain key s b where x: "x = (key, s, b)" by (cases x)
  have ls: "length s \<le> length txt"
    using Inr x member_key_shorter [of members "txt" _ key s b] by (fastforce simp: and_then_eq_Inr split: if_splits)
  obtain r where r: "v depth s b = Some r" "consumes (Some r) (length s)" using assms(1) [OF ls, of b] by fastforce
  show ?thesis
  proof (cases r)
    case Inl
    then show ?thesis using r unfolding items_step_def Inr x by simp
  next
    case q: (Inr y)
    obtain w t b' where y: "y = (w, t, b')" by (cases y)
    have "length (tl (skip_ws t)) < length txt" using r(2) q y skip_ws_le [of t] ls by simp
    then show ?thesis using r(1) q y assms(2) unfolding items_step_def Inr x by (simp add: Let_def)
  qed
qed

lemma json_total:
  "2 * length s + 1 \<le> n \<Longrightarrow> json_val n depth s budget \<noteq> None"
  "2 * length s + 2 \<le> n \<Longrightarrow> json_items n object depth items members s budget \<noteq> None"
proof (induction n arbitrary: depth s budget object items members)
  case 0
  { case 1 then show ?case by simp }
  { case 2 then show ?case by simp }
next
  case (Suc n)
  { case 1
    then show ?case unfolding json_val.simps using Suc.IH(2) by (intro val_step_total) simp }
  { case 2
    then show ?case unfolding json_items.simps using Suc.IH json_consumes(1) by (intro items_step_total) simp_all }
qed


section \<open>What the parser accepts\<close>

text \<open>A document of at most \<open>n\<close> levels whose keys are unique at every depth and whose strings are UTF-8.\<close>

fun doc_ok :: "nat \<Rightarrow> json_value \<Rightarrow> bool" where
  "doc_ok n (Array items) \<longleftrightarrow> 0 < n \<and> (\<forall>v\<in>set items. doc_ok (n - 1) v)"
| "doc_ok n (Object members) \<longleftrightarrow>
     0 < n \<and> distinct (map fst members) \<and> (\<forall>m\<in>set members. utf8_valid (fst m) \<and> doc_ok (n - 1) (snd m))"
| "doc_ok n (String s) \<longleftrightarrow> utf8_valid s"
| "doc_ok n v \<longleftrightarrow> True"

definition gives :: "(json_value \<Rightarrow> bool) \<Rightarrow> json_value parsed \<Rightarrow> bool" where
  "gives P r \<longleftrightarrow> (case r of Some (Inr (v, s, b)) \<Rightarrow> P v | _ \<Rightarrow> True)"

lemma gives_simps [simp]:
  "gives P None" "gives P (Some (Inl e))" "gives P (Some (Inr (v, s, b))) \<longleftrightarrow> P v"
  by (simp_all add: gives_def)

lemma gives_and_then: "gives P (Some (and_then x g)) \<longleftrightarrow> (\<forall>y. x = Inr y \<longrightarrow> gives P (Some (g y)))"
  by (cases x) simp_all

lemma json_string_utf8: "json_string s b = Inr (t, r, b') \<Longrightarrow> utf8_valid t"
  by (auto simp: json_string_def and_then_eq_Inr split: if_splits)

lemma member_key_ok: "member_key members s b = Inr (k, r, b') \<Longrightarrow> utf8_valid k \<and> k \<notin> fst ` set members"
  by (auto simp: member_key_def and_then_eq_Inr Let_def list_ex_iff split: if_splits dest!: json_string_utf8)

lemma val_step_gives:
  assumes "\<And>object s b. depth < MAX_DEPTH \<Longrightarrow> gives (doc_ok (MAX_DEPTH - depth)) (f object (depth + 1) [] [] s b)"
  shows "gives (doc_ok (MAX_DEPTH - depth)) (val_step f depth txt budget)"
proof (cases "skip_ws txt")
  case Nil
  then show ?thesis by (simp add: val_step_def)
next
  case (Cons c r)
  have con: "gives (doc_ok (MAX_DEPTH - depth)) (container f object depth r b)" for object b
    using assms by (simp add: container_def Let_def finish_container_def)
  show ?thesis unfolding val_step_def Let_def Cons using con
    by (auto simp: gives_and_then dest: json_string_utf8 split: sum.split)
qed

definition parts_ok :: "nat \<Rightarrow> json_value list \<Rightarrow> (string \<times> json_value) list \<Rightarrow> bool" where
  "parts_ok n items members \<longleftrightarrow> (\<forall>v\<in>set items. doc_ok n v)
     \<and> distinct (map fst members) \<and> (\<forall>m\<in>set members. utf8_valid (fst m) \<and> doc_ok n (snd m))"

lemma items_step_gives:
  assumes "parts_ok n items members" "\<And>s b. gives (doc_ok n) (v depth s b)"
    "\<And>items members s b. parts_ok n items members \<Longrightarrow> gives (doc_ok (Suc n)) (f object depth items members s b)"
  shows "gives (doc_ok (Suc n)) (items_step v f object depth items members txt budget)"
proof (cases "and_then (charge budget (if object then SLOT_COST * 3 else SLOT_COST))
    (\<lambda>budget. if object then member_key members txt budget else Inr ([], txt, budget))")
  case (Inl e)
  then show ?thesis unfolding items_step_def by simp
next
  case (Inr x)
  obtain key s b where x: "x = (key, s, b)" by (cases x)
  have key: "utf8_valid key \<and> key \<notin> fst ` set members" if ob: object
  proof -
    obtain b0 where "member_key members txt b0 = Inr (key, s, b)" using Inr x ob by (auto simp: and_then_eq_Inr)
    then show ?thesis by (rule member_key_ok)
  qed
  show ?thesis
  proof (cases "v depth s b")
    case None
    then show ?thesis unfolding items_step_def Inr x by simp
  next
    case (Some r)
    show ?thesis
    proof (cases r)
      case Inl
      then show ?thesis using Some unfolding items_step_def Inr x by simp
    next
      case r: (Inr y)
      obtain w t b' where y: "y = (w, t, b')" by (cases y)
      let ?i = "if object then items else items @ [w]" and ?m = "if object then members @ [(key, w)] else members"
      have "doc_ok n w" using assms(2) [of s b] Some r y by simp
      then have p: "parts_ok n ?i ?m" using assms(1) key by (auto simp: parts_ok_def)
      then have "doc_ok (Suc n) (finish_container object ?i ?m)" by (cases object) (simp_all add: parts_ok_def finish_container_def)
      then show ?thesis using Some r y assms(3) [OF p] unfolding items_step_def Inr x by (simp add: Let_def)
    qed
  qed
qed

lemma json_gives:
  "depth \<le> MAX_DEPTH \<Longrightarrow> gives (doc_ok (MAX_DEPTH - depth)) (json_val n depth s budget)"
  "parts_ok (MAX_DEPTH - depth) items members \<Longrightarrow> depth \<le> MAX_DEPTH \<Longrightarrow>
     gives (doc_ok (Suc (MAX_DEPTH - depth))) (json_items n object depth items members s budget)"
proof (induction n arbitrary: depth s budget object items members)
  case 0
  { case 1 then show ?case by simp }
  { case 2 then show ?case by simp }
next
  case (Suc n)
  { case 1
    show ?case unfolding json_val.simps
    proof (intro val_step_gives)
      fix object s b assume "depth < MAX_DEPTH"
      then have "Suc (MAX_DEPTH - (depth + 1)) = MAX_DEPTH - depth" "depth + 1 \<le> MAX_DEPTH" by arith+
      then show "gives (doc_ok (MAX_DEPTH - depth)) (json_items n object (depth + 1) [] [] s b)"
        using Suc.IH(2) [of "depth + 1" "[]" "[]" object s b] by (simp only: parts_ok_def) simp
    qed }
  { case 2
    then show ?case unfolding json_items.simps using Suc.IH by (intro items_step_gives) simp_all }
qed

section \<open>Documents read back\<close>

text \<open>A writer of whole documents, as the callers compose them: no white space, strings by
  \<open>write_string\<close>, integers in decimal.\<close>

definition int_number :: "int \<Rightarrow> number" where
  "int_number i =
     \<lparr>nu_integer = True, nu_negative = (i < 0), nu_magnitude = Some (nat \<bar>i\<bar>), nu_value = parse_f64 (i < 0) (of_int \<bar>i\<bar>)\<rparr>"

definition number_text :: "number \<Rightarrow> string" where
  "number_text m = (if nu_negative m then [CHR ''-''] else []) @ show_nat (the (nu_magnitude m))"

fun join :: "string list \<Rightarrow> string" where
  "join [] = []"
| "join [x] = x"
| "join (x # y # xs) = x @ CHR '','' # join (y # xs)"

fun render :: "json_value \<Rightarrow> string" where
  "render Null = ''null''"
| "render (Bool b) = (if b then ''true'' else ''false'')"
| "render (Number m) = number_text m"
| "render (String s) = quote s"
| "render (Array items) = CHR ''['' # join (map render items) @ '']''"
| "render (Object members) = CHR ''{'' # join (map (\<lambda>(k, v). quote k @ CHR '':'' # render v) members) @ ''}''"

text \<open>The numbers it writes are the integers of 64 bits, signed or unsigned.\<close>

fun integers_only :: "json_value \<Rightarrow> bool" where
  "integers_only (Number m) \<longleftrightarrow> (\<exists>i. I64_MIN \<le> i \<and> i \<le> int U64_MAX \<and> m = int_number i)"
| "integers_only (Array items) \<longleftrightarrow> (\<forall>v\<in>set items. integers_only v)"
| "integers_only (Object members) \<longleftrightarrow> (\<forall>m\<in>set members. integers_only (snd m))"
| "integers_only v \<longleftrightarrow> True"

lemma write_loop_concat:
  "write_loop s run out = out @ run @ concat (map (\<lambda>c. if byte c = 34 \<or> byte c = 92 \<or> byte c < 32 then write_escape c else [c]) s)"
  by (induction s arbitrary: run out) auto

lemma quote_concat:
  "quote s = CHR 0x22 # concat (map (\<lambda>c. if byte c = 34 \<or> byte c = 92 \<or> byte c < 32 then write_escape c else [c]) s) @ [CHR 0x22]"
  by (simp add: quote_def write_string_def write_loop_concat)

lemma write_string_quote: "write_string out s = out @ quote s"
  by (simp add: quote_def write_string_def write_loop_concat)


lemma string_loop_plain:
  assumes "is_plain c"
  shows "string_loop acc (c # s) = string_loop (acc @ [c]) s"
proof -
  have c: "string_loop acc (c # s) = string_loop (acc @ c # takeWhile is_plain s) (dropWhile is_plain s)"
    using assms by (simp add: string_loop.simps(2) [of acc] is_plain_def)
  show ?thesis
  proof (cases s)
    case (Cons d r)
    show ?thesis
    proof (cases "is_plain d")
      case True
      then have "string_loop (acc @ [c]) (d # r) = string_loop ((acc @ [c]) @ d # takeWhile is_plain r) (dropWhile is_plain r)"
        by (simp add: string_loop.simps(2) [of "acc @ [c]"] is_plain_def)
      then show ?thesis using c Cons True by simp
    next
      case False
      then show ?thesis using c Cons by simp
    qed
  qed (use c in simp)
qed

lemma char_eq_byte: "byte c = n \<Longrightarrow> c = char_of n"
  by (metis char_of_char)

lemma string_loop_escape:
  assumes "byte c = 34 \<or> byte c = 92 \<or> byte c < 32"
  shows "string_loop acc (write_escape c @ s) = string_loop (acc @ [c]) s"
proof -
  have enc: "encode_char (byte c) = [c]" using assms by (auto simp: encode_char_def)
  have bs: "string_loop acc (CHR 0x5C # e # r) = (case escape_char e r of Inl err \<Rightarrow> Inl err | Inr (ch, s) \<Rightarrow> string_loop (acc @ encode_char ch) s)" for e r
    by (simp add: string_loop.simps(2) [of acc])
  show ?thesis
  proof (cases "byte c \<in> {34, 92, 8, 12, 10, 13, 9}")
    case True
    then have "\<exists>e. write_escape c = [CHR 0x5C, e] \<and> (\<forall>r. escape_char e r = Inr (byte c, r))"
      by (auto simp: write_escape_def escape_char_def)
    then show ?thesis using bs enc by auto
  next
    case False
    let ?h = "hex_char (byte c div 16)" and ?l = "hex_char (byte c mod 16)"
    have lt: "byte c < 32" using False assms by auto
    have w: "write_escape c = CHR 0x5C # CHR ''u'' # [CHR ''0'', CHR ''0'', ?h, ?l]" using False by (auto simp: write_escape_def)
    have "hex_digit ?h = Some (byte c div 16)" "hex_digit ?l = Some (byte c mod 16)" using lt by (intro hex_digit_hex_char, simp)+
    moreover have "hex_digit (CHR ''0'') = Some 0" by (simp add: hex_digit_def is_ascii_digit_def)
    ultimately have "hex4 (CHR ''0'' # CHR ''0'' # ?h # ?l # s) = Inr (byte c, s)" by (simp add: hex4_def)
    then have "escape_char (CHR ''u'') (CHR ''0'' # CHR ''0'' # ?h # ?l # s) = Inr (byte c, s)"
      using lt by (simp add: escape_char_def unicode_escape_def is_scalar_def)
    then show ?thesis unfolding w using bs enc by simp
  qed
qed

lemma string_loop_quoted:
  "string_loop acc (concat (map (\<lambda>c. if byte c = 34 \<or> byte c = 92 \<or> byte c < 32 then write_escape c else [c]) s) @ CHR 0x22 # r)
     = Inr (acc @ s, r)"
proof (induction s arbitrary: acc)
  case Nil
  then show ?case by (simp add: string_loop.simps(2) [of acc])
next
  case (Cons c s)
  show ?case
  proof (cases "byte c = 34 \<or> byte c = 92 \<or> byte c < 32")
    case True
    then show ?thesis using string_loop_escape [OF True, of acc] Cons.IH by simp
  next
    case False
    then have "is_plain c" by (auto simp: is_plain_def)
    then show ?thesis using False string_loop_plain [of c acc] Cons.IH by simp
  qed
qed

definition rounded :: "nat \<Rightarrow> nat" where
  "rounded n = div_ceil n 16 * 16"

lemma rounded_bounds: "n \<le> rounded n \<and> rounded n \<le> n + 15"
  using div_ceil_bounds [of 16 n] by (simp add: rounded_def)

lemma charge_ok: "rounded n \<le> b \<Longrightarrow> b \<le> USIZE_MAX \<Longrightarrow> charge b n = Inr (b - rounded n)"
  by (simp add: charge_def saturating_mul_def checked_sub_def rounded_def)

lemma json_string_quoted:
  assumes "utf8_valid s" "rounded (length s + 1) \<le> b" "b \<le> USIZE_MAX"
  shows "json_string (tl (quote s @ r)) b = Inr (s, r, b - rounded (length s + 1))"
  using assms string_loop_quoted [of "[]" s r] by (simp add: json_string_def quote_concat charge_ok)


text \<open>Numbers read back.\<close>

lemma decimal_Cons: "decimal (d # s) = digit_val d * 10 ^ length s + decimal s"
proof (induction s rule: rev_induct)
  case (snoc c s)
  then show ?case using decimal_append [of "d # s" c] decimal_append [of s c] by (simp add: algebra_simps)
qed (simp add: decimal_def)

lemma mag_fold_decimal:
  assumes "\<forall>c\<in>set s. is_ascii_digit c" "m * 10 ^ length s + decimal s \<le> U64_MAX"
  shows "mag_fold m s = Some (m * 10 ^ length s + decimal s)"
  using assms
proof (induction s arbitrary: m)
  case Nil
  then show ?case by (simp add: decimal_def)
next
  case (Cons d s)
  note d = decimal_Cons [of d s]
  have le: "(m * 10 + digit_val d) * 10 ^ length s + decimal s \<le> U64_MAX" using Cons.prems(2) d by (simp add: algebra_simps)
  have "m * 10 + digit_val d \<le> (m * 10 + digit_val d) * 10 ^ length s" by simp
  then have "m * 10 + digit_val d \<le> U64_MAX" using le by linarith
  then show ?case using Cons.IH [of "m * 10 + digit_val d"] Cons.prems(1) le d
    by (simp add: checked_mul_def checked_add_def algebra_simps)
qed

definition stops :: "string \<Rightarrow> bool" where
  "stops r \<longleftrightarrow> r = [] \<or> hd r \<in> {CHR '','', CHR '']'', CHR ''}''} \<or> is_json_ws (hd r)"

lemma stops_number:
  assumes "stops r"
  shows "fraction_part r = Inr (False, [], r)" "exponent_part r = Inr (False, False, [], r)"
    "takeWhile is_ascii_digit r = []" "dropWhile is_ascii_digit r = r" "r \<noteq> [] \<Longrightarrow> \<not> is_ascii_digit (hd r)"
proof -
  have h: "r \<noteq> [] \<Longrightarrow> \<not> is_ascii_digit (hd r)" using assms by (auto simp: stops_def is_ascii_digit_def is_json_ws_def)
  then show "takeWhile is_ascii_digit r = []" "dropWhile is_ascii_digit r = r" "r \<noteq> [] \<Longrightarrow> \<not> is_ascii_digit (hd r)"
    by (cases r; simp)+
  show "fraction_part r = Inr (False, [], r)" "exponent_part r = Inr (False, False, [], r)"
    using assms by (auto simp: stops_def fraction_part_def exponent_part_def is_json_ws_def)
qed

lemma json_number_text:
  assumes "I64_MIN \<le> i" "i \<le> int U64_MAX" "stops r"
  shows "json_number (number_text (int_number i) @ r) = Inr (int_number i, r)"
proof -
  let ?n = "nat \<bar>i\<bar>"
  let ?t = "number_text (int_number i) @ r"
  have n: "?n \<le> U64_MAX" using assms(1,2) by auto
  have t: "?t = (if i < 0 then [CHR ''-''] else []) @ show_nat ?n @ r" by (simp add: number_text_def int_number_def)
  obtain c s where cs: "show_nat ?n = c # s" using show_nat_nonempty by (cases "show_nat ?n") auto
  have dig: "is_ascii_digit c" "\<forall>d\<in>set s. is_ascii_digit d" using show_nat_digits [of ?n] cs by auto
  have neg: "c \<noteq> CHR ''-''" using dig(1) by (auto simp: is_ascii_digit_def)
  have "?n < 10 ^ Suc 19" using n by simp
  then have len: "length (show_nat ?n) \<le> 20" using length_show_nat_le [of ?n 19] by simp
  have nt: "length (number_text (int_number i)) < 64" using len by (cases "i < 0") (simp_all add: number_text_def int_number_def)
  have mag: "mag_fold 0 (c # s) = Some ?n"
    using mag_fold_decimal [of "c # s" 0] show_nat_digits [of ?n] cs decimal_show_nat [of ?n] n by simp
  have val: "exact_value (c # s) [] False [] = of_int \<bar>i\<bar>"
    using decimal_show_nat [of ?n] cs by (simp add: exact_value_def decimal_def)
  have tail: "number_tail (i < 0) ?t (c # s) r = Inr (int_number i, r)"
    using stops_number(1,2) [OF assms(3)] nt mag val by (simp add: number_tail_def Let_def del: mag_fold.simps) (simp add: int_number_def)
  have zero: "s = []" if "c = CHR ''0''"
  proof (rule ccontr)
    assume "s \<noteq> []"
    then have "?n \<noteq> 0" using cs by (intro notI) (simp add: show_nat.simps [of 0])
    then show False using show_nat_no_leading_zero [of ?n] cs that by simp
  qed
  have take: "takeWhile is_ascii_digit (c # s @ r) = c # s" "dropWhile is_ascii_digit (c # s @ r) = r"
    using dig stops_number(3,4) [OF assms(3)] by (simp_all add: takeWhile_append dropWhile_append)
  have sel: "(?t \<noteq> [] \<and> hd ?t = CHR ''-'') = (i < 0)" "(if i < 0 then tl ?t else ?t) = c # s @ r"
    using neg cs unfolding t by (auto split: if_splits)
  show ?thesis
    unfolding json_number_def Let_def sel using tail zero stops_number(5) [OF assms(3)] dig(1) take by (auto simp: digits_def)
qed


text \<open>What a document costs against the budget, and the levels it has.\<close>

fun cost :: "json_value \<Rightarrow> nat" where
  "cost (String s) = 80 + rounded (length s + 1)"
| "cost (Array items) = 80 + sum_list (map (\<lambda>v. 16 + cost v) items)"
| "cost (Object members) = 80 + sum_list (map (\<lambda>m. 32 + rounded (length (fst m) + 1) + cost (snd m)) members)"
| "cost v = 80"

lemma skip_ws_other: "\<not> is_json_ws c \<Longrightarrow> skip_ws (c # s) = c # s"
  by (simp add: skip_ws_def)

lemma render_start:
  assumes "integers_only v"
  obtains c r where "render v = c # r" "\<not> is_json_ws c" "c \<noteq> CHR '']''" "c \<noteq> CHR ''}''"
proof (cases v)
  case (Number m)
  then obtain i where m: "m = int_number i" using assms by auto
  obtain c r where c: "show_nat (nat \<bar>i\<bar>) = c # r" using show_nat_nonempty by (cases "show_nat (nat \<bar>i\<bar>)") auto
  have "is_ascii_digit c" using show_nat_digits [of "nat \<bar>i\<bar>"] c by auto
  then have d: "\<not> is_json_ws c" "c \<noteq> CHR '']''" "c \<noteq> CHR ''}''" by (auto simp: is_ascii_digit_def is_json_ws_def)
  show ?thesis
  proof (cases "i < 0")
    case True
    then show ?thesis using that [of "CHR ''-''" "show_nat (nat \<bar>i\<bar>)"] Number m by (simp add: number_text_def int_number_def is_json_ws_def)
  next
    case False
    then show ?thesis using that [of c r] c d Number m by (simp add: number_text_def int_number_def)
  qed
next
  case (String s)
  then show ?thesis using that [of "CHR 0x22" "tl (quote s)"] by (simp add: quote_concat is_json_ws_def)
next
  case (Bool b)
  then show ?thesis using that [of "CHR ''t''" "''rue''"] that [of "CHR ''f''" "''alse''"] by (cases b) (simp_all add: is_json_ws_def)
qed (use that [of "CHR ''n''"] that [of "CHR ''[''"] that [of "CHR ''{''"] in \<open>simp_all add: is_json_ws_def\<close>)

lemma charge_node: "80 \<le> b \<Longrightarrow> b \<le> USIZE_MAX \<Longrightarrow> charge b NODE_COST = Inr (b - 80)"
  using charge_ok [of 80 b] by (simp add: rounded_def div_ceil_def)

lemma charge_slot: "16 \<le> b \<Longrightarrow> b \<le> USIZE_MAX \<Longrightarrow> charge b SLOT_COST = Inr (b - 16)"
  "32 \<le> b \<Longrightarrow> b \<le> USIZE_MAX \<Longrightarrow> charge b (SLOT_COST * 3) = Inr (b - 32)"
  using charge_ok [of 8 b] charge_ok [of 24 b] by (simp_all add: rounded_def div_ceil_def)

lemma member_key_quoted:
  assumes "utf8_valid k" "k \<notin> fst ` set members" "rounded (length k + 1) \<le> b" "b \<le> USIZE_MAX"
  shows "member_key members (quote k @ CHR '':'' # r) b = Inr (k, r, b - rounded (length k + 1))"
proof -
  have q: "quote k = CHR 0x22 # tl (quote k)" by (simp add: quote_concat)
  have "skip_ws (quote k @ CHR '':'' # r) = CHR 0x22 # tl (quote k) @ CHR '':'' # r"
    by (subst q) (simp add: skip_ws_other is_json_ws_def)
  moreover have "json_string (tl (quote k) @ CHR '':'' # r) b = Inr (k, CHR '':'' # r, b - rounded (length k + 1))"
    using json_string_quoted [OF assms(1,3,4), of "CHR '':'' # r"] q by (metis append_Cons list.sel(3))
  ultimately show ?thesis using assms(2) by (auto simp: member_key_def list_ex_iff skip_ws_other is_json_ws_def image_iff)
qed

text \<open>Parsing a rendered value, with anything after it that ends it.\<close>

definition reads :: "nat \<Rightarrow> json_value \<Rightarrow> bool" where
  "reads depth v \<longleftrightarrow> (\<forall>n r b. 2 * length (render v @ r) + 1 \<le> n \<longrightarrow> stops r \<longrightarrow> cost v \<le> b \<longrightarrow> b \<le> USIZE_MAX
     \<longrightarrow> json_val n depth (render v @ r) b = Some (Inr (v, r, b - cost v)))"

lemma scalar_reads:
  assumes "\<And>items. v \<noteq> Array items" "\<And>members. v \<noteq> Object members" "integers_only v" "doc_ok k v"
  shows "reads depth v"
  unfolding reads_def
proof (intro allI impI)
  fix n r b assume n: "2 * length (render v @ r) + 1 \<le> n" and r: "stops r" and b: "cost v \<le> b" "b \<le> USIZE_MAX"
  obtain c s where c: "render v = c # s" "\<not> is_json_ws c" using render_start [OF assms(3)] by blast
  obtain m where m: "n = Suc m" using n by (cases n) auto
  have ws: "skip_ws (render v @ r) = c # s @ r" using c by (simp add: skip_ws_other)
  have b80: "80 \<le> b" using b(1) by (cases v) simp_all
  note step = val_step_def [of _ depth "render v @ r" b, unfolded ws Let_def charge_node [OF b80 b(2)]]
  have lit: "json_literal w (c # s @ r) = Inr r" if "render v = w" for w
    using that c(1) by (simp add: json_literal_def starts_with_def flip: append_Cons)
  show "json_val n depth (render v @ r) b = Some (Inr (v, r, b - cost v))"
  proof (cases v)
    case Null
    then show ?thesis using step c(1) lit [of "''null''"] by (auto simp: m)
  next
    case (Bool x)
    then show ?thesis using step c(1) lit [of "''true''"] lit [of "''false''"] by (cases x) (auto simp: m)
  next
    case (String t)
    have c34: "c = CHR 0x22" using c(1) String by (simp add: quote_concat)
    have "s @ r = tl (quote t @ r)" using c(1) String by simp
    then have "json_string (s @ r) (b - 80) = Inr (t, r, b - 80 - rounded (length t + 1))"
      using json_string_quoted [of t "b - 80" r] assms(4) b String by simp
    then show ?thesis using step c34 String by (simp add: m)
  next
    case (Number x)
    then obtain i where i: "I64_MIN \<le> i" "i \<le> int U64_MAX" "x = int_number i" using assms(3) by auto
    have num: "json_number (c # s @ r) = Inr (x, r)"
      using json_number_text [OF i(1,2) r] i(3) c(1) Number by (simp flip: append_Cons)
    have d: "c = CHR ''-'' \<or> is_ascii_digit c"
      using c(1) Number i(3) show_nat_digits [of "nat \<bar>i\<bar>"] show_nat_nonempty [of "nat \<bar>i\<bar>"]
      by (cases "show_nat (nat \<bar>i\<bar>)") (auto simp: number_text_def int_number_def split: if_splits)
    then have "c \<noteq> CHR ''n''" "c \<noteq> CHR ''t''" "c \<noteq> CHR ''f''" "byte c \<noteq> 34" "c \<noteq> CHR ''[''" "c \<noteq> CHR ''{''"
      by (auto simp: is_ascii_digit_def)
    then show ?thesis using step num d Number by (simp add: m)
  qed (use assms(1,2) in auto)
qed


lemma readsD:
  assumes "reads depth v" "2 * length (render v @ r) + 1 \<le> n" "stops r" "cost v \<le> b" "b \<le> USIZE_MAX"
  shows "json_val n depth (render v @ r) b = Some (Inr (v, r, b - cost v))"
  using assms by (simp add: reads_def)

lemma array_items_read:
  assumes "\<forall>v\<in>set (w # vs). reads depth v"
    "2 * length (join (map render (w # vs)) @ CHR '']'' # r) + 2 \<le> n"
    "sum_list (map (\<lambda>v. 16 + cost v) (w # vs)) \<le> b" "b \<le> USIZE_MAX"
  shows "json_items n False depth items members (join (map render (w # vs)) @ CHR '']'' # r) b
    = Some (Inr (Array (items @ w # vs), r, b - sum_list (map (\<lambda>v. 16 + cost v) (w # vs))))"
  using assms
proof (induction vs arbitrary: w items b n)
  case Nil
  obtain m where m: "n = Suc m" using Nil.prems(2) by (cases n) auto
  have "json_val m depth (render w @ CHR '']'' # r) (b - 16) = Some (Inr (w, CHR '']'' # r, b - 16 - cost w))"
    using Nil.prems m by (intro readsD) (simp_all add: stops_def)
  then show ?case using Nil.prems(3,4) charge_slot(1) [of b]
    by (simp add: m items_step_def Let_def skip_ws_other is_json_ws_def finish_container_def)
next
  case (Cons w' vs)
  obtain m where m: "n = Suc m" using Cons.prems(2) by (cases n) auto
  let ?rest = "join (map render (w' # vs)) @ CHR '']'' # r"
  have "json_val m depth (render w @ CHR '','' # ?rest) (b - 16) = Some (Inr (w, CHR '','' # ?rest, b - 16 - cost w))"
    using Cons.prems m by (intro readsD) (simp_all add: stops_def)
  then have "json_items n False depth items members (join (map render (w # w' # vs)) @ CHR '']'' # r) b
      = json_items m False depth (items @ [w]) members ?rest (b - 16 - cost w)"
    using Cons.prems(3,4) charge_slot(1) [of b]
    by (simp add: m items_step_def Let_def skip_ws_other is_json_ws_def)
  also have "\<dots> = Some (Inr (Array ((items @ [w]) @ w' # vs), r, (b - 16 - cost w) - sum_list (map (\<lambda>v. 16 + cost v) (w' # vs))))"
    using Cons.prems m by (intro Cons.IH) simp_all
  finally show ?case by (simp add: diff_diff_left add.assoc)
qed

definition member_text :: "string \<times> json_value \<Rightarrow> string" where
  "member_text m = quote (fst m) @ CHR '':'' # render (snd m)"

definition member_cost :: "string \<times> json_value \<Rightarrow> nat" where
  "member_cost m = 32 + rounded (length (fst m) + 1) + cost (snd m)"

lemma object_items_read:
  assumes "\<forall>m\<in>set (w # vs). reads depth (snd m) \<and> utf8_valid (fst m)" "distinct (map fst (members @ w # vs))"
    "2 * length (join (map member_text (w # vs)) @ CHR ''}'' # r) + 2 \<le> n"
    "sum_list (map member_cost (w # vs)) \<le> b" "b \<le> USIZE_MAX"
  shows "json_items n True depth items members (join (map member_text (w # vs)) @ CHR ''}'' # r) b
    = Some (Inr (Object (members @ w # vs), r, b - sum_list (map member_cost (w # vs))))"
  using assms
proof (induction vs arbitrary: w members b n)
  case Nil
  obtain m where m: "n = Suc m" using Nil.prems(3) by (cases n) auto
  let ?b = "b - 32 - rounded (length (fst w) + 1)"
  have v: "json_val m depth (render (snd w) @ CHR ''}'' # r) ?b = Some (Inr (snd w, CHR ''}'' # r, ?b - cost (snd w)))"
    using Nil.prems m by (intro readsD) (simp_all add: stops_def member_text_def member_cost_def)
  have k: "member_key members (quote (fst w) @ CHR '':'' # render (snd w) @ CHR ''}'' # r) (b - 32) = Inr (fst w, render (snd w) @ CHR ''}'' # r, ?b)"
    using Nil.prems by (intro member_key_quoted) (auto simp: member_cost_def)
  show ?case using Nil.prems(4,5) charge_slot(2) [of b] v k
    by (simp add: m items_step_def Let_def skip_ws_other is_json_ws_def finish_container_def member_text_def member_cost_def)
next
  case (Cons w' vs)
  obtain m where m: "n = Suc m" using Cons.prems(3) by (cases n) auto
  let ?rest = "join (map member_text (w' # vs)) @ CHR ''}'' # r"
  let ?b = "b - 32 - rounded (length (fst w) + 1)"
  have v: "json_val m depth (render (snd w) @ CHR '','' # ?rest) ?b = Some (Inr (snd w, CHR '','' # ?rest, ?b - cost (snd w)))"
    using Cons.prems m by (intro readsD) (simp_all add: stops_def member_text_def [of w] member_cost_def [of w])
  have k: "member_key members (quote (fst w) @ CHR '':'' # render (snd w) @ CHR '','' # ?rest) (b - 32)
      = Inr (fst w, render (snd w) @ CHR '','' # ?rest, ?b)"
    using Cons.prems by (intro member_key_quoted) (auto simp: member_cost_def [of w])
  have "json_items n True depth items members (join (map member_text (w # w' # vs)) @ CHR ''}'' # r) b
      = json_items m True depth items (members @ [w]) ?rest (?b - cost (snd w))"
    using Cons.prems(4,5) charge_slot(2) [of b] v k
    by (simp add: m items_step_def Let_def skip_ws_other is_json_ws_def member_text_def [of w] member_cost_def [of w])
  also have "\<dots> = Some (Inr (Object ((members @ [w]) @ w' # vs), r, (?b - cost (snd w)) - sum_list (map member_cost (w' # vs))))"
    using Cons.prems m by (intro Cons.IH) (simp_all add: member_text_def [of w] member_cost_def [of w])
  finally show ?case by (simp add: diff_diff_left add.assoc member_cost_def [of w])
qed


lemma render_object: "render (Object members) = CHR ''{'' # join (map member_text members) @ ''}''"
proof -
  have "(\<lambda>(k, v). quote k @ CHR '':'' # render v) = member_text" by (auto simp: member_text_def fun_eq_iff)
  then show ?thesis by simp
qed

lemma cost_object: "cost (Object members) = 80 + sum_list (map member_cost members)"
  by (simp add: member_cost_def [abs_def])

lemma array_reads:
  assumes "\<forall>v\<in>set items. reads (depth + 1) v \<and> integers_only v" "depth < MAX_DEPTH"
  shows "reads depth (Array items)"
  unfolding reads_def
proof (intro allI impI)
  fix n r b assume n: "2 * length (render (Array items) @ r) + 1 \<le> n" and b: "cost (Array items) \<le> b" "b \<le> USIZE_MAX"
  obtain m where m: "n = Suc m" using n by (cases n) auto
  let ?s = "join (map render items) @ CHR '']'' # r"
  have ws: "skip_ws (render (Array items) @ r) = CHR ''['' # ?s" by (simp add: skip_ws_other is_json_ws_def)
  have "json_val n depth (render (Array items) @ r) b = container (json_items m) False depth ?s (b - 80)"
    using b charge_node [of b] unfolding m json_val.simps val_step_def ws Let_def by simp
  also have "\<dots> = Some (Inr (Array items, r, b - cost (Array items)))"
  proof (cases items)
    case Nil
    then show ?thesis using assms(2) by (simp add: container_def skip_ws_other is_json_ws_def finish_container_def)
  next
    case (Cons w vs)
    obtain c t where c: "render w = c # t" "\<not> is_json_ws c" "c \<noteq> CHR '']''"
      by (rule render_start [of w]) (use assms(1) Cons in auto)
    then have h: "?s = c # t @ (case vs of [] \<Rightarrow> [] | _ \<Rightarrow> CHR '','' # join (map render vs)) @ CHR '']'' # r" using Cons by (cases vs) simp_all
    have "container (json_items m) False depth ?s (b - 80) = json_items m False (depth + 1) [] [] ?s (b - 80)"
      using assms(2) c(2,3) unfolding h container_def by (simp add: skip_ws_other)
    also have "\<dots> = Some (Inr (Array ([] @ w # vs), r, (b - 80) - sum_list (map (\<lambda>v. 16 + cost v) (w # vs))))"
      using assms(1) n m b Cons by (simp only: Cons, intro array_items_read) simp_all
    finally show ?thesis using Cons by (simp add: diff_diff_left)
  qed
  finally show "json_val n depth (render (Array items) @ r) b = Some (Inr (Array items, r, b - cost (Array items)))" .
qed

lemma object_reads:
  assumes "\<forall>m\<in>set members. reads (depth + 1) (snd m) \<and> utf8_valid (fst m)" "distinct (map fst members)" "depth < MAX_DEPTH"
  shows "reads depth (Object members)"
  unfolding reads_def
proof (intro allI impI)
  fix n r b assume n: "2 * length (render (Object members) @ r) + 1 \<le> n" and b: "cost (Object members) \<le> b" "b \<le> USIZE_MAX"
  obtain m where m: "n = Suc m" using n by (cases n) auto
  let ?s = "join (map member_text members) @ CHR ''}'' # r"
  have ws: "skip_ws (render (Object members) @ r) = CHR ''{'' # ?s" by (simp add: skip_ws_other is_json_ws_def render_object del: render.simps)
  have "json_val n depth (render (Object members) @ r) b = container (json_items m) True depth ?s (b - 80)"
    using b charge_node [of b] unfolding m json_val.simps val_step_def ws Let_def by simp
  also have "\<dots> = Some (Inr (Object members, r, b - cost (Object members)))"
  proof (cases members)
    case Nil
    then show ?thesis using assms(3) by (simp add: container_def skip_ws_other is_json_ws_def finish_container_def)
  next
    case (Cons w vs)
    obtain t where h: "?s = CHR 0x22 # t" using Cons by (cases vs) (simp_all add: member_text_def quote_concat)
    have "container (json_items m) True depth ?s (b - 80) = json_items m True (depth + 1) [] [] ?s (b - 80)"
      using assms(3) unfolding h container_def by (simp add: skip_ws_other is_json_ws_def)
    also have "\<dots> = Some (Inr (Object ([] @ w # vs), r, (b - 80) - sum_list (map member_cost (w # vs))))"
      using assms(1,2) n m b Cons unfolding Cons render_object cost_object by (intro object_items_read) simp_all
    finally show ?thesis using Cons by (simp add: diff_diff_left cost_object del: cost.simps)
  qed
  finally show "json_val n depth (render (Object members) @ r) b = Some (Inr (Object members, r, b - cost (Object members)))" .
qed

lemma render_reads:
  "doc_ok k v \<Longrightarrow> integers_only v \<Longrightarrow> depth + k \<le> MAX_DEPTH \<Longrightarrow> reads depth v"
proof (induction k v arbitrary: depth rule: doc_ok.induct)
  case (1 n items)
  then have "\<forall>v\<in>set items. reads (depth + 1) v" by auto
  then show ?case using 1(2-4) by (intro array_reads) auto
next
  case (2 n members)
  then have "\<forall>m\<in>set members. reads (depth + 1) (snd m)" by auto
  then show ?case using 2(2-4) by (intro object_reads) auto
qed (rule scalar_reads; simp)+

text \<open>The default budget pays for every document.\<close>

lemma length_quote: "length s + 2 \<le> length (quote s)"
proof -
  have "length s \<le> length (concat (map (\<lambda>c. if byte c = 34 \<or> byte c = 92 \<or> byte c < 32 then write_escape c else [c]) s))"
    by (induction s) (auto simp: write_escape_def)
  then show ?thesis by (simp add: quote_concat)
qed

lemma length_join: "length (join xs) = sum_list (map length xs) + (length xs - 1)"
  by (induction xs rule: join.induct) auto

lemma cost_bound: "integers_only v \<Longrightarrow> cost v \<le> 64 * length (render v) + 16"
proof (induction v rule: render.induct)
  case (3 m)
  show ?case by (simp add: number_text_def Suc_le_eq)
next
  case (4 s)
  show ?case using rounded_bounds [of "length s + 1"] length_quote [of s] by simp
next
  case (5 items)
  have "sum_list (map (\<lambda>v. 16 + cost v) items) \<le> sum_list (map (\<lambda>v. 64 * length (render v) + 32) items)"
  proof (intro sum_list_mono)
    fix v assume "v \<in> set items"
    then have "cost v \<le> 64 * length (render v) + 16" using 5 by auto
    then show "16 + cost v \<le> 64 * length (render v) + 32" by linarith
  qed
  also have "\<dots> = 64 * sum_list (map (length \<circ> render) items) + 32 * length items"
    by (induction items) (simp_all add: algebra_simps)
  finally show ?case by (simp add: length_join)
next
  case (6 members)
  have "member_cost m \<le> 64 * length (member_text m)" if "m \<in> set members" for m
  proof -
    have "cost (snd m) \<le> 64 * length (render (snd m)) + 16" using 6(1) [OF that, of "fst m" "snd m"] 6(2) that by simp
    then show ?thesis using rounded_bounds [of "length (fst m) + 1"] length_quote [of "fst m"] by (simp add: member_cost_def member_text_def)
  qed
  then have "sum_list (map member_cost members) \<le> sum_list (map (\<lambda>m. 64 * length (member_text m)) members)"
    by (intro sum_list_mono)
  also have "\<dots> = 64 * sum_list (map (length \<circ> member_text) members)" by (simp add: sum_list_const_mult o_def)
  finally show ?case unfolding cost_object render_object by (simp add: length_join)
qed auto


text \<open>A rendered document is UTF-8, because its strings are and everything else is ASCII.\<close>

lemma utf8_valid_ascii: "byte c < 128 \<Longrightarrow> utf8_valid (c # s) = utf8_valid s"
  by (simp add: utf8_valid_def from_utf8_ascii)

lemma utf8_valid_append: "utf8_valid s \<Longrightarrow> utf8_valid (s @ r) = utf8_valid r"
proof (induction s rule: from_utf8.induct)
  case (2 c cs)
  show ?case
    using "2.prems" "2.IH"
    by (auto simp: utf8_valid_def from_utf8.simps(2) split: if_split_asm list.split_asm)
qed simp

definition ascii :: "string \<Rightarrow> bool" where
  "ascii s \<longleftrightarrow> (\<forall>c\<in>set s. byte c < 128)"

lemma ascii_valid: "ascii s \<Longrightarrow> utf8_valid (s @ r) = utf8_valid r"
  by (induction s) (auto simp: ascii_def utf8_valid_ascii)

lemma ascii_show_nat: "ascii (show_nat n)"
  using show_nat_digits [of n] by (auto simp: ascii_def is_ascii_digit_def)

lemma ascii_escape:
  assumes "byte c = 34 \<or> byte c = 92 \<or> byte c < 32"
  shows "ascii (write_escape c)"
proof -
  have "byte (hex_char d) < 128" if "d < 16" for d using that by (simp add: hex_char_def)
  moreover have "byte c div 16 < 16" using byte_less [of c] by (intro less_mult_imp_div_less) simp
  ultimately show ?thesis by (simp add: write_escape_def ascii_def)
qed


lemma encode_char_high:
  assumes "is_scalar cp" "128 \<le> cp" "c \<in> set (encode_char cp)"
  shows "128 \<le> byte c"
proof -
  have h: "128 \<le> byte (char_of (128 + k))" if "k < 128" for k :: nat using that by simp
  have lim: "cp div 64 div 64 div 64 < 5" using assms(1) by (auto simp: is_scalar_def)
  have three: "cp div 64 div 64 < 16" if "cp < 65536" using that by simp
  have two: "cp div 64 < 32" if "cp < 2048" using that by simp
  have m: "x mod 64 < 128" for x :: nat using mod_less_divisor [of 64 x] by linarith
  show ?thesis
    using assms(2,3) h [of "64 + cp div 64"] h [of "96 + cp div 64 div 64"] h [of "112 + cp div 64 div 64 div 64"]
      h [OF m, of cp] h [OF m, of "cp div 64"] h [OF m, of "cp div 64 div 64"] lim three two
    by (auto simp: encode_char_def split: if_splits)
qed

lemma utf8_valid_quote:
  assumes "utf8_valid s"
  shows "utf8_valid (quote s @ r) = utf8_valid r"
proof -
  let ?e = "\<lambda>c. if byte c = 34 \<or> byte c = 92 \<or> byte c < 32 then write_escape c else [c]"
  obtain cps where f: "from_utf8 s = Some cps" using assms by (auto simp: utf8_valid_def)
  have s: "s = encode_utf8 cps" "\<forall>cp\<in>set cps. is_scalar cp" using encode_utf8_from_utf8 [OF f] by auto
  have one: "utf8_valid (concat (map ?e (encode_char cp)) @ x) = utf8_valid x" if sc: "is_scalar cp" for cp x
  proof (cases "cp < 128")
    case True
    then have e: "encode_char cp = [char_of cp]" "byte (char_of cp) = cp" by (simp_all add: encode_char_def)
    show ?thesis unfolding e(1) using e(2) True ascii_valid [OF ascii_escape [of "char_of cp"]] utf8_valid_ascii [of "char_of cp"]
      by (cases "cp = 34 \<or> cp = 92 \<or> cp < 32") auto
  next
    case False
    then have hi: "128 \<le> byte c" if "c \<in> set (encode_char cp)" for c using encode_char_high [OF sc _ that] by simp
    have "concat (map ?e xs) = xs" if "\<forall>c\<in>set xs. 128 \<le> byte c" for xs
      using that by (induction xs) auto
    then have "concat (map ?e (encode_char cp)) = encode_char cp" using hi by blast
    then show ?thesis using from_utf8_encode_char [OF sc, of x] by (simp add: utf8_valid_def)
  qed
  have "utf8_valid (concat (map ?e (encode_utf8 cps)) @ x) = utf8_valid x" for x
    using s(2) by (induction cps) (simp_all add: encode_utf8_def one)
  then show ?thesis unfolding quote_concat s(1) by (simp add: utf8_valid_ascii)
qed

lemma utf8_valid_join: "\<forall>x\<in>set xs. utf8_valid x \<Longrightarrow> utf8_valid (join xs)"
proof (induction xs rule: join.induct)
  case (3 x y xs)
  then show ?case by (simp add: utf8_valid_append utf8_valid_ascii)
qed (simp_all add: utf8_valid_def)

lemma utf8_valid_plain: "ascii s \<Longrightarrow> utf8_valid s"
  using ascii_valid [of s "[]"] by (simp add: utf8_valid_def)

lemma scalar_ascii: "ascii ''null''" "ascii ''true''" "ascii ''false''" "ascii (number_text m)"
  using ascii_show_nat [of "the (nu_magnitude m)"] by (auto simp: number_text_def ascii_def)

lemma utf8_valid_render: "doc_ok k v \<Longrightarrow> utf8_valid (render v)"
proof (induction k v rule: doc_ok.induct)
  case (1 n items)
  then have "utf8_valid (join (map render items))" by (intro utf8_valid_join) auto
  then show ?case by (simp add: utf8_valid_ascii utf8_valid_append)  (simp add: utf8_valid_def from_utf8_ascii)
next
  case (2 n members)
  have "utf8_valid (member_text m)" if "m \<in> set members" for m
    using 2 that by (auto simp: member_text_def utf8_valid_quote utf8_valid_ascii)
  then have "utf8_valid (join (map member_text members))" by (intro utf8_valid_join) auto
  then show ?case unfolding render_object by (simp add: utf8_valid_ascii utf8_valid_append) (simp add: utf8_valid_def from_utf8_ascii)
next
  case (3 n s)
  then show ?case using utf8_valid_quote [of s "[]"] by (simp add: utf8_valid_def)
qed (simp_all add: utf8_valid_plain scalar_ascii)


lemma parse_render_then:
  assumes "doc_ok MAX_DEPTH v" "integers_only v" "length (render v @ tail) < 2 ^ 57" "list_all is_json_ws tail"
  shows "json_parse (render v @ tail) = Some (Inr v)"
proof -
  let ?t = "render v @ tail"
  let ?b = "saturating_add USIZE_MAX (saturating_mul USIZE_MAX (length ?t) 64) 65536"
  have b: "?b \<le> USIZE_MAX" "cost v \<le> ?b"
    using cost_bound [OF assms(2)] assms(3) by (auto simp: saturating_add_def saturating_mul_def)
  have stop: "stops tail" using assms(4) by (cases tail) (auto simp: stops_def)
  have "reads 0 v" using render_reads [OF assms(1,2), of 0] by simp
  then have "json_val (2 * length ?t + 1) 0 ?t ?b = Some (Inr (v, tail, ?b - cost v))"
    by (rule readsD) (use b stop in simp_all)
  moreover have "skip_ws tail = []" using assms(4) by (simp add: skip_ws_def list_all_iff)
  moreover have "utf8_valid ?t"
  proof -
    have "\<forall>c\<in>set tail. byte c < 128" using assms(4) by (auto simp: list_all_iff is_json_ws_def)
    then show ?thesis using utf8_valid_append [of "render v" tail] utf8_valid_render [OF assms(1)] ascii_valid [of tail "[]"] by (simp add: ascii_def utf8_valid_def)
  qed
  ultimately show ?thesis using utf8_valid_render [OF assms(1)] by (simp add: json_parse_def parse_with_budget_def)
qed

lemma parse_render:
  assumes "doc_ok MAX_DEPTH v" "integers_only v" "length (render v) < 2 ^ 57"
  shows "json_parse (render v) = Some (Inr v)"
  using parse_render_then [OF assms(1,2), of "[]"] assms(3) by simp

section \<open>Properties\<close>



text \<open>C27. Documents read back: a document written with the escaping of \<open>write_string\<close>, whatever its strings
  hold, parses to exactly what was written. This covers objects and arrays up to the depth limit with
  unique keys and 64-bit integers, and the default budget is always enough for them.\<close>

theorem json_roundtrip:
  assumes "doc_ok MAX_DEPTH v" "integers_only v" "length (render v) < 2 ^ 57"
  shows "json_parse (render v) = Some (Inr v)"
  by (rule parse_render [OF assms])

theorem json_roundtrip_witness:
  "json_parse (render (Object [(''a'', Array [Number (int_number (- 3)), String (''x'' @ [CHR 0x22, CHR 0x0A])]), (''b'', Null)]))
    = Some (Inr (Object [(''a'', Array [Number (int_number (- 3)), String (''x'' @ [CHR 0x22, CHR 0x0A])]), (''b'', Null)]))"
proof (rule json_roundtrip)
  let ?v = "Object [(''a'', Array [Number (int_number (- 3)), String (''x'' @ [CHR 0x22, CHR 0x0A])]), (''b'', Null)]"
  show "doc_ok MAX_DEPTH ?v" by (simp add: utf8_valid_def from_utf8_ascii)
  show "integers_only ?v" by (auto intro: exI [of _ "- 3"])
  show "length (render ?v) < 2 ^ 57" by (simp add: quote_concat write_escape_def number_text_def int_number_def show_nat.simps)
qed

end
