(* ===== verification/Status.thy ===== *)
theory Status
  imports Json Timefmt
begin

text \<open>
  \<^verbatim>\<open>crates/omt-receiver-core/src/status.rs\<close>: the playback status document the Web frontend reads. The
  state is what is inside the lock and the contents of the status file; the clocks and the outcome of
  every file operation are the environment's, in \<open>status_io\<close>. A file operation that fails gives its
  message.
\<close>

section \<open>States and documents\<close>

abbreviation HEARTBEAT_MS :: nat where "HEARTBEAT_MS \<equiv> 500"
abbreviation DETAIL_LIMIT :: nat where "DETAIL_LIMIT \<equiv> 2048"

datatype video_state = VRunning | WaitingForDiscovery | WaitingForHdmi | Retrying | UnsupportedFormat_state | Starting | VStopped

fun video_name :: "video_state \<Rightarrow> string" where
  "video_name VRunning = ''running''"
| "video_name WaitingForDiscovery = ''waiting-for-discovery''"
| "video_name WaitingForHdmi = ''waiting-for-hdmi''"
| "video_name Retrying = ''retrying''"
| "video_name UnsupportedFormat_state = ''unsupported-format''"
| "video_name Starting = ''starting''"
| "video_name VStopped = ''stopped''"

datatype audio_state = AStopped | ARunning | AFailed

fun audio_name :: "audio_state \<Rightarrow> string" where
  "audio_name AStopped = ''stopped''"
| "audio_name ARunning = ''running''"
| "audio_name AFailed = ''failed''"

record connector =
  cn_name :: string
  cn_drm_device :: string
  cn_alsa_device :: string

definition connector_none :: connector where
  "connector_none = \<lparr>cn_name = ''none'', cn_drm_device = ''none'', cn_alsa_device = ''none''\<rparr>"

fun sanitize_loop :: "nat list \<Rightarrow> nat list \<Rightarrow> nat list" where
  "sanitize_loop out [] = out"
| "sanitize_loop out (c # cs) =
     (let control = (c < 0x20 \<or> (0x7F \<le> c \<and> c \<le> 0x9F))
      in sanitize_loop (if \<not> control \<and> utf8_len out + len_utf8 c \<le> DETAIL_LIMIT then out @ [c] else out) cs)"

definition sanitize_detail :: "string \<Rightarrow> string" where
  "sanitize_detail s = encode_utf8 (trim_ws (sanitize_loop [] (the (from_utf8 s))))"

text \<open>\<open>Path::starts_with\<close> compares whole components; empty and \<open>.\<close> components do not count.\<close>

definition durable_status_parent :: "string \<Rightarrow> bool" where
  "durable_status_parent parent \<longleftrightarrow>
     \<not> (starts_with ''/'' parent
        \<and> take 1 (filter (\<lambda>c. c \<noteq> [] \<and> c \<noteq> ''.'') (split_on (CHR ''/'') parent)) = [''run''])"

record projection =
  pj_video :: video_state
  pj_audio :: audio_state
  pj_video_detail :: string
  pj_audio_detail :: string
  pj_connector :: connector

text \<open>The lock's contents, the target, the parent directory of the status file, and the file.\<close>

record status =
  ps_parent :: string
  ps_target :: string
  ps_current :: projection
  ps_published :: "projection option"
  ps_published_at_ms :: nat
  ps_sequence :: nat
  ps_directory_ready :: bool
  ps_file :: "string option"

definition status_new :: "string \<Rightarrow> string \<Rightarrow> status" where
  "status_new parent target =
     \<lparr>ps_parent = parent, ps_target = target,
      ps_current = \<lparr>pj_video = VStopped, pj_audio = AStopped, pj_video_detail = ''Playback stopped.'', pj_audio_detail = [],
                    pj_connector = connector_none\<rparr>,
      ps_published = None, ps_published_at_ms = 0, ps_sequence = 0, ps_directory_ready = False, ps_file = None\<rparr>"

record status_io =
  si_now :: nat
  si_now_after :: nat
  si_clock :: "(nat \<times> nat) + (nat \<times> nat)"
  si_mkdir :: "string option"
  si_open :: "string option"
  si_write :: "string option"
  si_sync :: "string option"
  si_rename :: "string option"

section \<open>Publishing\<close>

text \<open>The state and the detail shown: a running video with failed audio is degraded.\<close>

definition shown :: "projection \<Rightarrow> string \<times> string" where
  "shown c =
     (if pj_video c = VRunning \<and> pj_audio c = AFailed then
        (''degraded'', if pj_audio_detail c = [] then ''Video is playing but audio is unavailable.'' else pj_audio_detail c)
      else (video_name (pj_video c), pj_video_detail c))"

definition status_document :: "string \<Rightarrow> projection \<Rightarrow> string \<Rightarrow> string" where
  \<open>status_document target c stamp =
     (let (state, detail) = shown c;
          doc = ''{"schema":1,"state":'';
          doc = write_string doc state;
          doc = doc @ '',"video_state":'';
          doc = write_string doc (video_name (pj_video c));
          doc = doc @ '',"audio_state":'';
          doc = write_string doc (audio_name (pj_audio c));
          doc = doc @ '',"target":'';
          doc = write_string doc target;
          doc = doc @ '',"detail":'';
          doc = write_string doc detail;
          doc = doc @ '',"connector":'';
          doc = write_string doc (cn_name (pj_connector c));
          doc = doc @ '',"drm_device":'';
          doc = write_string doc (cn_drm_device (pj_connector c));
          doc = doc @ '',"alsa_device":'';
          doc = write_string doc (cn_alsa_device (pj_connector c));
          doc = doc @ '',"updated_at":'';
          doc = write_string doc stamp
      in doc @ ''}'')\<close>

text \<open>\<open>replace\<close>: the parent on the first publish, then a private stage and a rename; the file changes only
  when the rename succeeds.\<close>

definition status_replace :: "status_io \<Rightarrow> status \<Rightarrow> string \<Rightarrow> status \<times> (string + unit)" where
  "status_replace io st doc =
     (case (if ps_directory_ready st then None else si_mkdir io) of
        Some e \<Rightarrow> (st, Inl e)
      | None \<Rightarrow>
          (case si_open io of
             Some e \<Rightarrow> (st, Inl e)
           | None \<Rightarrow>
               (case si_write io of
                  Some e \<Rightarrow> (st, Inl e)
                | None \<Rightarrow>
                    (case (if durable_status_parent (ps_parent st) then si_sync io else None) of
                       Some e \<Rightarrow> (st, Inl e)
                     | None \<Rightarrow>
                         (case si_rename io of
                            Some e \<Rightarrow> (st, Inl e)
                          | None \<Rightarrow> (st\<lparr>ps_file := Some doc\<rparr>, Inr ()))))))"

definition status_publish :: "status_io \<Rightarrow> status \<Rightarrow> bool \<Rightarrow> status \<times> (string + bool)" where
  "status_publish io st force =
     (let unchanged = (ps_published st = Some (ps_current st))
      in if \<not> force \<and> unchanged \<and> si_now io - ps_published_at_ms st < HEARTBEAT_MS then (st, Inr False)
         else
           (let doc = status_document (ps_target st) (ps_current st) (now_rfc3339_millis (si_clock io))
            in if 64 * 1024 < length doc then (st, Inl ''status document too large'')
               else
                 (case status_replace io st doc of
                    (st, Inl e) \<Rightarrow> (st, Inl e)
                  | (st, Inr _) \<Rightarrow>
                      (st\<lparr>ps_directory_ready := True, ps_sequence := ps_sequence st + 1, ps_published := Some (ps_current st),
                          ps_published_at_ms := si_now_after io\<rparr>, Inr True))))"

section \<open>Reports\<close>

datatype which = WVideo | WAudio

definition slot :: "which \<Rightarrow> projection \<Rightarrow> string" where
  "slot w c = (case w of WVideo \<Rightarrow> pj_video_detail c | WAudio \<Rightarrow> pj_audio_detail c)"

definition set_slot :: "which \<Rightarrow> string \<Rightarrow> projection \<Rightarrow> projection" where
  "set_slot w s c = (case w of WVideo \<Rightarrow> c\<lparr>pj_video_detail := s\<rparr> | WAudio \<Rightarrow> c\<lparr>pj_audio_detail := s\<rparr>)"

definition update_detail :: "which \<Rightarrow> bool \<Rightarrow> string \<Rightarrow> connector \<Rightarrow> projection \<Rightarrow> projection" where
  "update_detail w state_changed detail connector c =
     (let connector_changed = (pj_connector c \<noteq> connector)
      in if state_changed \<or> connector_changed then
           (let c = set_slot w (sanitize_detail detail) c
            in if connector_changed then c\<lparr>pj_connector := connector\<rparr> else c)
         else if slot w c \<noteq> detail then set_slot w (sanitize_detail detail) c
         else c)"

definition status_video :: "status_io \<Rightarrow> video_state \<Rightarrow> string \<Rightarrow> connector \<Rightarrow> status \<Rightarrow> status \<times> (string + bool)" where
  "status_video io state detail connector st =
     (let changed = (pj_video (ps_current st) \<noteq> state);
          c = (ps_current st)\<lparr>pj_video := state\<rparr>
      in status_publish io (st\<lparr>ps_current := update_detail WVideo changed detail connector c\<rparr>) False)"

definition status_audio :: "status_io \<Rightarrow> audio_state \<Rightarrow> string \<Rightarrow> connector \<Rightarrow> status \<Rightarrow> status \<times> (string + bool)" where
  "status_audio io state detail connector st =
     (let changed = (pj_audio (ps_current st) \<noteq> state);
          c = (ps_current st)\<lparr>pj_audio := state\<rparr>
      in status_publish io (st\<lparr>ps_current := update_detail WAudio changed detail connector c\<rparr>) False)"

definition status_heartbeat :: "status_io \<Rightarrow> connector \<Rightarrow> status \<Rightarrow> status \<times> (string + bool)" where
  "status_heartbeat io connector st =
     status_publish io
       (if pj_connector (ps_current st) \<noteq> connector
        then st\<lparr>ps_current := (ps_current st)\<lparr>pj_connector := connector\<rparr>\<rparr> else st) False"

definition status_stopped :: "status_io \<Rightarrow> string \<Rightarrow> status \<Rightarrow> status \<times> (string + bool)" where
  "status_stopped io detail st =
     status_publish io
       (st\<lparr>ps_current := (ps_current st)\<lparr>pj_video := VStopped, pj_audio := AStopped, pj_video_detail := sanitize_detail detail,
             pj_audio_detail := [], pj_connector := connector_none\<rparr>\<rparr>) True"


datatype report = VideoReport video_state string connector | AudioReport audio_state string connector
  | Heartbeat connector | StoppedReport string

fun status_report :: "status_io \<Rightarrow> report \<Rightarrow> status \<Rightarrow> status \<times> (string + bool)" where
  "status_report io (VideoReport state detail connector) st = status_video io state detail connector st"
| "status_report io (AudioReport state detail connector) st = status_audio io state detail connector st"
| "status_report io (Heartbeat connector) st = status_heartbeat io connector st"
| "status_report io (StoppedReport detail) st = status_stopped io detail st"

section \<open>Details\<close>

lemma sanitize_loop_ok:
  assumes "utf8_len out \<le> DETAIL_LIMIT" "\<forall>c\<in>set out. is_scalar c \<and> \<not> (c < 0x20 \<or> (0x7F \<le> c \<and> c \<le> 0x9F))" "\<forall>c\<in>set cs. is_scalar c"
  shows "utf8_len (sanitize_loop out cs) \<le> DETAIL_LIMIT
    \<and> (\<forall>c\<in>set (sanitize_loop out cs). is_scalar c \<and> \<not> (c < 0x20 \<or> (0x7F \<le> c \<and> c \<le> 0x9F)))"
  using assms
proof (induction cs arbitrary: out)
  case (Cons c cs)
  show ?case unfolding sanitize_loop.simps Let_def by (rule Cons.IH) (use Cons.prems in auto)
qed simp

lemma sanitize_detail_scalars:
  assumes "utf8_valid s"
  obtains cps where "sanitize_detail s = encode_utf8 cps" "from_utf8 (sanitize_detail s) = Some cps" "utf8_len cps \<le> DETAIL_LIMIT"
    "\<forall>c\<in>set cps. is_scalar c \<and> \<not> (c < 0x20 \<or> (0x7F \<le> c \<and> c \<le> 0x9F))" "trim_ws cps = cps"
proof -
  obtain xs where f: "from_utf8 s = Some xs" using assms by (auto simp: utf8_valid_def)
  let ?l = "sanitize_loop [] xs" and ?c = "trim_ws (sanitize_loop [] xs)"
  have l: "utf8_len ?l \<le> DETAIL_LIMIT" "\<forall>c\<in>set ?l. is_scalar c \<and> \<not> (c < 0x20 \<or> (0x7F \<le> c \<and> c \<le> 0x9F))"
    using sanitize_loop_ok [of "[]" xs] encode_utf8_from_utf8 [OF f] by auto
  obtain a b where ab: "?l = a @ ?c @ b" using trim_ws_infix by blast
  have "utf8_len ?l = utf8_len a + utf8_len ?c + utf8_len b" by (subst ab) simp
  then have "utf8_len ?c \<le> DETAIL_LIMIT" using l(1) by linarith
  moreover have sc: "\<forall>c\<in>set ?c. is_scalar c \<and> \<not> (c < 0x20 \<or> (0x7F \<le> c \<and> c \<le> 0x9F))" using l(2) trim_ws_set [of ?l] by blast
  moreover have s: "sanitize_detail s = encode_utf8 ?c" by (simp add: sanitize_detail_def f)
  moreover have "from_utf8 (sanitize_detail s) = Some ?c" unfolding s by (rule from_utf8_encode_utf8) (use sc in blast)
  ultimately show ?thesis using that trim_ws_idem by blast
qed

lemma sanitize_detail_valid: "utf8_valid s \<Longrightarrow> utf8_valid (sanitize_detail s)"
  by (metis option.distinct(1) sanitize_detail_scalars utf8_valid_def)

section \<open>The document reads back\<close>

definition strings_ok :: "projection \<Rightarrow> bool" where
  "strings_ok c \<longleftrightarrow> utf8_valid (pj_video_detail c) \<and> utf8_valid (pj_audio_detail c) \<and> utf8_valid (cn_name (pj_connector c))
     \<and> utf8_valid (cn_drm_device (pj_connector c)) \<and> utf8_valid (cn_alsa_device (pj_connector c))"

definition status_value :: "string \<Rightarrow> projection \<Rightarrow> string \<Rightarrow> json_value" where
  "status_value target c stamp =
     Object [(''schema'', Number (int_number 1)), (''state'', String (fst (shown c))), (''video_state'', String (video_name (pj_video c))),
       (''audio_state'', String (audio_name (pj_audio c))), (''target'', String target), (''detail'', String (snd (shown c))),
       (''connector'', String (cn_name (pj_connector c))), (''drm_device'', String (cn_drm_device (pj_connector c))),
       (''alsa_device'', String (cn_alsa_device (pj_connector c))), (''updated_at'', String stamp)]"

lemma quote_plain: "\<forall>c\<in>set s. is_plain c \<Longrightarrow> quote s = CHR 0x22 # s @ [CHR 0x22]"
proof -
  assume p: "\<forall>c\<in>set s. is_plain c"
  have "concat (map (\<lambda>c. if byte c = 34 \<or> byte c = 92 \<or> byte c < 32 then write_escape c else [c]) s) = s"
    using p by (induction s) (auto simp: is_plain_def)
  then show ?thesis by (simp add: quote_concat)
qed

lemma status_document_render: "status_document target c stamp = render (status_value target c stamp)"
proof -
  have n: "number_text (int_number 1) = ''1''"
  proof -
    have "show_nat 1 = ''1''" by code_simp
    then show ?thesis by (simp add: number_text_def int_number_def)
  qed
  show ?thesis
    by (simp add: status_document_def status_value_def write_string_quote case_prod_beta Let_def quote_plain is_plain_def n)
qed

lemma valid_ascii: "ascii s \<Longrightarrow> utf8_valid s"
  using ascii_valid [of s "[]"] by (simp add: utf8_valid_def)

lemma ascii_append [simp]: "ascii (s @ r) \<longleftrightarrow> ascii s \<and> ascii r" "ascii (c # s) \<longleftrightarrow> byte c < 128 \<and> ascii s" "ascii []"
  by (auto simp: ascii_def)

lemma ascii_show_int0: "ascii (show_int0 w x)"
  using ascii_show_nat by (auto simp: show_int0_def pad0_def ascii_def)

lemma ascii_stamp: "ascii (now_rfc3339_millis clock)"
  using ascii_show_int0 by (simp add: now_rfc3339_millis_def rfc3339_millis_def case_prod_beta Let_def)

lemma names_valid: "utf8_valid (video_name v)" "utf8_valid (audio_name a)"
  by (cases v; intro valid_ascii; simp) (cases a; intro valid_ascii; simp)

lemma shown_valid:
  assumes "strings_ok c"
  shows "utf8_valid (fst (shown c))" "utf8_valid (snd (shown c))"
proof -
  have "utf8_valid ''degraded''" "utf8_valid ''Video is playing but audio is unavailable.''" by (intro valid_ascii; simp)+
  then show "utf8_valid (fst (shown c))" "utf8_valid (snd (shown c))" using assms names_valid by (simp_all add: shown_def strings_ok_def)
qed

lemma status_document_parses:
  assumes "utf8_valid target" "strings_ok c" "utf8_valid stamp" "length (status_document target c stamp) \<le> 64 * 1024"
  shows "json_parse (status_document target c stamp) = Some (Inr (status_value target c stamp))"
proof -
  have keys: "utf8_valid k" if "ascii k" for k using that by (rule valid_ascii)
  have "doc_ok MAX_DEPTH (status_value target c stamp)"
    using assms(1-3) shown_valid [OF assms(2)] names_valid by (simp add: status_value_def strings_ok_def keys)
  moreover have "integers_only (status_value target c stamp)" by (auto simp: status_value_def intro: exI [of _ 1])
  ultimately show ?thesis using assms(4) unfolding status_document_render by (intro parse_render) simp_all
qed


section \<open>The file follows the reports\<close>

definition status_inv :: "status \<Rightarrow> bool" where
  "status_inv st \<longleftrightarrow> utf8_valid (ps_target st) \<and> strings_ok (ps_current st)
     \<and> (\<forall>p. ps_published st = Some p \<longrightarrow> strings_ok p
          \<and> (\<exists>stamp doc. ps_file st = Some doc \<and> doc = status_document (ps_target st) p stamp \<and> utf8_valid stamp \<and> length doc \<le> 64 * 1024))"

definition file_shows :: "status \<Rightarrow> bool" where
  "file_shows st \<longleftrightarrow> (\<exists>doc stamp. ps_file st = Some doc \<and> json_parse doc = Some (Inr (status_value (ps_target st) (ps_current st) stamp)))"

lemma status_new_inv: "utf8_valid target \<Longrightarrow> status_inv (status_new parent target)"
  by (auto simp: status_inv_def status_new_def strings_ok_def connector_none_def intro!: valid_ascii)

lemma status_replace_cases:
  "(\<exists>e. status_replace io st doc = (st, Inl e)) \<or> status_replace io st doc = (st\<lparr>ps_file := Some doc\<rparr>, Inr ())"
  unfolding status_replace_def by (simp split: option.split)

lemma published_shows:
  assumes "status_inv st" "ps_published st = Some (ps_current st)"
  shows "file_shows st"
  using assms status_document_parses unfolding status_inv_def file_shows_def by blast

lemma publish_cases:
  fixes io st
  defines "doc \<equiv> status_document (ps_target st) (ps_current st) (now_rfc3339_millis (si_clock io))"
  obtains (quiet) "status_publish io st force = (st, Inr False)" "ps_published st = Some (ps_current st)" "\<not> force"
      "si_now io - ps_published_at_ms st < HEARTBEAT_MS"
    | (failed) e where "status_publish io st force = (st, Inl e)"
    | (written) "status_publish io st force = (st\<lparr>ps_file := Some doc, ps_directory_ready := True,
        ps_sequence := ps_sequence st + 1, ps_published := Some (ps_current st), ps_published_at_ms := si_now_after io\<rparr>, Inr True)"
      "length doc \<le> 64 * 1024"
proof (cases "\<not> force \<and> ps_published st = Some (ps_current st) \<and> si_now io - ps_published_at_ms st < HEARTBEAT_MS")
  case True
  then show ?thesis using quiet by (simp add: status_publish_def Let_def)
next
  case q: False
  show ?thesis
  proof (cases "64 * 1024 < length doc")
    case True
    then show ?thesis using q failed by (simp add: status_publish_def Let_def doc_def)
  next
    case False
    then show ?thesis using q failed written status_replace_cases [of io st doc]
      by (auto simp: status_publish_def Let_def doc_def)
  qed
qed

lemma publish_result:
  assumes "status_inv st" "status_publish io st force = (st', res)"
  shows "status_inv st' \<and> ps_current st' = ps_current st \<and> ps_target st' = ps_target st
    \<and> (case res of
         Inl e \<Rightarrow> ps_file st' = ps_file st
       | Inr fresh \<Rightarrow> file_shows st' \<and> (if fresh then ps_published_at_ms st' = si_now_after io
                      else ps_file st' = ps_file st \<and> \<not> force \<and> si_now io - ps_published_at_ms st < HEARTBEAT_MS))"
proof (cases rule: publish_cases [where io = io and st = st and force = force])
  case quiet
  then show ?thesis using assms published_shows by auto
next
  case (failed e)
  then show ?thesis using assms by auto
next
  case written
  have stamp: "utf8_valid (now_rfc3339_millis (si_clock io))" by (rule valid_ascii [OF ascii_stamp])
  have i: "status_inv st'" using assms written stamp by (auto simp: status_inv_def)
  moreover have "file_shows st'" by (rule published_shows [OF i]) (use assms(2) written in auto)
  ultimately show ?thesis using assms(2) written by auto
qed

lemma update_detail_strings:
  assumes "strings_ok c" "utf8_valid detail" "utf8_valid (cn_name cn)" "utf8_valid (cn_drm_device cn)" "utf8_valid (cn_alsa_device cn)"
  shows "strings_ok (update_detail w changed detail cn c)"
  using assms sanitize_detail_valid [OF assms(2)]
  by (cases w) (simp_all add: update_detail_def set_slot_def strings_ok_def Let_def)

fun report_ok :: "report \<Rightarrow> bool" where
  "report_ok (VideoReport s detail cn) \<longleftrightarrow> utf8_valid detail \<and> utf8_valid (cn_name cn) \<and> utf8_valid (cn_drm_device cn) \<and> utf8_valid (cn_alsa_device cn)"
| "report_ok (AudioReport s detail cn) \<longleftrightarrow> utf8_valid detail \<and> utf8_valid (cn_name cn) \<and> utf8_valid (cn_drm_device cn) \<and> utf8_valid (cn_alsa_device cn)"
| "report_ok (Heartbeat cn) \<longleftrightarrow> utf8_valid (cn_name cn) \<and> utf8_valid (cn_drm_device cn) \<and> utf8_valid (cn_alsa_device cn)"
| "report_ok (StoppedReport detail) \<longleftrightarrow> utf8_valid detail"

lemma status_inv_current:
  "status_inv st \<Longrightarrow> strings_ok c \<Longrightarrow> status_inv (st\<lparr>ps_current := c\<rparr>)"
  by (auto simp: status_inv_def)

lemma report_publishes:
  assumes "status_inv st" "report_ok r"
  obtains c force where "status_report io r st = status_publish io (st\<lparr>ps_current := c\<rparr>) force" "status_inv (st\<lparr>ps_current := c\<rparr>)"
    "force \<longrightarrow> (\<exists>detail. r = StoppedReport detail)"
proof -
  have ok: "strings_ok (ps_current st)" using assms(1) by (simp add: status_inv_def)
  note inv = status_inv_current [OF assms(1)]
  show ?thesis
  proof (cases r)
    case (VideoReport s detail cn)
    have "strings_ok ((ps_current st)\<lparr>pj_video := s\<rparr>)" using ok by (simp add: strings_ok_def)
    then have "strings_ok (update_detail WVideo (pj_video (ps_current st) \<noteq> s) detail cn ((ps_current st)\<lparr>pj_video := s\<rparr>))"
      using VideoReport assms(2) by (intro update_detail_strings) simp_all
    from that [OF _ inv [OF this], of False] show ?thesis using VideoReport by (simp add: status_video_def Let_def)
  next
    case (AudioReport s detail cn)
    have "strings_ok ((ps_current st)\<lparr>pj_audio := s\<rparr>)" using ok by (simp add: strings_ok_def)
    then have "strings_ok (update_detail WAudio (pj_audio (ps_current st) \<noteq> s) detail cn ((ps_current st)\<lparr>pj_audio := s\<rparr>))"
      using AudioReport assms(2) by (intro update_detail_strings) simp_all
    from that [OF _ inv [OF this], of False] show ?thesis using AudioReport by (simp add: status_audio_def Let_def)
  next
    case (Heartbeat cn)
    have "strings_ok ((ps_current st)\<lparr>pj_connector := cn\<rparr>)" using ok Heartbeat assms(2) by (simp add: strings_ok_def)
    then show ?thesis using that [of "(ps_current st)\<lparr>pj_connector := cn\<rparr>" False] that [of "ps_current st" False] inv ok Heartbeat assms(1)
      by (cases "pj_connector (ps_current st) = cn") (simp_all add: status_heartbeat_def)
  next
    case (StoppedReport detail)
    have "strings_ok ((ps_current st)\<lparr>pj_video := VStopped, pj_audio := AStopped, pj_video_detail := sanitize_detail detail,
             pj_audio_detail := [], pj_connector := connector_none\<rparr>)"
      using StoppedReport assms(2) by (auto simp: strings_ok_def connector_none_def sanitize_detail_valid intro!: valid_ascii)
    from that [OF _ inv [OF this], of True] show ?thesis using StoppedReport by (simp add: status_stopped_def)
  qed
qed


section \<open>Properties\<close>

text \<open>C28. The status file always tells the current state. After every report that succeeds, of any kind, the file is a
  strict JSON document that parses to exactly the ten fields of the current projection (degraded when
  video runs and audio failed); a report is skipped only when nothing changed within the heartbeat, so
  a file left unchanged is still true; a report that fails leaves the file as it was; and what holds
  between reports holds again.\<close>

theorem status_file_current:
  assumes "status_inv st" "report_ok r" "status_report io r st = (st', res)"
  shows "status_inv st'
    \<and> (case res of
         Inl e \<Rightarrow> ps_file st' = ps_file st
       | Inr fresh \<Rightarrow>
           (\<exists>doc stamp. ps_file st' = Some doc \<and> json_parse doc = Some (Inr (status_value (ps_target st) (ps_current st') stamp)))
           \<and> (if fresh then ps_published_at_ms st' = si_now_after io
              else ps_file st' = ps_file st \<and> si_now io - ps_published_at_ms st < HEARTBEAT_MS))"
proof -
  obtain c force where r: "status_report io r st = status_publish io (st\<lparr>ps_current := c\<rparr>) force" "status_inv (st\<lparr>ps_current := c\<rparr>)"
    using report_publishes [OF assms(1,2)] by blast
  from publish_result [OF r(2) r(1) [symmetric, unfolded assms(3)]] show ?thesis
    by (cases res) (simp_all add: file_shows_def split: if_splits, metis+)
qed

theorem status_file_current_witness:
  "\<exists>st' res. status_report
       \<lparr>si_now = 0, si_now_after = 1, si_clock = Inr (1709210096, 0), si_mkdir = None, si_open = None, si_write = None, si_sync = None, si_rename = None\<rparr>
       (StoppedReport ''bye'') (status_new ''/run/omt'' ''omt://a'') = (st', res) \<and> status_inv st'
     \<and> (\<forall>fresh. res = Inr fresh \<longrightarrow> ps_file st' \<noteq> None)"
proof -
  let ?io = "\<lparr>si_now = 0, si_now_after = 1, si_clock = Inr (1709210096, 0), si_mkdir = None, si_open = None, si_write = None,
      si_sync = None, si_rename = None\<rparr> :: status_io"
  let ?st = "status_new ''/run/omt'' ''omt://a''"
  obtain st' res where r: "status_report ?io (StoppedReport ''bye'') ?st = (st', res)" by fastforce
  have inv: "status_inv ?st" by (rule status_new_inv) (rule valid_ascii, simp)
  have ok: "report_ok (StoppedReport ''bye'')" by (simp add: valid_ascii)
  show ?thesis using status_file_current [OF inv ok r] r by (auto split: sum.splits)
qed

text \<open>What is shown of a detail is bounded and clean: for any text, the sanitized detail is valid UTF-8 of at
  most 2048 bytes without control characters and without white space at its ends.\<close>

lemma sanitize_detail_clean:
  assumes "utf8_valid s"
  shows "\<exists>cps. from_utf8 (sanitize_detail s) = Some cps \<and> length (sanitize_detail s) \<le> DETAIL_LIMIT
    \<and> (\<forall>c\<in>set cps. \<not> (c < 0x20 \<or> (0x7F \<le> c \<and> c \<le> 0x9F))) \<and> trim_ws cps = cps"
proof -
  obtain cps where c: "sanitize_detail s = encode_utf8 cps" "from_utf8 (sanitize_detail s) = Some cps" "utf8_len cps \<le> DETAIL_LIMIT"
    "\<forall>c\<in>set cps. is_scalar c \<and> \<not> (c < 0x20 \<or> (0x7F \<le> c \<and> c \<le> 0x9F))" "trim_ws cps = cps"
    by (rule sanitize_detail_scalars [OF assms])
  then show ?thesis by (intro exI [of _ cps]) (simp add: length_encode_utf8)
qed

end
