(* ===== verification/Video_Modes.thy ===== *)
theory Video_Modes
  imports Ceiling Vmx_Decoder
begin

text \<open>
  \<^verbatim>\<open>crates/omt-receiver/src/video.rs\<close>, the part that decides without touching the display: the mode for an
  incoming format, what an undecodable frame means, and the detail line. A refresh rate is a double,
  here the rational number it stands for; the doubled rate of the source that is NaN when it does not
  apply is no candidate at all, since every comparison with NaN is false.
\<close>

section \<open>Modes\<close>

abbreviation DRM_MODE_FLAG_INTERLACE_BIT :: nat where "DRM_MODE_FLAG_INTERLACE_BIT \<equiv> 4"

text \<open>The double nearest to 0.02.\<close>

definition RATE_TOLERANCE :: rat where
  "RATE_TOLERANCE = 5764607523034235 / 288230376151711744"

abbreviation DOUBLED_RATE_BELOW :: rat where "DOUBLED_RATE_BELOW \<equiv> 40"

record modeinfo =
  mi_clock :: nat
  mi_hdisplay :: nat
  mi_htotal :: nat
  mi_vdisplay :: nat
  mi_vtotal :: nat
  mi_flags :: nat

record mode_shape =
  ms_width :: nat
  ms_height :: nat
  ms_refresh :: rat
  ms_interlaced :: bool

record mode_choice =
  mc_index :: nat
  mc_scaled :: bool

definition usable :: "mode_shape \<Rightarrow> bool" where
  "usable s \<longleftrightarrow> \<not> ms_interlaced s \<and> 0 < ms_refresh s \<and> ms_width s \<le> MAX_WIDTH \<and> ms_height s \<le> MAX_HEIGHT"

text \<open>Clock times a thousand and the product of the totals are integers below the precision of a double,
  so only the division rounds.\<close>

definition refresh_rate :: "modeinfo \<Rightarrow> rat" where
  "refresh_rate m =
     (if mi_htotal m = 0 \<or> mi_vtotal m = 0 then 0 else f64_div (mi_clock m * 1000) (mi_htotal m * mi_vtotal m))"

definition mode_shape_of :: "modeinfo \<Rightarrow> mode_shape" where
  "mode_shape_of m =
     \<lparr>ms_width = mi_hdisplay m, ms_height = mi_vdisplay m, ms_refresh = refresh_rate m,
      ms_interlaced = bit (mi_flags m) DRM_MODE_FLAG_INTERLACE_BIT\<rparr>"

definition rate_near :: "rat \<Rightarrow> rat \<Rightarrow> bool" where
  "rate_near refresh expected \<longleftrightarrow> \<bar>round_f64 (refresh - expected)\<bar> < RATE_TOLERANCE"

text \<open>The rates tried in turn.\<close>

definition rate_wishes :: "rat \<Rightarrow> rat list" where
  "rate_wishes requested =
     (if 0 < requested \<and> requested < DOUBLED_RATE_BELOW then [requested * 2] else [])
     @ [requested, of_int (f64_round requested), 60]"

fun try_rates :: "mode_shape list \<Rightarrow> nat list \<Rightarrow> rat list \<Rightarrow> nat option" where
  "try_rates shapes candidates [] = None"
| "try_rates shapes candidates (expected # rest) =
     (case find (\<lambda>i. rate_near (ms_refresh (shapes ! i)) expected) candidates of
        Some i \<Rightarrow> Some i
      | None \<Rightarrow> try_rates shapes candidates rest)"

definition fastest :: "mode_shape list \<Rightarrow> nat \<Rightarrow> nat list \<Rightarrow> nat" where
  "fastest shapes first rest =
     foldl (\<lambda>best i. if ms_refresh (shapes ! best) < ms_refresh (shapes ! i) then i else best) first rest"

definition best_rate :: "mode_shape list \<Rightarrow> nat list \<Rightarrow> rat \<Rightarrow> nat option" where
  "best_rate shapes candidates requested =
     (case try_rates shapes candidates (rate_wishes requested) of
        Some i \<Rightarrow> Some i
      | None \<Rightarrow> (case candidates of [] \<Rightarrow> None | c # cs \<Rightarrow> Some (fastest shapes c cs)))"

text \<open>\<open>Iterator::max_by_key\<close> keeps the last of equal keys, \<open>min_by_key\<close> the first.\<close>

definition max_by_key :: "('a \<Rightarrow> nat) \<Rightarrow> 'a list \<Rightarrow> 'a option" where
  [std_defs]: "max_by_key key xs =
     (case xs of [] \<Rightarrow> None | x # rest \<Rightarrow> Some (foldl (\<lambda>b y. if key b \<le> key y then y else b) x rest))"

definition min_by_key :: "('a \<Rightarrow> nat) \<Rightarrow> 'a list \<Rightarrow> 'a option" where
  [std_defs]: "min_by_key key xs =
     (case xs of [] \<Rightarrow> None | x # rest \<Rightarrow> Some (foldl (\<lambda>b y. if key y < key b then y else b) x rest))"

definition mode_area :: "mode_shape list \<Rightarrow> nat \<Rightarrow> nat" where
  "mode_area shapes i = ms_width (shapes ! i) * ms_height (shapes ! i)"

definition usable_list :: "mode_shape list \<Rightarrow> nat list" where
  "usable_list shapes = filter (\<lambda>i. usable (shapes ! i)) [0..<length shapes]"

definition at_size :: "mode_shape list \<Rightarrow> nat \<Rightarrow> nat \<Rightarrow> nat \<Rightarrow> bool" where
  "at_size shapes w h i \<longleftrightarrow> ms_width (shapes ! i) = w \<and> ms_height (shapes ! i) = h"

definition reduces_into :: "mode_shape list \<Rightarrow> nat \<Rightarrow> nat \<Rightarrow> nat \<Rightarrow> bool" where
  "reduces_into shapes w h i \<longleftrightarrow> ms_width (shapes ! i) \<le> w \<and> ms_height (shapes ! i) \<le> h"

definition choose_size :: "mode_shape list \<Rightarrow> nat \<Rightarrow> nat \<Rightarrow> nat option" where
  "choose_size shapes width height =
     (case max_by_key (mode_area shapes) (filter (reduces_into shapes width height) (usable_list shapes)) of
        Some i \<Rightarrow> Some i
      | None \<Rightarrow> min_by_key (mode_area shapes) (usable_list shapes))"

definition choose_mode :: "mode_shape list \<Rightarrow> nat \<Rightarrow> nat \<Rightarrow> rat \<Rightarrow> mode_choice option" where
  "choose_mode shapes width height requested =
     (case best_rate shapes (filter (at_size shapes width height) (usable_list shapes)) requested of
        Some i \<Rightarrow> Some \<lparr>mc_index = i, mc_scaled = False\<rparr>
      | None \<Rightarrow>
          do { chosen \<leftarrow> choose_size shapes width height;
               i \<leftarrow> best_rate shapes (filter (at_size shapes (ms_width (shapes ! chosen)) (ms_height (shapes ! chosen))) (usable_list shapes)) requested;
               Some \<lparr>mc_index = i, mc_scaled = True\<rparr> })"

section \<open>What a frame comes to\<close>

abbreviation SKIP_BUDGET :: nat where "SKIP_BUDGET \<equiv> 20"

datatype present = Presented | Skipped | UnsupportedVideo string | Failed string

definition describe_presentation :: "bool \<Rightarrow> nat \<Rightarrow> nat \<Rightarrow> bool \<Rightarrow> nat \<Rightarrow> nat \<Rightarrow> string" where
  "describe_presentation interlaced sw sh scaled mw mh =
     (let base = (if interlaced then ''Playing interlaced input progressively without deinterlacing.'' else ''Playing OMT video.'')
      in if scaled
         then base @ '' Scaled from '' @ show_nat sw @ ''x'' @ show_nat sh @ '' to the display's '' @ show_nat mw @ ''x'' @ show_nat mh @ '' mode.''
         else base)"

definition frame_damage :: "vmx_status \<Rightarrow> bool" where
  "frame_damage e \<longleftrightarrow> e \<in> {Truncated, InvalidFormat, Oversized, SliceCount, CorruptStream}"

text \<open>The second component is the skip counter after the call, a 32-bit integer in the source. It is reset
  by every presented frame, and \<open>Failed\<close> ends the session, so it never passes the budget by more than
  one.\<close>

definition classify_decode :: "vmx_status \<Rightarrow> bool \<Rightarrow> nat \<Rightarrow> present \<times> nat" where
  "classify_decode e was_presented skips =
     (let detail = ''VMX decoder rejected the frame: '' @ status_name e
      in if frame_damage e then
           (if \<not> was_presented then (Failed detail, skips)
            else if skips + 1 \<le> SKIP_BUDGET then (Skipped, skips + 1)
            else (Failed (''VMX decoder rejected '' @ show_nat (skips + 1) @ '' consecutive frames: '' @ status_name e), skips + 1))
         else if e = UnsupportedFormat then (UnsupportedVideo detail, skips)
         else (Failed detail, skips))"

section \<open>The choice is the best one\<close>

text \<open>How far down the list of wishes a refresh rate is first met.\<close>

definition rate_rank :: "rat list \<Rightarrow> rat \<Rightarrow> nat" where
  "rate_rank wishes refresh = length (takeWhile (\<lambda>e. \<not> rate_near refresh e) wishes)"

lemma rate_rank_Cons: "rate_rank (e # ws) r = (if rate_near r e then 0 else Suc (rate_rank ws r))"
  by (simp add: rate_rank_def)

lemma rate_rank_le: "rate_rank ws r \<le> length ws"
  by (simp add: rate_rank_def length_takeWhile_le)

lemma try_rates_ranks:
  "case try_rates shapes cs ws of
     Some i \<Rightarrow> i \<in> set cs \<and> rate_rank ws (ms_refresh (shapes ! i)) < length ws
       \<and> (\<forall>j\<in>set cs. rate_rank ws (ms_refresh (shapes ! i)) \<le> rate_rank ws (ms_refresh (shapes ! j)))
   | None \<Rightarrow> \<forall>j\<in>set cs. rate_rank ws (ms_refresh (shapes ! j)) = length ws"
proof (induction ws)
  case Nil
  then show ?case by (simp add: rate_rank_def)
next
  case (Cons e ws)
  show ?case
  proof (cases "find (\<lambda>i. rate_near (ms_refresh (shapes ! i)) e) cs")
    case None
    then have "\<not> rate_near (ms_refresh (shapes ! j)) e" if "j \<in> set cs" for j using that by (auto simp: find_None_iff)
    then show ?thesis using Cons None by (auto simp: rate_rank_Cons split: option.splits)
  next
    case (Some i)
    then have "i \<in> set cs" "rate_near (ms_refresh (shapes ! i)) e" by (auto simp: find_Some_iff)
    then show ?thesis using Some by (simp add: rate_rank_Cons)
  qed
qed

lemma foldl_best:
  assumes "\<And>x y. P (f x y) x \<and> P (f x y) y" "\<And>x y. f x y = x \<or> f x y = y" "\<And>x y z. P x y \<Longrightarrow> P y z \<Longrightarrow> P x z" "\<And>x. P x x"
  shows "foldl f b xs \<in> set (b # xs) \<and> (\<forall>y\<in>set (b # xs). P (foldl f b xs) y)"
proof (induction xs arbitrary: b)
  case Nil
  then show ?case using assms(4) by simp
next
  case (Cons x xs)
  let ?r = "foldl f (f b x) xs"
  have m: "?r \<in> set (f b x # xs)" and a: "\<forall>y\<in>set (f b x # xs). P ?r y" using Cons [of "f b x"] by blast+
  have p: "P ?r (f b x)" and t: "\<forall>y\<in>set xs. P ?r y" using a by simp_all
  have "P ?r b" "P ?r x" using assms(3) [OF p] assms(1) [of b x] by blast+
  moreover have "?r = f b x \<or> ?r \<in> set xs" using m by simp
  then have "?r = b \<or> ?r = x \<or> ?r \<in> set xs" using assms(2) [of b x] by metis
  ultimately show ?case using t by simp
qed

lemma best_rate_best:
  "case best_rate shapes cs requested of
     None \<Rightarrow> cs = []
   | Some i \<Rightarrow> i \<in> set cs
       \<and> (\<forall>j\<in>set cs. rate_rank (rate_wishes requested) (ms_refresh (shapes ! i)) \<le> rate_rank (rate_wishes requested) (ms_refresh (shapes ! j)))
       \<and> (rate_rank (rate_wishes requested) (ms_refresh (shapes ! i)) = length (rate_wishes requested) \<longrightarrow>
            (\<forall>j\<in>set cs. ms_refresh (shapes ! j) \<le> ms_refresh (shapes ! i)))"
proof (cases "try_rates shapes cs (rate_wishes requested)")
  case (Some i)
  then show ?thesis using try_rates_ranks [where shapes = shapes and cs = cs and ws = "rate_wishes requested"] by (auto simp: best_rate_def)
next
  case None
  then have all: "\<forall>j\<in>set cs. rate_rank (rate_wishes requested) (ms_refresh (shapes ! j)) = length (rate_wishes requested)"
    using try_rates_ranks [where shapes = shapes and cs = cs and ws = "rate_wishes requested"] by simp
  show ?thesis
  proof (cases cs)
    case Nil
    then show ?thesis using None by (simp add: best_rate_def)
  next
    case (Cons c rest)
    have "fastest shapes c rest \<in> set (c # rest) \<and> (\<forall>y\<in>set (c # rest). ms_refresh (shapes ! y) \<le> ms_refresh (shapes ! fastest shapes c rest))"
      unfolding fastest_def by (rule foldl_best) auto
    then show ?thesis using None Cons all by (auto simp: best_rate_def)
  qed
qed

lemma max_by_key_best: "case max_by_key key xs of None \<Rightarrow> xs = [] | Some x \<Rightarrow> x \<in> set xs \<and> (\<forall>y\<in>set xs. key y \<le> key x)"
proof (cases xs)
  case (Cons x rest)
  have "foldl (\<lambda>b y. if key b \<le> key y then y else b) x rest \<in> set (x # rest)
    \<and> (\<forall>y\<in>set (x # rest). key y \<le> key (foldl (\<lambda>b y. if key b \<le> key y then y else b) x rest))"
    by (rule foldl_best) auto
  then show ?thesis using Cons by (simp add: max_by_key_def)
qed (simp add: max_by_key_def)

lemma min_by_key_best: "case min_by_key key xs of None \<Rightarrow> xs = [] | Some x \<Rightarrow> x \<in> set xs \<and> (\<forall>y\<in>set xs. key x \<le> key y)"
proof (cases xs)
  case (Cons x rest)
  have "foldl (\<lambda>b y. if key y < key b then y else b) x rest \<in> set (x # rest)
    \<and> (\<forall>y\<in>set (x # rest). key (foldl (\<lambda>b y. if key y < key b then y else b) x rest) \<le> key y)"
    by (rule foldl_best) auto
  then show ?thesis using Cons by (simp add: min_by_key_def)
qed (simp add: min_by_key_def)

text \<open>What the best size is: the largest that the video reduces into, or the smallest of all.\<close>

definition best_size :: "mode_shape list \<Rightarrow> nat \<Rightarrow> nat \<Rightarrow> nat \<Rightarrow> bool" where
  "best_size shapes w h c \<longleftrightarrow>
     (if \<exists>j\<in>set (usable_list shapes). reduces_into shapes w h j
      then reduces_into shapes w h c \<and> (\<forall>j\<in>set (usable_list shapes). reduces_into shapes w h j \<longrightarrow> mode_area shapes j \<le> mode_area shapes c)
      else \<forall>j\<in>set (usable_list shapes). mode_area shapes c \<le> mode_area shapes j)"

lemma choose_size_best:
  "case choose_size shapes w h of None \<Rightarrow> usable_list shapes = [] | Some c \<Rightarrow> c \<in> set (usable_list shapes) \<and> best_size shapes w h c"
proof (cases "max_by_key (mode_area shapes) (filter (reduces_into shapes w h) (usable_list shapes))")
  case (Some c)
  then show ?thesis using max_by_key_best [where key = "mode_area shapes" and xs = "filter (reduces_into shapes w h) (usable_list shapes)"]
    by (auto simp: choose_size_def best_size_def)
next
  case None
  then have none: "\<not> (\<exists>j\<in>set (usable_list shapes). reduces_into shapes w h j)"
    using max_by_key_best [where key = "mode_area shapes" and xs = "filter (reduces_into shapes w h) (usable_list shapes)"] by (auto simp: filter_empty_conv)
  show ?thesis using None none min_by_key_best [where key = "mode_area shapes" and xs = "usable_list shapes"]
    by (cases "min_by_key (mode_area shapes) (usable_list shapes)") (auto simp: choose_size_def best_size_def)
qed

lemma usable_list_iff: "i \<in> set (usable_list shapes) \<longleftrightarrow> i < length shapes \<and> usable (shapes ! i)"
  by (auto simp: usable_list_def)

text \<open>What the best mode of a size is.\<close>

definition best_mode :: "mode_shape list \<Rightarrow> rat \<Rightarrow> nat \<Rightarrow> bool" where
  "best_mode shapes requested i \<longleftrightarrow>
     (let ws = rate_wishes requested; rank = (\<lambda>j. rate_rank ws (ms_refresh (shapes ! j)))
      in i \<in> set (usable_list shapes)
         \<and> (\<forall>j\<in>set (usable_list shapes). at_size shapes (ms_width (shapes ! i)) (ms_height (shapes ! i)) j \<longrightarrow>
              rank i \<le> rank j \<and> (rank i = length ws \<longrightarrow> ms_refresh (shapes ! j) \<le> ms_refresh (shapes ! i))))"

lemma best_rate_of_size:
  assumes "best_rate shapes (filter (at_size shapes w h) (usable_list shapes)) requested = Some i"
  shows "at_size shapes w h i \<and> best_mode shapes requested i"
  using best_rate_best [where shapes = shapes and cs = "filter (at_size shapes w h) (usable_list shapes)" and requested = requested] assms
  by (auto simp: best_mode_def Let_def at_size_def)

lemma best_rate_none:
  "best_rate shapes (filter (at_size shapes w h) (usable_list shapes)) requested = None \<longleftrightarrow> (\<forall>j\<in>set (usable_list shapes). \<not> at_size shapes w h j)"
  using best_rate_best [where shapes = shapes and cs = "filter (at_size shapes w h) (usable_list shapes)" and requested = requested]
  by (auto simp: filter_empty_conv best_rate_def split: option.splits)

lemma choose_mode_cases:
  obtains (nothing) "usable_list shapes = []" "choose_mode shapes w h requested = None"
  | (exact) i where "choose_mode shapes w h requested = Some \<lparr>mc_index = i, mc_scaled = False\<rparr>" "at_size shapes w h i" "best_mode shapes requested i"
  | (scaled) c i where "choose_mode shapes w h requested = Some \<lparr>mc_index = i, mc_scaled = True\<rparr>"
      "\<forall>j\<in>set (usable_list shapes). \<not> at_size shapes w h j" "c \<in> set (usable_list shapes)" "best_size shapes w h c"
      "at_size shapes (ms_width (shapes ! c)) (ms_height (shapes ! c)) i" "best_mode shapes requested i"
proof (cases "best_rate shapes (filter (at_size shapes w h) (usable_list shapes)) requested")
  case (Some i)
  then show ?thesis using exact [of i] best_rate_of_size [OF Some] by (simp add: choose_mode_def)
next
  case none: None
  show ?thesis
  proof (cases "choose_size shapes w h")
    case None
    then have "usable_list shapes = []" "choose_mode shapes w h requested = None"
      using none choose_size_best [where shapes = shapes and w = w and h = h] by (simp_all add: choose_mode_def)
    then show ?thesis by (rule nothing)
  next
    case (Some c)
    then have c: "c \<in> set (usable_list shapes)" "best_size shapes w h c" using choose_size_best [where shapes = shapes and w = w and h = h] by simp_all
    let ?cs = "filter (at_size shapes (ms_width (shapes ! c)) (ms_height (shapes ! c))) (usable_list shapes)"
    obtain i where i: "best_rate shapes ?cs requested = Some i"
      using best_rate_none [of shapes "ms_width (shapes ! c)" "ms_height (shapes ! c)" requested] c(1)
      by (auto simp: at_size_def)
    show ?thesis using scaled [of i c] best_rate_of_size [OF i] c Some i none best_rate_none [of shapes w h requested]
      by (simp add: choose_mode_def)
  qed
qed

lemma classify_decode_budget:
  assumes "classify_decode e was_presented skips = (r, skips')" "skips \<le> SKIP_BUDGET"
  shows "r \<noteq> Presented" "r = Skipped \<longleftrightarrow> frame_damage e \<and> was_presented \<and> skips < SKIP_BUDGET"
    "r = Skipped \<Longrightarrow> skips' = Suc skips" "(\<exists>m. r = UnsupportedVideo m) \<longleftrightarrow> e = UnsupportedFormat"
    "\<forall>m. r \<noteq> Failed m \<Longrightarrow> skips' \<le> SKIP_BUDGET"
  using assms by (auto simp: classify_decode_def frame_damage_def Let_def split: if_splits)

section \<open>Properties\<close>

text \<open>C29. The mode chosen for a format is the best one the display offers. A mode is found exactly when some
  mode is usable, and it is then a usable mode of the list. It is unscaled exactly when a usable mode
  has the video's own size, and then has that size. Otherwise its size is that of the largest usable
  mode the video reduces into, or of the smallest usable mode when the video reduces into none. Among
  the usable modes of the chosen size none has a refresh rate that comes earlier in the order of
  preference (twice a low source rate, the source rate, the nearest whole rate, 60 Hz), and when none
  meets any of these, none is faster.\<close>

theorem choose_mode_best:
  "(choose_mode shapes w h requested = None \<longleftrightarrow> (\<forall>i < length shapes. \<not> usable (shapes ! i)))
   \<and> (\<forall>c. choose_mode shapes w h requested = Some c \<longrightarrow>
        best_mode shapes requested (mc_index c)
        \<and> (mc_scaled c \<longleftrightarrow> (\<forall>j\<in>set (usable_list shapes). \<not> at_size shapes w h j))
        \<and> (\<not> mc_scaled c \<longrightarrow> at_size shapes w h (mc_index c))
        \<and> (mc_scaled c \<longrightarrow> (\<exists>k\<in>set (usable_list shapes). best_size shapes w h k
              \<and> at_size shapes (ms_width (shapes ! k)) (ms_height (shapes ! k)) (mc_index c))))"
proof (cases rule: choose_mode_cases [of shapes w h requested])
  case nothing
  then show ?thesis using usable_list_iff [of _ shapes] by auto
next
  case (exact i)
  then have "i \<in> set (usable_list shapes)" by (simp add: best_mode_def Let_def)
  then show ?thesis using exact by (auto simp: usable_list_iff)
next
  case (scaled k i)
  then show ?thesis using usable_list_iff [of k shapes] by auto
qed

theorem choose_mode_best_witness:
  "\<exists>c. choose_mode [\<lparr>ms_width = 1920, ms_height = 1080, ms_refresh = 60, ms_interlaced = False\<rparr>,
      \<lparr>ms_width = 1280, ms_height = 720, ms_refresh = 50, ms_interlaced = False\<rparr>] 1280 720 25 = Some c
    \<and> mc_index c = 1 \<and> \<not> mc_scaled c"
proof -
  let ?shapes = "[\<lparr>ms_width = 1920, ms_height = 1080, ms_refresh = 60, ms_interlaced = False\<rparr>,
      \<lparr>ms_width = 1280, ms_height = 720, ms_refresh = 50, ms_interlaced = False\<rparr>]"
  have u: "usable_list ?shapes = [0, 1]" by (simp add: usable_list_def usable_def upt_rec)
  have "usable (?shapes ! 0)" by (simp add: usable_def)
  then obtain c where c: "choose_mode ?shapes 1280 720 25 = Some c"
    using choose_mode_best [of ?shapes 1280 720 25] by fastforce
  then have "\<not> mc_scaled c" "at_size ?shapes 1280 720 (mc_index c)" "mc_index c \<in> set (usable_list ?shapes)"
    using choose_mode_best [of ?shapes 1280 720 25] u by (auto simp: at_size_def best_mode_def Let_def)
  then show ?thesis using c u by (auto simp: at_size_def)
qed

end
