(* ===== verification/Video_Output.thy ===== *)
theory Video_Output
  imports Video_Modes Scale Channel Vmx_Run
begin

text \<open>
  \<^verbatim>\<open>crates/omt-receiver/src/video.rs\<close>: the flip chain. What the display driver answers is a record of
  functions, one per call of \<^verbatim>\<open>omt_sys::drm\<close>; errors carry their text. The release of kernel objects has no
  other effect than that they are gone. A panic, which aborts the process, is \<open>None\<close>: the arithmetic of
  this crate is compiled with overflow checks. \<open>u32::from_ne_bytes\<close> is little endian on the targets.
\<close>

section \<open>The display driver\<close>

abbreviation DRM_BUFFERS :: nat where "DRM_BUFFERS \<equiv> 3"
abbreviation DECODE_WORKERS :: nat where "DECODE_WORKERS \<equiv> 3"
abbreviation MAX_OBJECT_PROPS :: nat where "MAX_OBJECT_PROPS \<equiv> 64"
abbreviation DRM_MODE_CONNECTED :: nat where "DRM_MODE_CONNECTED \<equiv> 1"
abbreviation DRM_CLIENT_CAP_UNIVERSAL_PLANES :: nat where "DRM_CLIENT_CAP_UNIVERSAL_PLANES \<equiv> 2"
abbreviation DRM_CLIENT_CAP_ATOMIC :: nat where "DRM_CLIENT_CAP_ATOMIC \<equiv> 3"
abbreviation DRM_MODE_OBJECT_CRTC :: nat where "DRM_MODE_OBJECT_CRTC \<equiv> 0xcccccccc"
abbreviation DRM_MODE_OBJECT_CONNECTOR :: nat where "DRM_MODE_OBJECT_CONNECTOR \<equiv> 0xc0c0c0c0"
abbreviation DRM_MODE_OBJECT_PLANE :: nat where "DRM_MODE_OBJECT_PLANE \<equiv> 0xeeeeeeee"
abbreviation DRM_FORMAT_YUV422 :: nat where "DRM_FORMAT_YUV422 \<equiv> 0x36315559"
abbreviation DRM_PLANE_TYPE_PRIMARY :: nat where "DRM_PLANE_TYPE_PRIMARY \<equiv> 1"
abbreviation DRM_MODE_ATOMIC_TEST_ONLY :: nat where "DRM_MODE_ATOMIC_TEST_ONLY \<equiv> 0x100"
abbreviation DRM_MODE_ATOMIC_NONBLOCK :: nat where "DRM_MODE_ATOMIC_NONBLOCK \<equiv> 0x200"
abbreviation DRM_MODE_ATOMIC_ALLOW_MODESET :: nat where "DRM_MODE_ATOMIC_ALLOW_MODESET \<equiv> 0x400"
abbreviation DRM_MODE_PAGE_FLIP_EVENT :: nat where "DRM_MODE_PAGE_FLIP_EVENT \<equiv> 1"
abbreviation DRM_EVENT_FLIP_COMPLETE :: nat where "DRM_EVENT_FLIP_COMPLETE \<equiv> 2"

record connector_info =
  ci_count_modes :: nat
  ci_connection :: nat
  ci_encoder_id :: nat

record drm_property =
  dp_name :: "u8 list"
  dp_flags :: nat
  dp_count_enum_blobs :: nat

text \<open>An atomic request under construction: the objects in order, how many properties each has, and the
  properties with their values.\<close>

record atomic_request =
  aq_objects :: "nat list"
  aq_counts :: "nat list"
  aq_props :: "nat list"
  aq_values :: "nat list"

definition request_new :: atomic_request where
  "request_new = \<lparr>aq_objects = [], aq_counts = [], aq_props = [], aq_values = []\<rparr>"

definition aq_object :: "nat \<Rightarrow> atomic_request \<Rightarrow> atomic_request" where
  "aq_object i r = r\<lparr>aq_objects := aq_objects r @ [i], aq_counts := aq_counts r @ [0]\<rparr>"

definition aq_prop :: "nat \<Rightarrow> nat \<Rightarrow> atomic_request \<Rightarrow> atomic_request" where
  "aq_prop i v r =
     r\<lparr>aq_props := aq_props r @ [i], aq_values := aq_values r @ [v],
       aq_counts := (if aq_counts r = [] then [] else butlast (aq_counts r) @ [last (aq_counts r) + 1])\<rparr>"

text \<open>The buffers a call fills are part of its answer: \<open>dr_connector\<close> gets the connector and the room for
  modes, \<open>dr_object_props\<close> answers the count and the two buffers, \<open>dr_create_dumb\<close> gets the number of
  the buffer within its chain, the width, the height and the bits per pixel and answers the handle, the
  pitch and the size.\<close>

record drm =
  dr_connector :: "nat \<Rightarrow> nat \<Rightarrow> string + (connector_info \<times> modeinfo list)"
  dr_encoder :: "nat \<Rightarrow> nat option"
  dr_set_cap :: "nat \<Rightarrow> bool"
  dr_object_props :: "nat \<Rightarrow> nat \<Rightarrow> (nat \<times> nat list \<times> nat list) option"
  dr_property :: "nat \<Rightarrow> drm_property option"
  dr_property_enums :: "nat \<Rightarrow> (nat \<times> (u8 list \<times> nat) list) option"
  dr_crtcs :: "(nat \<times> nat list) option"
  dr_planes :: "(nat \<times> nat list) option"
  dr_plane :: "nat \<Rightarrow> (nat \<times> nat \<times> nat list) option"
  dr_create_dumb :: "nat \<Rightarrow> nat \<Rightarrow> nat \<Rightarrow> nat \<Rightarrow> string + (nat \<times> nat \<times> nat)"
  dr_add_fb :: "nat \<Rightarrow> string + nat"
  dr_add_fb2 :: "nat \<Rightarrow> nat list \<Rightarrow> nat list \<Rightarrow> string + nat"
  dr_map_dumb :: "nat \<Rightarrow> nat \<Rightarrow> string + u8 list"
  dr_mode_blob :: "string + nat"
  dr_commit :: "nat \<Rightarrow> atomic_request \<Rightarrow> string + unit"
  dr_set_crtc :: "nat \<Rightarrow> nat \<Rightarrow> nat \<Rightarrow> modeinfo \<Rightarrow> string + unit"
  dr_page_flip :: "nat \<Rightarrow> nat \<Rightarrow> string + unit"

definition os_detail :: "string \<Rightarrow> string \<Rightarrow> string" where
  "os_detail what e = what @ '': '' @ e"

section \<open>Surfaces\<close>

record surface =
  su_handle :: nat
  su_pitch :: nat
  su_size :: nat
  su_framebuffer :: nat
  su_map :: "u8 list option"
  su_plane_offsets :: "nat list"
  su_plane_pitches :: "nat list"

definition surface_empty :: surface where
  "surface_empty = \<lparr>su_handle = 0, su_pitch = 0, su_size = 0, su_framebuffer = 0, su_map = None,
     su_plane_offsets = [0, 0, 0], su_plane_pitches = [0, 0, 0]\<rparr>"

definition create_dumb :: "drm \<Rightarrow> nat \<Rightarrow> surface \<Rightarrow> nat \<Rightarrow> nat \<Rightarrow> nat \<Rightarrow> string + surface" where
  "create_dumb dr k s width height bpp =
     (case dr_create_dumb dr k width height bpp of
        Inl e \<Rightarrow> Inl (os_detail ''Unable to create DRM buffer'' e)
      | Inr (handle, pitch, sz) \<Rightarrow> Inr (s\<lparr>su_handle := handle, su_pitch := pitch, su_size := sz\<rparr>))"

definition surface_map :: "drm \<Rightarrow> surface \<Rightarrow> string + surface" where
  "surface_map dr s =
     (case dr_map_dumb dr (su_handle s) (su_size s) of
        Inl e \<Rightarrow> Inl (os_detail ''Unable to map DRM buffer'' e)
      | Inr bs \<Rightarrow> Inr (s\<lparr>su_map := Some bs\<rparr>))"

definition surface_bytes :: "surface \<Rightarrow> u8 list" where
  "surface_bytes s = (case su_map s of None \<Rightarrow> [] | Some bs \<Rightarrow> bs)"

definition surface_bgrx :: "drm \<Rightarrow> nat \<Rightarrow> nat \<Rightarrow> nat \<Rightarrow> string + surface" where
  "surface_bgrx dr k width height =
     and_then (create_dumb dr k surface_empty width height 32) (\<lambda>s.
       case dr_add_fb dr (su_handle s) of
         Inl e \<Rightarrow> Inl (os_detail ''Unable to register DRM framebuffer'' e)
       | Inr fb \<Rightarrow> surface_map dr (s\<lparr>su_framebuffer := fb\<rparr>))"

text \<open>\<open>bytes[..luma].fill(16)\<close> and \<open>bytes[luma..luma + chroma].fill(128)\<close>: slicing past the end panics.\<close>

definition fill_black :: "nat \<Rightarrow> nat \<Rightarrow> u8 list \<Rightarrow> u8 list option" where
  "fill_black luma chroma bs =
     (if length bs < luma + chroma then None
      else Some (replicate luma 16 @ replicate chroma 128 @ drop (luma + chroma) bs))"

text \<open>The products are of 32 bits and checked: \<open>None\<close> when one overflows.\<close>

definition surface_yuv :: "drm \<Rightarrow> nat \<Rightarrow> nat \<Rightarrow> nat \<Rightarrow> (string + surface) option" where
  "surface_yuv dr k width height =
     (case create_dumb dr k surface_empty width (height * 2) 8 of
        Inl e \<Rightarrow> Some (Inl e)
      | Inr s \<Rightarrow>
          do { luma_bytes \<leftarrow> checked_mul U32_MAX (su_pitch s) height;
               chroma_pitch \<leftarrow> Some (su_pitch s div 2);
               if su_pitch s mod 2 \<noteq> 0 \<or> su_size s < luma_bytes * 2 then Some (Inl ''DRM buffer pitch cannot carry planar YCbCr'')
               else
                 do { second \<leftarrow> checked_mul U32_MAX chroma_pitch height;
                      third \<leftarrow> checked_add U32_MAX luma_bytes second;
                      s \<leftarrow> Some (s\<lparr>su_plane_offsets := [0, luma_bytes, third], su_plane_pitches := [su_pitch s, chroma_pitch, chroma_pitch]\<rparr>);
                      case dr_add_fb2 dr (su_handle s) (su_plane_pitches s) (su_plane_offsets s) of
                        Inl e \<Rightarrow> Some (Inl (os_detail ''Unable to register a YCbCr framebuffer'' e))
                      | Inr fb \<Rightarrow>
                          (case surface_map dr (s\<lparr>su_framebuffer := fb\<rparr>) of
                             Inl e \<Rightarrow> Some (Inl e)
                           | Inr s \<Rightarrow>
                               do { bs \<leftarrow> fill_black luma_bytes (chroma_pitch * height * 2) (surface_bytes s);
                                    Some (Inr (s\<lparr>su_map := Some bs\<rparr>)) }) } })"

section \<open>Properties of display objects\<close>

definition CONNECTOR_PROPS :: "string list" where
  "CONNECTOR_PROPS = [''CRTC_ID'']"

definition CRTC_PROPS :: "string list" where
  "CRTC_PROPS = [''MODE_ID'', ''ACTIVE'']"

definition PLANE_PROPS :: "string list" where
  "PLANE_PROPS = [''FB_ID'', ''CRTC_ID'', ''SRC_X'', ''SRC_Y'', ''SRC_W'', ''SRC_H'', ''CRTC_X'', ''CRTC_Y'', ''CRTC_W'', ''CRTC_H'',
     ''COLOR_ENCODING'', ''COLOR_RANGE'']"

text \<open>The name up to its first zero byte; the array has 32 bytes.\<close>

definition c_name :: "u8 list \<Rightarrow> u8 list" where
  "c_name name = take (min (case position (\<lambda>b. b = 0) name of Some i \<Rightarrow> i | None \<Rightarrow> 31) 31) name"

text \<open>One property of the object: its id and value, against the wanted names.\<close>

definition note_prop :: "drm \<Rightarrow> string list \<Rightarrow> nat \<times> nat \<Rightarrow> nat list \<times> nat option \<Rightarrow> nat list \<times> nat option" where
  "note_prop dr names iv acc =
     (case dr_property dr (fst iv) of
        None \<Rightarrow> acc
      | Some prop \<Rightarrow>
          (let name = c_name (dp_name prop)
           in (map2 (\<lambda>want i. if name = as_bytes want then fst iv else i) names (fst acc),
               if name = as_bytes ''type'' then Some (snd iv) else snd acc)))"

definition find_props :: "drm \<Rightarrow> nat \<Rightarrow> nat \<Rightarrow> string list \<Rightarrow> (nat list \<times> nat option) option" where
  "find_props dr object object_type names =
     do { (count, ids, values) \<leftarrow> dr_object_props dr object object_type;
          if MAX_OBJECT_PROPS < count then None
          else (let found = fold (note_prop dr names) (take count (zip ids values)) (replicate (length names) 0, None)
                in if list_all (\<lambda>i. i \<noteq> 0) (fst found) then Some found else None) }"

definition enum_value :: "drm \<Rightarrow> nat \<Rightarrow> string \<Rightarrow> nat option" where
  "enum_value dr prop_id name =
     do { prop \<leftarrow> dr_property dr prop_id;
          if \<not> bit (dp_flags prop) 3 \<or> 16 < dp_count_enum_blobs prop then None
          else do { (count, entries) \<leftarrow> dr_property_enums dr prop_id;
                    map_option snd (find (\<lambda>e. c_name (fst e) = as_bytes name) (take (min count 16) entries)) } }"

fun find_map :: "('a \<Rightarrow> 'b option) \<Rightarrow> 'a list \<Rightarrow> 'b option" where
  "find_map f [] = None"
| "find_map f (x # xs) = (case f x of Some y \<Rightarrow> Some y | None \<Rightarrow> find_map f xs)"

definition yuv_plane :: "drm \<Rightarrow> nat \<Rightarrow> nat \<Rightarrow> (nat \<times> nat list) option" where
  "yuv_plane dr index plane =
     do { (possible_crtcs, count, formats) \<leftarrow> dr_plane dr plane;
          if 128 < count \<or> \<not> bit possible_crtcs index \<or> DRM_FORMAT_YUV422 \<notin> set (take count formats) then None
          else do { (ids, kind) \<leftarrow> find_props dr plane DRM_MODE_OBJECT_PLANE PLANE_PROPS;
                    if kind = Some DRM_PLANE_TYPE_PRIMARY then Some (plane, ids) else None } }"

definition find_yuv_plane :: "drm \<Rightarrow> nat \<Rightarrow> (nat \<times> nat list) option" where
  "find_yuv_plane dr crtc =
     do { (n, crtcs) \<leftarrow> dr_crtcs dr;
          if 16 < n then None
          else do { index \<leftarrow> position (\<lambda>c. c = crtc) (take n crtcs);
                    (n, planes) \<leftarrow> dr_planes dr;
                    if 64 < n then None else find_map (yuv_plane dr index) (take n planes) } }"

text \<open>\<open>get_connector\<close>: asks again with the room the driver wants, at most four times.\<close>

fun connector_attempts :: "drm \<Rightarrow> nat \<Rightarrow> nat \<Rightarrow> nat \<Rightarrow> string + (connector_info \<times> modeinfo list)" where
  "connector_attempts dr i 0 capacity = Inl ''EAGAIN''"
| "connector_attempts dr i (Suc n) capacity =
     (case dr_connector dr i capacity of
        Inl e \<Rightarrow> Inl e
      | Inr (info, modes) \<Rightarrow>
          if ci_count_modes info \<le> capacity then Inr (info, take (ci_count_modes info) modes)
          else connector_attempts dr i n (min 1024 (max 1 (ci_count_modes info))))"

definition get_connector :: "drm \<Rightarrow> nat \<Rightarrow> string + (connector_info \<times> modeinfo list)" where
  "get_connector dr i = connector_attempts dr i 4 1"

section \<open>The YCbCr path\<close>

record yuv_setup =
  se_connector :: nat
  se_crtc :: nat
  se_mode :: modeinfo
  se_width :: nat
  se_height :: nat
  se_color_space :: color_space
  se_placement :: placement
  se_scaled :: bool

text \<open>A chain of surfaces, each created by \<open>mk\<close> from its number; the first failure is the result.\<close>

fun surfaces_loop :: "(nat \<Rightarrow> (string + surface) option) \<Rightarrow> nat list \<Rightarrow> surface list \<Rightarrow> (string + surface list) option" where
  "surfaces_loop mk [] acc = Some (Inr acc)"
| "surfaces_loop mk (k # ks) acc =
     (case mk k of
        None \<Rightarrow> None
      | Some (Inl e) \<Rightarrow> Some (Inl e)
      | Some (Inr s) \<Rightarrow> surfaces_loop mk ks (acc @ [s]))"

definition yuv_request :: "yuv_setup \<Rightarrow> nat \<Rightarrow> nat list \<Rightarrow> nat list \<Rightarrow> nat list \<Rightarrow> nat \<Rightarrow> nat \<Rightarrow> nat \<Rightarrow> nat \<Rightarrow> (nat \<times> nat) option \<Rightarrow> atomic_request" where
  "yuv_request s plane connector_ids crtc_ids plane_ids framebuffer blob encoding yrange filter_prop =
     (let r = aq_prop (connector_ids ! 0) (se_crtc s) (aq_object (se_connector s) request_new);
          r = aq_prop (crtc_ids ! 1) 1 (aq_prop (crtc_ids ! 0) blob (aq_object (se_crtc s) r));
          p = se_placement s;
          plane_values = [framebuffer, se_crtc s, 0, 0, se_width s * 65536, se_height s * 65536, pl_x p, pl_y p, pl_width p, pl_height p, encoding, yrange];
          r = fold (\<lambda>(i, v). aq_prop i v) (zip plane_ids plane_values) (aq_object plane r)
      in case filter_prop of None \<Rightarrow> r | Some (i, v) \<Rightarrow> aq_prop i v r)"

text \<open>The colour encoding, the range and the optional filter of the plane.\<close>

definition yuv_encoding :: "drm \<Rightarrow> yuv_setup \<Rightarrow> nat list \<Rightarrow> (nat \<times> nat) option" where
  "yuv_encoding dr s plane_ids =
     do { encoding \<leftarrow> enum_value dr (plane_ids ! 10) (if se_color_space s = Bt601 then ''ITU-R BT.601 YCbCr'' else ''ITU-R BT.709 YCbCr'');
          yrange \<leftarrow> enum_value dr (plane_ids ! 11) ''YCbCr limited range'';
          Some (encoding, yrange) }"

definition scaling_filter :: "drm \<Rightarrow> yuv_setup \<Rightarrow> nat \<Rightarrow> (nat \<times> nat) option" where
  "scaling_filter dr s plane =
     do { (ids, _) \<leftarrow> find_props dr plane DRM_MODE_OBJECT_PLANE [''SCALING_FILTER''];
          v \<leftarrow> enum_value dr (ids ! 0) (if se_scaled s then ''Default'' else ''Nearest Neighbor'');
          Some (ids ! 0, v) }"

text \<open>The commits: asked first, so that a refusal changes nothing.\<close>

definition commit_yuv :: "drm \<Rightarrow> atomic_request \<Rightarrow> string + unit" where
  "commit_yuv dr r =
     (case dr_commit dr (DRM_MODE_ATOMIC_TEST_ONLY + DRM_MODE_ATOMIC_ALLOW_MODESET) r of
        Inl e \<Rightarrow> Inl (os_detail ''the display hardware refused YCbCr scanout'' e)
      | Inr _ \<Rightarrow>
          (case dr_commit dr DRM_MODE_ATOMIC_ALLOW_MODESET r of
             Inl e \<Rightarrow> Inl (os_detail ''Unable to set DRM mode for YCbCr scanout'' e)
           | Inr _ \<Rightarrow> Inr ()))"

text \<open>\<open>u16::try_from(v).unwrap_or(0)\<close>.\<close>

definition u16_or_0 :: "nat \<Rightarrow> nat" where
  [std_defs]: "u16_or_0 v = (if v \<le> 65535 then v else 0)"

definition configure_yuv :: "drm \<Rightarrow> yuv_setup \<Rightarrow> (string + (surface list \<times> nat \<times> nat)) option" where
  "configure_yuv dr s =
     (if \<not> dr_set_cap dr DRM_CLIENT_CAP_UNIVERSAL_PLANES \<or> \<not> dr_set_cap dr DRM_CLIENT_CAP_ATOMIC
      then Some (Inl ''the DRM device offers no atomic mode-setting'')
      else
        (case do { (plane, plane_ids) \<leftarrow> find_yuv_plane dr (se_crtc s);
                   (connector_ids, _) \<leftarrow> find_props dr (se_connector s) DRM_MODE_OBJECT_CONNECTOR CONNECTOR_PROPS;
                   (crtc_ids, _) \<leftarrow> find_props dr (se_crtc s) DRM_MODE_OBJECT_CRTC CRTC_PROPS;
                   Some (plane, plane_ids, connector_ids, crtc_ids) } of
           None \<Rightarrow> Some (Inl ''no primary plane on this display takes planar YCbCr 4:2:2'')
         | Some (plane, plane_ids, connector_ids, crtc_ids) \<Rightarrow>
             (case yuv_encoding dr s plane_ids of
                None \<Rightarrow> Some (Inl ''the display plane offers no matching YCbCr colour encoding'')
              | Some (encoding, yrange) \<Rightarrow>
                  (case surfaces_loop (\<lambda>k. surface_yuv dr k (u16_or_0 (se_width s)) (u16_or_0 (se_height s))) [0..<DRM_BUFFERS] [] of
                     None \<Rightarrow> None
                   | Some (Inl e) \<Rightarrow> Some (Inl e)
                   | Some (Inr surfaces) \<Rightarrow>
                       (case dr_mode_blob dr of
                          Inl e \<Rightarrow> Some (Inl (os_detail ''Unable to describe the DRM mode'' e))
                        | Inr blob \<Rightarrow>
                            Some (and_then (commit_yuv dr (yuv_request s plane connector_ids crtc_ids plane_ids
                                    (su_framebuffer (surfaces ! 0)) blob encoding yrange (scaling_filter dr s plane)))
                                  (\<lambda>_. Inr (surfaces, plane, plane_ids ! 0))))))))"

section \<open>The output\<close>

record video_format =
  vf_width :: int
  vf_height :: int
  vf_frame_rate_n :: int
  vf_frame_rate_d :: int
  vf_color_space :: int

definition format_of :: "video_header \<Rightarrow> video_format" where
  "format_of h = \<lparr>vf_width = vh_width h, vf_height = vh_height h, vf_frame_rate_n = vh_frame_rate_n h,
     vf_frame_rate_d = vh_frame_rate_d h, vf_color_space = vh_color_space h\<rparr>"

record config =
  cf_crtc :: nat
  cf_surfaces :: "surface list"
  cf_front :: nat
  cf_flip_pending :: bool
  cf_decoder :: decoder
  cf_yuv :: bool
  cf_plane :: nat
  cf_plane_fb_prop :: nat
  cf_scaler :: "scaler option"
  cf_format :: video_format
  cf_progressive_detail :: string
  cf_interlaced_detail :: string
  cf_presented :: bool
  cf_skips :: nat

record stamps =
  sp_decode_start :: nat
  sp_decoded :: nat
  sp_queued :: nat
  sp_vblank :: nat

record video_output =
  vo_cfg :: "config option"
  vo_connector_id :: nat
  vo_rejected :: "(video_format \<times> string) option"
  vo_ceiling :: video_ceiling
  vo_stamps :: stamps

text \<open>\<open>open\<close>: the answers are whether the device opened, and the dumb-buffer capability.\<close>

definition video_open :: "string + unit \<Rightarrow> nat option \<Rightarrow> nat \<Rightarrow> video_ceiling \<Rightarrow> string + video_output" where
  "video_open opened cap connector_id limit =
     (case opened of
        Inl e \<Rightarrow> Inl (''Failed to open DRM device: '' @ e)
      | Inr _ \<Rightarrow>
          if cap = None \<or> cap = Some 0 then Inl ''DRM device does not support dumb buffers''
          else Inr \<lparr>vo_cfg = None, vo_connector_id = connector_id, vo_rejected = None, vo_ceiling = limit,
                    vo_stamps = \<lparr>sp_decode_start = 0, sp_decoded = 0, sp_queued = 0, sp_vblank = 0\<rparr>\<rparr>)"

definition presentation_detail :: "video_output \<Rightarrow> bool \<Rightarrow> string" where
  "presentation_detail v interlaced =
     (case vo_cfg v of
        None \<Rightarrow> ''Playing OMT video.''
      | Some c \<Rightarrow> if interlaced then cf_interlaced_detail c else cf_progressive_detail c)"

text \<open>The events in one read: the flip completion, if there is one, with the instant of its vertical blank
  when the event carries it.\<close>

function scan_events :: "u8 list \<Rightarrow> nat option option" where
  "scan_events bs =
     (if length bs < 8 then None
      else
        (let kind = le_val (take 4 bs); len = le_val (take 4 (drop 4 bs))
         in if len < 8 \<or> length bs < len then None
            else if kind = DRM_EVENT_FLIP_COMPLETE then
              Some (if 24 \<le> len then Some (le_val (take 4 (drop 16 bs)) * 1000000000 + le_val (take 4 (drop 20 bs)) * 1000) else None)
            else scan_events (drop len bs)))"
  by pat_completeness auto
termination
  by (relation "measure length") auto

declare scan_events.simps [simp del]

datatype flip_read = FlipRead "u8 list" | FlipAgain | FlipErr string

text \<open>\<open>wait_for_flip\<close> over what each turn's read answered and the time left after it; \<open>None\<close> when the
  answers end first.\<close>

fun wait_for_flip :: "(flip_read \<times> nat) list \<Rightarrow> (string + nat option) option" where
  "wait_for_flip [] = None"
| "wait_for_flip ((r, left) # rest) =
     (case r of
        FlipErr e \<Rightarrow> Some (Inl (os_detail ''Unable to wait for DRM page flip'' e))
      | FlipAgain \<Rightarrow> if left = 0 then Some (Inl ''DRM page flip timed out'') else wait_for_flip rest
      | FlipRead bs \<Rightarrow>
          if bs = [] then (if left = 0 then Some (Inl ''DRM page flip timed out'') else wait_for_flip rest)
          else (case scan_events bs of Some vblank \<Rightarrow> Some (Inr vblank) | None \<Rightarrow> wait_for_flip rest))"

definition retire_flip :: "(flip_read \<times> nat) list \<Rightarrow> video_output \<Rightarrow> (video_output \<times> (string + unit)) option" where
  "retire_flip flips v =
     (case vo_cfg v of
        None \<Rightarrow> Some (v, Inr ())
      | Some c \<Rightarrow>
          if \<not> cf_flip_pending c then Some (v, Inr ())
          else
            do { r \<leftarrow> wait_for_flip flips;
                 v \<leftarrow> Some (case r of Inr (Some ns) \<Rightarrow> v\<lparr>vo_stamps := (vo_stamps v)\<lparr>sp_vblank := ns\<rparr>\<rparr> | _ \<Rightarrow> v);
                 Some (v\<lparr>vo_cfg := Some (c\<lparr>cf_flip_pending := False\<rparr>)\<rparr>, and_then r (\<lambda>_. Inr ())) })"

definition video_release :: "(flip_read \<times> nat) list \<Rightarrow> video_output \<Rightarrow> video_output option" where
  "video_release flips v = do { (v, _) \<leftarrow> retire_flip flips v; Some (v\<lparr>vo_cfg := None\<rparr>) }"

text \<open>What else a call may ask: whether worker threads start, the allocator, the clock, and \<open>pe_run\<close>, what
  the pool makes of a job: whether every slice was accepted, the scratch buffers and the outputs.\<close>

record present_env =
  pe_drm :: drm
  pe_spawn :: "nat \<Rightarrow> bool"
  pe_dc_allocs :: "bool list"
  pe_ac_allocs :: "bool list"
  pe_row_allocs :: "bool list"
  pe_run :: "decoder \<Rightarrow> job \<Rightarrow> outs \<Rightarrow> bool \<times> scratch list \<times> outs"
  pe_release_flips :: "(flip_read \<times> nat) list"
  pe_flips :: "(flip_read \<times> nat) list"
  pe_decode_start :: nat
  pe_decoded :: nat
  pe_queued :: nat

definition header_rate :: "video_header \<Rightarrow> rat" where
  "header_rate h = (if 0 < vh_frame_rate_d h then round_f64 (of_int (vh_frame_rate_n h) / of_int (vh_frame_rate_d h)) else 0)"

definition u16_of :: "int \<Rightarrow> nat" where
  [std_defs]: "u16_of x = (if 0 \<le> x \<and> x \<le> 65535 then nat x else 0)"

text \<open>The connected display: the controller that drives the connector, and its modes.\<close>

definition find_display :: "drm \<Rightarrow> nat \<Rightarrow> string + (nat \<times> modeinfo list)" where
  "find_display dr connector_id =
     (if connector_id = 0 then Inl ''Invalid DRM connector''
      else
        (case get_connector dr connector_id of
           Inl e \<Rightarrow> Inl (os_detail ''Selected HDMI connector is unavailable'' e)
         | Inr (info, modes) \<Rightarrow>
             if ci_connection info \<noteq> DRM_MODE_CONNECTED then Inl ''Selected HDMI connector is unavailable''
             else (case (if ci_encoder_id info = 0 then None else dr_encoder dr (ci_encoder_id info)) of
                     None \<Rightarrow> Inl ''Selected HDMI encoder is unavailable''
                   | Some crtc \<Rightarrow> if crtc = 0 then Inl ''Selected HDMI encoder is unavailable'' else Inr (crtc, modes))))"

text \<open>The fallback's surfaces, cleared when the picture leaves bars, and the legacy mode set.\<close>

definition fallback_scaler :: "yuv_setup \<Rightarrow> string + scaler option" where
  "fallback_scaler s =
     (if se_scaled s then and_then (scaler_new (se_width s) (se_height s) (se_placement s)) (\<lambda>sc. Inr (Some sc)) else Inr None)"

definition clear_bars :: "yuv_setup \<Rightarrow> surface list \<Rightarrow> surface list" where
  "clear_bars s surfaces =
     (if se_scaled s \<and> \<not> fills (se_placement s) (mi_hdisplay (se_mode s)) (mi_vdisplay (se_mode s))
      then map (\<lambda>u. u\<lparr>su_map := map_option (\<lambda>bs. replicate (length bs) 0) (su_map u)\<rparr>) surfaces else surfaces)"

definition configure_bgrx :: "drm \<Rightarrow> yuv_setup \<Rightarrow> config \<Rightarrow> (string + config) option" where
  "configure_bgrx dr s c =
     (case fallback_scaler s of
        Inl e \<Rightarrow> Some (Inl e)
      | Inr sc \<Rightarrow>
          (case surfaces_loop (\<lambda>k. Some (surface_bgrx dr k (mi_hdisplay (se_mode s)) (mi_vdisplay (se_mode s)))) [0..<DRM_BUFFERS] [] of
             None \<Rightarrow> None
           | Some (Inl detail) \<Rightarrow> Some (Inl detail)
           | Some (Inr surfaces) \<Rightarrow>
               (case dr_set_crtc dr (se_crtc s) (su_framebuffer (clear_bars s surfaces ! 0)) (se_connector s) (se_mode s) of
                  Inl e \<Rightarrow> Some (Inl (os_detail ''Unable to set DRM mode'' e))
                | Inr _ \<Rightarrow> Some (Inr (c\<lparr>cf_scaler := sc, cf_surfaces := clear_bars s surfaces\<rparr>)))))"

text \<open>The placement: the whole mode, or the fit of the picture in it.\<close>

definition choose_placement :: "bool \<Rightarrow> nat \<Rightarrow> nat \<Rightarrow> nat \<Rightarrow> nat \<Rightarrow> placement option" where
  "choose_placement scaled width height mode_w mode_h =
     (if scaled then fit width height mode_w mode_h
      else Some \<lparr>pl_x = 0, pl_y = 0, pl_width = mode_w, pl_height = mode_h\<rparr>)"

definition config_new :: "yuv_setup \<Rightarrow> decoder \<Rightarrow> video_header \<Rightarrow> config" where
  "config_new s d h =
     (let detail = (\<lambda>interlaced. describe_presentation interlaced (se_width s) (se_height s) (se_scaled s)
                      (mi_hdisplay (se_mode s)) (mi_vdisplay (se_mode s)))
      in \<lparr>cf_crtc = se_crtc s, cf_surfaces = [], cf_front = 0, cf_flip_pending = False, cf_decoder = d, cf_yuv = False,
          cf_plane = 0, cf_plane_fb_prop = 0, cf_scaler = None, cf_format = format_of h, cf_progressive_detail = detail False,
          cf_interlaced_detail = detail True, cf_presented = False, cf_skips = 0\<rparr>)"

text \<open>The mode, the decoder and the placement for a format on a display, before anything on the display
  changes.\<close>

definition plan_config :: "(nat \<Rightarrow> bool) \<Rightarrow> nat \<Rightarrow> nat \<Rightarrow> modeinfo list \<Rightarrow> video_header \<Rightarrow> string + (yuv_setup \<times> config)" where
  "plan_config spawn connector_id crtc modes h =
     (case choose_mode (map mode_shape_of modes) (u16_of (vh_width h)) (u16_of (vh_height h)) (header_rate h) of
        None \<Rightarrow> Inl (''The display offers no usable mode for '' @ show_int (vh_width h) @ ''x'' @ show_int (vh_height h) @ '' video.'')
      | Some choice \<Rightarrow>
          (let mode = modes ! mc_index choice; width = nat \<bar>vh_width h\<bar>; height = nat \<bar>vh_height h\<bar>;
               cs = color_resolve (vh_color_space h) height
           in case decoder_new spawn width height cs DECODE_WORKERS of
                Inl e \<Rightarrow> Inl (''Unable to create the VMX decoder: '' @ status_name e)
              | Inr d \<Rightarrow>
                  (case choose_placement (mc_scaled choice) width height (mi_hdisplay mode) (mi_vdisplay mode) of
                     None \<Rightarrow> Inl ''The display's mode cannot carry the OMT video format.''
                   | Some p \<Rightarrow>
                       (let s = \<lparr>se_connector = connector_id, se_crtc = crtc, se_mode = mode, se_width = width, se_height = height,
                                 se_color_space = cs, se_placement = p, se_scaled = mc_scaled choice\<rparr>
                        in Inr (s, config_new s d h)))))"

text \<open>The display path: planar through the display hardware, or the fallback.\<close>

definition install_config :: "drm \<Rightarrow> video_output \<Rightarrow> yuv_setup \<Rightarrow> config \<Rightarrow> (present \<times> video_output) option" where
  "install_config dr v s c =
     do { r \<leftarrow> configure_yuv dr s;
          case r of
            Inr (surfaces, plane, fb_prop) \<Rightarrow>
              Some (Presented, v\<lparr>vo_cfg := Some (c\<lparr>cf_surfaces := surfaces, cf_plane := plane, cf_plane_fb_prop := fb_prop, cf_yuv := True\<rparr>)\<rparr>)
          | Inl why \<Rightarrow>
              do { r \<leftarrow> configure_bgrx dr s c;
                   case r of
                     Inl detail \<Rightarrow> Some (Failed detail, v)
                   | Inr c \<Rightarrow> Some (Presented, v\<lparr>vo_cfg := Some c\<rparr>) } }"

definition video_configure :: "present_env \<Rightarrow> video_output \<Rightarrow> video_header \<Rightarrow> (present \<times> video_output) option" where
  "video_configure env v h =
     (case ceiling_admits (vo_ceiling v) (vh_width h) (vh_height h) (header_rate h) of
        Inl e \<Rightarrow> Some (UnsupportedVideo e, v)
      | Inr _ \<Rightarrow>
          do { v \<leftarrow> video_release (pe_release_flips env) v;
               case find_display (pe_drm env) (vo_connector_id v) of
                 Inl e \<Rightarrow> Some (Failed e, v)
               | Inr (crtc, modes) \<Rightarrow>
                   (case plan_config (pe_spawn env) (vo_connector_id v) crtc modes h of
                      Inl e \<Rightarrow> Some (UnsupportedVideo e, v)
                    | Inr (s, c) \<Rightarrow> install_config (pe_drm env) v s c) })"

section \<open>Presenting a frame\<close>

definition store_bytes :: "surface \<Rightarrow> u8 list \<Rightarrow> surface" where
  "store_bytes s bs = s\<lparr>su_map := map_option (\<lambda>_. bs) (su_map s)\<rparr>"

definition view_or :: "u8 list \<Rightarrow> u8 list option \<Rightarrow> u8 list" where
  "view_or old v = (case v of Some bs \<Rightarrow> bs | None \<Rightarrow> old)"

text \<open>Running an accepted request: the decoder keeps the scratch buffers, and a slice that was not
  accepted fails the frame.\<close>

definition run_request :: "present_env \<Rightarrow> decoder \<Rightarrow> vmx_status + (job \<times> outs) \<Rightarrow> (outs \<Rightarrow> u8 list) \<Rightarrow> surface
    \<Rightarrow> (vmx_status + unit) \<times> decoder \<times> surface" where
  "run_request env d r join s =
     (case r of
        Inl e \<Rightarrow> (Inl e, d, s)
      | Inr (jb, outs) \<Rightarrow>
          (case pe_run env d jb outs of
             (accepted, sc, views) \<Rightarrow>
               (if accepted then Inr () else Inl CorruptStream, d\<lparr>de_scratch := sc\<rparr>, store_bytes s (join views))))"

definition decode_into :: "present_env \<Rightarrow> config \<Rightarrow> decoder \<Rightarrow> surface \<Rightarrow> (vmx_status + unit) \<times> decoder \<times> surface" where
  "decode_into env c d s =
     (let bytes = surface_bytes s; packed = (\<lambda>views. view_or bytes (fst views))
      in if cf_yuv c then
           (let o1 = su_plane_offsets s ! 1; o2 = su_plane_offsets s ! 2;
                luma = take o1 bytes; rest = drop o1 bytes; cb = take (o2 - o1) rest; cr = drop (o2 - o1) rest
            in run_request env d
                 (decode_yuv422p d (luma, su_plane_pitches s ! 0) (cb, su_plane_pitches s ! 1) (cr, su_plane_pitches s ! 2))
                 (\<lambda>(_, a, b, e). view_or luma a @ view_or cb b @ view_or cr e) s)
         else
           (case cf_scaler c of
              Some sc \<Rightarrow>
                (case decode_bgrx_placed (pe_row_allocs env) d bytes (su_pitch s)
                        \<lparr>vp_x = pl_x (sc_placement sc), vp_y = pl_y (sc_placement sc), vp_columns = sc_columns sc, vp_rows = sc_rows sc\<rparr> of
                   (d, r) \<Rightarrow> run_request env d r packed s)
            | None \<Rightarrow> run_request env d (decode_bgrx d bytes (su_pitch s)) packed s))"

text \<open>The flip of the decoded surface.\<close>

definition queue_flip :: "drm \<Rightarrow> config \<Rightarrow> nat \<Rightarrow> string + unit" where
  "queue_flip dr c framebuffer =
     (if cf_yuv c
      then dr_commit dr (DRM_MODE_ATOMIC_NONBLOCK + DRM_MODE_PAGE_FLIP_EVENT) (aq_prop (cf_plane_fb_prop c) framebuffer (aq_object (cf_plane c) request_new))
      else dr_page_flip dr (cf_crtc c) framebuffer)"

definition note_damage :: "video_output \<Rightarrow> config \<Rightarrow> vmx_status \<Rightarrow> present \<times> video_output" where
  "note_damage v c e =
     (case classify_decode e (cf_presented c) (cf_skips c) of
        (r, skips) \<Rightarrow> (r, v\<lparr>vo_cfg := Some (c\<lparr>cf_skips := skips\<rparr>)\<rparr>))"

definition next_surface :: "config \<Rightarrow> nat" where
  "next_surface c = (cf_front c + 1) mod length (cf_surfaces c)"

text \<open>The end of a frame that decoded into surface \<open>next\<close>: retire the flip in flight, queue this one.\<close>

definition show_frame :: "present_env \<Rightarrow> video_output \<Rightarrow> nat \<Rightarrow> (present \<times> video_output) option" where
  "show_frame env v nxt =
     do { (v, r) \<leftarrow> retire_flip (pe_flips env) v;
          case r of
            Inl detail \<Rightarrow> Some (Failed detail, v)
          | Inr _ \<Rightarrow>
              (case vo_cfg v of
                 None \<Rightarrow> Some (Failed ''Video output is not configured'', v)
               | Some c \<Rightarrow>
                   (case queue_flip (pe_drm env) c (su_framebuffer (cf_surfaces c ! nxt)) of
                      Inl e \<Rightarrow> Some (Failed (os_detail ''Unable to queue DRM page flip'' e), v)
                    | Inr _ \<Rightarrow>
                        Some (Presented, v\<lparr>vo_stamps := (vo_stamps v)\<lparr>sp_queued := pe_queued env\<rparr>,
                          vo_cfg := Some (c\<lparr>cf_front := nxt, cf_flip_pending := True, cf_presented := True, cf_skips := 0\<rparr>)\<rparr>))) }"

definition present_configured :: "present_env \<Rightarrow> video_output \<Rightarrow> u8 list option \<Rightarrow> (present \<times> video_output) option" where
  "present_configured env v compressed =
     (case compressed of
        None \<Rightarrow> Some (Failed ''Truncated VMX frame'', v)
      | Some input \<Rightarrow>
          (case vo_cfg v of
             None \<Rightarrow> Some (Failed ''Video output is not configured'', v)
           | Some c \<Rightarrow>
               if cf_surfaces c = [] then None
               else
                 (let nxt = next_surface c;
                      v = v\<lparr>vo_stamps := (vo_stamps v)\<lparr>sp_decode_start := pe_decode_start env\<rparr>\<rparr>
                  in case load (pe_dc_allocs env) (pe_ac_allocs env) (cf_decoder c) input of
                       (d, Inl e) \<Rightarrow> Some (note_damage v (c\<lparr>cf_decoder := d\<rparr>) e)
                     | (d, Inr _) \<Rightarrow>
                         (case decode_into env c d (cf_surfaces c ! nxt) of
                            (r, d, s) \<Rightarrow>
                              (let c = c\<lparr>cf_decoder := d, cf_surfaces := (cf_surfaces c)[nxt := s]\<rparr>
                               in case r of
                                    Inl e \<Rightarrow> Some (note_damage v c e)
                                  | Inr _ \<Rightarrow>
                                      show_frame env (v\<lparr>vo_cfg := Some c, vo_stamps := (vo_stamps v)\<lparr>sp_decoded := pe_decoded env\<rparr>\<rparr>) nxt)))))"

definition present_new :: "present_env \<Rightarrow> video_output \<Rightarrow> frame \<Rightarrow> video_header \<Rightarrow> (present \<times> video_output) option" where
  "present_new env v f h =
     (if (case vo_cfg v of None \<Rightarrow> False | Some c \<Rightarrow> cf_format c = format_of h)
      then present_configured env v (media f VIDEO_HEADER_SIZE)
      else
        do { (r, v) \<leftarrow> video_configure env v h;
             case r of
               Presented \<Rightarrow> present_configured env v (media f VIDEO_HEADER_SIZE)
             | UnsupportedVideo detail \<Rightarrow> Some (UnsupportedVideo detail, v\<lparr>vo_rejected := Some (format_of h, detail)\<rparr>)
             | _ \<Rightarrow> Some (r, v) })"

definition present_frame :: "present_env \<Rightarrow> video_output \<Rightarrow> frame \<Rightarrow> (present \<times> video_output) option" where
  "present_frame env v f =
     (case fr_video f of
        None \<Rightarrow> Some (UnsupportedVideo ''Unsupported video frame'', v)
      | Some h \<Rightarrow>
          (case vo_rejected v of
             Some (rejected, detail) \<Rightarrow> if rejected = format_of h then Some (UnsupportedVideo detail, v) else present_new env (v\<lparr>vo_rejected := None\<rparr>) f h
           | None \<Rightarrow> present_new env v f h))"

section \<open>Surfaces that fit\<close>

text \<open>What the driver documents: a dumb buffer's rows hold the pixels asked for, its size holds the rows and
  is below four gigabytes, and a mapping is as long as the buffer.\<close>

definition drm_ok :: "drm \<Rightarrow> bool" where
  "drm_ok dr \<longleftrightarrow>
     (\<forall>k w h bpp handle pitch sz. dr_create_dumb dr k w h bpp = Inr (handle, pitch, sz) \<longrightarrow>
        w * bpp \<le> 8 * pitch \<and> pitch * h \<le> sz \<and> sz \<le> U32_MAX)
     \<and> (\<forall>handle sz bs. dr_map_dumb dr handle sz = Inr bs \<longrightarrow> length bs = sz)"

definition packed_fits :: "nat \<Rightarrow> nat \<Rightarrow> surface \<Rightarrow> bool" where
  "packed_fits w h s \<longleftrightarrow> (\<exists>bs. su_map s = Some bs \<and> length bs \<le> U32_MAX \<and> w * 4 \<le> su_pitch s \<and> su_pitch s * h \<le> length bs)"

definition planes_fit :: "nat \<Rightarrow> nat \<Rightarrow> surface \<Rightarrow> bool" where
  "planes_fit w h s \<longleftrightarrow>
     (\<exists>bs o1 o2 p0 p1. su_map s = Some bs \<and> su_plane_offsets s = [0, o1, o2] \<and> su_plane_pitches s = [p0, p1, p1]
        \<and> length bs \<le> U32_MAX \<and> w \<le> p0 \<and> w div 2 \<le> p1 \<and> p0 * h \<le> o1 \<and> o1 + p1 * h \<le> o2 \<and> o2 + p1 * h \<le> length bs)"

lemma create_dumb_Inr:
  assumes "drm_ok dr" "create_dumb dr k s w h bpp = Inr s'"
  shows "w * bpp \<le> 8 * su_pitch s'" "su_pitch s' * h \<le> su_size s'" "su_size s' \<le> U32_MAX"
  using assms by (fastforce simp: create_dumb_def drm_ok_def split: sum.splits prod.splits)+

lemma surface_map_Inr:
  assumes "drm_ok dr" "surface_map dr s = Inr s'"
  shows "\<exists>bs. s' = s\<lparr>su_map := Some bs\<rparr> \<and> length bs = su_size s"
  using assms by (auto simp: surface_map_def drm_ok_def split: sum.splits)

lemma surface_bgrx_fits:
  assumes "drm_ok dr" "surface_bgrx dr k w h = Inr s"
  shows "packed_fits w h s"
proof -
  obtain s0 where c: "create_dumb dr k surface_empty w h 32 = Inr s0" using assms(2) by (auto simp: surface_bgrx_def and_then_eq_Inr)
  then obtain fb where s0: "create_dumb dr k surface_empty w h 32 = Inr s0" "surface_map dr (s0\<lparr>su_framebuffer := fb\<rparr>) = Inr s"
    using assms(2) by (cases "dr_add_fb dr (su_handle s0)") (auto simp: surface_bgrx_def)
  then obtain bs where "s = s0\<lparr>su_framebuffer := fb, su_map := Some bs\<rparr>" "length bs = su_size s0"
    using surface_map_Inr [OF assms(1) s0(2)] by auto
  then show ?thesis using create_dumb_Inr [OF assms(1) s0(1)] by (auto simp: packed_fits_def)
qed

text \<open>The body of \<open>surface_yuv\<close> after the buffer is created.\<close>

lemma yuv_arith:
  assumes "drm_ok dr" "create_dumb dr k surface_empty w (h * 2) 8 = Inr s"
  shows "checked_mul U32_MAX (su_pitch s) h = Some (su_pitch s * h)" "checked_mul U32_MAX (su_pitch s div 2) h = Some (su_pitch s div 2 * h)"
    "checked_add U32_MAX (su_pitch s * h) (su_pitch s div 2 * h) = Some (su_pitch s * h + su_pitch s div 2 * h)"
    "su_pitch s * h * 2 \<le> su_size s" "w \<le> su_pitch s"
    "su_pitch s * h + su_pitch s div 2 * h * 2 \<le> su_pitch s * h * 2"
proof -
  note c = create_dumb_Inr [OF assms]
  have half: "su_pitch s div 2 * h * 2 \<le> su_pitch s * h"
    using mult_right_mono [of "su_pitch s div 2 * 2" "su_pitch s" h] by (simp add: mult.commute mult.left_commute)
  have whole: "su_pitch s * h * 2 \<le> su_size s" using c(2) by (simp add: mult.assoc)
  have "su_pitch s * h \<le> U32_MAX" "su_pitch s div 2 * h \<le> U32_MAX" "su_pitch s * h + su_pitch s div 2 * h \<le> U32_MAX"
    using half whole c(3) by linarith+
  then show "checked_mul U32_MAX (su_pitch s) h = Some (su_pitch s * h)" "checked_mul U32_MAX (su_pitch s div 2) h = Some (su_pitch s div 2 * h)"
    "checked_add U32_MAX (su_pitch s * h) (su_pitch s div 2 * h) = Some (su_pitch s * h + su_pitch s div 2 * h)"
    by (simp_all add: checked_mul_def checked_add_def)
  show "su_pitch s * h * 2 \<le> su_size s" "w \<le> su_pitch s" "su_pitch s * h + su_pitch s div 2 * h * 2 \<le> su_pitch s * h * 2"
    using half whole c(1) by linarith+
qed

lemma surface_yuv_fits:
  assumes "drm_ok dr"
  shows "\<exists>r. surface_yuv dr k w h = Some r \<and> (\<forall>s. r = Inr s \<longrightarrow> planes_fit w h s)"
proof (cases "create_dumb dr k surface_empty w (h * 2) 8")
  case (Inl e)
  then show ?thesis by (simp add: surface_yuv_def)
next
  case (Inr s)
  note a = yuv_arith [OF assms Inr] and c = create_dumb_Inr [OF assms Inr]
  let ?l = "su_pitch s * h" and ?c = "su_pitch s div 2"
  let ?s = "s\<lparr>su_plane_offsets := [0, ?l, ?l + ?c * h], su_plane_pitches := [su_pitch s, ?c, ?c]\<rparr>"
  show ?thesis
  proof (cases "su_pitch s mod 2 \<noteq> 0 \<or> su_size s < ?l * 2")
    case True
    then show ?thesis using Inr a(1) by (simp add: surface_yuv_def)
  next
    case False
    show ?thesis
    proof (cases "\<exists>fb u. dr_add_fb2 dr (su_handle s) [su_pitch s, ?c, ?c] [0, ?l, ?l + ?c * h] = Inr fb \<and> surface_map dr (?s\<lparr>su_framebuffer := fb\<rparr>) = Inr u")
      case True
      then obtain fb u where fb: "dr_add_fb2 dr (su_handle s) [su_pitch s, ?c, ?c] [0, ?l, ?l + ?c * h] = Inr fb" "surface_map dr (?s\<lparr>su_framebuffer := fb\<rparr>) = Inr u"
        by blast
      obtain bs where u: "u = ?s\<lparr>su_framebuffer := fb, su_map := Some bs\<rparr>" "length bs = su_size s"
        using surface_map_Inr [OF assms fb(2)] by auto
      have len: "\<not> length bs < ?l + ?c * h * 2" using a(4,6) u(2) by linarith
      let ?b = "replicate ?l 16 @ replicate (?c * h * 2) 128 @ drop (?l + ?c * h * 2) bs"
      have "surface_yuv dr k w h = Some (Inr (u\<lparr>su_map := Some ?b\<rparr>))"
        using Inr False a(1-3) fb u len by (simp add: surface_yuv_def fill_black_def surface_bytes_def)
      moreover have "planes_fit w h (u\<lparr>su_map := Some ?b\<rparr>)"
        unfolding planes_fit_def using u a(5) c(3) len div_le_mono [OF a(5), of 2]
        by (intro exI [of _ ?b] exI [of _ ?l] exI [of _ "?l + ?c * h"] exI [of _ "su_pitch s"] exI [of _ ?c]) auto
      ultimately show ?thesis by simp
    next
      case none: False
      then show ?thesis using Inr False a(1-3)
        by (cases "dr_add_fb2 dr (su_handle s) [su_pitch s, ?c, ?c] [0, ?l, ?l + ?c * h]") (auto simp: surface_yuv_def split: sum.splits)
    qed
  qed
qed

end
