(* ===== verification/Flip_Chain.thy ===== *)
theory Flip_Chain
  imports Video_Output
begin

text \<open>
  The display output of \<open>Video_Output\<close> against its driver and its decoder: the surfaces of a
  configuration always suit the decoder, so a frame that loads is never refused for its geometry, and a
  frame is never decoded into memory the display may be reading.
\<close>

section \<open>What the pool may answer\<close>

text \<open>The outcome of some schedule of the pool on the job, from publication to the caller's return.\<close>

definition pool_outcome :: "decoder \<Rightarrow> job \<Rightarrow> outs \<Rightarrow> bool \<times> scratch list \<times> outs \<Rightarrow> bool" where
  "pool_outcome d jb outs r \<longleftrightarrow>
     (\<exists>p0 p. pool_for d outs p0 \<and> frame_reach (decode_slice d jb) (length (de_slices d)) p0 p \<and> po_phase p ! 0 = Idle
        \<and> r = (\<not> po_failed p, po_scratch p, po_out p))"

definition run_ok :: "present_env \<Rightarrow> bool" where
  "run_ok env \<longleftrightarrow> (\<forall>d0 d jb outs. decoder_ok d0 \<longrightarrow> frame_request d0 d jb outs \<longrightarrow> pool_outcome d jb outs (pe_run env d jb outs))"

lemma frame_reach_threads: "frame_reach dec n p0 p \<Longrightarrow> length (po_phase p) = length (po_phase p0)"
proof (induction rule: frame_reach.induct)
  case published
  then show ?case by (simp add: publish_def Let_def)
next
  case (step p q)
  from step.hyps(3) show ?case using step.IH by cases (simp_all add: retire_def)
qed

lemma pool_outcome_keeps:
  assumes "decoder_ok d0" "frame_request d0 d jb outs" "pool_outcome d jb outs (accepted, sc, views)"
  shows "decoder_ok (d\<lparr>de_scratch := sc\<rparr>)" "same_shape views outs"
proof -
  obtain p0 p where p: "pool_for d outs p0" "frame_reach (decode_slice d jb) (length (de_slices d)) p0 p"
    and r: "sc = po_scratch p" "views = po_out p"
    using assms(3) by (auto simp: pool_outcome_def)
  note ok = request_ok(2) [OF assms(2,1)] and k = frame_keeps_decoder [OF assms(2,1) p]
  have "length (po_scratch p) = length (de_scratch d)"
    using k(1) frame_reach_threads [OF p(2)] p(1) by (auto simp: pool_for_def pool_idle_def)
  then show "decoder_ok (d\<lparr>de_scratch := sc\<rparr>)" using ok k(2) r(1) by (auto simp: decoder_ok_def)
  show "same_shape views outs"
    using vf.frame_keeps(1) [OF request_ready [OF assms(2,1) p(1)], simplified, OF p(2)] r(2) by simp
qed

lemma same_shape_view:
  assumes "same_shape views outs" "out_view k outs = Some bs"
  shows "\<exists>cs. out_view k views = Some cs \<and> length cs = length bs"
proof -
  have "view_agree {} (out_view k views) (out_view k outs)" using assms(1) by (simp add: same_shape_def)
  then show ?thesis using assms(2) by (auto simp: view_agree_def agree_on_def split: option.splits)
qed

section \<open>Requests are accepted\<close>

definition placed_fits :: "nat \<Rightarrow> nat \<Rightarrow> scaler \<Rightarrow> surface \<Rightarrow> bool" where
  "placed_fits w h sc s \<longleftrightarrow>
     (\<exists>mw mh. packed_fits mw mh s \<and> mw \<le> MAX_PLACED_WIDTH \<and> mh \<le> MAX_PLACED_HEIGHT
        \<and> sc_columns sc \<noteq> [] \<and> sc_rows sc \<noteq> [] \<and> pl_x (sc_placement sc) + length (sc_columns sc) \<le> mw
        \<and> pl_y (sc_placement sc) + length (sc_rows sc) \<le> mh
        \<and> sorted (sc_rows sc) \<and> (\<forall>c\<in>set (sc_columns sc). c < w) \<and> (\<forall>r\<in>set (sc_rows sc). r < h))"

definition surface_fits :: "bool \<Rightarrow> scaler option \<Rightarrow> nat \<Rightarrow> nat \<Rightarrow> surface \<Rightarrow> bool" where
  "surface_fits yuv scaling w h s \<longleftrightarrow>
     (if yuv then planes_fit w h s
      else case scaling of Some sc \<Rightarrow> placed_fits w h sc s | None \<Rightarrow> packed_fits w h s)"

definition vmx_placement_of :: "scaler \<Rightarrow> vmx_placement" where
  "vmx_placement_of sc = \<lparr>vp_x = pl_x (sc_placement sc), vp_y = pl_y (sc_placement sc), vp_columns = sc_columns sc, vp_rows = sc_rows sc\<rparr>"

lemma packed_accepted:
  assumes "packed_fits (de_width d) (de_height d) s" "de_loaded d"
  shows "decode_bgrx d (surface_bytes s) (su_pitch s) = Inr (make_job d Bgrx (su_pitch s) [0, 0, 0] None, Some (surface_bytes s), None, None, None)"
  using assms by (auto simp: packed_fits_def decode_bgrx_def check_packed_def checked_mul_def surface_bytes_def mult.commute)

lemma planes_accepted:
  assumes "planes_fit (de_width d) (de_height d) s" "de_loaded d"
  defines "bs \<equiv> surface_bytes s" and "o1 \<equiv> su_plane_offsets s ! 1" and "o2 \<equiv> su_plane_offsets s ! 2"
  shows "\<exists>jb. decode_yuv422p d (take o1 bs, su_plane_pitches s ! 0) (take (o2 - o1) (drop o1 bs), su_plane_pitches s ! 1)
      (drop (o2 - o1) (drop o1 bs), su_plane_pitches s ! 2)
    = Inr (jb, None, Some (take o1 bs), Some (take (o2 - o1) (drop o1 bs)), Some (drop (o2 - o1) (drop o1 bs)))"
proof -
  obtain p0 p1 where s: "su_map s = Some bs" "su_plane_pitches s = [p0, p1, p1]" and f: "length bs \<le> U32_MAX" "de_width d \<le> p0" "de_width d div 2 \<le> p1"
      "p0 * de_height d \<le> o1" "o1 + p1 * de_height d \<le> o2" "o2 + p1 * de_height d \<le> length bs"
    using assms(1) by (auto simp: planes_fit_def bs_def o1_def o2_def surface_bytes_def)
  have m: "checked_mul USIZE_MAX p0 (de_height d) = Some (p0 * de_height d)" "checked_mul USIZE_MAX p1 (de_height d) = Some (p1 * de_height d)"
    using f by (auto simp: checked_mul_def)
  have "o1 \<le> o2" "o2 \<le> length bs" using f by linarith+
  then have len: "length (take o1 bs) = o1" "length (take (o2 - o1) (drop o1 bs)) = o2 - o1" "length (drop (o2 - o1) (drop o1 bs)) = length bs - o2"
    by auto
  show ?thesis using s(2) f m len assms(2) by (simp add: decode_yuv422p_def check_planes_def) linarith
qed

lemma placed_checked:
  assumes "placed_fits (de_width d) (de_height d) sc s"
  shows "check_placement d (vmx_placement_of sc) (length (surface_bytes s)) (su_pitch s) = Inr ()"
proof -
  obtain bs mw mh where f: "su_map s = Some bs" "length bs \<le> U32_MAX" "mw * 4 \<le> su_pitch s" "su_pitch s * mh \<le> length bs"
      "mw \<le> MAX_PLACED_WIDTH" "mh \<le> MAX_PLACED_HEIGHT" and t: "sc_columns sc \<noteq> []" "sc_rows sc \<noteq> []"
      "pl_x (sc_placement sc) + length (sc_columns sc) \<le> mw" "pl_y (sc_placement sc) + length (sc_rows sc) \<le> mh"
      "sorted (sc_rows sc)" "\<forall>c\<in>set (sc_columns sc). c < de_width d" "\<forall>r\<in>set (sc_rows sc). r < de_height d"
    using assms by (auto simp: placed_fits_def packed_fits_def)
  let ?x = "pl_x (sc_placement sc)" and ?y = "pl_y (sc_placement sc)" and ?w = "length (sc_columns sc)" and ?h = "length (sc_rows sc)"
  have right: "(?x + ?w) * 4 \<le> su_pitch s" using mult_le_mono1 [OF t(3), of 4] f(3) by (rule order_trans)
  have "(?y + (?h - 1)) * su_pitch s + su_pitch s = (?y + ?h) * su_pitch s" using t(2) by (cases "sc_rows sc") simp_all
  also have "\<dots> \<le> su_pitch s * mh" using t(4) by (simp add: mult.commute)
  finally have "(?y + (?h - 1)) * su_pitch s + su_pitch s \<le> length bs" using f(4) by linarith
  then have e: "(?y + (?h - 1)) * su_pitch s + (?x + ?w) * 4 \<le> length bs" "(?y + (?h - 1)) * su_pitch s \<le> length bs" using right by linarith+
  have xw: "?x + ?w \<le> 8192" using t(3) f(5) by (rule order_trans)
  have yh: "?y + ?h \<le> 8192" using t(4) f(6) by (rule order_trans)
  have b: "?x + ?w \<le> 8192" "(?x + ?w) * 4 \<le> U32_MAX" "?y + (?h - 1) \<le> 8192" using xw yh by auto
  have bounds: "\<not> list_ex (\<lambda>c. de_width d \<le> c) (sc_columns sc)" "\<not> list_ex (\<lambda>r. de_height d \<le> r) (sc_rows sc)"
    using t(6,7) by (auto simp: list_ex_iff not_le)
  have ar: "checked_add USIZE_MAX ?x ?w = Some (?x + ?w)" "checked_mul USIZE_MAX (?x + ?w) 4 = Some ((?x + ?w) * 4)"
    "checked_add USIZE_MAX ?y (?h - 1) = Some (?y + (?h - 1))" "checked_mul USIZE_MAX (?y + (?h - 1)) (su_pitch s) = Some ((?y + (?h - 1)) * su_pitch s)"
    "checked_add USIZE_MAX ((?y + (?h - 1)) * su_pitch s) ((?x + ?w) * 4) = Some ((?y + (?h - 1)) * su_pitch s + (?x + ?w) * 4)"
    using b e f(2) by (simp_all add: checked_add_def checked_mul_def)
  have size_ok: "\<not> (?w = 0 \<or> ?h = 0 \<or> MAX_PLACED_WIDTH < ?w \<or> MAX_PLACED_HEIGHT < ?h)"
    using t(1-4) f(5,6) by auto
  show ?thesis
    unfolding check_placement_def Let_def vmx_placement_of_def
    using size_ok bounds t(5) ar right e(1) f(1) by (simp add: surface_bytes_def)
qed

section \<open>Decoding into a surface\<close>

definition rows_granted :: "bool list \<Rightarrow> nat \<Rightarrow> bool" where
  "rows_granted allocs n \<longleftrightarrow> n \<le> length allocs \<and> list_all id (take n allocs)"

lemma grow_rows_granted: "rows_granted allocs (length scratch) \<Longrightarrow> fst (grow_rows allocs n scratch)"
proof (induction allocs n scratch rule: grow_rows.induct)
  case (2 allocs n s rest)
  then have "allocs \<noteq> [] \<and> hd allocs" "rows_granted (tl allocs) (length rest)"
    by (cases allocs; simp add: rows_granted_def)+
  then show ?case using "2.IH" by (simp split: prod.splits) (metis fst_conv)
qed simp

lemma store_bytes_fits:
  assumes "su_map s = Some bs" "length bs' = length bs"
  shows "surface_fits yuv scaling w h (store_bytes s bs') \<longleftrightarrow> surface_fits yuv scaling w h s"
  using assms by (auto simp: surface_fits_def placed_fits_def packed_fits_def planes_fit_def store_bytes_def split: option.splits)

lemma surface_fits_map: "surface_fits yuv scaling w h s \<Longrightarrow> su_map s = Some (surface_bytes s)"
  by (auto simp: surface_fits_def placed_fits_def packed_fits_def planes_fit_def surface_bytes_def split: if_splits option.splits)

lemma run_request_outcome:
  assumes "run_ok env" "decoder_ok d0" "frame_request d0 d jb outs" "run_request env d (Inr (jb, outs)) join s = (r, d', s')"
  shows "r = Inr () \<or> r = Inl CorruptStream" "decoder_ok d'" "\<exists>sc. d' = d\<lparr>de_scratch := sc\<rparr>"
    "\<exists>views. s' = store_bytes s (join views) \<and> same_shape views outs"
proof -
  obtain accepted sc views where q: "pe_run env d jb outs = (accepted, sc, views)" by (cases "pe_run env d jb outs") auto
  have "pool_outcome d jb outs (pe_run env d jb outs)" using assms(1-3) unfolding run_ok_def by blast
  then have "pool_outcome d jb outs (accepted, sc, views)" unfolding q .
  note k = pool_outcome_keeps [OF assms(2,3) this]
  have e: "r = (if accepted then Inr () else Inl CorruptStream)" "d' = d\<lparr>de_scratch := sc\<rparr>" "s' = store_bytes s (join views)"
    using assms(4) q by (auto simp: run_request_def)
  show "r = Inr () \<or> r = Inl CorruptStream" using e(1) by simp
  show "decoder_ok d'" using k(1) e(2) by simp
  show "\<exists>sc. d' = d\<lparr>de_scratch := sc\<rparr>" using e(2) by blast
  show "\<exists>views. s' = store_bytes s (join views) \<and> same_shape views outs" using k(2) e(3) by blast
qed

lemma prepare_placement_geometry:
  "de_width (fst (prepare_placement allocs d p len stride)) = de_width d"
  "de_height (fst (prepare_placement allocs d p len stride)) = de_height d"
  by (cases rule: prepare_placement_cases [where d = d and p = p and len = len and stride = stride and allocs = allocs]; simp)+

text \<open>What decoding into a surface that fits comes to.\<close>

definition decode_result :: "present_env \<Rightarrow> config \<Rightarrow> decoder \<Rightarrow> surface \<Rightarrow> (vmx_status + unit) \<times> decoder \<times> surface \<Rightarrow> bool" where
  "decode_result env c d s res \<longleftrightarrow>
     (case res of
        (r, d', s') \<Rightarrow>
          (r = Inr () \<or> r = Inl CorruptStream \<or>
             r = Inl WorkerFailure \<and> \<not> cf_yuv c \<and> cf_scaler c \<noteq> None \<and> \<not> rows_granted (pe_row_allocs env) (length (de_scratch d)))
          \<and> decoder_ok d' \<and> de_width d' = de_width d \<and> de_height d' = de_height d
          \<and> (\<exists>bs. s' = store_bytes s bs \<and> length bs = length (surface_bytes s)))"

lemma decode_result_run:
  assumes "run_ok env" "decoder_ok d0" "frame_request d0 d1 jb outs" "de_width d1 = de_width d" "de_height d1 = de_height d"
    "\<And>views. same_shape views outs \<Longrightarrow> length (join views) = length (surface_bytes s)"
  shows "decode_result env c d s (run_request env d1 (Inr (jb, outs)) join s)"
proof -
  obtain r d' s' where q: "run_request env d1 (Inr (jb, outs)) join s = (r, d', s')" by (cases "run_request env d1 (Inr (jb, outs)) join s") auto
  note o = run_request_outcome [OF assms(1-3) q]
  obtain sc where d': "d' = d1\<lparr>de_scratch := sc\<rparr>" using o(3) by blast
  obtain views where s': "s' = store_bytes s (join views)" "same_shape views outs" using o(4) by blast
  have "\<exists>bs. s' = store_bytes s bs \<and> length bs = length (surface_bytes s)" using s'(1) assms(6) [OF s'(2)] by blast
  then show ?thesis using o(1,2) d' assms(4,5) q by (auto simp: decode_result_def)
qed

lemma packed_view: "same_shape views (Some bs, None, None, None) \<Longrightarrow> length (view_or bs (fst views)) = length bs"
  using same_shape_view [of views "(Some bs, None, None, None)" 0] by (cases views) (auto simp: view_or_def)

lemma planes_view:
  assumes "same_shape views (None, Some a, Some b, Some e)"
  shows "length (case views of (_, x, y, z) \<Rightarrow> view_or a x @ view_or b y @ view_or e z) = length a + length b + length e"
  using same_shape_view [OF assms, of 1] same_shape_view [OF assms, of 2] same_shape_view [OF assms, of 3]
  by (cases views) (auto simp: view_or_def)

lemma decode_into_result:
  assumes "run_ok env" "decoder_ok d" "de_loaded d" "surface_fits (cf_yuv c) (cf_scaler c) (de_width d) (de_height d) s"
  shows "decode_result env c d s (decode_into env c d s)"
proof (cases "cf_yuv c")
  case True
  let ?bs = "surface_bytes s" and ?o1 = "su_plane_offsets s ! 1" and ?o2 = "su_plane_offsets s ! 2"
  obtain jb where jb: "decode_yuv422p d (take ?o1 ?bs, su_plane_pitches s ! 0) (take (?o2 - ?o1) (drop ?o1 ?bs), su_plane_pitches s ! 1)
      (drop (?o2 - ?o1) (drop ?o1 ?bs), su_plane_pitches s ! 2)
    = Inr (jb, None, Some (take ?o1 ?bs), Some (take (?o2 - ?o1) (drop ?o1 ?bs)), Some (drop (?o2 - ?o1) (drop ?o1 ?bs)))"
    using planes_accepted [of d s] assms(3,4) True by (auto simp: surface_fits_def)
  have len: "length (take ?o1 ?bs) + length (take (?o2 - ?o1) (drop ?o1 ?bs)) + length (drop (?o2 - ?o1) (drop ?o1 ?bs)) = length ?bs" by simp
  have into: "decode_into env c d s = run_request env d
      (decode_yuv422p d (take ?o1 ?bs, su_plane_pitches s ! 0) (take (?o2 - ?o1) (drop ?o1 ?bs), su_plane_pitches s ! 1)
         (drop (?o2 - ?o1) (drop ?o1 ?bs), su_plane_pitches s ! 2))
      (\<lambda>(_, a, b, e). view_or (take ?o1 ?bs) a @ view_or (take (?o2 - ?o1) (drop ?o1 ?bs)) b @ view_or (drop (?o2 - ?o1) (drop ?o1 ?bs)) e) s"
    using True by (simp only: decode_into_def Let_def if_True)
  show ?thesis unfolding into jb
    by (rule decode_result_run [OF assms(1,2) yuv422p [OF jb] refl refl]) (simp only: planes_view len)
next
  case yuv: False
  show ?thesis
  proof (cases "cf_scaler c")
    case None
    then have "packed_fits (de_width d) (de_height d) s" using assms(4) yuv by (simp add: surface_fits_def)
    note q = packed_accepted [OF this assms(3)]
    show ?thesis using yuv None q
      by (simp add: decode_into_def Let_def) (rule decode_result_run [OF assms(1,2) bgrx [OF q]]; simp add: packed_view)
  next
    case (Some sc)
    then have fits: "placed_fits (de_width d) (de_height d) sc s" using assms(4) yuv by (simp add: surface_fits_def)
    note chk = placed_checked [OF fits]
    have into: "decode_into env c d s = (case decode_bgrx_placed (pe_row_allocs env) d (surface_bytes s) (su_pitch s) (vmx_placement_of sc) of
        (d, r) \<Rightarrow> run_request env d r (\<lambda>views. view_or (surface_bytes s) (fst views)) s)"
      using yuv Some by (simp add: decode_into_def Let_def vmx_placement_of_def)
    obtain d1 r1 where p: "prepare_placement (pe_row_allocs env) d (vmx_placement_of sc) (length (surface_bytes s)) (su_pitch s) = (d1, r1)" by fastforce
    have d1: "decoder_ok d1" "de_width d1 = de_width d" "de_height d1 = de_height d"
      using prepare_placement_keeps [OF assms(2)] prepare_placement_geometry p by (metis fst_conv)+
    show ?thesis
    proof (cases r1)
      case (Inl e)
      have "e = WorkerFailure \<and> \<not> rows_granted (pe_row_allocs env) (length (de_scratch d))"
        using p Inl chk grow_rows_granted [of "pe_row_allocs env" "de_scratch d" "length (vp_columns (vmx_placement_of sc)) * 4"]
        by (cases rule: prepare_placement_cases [where d = d and p = "vmx_placement_of sc" and len = "length (surface_bytes s)" and stride = "su_pitch s" and allocs = "pe_row_allocs env"]) auto
      moreover have "store_bytes s (surface_bytes s) = s" using surface_fits_map [OF assms(4)] by (simp add: store_bytes_def)
      then have "\<exists>bs. s = store_bytes s bs \<and> length bs = length (surface_bytes s)" by metis
      moreover have "decode_into env c d s = (Inl e, d1, s)"
        using into p Inl assms(3) by (simp add: decode_bgrx_placed_def run_request_def)
      ultimately show ?thesis using d1 yuv Some by (simp add: decode_result_def)
    next
      case (Inr u)
      let ?jb = "make_job d1 Bgrx (su_pitch s) [0, 0, 0] (Some (vmx_placement_of sc))"
      have b: "decode_bgrx_placed (pe_row_allocs env) d (surface_bytes s) (su_pitch s) (vmx_placement_of sc) = (d1, Inr (?jb, Some (surface_bytes s), None, None, None))"
        using p Inr assms(3) by (simp add: decode_bgrx_placed_def)
      show ?thesis unfolding into b using decode_result_run [OF assms(1,2) placed [OF b] d1(2,3)] packed_view by simp
    qed
  qed
qed

section \<open>Configurations\<close>

definition config_ok :: "config \<Rightarrow> bool" where
  "config_ok c \<longleftrightarrow>
     length (cf_surfaces c) = DRM_BUFFERS \<and> cf_front c < DRM_BUFFERS \<and> decoder_ok (cf_decoder c) \<and> cf_skips c \<le> SKIP_BUDGET
     \<and> int (de_width (cf_decoder c)) = vf_width (cf_format c) \<and> int (de_height (cf_decoder c)) = vf_height (cf_format c)
     \<and> (\<forall>s\<in>set (cf_surfaces c). surface_fits (cf_yuv c) (cf_scaler c) (de_width (cf_decoder c)) (de_height (cf_decoder c)) s)"

definition output_ok :: "video_output \<Rightarrow> bool" where
  "output_ok v \<longleftrightarrow> (case vo_cfg v of None \<Rightarrow> True | Some c \<Rightarrow> config_ok c)"

lemma surfaces_loop_Inr:
  "surfaces_loop mk ks acc = Some (Inr ss) \<Longrightarrow> length ss = length acc + length ks \<and> (\<forall>s\<in>set ss. s \<in> set acc \<or> (\<exists>k. mk k = Some (Inr s)))"
proof (induction mk ks acc rule: surfaces_loop.induct)
  case (2 mk k ks acc)
  then obtain s where s: "mk k = Some (Inr s)" by (auto split: option.splits sum.splits)
  then have "surfaces_loop mk ks (acc @ [s]) = Some (Inr ss)" using "2.prems" by simp
  with s show ?case using "2.IH" [OF s refl] by auto
qed simp

lemma surfaces_loop_total:
  assumes "\<And>k. \<exists>r. mk k = Some r"
  shows "\<exists>r. surfaces_loop mk ks acc = Some r"
proof (induction ks arbitrary: acc)
  case (Cons k ks)
  obtain r where "mk k = Some r" using assms by blast
  then show ?case using Cons by (cases r) auto
qed simp

lemma fit_inside:
  assumes "fit sw sh mw mh = Some p" "mw \<le> USIZE_MAX" "mh \<le> USIZE_MAX"
  shows "0 < pl_width p" "0 < pl_height p" "pl_x p + pl_width p \<le> mw" "pl_y p + pl_height p \<le> mh"
proof -
  have pos: "0 < sw" "0 < sh" "0 < mw" "0 < mh" using assms(1) by (auto simp: fit_def split: if_splits)
  have "0 < pl_width p \<and> 0 < pl_height p \<and> pl_x p + pl_width p \<le> mw \<and> pl_y p + pl_height p \<le> mh"
  proof (cases "sw * mh \<le> mw * sh")
    case True
    define w where "w = max (sw * mh div sh) 1"
    have p: "p = \<lparr>pl_x = (mw - w) div 2, pl_y = 0, pl_width = w, pl_height = mh\<rparr>"
      using assms fit_cases [OF pos] True by (simp add: w_def Let_def)
    have "sw * mh div sh \<le> mw" using div_le_mono [OF True, of sh] pos by simp
    then have "0 < w" "w \<le> mw" using pos by (auto simp: w_def)
    then show ?thesis using pos by (simp add: p)
  next
    case False
    define h where "h = max (mw * sh div sw) 1"
    have p: "p = \<lparr>pl_x = 0, pl_y = (mh - h) div 2, pl_width = mw, pl_height = h\<rparr>"
      using assms fit_cases [OF pos] False by (simp add: h_def Let_def)
    have "mw * sh div sw \<le> mh" using False div_le_mono [of "mw * sh" "sw * mh" sw] pos by simp
    then have "0 < h" "h \<le> mh" using pos by (auto simp: h_def)
    then show ?thesis using pos by (simp add: p)
  qed
  then show "0 < pl_width p" "0 < pl_height p" "pl_x p + pl_width p \<le> mw" "pl_y p + pl_height p \<le> mh" by auto
qed

lemma decoder_new_geometry:
  assumes "decoder_new spawn w h cs n = Inr d"
  shows "de_width d = w" "de_height d = h"
  using assms by (auto simp: decoder_new_def Let_def split: if_splits)

text \<open>What a plan fixes.\<close>

definition plan_ok :: "video_header \<Rightarrow> yuv_setup \<Rightarrow> decoder \<Rightarrow> bool" where
  "plan_ok h s d \<longleftrightarrow>
     decoder_ok d \<and> int (de_width d) = vh_width h \<and> int (de_height d) = vh_height h \<and> se_width s = de_width d \<and> se_height s = de_height d
     \<and> mi_hdisplay (se_mode s) \<le> MAX_WIDTH \<and> mi_vdisplay (se_mode s) \<le> MAX_HEIGHT
     \<and> (if se_scaled s then fit (de_width d) (de_height d) (mi_hdisplay (se_mode s)) (mi_vdisplay (se_mode s)) = Some (se_placement s)
        else mi_hdisplay (se_mode s) = de_width d \<and> mi_vdisplay (se_mode s) = de_height d)"

lemma plan_config_ok:
  assumes "plan_config spawn cid crtc modes h = Inr (s, c)" "video_header_ok h"
  shows "\<exists>d. c = config_new s d h \<and> plan_ok h s d"
proof -
  let ?shapes = "map mode_shape_of modes"
  have pos: "0 < vh_width h" "0 < vh_height h" "vh_width h \<le> 65535" "vh_height h \<le> 65535" using assms(2) by (auto simp: video_header_ok_def)
  then have wh: "nat \<bar>vh_width h\<bar> = u16_of (vh_width h)" "nat \<bar>vh_height h\<bar> = u16_of (vh_height h)" by (simp_all add: u16_of_def)
  obtain choice where ch: "choose_mode ?shapes (u16_of (vh_width h)) (u16_of (vh_height h)) (header_rate h) = Some choice"
    using assms(1) by (auto simp: plan_config_def split: option.splits)
  let ?mode = "modes ! mc_index choice"
  obtain d where d: "decoder_new spawn (nat \<bar>vh_width h\<bar>) (nat \<bar>vh_height h\<bar>) (color_resolve (vh_color_space h) (nat \<bar>vh_height h\<bar>)) DECODE_WORKERS = Inr d"
    using assms(1) ch by (auto simp: plan_config_def Let_def split: sum.splits)
  obtain p where p: "choose_placement (mc_scaled choice) (nat \<bar>vh_width h\<bar>) (nat \<bar>vh_height h\<bar>) (mi_hdisplay ?mode) (mi_vdisplay ?mode) = Some p"
    using assms(1) ch d by (auto simp: plan_config_def Let_def split: option.splits)
  have s: "se_mode s = ?mode" "se_width s = nat \<bar>vh_width h\<bar>" "se_height s = nat \<bar>vh_height h\<bar>" "se_placement s = p" "se_scaled s = mc_scaled choice"
    and c: "c = config_new s d h"
    using assms(1) ch d p by (auto simp: plan_config_def Let_def)
  have best: "best_mode ?shapes (header_rate h) (mc_index choice) \<and> (\<not> mc_scaled choice \<longrightarrow> at_size ?shapes (u16_of (vh_width h)) (u16_of (vh_height h)) (mc_index choice))"
    by (cases rule: choose_mode_cases [of ?shapes "u16_of (vh_width h)" "u16_of (vh_height h)" "header_rate h"]) (use ch in auto)
  then have u: "mc_index choice < length modes" "usable (?shapes ! mc_index choice)" by (auto simp: best_mode_def Let_def usable_list_iff)
  then have "mi_hdisplay ?mode \<le> MAX_WIDTH" "mi_vdisplay ?mode \<le> MAX_HEIGHT" by (simp_all add: usable_def mode_shape_of_def)
  moreover have "\<not> mc_scaled choice \<longrightarrow> mi_hdisplay ?mode = nat \<bar>vh_width h\<bar> \<and> mi_vdisplay ?mode = nat \<bar>vh_height h\<bar>"
    using best u(1) wh by (simp add: at_size_def mode_shape_of_def)
  ultimately show ?thesis
    using c d decoder_new_ok [OF d] decoder_new_geometry [OF d] s p pos
    by (intro exI [of _ d]) (auto simp: plan_ok_def choose_placement_def split: if_splits)
qed

lemma fallback_scaler_fits:
  assumes "plan_ok h s d" "fallback_scaler s = Inr scaling" "packed_fits (mi_hdisplay (se_mode s)) (mi_vdisplay (se_mode s)) u"
  shows "surface_fits False scaling (de_width d) (de_height d) u"
proof (cases "se_scaled s")
  case False
  then show ?thesis using assms by (auto simp: fallback_scaler_def plan_ok_def surface_fits_def)
next
  case True
  then obtain sc where sc: "scaling = Some sc" "scaler_new (de_width d) (de_height d) (se_placement s) = Inr sc"
    using assms(1,2) by (auto simp: fallback_scaler_def plan_ok_def and_then_eq_Inr)
  have f: "fit (de_width d) (de_height d) (mi_hdisplay (se_mode s)) (mi_vdisplay (se_mode s)) = Some (se_placement s)"
    "mi_hdisplay (se_mode s) \<le> MAX_WIDTH" "mi_vdisplay (se_mode s) \<le> MAX_HEIGHT" using assms(1) True by (auto simp: plan_ok_def)
  note i = fit_inside [OF f(1)]
  have b: "0 < de_width d" "0 < de_height d" "de_width d \<le> U32_MAX" "de_height d \<le> U32_MAX"
    and t: "sc_placement sc = se_placement s" "sc_rows sc = scale_table (pl_height (se_placement s)) (de_height d)" "sc_columns sc = scale_table (pl_width (se_placement s)) (de_width d)"
    using sc(2) by (auto simp: scaler_new_def split: if_splits)
  have "placed_fits (de_width d) (de_height d) sc u"
    unfolding placed_fits_def using assms(3) f(2,3) t i b scale_table_ok [OF b(1,3)] scale_table_ok [OF b(2,4)]
    by (intro exI [of _ "mi_hdisplay (se_mode s)"] exI [of _ "mi_vdisplay (se_mode s)"]) (auto simp flip: length_0_conv)
  then show ?thesis using sc(1) by (simp add: surface_fits_def)
qed

lemma configure_bgrx_ok:
  assumes "drm_ok dr" "plan_ok h s d" "configure_bgrx dr s (config_new s d h) = Some (Inr c)"
  shows "config_ok c \<and> cf_format c = format_of h \<and> \<not> cf_presented c \<and> \<not> cf_flip_pending c"
proof -
  obtain sc where sc: "fallback_scaler s = Inr sc" using assms(3) by (auto simp: configure_bgrx_def split: sum.splits)
  let ?mk = "\<lambda>k. Some (surface_bgrx dr k (mi_hdisplay (se_mode s)) (mi_vdisplay (se_mode s)))"
  obtain ss where ss: "surfaces_loop ?mk [0..<DRM_BUFFERS] [] = Some (Inr ss)"
    using assms(3) sc by (auto simp: configure_bgrx_def split: option.splits sum.splits)
  have c: "c = (config_new s d h)\<lparr>cf_scaler := sc, cf_surfaces := clear_bars s ss\<rparr>"
    using assms(3) sc ss by (auto simp: configure_bgrx_def split: sum.splits)
  have fits: "surface_fits False sc (de_width d) (de_height d) u" if "u \<in> set ss" for u
  proof -
    obtain k where "surface_bgrx dr k (mi_hdisplay (se_mode s)) (mi_vdisplay (se_mode s)) = Inr u"
      using surfaces_loop_Inr [OF ss] \<open>u \<in> set ss\<close> by auto
    then show ?thesis using fallback_scaler_fits [OF assms(2) sc] surface_bgrx_fits [OF assms(1)] by blast
  qed
  have "surface_fits False sc (de_width d) (de_height d) u" if u: "u \<in> set (clear_bars s ss)" for u
  proof (cases "u \<in> set ss")
    case False
    then obtain u' where u': "u' \<in> set ss" "u = u'\<lparr>su_map := map_option (\<lambda>bs. replicate (length bs) 0) (su_map u')\<rparr>"
      using u by (auto simp: clear_bars_def split: if_splits)
    then have "u = store_bytes u' (replicate (length (surface_bytes u')) 0)"
      using surface_fits_map [OF fits [OF u'(1)]] by (simp add: store_bytes_def)
    then show ?thesis using fits [OF u'(1)] surface_fits_map [OF fits [OF u'(1)]]
        store_bytes_fits [of u' "surface_bytes u'" "replicate (length (surface_bytes u')) 0" False sc "de_width d" "de_height d"] by simp
  qed (rule fits)
  moreover have "length (clear_bars s ss) = DRM_BUFFERS" using surfaces_loop_Inr [OF ss] by (simp add: clear_bars_def)
  ultimately show ?thesis using assms(2) by (simp add: c config_ok_def config_new_def Let_def plan_ok_def format_of_def)
qed

lemma configure_yuv_total:
  assumes "drm_ok dr"
  shows "\<exists>r. configure_yuv dr s = Some r"
proof -
  have "\<exists>r. surface_yuv dr k w h = Some r" for k w h using surface_yuv_fits [OF assms] by blast
  then obtain r where "surfaces_loop (\<lambda>k. surface_yuv dr k (u16_or_0 (se_width s)) (u16_or_0 (se_height s))) [0..<DRM_BUFFERS] [] = Some r"
    using surfaces_loop_total [of "\<lambda>k. surface_yuv dr k (u16_or_0 (se_width s)) (u16_or_0 (se_height s))"] by blast
  then show ?thesis by (auto simp: configure_yuv_def split: option.splits sum.splits)
qed

lemma configure_bgrx_total: "\<exists>r. configure_bgrx dr s c = Some r"
  using surfaces_loop_total [of "\<lambda>k. Some (surface_bgrx dr k (mi_hdisplay (se_mode s)) (mi_vdisplay (se_mode s)))" "[0..<DRM_BUFFERS]" "[]"]
  by (auto simp: configure_bgrx_def split: option.splits sum.splits)

lemma configure_yuv_surfaces:
  assumes "configure_yuv dr s = Some (Inr (ss, plane, fb))"
  shows "surfaces_loop (\<lambda>k. surface_yuv dr k (u16_or_0 (se_width s)) (u16_or_0 (se_height s))) [0..<DRM_BUFFERS] [] = Some (Inr ss)"
  using assms by (auto simp: configure_yuv_def and_then_eq_Inr split: if_splits option.splits sum.splits)

lemma configure_yuv_ok:
  assumes "drm_ok dr" "plan_ok h s d" "video_header_ok h" "configure_yuv dr s = Some (Inr (ss, plane, fb))"
  shows "config_ok ((config_new s d h)\<lparr>cf_surfaces := ss, cf_plane := plane, cf_plane_fb_prop := fb, cf_yuv := True\<rparr>)"
proof -
  note ss = surfaces_loop_Inr [OF configure_yuv_surfaces [OF assms(4)]]
  have dims: "u16_or_0 (se_width s) = de_width d" "u16_or_0 (se_height s) = de_height d"
    using assms(2,3) by (auto simp: plan_ok_def video_header_ok_def u16_or_0_def)
  have "planes_fit (de_width d) (de_height d) u" if u: "u \<in> set ss" for u
  proof -
    obtain k where "surface_yuv dr k (de_width d) (de_height d) = Some (Inr u)" using ss u dims by auto
    then show ?thesis using surface_yuv_fits [OF assms(1), of k "de_width d" "de_height d"] by auto
  qed
  then show ?thesis using ss assms(2) by (simp add: config_ok_def config_new_def Let_def plan_ok_def format_of_def surface_fits_def)
qed

section \<open>Presenting\<close>

lemma load_geometry:
  "de_width (fst (load dc ac d input)) = de_width d" "de_height (fst (load dc ac d input)) = de_height d"
  by (auto simp: load_def Let_def split: sum.splits prod.splits)

lemma load_loaded: "load dc ac d input = (d', Inr u) \<Longrightarrow> de_loaded d'"
  by (auto simp: load_def Let_def split: sum.splits prod.splits)

text \<open>One step of the chain: only the surface after the front one may change; a presented frame makes it
  the front one, anything else leaves the front alone.\<close>

definition chain_step :: "config \<Rightarrow> present \<Rightarrow> config \<Rightarrow> bool" where
  "chain_step c r c' \<longleftrightarrow>
     length (cf_surfaces c') = length (cf_surfaces c)
     \<and> (\<forall>k. k \<noteq> next_surface c \<longrightarrow> cf_surfaces c' ! k = cf_surfaces c ! k)
     \<and> cf_format c' = cf_format c \<and> cf_yuv c' = cf_yuv c \<and> cf_scaler c' = cf_scaler c
     \<and> (r = Presented \<longrightarrow> cf_front c' = next_surface c \<and> cf_flip_pending c' \<and> cf_presented c' \<and> cf_skips c' = 0)
     \<and> (r \<noteq> Presented \<longrightarrow> cf_front c' = cf_front c \<and> (cf_presented c' \<longleftrightarrow> cf_presented c))
     \<and> (r = Skipped \<longrightarrow> cf_presented c \<and> cf_skips c' = Suc (cf_skips c))
     \<and> ((\<forall>m. r \<noteq> Failed m) \<longrightarrow> config_ok c')"

lemma config_ok_skips: "config_ok c \<Longrightarrow> n \<le> SKIP_BUDGET \<Longrightarrow> config_ok (c\<lparr>cf_skips := n\<rparr>)"
  by (simp add: config_ok_def)

lemma note_damage_step:
  assumes "config_ok c" "note_damage v c e = (r, v')"
  shows "\<exists>c'. vo_cfg v' = Some c' \<and> chain_step c r c' \<and> r \<noteq> Presented"
proof -
  obtain n where n: "classify_decode e (cf_presented c) (cf_skips c) = (r, n)" "vo_cfg v' = Some (c\<lparr>cf_skips := n\<rparr>)"
    using assms(2) by (auto simp: note_damage_def split: prod.splits)
  have s: "cf_skips c \<le> SKIP_BUDGET" using assms(1) by (simp add: config_ok_def)
  note b = classify_decode_budget [OF n(1) s]
  show ?thesis using n(2) b config_ok_skips [OF assms(1), of n] by (auto simp: chain_step_def)
qed

lemma config_ok_decoded:
  assumes "config_ok c" "decoder_ok d" "de_width d = de_width (cf_decoder c)" "de_height d = de_height (cf_decoder c)"
  shows "config_ok (c\<lparr>cf_decoder := d\<rparr>)"
  using assms by (simp add: config_ok_def)

lemma config_ok_surface:
  assumes "config_ok c" "k < DRM_BUFFERS" "s = store_bytes (cf_surfaces c ! k) bs" "length bs = length (surface_bytes (cf_surfaces c ! k))"
  shows "config_ok (c\<lparr>cf_surfaces := (cf_surfaces c)[k := s]\<rparr>)"
proof -
  let ?fits = "surface_fits (cf_yuv c) (cf_scaler c) (de_width (cf_decoder c)) (de_height (cf_decoder c))"
  have old: "?fits (cf_surfaces c ! k)" using assms(1,2) by (simp add: config_ok_def)
  then have "?fits s" using assms(3,4) store_bytes_fits [OF surface_fits_map [OF old] assms(4)] by simp
  then show ?thesis using assms(1) set_update_subset_insert [of "cf_surfaces c" k s] by (auto simp: config_ok_def)
qed

lemma retire_flip_cfg:
  assumes "retire_flip flips v = Some (v', r)" "vo_cfg v = Some c"
  shows "vo_cfg v' = Some (c\<lparr>cf_flip_pending := False\<rparr>)"
proof (cases "cf_flip_pending c")
  case True
  then obtain w where w: "wait_for_flip flips = Some w" using assms by (auto simp: retire_flip_def bind_eq_Some_conv)
  show ?thesis
  proof (cases w)
    case (Inr ns)
    then show ?thesis using assms True w by (cases ns) (auto simp: retire_flip_def)
  qed (use assms True w in \<open>auto simp: retire_flip_def\<close>)
qed (use assms in \<open>auto simp: retire_flip_def\<close>)

lemma retire_flip_other: "retire_flip flips v = Some (v', r) \<Longrightarrow> vo_cfg v = None \<Longrightarrow> v' = v"
  by (simp add: retire_flip_def)

lemma show_frame_step:
  assumes "config_ok c" "vo_cfg v = Some c" "show_frame env v k = Some (r, v')" "k < DRM_BUFFERS"
  shows "\<exists>c'. vo_cfg v' = Some c' \<and> r \<noteq> Skipped \<and> (\<forall>m. r \<noteq> UnsupportedVideo m)
    \<and> (r = Presented \<longrightarrow> c' = c\<lparr>cf_front := k, cf_flip_pending := True, cf_presented := True, cf_skips := 0\<rparr>)
    \<and> (r \<noteq> Presented \<longrightarrow> c' = c\<lparr>cf_flip_pending := False\<rparr>)"
proof -
  obtain v1 r1 where q: "retire_flip (pe_flips env) v = Some (v1, r1)" using assms(3) by (auto simp: show_frame_def bind_eq_Some_conv)
  note c1 = retire_flip_cfg [OF q assms(2)]
  show ?thesis using assms(3) q c1 by (auto simp: show_frame_def split: sum.splits)
qed

lemma present_configured_step:
  assumes "run_ok env" "config_ok c" "vo_cfg v = Some c" "present_configured env v (Some input) = Some (r, v')"
  shows "\<exists>c'. vo_cfg v' = Some c' \<and> chain_step c r c'"
proof -
  let ?n = "next_surface c" and ?d = "cf_decoder c"
  have len: "length (cf_surfaces c) = DRM_BUFFERS" and n: "?n < DRM_BUFFERS" and dok: "decoder_ok ?d"
    using assms(2) by (auto simp: config_ok_def next_surface_def)
  then have ne: "cf_surfaces c \<noteq> []" by auto
  obtain d lr where l: "load (pe_dc_allocs env) (pe_ac_allocs env) ?d input = (d, lr)" by fastforce
  have d: "decoder_ok d" "de_width d = de_width ?d" "de_height d = de_height ?d"
    using load_keeps [OF dok] load_geometry l by (metis fst_conv)+
  let ?v = "v\<lparr>vo_stamps := (vo_stamps v)\<lparr>sp_decode_start := pe_decode_start env\<rparr>\<rparr>"
  show ?thesis
  proof (cases lr)
    case (Inl e)
    have "note_damage ?v (c\<lparr>cf_decoder := d\<rparr>) e = (r, v')" using assms(3,4) l Inl ne by (simp add: present_configured_def Let_def)
    then obtain c' where "vo_cfg v' = Some c'" "chain_step (c\<lparr>cf_decoder := d\<rparr>) r c'"
      using note_damage_step [OF config_ok_decoded [OF assms(2) d]] by blast
    then show ?thesis by (auto simp: chain_step_def next_surface_def)
  next
    case (Inr u)
    let ?s = "cf_surfaces c ! ?n"
    obtain dr d' s' where q: "decode_into env c d ?s = (dr, d', s')" by (cases "decode_into env c d ?s") auto
    have fits: "surface_fits (cf_yuv c) (cf_scaler c) (de_width d) (de_height d) ?s"
      using assms(2) n d by (simp add: config_ok_def)
    have res: "decode_result env c d ?s (dr, d', s')"
      using decode_into_result [OF assms(1) d(1) load_loaded [OF l [unfolded Inr]] fits] q by simp
    then obtain bs where bs: "s' = store_bytes ?s bs" "length bs = length (surface_bytes ?s)" by (auto simp: decode_result_def)
    let ?c = "c\<lparr>cf_decoder := d', cf_surfaces := (cf_surfaces c)[?n := s']\<rparr>"
    have "config_ok (c\<lparr>cf_decoder := d'\<rparr>)" using config_ok_decoded [OF assms(2)] res d by (simp add: decode_result_def)
    then have ok: "config_ok ?c" using config_ok_surface [of "c\<lparr>cf_decoder := d'\<rparr>" ?n s' bs] n bs by simp
    have sur: "\<forall>k. k \<noteq> ?n \<longrightarrow> cf_surfaces ?c ! k = cf_surfaces c ! k" by simp
    have same: "next_surface ?c = ?n" by (simp add: next_surface_def)
    show ?thesis
    proof (cases dr)
      case (Inl e)
      have "note_damage ?v ?c e = (r, v')" using assms(3,4) l Inr q Inl ne by (simp add: present_configured_def Let_def)
      then obtain c' where "vo_cfg v' = Some c'" "chain_step ?c r c'" using note_damage_step [OF ok] by blast
      then show ?thesis using sur same by (auto simp: chain_step_def)
    next
      case inr: (Inr w)
      let ?w = "?v\<lparr>vo_cfg := Some ?c, vo_stamps := (vo_stamps ?v)\<lparr>sp_decoded := pe_decoded env\<rparr>\<rparr>"
      have "show_frame env ?w ?n = Some (r, v')"
        using assms(3,4) l Inr q inr ne by (simp add: present_configured_def Let_def)
      then obtain c' where c': "vo_cfg v' = Some c'" "r \<noteq> Skipped" "\<forall>m. r \<noteq> UnsupportedVideo m"
        "r = Presented \<longrightarrow> c' = ?c\<lparr>cf_front := ?n, cf_flip_pending := True, cf_presented := True, cf_skips := 0\<rparr>"
        "r \<noteq> Presented \<longrightarrow> c' = ?c\<lparr>cf_flip_pending := False\<rparr>"
        using show_frame_step [OF ok _ _ n, of ?w env r v'] by auto
      have okf: "config_ok (?c\<lparr>cf_front := ?n, cf_flip_pending := True, cf_presented := True, cf_skips := 0\<rparr>)" "config_ok (?c\<lparr>cf_flip_pending := False\<rparr>)"
        using ok n by (simp_all add: config_ok_def)
      show ?thesis using c' okf sur len by (cases "r = Presented") (auto simp: chain_step_def)
    qed
  qed
qed

lemma frame_valid_video:
  assumes "frame_valid f" "fr_video f = Some h"
  shows "video_header_ok h"
  using assms by (auto simp: frame_valid_def parse_video_header_iff split: option.splits frame_type.splits)

lemma video_release_cfg: "video_release flips v = Some v' \<Longrightarrow> vo_cfg v' = None"
  by (auto simp: video_release_def bind_eq_Some_conv)

definition over_ceiling :: "video_output \<Rightarrow> video_header \<Rightarrow> bool" where
  "over_ceiling v h \<longleftrightarrow> \<not> is_ok (ceiling_admits (vo_ceiling v) (vh_width h) (vh_height h) (header_rate h))"

lemma video_configure_cases:
  assumes "drm_ok (pe_drm env)" "video_header_ok h" "video_configure env v h = Some (r, v')"
  shows "r = Presented \<and> (\<exists>c. vo_cfg v' = Some c \<and> config_ok c \<and> cf_format c = format_of h \<and> \<not> cf_presented c)
    \<or> (\<exists>m. r = UnsupportedVideo m) \<and> over_ceiling v h \<and> v' = v
    \<or> ((\<exists>m. r = UnsupportedVideo m) \<or> (\<exists>m. r = Failed m)) \<and> vo_cfg v' = None"
proof (cases "ceiling_admits (vo_ceiling v) (vh_width h) (vh_height h) (header_rate h)")
  case (Inl e)
  then show ?thesis using assms(3) by (auto simp: video_configure_def over_ceiling_def)
next
  case (Inr u)
  obtain v1 where v1: "video_release (pe_release_flips env) v = Some v1"
    using assms(3) Inr by (auto simp: video_configure_def bind_eq_Some_conv)
  note none = video_release_cfg [OF v1]
  show ?thesis
  proof (cases "find_display (pe_drm env) (vo_connector_id v1)")
    case (Inl e)
    then show ?thesis using assms(3) Inr v1 none by (auto simp: video_configure_def)
  next
    case (Inr cm)
    note fd = Inr and ca = \<open>ceiling_admits (vo_ceiling v) (vh_width h) (vh_height h) (header_rate h) = Inr u\<close>
    obtain crtc modes where cm: "cm = (crtc, modes)" by fastforce
    show ?thesis
    proof (cases "plan_config (pe_spawn env) (vo_connector_id v1) crtc modes h")
      case (Inl e)
      then show ?thesis using assms(3) ca fd cm v1 none by (auto simp: video_configure_def)
    next
      case (Inr sc)
      obtain s c where sc: "sc = (s, c)" by fastforce
      then obtain d where d: "c = config_new s d h" "plan_ok h s d" using plan_config_ok [OF _ assms(2)] Inr by blast
      obtain y where y: "configure_yuv (pe_drm env) s = Some y" using configure_yuv_total [OF assms(1)] by blast
      note eqs = ca fd cm v1 none Inr sc y
      show ?thesis
      proof (cases y)
        case inr: (Inr t)
        obtain ss plane fb where t: "t = (ss, plane, fb)" by (cases t) auto
        let ?c = "c\<lparr>cf_surfaces := ss, cf_plane := plane, cf_plane_fb_prop := fb, cf_yuv := True\<rparr>"
        have "r = Presented" "vo_cfg v' = Some ?c" using assms(3) eqs inr t by (auto simp: video_configure_def install_config_def)
        moreover have "config_ok ?c" unfolding d(1) by (rule configure_yuv_ok [OF assms(1) d(2) assms(2)]) (use y inr t in simp)
        moreover have "cf_format ?c = format_of h" "\<not> cf_presented ?c" by (simp_all add: d(1) config_new_def Let_def)
        ultimately show ?thesis by blast
      next
        case (Inl why)
        obtain b where b: "configure_bgrx (pe_drm env) s c = Some b" using configure_bgrx_total by blast
        show ?thesis
        proof (cases b)
          case inl: (Inl e)
          then show ?thesis using assms(3) eqs Inl b by (auto simp: video_configure_def install_config_def)
        next
          case inr: (Inr c')
          then have "config_ok c' \<and> cf_format c' = format_of h \<and> \<not> cf_presented c'" using configure_bgrx_ok [OF assms(1) d(2), of c'] b d(1) by simp
          moreover have "r = Presented" "vo_cfg v' = Some c'" using assms(3) eqs Inl b inr by (auto simp: video_configure_def install_config_def)
          ultimately show ?thesis by blast
        qed
      qed
    qed
  qed
qed

text \<open>The whole of \<open>present\<close>: what becomes of the configuration.\<close>

definition configured_for :: "video_output \<Rightarrow> video_header \<Rightarrow> bool" where
  "configured_for v h \<longleftrightarrow> (case vo_cfg v of None \<Rightarrow> False | Some c \<Rightarrow> cf_format c = format_of h)"

lemma present_configured_cases:
  assumes "run_ok env" "config_ok c" "vo_cfg v = Some c" "present_configured env v input = Some (r, v')"
  shows "(\<exists>c'. vo_cfg v' = Some c' \<and> chain_step c r c')"
proof (cases input)
  case None
  then show ?thesis using assms by (auto simp: present_configured_def chain_step_def)
next
  case (Some bs)
  then show ?thesis using present_configured_step [OF assms(1-3)] assms(4) by simp
qed

lemma present_new_cases:
  assumes "run_ok env" "drm_ok (pe_drm env)" "output_ok v" "video_header_ok h" "present_new env v f h = Some (r, v')"
  obtains (kept) c c' where "vo_cfg v = Some c" "cf_format c = format_of h" "vo_cfg v' = Some c'" "chain_step c r c'"
  | (fresh) c c' where "\<not> configured_for v h" "\<not> over_ceiling v h" "config_ok c" "cf_format c = format_of h" "\<not> cf_presented c" "vo_cfg v' = Some c'" "chain_step c r c'"
  | (ceiling) m where "\<not> configured_for v h" "over_ceiling v h" "r = UnsupportedVideo m" "vo_cfg v' = vo_cfg v"
  | (gone) "\<not> configured_for v h" "\<not> over_ceiling v h" "vo_cfg v' = None" "(\<exists>m. r = UnsupportedVideo m) \<or> (\<exists>m. r = Failed m)"
proof (cases "configured_for v h")
  case True
  then obtain c where c: "vo_cfg v = Some c" "cf_format c = format_of h" by (auto simp: configured_for_def split: option.splits)
  then have "config_ok c" "present_configured env v (media f VIDEO_HEADER_SIZE) = Some (r, v')"
    using assms(3,5) by (auto simp: output_ok_def present_new_def)
  then show ?thesis using kept [OF c] present_configured_cases [OF assms(1) _ c(1)] by blast
next
  case False
  then obtain r1 v1 where q: "video_configure env v h = Some (r1, v1)"
    using assms(5) by (auto simp: present_new_def configured_for_def bind_eq_Some_conv)
  have rest: "(case r1 of Presented \<Rightarrow> present_configured env v1 (media f VIDEO_HEADER_SIZE)
      | UnsupportedVideo detail \<Rightarrow> Some (UnsupportedVideo detail, v1\<lparr>vo_rejected := Some (format_of h, detail)\<rparr>) | _ \<Rightarrow> Some (r1, v1)) = Some (r, v')"
    using assms(5) q False by (simp add: present_new_def configured_for_def)
  have over: "over_ceiling v h \<Longrightarrow> (\<exists>m. r1 = UnsupportedVideo m) \<and> v1 = v"
    using q by (auto simp: video_configure_def over_ceiling_def split: sum.splits)
  consider (a) c where "r1 = Presented" "vo_cfg v1 = Some c" "config_ok c" "cf_format c = format_of h" "\<not> cf_presented c"
    | (b) m where "r1 = UnsupportedVideo m" "over_ceiling v h" "v1 = v"
    | (c) "(\<exists>m. r1 = UnsupportedVideo m) \<or> (\<exists>m. r1 = Failed m)" "vo_cfg v1 = None" "\<not> over_ceiling v h"
    using video_configure_cases [OF assms(2,4) q] over by auto
  then show ?thesis
  proof cases
    case (a c)
    then have "present_configured env v1 (media f VIDEO_HEADER_SIZE) = Some (r, v')" using rest by simp
    then obtain c' where c': "vo_cfg v' = Some c'" "chain_step c r c'" using present_configured_cases [OF assms(1) a(3,2)] by blast
    have "\<not> over_ceiling v h" using over a(1) by auto
    then show ?thesis using fresh [OF False _ a(3-5) c'] by simp
  next
    case (b m)
    then have "r = UnsupportedVideo m" "vo_cfg v' = vo_cfg v" using rest by auto
    then show ?thesis using ceiling [OF False b(2)] by simp
  next
    case c
    then have "vo_cfg v' = None" "(\<exists>m. r = UnsupportedVideo m) \<or> (\<exists>m. r = Failed m)" using rest by auto
    then show ?thesis using gone [OF False c(3)] by simp
  qed
qed

lemma present_frame_cases:
  assumes "present_frame env v f = Some (r, v')" "fr_video f = Some h"
  obtains (again) m where "vo_rejected v = Some (format_of h, m)" "r = UnsupportedVideo m" "v' = v"
  | (new) rejected where "present_new env (v\<lparr>vo_rejected := rejected\<rparr>) f h = Some (r, v')"
proof (cases "vo_rejected v")
  case None
  then have e: "v\<lparr>vo_rejected := None\<rparr> = v" by (cases v) simp
  have "present_new env v f h = Some (r, v')" using assms None by (simp add: present_frame_def)
  then have "present_new env (v\<lparr>vo_rejected := None\<rparr>) f h = Some (r, v')" unfolding e .
  then show ?thesis by (rule new)
next
  case (Some x)
  obtain q m where x: "x = (q, m)" by fastforce
  show ?thesis
  proof (cases "q = format_of h")
    case True
    show ?thesis by (rule again [of m]) (use assms Some x True in \<open>simp_all add: present_frame_def\<close>)
  next
    case False
    show ?thesis by (rule new [of None]) (use assms Some x False in \<open>simp add: present_frame_def\<close>)
  qed
qed

text \<open>The surfaces the display may be reading: the front one, and while its flip is in flight the one it
  replaces.\<close>

definition on_screen :: "config \<Rightarrow> nat set" where
  "on_screen c = (if cf_flip_pending c then {cf_front c, (cf_front c + 2) mod DRM_BUFFERS} else {cf_front c})"

lemma next_not_on_screen: "config_ok c \<Longrightarrow> next_surface c \<notin> on_screen c"
proof -
  assume "config_ok c"
  then have "length (cf_surfaces c) = 3" "cf_front c = 0 \<or> cf_front c = 1 \<or> cf_front c = 2" by (auto simp: config_ok_def)
  then show ?thesis by (auto simp: next_surface_def on_screen_def)
qed

lemma wait_retire: "retire_flip flips v = None \<Longrightarrow> wait_for_flip flips = None"
  by (auto simp: retire_flip_def split: option.splits if_splits bind_splits)

text \<open>The only way a call does not return is that the answers of the driver to the wait for a flip run out.\<close>

lemma show_frame_returns: "show_frame env v k = None \<Longrightarrow> wait_for_flip (pe_flips env) = None"
  by (cases "retire_flip (pe_flips env) v") (auto simp: show_frame_def wait_retire split: sum.splits option.splits)

lemma present_configured_returns:
  assumes "config_ok c" "vo_cfg v = Some c" "present_configured env v input = None"
  shows "wait_for_flip (pe_flips env) = None"
proof -
  have ne: "cf_surfaces c \<noteq> []" using assms(1) by (auto simp: config_ok_def)
  obtain bs where bs: "input = Some bs" using assms(3) by (cases input) (auto simp: present_configured_def)
  obtain d lr where l: "load (pe_dc_allocs env) (pe_ac_allocs env) (cf_decoder c) bs = (d, lr)" by fastforce
  obtain dr d' s' where q: "decode_into env c d (cf_surfaces c ! next_surface c) = (dr, d', s')"
    by (cases "decode_into env c d (cf_surfaces c ! next_surface c)") auto
  show ?thesis
    using assms(2,3) bs ne l q by (cases lr; cases dr) (auto simp: present_configured_def Let_def intro: show_frame_returns)
qed

lemma install_config_total:
  assumes "drm_ok dr"
  shows "\<exists>x. install_config dr v s c = Some x"
proof -
  obtain y b where "configure_yuv dr s = Some y" "configure_bgrx dr s c = Some b"
    using configure_yuv_total [OF assms] configure_bgrx_total by blast
  then show ?thesis by (cases y; cases b) (auto simp: install_config_def)
qed

lemma video_configure_returns:
  assumes "drm_ok (pe_drm env)" "video_configure env v h = None"
  shows "wait_for_flip (pe_release_flips env) = None"
proof -
  have never: "install_config (pe_drm env) w s c \<noteq> None" for w s c using install_config_total [OF assms(1), of w s c] by simp
  have "video_release (pe_release_flips env) v = None"
    using assms(2) by (auto simp: video_configure_def bind_eq_None_conv never split: sum.splits)
  then show ?thesis by (cases "retire_flip (pe_release_flips env) v") (auto simp: video_release_def wait_retire)
qed

lemma present_new_returns:
  assumes "drm_ok (pe_drm env)" "output_ok v" "video_header_ok h" "present_new env v f h = None"
  shows "wait_for_flip (pe_release_flips env) = None \<or> wait_for_flip (pe_flips env) = None"
proof (cases "configured_for v h")
  case True
  then obtain c where c: "vo_cfg v = Some c" "config_ok c" using assms(2) by (auto simp: configured_for_def output_ok_def split: option.splits)
  have "present_configured env v (media f VIDEO_HEADER_SIZE) = None" using assms(4) True by (simp add: present_new_def configured_for_def)
  from present_configured_returns [OF c(2,1) this] show ?thesis by simp
next
  case False
  show ?thesis
  proof (cases "video_configure env v h")
    case None
    then show ?thesis using video_configure_returns [OF assms(1)] by blast
  next
    case (Some q)
    obtain r1 v1 where q: "q = (r1, v1)" by fastforce
    have "r1 = Presented" "present_configured env v1 (media f VIDEO_HEADER_SIZE) = None"
      using assms(4) False Some q by (cases r1; simp add: present_new_def configured_for_def)+
    moreover obtain c where "vo_cfg v1 = Some c" "config_ok c"
      using video_configure_cases [OF assms(1,3) Some [unfolded q]] calculation(1) by auto
    ultimately show ?thesis using present_configured_returns [of c v1 env "media f VIDEO_HEADER_SIZE"] by simp
  qed
qed

lemma present_frame_none:
  assumes "present_frame env v f = None" "fr_video f = Some h"
  shows "\<exists>rej. present_new env (v\<lparr>vo_rejected := rej\<rparr>) f h = None"
proof (cases "vo_rejected v")
  case None
  then have e: "v\<lparr>vo_rejected := None\<rparr> = v" by (cases v) simp
  have "present_new env v f h = None" using assms None by (simp add: present_frame_def)
  then have "present_new env (v\<lparr>vo_rejected := None\<rparr>) f h = None" unfolding e .
  then show ?thesis by blast
next
  case (Some x)
  then have "present_new env (v\<lparr>vo_rejected := None\<rparr>) f h = None" using assms by (cases x) (simp add: present_frame_def split: if_splits)
  then show ?thesis by blast
qed

lemma chain_step_kept:
  assumes "chain_step c r c'" "config_ok c"
  shows "(\<forall>m. r \<noteq> Failed m) \<Longrightarrow> config_ok c'" "r = Presented \<Longrightarrow> cf_format c' = cf_format c \<and> cf_presented c' \<and> cf_skips c' = 0"
    "r = Skipped \<Longrightarrow> cf_presented c \<and> cf_skips c < SKIP_BUDGET"
proof -
  show "(\<forall>m. r \<noteq> Failed m) \<Longrightarrow> config_ok c'" "r = Presented \<Longrightarrow> cf_format c' = cf_format c \<and> cf_presented c' \<and> cf_skips c' = 0"
    using assms(1) by (simp_all add: chain_step_def)
  assume "r = Skipped"
  then have "cf_presented c" "cf_skips c' = Suc (cf_skips c)" "config_ok c'" using assms(1) by (auto simp: chain_step_def)
  then show "cf_presented c \<and> cf_skips c < SKIP_BUDGET" by (auto simp: config_ok_def)
qed

lemma present_new_outcome:
  assumes "output_ok v" "run_ok env" "drm_ok (pe_drm env)" "video_header_ok h" "present_new env v f h = Some (r, v')"
  shows "((\<forall>m. r \<noteq> Failed m) \<longrightarrow> output_ok v')
    \<and> (r = Presented \<longrightarrow> (\<exists>c. vo_cfg v' = Some c \<and> cf_format c = format_of h \<and> cf_presented c \<and> cf_skips c = 0))
    \<and> (r = Skipped \<longrightarrow> (\<exists>c. vo_cfg v = Some c \<and> cf_format c = format_of h \<and> cf_presented c \<and> cf_skips c < SKIP_BUDGET))
    \<and> (\<not> configured_for v h \<and> over_ceiling v h \<longrightarrow> vo_cfg v' = vo_cfg v)"
  using assms(2,3,1,4,5)
proof (cases rule: present_new_cases)
  case (kept c c')
  have "config_ok c" using kept(1) assms(1) by (simp add: output_ok_def)
  note k = chain_step_kept [OF kept(4) this]
  show ?thesis using k kept by (auto simp: output_ok_def configured_for_def)
next
  case (fresh c c')
  note k = chain_step_kept [OF fresh(7,3)]
  show ?thesis using k fresh by (auto simp: output_ok_def)
next
  case (ceiling m)
  then show ?thesis using assms(1) by (auto simp: output_ok_def)
next
  case gone
  then show ?thesis by (auto simp: output_ok_def)
qed

lemma present_outcome:
  assumes "output_ok v" "run_ok env" "drm_ok (pe_drm env)" "video_header_ok h" "present_frame env v f = Some (r, v')" "fr_video f = Some h"
  shows "((\<forall>m. r \<noteq> Failed m) \<longrightarrow> output_ok v')
    \<and> (r = Presented \<longrightarrow> (\<exists>c. vo_cfg v' = Some c \<and> cf_format c = format_of h \<and> cf_presented c \<and> cf_skips c = 0))
    \<and> (r = Skipped \<longrightarrow> (\<exists>c. vo_cfg v = Some c \<and> cf_format c = format_of h \<and> cf_presented c \<and> cf_skips c < SKIP_BUDGET))
    \<and> (\<not> configured_for v h \<and> over_ceiling v h \<longrightarrow> vo_cfg v' = vo_cfg v)"
  using assms(5,6)
proof (cases rule: present_frame_cases)
  case (again m)
  then show ?thesis using assms(1) by simp
next
  case (new rej)
  have "output_ok (v\<lparr>vo_rejected := rej\<rparr>)" using assms(1) by (simp add: output_ok_def)
  from present_new_outcome [OF this assms(2-4) new] show ?thesis by (simp add: configured_for_def over_ceiling_def)
qed

section \<open>A small output\<close>

text \<open>The environment a concrete instance runs in: a driver that only flips, and a pool that follows some
  schedule.\<close>

lemma pool_outcome_exists:
  assumes "decoder_ok d0" "frame_request d0 d jb outs"
  shows "\<exists>r. pool_outcome d jb outs r"
proof -
  let ?n = "length (de_scratch d)"
  let ?p = "(pool_new ?n undefined outs)\<lparr>po_scratch := de_scratch d\<rparr>"
  have "?n \<noteq> 0" using request_ok(2) [OF assms(2,1)] by (simp add: decoder_ok_def)
  then have p: "pool_for d outs ?p" by (auto simp: pool_for_def pool_idle_def pool_new_def)
  obtain q where "frame_reach (decode_slice d jb) (length (de_slices d)) ?p q" "po_phase q ! 0 = Idle"
    using vf.frame_returns [OF request_ready [OF assms(2,1) p] frame_reach.published] by auto
  then have "pool_outcome d jb outs (\<not> po_failed q, po_scratch q, po_out q)" using p unfolding pool_outcome_def by blast
  then show ?thesis by blast
qed

definition flip_only :: drm where
  "flip_only = \<lparr>dr_connector = \<lambda>_ _. Inl [], dr_encoder = \<lambda>_. None, dr_set_cap = \<lambda>_. False, dr_object_props = \<lambda>_ _. None,
     dr_property = \<lambda>_. None, dr_property_enums = \<lambda>_. None, dr_crtcs = None, dr_planes = None, dr_plane = \<lambda>_. None,
     dr_create_dumb = \<lambda>_ _ _ _. Inl [], dr_add_fb = \<lambda>_. Inl [], dr_add_fb2 = \<lambda>_ _ _. Inl [], dr_map_dumb = \<lambda>_ _. Inl [],
     dr_mode_blob = Inl [], dr_commit = \<lambda>_ _. Inl [], dr_set_crtc = \<lambda>_ _ _ _. Inl [], dr_page_flip = \<lambda>_ _. Inr ()\<rparr>"

definition demo_env :: "(decoder \<Rightarrow> job \<Rightarrow> outs \<Rightarrow> bool \<times> scratch list \<times> outs) \<Rightarrow> present_env" where
  "demo_env run = \<lparr>pe_drm = flip_only, pe_spawn = \<lambda>_. True, pe_dc_allocs = [True, True], pe_ac_allocs = [True, True], pe_row_allocs = [],
     pe_run = run, pe_release_flips = [(FlipAgain, 0)], pe_flips = [(FlipAgain, 0)], pe_decode_start = 0, pe_decoded = 1, pe_queued = 2\<rparr>"

lemma demo_env_ok: "drm_ok (pe_drm (demo_env run))" "\<exists>run. run_ok (demo_env run)"
proof -
  show "drm_ok (pe_drm (demo_env run))" by (simp add: demo_env_def flip_only_def drm_ok_def)
  have "run_ok (demo_env (\<lambda>d jb outs. SOME r. pool_outcome d jb outs r))"
    unfolding run_ok_def using pool_outcome_exists by (auto simp: demo_env_def intro: someI_ex)
  then show "\<exists>run. run_ok (demo_env run)" by blast
qed

definition demo_surface :: "nat \<Rightarrow> surface" where
  "demo_surface k = surface_empty\<lparr>su_pitch := 64, su_size := 2048, su_framebuffer := k, su_map := Some (replicate 2048 0)\<rparr>"

definition demo_header :: video_header where
  "demo_header = \<lparr>vh_codec = CODEC_VMX1, vh_width = 16, vh_height = 32, vh_frame_rate_n = 60, vh_frame_rate_d = 1, vh_aspect_ratio = 0, vh_flags = 0, vh_color_space = 0\<rparr>"

definition demo_config :: config where
  "demo_config = \<lparr>cf_crtc = 1, cf_surfaces = [demo_surface 1, demo_surface 2, demo_surface 3], cf_front = 0, cf_flip_pending = False,
     cf_decoder = small_decoder, cf_yuv = False, cf_plane = 0, cf_plane_fb_prop = 0, cf_scaler = None, cf_format = format_of demo_header,
     cf_progressive_detail = [], cf_interlaced_detail = [], cf_presented = False, cf_skips = 0\<rparr>"

definition demo_output :: video_output where
  "demo_output = \<lparr>vo_cfg = Some demo_config, vo_connector_id = 1, vo_rejected = None, vo_ceiling = [],
     vo_stamps = \<lparr>sp_decode_start = 0, sp_decoded = 0, sp_queued = 0, sp_vblank = 0\<rparr>\<rparr>"

definition demo_frame :: frame where
  "demo_frame = frame_default\<lparr>fr_header := Some \<lparr>fh_frame_type = Video, fh_timestamp = 0, fh_metadata_length = 0, fh_data_length = 43\<rparr>,
     fr_video := Some demo_header, fr_len := 43,
     fr_buffer := [0x56, 0x4d, 0x58, 0x31, 16, 0, 0, 0, 32, 0, 0, 0, 60, 0, 0, 0, 1, 0, 0, 0, 0, 0, 0, 0, 0, 0, 0, 0, 0, 0, 0, 0]
       @ [1, 0, 2, 0, 0, 0, 0, 0, 0, 0, 0]\<rparr>"

lemma demo_config_ok: "config_ok demo_config" "output_ok demo_output"
  using small_decoder_ok small_decoder_fields
  by (auto simp: config_ok_def output_ok_def demo_output_def demo_config_def demo_header_def format_of_def demo_surface_def surface_empty_def surface_fits_def packed_fits_def)

lemma demo_frame_valid: "frame_valid demo_frame"
proof -
  have "read_video_header (payload demo_frame) = demo_header"
    by (simp add: demo_frame_def demo_header_def payload_def read_video_header_def le_i32_def le32_def signed_of_def)
  moreover have "video_header_ok demo_header" by (simp add: demo_header_def video_header_ok_def f32_is_finite_def f32_exponent_def f32_value_def)
  ultimately show ?thesis
    by (simp add: frame_valid_def demo_frame_def frame_default_def frame_header_ok_def extension_size_def payload_limit_def payload_def parse_video_header_iff)
qed

section \<open>Properties\<close>





text \<open>C32. Presenting keeps the output in order. From an output in order, with any driver that keeps its
  contract and any schedule of the decoder's pool, a call returns as soon as the driver answers the waits
  for flips, and never panics. Unless the session failed, the output is in order again: three surfaces
  that suit the decoder, and at most twenty frames skipped in a row. A presented frame leaves a
  configuration of that frame's format that has been shown, a skipped one was preceded by a shown one,
  and a format over the board's ceiling leaves the configuration untouched.\<close>

theorem present_keeps_output:
  assumes "output_ok v" "run_ok env" "drm_ok (pe_drm env)" "frame_valid f" "fr_video f = Some h"
  shows "(present_frame env v f = None \<longrightarrow> wait_for_flip (pe_release_flips env) = None \<or> wait_for_flip (pe_flips env) = None)
    \<and> (\<forall>r v'. present_frame env v f = Some (r, v') \<longrightarrow>
         ((\<forall>m. r \<noteq> Failed m) \<longrightarrow> output_ok v')
         \<and> (r = Presented \<longrightarrow> (\<exists>c. vo_cfg v' = Some c \<and> cf_format c = format_of h \<and> cf_presented c \<and> cf_skips c = 0))
         \<and> (r = Skipped \<longrightarrow> (\<exists>c. vo_cfg v = Some c \<and> cf_format c = format_of h \<and> cf_presented c \<and> cf_skips c < SKIP_BUDGET))
         \<and> (\<not> configured_for v h \<and> over_ceiling v h \<longrightarrow> vo_cfg v' = vo_cfg v))"
proof (intro conjI allI impI)
  note h = frame_valid_video [OF assms(4,5)]

  {
    assume "present_frame env v f = None"
    from present_frame_none [OF this assms(5)] obtain rej where n: "present_new env (v\<lparr>vo_rejected := rej\<rparr>) f h = None" by blast
    have "output_ok (v\<lparr>vo_rejected := rej\<rparr>)" using assms(1) by (simp add: output_ok_def)
    from present_new_returns [OF assms(3) this h n] show "wait_for_flip (pe_release_flips env) = None \<or> wait_for_flip (pe_flips env) = None" .
  }
  fix r v'
  assume q: "present_frame env v f = Some (r, v')"
  note all = present_outcome [OF assms(1-3) h q assms(5)]
  show "\<forall>m. r \<noteq> Failed m \<Longrightarrow> output_ok v'" by (rule mp [OF all [THEN conjunct1]])
  show "r = Presented \<Longrightarrow> \<exists>c. vo_cfg v' = Some c \<and> cf_format c = format_of h \<and> cf_presented c \<and> cf_skips c = 0"
    by (rule mp [OF all [THEN conjunct2, THEN conjunct1]])
  show "r = Skipped \<Longrightarrow> \<exists>c. vo_cfg v = Some c \<and> cf_format c = format_of h \<and> cf_presented c \<and> cf_skips c < SKIP_BUDGET"
    by (rule mp [OF all [THEN conjunct2, THEN conjunct2, THEN conjunct1]])
  show "\<not> configured_for v h \<and> over_ceiling v h \<Longrightarrow> vo_cfg v' = vo_cfg v"
    by (rule mp [OF all [THEN conjunct2, THEN conjunct2, THEN conjunct2]])
qed

theorem present_keeps_output_witness:
  "\<exists>run r v'. present_frame (demo_env run) demo_output demo_frame = Some (r, v') \<and> ((\<forall>m. r \<noteq> Failed m) \<longrightarrow> output_ok v')"
proof -
  obtain run where run: "run_ok (demo_env run)" using demo_env_ok(2) by blast
  have f: "fr_video demo_frame = Some demo_header" by (simp add: demo_frame_def)
  note k = present_keeps_output [OF demo_config_ok(2) run demo_env_ok(1) demo_frame_valid f]
  obtain r v' where q: "present_frame (demo_env run) demo_output demo_frame = Some (r, v')"
    using k [THEN conjunct1] by (cases "present_frame (demo_env run) demo_output demo_frame") (auto simp: demo_env_def)
  then show ?thesis using k [THEN conjunct2, THEN spec, THEN spec, THEN mp, OF q] by blast
qed

end
