(* ===== verification/Audio.thy ===== *)
theory Audio
  imports Channel
begin

text \<open>
  \<^verbatim>\<open>crates/omt-receiver/src/audio.rs\<close>: planar samples to the interleaved ring of the sound device, the
  concealment of lost audio, and the silence that keeps a playing stream alive. A sample is the bit
  pattern of its single-precision value, so silence is \<open>0\<close>. The device answers each \<open>avail_update\<close>
  and each \<open>writei\<close> with one record, which also holds what \<open>recover\<close> and the clock would then say; a call
  is \<open>None\<close> when the answers end first, or when it panics. What the device has taken is a list.
\<close>

section \<open>Thresholds and timestamps\<close>

abbreviation PREFILL_MS :: int where "PREFILL_MS \<equiv> 100"
abbreviation RING_TARGET_MS :: int where "RING_TARGET_MS \<equiv> 160"
abbreviation WRITE_TIMEOUT_MS :: nat where "WRITE_TIMEOUT_MS \<equiv> 1000"
abbreviation CONCEAL_MAX_MS :: int where "CONCEAL_MAX_MS \<equiv> 1000"
abbreviation KEEPALIVE_MS :: int where "KEEPALIVE_MS \<equiv> 60"
abbreviation TICKS_PER_SECOND :: int where "TICKS_PER_SECOND \<equiv> 10000000"
abbreviation EAGAIN :: int where "EAGAIN \<equiv> 11"

definition prefill_frames :: "int \<Rightarrow> int \<Rightarrow> int \<Rightarrow> int" where
  "prefill_frames sample_rate buffer_frames period_frames =
     (let wanted = (if 0 < sample_rate then tdiv (sample_rate * PREFILL_MS) 1000 else 0);
          floor = max period_frames 1;
          ceil = max buffer_frames floor
      in clamp floor ceil wanted)"

definition target_frames :: "int \<Rightarrow> int \<Rightarrow> int \<Rightarrow> int" where
  "target_frames sample_rate buffer_frames start =
     (let wanted = (if 0 < sample_rate then tdiv (sample_rate * RING_TARGET_MS) 1000 else 0)
      in clamp start (max buffer_frames start) wanted)"

definition end_timestamp :: "int \<Rightarrow> int \<Rightarrow> int \<Rightarrow> int option" where
  "end_timestamp timestamp samples rate =
     (if rate \<le> 0 \<or> samples \<le> 0 then None
      else do { product \<leftarrow> checked_i64 (samples * TICKS_PER_SECOND); checked_i64 (timestamp + tdiv product rate) })"

definition missing_frames :: "int \<Rightarrow> int \<Rightarrow> int \<Rightarrow> int \<Rightarrow> int" where
  "missing_frames expected timestamp rate samples =
     (case checked_i64 (timestamp - expected) of
        None \<Rightarrow> 0
      | Some ticks \<Rightarrow>
          if rate \<le> 0 \<or> samples \<le> 0 \<or> ticks \<le> 0 \<or> CONCEAL_MAX_MS * tdiv TICKS_PER_SECOND 1000 < ticks then 0
          else (let frames = tdiv (ticks * rate) TICKS_PER_SECOND in if frames * 4 < samples * 3 then 0 else frames))"

section \<open>Interleaving\<close>

text \<open>One sample of a channel: the output buffer, the position in the body, and the error that ends the call.\<close>

definition interleave_sample :: "u8 list \<Rightarrow> bool \<Rightarrow> nat \<Rightarrow> nat \<Rightarrow> nat \<Rightarrow> nat list \<Rightarrow> nat \<Rightarrow> string + (nat list \<times> nat)" where
  "interleave_sample body on channels channel sample out cursor =
     and_then (if on then ok_or (map_option (\<lambda>bs. (le_val bs, cursor + 4)) (get_range body cursor (cursor + 4))) ''truncated OMT audio frame''
               else Inr (0, cursor)) (\<lambda>(v, cursor).
       if sample * channels + channel < length out then Inr (out[sample * channels + channel := v], cursor)
       else Inl ''OMT audio output buffer is too short'')"

fun interleave_loop :: "u8 list \<Rightarrow> nat \<Rightarrow> nat \<Rightarrow> (nat \<times> nat) list \<Rightarrow> nat list \<Rightarrow> nat \<Rightarrow> nat list \<times> (string + unit)" where
  "interleave_loop body active channels [] out cursor = (out, Inr ())"
| "interleave_loop body active channels ((channel, sample) # rest) out cursor =
     (case interleave_sample body (channel < 32 \<and> bit active channel) channels channel sample out cursor of
        Inl e \<Rightarrow> (out, Inl e)
      | Inr (out', cursor') \<Rightarrow> interleave_loop body active channels rest out' cursor')"

definition interleave :: "u8 list \<Rightarrow> nat \<Rightarrow> nat \<Rightarrow> nat \<Rightarrow> nat list \<Rightarrow> nat list \<times> (string + unit)" where
  "interleave body active samples channels out =
     interleave_loop body active channels (List.product [0..<channels] [0..<samples]) out 0"

section \<open>The output\<close>

record audio_open =
  ao_device :: string
  ao_sample_rate :: int
  ao_channels :: int
  ao_buffer_frames :: nat
  ao_target_frames :: nat
  ao_start_frames :: nat
  ao_period_frames :: nat
  ao_playing :: bool

record audio_output =
  au_open :: "audio_open option"
  au_interleaved :: "nat list"
  au_underruns :: nat
  au_next_timestamp :: "int option"
  au_concealed :: nat
  au_starving :: bool

definition audio_output_new :: audio_output where
  "audio_output_new = \<lparr>au_open = None, au_interleaved = [], au_underruns = 0, au_next_timestamp = None, au_concealed = 0, au_starving = False\<rparr>"

definition audio_playing :: "audio_output \<Rightarrow> bool" where
  "audio_playing a = (case au_open a of None \<Rightarrow> False | Some o' \<Rightarrow> ao_playing o')"

record pcm_answer =
  pa_result :: int
  pa_recover :: int
  pa_first :: nat
  pa_clock :: nat

record pcm =
  pcm_answers :: "pcm_answer list"
  pcm_taken :: "nat list"

text \<open>\<open>avail_update\<close>, and \<open>u64::try_from\<close> of its answer.\<close>

definition avail_update :: "pcm \<Rightarrow> (nat option \<times> pcm) option" where
  "avail_update p =
     (case pcm_answers p of
        [] \<Rightarrow> None
      | a # rest \<Rightarrow> Some (if 0 \<le> pa_result a then Some (nat (pa_result a)) else None, p\<lparr>pcm_answers := rest\<rparr>))"

text \<open>What the sound library answers when the device is opened and configured.\<close>

record alsa =
  al_open :: "string \<Rightarrow> int + unit"
  al_hw :: "nat \<Rightarrow> nat \<Rightarrow> (string \<times> int) + (nat \<times> nat)"
  al_sw :: "nat \<Rightarrow> nat \<Rightarrow> nat \<Rightarrow> (string \<times> int) + unit"
  al_strerror :: "int \<Rightarrow> string"

definition alsa_error :: "alsa \<Rightarrow> string \<Rightarrow> string \<Rightarrow> int \<Rightarrow> string" where
  "alsa_error al what func code = what @ '': ALSA function '' @ [CHR 0x27] @ func @ [CHR 0x27] @ '' failed with error '' @ [CHR 0x27] @ al_strerror al code @ [CHR 0x27]"

text \<open>The stall of a write: when it began, or the error once a second has passed without progress.\<close>

definition stall :: "nat option \<Rightarrow> pcm_answer \<Rightarrow> string + nat" where
  "stall since a =
     (let start = (case since of Some s \<Rightarrow> s | None \<Rightarrow> pa_first a)
      in if WRITE_TIMEOUT_MS < pa_clock a - start then Inl ''Audio device remained unavailable for one second'' else Inr start)"

text \<open>The loop of \<open>play\<close>: the outcome, whether a recovery happened, whether the device is playing, and the
  device.\<close>

fun play_loop :: "alsa \<Rightarrow> nat list \<Rightarrow> nat \<Rightarrow> nat \<Rightarrow> nat \<Rightarrow> nat option \<Rightarrow> bool \<Rightarrow> bool \<Rightarrow> pcm_answer list \<Rightarrow> nat list
    \<Rightarrow> ((string + unit) \<times> bool \<times> bool \<times> pcm) option" where
  "play_loop al data channels samples offset since recovered playing answers taken =
     (if samples \<le> offset then Some (Inr (), recovered, playing, \<lparr>pcm_answers = answers, pcm_taken = taken\<rparr>)
      else
        (case answers of
           [] \<Rightarrow> None
         | a # rest \<Rightarrow>
             (let written = pa_result a
              in if 0 < written then
                   play_loop al data channels samples (offset + nat written) None recovered playing rest
                     (taken @ take (nat written * channels) (slice data (offset * channels) (samples * channels)))
                 else if written = 0 \<or> written = - EAGAIN then
                   (case stall since a of
                      Inl e \<Rightarrow> Some (Inl e, recovered, playing, \<lparr>pcm_answers = rest, pcm_taken = taken\<rparr>)
                    | Inr start \<Rightarrow> play_loop al data channels samples offset (Some start) recovered playing rest taken)
                 else if pa_recover a < 0 then
                   Some (Inl (''Unable to write audio: ALSA function '' @ [CHR 0x27] @ ''snd_pcm_recover'' @ [CHR 0x27] @ '' failed with error ''
                     @ [CHR 0x27] @ al_strerror al (pa_recover a) @ [CHR 0x27]), recovered, playing, \<lparr>pcm_answers = rest, pcm_taken = taken\<rparr>)
                 else
                   (case stall since a of
                      Inl e \<Rightarrow> Some (Inl e, True, False, \<lparr>pcm_answers = rest, pcm_taken = taken\<rparr>)
                    | Inr start \<Rightarrow> play_loop al data channels samples offset (Some start) True False rest taken))))"

declare play_loop.simps [simp del]

definition play :: "alsa \<Rightarrow> nat \<Rightarrow> nat \<Rightarrow> nat \<Rightarrow> audio_output \<Rightarrow> pcm \<Rightarrow> ((string + unit) \<times> audio_output \<times> pcm) option" where
  "play al from samples channels a p =
     (case au_open a of
        None \<Rightarrow> Some (Inl ''audio device is not open'', a, p)
      | Some o' \<Rightarrow>
          if from < samples \<and> length (au_interleaved a) < samples * channels then None
          else
            do { (r, recovered, playing, p) \<leftarrow>
                   play_loop al (au_interleaved a) channels samples from None False (ao_playing o') (pcm_answers p) (pcm_taken p);
                 case r of
                   Inl e \<Rightarrow> Some (Inl e, a\<lparr>au_open := Some (o'\<lparr>ao_playing := playing\<rparr>)\<rparr>, p)
                 | Inr _ \<Rightarrow>
                     do { (playing, p) \<leftarrow>
                            (if playing then Some (True, p)
                             else do { (avail, p) \<leftarrow> avail_update p;
                                       Some (case avail of None \<Rightarrow> False | Some v \<Rightarrow> ao_start_frames o' \<le> ao_buffer_frames o' - v, p) });
                          Some (Inr (), a\<lparr>au_open := Some (o'\<lparr>ao_playing := playing\<rparr>),
                            au_underruns := (if recovered then saturating_add U64_MAX (au_underruns a) 1 else au_underruns a)\<rparr>, p) } })"

definition forget_timeline :: "audio_output \<Rightarrow> audio_output" where
  "forget_timeline a = a\<lparr>au_next_timestamp := None\<rparr>"

definition queued_frames :: "audio_output \<Rightarrow> pcm \<Rightarrow> (nat option \<times> pcm) option" where
  "queued_frames a p =
     (case au_open a of
        None \<Rightarrow> Some (None, p)
      | Some o' \<Rightarrow> do { (avail, p) \<leftarrow> avail_update p; Some (map_option (\<lambda>v. ao_buffer_frames o' - v) avail, p) })"

definition room :: "audio_output \<Rightarrow> pcm \<Rightarrow> (bool \<times> pcm) option" where
  "room a p =
     (case au_open a of
        None \<Rightarrow> Some (True, p)
      | Some o' \<Rightarrow>
          do { (avail, p) \<leftarrow> avail_update p;
               Some (case avail of None \<Rightarrow> True | Some v \<Rightarrow> ao_buffer_frames o' - v < ao_target_frames o', p) })"

text \<open>\<open>i64::try_from(v).unwrap_or(i64::MAX)\<close>.\<close>

definition i64_of :: "nat \<Rightarrow> int" where
  [std_defs]: "i64_of v = (if int v \<le> I64_MAX then int v else I64_MAX)"

definition audio_configure :: "alsa \<Rightarrow> string \<Rightarrow> int \<Rightarrow> int \<Rightarrow> audio_output \<Rightarrow> (string + unit) \<times> audio_output" where
  "audio_configure al device rate channels a =
     (let a = a\<lparr>au_open := None, au_next_timestamp := None\<rparr>
      in case al_open al device of
           Inl rc \<Rightarrow> (Inl (alsa_error al ''Unable to open audio device'' ''snd_pcm_open'' rc), a)
         | Inr _ \<Rightarrow>
             (case al_hw al (nat \<bar>channels\<bar>) (nat \<bar>rate\<bar>) of
                Inl (step, rc) \<Rightarrow> (Inl (alsa_error al ''Unable to configure audio device'' step rc), a)
              | Inr (buffer, period) \<Rightarrow>
                  (let start = prefill_frames rate (i64_of buffer) (i64_of period)
                   in case al_sw al period (nat \<bar>start\<bar>) buffer of
                        Inl (step, rc) \<Rightarrow> (Inl (alsa_error al ''Unable to configure audio timing'' step rc), a)
                      | Inr _ \<Rightarrow>
                          (Inr (), a\<lparr>au_open := Some \<lparr>ao_device = device, ao_sample_rate = rate, ao_channels = channels, ao_buffer_frames = buffer,
                             ao_target_frames = nat \<bar>target_frames rate (i64_of buffer) start\<bar>, ao_start_frames = nat \<bar>start\<bar>,
                             ao_period_frames = period, ao_playing = False\<rparr>, au_starving := False\<rparr>))))"

text \<open>Growing the scratch buffer; \<open>alloc\<close> is the allocator's answer.\<close>

definition grow_scratch :: "bool \<Rightarrow> nat \<Rightarrow> audio_output \<Rightarrow> string + audio_output" where
  "grow_scratch alloc required a =
     (if length (au_interleaved a) < required then
        (if \<not> alloc then Inl ''Unable to allocate bounded audio buffer''
         else Inr (a\<lparr>au_interleaved := au_interleaved a @ replicate (required - length (au_interleaved a)) 0\<rparr>))
      else Inr a)"

definition silence_scratch :: "nat \<Rightarrow> audio_output \<Rightarrow> audio_output" where
  "silence_scratch required a = a\<lparr>au_interleaved := replicate required 0 @ drop required (au_interleaved a)\<rparr>"

definition silence_frames :: "int option \<Rightarrow> int \<Rightarrow> nat \<Rightarrow> audio_output \<Rightarrow> pcm \<Rightarrow> (nat \<times> pcm) option" where
  "silence_frames timestamp rate samples a p =
     (case (au_next_timestamp a, timestamp, au_open a) of
        (Some expected, Some timestamp, Some _) \<Rightarrow>
          do { (avail, p) \<leftarrow> avail_update p;
               Some (case avail of
                       None \<Rightarrow> 0
                     | Some free \<Rightarrow>
                         (let wanted = missing_frames expected timestamp rate (i64_of samples)
                          in min (if 0 \<le> wanted then nat wanted else 0) (free - samples)), p) }
      | _ \<Rightarrow> Some (0, p))"

text \<open>The loop that plays the silence, at most a frame's worth at a time. With frames of no samples it
  would never end, which is \<open>None\<close>.\<close>

function play_silence :: "alsa \<Rightarrow> nat \<Rightarrow> nat \<Rightarrow> nat \<Rightarrow> audio_output \<Rightarrow> pcm \<Rightarrow> ((string + unit) \<times> audio_output \<times> pcm) option" where
  "play_silence al silence samples channels a p =
     (if silence = 0 then Some (Inr (), a, p)
      else if samples = 0 then None
      else
        do { (r, a, p) \<leftarrow> play al 0 (min silence samples) channels a p;
             case r of
               Inl e \<Rightarrow> Some (Inl e, a, p)
             | Inr _ \<Rightarrow> play_silence al (silence - min silence samples) samples channels a p })"
  by pat_completeness auto
termination
  by (relation "measure (\<lambda>(al, silence, samples, channels, a, p). silence)") auto

declare play_silence.simps [simp del]

text \<open>The frame itself, once the device suits it.\<close>

definition write_frame :: "alsa \<Rightarrow> frame \<Rightarrow> audio_header \<Rightarrow> audio_output \<Rightarrow> pcm \<Rightarrow> ((string + unit) \<times> audio_output \<times> pcm) option" where
  "write_frame al f h a p =
     (let channels = nat \<bar>ah_channels h\<bar>; samples = nat \<bar>ah_samples_per_channel h\<bar>; required = samples * channels
      in case media f AUDIO_HEADER_SIZE of
           None \<Rightarrow> Some (Inl ''truncated OMT audio frame'', a, p)
         | Some body \<Rightarrow>
             (let timestamp = map_option fh_timestamp (fr_header f)
              in do { (silence, p) \<leftarrow> silence_frames timestamp (ah_sample_rate h) samples a p;
                      (r, a, p) \<leftarrow>
                        (if 0 < silence then
                           play_silence al silence samples channels
                             ((silence_scratch required a)\<lparr>au_concealed := saturating_add U64_MAX (au_concealed a) silence\<rparr>) p
                         else Some (Inr (), a, p));
                      case r of
                        Inl e \<Rightarrow> Some (Inl e, a, p)
                      | Inr _ \<Rightarrow>
                          (case interleave body (ah_active_channels h) samples channels (au_interleaved a) of
                             (out, Inl e) \<Rightarrow> Some (Inl e, a\<lparr>au_interleaved := out\<rparr>, p)
                           | (out, Inr _) \<Rightarrow>
                               do { (r, a, p) \<leftarrow> play al 0 samples channels (a\<lparr>au_interleaved := out, au_starving := False\<rparr>) p;
                                    case r of
                                      Inl e \<Rightarrow> Some (Inl e, a, p)
                                    | Inr _ \<Rightarrow>
                                        Some (Inr (), a\<lparr>au_next_timestamp :=
                                          Option.bind timestamp (\<lambda>t. end_timestamp t (i64_of samples) (ah_sample_rate h))\<rparr>, p) }) }))"

definition audio_current :: "string \<Rightarrow> audio_header \<Rightarrow> audio_output \<Rightarrow> bool" where
  "audio_current device h a =
     (case au_open a of
        None \<Rightarrow> False
      | Some o' \<Rightarrow> ao_sample_rate o' = ah_sample_rate h \<and> ao_channels o' = ah_channels h \<and> ao_device o' = device)"

definition audio_write :: "alsa \<Rightarrow> bool \<Rightarrow> frame \<Rightarrow> string \<Rightarrow> audio_output \<Rightarrow> pcm \<Rightarrow> ((string + unit) \<times> audio_output \<times> pcm) option" where
  "audio_write al alloc f device a p =
     (case fr_audio f of
        None \<Rightarrow> Some (Inl ''not an OMT audio frame'', a, p)
      | Some h \<Rightarrow>
          (case (if audio_current device h a then (Inr (), a) else audio_configure al device (ah_sample_rate h) (ah_channels h) a) of
             (Inl e, a) \<Rightarrow> Some (Inl e, a, p)
           | (Inr _, a) \<Rightarrow>
               (case grow_scratch alloc (nat \<bar>ah_samples_per_channel h\<bar> * nat \<bar>ah_channels h\<bar>) a of
                  Inl e \<Rightarrow> Some (Inl e, a, p)
                | Inr a \<Rightarrow> write_frame al f h a p)))"

definition keep_alive :: "alsa \<Rightarrow> bool \<Rightarrow> audio_output \<Rightarrow> pcm \<Rightarrow> ((string + unit) \<times> audio_output \<times> pcm) option" where
  "keep_alive al alloc a p =
     (case au_open a of
        None \<Rightarrow> Some (Inr (), a, p)
      | Some o' \<Rightarrow>
          if \<not> ao_playing o' then Some (Inr (), a, p)
          else
            do { (avail, p) \<leftarrow> avail_update p;
                 case avail of
                   None \<Rightarrow> Some (Inr (), a, p)
                 | Some v \<Rightarrow>
                     (let used = ao_buffer_frames o' - v; low = nat (tdiv (ao_sample_rate o' * KEEPALIVE_MS) 1000)
                      in if low \<le> used then Some (Inr (), a, p)
                         else
                           (let channels = nat \<bar>ao_channels o'\<bar>; frames = max (ao_period_frames o') 1; required = frames * channels
                            in case grow_scratch alloc required a of
                                 Inl e \<Rightarrow> Some (Inl e, a, p)
                               | Inr a \<Rightarrow>
                                   (let a = silence_scratch required a;
                                        a = (if au_starving a then a
                                             else a\<lparr>au_starving := True, au_underruns := saturating_add U64_MAX (au_underruns a) 1\<rparr>)
                                    in play al 0 frames channels a p))) })"

section \<open>Interleaving is exact\<close>

text \<open>Where the samples of a channel are: the active channels before it come first, each with all its
  samples.\<close>

definition active_on :: "nat \<Rightarrow> nat \<Rightarrow> bool" where
  "active_on active c \<longleftrightarrow> c < 32 \<and> bit active c"

definition channel_rank :: "nat \<Rightarrow> nat \<Rightarrow> nat" where
  "channel_rank active c = length (filter (active_on active) [0..<c])"

definition planar_sample :: "u8 list \<Rightarrow> nat \<Rightarrow> nat \<Rightarrow> nat \<Rightarrow> nat \<Rightarrow> nat" where
  "planar_sample body active samples c s =
     (if active_on active c then le_val (slice body (4 * (channel_rank active c * samples + s)) (4 * (channel_rank active c * samples + s) + 4)) else 0)"

definition interleaved :: "u8 list \<Rightarrow> nat \<Rightarrow> nat \<Rightarrow> nat \<Rightarrow> nat list" where
  "interleaved body active samples channels =
     map (\<lambda>i. planar_sample body active samples (i mod channels) (i div channels)) [0..<samples * channels]"

lemma channel_rank_Suc: "channel_rank active (Suc c) = channel_rank active c + (if active_on active c then 1 else 0)"
  by (simp add: channel_rank_def)

lemma channel_rank_mono: "c \<le> d \<Longrightarrow> channel_rank active c \<le> channel_rank active d"
  by (induction rule: dec_induct) (auto simp: channel_rank_Suc)

text \<open>One channel's samples.\<close>

lemma interleave_channel:
  assumes "c < channels" "n * channels \<le> length out" "active_on active c \<Longrightarrow> 4 * (base + n) \<le> length body" "k \<le> n"
  shows "\<exists>out'. interleave_loop body active channels (map (Pair c) [k..<n] @ rest) out (if active_on active c then 4 * (base + k) else cursor)
      = interleave_loop body active channels rest out' (if active_on active c then 4 * (base + n) else cursor)
    \<and> length out' = length out
    \<and> (\<forall>i. out' ! i = (if k \<le> i div channels \<and> i div channels < n \<and> i mod channels = c
          then (if active_on active c then le_val (slice body (4 * (base + i div channels)) (4 * (base + i div channels) + 4)) else 0)
          else out ! i))"
  using assms(4,2)
proof (induction "n - k" arbitrary: k out)
  case 0
  then show ?case by auto
next
  case (Suc m)
  have k: "k < n" using Suc.hyps(2) by simp
  let ?v = "if active_on active c then le_val (slice body (4 * (base + k)) (4 * (base + k) + 4)) else 0"
  let ?out = "out[k * channels + c := ?v]"
  have "Suc k * channels \<le> n * channels" using k by (intro mult_le_mono1) simp
  then have idx: "k * channels + c < length out" using assms(1) Suc.prems(2) by simp
  have at: "i div channels = k \<and> i mod channels = c \<longleftrightarrow> i = k * channels + c" for i
    using assms(1) div_mult_mod_eq [of i channels] by auto
  have fits: "4 * (base + k) + 4 \<le> length body" if "active_on active c" using assms(3) [OF that] k by simp
  have step: "interleave_loop body active channels (map (Pair c) [k..<n] @ rest) out (if active_on active c then 4 * (base + k) else cursor)
      = interleave_loop body active channels (map (Pair c) [Suc k..<n] @ rest) ?out (if active_on active c then 4 * (base + Suc k) else cursor)"
    using k idx fits by (auto simp: upt_conv_Cons interleave_sample_def get_range_def active_on_def add.commute add.left_commute)
  have m1: "m = n - Suc k" and l1: "n * channels \<le> length ?out" using Suc.hyps(2) Suc.prems(2) by auto
  obtain out' where o: "interleave_loop body active channels (map (Pair c) [Suc k..<n] @ rest) ?out (if active_on active c then 4 * (base + Suc k) else cursor)
      = interleave_loop body active channels rest out' (if active_on active c then 4 * (base + n) else cursor)" "length out' = length ?out"
    "\<forall>i. out' ! i = (if Suc k \<le> i div channels \<and> i div channels < n \<and> i mod channels = c
          then (if active_on active c then le_val (slice body (4 * (base + i div channels)) (4 * (base + i div channels) + 4)) else 0) else ?out ! i)"
    using Suc.hyps(1) [OF m1 _ l1] k by (auto simp: Suc_le_eq)
  have "out' ! i = (if k \<le> i div channels \<and> i div channels < n \<and> i mod channels = c
          then (if active_on active c then le_val (slice body (4 * (base + i div channels)) (4 * (base + i div channels) + 4)) else 0) else out ! i)" for i
  proof (cases "i = k * channels + c")
    case True
    then show ?thesis using o(3) at [of i] k idx by auto
  next
    case False
    then show ?thesis using o(3) at [of i] by (auto simp: Suc_le_eq order_less_le)
  qed
  then show ?case using o(1,2) step by (intro exI [of _ out']) auto
qed

text \<open>All the channels from \<open>c\<close> on.\<close>

lemma interleave_channels:
  assumes "samples * channels \<le> length out" "4 * (channel_rank active channels * samples) \<le> length body" "c \<le> channels"
  shows "\<exists>out'. interleave_loop body active channels (List.product [c..<channels] [0..<samples]) out (4 * (channel_rank active c * samples)) = (out', Inr ())
    \<and> length out' = length out
    \<and> (\<forall>i. out' ! i = (if c \<le> i mod channels \<and> i < samples * channels then planar_sample body active samples (i mod channels) (i div channels) else out ! i))"
  using assms(3,1)
proof (induction "channels - c" arbitrary: c out)
  case 0
  have "\<not> (c \<le> i mod channels \<and> i < samples * channels)" for i
    using 0 mod_less_divisor [of channels i] by (cases "channels = 0") (auto simp: not_le)
  then show ?case using 0 by (intro exI [of _ out]) auto
next
  case (Suc m)
  have c: "c < channels" using Suc.hyps(2) by simp
  let ?base = "channel_rank active c * samples" and ?rest = "List.product [Suc c..<channels] [0..<samples]"
  have split: "List.product [c..<channels] [0..<samples] = map (Pair c) [0..<samples] @ ?rest" using c by (simp add: upt_conv_Cons)
  have body: "4 * (?base + samples) \<le> length body" if "active_on active c"
  proof -
    have "(channel_rank active c + 1) * samples \<le> channel_rank active channels * samples"
      using channel_rank_mono [of "Suc c" channels active] c that by (intro mult_le_mono1) (simp add: channel_rank_Suc)
    then show ?thesis using assms(2) by simp
  qed
  have cur: "(if active_on active c then 4 * (?base + 0) else 4 * ?base) = 4 * ?base" by simp
  obtain out1 where o1: "interleave_loop body active channels (map (Pair c) [0..<samples] @ ?rest) out (4 * ?base)
      = interleave_loop body active channels ?rest out1 (if active_on active c then 4 * (?base + samples) else 4 * ?base)" "length out1 = length out"
    "\<forall>i. out1 ! i = (if i div channels < samples \<and> i mod channels = c
          then (if active_on active c then le_val (slice body (4 * (?base + i div channels)) (4 * (?base + i div channels) + 4)) else 0) else out ! i)"
    using interleave_channel [of c channels samples out active ?base body 0 ?rest "4 * ?base", OF c Suc.prems(2) body] unfolding cur by auto
  have next_cur: "(if active_on active c then 4 * (?base + samples) else 4 * ?base) = 4 * (channel_rank active (Suc c) * samples)"
    by (simp add: channel_rank_Suc)
  have m1: "m = channels - Suc c" and l1: "samples * channels \<le> length out1" using Suc.hyps(2) Suc.prems(2) o1(2) by auto
  obtain out' where o: "interleave_loop body active channels ?rest out1 (4 * (channel_rank active (Suc c) * samples)) = (out', Inr ())" "length out' = length out1"
    "\<forall>i. out' ! i = (if Suc c \<le> i mod channels \<and> i < samples * channels then planar_sample body active samples (i mod channels) (i div channels) else out1 ! i)"
    using Suc.hyps(1) [OF m1 Suc_leI [OF c] l1] by blast
  have lt: "i div channels < samples \<longleftrightarrow> i < samples * channels" for i
    using c by (simp add: less_mult_imp_div_less div_less_iff_less_mult)
  have "out' ! i = (if c \<le> i mod channels \<and> i < samples * channels then planar_sample body active samples (i mod channels) (i div channels) else out ! i)" for i
    using o(3) o1(3) lt [of i] by (auto simp: planar_sample_def Suc_le_eq order_less_le)
  then show ?case using o(1,2) o1(1,2) split next_cur by (intro exI [of _ out']) simp
qed

lemma interleave_eq:
  assumes "samples * channels \<le> length out" "4 * (channel_rank active channels * samples) \<le> length body" "0 < channels"
  shows "interleave body active samples channels out = (interleaved body active samples channels @ drop (samples * channels) out, Inr ())"
proof -
  obtain out' where o: "interleave body active samples channels out = (out', Inr ())" "length out' = length out"
    "\<forall>i. out' ! i = (if i < samples * channels then planar_sample body active samples (i mod channels) (i div channels) else out ! i)"
    using interleave_channels [OF assms(1,2), of 0] by (auto simp: interleave_def channel_rank_def)
  have "out' = interleaved body active samples channels @ drop (samples * channels) out"
    using o(2,3) assms(1) by (intro nth_equalityI) (auto simp: interleaved_def nth_append)
  then show ?thesis using o(1) by simp
qed

lemma length_interleaved [simp]: "length (interleaved body active samples channels) = samples * channels"
  by (simp add: interleaved_def)

lemma count_ones_rank:
  assumes "active < 2 ^ channels" "channels \<le> 32"
  shows "channel_rank active channels = count_ones active"
proof -
  have off: "\<not> bit active i" if "channels \<le> i" for i
  proof -
    have "active < 2 ^ i" using assms(1) that power_increasing [of channels i "2 :: nat"] by linarith
    then show ?thesis by (simp add: bit_nat_def)
  qed
  have "filter (active_on active) [0..<channels] = filter (bit active) [0..<channels]"
    using assms(2) by (intro filter_cong) (auto simp: active_on_def)
  moreover have "filter (bit active) [channels..<32] = []" using off by (auto simp: filter_empty_conv)
  moreover have "[0..<32] = [0..<channels] @ [channels..<32]" using assms(2) by (metis le0 upt_add_eq_append le_add_diff_inverse)
  ultimately show ?thesis by (simp add: channel_rank_def count_ones_def)
qed

section \<open>What the device takes\<close>

lemma slice_take_step:
  "take (w * ch) (slice data (off * ch) (n * ch)) @ slice data ((off + w) * ch) (n * ch) = slice data (off * ch) (n * ch)"
proof -
  have "slice data ((off + w) * ch) (n * ch) = drop (w * ch) (slice data (off * ch) (n * ch))"
    by (simp add: drop_take distrib_right diff_diff_left add.commute)
  then show ?thesis by (simp only: append_take_drop_id)
qed

lemma play_loop_taken:
  assumes "play_loop al data ch n off since recovered playing answers taken = Some (r, recovered', playing', p)"
  shows "prefix taken (pcm_taken p) \<and> prefix (pcm_taken p) (taken @ slice data (off * ch) (n * ch))
    \<and> (r = Inr () \<longrightarrow> pcm_taken p = taken @ slice data (off * ch) (n * ch))"
  using assms
proof (induction al data ch n off since recovered playing answers taken rule: play_loop.induct)
  case (1 al data ch n off since recovered playing answers taken)
  show ?case
  proof (cases "n \<le> off")
    case True
    then have "p = \<lparr>pcm_answers = answers, pcm_taken = taken\<rparr>" "n * ch - off * ch = 0" using "1.prems" by (simp_all add: play_loop.simps [of al data ch n off] Let_def)
    then show ?thesis by simp
  next
    case False
    then obtain a rest where ar: "answers = a # rest" using "1.prems" by (cases answers) (simp_all add: play_loop.simps [of al data ch n off] Let_def)
    show ?thesis
    proof (cases "0 < pa_result a")
      case True
      let ?t = "taken @ take (nat (pa_result a) * ch) (slice data (off * ch) (n * ch))"
      have rec: "play_loop al data ch n (off + nat (pa_result a)) None recovered playing rest ?t = Some (r, recovered', playing', p)"
        using "1.prems" False ar True by (simp add: play_loop.simps [of al data ch n off] Let_def)
      have join: "?t @ slice data ((off + nat (pa_result a)) * ch) (n * ch) = taken @ slice data (off * ch) (n * ch)"
        using slice_take_step [where w = "nat (pa_result a)" and ch = ch and data = data and off = off and n = n] by (simp only: append_assoc)
      have "prefix ?t (pcm_taken p) \<and> prefix (pcm_taken p) (?t @ slice data ((off + nat (pa_result a)) * ch) (n * ch))
          \<and> (r = Inr () \<longrightarrow> pcm_taken p = ?t @ slice data ((off + nat (pa_result a)) * ch) (n * ch))"
        by (rule "1.IH"(1) [OF False ar refl True rec])
      then show ?thesis unfolding join by (metis append_prefixD)
    next
      case np: False
      show ?thesis
      proof (cases "pa_result a = 0 \<or> pa_result a = - EAGAIN")
        case True
        show ?thesis
        proof (cases "stall since a")
          case (Inl e)
          then show ?thesis using "1.prems" False ar np True by (auto simp: play_loop.simps [of al data ch n off] Let_def)
        next
          case (Inr start)
          then have "play_loop al data ch n off (Some start) recovered playing rest taken = Some (r, recovered', playing', p)"
            using "1.prems" False ar np True by (auto simp: play_loop.simps [of al data ch n off] Let_def)
          then show ?thesis by (rule "1.IH"(2) [OF False ar refl np True Inr])
        qed
      next
        case nz: False
        show ?thesis
        proof (cases "pa_recover a < 0")
          case True
          then show ?thesis using "1.prems" False ar np nz by (auto simp: play_loop.simps [of al data ch n off] Let_def)
        next
          case nr: False
          show ?thesis
          proof (cases "stall since a")
            case (Inl e)
            then show ?thesis using "1.prems" False ar np nz nr by (auto simp: play_loop.simps [of al data ch n off] Let_def)
          next
            case (Inr start)
            then have "play_loop al data ch n off (Some start) True False rest taken = Some (r, recovered', playing', p)"
              using "1.prems" False ar np nz nr by (auto simp: play_loop.simps [of al data ch n off] Let_def)
            then show ?thesis by (rule "1.IH"(3) [OF False ar refl np nz nr Inr])
          qed
        qed
      qed
    qed
  qed
qed

text \<open>What a call may change of the output: not the scratch buffer nor the timeline, nor of the device
  anything but whether it plays.\<close>

definition same_device :: "audio_output \<Rightarrow> audio_output \<Rightarrow> bool" where
  "same_device a a' \<longleftrightarrow>
     map_option (\<lambda>o'. o'\<lparr>ao_playing := False\<rparr>) (au_open a') = map_option (\<lambda>o'. o'\<lparr>ao_playing := False\<rparr>) (au_open a)
     \<and> au_interleaved a' = au_interleaved a \<and> au_next_timestamp a' = au_next_timestamp a \<and> au_concealed a' = au_concealed a"

lemma avail_update_taken: "avail_update p = Some (v, p') \<Longrightarrow> pcm_taken p' = pcm_taken p"
  by (auto simp: avail_update_def split: list.splits)

lemma play_taken:
  assumes "play al 0 n ch a p = Some (r, a', p')"
  shows "prefix (pcm_taken p) (pcm_taken p')" "prefix (pcm_taken p') (pcm_taken p @ take (n * ch) (au_interleaved a))"
    "r = Inr () \<Longrightarrow> pcm_taken p' = pcm_taken p @ take (n * ch) (au_interleaved a)" "same_device a a'"
proof -
  have "prefix (pcm_taken p) (pcm_taken p') \<and> prefix (pcm_taken p') (pcm_taken p @ take (n * ch) (au_interleaved a))
    \<and> (r = Inr () \<longrightarrow> pcm_taken p' = pcm_taken p @ take (n * ch) (au_interleaved a)) \<and> same_device a a'"
  proof (cases "au_open a")
    case None
    then show ?thesis using assms by (auto simp: play_def same_device_def)
  next
    case (Some o')
    then obtain r1 rec pl p1 where l: "play_loop al (au_interleaved a) ch n 0 None False (ao_playing o') (pcm_answers p) (pcm_taken p) = Some (r1, rec, pl, p1)"
      using assms by (auto simp: play_def bind_eq_Some_conv split: if_splits)
    note t = play_loop_taken [OF l]
    have nb: "\<not> (0 < n \<and> length (au_interleaved a) < n * ch)" using assms Some by (auto simp: play_def)
    show ?thesis
    proof (cases r1)
      case (Inl e)
      then show ?thesis using assms Some l nb t by (auto simp: play_def same_device_def)
    next
      case (Inr u)
      have "pcm_taken p' = pcm_taken p1 \<and> r = Inr () \<and> same_device a a'"
        using assms Some l nb Inr by (auto simp: play_def same_device_def bind_eq_Some_conv avail_update_taken split: if_splits)
      then show ?thesis using t Inr by auto
    qed
  qed
  then show "prefix (pcm_taken p) (pcm_taken p')" "prefix (pcm_taken p') (pcm_taken p @ take (n * ch) (au_interleaved a))"
    "r = Inr () \<Longrightarrow> pcm_taken p' = pcm_taken p @ take (n * ch) (au_interleaved a)" "same_device a a'" by auto
qed

lemma same_device_refl: "same_device a a"
  by (simp add: same_device_def)

lemma same_device_trans: "same_device a b \<Longrightarrow> same_device b c \<Longrightarrow> same_device a c"
  by (simp add: same_device_def)

lemma play_silence_taken:
  assumes "play_silence al k n ch a p = Some (r, a', p')" "take (n * ch) (au_interleaved a) = replicate (n * ch) 0"
  shows "prefix (pcm_taken p) (pcm_taken p') \<and> prefix (pcm_taken p') (pcm_taken p @ replicate (k * ch) 0)
    \<and> (r = Inr () \<longrightarrow> pcm_taken p' = pcm_taken p @ replicate (k * ch) 0) \<and> same_device a a'"
  using assms
proof (induction al k n ch a p rule: play_silence.induct)
  case (1 al k n ch a p)
  show ?case
  proof (cases "k = 0")
    case True
    then show ?thesis using "1.prems"(1) by (auto simp: play_silence.simps [of al 0 n] same_device_refl)
  next
    case False
    then have n: "n \<noteq> 0" using "1.prems"(1) by (auto simp: play_silence.simps [of al k n] split: if_splits)
    let ?m = "min k n"
    obtain r1 a1 p1 where q: "play al 0 ?m ch a p = Some (r1, a1, p1)"
      using "1.prems"(1) False n by (auto simp: play_silence.simps [of al k n] bind_eq_Some_conv)
    have "take (?m * ch) (au_interleaved a) = take (?m * ch) (take (n * ch) (au_interleaved a))" by (simp add: min_absorb1)
    also have "\<dots> = replicate (?m * ch) 0" unfolding "1.prems"(2) by (simp add: min_absorb1)
    finally have z: "take (?m * ch) (au_interleaved a) = replicate (?m * ch) 0" .
    note t = play_taken [OF q, unfolded z]
    have split: "replicate (k * ch) (0 :: nat) = replicate (?m * ch) 0 @ replicate ((k - ?m) * ch) 0"
      by (simp add: replicate_add [symmetric] diff_mult_distrib)
    show ?thesis
    proof (cases r1)
      case (Inl e)
      then have "r = Inl e" "a' = a1" "p' = p1" using "1.prems"(1) False n q by (auto simp: play_silence.simps [of al k n])
      then show ?thesis using t(1,2,4) split by (auto intro: prefix_order.trans)
    next
      case (Inr u)
      then have rec: "play_silence al (k - ?m) n ch a1 p1 = Some (r, a', p')" using "1.prems"(1) False n q by (simp add: play_silence.simps [of al k n])
      have z1: "take (n * ch) (au_interleaved a1) = replicate (n * ch) 0" using t(4) "1.prems"(2) by (simp add: same_device_def)
      have "pcm_taken p1 = pcm_taken p @ replicate (?m * ch) 0" using t(3) Inr by simp
      then show ?thesis using "1.IH" [OF False n q refl refl Inr rec z1] t(1,4) split
        by (auto intro: prefix_order.trans same_device_trans dest: append_prefixD)
    qed
  qed
qed

lemma missing_frames_bounds:
  assumes "0 < rate"
  shows "0 \<le> missing_frames e t rate n" "missing_frames e t rate n \<le> rate" "missing_frames e t rate n \<noteq> 0 \<Longrightarrow> 3 * n \<le> 4 * missing_frames e t rate n"
proof -
  have "x * rate div 10000000 \<le> rate" if "x \<le> 10000000" for x :: int
    using that assms zdiv_mono1 [of "x * rate" "10000000 * rate" 10000000] by (simp add: mult_right_mono)
  then show "0 \<le> missing_frames e t rate n" "missing_frames e t rate n \<le> rate" "missing_frames e t rate n \<noteq> 0 \<Longrightarrow> 3 * n \<le> 4 * missing_frames e t rate n"
    using assms by (auto simp: missing_frames_def Let_def pos_imp_zdiv_nonneg_iff split: option.splits)
qed

section \<open>A frame is played exactly\<close>

definition frame_samples :: "frame \<Rightarrow> audio_header \<Rightarrow> nat list" where
  "frame_samples f h =
     interleaved (the (media f AUDIO_HEADER_SIZE)) (ah_active_channels h) (nat (ah_samples_per_channel h)) (nat (ah_channels h))"

definition silence_owed :: "frame \<Rightarrow> audio_header \<Rightarrow> audio_output \<Rightarrow> nat \<Rightarrow> bool" where
  "silence_owed f h a silence \<longleftrightarrow>
     silence = 0 \<or> (\<exists>expected fh. au_next_timestamp a = Some expected \<and> fr_header f = Some fh
       \<and> int silence \<le> missing_frames expected (fh_timestamp fh) (ah_sample_rate h) (ah_samples_per_channel h))"

lemma frame_valid_audio:
  assumes "frame_valid f" "fr_audio f = Some h"
  obtains fh m where "fr_header f = Some fh" "audio_header_ok fh h" "media f AUDIO_HEADER_SIZE = Some m"
    "length m = count_ones (ah_active_channels h) * nat (ah_samples_per_channel h) * 4"
proof -
  obtain fh where fh: "fr_header f = Some fh" using assms(1) by (auto simp: frame_valid_def split: option.splits)
  have ok: "fh_frame_type fh = Audio" "audio_header_ok fh h" "fr_len f = fh_data_length fh" "fr_len f \<le> length (fr_buffer f)"
    using assms fh by (auto simp: frame_valid_def parse_audio_header_iff split: frame_type.splits)
  have "media f AUDIO_HEADER_SIZE = Some (slice (fr_buffer f) AUDIO_HEADER_SIZE (fr_len f - fh_metadata_length fh))"
    using ok fh by (auto simp: media_def metadata_length_def checked_sub_def audio_header_ok_def)
  then show ?thesis using that [OF fh ok(2)] ok by (auto simp: audio_header_ok_def)
qed

lemma silence_frames_owed:
  assumes "silence_frames (map_option fh_timestamp (fr_header f)) (ah_sample_rate h) (nat (ah_samples_per_channel h)) a p = Some (k, p')"
    "0 < ah_sample_rate h" "0 < ah_samples_per_channel h" "ah_samples_per_channel h \<le> I64_MAX"
  shows "silence_owed f h a k" "pcm_taken p' = pcm_taken p"
proof -
  have i: "i64_of (nat (ah_samples_per_channel h)) = ah_samples_per_channel h" using assms(3,4) by (simp add: i64_of_def)
  have "silence_owed f h a k \<and> pcm_taken p' = pcm_taken p"
  proof (cases "\<exists>e fh o'. au_next_timestamp a = Some e \<and> fr_header f = Some fh \<and> au_open a = Some o'")
    case True
    then obtain e fh o' where s: "au_next_timestamp a = Some e" "fr_header f = Some fh" "au_open a = Some o'" by blast
    obtain v p1 where v: "avail_update p = Some (v, p1)" using assms(1) s by (auto simp: silence_frames_def bind_eq_Some_conv)
    note nonneg = missing_frames_bounds(1) [OF assms(2), of e "fh_timestamp fh" "ah_samples_per_channel h"]
    have "int k \<le> missing_frames e (fh_timestamp fh) (ah_sample_rate h) (ah_samples_per_channel h)" "p' = p1"
      using assms(1) s v i nonneg by (auto simp: silence_frames_def Let_def split: option.splits)
    then show ?thesis using s avail_update_taken [OF v] by (auto simp: silence_owed_def)
  next
    case False
    then have "k = 0 \<and> p' = p" using assms(1) by (auto simp: silence_frames_def split: option.splits)
    then show ?thesis by (simp add: silence_owed_def)
  qed
  then show "silence_owed f h a k" "pcm_taken p' = pcm_taken p" by auto
qed

lemma same_device_current: "same_device a a' \<Longrightarrow> audio_current device h a' = audio_current device h a"
  by (auto simp: same_device_def audio_current_def map_option_case split: option.splits)
    (metis audio_open.select_convs audio_open.surjective audio_open.update_convs(8))+

lemma write_frame_exact:
  assumes "frame_valid f" "fr_audio f = Some h" "nat (ah_samples_per_channel h) * nat (ah_channels h) \<le> length (au_interleaved a)"
    "write_frame al f h a p = Some (r, a', p')"
  shows "\<exists>k. silence_owed f h a k \<and> prefix (pcm_taken p) (pcm_taken p')
    \<and> prefix (pcm_taken p') (pcm_taken p @ replicate (k * nat (ah_channels h)) 0 @ frame_samples f h)
    \<and> (r = Inr () \<longrightarrow> pcm_taken p' = pcm_taken p @ replicate (k * nat (ah_channels h)) 0 @ frame_samples f h
         \<and> au_next_timestamp a' = Option.bind (map_option fh_timestamp (fr_header f)) (\<lambda>t. end_timestamp t (ah_samples_per_channel h) (ah_sample_rate h))
         \<and> au_concealed a' = (if k = 0 then au_concealed a else min U64_MAX (au_concealed a + k)) \<and> (audio_current device h a \<longrightarrow> audio_current device h a'))"
proof -
  obtain fh m where f: "fr_header f = Some fh" "audio_header_ok fh h" "media f AUDIO_HEADER_SIZE = Some m"
    "length m = count_ones (ah_active_channels h) * nat (ah_samples_per_channel h) * 4"
    using frame_valid_audio [OF assms(1,2)] by blast
  let ?n = "nat (ah_samples_per_channel h)" and ?ch = "nat (ah_channels h)"
  have pos: "0 < ah_sample_rate h" "0 < ah_samples_per_channel h" "0 < ah_channels h" "ah_channels h \<le> 32" using f(2) by (auto simp: audio_header_ok_def)
  have "1 * ah_samples_per_channel h \<le> ah_channels h * ah_samples_per_channel h" using pos by (intro mult_right_mono) auto
  moreover have "ah_samples_per_channel h * ah_channels h * 4 \<le> int AUDIO_MAX_SIZE" using f(2) unfolding audio_header_ok_def by blast
  then have "ah_channels h * ah_samples_per_channel h \<le> 262144" by (simp add: mult.commute)
  ultimately have small: "ah_samples_per_channel h \<le> I64_MAX" by linarith
  have abs: "nat \<bar>ah_channels h\<bar> = ?ch" "nat \<bar>ah_samples_per_channel h\<bar> = ?n" "i64_of ?n = ah_samples_per_channel h" using pos small by (simp_all add: i64_of_def)
  have rank: "channel_rank (ah_active_channels h) ?ch = count_ones (ah_active_channels h)"
    using f(2) pos by (intro count_ones_rank) (auto simp: audio_header_ok_def)
  have il: "interleave m (ah_active_channels h) ?n ?ch out = (frame_samples f h @ drop (?n * ?ch) out, Inr ())" if "?n * ?ch \<le> length out" for out
    using interleave_eq [OF that, of "ah_active_channels h" m] rank f(3,4) pos(3) by (simp add: frame_samples_def mult.commute)
  have len: "length (frame_samples f h) = ?n * ?ch" by (simp add: frame_samples_def)
  obtain k p1 where k: "silence_frames (map_option fh_timestamp (fr_header f)) (ah_sample_rate h) ?n a p = Some (k, p1)"
    using assms(4) f(3) abs by (auto simp: write_frame_def Let_def bind_eq_Some_conv)
  note owed = silence_frames_owed [OF k pos(1,2) small]
  let ?a0 = "(silence_scratch (?n * ?ch) a)\<lparr>au_concealed := saturating_add U64_MAX (au_concealed a) k\<rparr>"
  let ?mid = "if 0 < k then play_silence al k ?n ?ch ?a0 p1 else Some (Inr (), a, p1)"
  obtain r1 a1 p2 where q: "?mid = Some (r1, a1, p2)"
    using assms(4) f(3) abs k by (auto simp: write_frame_def Let_def bind_eq_Some_conv)
  let ?z = "replicate (k * ?ch) 0"
  have mid: "prefix (pcm_taken p) (pcm_taken p2) \<and> prefix (pcm_taken p2) (pcm_taken p @ ?z) \<and> (r1 = Inr () \<longrightarrow> pcm_taken p2 = pcm_taken p @ ?z)
      \<and> au_concealed a1 = (if 0 < k then saturating_add U64_MAX (au_concealed a) k else au_concealed a)
      \<and> length (au_interleaved a1) = length (au_interleaved a) \<and> (audio_current device h a \<longrightarrow> audio_current device h a1)"
  proof (cases "0 < k")
    case True
    have "take (?n * ?ch) (au_interleaved ?a0) = replicate (?n * ?ch) 0" by (simp add: silence_scratch_def)
    then have t: "prefix (pcm_taken p1) (pcm_taken p2) \<and> prefix (pcm_taken p2) (pcm_taken p1 @ ?z)
        \<and> (r1 = Inr () \<longrightarrow> pcm_taken p2 = pcm_taken p1 @ ?z) \<and> same_device ?a0 a1"
      using play_silence_taken [of al k ?n ?ch ?a0 p1 r1 a1 p2] q True by simp
    have "audio_current device h ?a0 = audio_current device h a" by (simp add: audio_current_def silence_scratch_def)
    then show ?thesis using t owed(2) same_device_current [of ?a0 a1 device h] assms(3) True by (auto simp: same_device_def silence_scratch_def)
  next
    case False
    then show ?thesis using q owed(2) by auto
  qed
  show ?thesis
  proof (cases r1)
    case (Inl e)
    then have "r = Inl e" "p' = p2" using assms(4) f(3) abs k q by (auto simp: write_frame_def Let_def)
    then show ?thesis using mid owed(1) by (intro exI [of _ k]) (auto intro: prefix_order.trans simp flip: append_assoc)
  next
    case (Inr u)
    let ?a2 = "a1\<lparr>au_interleaved := frame_samples f h @ drop (?n * ?ch) (au_interleaved a1), au_starving := False\<rparr>"
    have w: "do { (r, a, p) \<leftarrow> play al 0 ?n ?ch ?a2 p2;
        case r of Inl e \<Rightarrow> Some (Inl e, a, p)
        | Inr _ \<Rightarrow> Some (Inr (), a\<lparr>au_next_timestamp := Option.bind (map_option fh_timestamp (fr_header f)) (\<lambda>t. end_timestamp t (i64_of ?n) (ah_sample_rate h))\<rparr>, p) }
      = Some (r, a', p')"
      using assms(3,4) f(3) abs k q Inr il [of "au_interleaved a1"] mid by (simp add: write_frame_def Let_def)
    then obtain r3 a3 p3 where y: "play al 0 ?n ?ch ?a2 p2 = Some (r3, a3, p3)" by (auto simp: bind_eq_Some_conv)
    note t = play_taken [OF y]
    have data: "take (?n * ?ch) (au_interleaved ?a2) = frame_samples f h" using len by simp
    have cur: "audio_current device h a1 = audio_current device h a3"
      using same_device_current [OF t(4), of device h] by (simp add: audio_current_def)
    have conc: "au_concealed a3 = au_concealed a1" using t(4) by (simp add: same_device_def)
    have p2: "pcm_taken p2 = pcm_taken p @ ?z" using mid Inr by simp
    have e: "p' = p3" "r = Inr () \<longleftrightarrow> r3 = Inr ()" using w y by (auto split: sum.splits)
    have ok: "au_next_timestamp a' = Option.bind (map_option fh_timestamp (fr_header f)) (\<lambda>t. end_timestamp t (ah_samples_per_channel h) (ah_sample_rate h))
        \<and> au_concealed a' = au_concealed a3 \<and> audio_current device h a' = audio_current device h a3" if "r = Inr ()"
      using w y that abs(3) by (auto simp: audio_current_def split: sum.splits)
    show ?thesis
      using t(1-3) [unfolded data p2] p2 mid owed(1) e ok cur conc
      by (intro exI [of _ k]) (auto simp: saturating_add_def intro: prefix_order.trans dest: append_prefixD)
  qed
qed

lemma audio_configure_fields:
  assumes "audio_configure al device rate channels a = (r, a')"
  shows "au_interleaved a' = au_interleaved a" "au_next_timestamp a' = None" "au_concealed a' = au_concealed a"
    "r = Inr () \<Longrightarrow> \<exists>o'. au_open a' = Some o' \<and> ao_sample_rate o' = rate \<and> ao_channels o' = channels \<and> ao_device o' = device"
  using assms by (auto simp: audio_configure_def Let_def split: sum.splits)

lemma configured_audio:
  assumes "(if audio_current device h a then (Inr (), a) else audio_configure al device (ah_sample_rate h) (ah_channels h) a) = (r, a')"
  shows "au_concealed a' = au_concealed a" "au_next_timestamp a' = (if audio_current device h a then au_next_timestamp a else None)"
    "r = Inr () \<Longrightarrow> audio_current device h a'"
proof -
  have "au_concealed a' = au_concealed a \<and> au_next_timestamp a' = (if audio_current device h a then au_next_timestamp a else None)
    \<and> (r = Inr () \<longrightarrow> audio_current device h a')"
  proof (cases "audio_current device h a")
    case False
    then have "audio_configure al device (ah_sample_rate h) (ah_channels h) a = (r, a')" using assms by simp
    from audio_configure_fields [OF this] show ?thesis using False by (auto simp: audio_current_def [of device h a'])
  qed (use assms in auto)
  then show "au_concealed a' = au_concealed a" "au_next_timestamp a' = (if audio_current device h a then au_next_timestamp a else None)"
    "r = Inr () \<Longrightarrow> audio_current device h a'" by auto
qed

text \<open>The thresholds of the ring: a device can reach them.\<close>

lemma ring_thresholds:
  assumes "0 \<le> buffer" "0 \<le> period"
  shows "max period 1 \<le> prefill_frames rate buffer period" "prefill_frames rate buffer period \<le> max buffer (max period 1)"
    "prefill_frames rate buffer period \<le> target_frames rate buffer (prefill_frames rate buffer period)"
    "period \<le> buffer \<Longrightarrow> 1 \<le> buffer \<Longrightarrow> target_frames rate buffer (prefill_frames rate buffer period) \<le> buffer"
  using assms by (auto simp: prefill_frames_def target_frames_def clamp_def Let_def)

section \<open>Properties\<close>

text \<open>C33. Audio is played exactly. For a valid audio frame, whatever the device answers, however it splits the
  writes, stalls or underruns, what it has taken afterwards is what it had taken before, followed by a
  prefix of the silence that conceals the audio lost before the frame and the frame's own samples,
  interleaved: inactive channels silent, active ones in the order of their planes. When the call
  succeeds all of it was taken, the frame's end is the expected start of the next, and the concealed
  frames are counted. Silence is played only on a device that already had this format, never more than
  the timestamps say is missing, hence never more than a second.\<close>

theorem audio_write_exact:
  assumes "frame_valid f" "fr_audio f = Some h" "audio_write al alloc f device a p = Some (r, a', p')"
  shows "\<exists>k. silence_owed f h a k \<and> int k \<le> ah_sample_rate h \<and> (0 < k \<longrightarrow> audio_current device h a)
    \<and> prefix (pcm_taken p) (pcm_taken p')
    \<and> prefix (pcm_taken p') (pcm_taken p @ replicate (k * nat (ah_channels h)) 0 @ frame_samples f h)
    \<and> (r = Inr () \<longrightarrow> pcm_taken p' = pcm_taken p @ replicate (k * nat (ah_channels h)) 0 @ frame_samples f h
         \<and> au_next_timestamp a' = Option.bind (map_option fh_timestamp (fr_header f)) (\<lambda>t. end_timestamp t (ah_samples_per_channel h) (ah_sample_rate h))
         \<and> au_concealed a' = (if k = 0 then au_concealed a else min U64_MAX (au_concealed a + k)) \<and> audio_current device h a')"
proof -
  let ?cfg = "if audio_current device h a then (Inr (), a) else audio_configure al device (ah_sample_rate h) (ah_channels h) a"
  obtain r1 a1 where q: "?cfg = (r1, a1)" by fastforce
  obtain fh0 where "audio_header_ok fh0 h" using frame_valid_audio [OF assms(1,2)] by blast
  then have pos: "0 < ah_sample_rate h" "0 < ah_samples_per_channel h" "0 < ah_channels h" by (auto simp: audio_header_ok_def)
  note c = configured_audio [OF q]
  let ?req = "nat (ah_samples_per_channel h) * nat (ah_channels h)"
  show ?thesis
  proof (cases "r1 = Inr () \<and> (\<exists>a2. grow_scratch alloc ?req a1 = Inr a2)")
    case False
    then have "r \<noteq> Inr ()" "p' = p"
      using assms(2,3) q pos by (cases r1; auto simp: audio_write_def split: sum.splits)+
    then show ?thesis using pos by (intro exI [of _ 0]) (simp add: silence_owed_def)
  next
    case True
    then obtain a2 where g: "grow_scratch alloc ?req a1 = Inr a2" by blast
    have w: "write_frame al f h a2 p = Some (r, a', p')" using assms(2,3) q True g pos by (auto simp: audio_write_def)
    have a2: "?req \<le> length (au_interleaved a2)" "au_concealed a2 = au_concealed a1" "au_next_timestamp a2 = au_next_timestamp a1"
      "audio_current device h a2 = audio_current device h a1"
      using g by (auto simp: grow_scratch_def audio_current_def split: if_splits)
    obtain k where k: "silence_owed f h a2 k" "prefix (pcm_taken p) (pcm_taken p')"
      "prefix (pcm_taken p') (pcm_taken p @ replicate (k * nat (ah_channels h)) 0 @ frame_samples f h)"
      "r = Inr () \<longrightarrow> pcm_taken p' = pcm_taken p @ replicate (k * nat (ah_channels h)) 0 @ frame_samples f h
         \<and> au_next_timestamp a' = Option.bind (map_option fh_timestamp (fr_header f)) (\<lambda>t. end_timestamp t (ah_samples_per_channel h) (ah_sample_rate h))
         \<and> au_concealed a' = (if k = 0 then au_concealed a2 else min U64_MAX (au_concealed a2 + k)) \<and> (audio_current device h a2 \<longrightarrow> audio_current device h a')"
      using write_frame_exact [OF assms(1,2) a2(1) w, of device] by blast
    have owed: "silence_owed f h a k" "0 < k \<longrightarrow> audio_current device h a" using k(1) c(2) a2(3) by (auto simp: silence_owed_def split: if_splits)
    have "int k \<le> ah_sample_rate h"
    proof (cases "k = 0")
      case False
      then obtain e and fh :: frame_header where "int k \<le> missing_frames e (fh_timestamp fh) (ah_sample_rate h) (ah_samples_per_channel h)"
        using owed(1) by (auto simp: silence_owed_def)
      then show ?thesis using missing_frames_bounds(2) [OF pos(1)] order_trans by blast
    qed (use pos in simp)
    moreover have "audio_current device h a2" using c(3) True a2(4) by blast
    ultimately show ?thesis using owed k(2-4) unfolding a2(2) c(1) by blast
  qed
qed

definition demo_audio_header :: audio_header where
  "demo_audio_header = \<lparr>ah_codec = CODEC_FPA1, ah_sample_rate = 48000, ah_samples_per_channel = 2, ah_channels = 2, ah_active_channels = 1\<rparr>"

definition demo_audio_frame :: frame where
  "demo_audio_frame = frame_default\<lparr>fr_header := Some \<lparr>fh_frame_type = Audio, fh_timestamp = 7, fh_metadata_length = 0, fh_data_length = 32\<rparr>,
     fr_audio := Some demo_audio_header, fr_len := 32,
     fr_buffer := [0x46, 0x50, 0x41, 0x31, 0x80, 0xbb, 0, 0, 2, 0, 0, 0, 2, 0, 0, 0, 1, 0, 0, 0, 0, 0, 0, 0, 1, 0, 0, 0, 2, 0, 0, 0]\<rparr>"

definition demo_alsa :: alsa where
  "demo_alsa = \<lparr>al_open = \<lambda>_. Inr (), al_hw = \<lambda>_ _. Inr (11520, 960), al_sw = \<lambda>_ _ _. Inr (), al_strerror = \<lambda>_. []\<rparr>"

definition demo_pcm :: pcm where
  "demo_pcm = \<lparr>pcm_answers = [\<lparr>pa_result = 1, pa_recover = 0, pa_first = 0, pa_clock = 0\<rparr>, \<lparr>pa_result = - 11, pa_recover = 0, pa_first = 0, pa_clock = 5\<rparr>,
     \<lparr>pa_result = 1, pa_recover = 0, pa_first = 0, pa_clock = 9\<rparr>, \<lparr>pa_result = 11518, pa_recover = 0, pa_first = 0, pa_clock = 9\<rparr>], pcm_taken = []\<rparr>"

lemma demo_audio_valid: "frame_valid demo_audio_frame"
proof -
  have "read_audio_header (payload demo_audio_frame) = demo_audio_header"
    by (simp add: demo_audio_frame_def demo_audio_header_def payload_def read_audio_header_def le_i32_def le32_def signed_of_def)
  moreover have "count_ones 1 = 1" by (simp add: count_ones_def upt_conv_Cons bit_0)
  ultimately show ?thesis
    by (simp add: frame_valid_def demo_audio_frame_def demo_audio_header_def frame_default_def frame_header_ok_def extension_size_def payload_limit_def
        payload_def parse_audio_header_iff audio_header_ok_def)
qed

theorem audio_write_exact_witness:
  "\<exists>a' p'. audio_write demo_alsa True demo_audio_frame ''hw:0'' audio_output_new demo_pcm = Some (Inr (), a', p') \<and> pcm_taken p' = [1, 0, 2, 0]"
proof -
  have z: "replicate 4 (0 :: nat) = [0, 0, 0, 0]" by (simp add: numeral_eq_Suc)
  have i: "interleave [1, 0, 0, 0, 2, 0, 0, 0] (Suc 0) 2 2 (replicate 4 0) = ([1, 0, 2, 0], Inr ())"
    unfolding z by (simp add: interleave_def upt_rec interleave_sample_def get_range_def bit_0)
  have "\<exists>a' p'. audio_write demo_alsa True demo_audio_frame ''hw:0'' audio_output_new demo_pcm = Some (Inr (), a', p')"
    by (simp add: audio_write_def demo_audio_frame_def demo_audio_header_def audio_current_def audio_output_new_def audio_configure_def demo_alsa_def
        grow_scratch_def write_frame_def media_def metadata_length_def checked_sub_def silence_frames_def i play_def demo_pcm_def play_loop.simps stall_def
        avail_update_def frame_default_def Let_def)
  then obtain a' p' where w: "audio_write demo_alsa True demo_audio_frame ''hw:0'' audio_output_new demo_pcm = Some (Inr (), a', p')" by blast
  have f: "fr_audio demo_audio_frame = Some demo_audio_header" by (simp add: demo_audio_frame_def)
  obtain k where k: "silence_owed demo_audio_frame demo_audio_header audio_output_new k"
    "pcm_taken p' = pcm_taken demo_pcm @ replicate (k * nat (ah_channels demo_audio_header)) 0 @ frame_samples demo_audio_frame demo_audio_header"
    using audio_write_exact [OF demo_audio_valid f w] by blast
  have "k = 0" using k(1) by (simp add: silence_owed_def audio_output_new_def)
  moreover have "frame_samples demo_audio_frame demo_audio_header = [1, 0, 2, 0]"
    by (simp add: frame_samples_def interleaved_def planar_sample_def channel_rank_def active_on_def demo_audio_frame_def demo_audio_header_def media_def
        metadata_length_def checked_sub_def frame_default_def upt_rec bit_0)
  ultimately show ?thesis using w k(2) by (simp add: demo_pcm_def)
qed

end
