(* ===== verification/Xml.thy ===== *)
theory Xml
  imports Rust_Text
begin

text \<open>
  \<^verbatim>\<open>crates/omt-common/src/xml.rs\<close>: the bounded pull tokenizer, and the reading of named elements in one
  pass. A document is the list of its bytes, written as a string. The stack of open elements has the
  innermost first. After an error the source never uses its reader again, so an error carries none.
\<close>

section \<open>Events\<close>

abbreviation MAX_DOCUMENT :: nat where "MAX_DOCUMENT \<equiv> 65536"
abbreviation MAX_DEPTH :: nat where "MAX_DEPTH \<equiv> 32"
abbreviation STACK :: nat where "STACK \<equiv> 64"

datatype xml_status = XmlMalformed | XmlUnsupported | XmlNotFound | XmlDuplicate

datatype event_kind = EvStart | EvEmpty | EvEnd | EvText | EvRef | EvDecl | EvPi | EvDoctype | EvComment | EvCdata | EvEof

record event =
  ev_kind :: event_kind
  ev_name :: string
  ev_content :: string

record xml_reader =
  xr_doc :: string
  xr_pos :: nat
  xr_open :: "string list"

abbreviation mk_event :: "event_kind \<Rightarrow> string \<Rightarrow> string \<Rightarrow> event" where
  "mk_event k n c \<equiv> \<lparr>ev_kind = k, ev_name = n, ev_content = c\<rparr>"

definition is_xml_space :: "char \<Rightarrow> bool" where
  "is_xml_space c \<longleftrightarrow> c = CHR '' '' \<or> byte c = 9 \<or> byte c = 10 \<or> byte c = 13"

definition reader_new :: "string \<Rightarrow> xml_reader" where
  "reader_new doc = \<lparr>xr_doc = doc, xr_pos = 0, xr_open = []\<rparr>"

definition unread :: "xml_reader \<Rightarrow> string" where
  "unread r = drop (xr_pos r) (xr_doc r)"

section \<open>The tokenizer\<close>

text \<open>Each branch of \<open>next_event\<close> reads the unread bytes and gives the event and how many bytes it took.
  \<open>tag_end\<close> and \<open>doctype_end\<close> count the bytes before the closing bracket; running off the end of the
  document gives the length.\<close>

definition lex_ref :: "string \<Rightarrow> xml_status + event \<times> nat" where
  "lex_ref rest =
     (let after = tl rest; name = takeWhile (\<lambda>c. c \<notin> {CHR '';'', CHR ''&'', CHR ''<''} \<and> \<not> is_xml_space c) after; n = length name
      in if length after \<le> n \<or> after ! n \<noteq> CHR '';'' \<or> n = 0 then Inl XmlMalformed
         else Inr (mk_event EvRef name [], n + 2))"

definition is_char_data :: "char \<Rightarrow> bool" where
  "is_char_data c \<longleftrightarrow> c \<noteq> CHR ''<'' \<and> c \<noteq> CHR ''&''"

definition lex_text :: "string \<Rightarrow> event \<times> nat" where
  "lex_text rest = (let t = takeWhile is_char_data rest in (mk_event EvText [] t, length t))"

definition lex_until :: "string \<Rightarrow> string \<Rightarrow> event_kind \<Rightarrow> string \<Rightarrow> xml_status + event \<times> nat" where
  "lex_until opening closing kind rest =
     (let body = drop (length opening) rest
      in case find_str closing body of
           None \<Rightarrow> Inl XmlMalformed
         | Some i \<Rightarrow> Inr (mk_event kind [] (take i body), length opening + i + length closing))"

definition is_decl :: "string \<Rightarrow> bool" where
  "is_decl inner \<longleftrightarrow> starts_with ''xml'' inner \<and> (length inner = 3 \<or> is_xml_space (inner ! 3))"

definition lex_pi :: "string \<Rightarrow> xml_status + event \<times> nat" where
  "lex_pi rest =
     and_then (lex_until ''<?'' ''?>'' EvPi rest) (\<lambda>(e, n).
       Inr (e\<lparr>ev_kind := if is_decl (ev_content e) then EvDecl else EvPi\<rparr>, n))"

fun doctype_end :: "char option \<Rightarrow> int \<Rightarrow> string \<Rightarrow> nat" where
  "doctype_end quot brackets [] = 0"
| "doctype_end (Some q) brackets (d # ds) = Suc (doctype_end (if d = q then None else Some q) brackets ds)"
| "doctype_end None brackets (d # ds) =
     (if byte d = 0x22 \<or> byte d = 0x27 then Suc (doctype_end (Some d) brackets ds)
      else if d = CHR ''['' then Suc (doctype_end None (brackets + 1) ds)
      else if d = CHR '']'' then Suc (doctype_end None (brackets - 1) ds)
      else if d = CHR ''>'' \<and> brackets \<le> 0 then 0
      else Suc (doctype_end None brackets ds))"

definition lex_doctype :: "string \<Rightarrow> xml_status + event \<times> nat" where
  "lex_doctype rest =
     (let body = drop 9 rest; n = doctype_end None 0 body
      in if length body \<le> n then Inl XmlMalformed else Inr (mk_event EvDoctype [] (take n body), 9 + n + 1))"

fun tag_end :: "char option \<Rightarrow> string \<Rightarrow> nat" where
  "tag_end quot [] = 0"
| "tag_end (Some q) (d # ds) = Suc (tag_end (if d = q then None else Some q) ds)"
| "tag_end None (d # ds) =
     (if byte d = 0x22 \<or> byte d = 0x27 then Suc (tag_end (Some d) ds)
      else if d = CHR ''>'' then 0
      else Suc (tag_end None ds))"

definition is_name_char :: "char \<Rightarrow> bool" where
  "is_name_char c \<longleftrightarrow> \<not> is_xml_space c \<and> c \<noteq> CHR ''>'' \<and> c \<noteq> CHR ''/''"

definition lex_tag :: "string list \<Rightarrow> string \<Rightarrow> xml_status + event \<times> nat \<times> string list" where
  "lex_tag opens rest =
     (let closing = starts_with ''</'' rest; m = (if closing then 2 else 1); body = drop m rest;
          name = takeWhile is_name_char body; after = drop (length name) body; n = tag_end None after;
          total = m + length name + n + 1
      in if length after \<le> n then Inl XmlMalformed
         else if name = [] then Inl XmlMalformed
         else if closing then
           (if \<not> list_all is_xml_space (take n after) \<or> opens = [] \<or> hd opens \<noteq> name then Inl XmlMalformed
            else Inr (mk_event EvEnd name [], total, tl opens))
         else
           (let empty = 0 < n \<and> after ! (n - 1) = CHR ''/''; content = take (if empty then n - 1 else n) after
            in if empty then Inr (mk_event EvEmpty name content, total, opens)
               else if STACK \<le> length opens then Inl XmlUnsupported
               else Inr (mk_event EvStart name content, total, name # opens)))"

text \<open>One event from the unread bytes; the stack after it.\<close>

definition keep_open :: "string list \<Rightarrow> xml_status + event \<times> nat \<Rightarrow> xml_status + event \<times> nat \<times> string list" where
  "keep_open opens r = and_then r (\<lambda>(e, n). Inr (e, n, opens))"

definition lex :: "string list \<Rightarrow> string \<Rightarrow> xml_status + event \<times> nat \<times> string list" where
  "lex opens rest =
     (if rest = [] then Inr (mk_event EvEof [] [], 0, opens)
      else if hd rest = CHR ''&'' then keep_open opens (lex_ref rest)
      else if hd rest \<noteq> CHR ''<'' then keep_open opens (Inr (lex_text rest))
      else if starts_with ''<?'' rest then keep_open opens (lex_pi rest)
      else if starts_with ''<!--'' rest then keep_open opens (lex_until ''<!--'' ''-->'' EvComment rest)
      else if starts_with ''<![CDATA['' rest then keep_open opens (lex_until ''<![CDATA['' '']]>'' EvCdata rest)
      else if 9 \<le> length rest \<and> eq_ignore_ascii_case (take 9 rest) ''<!DOCTYPE'' then keep_open opens (lex_doctype rest)
      else if starts_with ''<!'' rest then Inl XmlMalformed
      else lex_tag opens rest)"

definition next_event :: "xml_reader \<Rightarrow> xml_status + event \<times> xml_reader" where
  "next_event r =
     and_then (lex (xr_open r) (unread r)) (\<lambda>(e, n, opens). Inr (e, r\<lparr>xr_pos := xr_pos r + n, xr_open := opens\<rparr>))"

section \<open>Progress\<close>

lemma tag_end_le: "tag_end q s \<le> length s"
  by (induction q s rule: tag_end.induct) auto

lemma doctype_end_le: "doctype_end q b s \<le> length s"
  by (induction q b s rule: doctype_end.induct) auto

lemma find_str_fits: "find_str p s = Some i \<Longrightarrow> i + length p \<le> length s"
  by (induction s arbitrary: i) (auto simp: starts_with_def split: if_splits dest: arg_cong [where f = length])

lemma takeWhile_next: "length (takeWhile P s) < length s \<Longrightarrow> s = takeWhile P s @ s ! length (takeWhile P s) # drop (Suc (length (takeWhile P s))) s"
  by (metis Cons_nth_drop_Suc takeWhile_eq_take append_take_drop_id)

lemma starts_with_append: "starts_with p s \<longleftrightarrow> (\<exists>t. s = p @ t)"
  unfolding starts_with_def by (metis append_eq_conv_conj append_take_drop_id)

lemma keep_open_Inr: "keep_open opens r = Inr (e, n, opens') \<longleftrightarrow> r = Inr (e, n) \<and> opens' = opens"
  by (cases r) (auto simp: keep_open_def split: prod.splits)

lemma lex_ref_consumes: "rest \<noteq> [] \<Longrightarrow> lex_ref rest = Inr (e, n) \<Longrightarrow> n \<le> length rest \<and> 0 < n \<and> ev_kind e = EvRef"
  by (cases rest) (auto simp: lex_ref_def Let_def split: if_splits)

lemma lex_until_consumes:
  "starts_with opening rest \<Longrightarrow> opening \<noteq> [] \<Longrightarrow> lex_until opening closing k rest = Inr (e, n) \<Longrightarrow> n \<le> length rest \<and> 0 < n \<and> ev_kind e = k"
  by (auto simp: lex_until_def starts_with_append dest!: find_str_fits split: option.splits)

lemma lex_pi_consumes:
  "starts_with ''<?'' rest \<Longrightarrow> lex_pi rest = Inr (e, n) \<Longrightarrow> n \<le> length rest \<and> 0 < n \<and> (ev_kind e = EvPi \<or> ev_kind e = EvDecl)"
  using lex_until_consumes [of "''<?''" rest "''?>''" EvPi]
  by (cases "lex_until ''<?'' ''?>'' EvPi rest") (auto simp: lex_pi_def split: if_splits)

lemma lex_tag_consumes:
  assumes "rest \<noteq> []" "lex_tag opens rest = Inr (e, n, opens')"
  shows "n \<le> length rest \<and> 0 < n \<and> ev_kind e \<in> {EvStart, EvEmpty, EvEnd}"
proof -
  define m where "m = (if starts_with ''</'' rest then 2 else 1 :: nat)"
  define body where "body = drop m rest"
  define name where "name = takeWhile is_name_char body"
  define k where "k = tag_end None (drop (length name) body)"
  have "n = m + length name + k + 1 \<and> k < length (drop (length name) body) \<and> ev_kind e \<in> {EvStart, EvEmpty, EvEnd}"
    using assms(2) unfolding lex_tag_def Let_def m_def [symmetric] body_def [symmetric] name_def [symmetric] k_def [symmetric]
    by (simp split: if_split_asm) auto
  moreover have "m \<le> length rest" using assms(1) by (auto simp: m_def starts_with_append Suc_le_eq)
  moreover have "length name \<le> length body" by (simp add: name_def length_takeWhile_le)
  moreover have "length rest = m + length body" using \<open>m \<le> length rest\<close> by (simp add: body_def)
  moreover have "length body = length name + length (drop (length name) body)" using \<open>length name \<le> length body\<close> by simp
  ultimately show ?thesis by linarith
qed

text \<open>Every event but the end of the document takes bytes, and no more than there are.\<close>

lemma lex_consumes:
  assumes "lex opens rest = Inr (e, n, opens')"
  shows "n \<le> length rest \<and> (n = 0 \<longleftrightarrow> ev_kind e = EvEof) \<and> (rest = [] \<longleftrightarrow> ev_kind e = EvEof)"
proof -
  have "n \<le> length rest \<and> 0 < n \<and> ev_kind e \<noteq> EvEof" if "rest \<noteq> []"
  proof (cases "hd rest = CHR ''&'' \<or> hd rest \<noteq> CHR ''<''")
    case True
    then show ?thesis using assms that lex_ref_consumes [OF that, of e n]
      by (cases rest) (auto simp: lex_def keep_open_Inr lex_text_def Let_def length_takeWhile_le is_char_data_def split: if_splits)
  next
    case False
    then show ?thesis using assms that lex_pi_consumes [of rest e n] lex_tag_consumes [OF that, of opens e n opens']
      lex_until_consumes [of "''<!--''" rest "''-->''" EvComment e n] lex_until_consumes [of "''<![CDATA[''" rest "'']]>''" EvCdata e n]
      by (auto simp: lex_def keep_open_Inr lex_doctype_def Let_def split: if_splits)
  qed
  then show ?thesis using assms by (cases "rest = []") (auto simp: lex_def)
qed

lemma next_event_consumes:
  assumes "next_event r = Inr (e, r')"
  shows "xr_doc r' = xr_doc r \<and> (ev_kind e \<noteq> EvEof \<longrightarrow> xr_pos r < xr_pos r' \<and> xr_pos r' \<le> length (xr_doc r))"
proof -
  obtain n opens where l: "lex (xr_open r) (unread r) = Inr (e, n, opens)" and r': "r' = r\<lparr>xr_pos := xr_pos r + n, xr_open := opens\<rparr>"
    using assms by (auto simp: next_event_def result_inv)
  show ?thesis using lex_consumes [OF l] r' by (auto simp: unread_def)
qed

section \<open>Reading a whole document\<close>

text \<open>The shape of the loops over the events: every event but the last goes to \<open>step\<close> with the positions
  before and after it, the end of the document to \<open>fin\<close>; the first error ends the loop.\<close>

function read_events :: "(xml_status \<Rightarrow> 'e) \<Rightarrow> (nat \<Rightarrow> event \<Rightarrow> nat \<Rightarrow> 's \<Rightarrow> 'e + 's) \<Rightarrow> ('s \<Rightarrow> 'e + 'r) \<Rightarrow> 's \<Rightarrow> xml_reader \<Rightarrow> 'e + 'r" where
  "read_events fail step fin st r =
     (case next_event r of
        Inl s \<Rightarrow> Inl (fail s)
      | Inr (ev, r') \<Rightarrow>
          if ev_kind ev = EvEof then fin st
          else (case step (xr_pos r) ev (xr_pos r') st of
                  Inl e \<Rightarrow> Inl e
                | Inr st' \<Rightarrow> read_events fail step fin st' r'))"
  by pat_completeness auto
termination
proof (relation "measure (\<lambda>(fail, step, fin, st, r). length (xr_doc r) - xr_pos r)", goal_cases)
  case (2 fail step fin st r _ ev r' st')
  then show ?case using next_event_consumes [of r ev r'] by (auto intro: diff_less_mono2)
qed simp

declare read_events.simps [simp del]

definition predefined_entity :: "string \<Rightarrow> char option" where
  "predefined_entity name =
     (if name = ''amp'' then Some (CHR ''&'')
      else if name = ''lt'' then Some (CHR ''<'')
      else if name = ''gt'' then Some (CHR ''>'')
      else if name = ''quot'' then Some (CHR 0x22)
      else if name = ''apos'' then Some (CHR 0x27)
      else None)"

text \<open>The state of \<open>unique_texts\<close>: the depth, the element being captured, and what is complete.\<close>

record texts_state =
  tx_depth :: nat
  tx_capturing :: "(nat \<times> string) option"
  tx_out :: "string option list"

definition texts_start :: "string list \<Rightarrow> string \<Rightarrow> texts_state \<Rightarrow> xml_status + texts_state" where
  "texts_start tags name st =
     (let st = st\<lparr>tx_depth := tx_depth st + 1\<rparr>
      in if MAX_DEPTH < tx_depth st then Inl XmlUnsupported
         else
           (case position (\<lambda>t. t = name) tags of
              None \<Rightarrow> Inr st
            | Some i \<Rightarrow>
                if tx_out st ! i \<noteq> None \<or> tx_capturing st \<noteq> None then Inl XmlDuplicate
                else Inr (st\<lparr>tx_capturing := Some (i, [])\<rparr>)))"

definition texts_end :: "string list \<Rightarrow> string \<Rightarrow> texts_state \<Rightarrow> texts_state" where
  "texts_end tags name st =
     (let st = st\<lparr>tx_depth := tx_depth st - 1\<rparr>
      in case tx_capturing st of
           None \<Rightarrow> st
         | Some (i, txt) \<Rightarrow>
             if tags ! i = name then st\<lparr>tx_capturing := None, tx_out := (tx_out st)[i := Some txt]\<rparr> else st)"

definition texts_step :: "string list \<Rightarrow> nat \<Rightarrow> event \<Rightarrow> nat \<Rightarrow> texts_state \<Rightarrow> xml_status + texts_state" where
  "texts_step tags _ ev _ st =
     (case ev_kind ev of
        EvDoctype \<Rightarrow> Inl XmlUnsupported
      | EvPi \<Rightarrow> Inl XmlUnsupported
      | EvStart \<Rightarrow> texts_start tags (ev_name ev) st
      | EvText \<Rightarrow>
          (case tx_capturing st of
             None \<Rightarrow> Inr st
           | Some (i, txt) \<Rightarrow>
               if MAX_DOCUMENT < length (txt @ ev_content ev) then Inl XmlUnsupported
               else Inr (st\<lparr>tx_capturing := Some (i, txt @ ev_content ev)\<rparr>))
      | EvRef \<Rightarrow>
          (case tx_capturing st of
             None \<Rightarrow> Inr st
           | Some (i, txt) \<Rightarrow>
               and_then (ok_or (predefined_entity (ev_name ev)) XmlMalformed) (\<lambda>c. Inr (st\<lparr>tx_capturing := Some (i, txt @ [c])\<rparr>)))
      | EvEnd \<Rightarrow> Inr (texts_end tags (ev_name ev) st)
      | _ \<Rightarrow> Inr st)"

definition unique_texts :: "string \<Rightarrow> string list \<Rightarrow> xml_status + string option list" where
  "unique_texts doc tags =
     (if MAX_DOCUMENT < length doc then Inl XmlUnsupported
      else read_events id (texts_step tags) (\<lambda>st. Inr (tx_out st))
             \<lparr>tx_depth = 0, tx_capturing = None, tx_out = replicate (length tags) None\<rparr> (reader_new doc))"

definition unique_text :: "string \<Rightarrow> string \<Rightarrow> xml_status + string" where
  "unique_text doc tag = and_then (unique_texts doc [tag]) (\<lambda>out. ok_or (Option.bind (if out = [] then None else Some (last out)) id) XmlNotFound)"

definition element_is :: "string option \<Rightarrow> string \<Rightarrow> bool" where
  "element_is t v = (case t of None \<Rightarrow> False | Some t \<Rightarrow> eq_ignore_ascii_case t v)"

function root_loop :: "string \<Rightarrow> xml_reader \<Rightarrow> xml_status + unit" where
  "root_loop tag r =
     (case next_event r of
        Inl s \<Rightarrow> Inl (if s = XmlUnsupported then s else XmlMalformed)
      | Inr (ev, r') \<Rightarrow>
          if ev_kind ev = EvDoctype then Inl XmlUnsupported
          else if ev_kind ev = EvStart \<or> ev_kind ev = EvEmpty then (if ev_name ev = tag then Inr () else Inl XmlUnsupported)
          else if ev_kind ev = EvEof then Inl XmlNotFound
          else root_loop tag r')"
  by pat_completeness auto
termination
proof (relation "measure (\<lambda>(tag, r). length (xr_doc r) - xr_pos r)", goal_cases)
  case (2 tag r _ ev r')
  then show ?case using next_event_consumes [of r ev r'] by (auto intro: diff_less_mono2)
qed simp

declare root_loop.simps [simp del]

definition root_is :: "string \<Rightarrow> string \<Rightarrow> xml_status + unit" where
  "root_is doc tag = root_loop tag (reader_new doc)"

section \<open>A document as the list of its events\<close>

definition xml_events :: "xml_reader \<Rightarrow> xml_status + (nat \<times> event \<times> nat) list" where
  "xml_events r = read_events id (\<lambda>a ev b evs. Inr (evs @ [(a, ev, b)])) Inr [] r"

fun fold_events :: "(nat \<Rightarrow> event \<Rightarrow> nat \<Rightarrow> 's \<Rightarrow> 'e + 's) \<Rightarrow> (nat \<times> event \<times> nat) list \<Rightarrow> 's \<Rightarrow> 'e + 's" where
  "fold_events step [] st = Inr st"
| "fold_events step ((a, ev, b) # evs) st = and_then (step a ev b st) (fold_events step evs)"

lemma fold_events_append: "fold_events step (xs @ ys) st = and_then (fold_events step xs st) (fold_events step ys)"
proof (induction xs arbitrary: st)
  case (Cons x xs)
  then show ?case by (cases x; cases "step (fst x) (fst (snd x)) (snd (snd x)) st") auto
qed simp

lemma xml_events_acc:
  "read_events id (\<lambda>a ev b evs. Inr (evs @ [(a, ev, b)])) Inr acc r = (case xml_events r of Inl e \<Rightarrow> Inl e | Inr evs \<Rightarrow> Inr (acc @ evs))"
  unfolding xml_events_def
proof (induction "length (xr_doc r) - xr_pos r" arbitrary: r acc rule: less_induct)
  case less
  have shorter: "length (xr_doc r') - xr_pos r' < length (xr_doc r) - xr_pos r" if "next_event r = Inr (ev, r')" "ev_kind ev \<noteq> EvEof" for ev r'
    using next_event_consumes [OF that(1)] that(2) by (auto intro: diff_less_mono2)
  show ?case
  proof (cases "next_event r")
    case (Inr p)
    obtain ev r' where p: "p = (ev, r')" by (cases p)
    show ?thesis
    proof (cases "ev_kind ev = EvEof")
      case False
      note ih = less [OF shorter [OF Inr [unfolded p] False]]
      show ?thesis using Inr False p ih [of "acc @ [(xr_pos r, ev, xr_pos r')]"] ih [of "[(xr_pos r, ev, xr_pos r')]"]
        by (subst (1 2) read_events.simps) (auto split: sum.splits)
    qed (use Inr p in \<open>subst (1 2) read_events.simps; simp\<close>)
  qed (subst (1 2) read_events.simps; simp)
qed

lemma xml_events_simps:
  "next_event r = Inl s \<Longrightarrow> xml_events r = Inl s"
  "next_event r = Inr (ev, r') \<Longrightarrow> ev_kind ev = EvEof \<Longrightarrow> xml_events r = Inr []"
  "next_event r = Inr (ev, r') \<Longrightarrow> ev_kind ev \<noteq> EvEof \<Longrightarrow>
     xml_events r = and_then (xml_events r') (\<lambda>evs. Inr ((xr_pos r, ev, xr_pos r') # evs))"
proof -
  show "next_event r = Inl s \<Longrightarrow> xml_events r = Inl s"
    "next_event r = Inr (ev, r') \<Longrightarrow> ev_kind ev = EvEof \<Longrightarrow> xml_events r = Inr []"
    unfolding xml_events_def by (subst read_events.simps; simp)+
  show "next_event r = Inr (ev, r') \<Longrightarrow> ev_kind ev \<noteq> EvEof \<Longrightarrow>
     xml_events r = and_then (xml_events r') (\<lambda>evs. Inr ((xr_pos r, ev, xr_pos r') # evs))"
    using xml_events_acc [of "[(xr_pos r, ev, xr_pos r')]" r']
    unfolding xml_events_def by (subst read_events.simps) (auto simp: and_then_def split: sum.splits)
qed

text \<open>What a loop returns is what its steps make of the events, when there are no errors.\<close>

lemma read_events_Inr:
  "read_events fail step fin st r = Inr x \<longleftrightarrow> (\<exists>evs. xml_events r = Inr evs \<and> and_then (fold_events step evs st) fin = Inr x)"
proof (induction fail step fin st r rule: read_events.induct)
  case (1 fail step fin st r)
  show ?case
  proof (cases "next_event r")
    case (Inl s)
    then show ?thesis using xml_events_simps(1) [OF Inl] by (subst read_events.simps) simp
  next
    case (Inr p)
    obtain ev r' where p: "p = (ev, r')" by (cases p)
    show ?thesis
    proof (cases "ev_kind ev = EvEof")
      case True
      then show ?thesis using Inr p xml_events_simps(2) [OF Inr [unfolded p] True] by (subst read_events.simps) simp
    next
      case False
      note es = xml_events_simps(3) [OF Inr [unfolded p] False]
      show ?thesis
      proof (cases "step (xr_pos r) ev (xr_pos r') st")
        case (Inl e)
        then show ?thesis using Inr p False es by (subst read_events.simps) (auto simp: result_inv)
      next
        case (Inr st')
        then show ?thesis using \<open>next_event r = Inr p\<close> p False es 1 [OF \<open>next_event r = Inr p\<close> p [symmetric] False Inr]
          by (subst read_events.simps) (auto simp: and_then_eq_Inr)
      qed
    qed
  qed
qed

section \<open>What is read of a document\<close>

text \<open>The text of an event inside an element: its characters, or the character a reference stands for.\<close>

definition event_text :: "event \<Rightarrow> string" where
  "event_text ev =
     (case ev_kind ev of
        EvText \<Rightarrow> ev_content ev
      | EvRef \<Rightarrow> (case predefined_entity (ev_name ev) of None \<Rightarrow> [] | Some c \<Rightarrow> [c])
      | _ \<Rightarrow> [])"

abbreviation starts :: "string \<Rightarrow> event \<Rightarrow> bool" where
  "starts tag ev \<equiv> ev_kind ev = EvStart \<and> ev_name ev = tag"

abbreviation ends :: "string \<Rightarrow> event \<Rightarrow> bool" where
  "ends tag ev \<equiv> ev_kind ev = EvEnd \<and> ev_name ev = tag"

text \<open>The text from the first start tag named \<open>tag\<close> to the next end tag of that name.\<close>

fun inner_text :: "string \<Rightarrow> event list \<Rightarrow> string option" where
  "inner_text tag [] = None"
| "inner_text tag (ev # evs) = (if ends tag ev then Some [] else map_option ((@) (event_text ev)) (inner_text tag evs))"

fun element_text :: "string \<Rightarrow> event list \<Rightarrow> string option" where
  "element_text tag [] = None"
| "element_text tag (ev # evs) = (if starts tag ev then inner_text tag evs else element_text tag evs)"

text \<open>How many elements are open after the events.\<close>

definition nest :: "nat \<Rightarrow> event \<Rightarrow> nat" where
  "nest d ev = (case ev_kind ev of EvStart \<Rightarrow> d + 1 | EvEnd \<Rightarrow> d - 1 | _ \<Rightarrow> d)"

definition nesting :: "event list \<Rightarrow> nat" where
  "nesting evs = foldl nest 0 evs"

text \<open>One element's progress through the events, as an automaton.\<close>

datatype progress = Absent | Opened string | Closed string

definition track :: "string \<Rightarrow> progress \<Rightarrow> event \<Rightarrow> progress" where
  "track tag p ev =
     (case p of
        Absent \<Rightarrow> if starts tag ev then Opened [] else Absent
      | Opened t \<Rightarrow> if ends tag ev then Closed t else Opened (t @ event_text ev)
      | Closed t \<Rightarrow> Closed t)"

abbreviation tracked :: "string \<Rightarrow> event list \<Rightarrow> progress" where
  "tracked tag evs \<equiv> foldl (track tag) Absent evs"

definition closed_text :: "progress \<Rightarrow> string option" where
  "closed_text p = (case p of Closed t \<Rightarrow> Some t | _ \<Rightarrow> None)"

lemma closed_text_simps [simp]: "closed_text Absent = None" "closed_text (Opened t) = None" "closed_text (Closed t) = Some t"
  by (simp_all add: closed_text_def)

lemma track_simps [simp]:
  "track tag Absent ev = (if starts tag ev then Opened [] else Absent)"
  "track tag (Opened t) ev = (if ends tag ev then Closed t else Opened (t @ event_text ev))"
  "track tag (Closed t) ev = Closed t"
  by (simp_all add: track_def)

lemma track_Closed: "foldl (track tag) (Closed t) evs = Closed t"
  by (induction evs) simp_all

lemma track_Opened: "closed_text (foldl (track tag) (Opened t) evs) = map_option ((@) t) (inner_text tag evs)"
  by (induction evs arbitrary: t) (auto simp: track_Closed option.map_comp o_def fun_eq_iff intro!: option.map_cong)

lemma element_text_tracked: "element_text tag evs = closed_text (tracked tag evs)"
  by (induction evs) (auto simp: track_Opened option.map_ident [unfolded id_def] append_Nil [abs_def])

lemma nesting_snoc [simp]: "nesting (evs @ [ev]) = nest (nesting evs) ev"
  by (simp add: nesting_def)

lemma nesting_prefixes:
  "(\<forall>n\<le>length (evs @ [ev]). nesting (take n (evs @ [ev])) \<le> m) \<longleftrightarrow> (\<forall>n\<le>length evs. nesting (take n evs) \<le> m) \<and> nest (nesting evs) ev \<le> m"
  by (auto simp: le_Suc_eq)

definition tag_inv :: "string list \<Rightarrow> event list \<Rightarrow> texts_state \<Rightarrow> nat \<Rightarrow> bool" where
  "tag_inv tags evs st i \<longleftrightarrow>
     tx_out st ! i = closed_text (tracked (tags ! i) evs)
     \<and> (\<forall>t. tx_capturing st = Some (i, t) \<longleftrightarrow> tracked (tags ! i) evs = Opened t)
     \<and> length (filter (starts (tags ! i)) evs) = (if tracked (tags ! i) evs = Absent then 0 else 1)"

lemma tag_inv_start:
  assumes "distinct tags" "tag_inv tags evs st i" "i < length tags" "ev_kind ev = EvStart" "texts_start tags (ev_name ev) st = Inr st'"
  shows "tag_inv tags (evs @ [ev]) st' i"
proof (cases "position (\<lambda>t. t = ev_name ev) tags")
  case None
  then have "ev_name ev \<noteq> tags ! i" using assms(3) by (auto simp: position_None)
  moreover have "tx_out st' = tx_out st" "tx_capturing st' = tx_capturing st" using assms(5) None by (auto simp: texts_start_def Let_def split: if_splits)
  ultimately show ?thesis using assms(2,4)
    by (cases "tracked (tags ! i) evs") (auto simp: tag_inv_def event_text_def)
next
  case (Some j)
  then have j: "j < length tags" "tags ! j = ev_name ev" by (auto simp: position_Some)
  then have ij: "ev_name ev = tags ! i \<longleftrightarrow> i = j" using assms(1,3) by (auto simp: nth_eq_iff_index_eq)
  have st': "st' = st\<lparr>tx_depth := tx_depth st + 1, tx_capturing := Some (j, [])\<rparr>" "tx_out st ! j = None" "tx_capturing st = None"
    using assms(5) Some by (cases "tx_capturing st"; auto simp: texts_start_def Let_def split: if_splits)+
  show ?thesis using assms(2,4) st' ij
    by (cases "tracked (tags ! i) evs") (auto simp: tag_inv_def event_text_def)
qed

lemma tag_inv_kept:
  assumes "tag_inv tags evs st i" "tx_out st' ! i = tx_out st ! i" "\<And>t. tx_capturing st' = Some (i, t) \<longleftrightarrow> tx_capturing st = Some (i, t)"
    and "track (tags ! i) (tracked (tags ! i) evs) ev = tracked (tags ! i) evs" "\<not> starts (tags ! i) ev"
  shows "tag_inv tags (evs @ [ev]) st' i"
  using assms unfolding tag_inv_def by simp

lemma tag_inv_end:
  assumes "tag_inv tags evs st i" "i < length tags" "ev_kind ev = EvEnd" "distinct tags" "length (tx_out st) = length tags"
    "\<forall>i t. tx_capturing st = Some (i, t) \<longrightarrow> i < length tags"
  shows "tag_inv tags (evs @ [ev]) (texts_end tags (ev_name ev) st) i"
proof (cases "\<exists>t. tx_capturing st = Some (i, t) \<and> tags ! i = ev_name ev")
  case True
  then obtain t where t: "tx_capturing st = Some (i, t)" "tags ! i = ev_name ev" by blast
  then have "tracked (tags ! i) evs = Opened t" using assms(1) unfolding tag_inv_def by blast
  then show ?thesis using t assms(1,2,3,5) by (simp add: tag_inv_def texts_end_def)
next
  case False
  have kept: "track (tags ! i) (tracked (tags ! i) evs) ev = tracked (tags ! i) evs"
    using False assms(1,3) unfolding tag_inv_def by (cases "tracked (tags ! i) evs") (auto simp: event_text_def)
  have other: "j \<noteq> i" if "tx_capturing st = Some (j, t)" "tags ! j = ev_name ev" for j t using that False by auto
  show ?thesis
    by (rule tag_inv_kept [OF assms(1) _ _ kept])
      (use other assms(3) in \<open>auto simp: texts_end_def Let_def split: option.splits if_splits prod.splits\<close>)
qed

lemma texts_step_other:
  assumes "ev_kind ev \<noteq> EvStart" "ev_kind ev \<noteq> EvEnd" "texts_step tags a ev b st = Inr st'"
  shows "st' = st\<lparr>tx_capturing := map_option (\<lambda>(i, t). (i, t @ event_text ev)) (tx_capturing st)\<rparr>"
  using assms by (cases "ev_kind ev"; cases "tx_capturing st") (auto simp: texts_step_def event_text_def result_inv split: if_splits)

lemma tag_inv_other:
  assumes "tag_inv tags evs st i" "ev_kind ev \<noteq> EvStart" "ev_kind ev \<noteq> EvEnd" "texts_step tags a ev b st = Inr st'"
  shows "tag_inv tags (evs @ [ev]) st' i"
  using assms(1-3) unfolding texts_step_other [OF assms(2,3,4)]
  by (cases "tracked (tags ! i) evs"; cases "tx_capturing st") (auto simp: tag_inv_def)

lemma texts_step_tag_inv:
  assumes "distinct tags" "length (tx_out st) = length tags" "\<forall>i t. tx_capturing st = Some (i, t) \<longrightarrow> i < length tags"
    and "i < length tags" "tag_inv tags evs st i" "texts_step tags a ev b st = Inr st'"
  shows "tag_inv tags (evs @ [ev]) st' i"
proof -
  consider "ev_kind ev = EvStart" | "ev_kind ev = EvEnd" | "ev_kind ev \<noteq> EvStart" "ev_kind ev \<noteq> EvEnd" by blast
  then show ?thesis
  proof cases
    case 1
    then show ?thesis using tag_inv_start [OF assms(1,5,4) 1, of st'] assms(6) by (simp add: texts_step_def)
  next
    case 2
    then show ?thesis using tag_inv_end [OF assms(5,4) 2 assms(1-3)] assms(6) by (simp add: texts_step_def)
  qed (use tag_inv_other [OF assms(5) _ _ assms(6)] in blast)
qed

lemma texts_step_shape:
  assumes "length (tx_out st) = length tags" "\<forall>i t. tx_capturing st = Some (i, t) \<longrightarrow> i < length tags" "tx_depth st \<le> MAX_DEPTH"
    and "texts_step tags a ev b st = Inr st'"
  shows "length (tx_out st') = length tags \<and> (\<forall>i t. tx_capturing st' = Some (i, t) \<longrightarrow> i < length tags)
    \<and> tx_depth st' = nest (tx_depth st) ev \<and> tx_depth st' \<le> MAX_DEPTH \<and> ev_kind ev \<noteq> EvDoctype \<and> ev_kind ev \<noteq> EvPi"
proof (cases "ev_kind ev")
  case EvStart
  then show ?thesis using assms
    by (auto simp: texts_step_def texts_start_def nest_def position_Some Let_def split: option.splits if_splits)
next
  case EvEnd
  then show ?thesis using assms by (auto simp: texts_step_def texts_end_def nest_def Let_def split: option.splits if_splits prod.splits)
qed (use assms texts_step_other [OF _ _ assms(4)] in \<open>auto simp: nest_def texts_step_def\<close>)

definition texts_inv :: "string list \<Rightarrow> event list \<Rightarrow> texts_state \<Rightarrow> bool" where
  "texts_inv tags evs st \<longleftrightarrow>
     tx_depth st = nesting evs \<and> length (tx_out st) = length tags
     \<and> (\<forall>ev\<in>set evs. ev_kind ev \<noteq> EvDoctype \<and> ev_kind ev \<noteq> EvPi)
     \<and> (\<forall>n\<le>length evs. nesting (take n evs) \<le> MAX_DEPTH)
     \<and> (\<forall>i<length tags. tag_inv tags evs st i)
     \<and> (\<forall>i t. tx_capturing st = Some (i, t) \<longrightarrow> i < length tags)"

lemma texts_step_inv:
  assumes "distinct tags" "texts_inv tags evs st" "texts_step tags a ev b st = Inr st'"
  shows "texts_inv tags (evs @ [ev]) st'"
proof -
  have "tx_depth st \<le> MAX_DEPTH" using assms(2) by (force simp: texts_inv_def)
  then show ?thesis using assms texts_step_shape [OF _ _ _ assms(3)] texts_step_tag_inv [OF assms(1) _ _ _ _ assms(3)]
    unfolding texts_inv_def nesting_prefixes by auto
qed

lemma texts_fold_inv:
  assumes "distinct tags" "texts_inv tags evs st" "fold_events (texts_step tags) es st = Inr st'"
  shows "texts_inv tags (evs @ map (fst \<circ> snd) es) st'"
  using assms(2,3)
proof (induction es arbitrary: evs st)
  case (Cons e es)
  then obtain a ev b st1 where "e = (a, ev, b)" "texts_step tags a ev b st = Inr st1" "fold_events (texts_step tags) es st1 = Inr st'"
    by (cases e) (auto simp: result_inv)
  then show ?case using Cons.IH [OF texts_step_inv [OF assms(1) Cons.prems(1)]] by force
qed simp


definition demo_doc :: string where
  "demo_doc = ''<a k=1><Name>x &amp; y</Name><Port/><Port>6400</Port></a>''"

lemma demo_doc_events:
  "map_err (\<lambda>_. ()) (xml_events (reader_new demo_doc)) = Inr [
     (0, mk_event EvStart ''a'' '' k=1'', 7), (7, mk_event EvStart ''Name'' [], 13), (13, mk_event EvText [] ''x '', 15),
     (15, mk_event EvRef ''amp'' [], 20), (20, mk_event EvText [] '' y'', 22), (22, mk_event EvEnd ''Name'' [], 29),
     (29, mk_event EvEmpty ''Port'' [], 36), (36, mk_event EvStart ''Port'' [], 42), (42, mk_event EvText [] ''6400'', 46),
     (46, mk_event EvEnd ''Port'' [], 53), (53, mk_event EvEnd ''a'' [], 57)]"
  by code_simp

lemma demo_doc_read: "unique_texts demo_doc [''Name'', ''Port''] = Inr [Some ''x & y'', Some ''6400'']"
proof -
  have "length demo_doc \<le> MAX_DOCUMENT" by (simp add: demo_doc_def)
  then show ?thesis using demo_doc_events
    by (cases "xml_events (reader_new demo_doc)")
      (simp_all add: unique_texts_def read_events_Inr texts_step_def texts_start_def texts_end_def predefined_entity_def)
qed


end
