(* ===== verification/Discovery.thy ===== *)
theory Discovery
  imports Xml Channel "HOL-Library.Multiset" "HOL-Library.List_Lexorder" "HOL-Library.Char_ord"
begin

text \<open>
  \<^verbatim>\<open>crates/omt-receiver/src/discovery.rs\<close>: the bounded set of sources, the announcements of a central
  discovery server and the reading of its stream. The settings file is what the reader of the file system
  gives, the clock is one reading per round of the loop, and the socket answers as in \<open>Channel\<close>; a run
  is \<open>None\<close> when the answers end first. The browse through Avahi is in \<open>Mdns\<close>.
\<close>

section \<open>The set of sources\<close>

abbreviation MAX_SOURCES :: nat where "MAX_SOURCES \<equiv> 256"

record source =
  so_name :: string
  so_endpoint :: endpoint

type_synonym source_set = "source list"

definition source_put :: "string \<Rightarrow> endpoint \<Rightarrow> source_set \<Rightarrow> source_set \<times> bool" where
  "source_put name ep items =
     (case position (\<lambda>s. so_name s = name) items of
        Some i \<Rightarrow> (items[i := (items ! i)\<lparr>so_endpoint := ep\<rparr>], True)
      | None \<Rightarrow>
          if MAX_SOURCES \<le> length items then (items, False)
          else (items @ [\<lparr>so_name = name, so_endpoint = ep\<rparr>], True))"

text \<open>\<open>Vec::swap_remove\<close>: the last element takes the place of the removed one.\<close>

definition swap_remove :: "nat \<Rightarrow> 'a list \<Rightarrow> 'a list" where
  [std_defs]: "swap_remove i xs = butlast (xs[i := last xs])"

definition source_remove :: "string \<Rightarrow> source_set \<Rightarrow> source_set" where
  "source_remove name items =
     (case position (\<lambda>s. so_name s = name) items of Some i \<Rightarrow> swap_remove i items | None \<Rightarrow> items)"

definition source_sort :: "source_set \<Rightarrow> source_set" where
  "source_sort items = sort_key so_name items"

section \<open>Settings and announcements\<close>

text \<open>\<open>configured_server\<close>: \<open>storage\<close> is the environment variable, \<open>read\<close> gives the text of a file that
  exists, is within the limit and is UTF-8.\<close>

definition settings_path :: "string option \<Rightarrow> string" where
  "settings_path storage =
     (case storage of
        Some s \<Rightarrow> (if s \<noteq> [] then s else ''/etc/omt/omt'')
      | None \<Rightarrow> ''/etc/omt/omt'') @ ''/settings.xml''"

definition server_of_settings :: "string \<Rightarrow> string option" where
  "server_of_settings doc =
     do { _ \<leftarrow> ok (root_is (trim_str doc) ''Settings'');
          server \<leftarrow> ok (unique_text doc ''DiscoveryServer'');
          if utf8_valid server then
            do { _ \<leftarrow> ok (parse_direct_target server); Some server }
          else None }"

definition configured_server :: "(string \<Rightarrow> string option) \<Rightarrow> string option \<Rightarrow> string option" where
  "configured_server read storage = Option.bind (read (settings_path storage)) server_of_settings"

definition endpoint_from_parts :: "string \<Rightarrow> nat \<Rightarrow> endpoint option" where
  "endpoint_from_parts address port =
     (if port = 0 then None
      else
        (let v4 = parse_ipv4 address; v6 = (if v4 = None then parse_ipv6 address else None)
         in if (case v4 of Some a \<Rightarrow> is_undiallable_ipv4 a | None \<Rightarrow> False) \<or> (case v6 of Some a \<Rightarrow> is_undiallable_ipv6 a | None \<Rightarrow> False)
            then None
            else
              (let candidate = (if v6 \<noteq> None then ''omt://['' @ address @ '']:'' @ show_nat port else ''omt://'' @ address @ '':'' @ show_nat port)
               in do { t \<leftarrow> ok (parse_direct_target candidate); Some \<lparr>ep_host = dt_host t, ep_port = dt_port t\<rparr> })))"

record announcement =
  an_name :: string
  an_endpoint :: "endpoint option"
  an_removed :: bool

definition announced_endpoint :: "string option \<Rightarrow> string option \<Rightarrow> endpoint option" where
  "announced_endpoint address port =
     (case (address, port) of
        (Some address, Some port) \<Rightarrow>
          (let port = (case strip_prefix ''+'' port of Some p \<Rightarrow> p | None \<Rightarrow> port)
           in do { p \<leftarrow> parse_u64 port 65535;
                   if p \<le> 65535 then (if utf8_valid address then endpoint_from_parts address p else None) else None })
      | _ \<Rightarrow> None)"

definition read_announcement :: "string \<Rightarrow> announcement option" where
  "read_announcement doc =
     do { texts \<leftarrow> ok (unique_texts doc [''Name'', ''Removed'', ''IPAddress'', ''Port'']);
          name \<leftarrow> texts ! 0;
          cs \<leftarrow> from_utf8 name;
          if \<not> is_valid_source_name cs then None
          else Some \<lparr>an_name = name, an_endpoint = announced_endpoint (texts ! 2) (texts ! 3), an_removed = element_is (texts ! 1) ''True''\<rparr> }"

section \<open>The discovery server\<close>

text \<open>What one received frame announces, and what the set becomes.\<close>

definition frame_announcement :: "frame \<Rightarrow> announcement option" where
  "frame_announcement f =
     (if frame_type_of f \<noteq> Some Metadata \<or> fr_len f = 0 then None
      else if \<not> utf8_valid (of_bytes (payload f)) then None
      else read_announcement (of_bytes (payload f)))"

definition apply_announcement :: "source_set \<Rightarrow> announcement \<Rightarrow> source_set" where
  "apply_announcement out a =
     (if an_removed a then source_remove (an_name a) out
      else (case an_endpoint a of Some ep \<Rightarrow> fst (source_put (an_name a) ep out) | None \<Rightarrow> out))"

definition absorb_frame :: "source_set \<Rightarrow> frame \<Rightarrow> source_set" where
  "absorb_frame out f = (case frame_announcement f of None \<Rightarrow> out | Some a \<Rightarrow> apply_announcement out a)"

text \<open>Each round of the loop reads the clock and receives; when the rounds are used up the deadline has passed.\<close>

fun server_loop :: "nat \<Rightarrow> (nat \<times> io_answer list) list \<Rightarrow> channel \<Rightarrow> source_set \<Rightarrow> source_set option" where
  "server_loop deadline [] c out = Some out"
| "server_loop deadline ((now, answers) # rounds) c out =
     (if \<not> (now < deadline \<and> length out < MAX_SOURCES) then Some out
      else
        do { (c, r, _) \<leftarrow> receive deadline c answers;
             if r \<noteq> RecvOk then Some out else server_loop deadline rounds c (absorb_frame out (ch_frame c)) })"

definition server_sources :: "(string \<Rightarrow> nat \<Rightarrow> string + 'a list) \<Rightarrow> ('a \<Rightarrow> nat \<times> (string + unit)) \<Rightarrow> write_result list
    \<Rightarrow> string \<Rightarrow> nat \<Rightarrow> (nat \<times> io_answer list) list \<Rightarrow> source_set \<Rightarrow> source_set option" where
  "server_sources lookup attempt ws server deadline rounds out =
     (case parse_direct_target server of
        Inl _ \<Rightarrow> Some out
      | Inr t \<Rightarrow>
          do { (_, c, r) \<leftarrow> connect lookup attempt channel_new \<lparr>ep_host = dt_host t, ep_port = dt_port t\<rparr> Metadata ws;
               case r of Inl _ \<Rightarrow> Some out | Inr _ \<Rightarrow> server_loop deadline rounds c out })"

section \<open>The set as a bounded map\<close>

text \<open>The contract of the set towards the code that fills it: a map from names to endpoints with room for a
  fixed number of names.\<close>

locale source_store =
  fixes capacity :: nat
    and invar :: "'s \<Rightarrow> bool"
    and lookup :: "'s \<Rightarrow> string \<Rightarrow> endpoint option"
    and put :: "string \<Rightarrow> endpoint \<Rightarrow> 's \<Rightarrow> 's"
    and remove :: "string \<Rightarrow> 's \<Rightarrow> 's"
  assumes finite_lookup: "invar s \<Longrightarrow> finite (dom (lookup s)) \<and> card (dom (lookup s)) \<le> capacity"
    and put_invar: "invar s \<Longrightarrow> invar (put n e s)"
    and put_lookup: "invar s \<Longrightarrow> lookup (put n e s) = (if n \<in> dom (lookup s) \<or> card (dom (lookup s)) < capacity then (lookup s)(n \<mapsto> e) else lookup s)"
    and remove_invar: "invar s \<Longrightarrow> invar (remove n s)"
    and remove_lookup: "invar s \<Longrightarrow> lookup (remove n s) = (lookup s)(n := None)"
begin

text \<open>Applying announcements one after another: the last word on a name wins.\<close>

lemma announcements:
  assumes "invar s"
    and one: "\<And>s a. apply_one s a =
      (if an_removed a then remove (an_name a) s else case an_endpoint a of Some e \<Rightarrow> put (an_name a) e s | None \<Rightarrow> s)"
    and announce: "\<And>m a. announce m a =
      (if an_removed a then m(an_name a := None)
       else case an_endpoint a of
              Some e \<Rightarrow> if an_name a \<in> dom m \<or> card (dom m) < capacity then m(an_name a \<mapsto> e) else m
            | None \<Rightarrow> m)"
  shows "invar (foldl apply_one s as) \<and> lookup (foldl apply_one s as) = foldl announce (lookup s) as"
  using assms(1)
proof (induction as arbitrary: s)
  case (Cons a as)
  have step: "invar (apply_one s a)" "lookup (apply_one s a) = announce (lookup s) a"
    using Cons.prems by (auto simp: one announce put_invar put_lookup remove_invar remove_lookup split: option.splits)
  show ?case using Cons.IH [OF step(1)] step(2) by simp
qed simp

end

definition source_lookup :: "source_set \<Rightarrow> string \<Rightarrow> endpoint option" where
  "source_lookup items n = map_option so_endpoint (find (\<lambda>s. so_name s = n) items)"

definition sources_ok :: "source_set \<Rightarrow> bool" where
  "sources_ok items \<longleftrightarrow> distinct (map so_name items) \<and> length items \<le> MAX_SOURCES"

lemma source_lookup_map_of: "source_lookup items = map_of (map (\<lambda>s. (so_name s, so_endpoint s)) items)"
  by (rule ext, induction items) (auto simp: source_lookup_def)

lemma dom_source_lookup: "dom (source_lookup items) = so_name ` set items"
  by (auto simp: source_lookup_map_of dom_map_of_conv_image_fst image_image)

lemma card_source_lookup: "distinct (map so_name items) \<Longrightarrow> card (dom (source_lookup items)) = length items"
  by (simp add: dom_source_lookup) (metis distinct_card length_map set_map)

lemma source_lookup_split:
  "n \<notin> so_name ` set as \<Longrightarrow> so_name s = n \<Longrightarrow> source_lookup (as @ s # bs) = (source_lookup (as @ bs))(n \<mapsto> so_endpoint s)"
  by (induction as) (auto simp: source_lookup_map_of fun_upd_twist)

lemma source_position:
  assumes "distinct (map so_name items)" "position (\<lambda>s. so_name s = n) items = Some i"
  shows "\<exists>as s bs. items = as @ s # bs \<and> length as = i \<and> so_name s = n \<and> n \<notin> so_name ` set as \<and> n \<notin> so_name ` set bs"
proof -
  have i: "i < length items" "so_name (items ! i) = n" using assms(2) by (auto simp: position_Some)
  then have items: "items = take i items @ items ! i # drop (Suc i) items" by (simp add: id_take_nth_drop)
  have "distinct (map so_name (take i items @ items ! i # drop (Suc i) items))" using assms(1) items by simp
  then have "n \<notin> so_name ` set (take i items)" "n \<notin> so_name ` set (drop (Suc i) items)" using i(2) by auto
  then show ?thesis using items i by (metis length_take min.absorb4)
qed

lemma position_name_None: "position (\<lambda>s. so_name s = n) items = None \<longleftrightarrow> n \<notin> so_name ` set items"
  by (auto simp: position_None)

lemma source_put_ok:
  assumes "sources_ok items"
  shows "sources_ok (fst (source_put n e items))
    \<and> source_lookup (fst (source_put n e items)) =
        (if n \<in> dom (source_lookup items) \<or> card (dom (source_lookup items)) < MAX_SOURCES then (source_lookup items)(n \<mapsto> e) else source_lookup items)"
proof (cases "position (\<lambda>s. so_name s = n) items")
  case None
  then have new: "n \<notin> so_name ` set items" by (simp add: position_name_None)
  have "fst (source_put n e items) = (if length items < MAX_SOURCES then items @ [\<lparr>so_name = n, so_endpoint = e\<rparr>] else items)"
    using None by (simp add: source_put_def)
  then show ?thesis using assms new card_source_lookup [of items] source_lookup_split [OF new, of "\<lparr>so_name = n, so_endpoint = e\<rparr>" "[]"]
    by (simp add: sources_ok_def dom_source_lookup)
next
  case (Some i)
  have d: "distinct (map so_name items)" using assms by (simp add: sources_ok_def)
  obtain as s bs where s: "items = as @ s # bs" "length as = i" "so_name s = n" "n \<notin> so_name ` set as" "n \<notin> so_name ` set bs"
    using source_position [OF d Some] by blast
  then have "fst (source_put n e items) = as @ s\<lparr>so_endpoint := e\<rparr> # bs" using Some by (auto simp: source_put_def list_update_append nth_append)
  then show ?thesis using assms s source_lookup_split [OF s(4), of _ bs] by (simp add: sources_ok_def dom_source_lookup)
qed

text \<open>Removing by swapping with the last is removing, up to the order.\<close>

lemma swap_remove_split: "length as = i \<Longrightarrow> \<exists>bs'. mset bs' = mset bs \<and> swap_remove i (as @ x # bs) = as @ bs'"
proof (cases bs rule: rev_cases)
  case Nil
  assume "length as = i"
  then show ?thesis using Nil by (auto simp: swap_remove_def list_update_append)
next
  case (snoc cs c)
  assume "length as = i"
  then show ?thesis using snoc by (intro exI [of _ "c # cs"]) (simp add: swap_remove_def list_update_append butlast_append)
qed

lemma source_lookup_mset:
  assumes "distinct (map so_name xs)" "mset xs = mset ys"
  shows "source_lookup xs = source_lookup ys"
proof -
  let ?f = "\<lambda>s. (so_name s, so_endpoint s)"
  have "mset (map so_name xs) = mset (map so_name ys)" using assms(2) by simp
  then have "distinct (map so_name ys)" using assms(1) mset_eq_imp_distinct_iff by blast
  moreover have "set (map ?f xs) = set (map ?f ys)" using assms(2) mset_eq_setD by (metis set_map)
  ultimately show ?thesis using assms(1) map_of_eqI by (auto simp: source_lookup_map_of fun_eq_iff intro!: map_of_inject_set [THEN iffD2, THEN fun_cong] simp: o_def)
qed

lemma source_remove_ok:
  assumes "sources_ok items"
  shows "sources_ok (source_remove n items) \<and> source_lookup (source_remove n items) = (source_lookup items)(n := None)"
proof (cases "position (\<lambda>s. so_name s = n) items")
  case None
  then have "source_lookup items n = None" by (metis position_name_None dom_source_lookup domIff)
  then show ?thesis using None assms by (simp add: source_remove_def fun_upd_idem)
next
  case (Some i)
  have d: "distinct (map so_name items)" using assms by (simp add: sources_ok_def)
  obtain as s bs where s: "items = as @ s # bs" "length as = i" "so_name s = n" "n \<notin> so_name ` set as" "n \<notin> so_name ` set bs"
    using source_position [OF d Some] by blast
  obtain bs' where bs': "mset bs' = mset bs" "source_remove n items = as @ bs'"
    using swap_remove_split [OF s(2), of bs s] s(1) Some by (auto simp: source_remove_def)
  have "mset (map so_name (as @ bs')) = mset (map so_name (as @ bs))" using bs'(1) by simp
  moreover have "distinct (map so_name (as @ bs))" using d s(1) by auto
  ultimately have dist: "distinct (map so_name (as @ bs'))" using mset_eq_imp_distinct_iff by blast
  have len: "length bs' = length bs" using bs'(1) by (metis size_mset)
  have "source_lookup (as @ bs') = source_lookup (as @ bs)" using source_lookup_mset [OF dist] bs'(1) by simp
  moreover have "n \<notin> dom (source_lookup (as @ bs))" using s(4,5) by (auto simp: dom_source_lookup)
  ultimately show ?thesis using assms s bs'(2) dist len source_lookup_split [OF s(4,3), of bs]
    by (auto simp: sources_ok_def fun_upd_idem domIff)
qed

interpretation srcs: source_store MAX_SOURCES sources_ok source_lookup "\<lambda>n e s. fst (source_put n e s)" source_remove
proof
  show "sources_ok s \<Longrightarrow> finite (dom (source_lookup s)) \<and> card (dom (source_lookup s)) \<le> MAX_SOURCES" for s
    using card_source_lookup [of s] by (simp add: dom_source_lookup sources_ok_def)
qed (use source_put_ok source_remove_ok in auto)

section \<open>What the set may hold\<close>

text \<open>A source that can be shown and dialled: its name is a source name, its endpoint one the target grammar
  accepts.\<close>

definition endpoint_ok :: "endpoint \<Rightarrow> bool" where
  "endpoint_ok ep \<longleftrightarrow> (host_ok True (ep_host ep) \<or> host_ok False (ep_host ep)) \<and> 1 \<le> ep_port ep \<and> ep_port ep \<le> 65535"

definition source_valid :: "source \<Rightarrow> bool" where
  "source_valid s \<longleftrightarrow> (\<exists>cs. from_utf8 (so_name s) = Some cs \<and> is_valid_source_name cs) \<and> endpoint_ok (so_endpoint s)"

definition announcement_ok :: "announcement \<Rightarrow> bool" where
  "announcement_ok a \<longleftrightarrow> (\<exists>cs. from_utf8 (an_name a) = Some cs \<and> is_valid_source_name cs) \<and> (\<forall>ep. an_endpoint a = Some ep \<longrightarrow> endpoint_ok ep)"

lemma target_endpoint_ok: "parse_direct_target v = Inr t \<Longrightarrow> endpoint_ok \<lparr>ep_host = dt_host t, ep_port = dt_port t\<rparr>"
  using parse_direct_target_sound [of v t] unfolding endpoint_ok_def parse_port_Some by (auto, metis (full_types))

lemma endpoint_from_parts_ok: "endpoint_from_parts address port = Some ep \<Longrightarrow> endpoint_ok ep"
  by (auto simp: endpoint_from_parts_def Let_def ok_def target_endpoint_ok bind_eq_Some_conv split: if_splits sum.splits)

lemma read_announcement_ok: "read_announcement doc = Some a \<Longrightarrow> announcement_ok a"
  by (auto simp: read_announcement_def announcement_ok_def announced_endpoint_def Let_def bind_eq_Some_conv endpoint_from_parts_ok
      split: if_splits option.splits)

lemma frame_announcement_ok: "frame_announcement f = Some a \<Longrightarrow> announcement_ok a"
  by (auto simp: frame_announcement_def read_announcement_ok split: if_splits)

lemma set_swap_remove: "set (swap_remove i xs) \<subseteq> set xs"
  by (cases "xs = []") (auto simp: swap_remove_def dest!: in_set_butlastD set_update_subset_insert [THEN subsetD])

lemma source_put_set: "s \<in> set (fst (source_put n e items)) \<Longrightarrow> s \<in> set items \<or> so_name s = n \<and> so_endpoint s = e"
  by (auto simp: source_put_def position_Some split: option.splits if_splits dest!: set_update_subset_insert [THEN subsetD])

lemma source_remove_set: "set (source_remove n items) \<subseteq> set items"
  using set_swap_remove [THEN subsetD] by (auto simp: source_remove_def split: option.splits)

lemma apply_announcement_valid:
  assumes "\<forall>s\<in>set out. source_valid s" "announcement_ok a"
  shows "\<forall>s\<in>set (apply_announcement out a). source_valid s"
  using assms source_remove_set [of "an_name a" out]
  by (auto simp: apply_announcement_def announcement_ok_def source_valid_def split: option.splits dest!: source_put_set)

text \<open>The announcements as updates of a map: the last word on a name wins, and a new name beyond the
  capacity is not taken.\<close>

definition announce :: "(string \<rightharpoonup> endpoint) \<Rightarrow> announcement \<Rightarrow> (string \<rightharpoonup> endpoint)" where
  "announce m a =
     (if an_removed a then m(an_name a := None)
      else case an_endpoint a of
             Some e \<Rightarrow> if an_name a \<in> dom m \<or> card (dom m) < MAX_SOURCES then m(an_name a \<mapsto> e) else m
           | None \<Rightarrow> m)"

lemma announcements_refine:
  assumes "sources_ok out" "\<forall>s\<in>set out. source_valid s" "\<forall>a\<in>set as. announcement_ok a"
  shows "sources_ok (foldl apply_announcement out as) \<and> (\<forall>s\<in>set (foldl apply_announcement out as). source_valid s)
    \<and> source_lookup (foldl apply_announcement out as) = foldl announce (source_lookup out) as"
proof -
  have "\<forall>s\<in>set (foldl apply_announcement out as). source_valid s"
    using assms(2,3)
  proof (induction as arbitrary: out)
    case (Cons a as)
    then show ?case using apply_announcement_valid [of out a] by simp
  qed simp
  then show ?thesis using srcs.announcements [OF assms(1), of apply_announcement announce as]
    by (simp add: apply_announcement_def announce_def)
qed

text \<open>The frames the rounds of the loop deliver, and what the loop makes of them.\<close>

fun received :: "nat \<Rightarrow> (nat \<times> io_answer list) list \<Rightarrow> channel \<Rightarrow> frame list" where
  "received deadline [] c = []"
| "received deadline ((now, answers) # rounds) c =
     (case receive deadline c answers of
        None \<Rightarrow> []
      | Some (c', r, _) \<Rightarrow> if r = RecvOk then ch_frame c' # received deadline rounds c' else [])"

definition heard :: "frame list \<Rightarrow> announcement list" where
  "heard fs = List.map_filter frame_announcement fs"

lemma heard_ok: "\<forall>a\<in>set (heard fs). announcement_ok a"
  by (induction fs) (auto simp: heard_def List.map_filter_simps frame_announcement_ok split: option.splits)

lemma absorb_frames: "foldl absorb_frame out fs = foldl apply_announcement out (heard fs)"
  by (induction fs arbitrary: out) (auto simp: heard_def List.map_filter_simps absorb_frame_def split: option.splits)

lemma server_loop_frames:
  "server_loop deadline rounds c out = Some out' \<Longrightarrow> \<exists>k. out' = foldl absorb_frame out (take k (received deadline rounds c))"
proof (induction deadline rounds c out rule: server_loop.induct)
  case (2 deadline now answers rounds c out)
  show ?case
  proof (cases "now < deadline \<and> length out < MAX_SOURCES")
    case False
    then show ?thesis using "2.prems" by (intro exI [of _ 0]) simp
  next
    case True
    then obtain c' r e where r: "receive deadline c answers = Some (c', r, e)"
      using "2.prems" by (auto simp: bind_eq_Some_conv)
    show ?thesis
    proof (cases "r = RecvOk")
      case False
      then show ?thesis using "2.prems" True r by (intro exI [of _ 0]) simp
    next
      case ok: True
      then have "server_loop deadline rounds c' (absorb_frame out (ch_frame c')) = Some out'" using "2.prems" True r by simp
      then obtain k where "out' = foldl absorb_frame (absorb_frame out (ch_frame c')) (take k (received deadline rounds c'))"
        using "2.IH" [of "(c', r, e)" c' "(r, e)" r e] True r ok by auto
      then show ?thesis using r ok by (intro exI [of _ "Suc k"]) simp
    qed
  qed
qed (simp add: exI [of _ 0])

end
