(* ===== verification/Dbus.thy ===== *)
theory Dbus
  imports Buf Channel
begin

text \<open>
  \<^verbatim>\<open>crates/omt-receiver/src/dbus.rs\<close>: the marshalling of D-Bus messages, the checked parse of what the bus
  sends, and the connection that calls methods and queues signals. Indexing outside a slice and a
  subtraction below zero are panics: the outer \<open>None\<close> of an operation; \<open>Some None\<close> is the source's own
  refusal.
\<close>

section \<open>Refusals and panics\<close>

type_synonym 'a attempt = "'a option option"

definition bind2 :: "'a attempt \<Rightarrow> ('a \<Rightarrow> 'b attempt) \<Rightarrow> 'b attempt" where
  [std_defs]: "bind2 x f = (case x of None \<Rightarrow> None | Some None \<Rightarrow> Some None | Some (Some v) \<Rightarrow> f v)"

abbreviation refuse :: "'a attempt" where "refuse \<equiv> Some None"
abbreviation accept :: "'a \<Rightarrow> 'a attempt" where "accept v \<equiv> Some (Some v)"

definition next_multiple_of :: "nat \<Rightarrow> nat \<Rightarrow> nat" where
  [std_defs]: "next_multiple_of p n = div_ceil p n * n"

lemma bind_SomeE:
  assumes "Option.bind x f = Some y"
  obtains v where "x = Some v" "f v = Some y"
  using assms by (cases x) auto

section \<open>Parsing\<close>

abbreviation (input) MAX_MESSAGE :: nat where "MAX_MESSAGE \<equiv> 262144"
abbreviation (input) MAX_PENDING :: nat where "MAX_PENDING \<equiv> 256"
abbreviation (input) METHOD_CALL :: nat where "METHOD_CALL \<equiv> 1"
abbreviation (input) METHOD_RETURN :: nat where "METHOD_RETURN \<equiv> 2"
abbreviation (input) DBUS_ERROR :: nat where "DBUS_ERROR \<equiv> 3"
abbreviation (input) SIGNAL :: nat where "SIGNAL \<equiv> 4"
abbreviation (input) FIELD_PATH :: nat where "FIELD_PATH \<equiv> 1"
abbreviation (input) FIELD_INTERFACE :: nat where "FIELD_INTERFACE \<equiv> 2"
abbreviation (input) FIELD_MEMBER :: nat where "FIELD_MEMBER \<equiv> 3"
abbreviation (input) FIELD_ERROR_NAME :: nat where "FIELD_ERROR_NAME \<equiv> 4"
abbreviation (input) FIELD_REPLY_SERIAL :: nat where "FIELD_REPLY_SERIAL \<equiv> 5"
abbreviation (input) FIELD_DESTINATION :: nat where "FIELD_DESTINATION \<equiv> 6"
abbreviation (input) FIELD_SENDER :: nat where "FIELD_SENDER \<equiv> 7"
abbreviation (input) FIELD_SIGNATURE :: nat where "FIELD_SIGNATURE \<equiv> 8"
abbreviation (input) FIELD_UNIX_FDS :: nat where "FIELD_UNIX_FDS \<equiv> 9"

type_synonym span = "nat \<times> nat"

record message =
  dm_raw :: "u8 list"
  dm_big :: bool
  dm_kind :: nat
  dm_serial :: nat
  dm_reply_serial :: nat
  dm_path :: "span option"
  dm_interface :: "span option"
  dm_member :: "span option"
  dm_signature :: "span option"
  dm_body :: span

definition load32 :: "u8 list \<Rightarrow> nat \<Rightarrow> bool \<Rightarrow> nat option" where
  "load32 raw p big = map_option (if big then be_val else le_val) (get_range raw p (p + 4))"

text \<open>Whether the padding up to the alignment is there and zero, and the position.\<close>

definition align_to :: "u8 list \<Rightarrow> nat \<Rightarrow> nat \<Rightarrow> nat \<Rightarrow> (bool \<times> nat) option" where
  "align_to raw pos fin alignment =
     (let aligned = next_multiple_of pos alignment
      in if fin < aligned then Some (False, pos)
         else do { pad \<leftarrow> get_range raw pos aligned;
                   Some (if list_ex (\<lambda>b. b \<noteq> 0) pad then (False, pos) else (True, aligned)) })"

definition str_tail :: "u8 list \<Rightarrow> nat \<Rightarrow> nat \<Rightarrow> nat \<Rightarrow> (span option \<times> nat) option" where
  "str_tail raw pos fin len =
     do { d \<leftarrow> checked_sub fin pos;
          if d \<le> len then Some (None, pos)
          else do { z \<leftarrow> get_at raw (pos + len);
                    if z \<noteq> 0 then Some (None, pos)
                    else do { s \<leftarrow> get_range raw pos (pos + len);
                              Some (if 0 \<in> set s \<or> \<not> utf8_valid (of_bytes s) then (None, pos) else (Some (pos, pos + len), pos + len + 1)) } } }"

definition read_str :: "u8 list \<Rightarrow> nat \<Rightarrow> nat \<Rightarrow> bool \<Rightarrow> bool \<Rightarrow> (span option \<times> nat) option" where
  "read_str raw pos fin big signature =
     (if signature then
        (case get_at raw pos of
           None \<Rightarrow> Some (None, pos)
         | Some b \<Rightarrow> if \<not> pos < fin then Some (None, pos) else str_tail raw (pos + 1) fin (unat b))
      else
        do { (aligned, pos) \<leftarrow> align_to raw pos fin 4;
             if \<not> aligned then Some (None, pos)
             else do { d \<leftarrow> checked_sub fin pos;
                       if d < 4 then Some (None, pos)
                       else do { len \<leftarrow> load32 raw pos big; str_tail raw (pos + 4) fin len } } })"

definition message_length :: "u8 list \<Rightarrow> nat attempt" where
  "message_length data =
     (if length data < 16 then refuse
      else if data ! 0 \<noteq> 0x6C \<and> data ! 0 \<noteq> 0x42 then refuse
      else if data ! 3 \<noteq> 1 then refuse
      else
        (let big = (data ! 0 = 0x42)
         in do { body \<leftarrow> load32 data 4 big;
                 fields \<leftarrow> load32 data 12 big;
                 let total = next_multiple_of (16 + fields) 8 + body in
                 if total \<le> MAX_MESSAGE then accept total else refuse }))"

text \<open>The \<open>?\<close> on \<open>align_to\<close> and \<open>read_str\<close>, and four aligned bytes.\<close>

definition align_q :: "u8 list \<Rightarrow> nat \<Rightarrow> nat \<Rightarrow> nat \<Rightarrow> nat attempt" where
  "align_q raw pos fin n = map_option (\<lambda>(good, pos). if good then Some pos else None) (align_to raw pos fin n)"

definition str_q :: "u8 list \<Rightarrow> nat \<Rightarrow> nat \<Rightarrow> bool \<Rightarrow> bool \<Rightarrow> (span \<times> nat) attempt" where
  "str_q raw pos fin big signature = map_option (\<lambda>(r, pos). map_option (\<lambda>s. (s, pos)) r) (read_str raw pos fin big signature)"

definition word_q :: "u8 list \<Rightarrow> nat \<Rightarrow> nat \<Rightarrow> bool \<Rightarrow> (nat \<times> nat) attempt" where
  "word_q raw pos fin big =
     bind2 (align_q raw pos fin 4) (\<lambda>pos.
       do { d \<leftarrow> checked_sub fin pos;
            if d < 4 then refuse else do { v \<leftarrow> load32 raw pos big; accept (v, pos + 4) } })"

text \<open>The value of one header field, by its code and the one byte of its signature.\<close>

definition field_value :: "u8 list \<Rightarrow> bool \<Rightarrow> nat \<Rightarrow> nat \<Rightarrow> u8 \<Rightarrow> nat \<Rightarrow> message \<Rightarrow> (message \<times> nat) attempt" where
  "field_value raw big fin code sig pos m =
     (if code \<in> {FIELD_PATH, FIELD_INTERFACE, FIELD_MEMBER, FIELD_ERROR_NAME, FIELD_DESTINATION, FIELD_SENDER} then
        (if sig \<noteq> (if code = FIELD_PATH then 0x6F else 0x73) then refuse
         else bind2 (str_q raw pos fin big False) (\<lambda>(s, pos).
           accept (if code = FIELD_PATH then m\<lparr>dm_path := Some s\<rparr>
                   else if code = FIELD_INTERFACE then m\<lparr>dm_interface := Some s\<rparr>
                   else if code = FIELD_MEMBER then m\<lparr>dm_member := Some s\<rparr>
                   else m, pos)))
      else if code = FIELD_SIGNATURE then
        (if sig \<noteq> 0x67 then refuse
         else bind2 (str_q raw pos fin big True) (\<lambda>(s, pos). accept (m\<lparr>dm_signature := Some s\<rparr>, pos)))
      else if code = FIELD_REPLY_SERIAL \<or> code = FIELD_UNIX_FDS then
        (if sig \<noteq> 0x75 then refuse
         else bind2 (word_q raw pos fin big) (\<lambda>(v, pos).
           if code = FIELD_REPLY_SERIAL then accept (m\<lparr>dm_reply_serial := v\<rparr>, pos)
           else if v \<noteq> 0 then refuse
           else accept (m, pos)))
      else if sig = 0x73 \<or> sig = 0x6F then bind2 (str_q raw pos fin big False) (\<lambda>(_, pos). accept (m, pos))
      else if sig = 0x67 then bind2 (str_q raw pos fin big True) (\<lambda>(_, pos). accept (m, pos))
      else if sig = 0x75 \<or> sig = 0x69 then
        bind2 (align_q raw pos fin 4) (\<lambda>pos. do { d \<leftarrow> checked_sub fin pos; if d < 4 then refuse else accept (m, pos + 4) })
      else if sig = 0x79 then (if fin \<le> pos then refuse else accept (m, pos + 1))
      else refuse)"

definition field_step :: "u8 list \<Rightarrow> bool \<Rightarrow> nat \<Rightarrow> nat \<Rightarrow> message \<Rightarrow> (message \<times> nat) attempt" where
  "field_step raw big fin pos m =
     bind2 (align_q raw pos fin 8) (\<lambda>pos.
       if fin \<le> pos then refuse
       else do { code \<leftarrow> get_at raw pos;
                 bind2 (str_q raw (pos + 1) fin big True) (\<lambda>((a, b), pos).
                   if b - a \<noteq> 1 then refuse
                   else do { sig \<leftarrow> get_at raw a; field_value raw big fin (unat code) sig pos m }) })"

lemma bind2_Some: "bind2 x f = accept v \<longleftrightarrow> (\<exists>u. x = accept u \<and> f u = accept v)"
  by (auto simp: bind2_def split: option.splits)

lemma next_multiple_of_ge: "0 < n \<Longrightarrow> p \<le> next_multiple_of p n"
  using div_ceil_bounds [of n p] by (simp add: next_multiple_of_def)

lemma align_q_accept: "align_q raw pos fin n = accept p \<Longrightarrow> 0 < n \<Longrightarrow> pos \<le> p \<and> p \<le> fin \<and> p = next_multiple_of pos n"
  using next_multiple_of_ge [of n pos]
  by (auto simp: align_q_def align_to_def Let_def bind_eq_Some_conv split: if_splits)

lemma str_tail_range: "str_tail raw pos fin len = Some (Some (a, b), p) \<Longrightarrow> a = pos \<and> b = pos + len \<and> p = b + 1 \<and> p \<le> fin \<and> b < length raw"
  by (auto simp: str_tail_def bind_eq_Some_conv checked_sub_def get_at_def get_range_def split: if_splits)

lemma str_q_accept: "str_q raw pos fin big sg = accept ((a, b), p) \<Longrightarrow> pos < p \<and> a \<le> b \<and> p = b + 1 \<and> p \<le> fin \<and> b < length raw"
  using next_multiple_of_ge [of 4 pos]
  by (cases sg)
    (auto simp: str_q_def read_str_def align_to_def Let_def bind_eq_Some_conv split: if_splits option.splits dest!: str_tail_range)

lemma word_q_accept: "word_q raw pos fin big = accept (v, p) \<Longrightarrow> pos < p \<and> p \<le> fin"
  by (auto simp: word_q_def bind2_Some bind_eq_Some_conv checked_sub_def split: if_splits dest!: align_q_accept)

text \<open>What holds of the outcome of a field, whenever there is one.\<close>

definition yields :: "(message \<Rightarrow> nat \<Rightarrow> bool) \<Rightarrow> (message \<times> nat) attempt \<Rightarrow> bool" where
  "yields P x \<longleftrightarrow> (\<forall>m p. x = accept (m, p) \<longrightarrow> P m p)"

lemma yields_rules:
  "yields P refuse"
  "P m p \<Longrightarrow> yields P (accept (m, p))"
  "(c \<Longrightarrow> yields P x) \<Longrightarrow> (\<not> c \<Longrightarrow> yields P y) \<Longrightarrow> yields P (if c then x else y)"
  by (auto simp: yields_def)

lemma yields_bind: "(\<And>s q. x = accept (s, q) \<Longrightarrow> yields P (f (s, q))) \<Longrightarrow> yields P (bind2 x f)"
  unfolding yields_def bind2_Some by (metis surj_pair)

lemma field_value_accept: "pos \<le> fin \<Longrightarrow> yields (\<lambda>m p. pos \<le> p \<and> p \<le> fin) (field_value raw big fin code sig pos m)"
  unfolding field_value_def
  by (intro yields_rules yields_bind; (simp only: prod.case)?; (intro yields_rules)?)
    (auto simp: yields_def bind2_Some bind_eq_Some_conv checked_sub_def split: if_splits dest!: align_q_accept str_q_accept word_q_accept)

lemma field_value_head:
  "yields (\<lambda>m' p. dm_kind m' = dm_kind m \<and> dm_serial m' = dm_serial m \<and> dm_big m' = dm_big m) (field_value raw big fin code sig pos m)"
  unfolding field_value_def
  by (intro yields_rules yields_bind; (simp only: prod.case)?; (intro yields_rules)?)
    (auto simp: yields_def bind2_Some bind_eq_Some_conv split: if_splits)

lemma field_step_accept:
  assumes "field_step raw big fin pos m = accept (m', p)"
  shows "pos < p \<and> p \<le> fin"
proof -
  obtain p1 a b p2 sig code where s: "align_q raw pos fin 8 = accept p1" "str_q raw (p1 + 1) fin big True = accept ((a, b), p2)"
    "field_value raw big fin code sig p2 m = accept (m', p)"
    using assms by (auto simp: field_step_def bind2_Some bind_eq_Some_conv split: if_splits)
  have "pos \<le> p1" using align_q_accept [OF s(1)] by simp
  moreover have "p1 < p2" "p2 \<le> fin" using str_q_accept [OF s(2)] by auto
  ultimately show ?thesis using field_value_accept [OF \<open>p2 \<le> fin\<close>, of raw big code sig m] s(3) by (auto simp: yields_def)
qed

function fields_loop :: "u8 list \<Rightarrow> bool \<Rightarrow> nat \<Rightarrow> nat \<Rightarrow> message \<Rightarrow> message attempt" where
  "fields_loop raw big fin pos m =
     (if \<not> pos < fin then accept m
      else (case field_step raw big fin pos m of
              None \<Rightarrow> None
            | Some None \<Rightarrow> refuse
            | Some (Some (m, pos)) \<Rightarrow> fields_loop raw big fin pos m))"
  by pat_completeness auto
termination
proof (relation "measure (\<lambda>(raw, big, fin, pos, m). fin - pos)", goal_cases)
  case (2 raw big fin pos m r p m' pos')
  then show ?case using field_step_accept [of raw big fin pos m m' pos'] by auto
qed simp

declare fields_loop.simps [simp del]

definition parse_message :: "u8 list \<Rightarrow> message attempt" where
  "parse_message raw =
     bind2 (message_length raw) (\<lambda>total.
       if total \<noteq> length raw then refuse
       else
         (let big = (raw ! 0 = 0x42); kind = unat (raw ! 1)
          in do { serial \<leftarrow> load32 raw 8 big;
                  if \<not> (1 \<le> kind \<and> kind \<le> 4) \<or> serial = 0 then refuse
                  else
                    do { fields_len \<leftarrow> load32 raw 12 big;
                         let m = \<lparr>dm_raw = [], dm_big = big, dm_kind = kind, dm_serial = serial, dm_reply_serial = 0, dm_path = None,
                               dm_interface = None, dm_member = None, dm_signature = None, dm_body = (0, 0)\<rparr>; fin = 16 + fields_len in
                         bind2 (fields_loop raw big fin 16 m) (\<lambda>m.
                           (let body = next_multiple_of fin 8
                            in if length raw < body then refuse
                               else do { pad \<leftarrow> get_range raw fin body;
                                         if list_ex (\<lambda>b. b \<noteq> 0) pad then refuse
                                         else accept (m\<lparr>dm_body := (body, length raw), dm_raw := raw\<rparr>) })) } }))"

text \<open>The text of a range.\<close>

definition span_text :: "message \<Rightarrow> span option \<Rightarrow> string attempt" where
  "span_text m r =
     (case r of
        None \<Rightarrow> refuse
      | Some (a, b) \<Rightarrow> do { s \<leftarrow> get_range (dm_raw m) a b; Some (if utf8_valid (of_bytes s) then Some (of_bytes s) else None) })"

definition path_of :: "message \<Rightarrow> string attempt" where
  "path_of m = span_text m (dm_path m)"

definition interface_of :: "message \<Rightarrow> string attempt" where
  "interface_of m = span_text m (dm_interface m)"

definition member_of :: "message \<Rightarrow> string attempt" where
  "member_of m = span_text m (dm_member m)"

definition signature_of :: "message \<Rightarrow> string option" where
  "signature_of m = map_option (\<lambda>s. case s of None \<Rightarrow> [] | Some s \<Rightarrow> s) (span_text m (dm_signature m))"

section \<open>Reading a body\<close>

record body_reader =
  br_message :: message
  br_pos :: nat
  br_end :: nat
  br_failed :: bool

definition body_of :: "message \<Rightarrow> body_reader" where
  "body_of m = \<lparr>br_message = m, br_pos = fst (dm_body m), br_end = snd (dm_body m), br_failed = False\<rparr>"

definition br_fail :: "body_reader \<Rightarrow> body_reader" where
  "br_fail r = r\<lparr>br_failed := True\<rparr>"

definition br_align :: "nat \<Rightarrow> body_reader \<Rightarrow> (bool \<times> body_reader) option" where
  "br_align n r =
     (if br_failed r then Some (False, r)
      else do { (good, pos) \<leftarrow> align_to (dm_raw (br_message r)) (br_pos r) (br_end r) n;
                Some (good, r\<lparr>br_pos := pos, br_failed := \<not> good\<rparr>) })"

text \<open>\<open>n\<close> aligned bytes, or zero and the failure.\<close>

definition br_number :: "nat \<Rightarrow> body_reader \<Rightarrow> (nat \<times> body_reader) option" where
  "br_number n r =
     do { (good, r) \<leftarrow> br_align n r;
          if \<not> good then Some (0, br_fail r)
          else do { d \<leftarrow> checked_sub (br_end r) (br_pos r);
                    if d < n then Some (0, br_fail r)
                    else do { bs \<leftarrow> get_range (dm_raw (br_message r)) (br_pos r) (br_pos r + n);
                              Some (if dm_big (br_message r) then be_val bs else le_val bs, r\<lparr>br_pos := br_pos r + n\<rparr>) } } }"

definition br_u32 :: "body_reader \<Rightarrow> (nat \<times> body_reader) option" where
  "br_u32 r = br_number 4 r"

definition br_i32 :: "body_reader \<Rightarrow> (int \<times> body_reader) option" where
  "br_i32 r = map_option (\<lambda>(v, r). (signed_of 32 v, r)) (br_u32 r)"

definition br_u16 :: "body_reader \<Rightarrow> (nat \<times> body_reader) option" where
  "br_u16 r = br_number 2 r"

definition br_bool :: "body_reader \<Rightarrow> (bool \<times> body_reader) option" where
  "br_bool r = map_option (\<lambda>(v, r). (v = 1, if 1 < v then br_fail r else r)) (br_u32 r)"

definition br_string :: "body_reader \<Rightarrow> (string \<times> body_reader) option" where
  "br_string r =
     (if br_failed r then Some ([], r)
      else do { (s, pos) \<leftarrow> read_str (dm_raw (br_message r)) (br_pos r) (br_end r) (dm_big (br_message r)) False;
                let r = r\<lparr>br_pos := pos\<rparr> in
                case s of
                  None \<Rightarrow> Some ([], br_fail r)
                | Some (a, b) \<Rightarrow>
                    do { s \<leftarrow> get_range (dm_raw (br_message r)) a b;
                         Some (if utf8_valid (of_bytes s) then of_bytes s else [], r) } })"

lemma br_number_advances: "br_number n r = Some (v, r') \<Longrightarrow> 0 < n \<Longrightarrow> br_failed r' \<or> br_pos r < br_pos r'"
proof -
  assume n: "br_number n r = Some (v, r')" "0 < n"
  obtain good r1 where r1: "br_align n r = Some (good, r1)" using n(1) by (auto simp: br_number_def bind_eq_Some_conv)
  show "br_failed r' \<or> br_pos r < br_pos r'"
  proof (cases good)
    case False
    then show ?thesis using n(1) r1 by (auto simp: br_number_def br_fail_def)
  next
    case True
    then have "br_pos r \<le> br_pos r1" using r1 next_multiple_of_ge [OF n(2), of "br_pos r"]
      by (auto simp: br_align_def align_to_def Let_def bind_eq_Some_conv split: if_splits)
    then show ?thesis using n r1 True by (auto simp: br_number_def br_fail_def bind_eq_Some_conv split: if_splits)
  qed
qed

function skip_loop :: "nat \<Rightarrow> body_reader \<Rightarrow> body_reader option" where
  "skip_loop stop r =
     (if br_pos r < stop \<and> \<not> br_failed r then
        (case br_u32 r of
           None \<Rightarrow> None
         | Some (inner, r') \<Rightarrow>
             if br_failed r' \<or> stop - br_pos r' < inner then Some (br_fail r')
             else skip_loop stop (r'\<lparr>br_pos := br_pos r' + inner\<rparr>))
      else Some (if br_pos r \<noteq> stop then br_fail r else r))"
  by pat_completeness auto
termination
proof (relation "measure (\<lambda>(stop, r). stop - br_pos r)", goal_cases)
  case (2 stop r p inner r')
  then show ?case using br_number_advances [of 4 r inner r'] by (auto simp: br_u32_def)
qed simp

declare skip_loop.simps [simp del]

definition skip_aay :: "body_reader \<Rightarrow> body_reader option" where
  "skip_aay r =
     do { (outer, r) \<leftarrow> br_u32 r;
          if br_failed r then Some r
          else do { (good, r) \<leftarrow> br_align 4 r;
                    if \<not> good then Some r
                    else do { d \<leftarrow> checked_sub (br_end r) (br_pos r);
                              if d < outer then Some (br_fail r) else skip_loop (br_pos r + outer) r } } }"

section \<open>Marshalling\<close>

datatype arg = ArgI32 int | ArgU32 nat | ArgStr string | ArgPath string

definition w_align :: "u8 list \<Rightarrow> nat \<Rightarrow> u8 list" where
  "w_align b n = b @ replicate (next_multiple_of (length b) n - length b) 0"

definition w_u32 :: "u8 list \<Rightarrow> nat \<Rightarrow> u8 list" where
  "w_u32 b v = w_align b 4 @ le_bytes 4 v"

definition w_str :: "u8 list \<Rightarrow> string \<Rightarrow> u8 list option" where
  "w_str b s = (if length s \<le> U32_MAX then Some (w_u32 b (length s) @ as_bytes s @ [0]) else None)"

definition w_sig :: "u8 list \<Rightarrow> string \<Rightarrow> u8 list option" where
  "w_sig b s = (if length s \<le> 255 then Some (b @ [word_of_nat (length s)] @ as_bytes s @ [0]) else None)"

definition w_field :: "u8 list \<Rightarrow> nat \<Rightarrow> u8 \<Rightarrow> string \<Rightarrow> u8 list option" where
  "w_field b code kind s =
     (let b = w_align b 8 @ [word_of_nat code] @ [1, kind, 0]
      in if kind = 0x67 then w_sig b s else w_str b s)"

definition w_arg :: "arg \<Rightarrow> string \<times> u8 list \<Rightarrow> (string \<times> u8 list) option" where
  "w_arg a sb =
     (case (a, sb) of
        (ArgI32 v, signature, body) \<Rightarrow> Some (signature @ ''i'', w_u32 body (unsigned_of 32 v))
      | (ArgU32 v, signature, body) \<Rightarrow> Some (signature @ ''u'', w_u32 body v)
      | (ArgStr s, signature, body) \<Rightarrow> map_option (\<lambda>b. (signature @ ''s'', b)) (w_str body s)
      | (ArgPath s, signature, body) \<Rightarrow> map_option (\<lambda>b. (signature @ ''o'', b)) (w_str body s))"

fun w_args :: "arg list \<Rightarrow> string \<times> u8 list \<Rightarrow> (string \<times> u8 list) option" where
  "w_args [] sb = Some sb"
| "w_args (a # as) sb = Option.bind (w_arg a sb) (w_args as)"

definition w_optional :: "u8 list \<Rightarrow> nat \<Rightarrow> u8 \<Rightarrow> string option \<Rightarrow> u8 list option" where
  "w_optional b code kind s = (case s of None \<Rightarrow> Some b | Some s \<Rightarrow> w_field b code kind s)"

definition call_start :: "nat \<Rightarrow> nat \<Rightarrow> nat \<Rightarrow> u8 list" where
  "call_start serial flags body_len = w_u32 ([0x6C, word_of_nat METHOD_CALL, word_of_nat flags, 1] @ le_bytes 4 body_len @ le_bytes 4 serial) 0"

definition call_fields :: "u8 list \<Rightarrow> string option \<Rightarrow> string \<Rightarrow> string option \<Rightarrow> string \<Rightarrow> string option \<Rightarrow> u8 list option" where
  "call_fields out destination path interface member signature =
     do { out \<leftarrow> w_field out FIELD_PATH 0x6F path;
          out \<leftarrow> w_optional out FIELD_INTERFACE 0x73 interface;
          out \<leftarrow> w_field out FIELD_MEMBER 0x73 member;
          out \<leftarrow> w_optional out FIELD_DESTINATION 0x73 destination;
          w_optional out FIELD_SIGNATURE 0x67 signature }"

definition build_call :: "nat \<Rightarrow> nat \<Rightarrow> string option \<Rightarrow> string \<Rightarrow> string option \<Rightarrow> string \<Rightarrow> arg list \<Rightarrow> u8 list option" where
  "build_call serial flags destination path interface member args =
     (if 32 \<le> length args then None
      else
        do { (signature, body) \<leftarrow> w_args args ([], []);
             if U32_MAX < length body then None
             else
               (let start = call_start serial flags (length body)
                in do { out \<leftarrow> call_fields start destination path interface member (if args \<noteq> [] then Some signature else None);
                        if U32_MAX < length out - length start then None
                        else
                          (let fields_len = length out - length start; out = w_align out 8 @ body; out = take 12 out @ le_bytes 4 fields_len @ drop 16 out
                           in if length out \<le> MAX_MESSAGE then Some out else None) }) })"

section \<open>The connection\<close>

text \<open>The socket answers each filling of the inbox: the deadline has passed, the socket refused the
  timeout or failed, or the read gave bytes (none when the peer closed; interrupted reads are retried). Each
  send succeeds or fails with an error. When the answers listed are used up the deadline has passed: from then
  on every send and every filling times out. The bytes sent are kept.\<close>

datatype bus_answer = BusExpired | BusFailed string | BusBytes "u8 list"

record bus =
  bus_serial :: nat
  bus_pending :: "message list"
  bus_inbox :: "u8 list"
  bus_answers :: "bus_answer list"
  bus_sends :: "(string + unit) list"
  bus_sent :: "u8 list"

definition send_all :: "u8 list \<Rightarrow> bus \<Rightarrow> ((string + unit) \<times> bus) option" where
  "send_all data b =
     (case bus_sends b of
        [] \<Rightarrow> Some (Inl ''D-Bus write timed out'', b)
      | r # rest \<Rightarrow> Some (r, b\<lparr>bus_sends := rest, bus_sent := if is_ok r then bus_sent b @ data else bus_sent b\<rparr>))"

definition bus_fill :: "string \<Rightarrow> string \<Rightarrow> bus \<Rightarrow> ((string + unit) \<times> bus) option" where
  "bus_fill timeout_text closed_text b =
     (case bus_answers b of
        [] \<Rightarrow> Some (Inl timeout_text, b)
      | a # rest \<Rightarrow>
          (let b = b\<lparr>bus_answers := rest\<rparr>
           in Some (case a of
                      BusExpired \<Rightarrow> (Inl timeout_text, b)
                    | BusFailed e \<Rightarrow> (Inl e, b)
                    | BusBytes chunk \<Rightarrow>
                        if chunk = [] then (Inl closed_text, b)
                        else if MAX_MESSAGE * 2 < length (bus_inbox b) + length chunk then (Inl ''D-Bus input exceeds its buffer'', b)
                        else (Inr (), b\<lparr>bus_inbox := bus_inbox b @ chunk\<rparr>))))"

lemma bus_fill_answers: "bus_fill t c b = Some (Inr u, b') \<Longrightarrow> \<exists>a. bus_answers b = a # bus_answers b'"
  by (auto simp: bus_fill_def Let_def split: list.splits bus_answer.splits if_splits)

definition find_crlf :: "u8 list \<Rightarrow> nat option" where
  "find_crlf inbox = find_str [CHR 0x0D, CHR 0x0A] (of_bytes inbox)"

function auth_line :: "bus \<Rightarrow> ((string + string) \<times> bus) option" where
  "auth_line b =
     (case find_crlf (bus_inbox b) of
        Some e \<Rightarrow> Some (Inr (of_bytes (take e (bus_inbox b))), b\<lparr>bus_inbox := drop (e + 2) (bus_inbox b)\<rparr>)
      | None \<Rightarrow>
          if 512 \<le> length (bus_inbox b) then Some (Inl ''D-Bus authentication line too long'', b)
          else (case bus_fill ''D-Bus authentication timed out'' ''D-Bus connection closed during authentication'' b of
                  None \<Rightarrow> None
                | Some (Inl e, b) \<Rightarrow> Some (Inl e, b)
                | Some (Inr _, b) \<Rightarrow> auth_line b))"
  by pat_completeness auto
termination
proof (relation "measure (\<lambda>b. length (bus_answers b))", goal_cases)
  case (2 b p r b' u)
  then show ?case using bus_fill_answers [of _ _ b u b'] by fastforce
qed simp

declare auth_line.simps [simp del]

definition authenticate :: "nat \<Rightarrow> bus \<Rightarrow> ((string + unit) \<times> bus) option" where
  "authenticate uid b =
     do { (r, b) \<leftarrow> send_all (as_bytes (CHR 0x00 # ''AUTH EXTERNAL '' @ hex (as_bytes (show_nat uid)) @ [CHR 0x0D, CHR 0x0A])) b;
          case r of
            Inl e \<Rightarrow> Some (Inl e, b)
          | Inr _ \<Rightarrow>
              do { (line, b) \<leftarrow> auth_line b;
                   case line of
                     Inl e \<Rightarrow> Some (Inl e, b)
                   | Inr line \<Rightarrow>
                       if \<not> starts_with ''OK '' line then Some (Inl ''D-Bus authentication was refused'', b)
                       else send_all (as_bytes (''BEGIN'' @ [CHR 0x0D, CHR 0x0A])) b } }"

function bus_receive :: "bus \<Rightarrow> ((string + message) \<times> bus) option" where
  "bus_receive b =
     (let wait = (case bus_fill ''D-Bus deadline expired'' ''D-Bus connection closed'' b of
                    None \<Rightarrow> None
                  | Some (Inl e, b) \<Rightarrow> Some (Inl e, b)
                  | Some (Inr _, b) \<Rightarrow> bus_receive b)
      in if 16 \<le> length (bus_inbox b) then
           (case message_length (bus_inbox b) of
              None \<Rightarrow> None
            | Some None \<Rightarrow> Some (Inl ''malformed or oversized D-Bus message'', b)
            | Some (Some len) \<Rightarrow>
                if len \<le> length (bus_inbox b) then
                  (case parse_message (take len (bus_inbox b)) of
                     None \<Rightarrow> None
                   | Some r \<Rightarrow> Some (ok_or r ''malformed D-Bus message'', b\<lparr>bus_inbox := drop len (bus_inbox b)\<rparr>))
                else wait)
         else wait)"
  by pat_completeness auto
termination
proof (relation "measure (\<lambda>b. length (bus_answers b))", goal_cases)
  case (2 b p r b' u)
  then show ?case using bus_fill_answers [of _ _ b u b'] by fastforce
qed simp

declare bus_receive.simps [simp del]

definition send_call :: "nat \<Rightarrow> string option \<Rightarrow> string \<Rightarrow> string option \<Rightarrow> string \<Rightarrow> arg list \<Rightarrow> bus \<Rightarrow> ((string + nat) \<times> bus) option" where
  "send_call flags destination path interface member args b =
     (let serial = max ((bus_serial b + 1) mod 4294967296) 1; b = b\<lparr>bus_serial := serial\<rparr>
      in case build_call serial flags destination path interface member args of
           None \<Rightarrow> Some (Inl ''unable to marshal the D-Bus call'', b)
         | Some msg \<Rightarrow> map_option (\<lambda>(r, b). (map_sum id (\<lambda>_. serial) r, b)) (send_all msg b))"

text \<open>Signals that arrive during a call are queued; the oldest gives way when the queue is full.\<close>

definition queue_signal :: "message \<Rightarrow> bus \<Rightarrow> bus" where
  "queue_signal m b =
     (let pending = (if length (bus_pending b) = MAX_PENDING then tl (bus_pending b) else bus_pending b)
      in b\<lparr>bus_pending := pending @ [m]\<rparr>)"

definition bus_bytes :: "bus \<Rightarrow> nat" where
  "bus_bytes b = length (bus_inbox b) + sum_list (map (\<lambda>a. case a of BusBytes c \<Rightarrow> length c | _ \<Rightarrow> 0) (bus_answers b))"

lemma bus_fill_bytes: "bus_fill t c b = Some (Inr u, b') \<Longrightarrow> bus_bytes b' = bus_bytes b"
  by (auto simp: bus_fill_def bus_bytes_def Let_def split: list.splits bus_answer.splits if_splits)

lemma message_length_least: "message_length data = accept len \<Longrightarrow> 16 \<le> len"
  using next_multiple_of_ge [of 8 "16 + _"]
  by (auto simp: message_length_def Let_def bind_eq_Some_conv split: if_splits intro: le_trans trans_le_add1)

lemma bus_receive_bytes: "bus_receive b = Some (Inr m, b') \<Longrightarrow> bus_bytes b' < bus_bytes b"
proof (induction b rule: bus_receive.induct)
  case (1 b)
  show ?case
  proof (cases "16 \<le> length (bus_inbox b) \<and> (\<exists>len. message_length (bus_inbox b) = accept len \<and> len \<le> length (bus_inbox b))")
    case True
    then obtain len where len: "message_length (bus_inbox b) = accept len" "len \<le> length (bus_inbox b)" by blast
    have b': "b' = b\<lparr>bus_inbox := drop len (bus_inbox b)\<rparr>"
      using "1.prems" True len by (subst (asm) bus_receive.simps) (auto split: option.splits)
    show ?thesis using message_length_least [OF len(1)] len(2) unfolding b' by (simp add: bus_bytes_def)
  next
    case False
    then obtain b1 u where b1: "bus_fill ''D-Bus deadline expired'' ''D-Bus connection closed'' b = Some (Inr u, b1)" "bus_receive b1 = Some (Inr m, b')"
      using "1.prems" by (subst (asm) (2) bus_receive.simps) (auto simp: Let_def split: option.splits sum.splits if_splits)
    show ?thesis using "1.IH" [OF b1(1) refl refl b1(2)] bus_fill_bytes [OF b1(1)] by simp
  qed
qed

function reply_loop :: "string \<Rightarrow> nat \<Rightarrow> bus \<Rightarrow> ((string + message) \<times> bus) option" where
  "reply_loop member serial b =
     (case bus_receive b of
        None \<Rightarrow> None
      | Some (Inl e, b) \<Rightarrow> Some (Inl e, b)
      | Some (Inr m, b) \<Rightarrow>
          if (dm_kind m = METHOD_RETURN \<or> dm_kind m = DBUS_ERROR) \<and> dm_reply_serial m = serial then
            Some (if dm_kind m = DBUS_ERROR then Inl (''D-Bus call '' @ member @ '' failed'') else Inr m, b)
          else reply_loop member serial (if dm_kind m = SIGNAL then queue_signal m b else b))"
  by pat_completeness auto
termination
proof (relation "measure (\<lambda>(member, serial, b). bus_bytes b)", goal_cases)
  case (2 member serial b p r b' m)
  then show ?case using bus_receive_bytes [of b m b'] by (auto simp: queue_signal_def bus_bytes_def Let_def)
qed simp

declare reply_loop.simps [simp del]

definition bus_call :: "string option \<Rightarrow> string \<Rightarrow> string option \<Rightarrow> string \<Rightarrow> arg list \<Rightarrow> bus \<Rightarrow> ((string + message) \<times> bus) option" where
  "bus_call destination path interface member args b =
     do { (r, b) \<leftarrow> send_call 0 destination path interface member args b;
          case r of Inl e \<Rightarrow> Some (Inl e, b) | Inr serial \<Rightarrow> reply_loop member serial b }"

definition send_no_reply :: "string \<Rightarrow> string \<Rightarrow> string \<Rightarrow> string \<Rightarrow> bus \<Rightarrow> ((string + unit) \<times> bus) option" where
  "send_no_reply destination path interface member b =
     map_option (\<lambda>(r, b). (map_sum id (\<lambda>_. ()) r, b)) (send_call 1 (Some destination) path (Some interface) member [] b)"

definition bus_next :: "bus \<Rightarrow> ((string + message) \<times> bus) option" where
  "bus_next b =
     (case bus_pending b of
        m # rest \<Rightarrow> Some (Inr m, b\<lparr>bus_pending := rest\<rparr>)
      | [] \<Rightarrow> bus_receive b)"

text \<open>Addresses of the bus. \<open>u8::from_str_radix\<close> takes a leading plus sign.\<close>

definition from_hex2 :: "string \<Rightarrow> nat option" where
  [std_defs]: "from_hex2 h =
     (case h of
        [a, b] \<Rightarrow>
          if a = CHR ''+'' then hex_digit b
          else do { x \<leftarrow> hex_digit a; y \<leftarrow> hex_digit b; Some (16 * x + y) }
      | _ \<Rightarrow> None)"

fun unescape :: "string \<Rightarrow> string option" where
  "unescape [] = Some []"
| "unescape (c # cs) =
     (if c = CHR ''%'' then
        do { h \<leftarrow> get_range cs 0 2;
             if utf8_valid h then do { v \<leftarrow> from_hex2 h; out \<leftarrow> unescape (drop 2 cs); Some (char_of v # out) } else None }
      else map_option ((#) c) (unescape cs))"

datatype bus_address = PathAddress string | AbstractAddress string

definition address_pair :: "(string \<Rightarrow> bool) \<Rightarrow> bus_address option \<Rightarrow> string \<Rightarrow> bus_address option option" where
  "address_pair pathname_ok target pair =
     (case split_once (CHR ''='') pair of
        None \<Rightarrow> Some target
      | Some (key, v) \<Rightarrow>
          do { v \<leftarrow> unescape v;
               if 108 \<le> length v then None
               else Some (if key = ''path'' then (if pathname_ok v then Some (PathAddress v) else None)
                          else if key = ''abstract'' then Some (AbstractAddress v)
                          else target) })"

fun address_pairs :: "(string \<Rightarrow> bool) \<Rightarrow> bus_address option \<Rightarrow> string list \<Rightarrow> bus_address option option" where
  "address_pairs pathname_ok target [] = Some target"
| "address_pairs pathname_ok target (p # ps) = Option.bind (address_pair pathname_ok target p) (\<lambda>t. address_pairs pathname_ok t ps)"

text \<open>\<open>connect_address\<close>: \<open>pathname_ok\<close> is what the system accepts as a socket path, \<open>connects\<close> whether the
  connection succeeds.\<close>

definition connect_address :: "(string \<Rightarrow> bool) \<Rightarrow> (bus_address \<Rightarrow> bool) \<Rightarrow> string \<Rightarrow> bus_address option" where
  "connect_address pathname_ok connects address =
     do { rest \<leftarrow> strip_prefix ''unix:'' address;
          target \<leftarrow> address_pairs pathname_ok None (split_on (CHR '','') rest);
          t \<leftarrow> target;
          if connects t then Some t else None }"

definition bus_connect :: "(string \<Rightarrow> bool) \<Rightarrow> (bus_address \<Rightarrow> bool) \<Rightarrow> string option \<Rightarrow> string + bus_address" where
  "bus_connect pathname_ok connects configured =
     (let address = (case configured of Some a \<Rightarrow> (if a \<noteq> [] then a else ''unix:path=/var/run/dbus/system_bus_socket'')
                      | None \<Rightarrow> ''unix:path=/var/run/dbus/system_bus_socket'')
      in ok_or (Option.bind (find (\<lambda>a. connect_address pathname_ok connects a \<noteq> None) (split_on (CHR '';'') address))
                 (connect_address pathname_ok connects)) ''unable to connect to the system bus'')"

text \<open>\<open>open_system\<close> on a connected socket: authentication, then \<open>Hello\<close>.\<close>

definition open_system :: "nat \<Rightarrow> bus \<Rightarrow> ((string + unit) \<times> bus) option" where
  "open_system uid b =
     do { (r, b) \<leftarrow> authenticate uid b;
          case r of
            Inl e \<Rightarrow> Some (Inl e, b)
          | Inr _ \<Rightarrow>
              map_option (\<lambda>(r, b). (map_sum id (\<lambda>_. ()) r, b))
                (bus_call (Some ''org.freedesktop.DBus'') ''/org/freedesktop/DBus'' (Some ''org.freedesktop.DBus'') ''Hello'' [] b) }"

definition bus_new :: "bus_answer list \<Rightarrow> (string + unit) list \<Rightarrow> bus" where
  "bus_new answers sends = \<lparr>bus_serial = 0, bus_pending = [], bus_inbox = [], bus_answers = answers, bus_sends = sends, bus_sent = []\<rparr>"

section \<open>Nothing the bus sends makes the parser panic\<close>

definition span_ok :: "u8 list \<Rightarrow> span \<Rightarrow> bool" where
  "span_ok raw r \<longleftrightarrow> fst r \<le> snd r \<and> snd r \<le> length raw
     \<and> utf8_valid (of_bytes (slice raw (fst r) (snd r))) \<and> 0 \<notin> set (slice raw (fst r) (snd r))"

definition spans_ok :: "u8 list \<Rightarrow> message \<Rightarrow> bool" where
  "spans_ok raw m \<longleftrightarrow> pred_option (span_ok raw) (dm_path m) \<and> pred_option (span_ok raw) (dm_interface m)
     \<and> pred_option (span_ok raw) (dm_member m) \<and> pred_option (span_ok raw) (dm_signature m)"

lemma align_to_total: "fin \<le> length raw \<Longrightarrow> 0 < n \<Longrightarrow> \<exists>good p. align_to raw pos fin n = Some (good, p) \<and> (good \<longrightarrow> p = next_multiple_of pos n \<and> p \<le> fin) \<and> (\<not> good \<longrightarrow> p = pos)"
  using next_multiple_of_ge [of n pos] by (auto simp: align_to_def Let_def get_range_def)

lemma align_q_total: "fin \<le> length raw \<Longrightarrow> 0 < n \<Longrightarrow> \<exists>r. align_q raw pos fin n = Some r"
  using align_to_total [of fin raw n pos] by (auto simp: align_q_def)

lemma load32_total: "pos + 4 \<le> length raw \<Longrightarrow> \<exists>v. load32 raw pos big = Some v"
  by (simp add: load32_def get_range_def)

lemma str_tail_total:
  "pos \<le> fin \<Longrightarrow> fin \<le> length raw \<Longrightarrow> \<exists>s p. str_tail raw pos fin len = Some (s, p) \<and> p \<le> fin \<and> pos \<le> p \<and> pred_option (span_ok raw) s"
  by (auto simp: str_tail_def checked_sub_def get_at_def get_range_def span_ok_def)

lemma read_str_total:
  assumes "pos \<le> fin" "fin \<le> length raw"
  shows "\<exists>s p. read_str raw pos fin big sg = Some (s, p) \<and> pos \<le> p \<and> p \<le> fin \<and> pred_option (span_ok raw) s"
proof (cases sg)
  case True
  then show ?thesis using assms str_tail_total [of "pos + 1" fin raw "unat (raw ! pos)"] by (cases "pos = fin") (auto simp: read_str_def get_at_def)
next
  case False
  obtain good p where g: "align_to raw pos fin 4 = Some (good, p)" "good \<longrightarrow> p = next_multiple_of pos 4 \<and> p \<le> fin" "\<not> good \<longrightarrow> p = pos"
    using align_to_total [OF assms(2), of 4 pos] by auto
  show ?thesis
  proof (cases "good \<and> 4 \<le> fin - p")
    case True
    then have p: "p + 4 \<le> fin" "pos \<le> p" using g(2) next_multiple_of_ge [of 4 pos] by auto
    then obtain len where "load32 raw p big = Some len" using load32_total [of p raw big] assms(2) by auto
    then show ?thesis using False g(1) True p str_tail_total [OF p(1) assms(2), of len]
      by (auto simp: read_str_def checked_sub_def intro: le_trans)
  next
    case bad: False
    then show ?thesis using False g assms(1) next_multiple_of_ge [of 4 pos] by (auto simp: read_str_def checked_sub_def)
  qed
qed

lemma str_q_total:
  "pos \<le> fin \<Longrightarrow> fin \<le> length raw \<Longrightarrow> \<exists>r. str_q raw pos fin big sg = Some r \<and> (\<forall>s p. r = Some (s, p) \<longrightarrow> pos \<le> p \<and> p \<le> fin \<and> span_ok raw s)"
  using read_str_total [of pos fin raw big sg] by (auto simp: str_q_def)

lemma word_q_total: "fin \<le> length raw \<Longrightarrow> \<exists>r. word_q raw pos fin big = Some r"
proof -
  assume f: "fin \<le> length raw"
  obtain r where r: "align_q raw pos fin 4 = Some r" using align_q_total [OF f, of 4 pos] by auto
  show ?thesis
  proof (cases r)
    case (Some p)
    then have "p \<le> fin" using align_q_accept [of raw pos fin 4 p] r by simp
    moreover obtain v where "load32 raw p big = Some v" if "4 \<le> fin - p" using load32_total [of p raw big] f \<open>p \<le> fin\<close> by (metis le_diff_conv2 le_trans add.commute)
    ultimately show ?thesis using r Some by (cases "fin - p < 4") (auto simp: word_q_def bind2_def checked_sub_def)
  qed (use r in \<open>simp add: word_q_def bind2_def\<close>)
qed

definition safe :: "u8 list \<Rightarrow> nat \<Rightarrow> (message \<times> nat) attempt \<Rightarrow> bool" where
  "safe raw fin x \<longleftrightarrow> (\<exists>r. x = Some r \<and> (\<forall>m p. r = Some (m, p) \<longrightarrow> p \<le> fin \<and> spans_ok raw m))"

lemma safe_rules:
  "safe raw fin refuse"
  "p \<le> fin \<Longrightarrow> spans_ok raw m \<Longrightarrow> safe raw fin (accept (m, p))"
  "(c \<Longrightarrow> safe raw fin x) \<Longrightarrow> (\<not> c \<Longrightarrow> safe raw fin y) \<Longrightarrow> safe raw fin (if c then x else y)"
  by (auto simp: safe_def)

lemma safe_str:
  assumes "pos \<le> fin" "fin \<le> length raw" "\<And>s p. pos \<le> p \<Longrightarrow> p \<le> fin \<Longrightarrow> span_ok raw s \<Longrightarrow> safe raw fin (f (s, p))"
  shows "safe raw fin (bind2 (str_q raw pos fin big sg) f)"
proof -
  obtain r where "str_q raw pos fin big sg = Some r" "\<forall>s p. r = Some (s, p) \<longrightarrow> pos \<le> p \<and> p \<le> fin \<and> span_ok raw s"
    using str_q_total [OF assms(1,2)] by blast
  then show ?thesis using assms(3) by (cases r) (auto simp: bind2_def safe_rules(1))
qed

lemma safe_word:
  assumes "fin \<le> length raw" "\<And>v p. pos \<le> p \<Longrightarrow> p \<le> fin \<Longrightarrow> safe raw fin (f (v, p))"
  shows "safe raw fin (bind2 (word_q raw pos fin big) f)"
proof -
  obtain r where "word_q raw pos fin big = Some r" using word_q_total [OF assms(1)] by blast
  then show ?thesis using assms(2) word_q_accept [of raw pos fin big] by (cases r) (auto simp: bind2_def safe_rules(1))
qed

lemma field_value_safe:
  assumes "pos \<le> fin" "fin \<le> length raw" "spans_ok raw m"
  shows "safe raw fin (field_value raw big fin code sig pos m)"
proof -
  obtain r where r: "align_q raw pos fin 4 = Some r" using align_q_total [OF assms(2), of 4 pos] by auto
  have "safe raw fin (bind2 (align_q raw pos fin 4) (\<lambda>pos. do { d \<leftarrow> checked_sub fin pos; if d < 4 then refuse else accept (m, pos + 4) }))"
    using r align_q_accept [of raw pos fin 4] assms(3) by (cases r) (auto simp: bind2_def checked_sub_def safe_def)
  then show ?thesis unfolding field_value_def
    by (intro safe_rules safe_str safe_word assms(1,2); (simp only: prod.case)?; (intro safe_rules)?)
      (use assms in \<open>auto simp: spans_ok_def\<close>)
qed

lemma field_step_safe:
  assumes "pos \<le> fin" "fin \<le> length raw" "spans_ok raw m"
  shows "safe raw fin (field_step raw big fin pos m)"
proof -
  obtain r where r: "align_q raw pos fin 8 = Some r" using align_q_total [OF assms(2), of 8 pos] by auto
  have rest: "safe raw fin (do { sig \<leftarrow> get_at raw a; field_value raw big fin code sig p m })" if "p \<le> fin" "span_ok raw (a, b)" "b - a = 1" for a b p code
    using that field_value_safe [OF that(1) assms(2,3)] assms(2) by (auto simp: get_at_def span_ok_def)
  have body: "safe raw fin (bind2 (str_q raw (p + 1) fin big True) (\<lambda>((a, b), pos).
                   if b - a \<noteq> 1 then refuse
                   else do { sig \<leftarrow> get_at raw a; field_value raw big fin code sig pos m }))" if "p < fin" for p code
    using that assms(2) rest by (intro safe_str) (auto intro!: safe_rules)
  show ?thesis
  proof (cases r)
    case None
    then show ?thesis using r by (simp add: field_step_def bind2_def safe_rules)
  next
    case (Some p)
    then show ?thesis using r body [of p] assms(2) by (auto simp: field_step_def bind2_def get_at_def intro!: safe_rules)
  qed
qed

lemma fields_loop_safe:
  assumes "pos \<le> fin" "fin \<le> length raw" "spans_ok raw m"
  shows "\<exists>r. fields_loop raw big fin pos m = Some r \<and> pred_option (spans_ok raw) r"
  using assms
proof (induction raw big fin pos m rule: fields_loop.induct)
  case (1 raw big fin pos m)
  show ?case
  proof (cases "pos < fin")
    case True
    obtain r where r: "field_step raw big fin pos m = Some r" "\<forall>m p. r = Some (m, p) \<longrightarrow> p \<le> fin \<and> spans_ok raw m"
      using field_step_safe [OF "1.prems"] unfolding safe_def by blast
    show ?thesis
    proof (cases r)
      case None
      then show ?thesis using True r(1) by (subst fields_loop.simps) simp
    next
      case (Some mp)
      obtain m' p where mp: "mp = (m', p)" by (cases mp)
      then have "p \<le> fin \<and> spans_ok raw m'" using r(2) Some by simp
      then show ?thesis using True r(1) Some mp "1.IH" [OF _ r(1) Some mp [symmetric]] "1.prems"(2) by (subst fields_loop.simps) simp
    qed
  next
    case False
    then show ?thesis using "1.prems"(3) by (subst fields_loop.simps) simp
  qed
qed

text \<open>A message the parser can have returned.\<close>

definition message_ok :: "message \<Rightarrow> bool" where
  "message_ok m \<longleftrightarrow> length (dm_raw m) \<le> MAX_MESSAGE \<and> spans_ok (dm_raw m) m
     \<and> fst (dm_body m) \<le> snd (dm_body m) \<and> snd (dm_body m) = length (dm_raw m) \<and> 8 dvd fst (dm_body m)
     \<and> 1 \<le> dm_kind m \<and> dm_kind m \<le> 4 \<and> dm_serial m \<noteq> 0"

lemma field_step_head:
  "field_step raw big fin pos m = accept (m', p) \<Longrightarrow> dm_kind m' = dm_kind m \<and> dm_serial m' = dm_serial m \<and> dm_big m' = dm_big m"
  using field_value_head by (fastforce simp: field_step_def bind2_Some bind_eq_Some_conv yields_def split: if_splits)

lemma fields_loop_head:
  "fields_loop raw big fin pos m = accept m' \<Longrightarrow> dm_kind m' = dm_kind m \<and> dm_serial m' = dm_serial m \<and> dm_big m' = dm_big m"
proof (induction raw big fin pos m rule: fields_loop.induct)
  case (1 raw big fin pos m)
  show ?case
  proof (cases "pos < fin")
    case True
    then obtain m1 p where s: "field_step raw big fin pos m = accept (m1, p)" "fields_loop raw big fin p m1 = accept m'"
      using "1.prems" by (subst (asm) fields_loop.simps) (auto split: option.splits)
    show ?thesis using "1.IH" [OF _ s(1) refl refl s(2)] True field_step_head [OF s(1)] by simp
  qed (use "1.prems" in \<open>subst (asm) fields_loop.simps, simp\<close>)
qed

lemma message_length_total:
  "\<exists>r. message_length data = Some r \<and> (\<forall>t. r = Some t \<longrightarrow> 16 \<le> length data \<and> t \<le> MAX_MESSAGE
     \<and> (\<exists>f. load32 data 12 (data ! 0 = 0x42) = Some f \<and> next_multiple_of (16 + f) 8 \<le> t))"
proof (cases "length data < 16")
  case False
  obtain b f where "load32 data 4 (data ! 0 = 0x42) = Some b" "load32 data 12 (data ! 0 = 0x42) = Some f"
    using load32_total [of 4 data "data ! 0 = 0x42"] load32_total [of 12 data "data ! 0 = 0x42"] False by fastforce
  then show ?thesis using False by (auto simp: message_length_def Let_def)
qed (simp add: message_length_def)

lemma parse_message_safe: "\<exists>r. parse_message raw = Some r \<and> pred_option (\<lambda>m. message_ok m \<and> dm_raw m = raw) r"
proof -
  obtain r where len: "message_length raw = Some r" "\<forall>t. r = Some t \<longrightarrow> 16 \<le> length raw \<and> t \<le> MAX_MESSAGE
     \<and> (\<exists>f. load32 raw 12 (raw ! 0 = 0x42) = Some f \<and> next_multiple_of (16 + f) 8 \<le> t)"
    using message_length_total by blast
  show ?thesis
  proof (cases "r = Some (length raw)")
    case False
    then show ?thesis using len(1) by (cases r) (auto simp: parse_message_def bind2_def)
  next
    case True
    define big where "big = (raw ! 0 = 0x42)"
    obtain f where f: "load32 raw 12 big = Some f" "next_multiple_of (16 + f) 8 \<le> length raw" "16 \<le> length raw" "length raw \<le> MAX_MESSAGE"
      using len(2) True by (auto simp: big_def)
    obtain serial where serial: "load32 raw 8 big = Some serial" using load32_total [of 8 raw big] f(3) by auto
    define m0 where "m0 = \<lparr>dm_raw = [], dm_big = big, dm_kind = unat (raw ! 1), dm_serial = serial, dm_reply_serial = 0, dm_path = None,
       dm_interface = None, dm_member = None, dm_signature = None, dm_body = (0, 0)\<rparr>"
    have fin: "16 + f \<le> length raw" using next_multiple_of_ge [of 8 "16 + f"] f(2) by simp
    obtain r' where l: "fields_loop raw big (16 + f) 16 m0 = Some r'" "pred_option (spans_ok raw) r'"
      using fields_loop_safe [OF _ fin, of 16 m0 big] by (auto simp: m0_def spans_ok_def)
    have pad: "get_range raw (16 + f) (next_multiple_of (16 + f) 8) = Some (slice raw (16 + f) (next_multiple_of (16 + f) 8))"
      using f(2) next_multiple_of_ge [of 8 "16 + f"] by (simp add: get_range_def)
    have d: "8 dvd next_multiple_of (16 + f) 8" by (simp add: next_multiple_of_def)
    have eq: "parse_message raw =
      (if \<not> (1 \<le> unat (raw ! 1) \<and> unat (raw ! 1) \<le> 4) \<or> serial = 0 then refuse
       else bind2 (Some r') (\<lambda>m. if list_ex (\<lambda>b. b \<noteq> 0) (slice raw (16 + f) (next_multiple_of (16 + f) 8)) then refuse
         else accept (m\<lparr>dm_body := (next_multiple_of (16 + f) 8, length raw), dm_raw := raw\<rparr>)))"
      unfolding parse_message_def len(1) True Let_def big_def [symmetric]
      using f(2) by (cases r') (simp_all add: bind2_def serial f(1) l(1) [unfolded m0_def One_nat_def] pad)
    show ?thesis
    proof (cases r')
      case None
      then show ?thesis by (simp add: eq bind2_def)
    next
      case (Some m)
      have "dm_kind m = unat (raw ! 1) \<and> dm_serial m = serial" using fields_loop_head [of raw big "16 + f" 16 m0 m] l(1) Some by (simp add: m0_def)
      then show ?thesis using Some l(2) f d by (simp add: eq bind2_def message_ok_def spans_ok_def)
    qed
  qed
qed

lemma span_text_ok: "span_ok (dm_raw m) r \<Longrightarrow> span_text m (Some r) = accept (of_bytes (slice (dm_raw m) (fst r) (snd r)))"
  by (cases r) (auto simp: span_text_def span_ok_def get_range_def)

lemma message_texts:
  assumes "message_ok m"
  shows "path_of m \<noteq> None" "interface_of m \<noteq> None" "member_of m \<noteq> None" "signature_of m \<noteq> None"
proof -
  have "span_text m r \<noteq> None" if "pred_option (span_ok (dm_raw m)) r" for r
    using that span_text_ok [of m] by (cases r) (auto simp: span_text_def)
  then show "path_of m \<noteq> None" "interface_of m \<noteq> None" "member_of m \<noteq> None" "signature_of m \<noteq> None"
    using assms by (auto simp: message_ok_def spans_ok_def path_of_def interface_of_def member_of_def signature_of_def)
qed

text \<open>A reader over a parsed message stays inside it, whatever is read.\<close>

definition reader_inside :: "body_reader \<Rightarrow> bool" where
  "reader_inside r \<longleftrightarrow> br_pos r \<le> br_end r \<and> br_end r \<le> length (dm_raw (br_message r))"

definition reads_safely :: "(body_reader \<Rightarrow> ('a \<times> body_reader) option) \<Rightarrow> bool" where
  "reads_safely f \<longleftrightarrow> (\<forall>r. reader_inside r \<longrightarrow> (\<exists>v r'. f r = Some (v, r') \<and> reader_inside r' \<and> br_message r' = br_message r \<and> br_end r' = br_end r))"

lemma br_align_safe: "0 < n \<Longrightarrow> reads_safely (br_align n)"
  unfolding reads_safely_def
proof (intro allI impI)
  fix r assume n: "0 < n" and r: "reader_inside r"
  show "\<exists>v r'. br_align n r = Some (v, r') \<and> reader_inside r' \<and> br_message r' = br_message r \<and> br_end r' = br_end r"
    using r align_to_total [of "br_end r" "dm_raw (br_message r)" n "br_pos r"] n
    by (cases "br_failed r") (auto simp: br_align_def reader_inside_def)
qed

lemma br_number_safe: "0 < n \<Longrightarrow> reads_safely (br_number n)"
  unfolding reads_safely_def
proof (intro allI impI)
  fix r assume n: "0 < n" and r: "reader_inside r"
  obtain good r1 where r1: "br_align n r = Some (good, r1)" "reader_inside r1" "br_message r1 = br_message r" "br_end r1 = br_end r"
    using br_align_safe [OF n] r unfolding reads_safely_def by blast
  show "\<exists>v r'. br_number n r = Some (v, r') \<and> reader_inside r' \<and> br_message r' = br_message r \<and> br_end r' = br_end r"
    using r1 by (cases "\<not> good \<or> br_end r1 - br_pos r1 < n")
      (auto simp: br_number_def br_fail_def reader_inside_def checked_sub_def get_range_def)
qed

lemma reads_safely_map: "reads_safely f \<Longrightarrow> (\<And>v r. \<exists>w b. g (v, r) = (w, r\<lparr>br_failed := b\<rparr>)) \<Longrightarrow> reads_safely (\<lambda>r. map_option g (f r))"
  unfolding reads_safely_def
proof (intro allI impI)
  fix r assume f: "\<forall>r. reader_inside r \<longrightarrow> (\<exists>v r'. f r = Some (v, r') \<and> reader_inside r' \<and> br_message r' = br_message r \<and> br_end r' = br_end r)"
    and g: "\<And>v r. \<exists>w b. g (v, r) = (w, r\<lparr>br_failed := b\<rparr>)" and r: "reader_inside r"
  obtain v r' where r': "f r = Some (v, r')" "reader_inside r'" "br_message r' = br_message r" "br_end r' = br_end r" using f r by blast
  obtain w b where "g (v, r') = (w, r'\<lparr>br_failed := b\<rparr>)" using g by blast
  then show "\<exists>v r'. map_option g (f r) = Some (v, r') \<and> reader_inside r' \<and> br_message r' = br_message r \<and> br_end r' = br_end r"
    using r' by (simp add: reader_inside_def)
qed

lemma br_string_safe: "reads_safely br_string"
  unfolding reads_safely_def
proof (intro allI impI)
  fix r assume r: "reader_inside r"
  let ?raw = "dm_raw (br_message r)"
  obtain s p where s: "read_str ?raw (br_pos r) (br_end r) (dm_big (br_message r)) False = Some (s, p)" "br_pos r \<le> p" "p \<le> br_end r" "pred_option (span_ok ?raw) s"
    using read_str_total [of "br_pos r" "br_end r" ?raw "dm_big (br_message r)" False] r by (auto simp: reader_inside_def)
  show "\<exists>v r'. br_string r = Some (v, r') \<and> reader_inside r' \<and> br_message r' = br_message r \<and> br_end r' = br_end r"
    using r s by (cases "br_failed r"; cases s) (auto simp: br_string_def reader_inside_def br_fail_def span_ok_def get_range_def)
qed

lemma br_reads_safe: "reads_safely br_u32" "reads_safely br_i32" "reads_safely br_u16" "reads_safely br_bool"
proof -
  show u32: "reads_safely br_u32" and "reads_safely br_u16" using br_number_safe [of 4] br_number_safe [of 2] by (simp_all add: br_u32_def [abs_def] br_u16_def [abs_def])
  have same: "\<exists>b. r = r\<lparr>br_failed := b\<rparr>" for r :: body_reader by (rule exI [of _ "br_failed r"]) simp
  show "reads_safely br_i32" unfolding br_i32_def [abs_def] by (rule reads_safely_map [OF u32]) (use same in auto)
  show "reads_safely br_bool" unfolding br_bool_def [abs_def] br_fail_def by (rule reads_safely_map [OF u32]) (use same in auto)
qed

lemma skip_loop_safe:
  assumes "reader_inside r" "stop \<le> br_end r"
  shows "\<exists>r'. skip_loop stop r = Some r' \<and> reader_inside r' \<and> br_message r' = br_message r \<and> br_end r' = br_end r"
  using assms
proof (induction stop r rule: skip_loop.induct)
  case (1 stop r)
  show ?case
  proof (cases "br_pos r < stop \<and> \<not> br_failed r")
    case True
    obtain v r1 where r1: "br_u32 r = Some (v, r1)" "reader_inside r1" "br_message r1 = br_message r" "br_end r1 = br_end r"
      using br_reads_safe(1) "1.prems"(1) unfolding reads_safely_def by blast
    show ?thesis
    proof (cases "br_failed r1 \<or> stop - br_pos r1 < v")
      case bad: True
      then show ?thesis using True r1 by (subst skip_loop.simps) (simp add: br_fail_def reader_inside_def)
    next
      case False
      have "\<exists>r'. skip_loop stop (r1\<lparr>br_pos := br_pos r1 + v\<rparr>) = Some r' \<and> reader_inside r' \<and> br_message r' = br_message (r1\<lparr>br_pos := br_pos r1 + v\<rparr>) \<and> br_end r' = br_end (r1\<lparr>br_pos := br_pos r1 + v\<rparr>)"
      proof (rule "1.IH" [OF True r1(1) refl False])
        show "reader_inside (r1\<lparr>br_pos := br_pos r1 + v\<rparr>)" using False r1(2,4) "1.prems"(2) by (cases "v = 0") (auto simp: reader_inside_def)
      qed (use r1(4) "1.prems"(2) in simp)
      then show ?thesis using True r1 False by (subst skip_loop.simps) simp
    qed
  next
    case False
    then show ?thesis using "1.prems" by (subst skip_loop.simps) (auto simp: br_fail_def reader_inside_def)
  qed
qed

lemma skip_aay_safe:
  assumes "reader_inside r"
  shows "\<exists>r'. skip_aay r = Some r' \<and> reader_inside r' \<and> br_message r' = br_message r \<and> br_end r' = br_end r"
proof -
  obtain n r1 where r1: "br_u32 r = Some (n, r1)" "reader_inside r1" "br_message r1 = br_message r" "br_end r1 = br_end r"
    using br_reads_safe(1) assms unfolding reads_safely_def by blast
  obtain good r2 where r2: "br_align 4 r1 = Some (good, r2)" "reader_inside r2" "br_message r2 = br_message r1" "br_end r2 = br_end r1"
    using br_align_safe [of 4] r1(2) unfolding reads_safely_def by (metis zero_less_numeral)
  have d: "checked_sub (br_end r2) (br_pos r2) = Some (br_end r2 - br_pos r2)" using r2(2) by (simp add: checked_sub_def reader_inside_def)
  consider "br_failed r1" | "\<not> br_failed r1" "\<not> good" | "\<not> br_failed r1" "good" "br_end r2 - br_pos r2 < n"
    | "\<not> br_failed r1" "good" "br_pos r2 + n \<le> br_end r2" using r2(2) by (cases "br_end r2 - br_pos r2 < n") (auto simp: reader_inside_def not_less le_diff_conv2 add.commute)
  then show ?thesis
  proof cases
    case 4
    then have "\<not> br_end r2 - br_pos r2 < n" by simp
    moreover obtain r' where r': "skip_loop (br_pos r2 + n) r2 = Some r'" "reader_inside r'" "br_message r' = br_message r2" "br_end r' = br_end r2"
      using skip_loop_safe [OF r2(2) 4(3)] by blast
    ultimately show ?thesis using 4 r1 r2 d by (simp add: skip_aay_def)
  qed (use r1 r2 d in \<open>simp_all add: skip_aay_def br_fail_def reader_inside_def\<close>)
qed

text \<open>Nothing that arrives makes the connection panic, and every operation returns before or at its deadline.
  The queue only holds messages the parser returned.\<close>

definition bus_ok :: "bus \<Rightarrow> bool" where
  "bus_ok b \<longleftrightarrow> list_all message_ok (bus_pending b)"

definition serves :: "('a \<Rightarrow> bool) \<Rightarrow> ('a \<times> bus) option \<Rightarrow> bool" where
  "serves Q out \<longleftrightarrow> (\<exists>v b. out = Some (v, b) \<and> Q v \<and> bus_ok b)"

lemma serves_bind: "serves Q out \<Longrightarrow> (\<And>v b. Q v \<Longrightarrow> bus_ok b \<Longrightarrow> serves R (f (v, b))) \<Longrightarrow> serves R (Option.bind out f)"
  by (auto simp: serves_def)

lemma serves_map: "serves Q out \<Longrightarrow> (\<And>v b. Q v \<Longrightarrow> \<exists>w. g (v, b) = (w, b) \<and> R w) \<Longrightarrow> serves R (map_option g out)"
  unfolding serves_def by force

lemma send_all_serves: "bus_ok b \<Longrightarrow> serves (\<lambda>_. True) (send_all data b)"
  by (auto simp: send_all_def serves_def bus_ok_def split: list.splits)

lemma bus_fill_serves: "bus_ok b \<Longrightarrow> serves (\<lambda>_. True) (bus_fill t c b)"
  by (auto simp: bus_fill_def serves_def bus_ok_def Let_def split: list.splits bus_answer.splits)

lemma auth_line_serves: "bus_ok b \<Longrightarrow> serves (\<lambda>_. True) (auth_line b)"
proof (induction b rule: auth_line.induct)
  case (1 b)
  show ?case
  proof (cases "find_crlf (bus_inbox b) = None \<and> length (bus_inbox b) < 512")
    case True
    obtain r b1 where f: "bus_fill ''D-Bus authentication timed out'' ''D-Bus connection closed during authentication'' b = Some (r, b1)" "bus_ok b1"
      using bus_fill_serves [OF "1.prems"] unfolding serves_def by metis
    show ?thesis using True f "1.IH" [OF _ _ f(1) refl _ f(2)] by (subst auth_line.simps) (auto simp: serves_def split: sum.splits)
  next
    case False
    then show ?thesis using "1.prems" by (subst auth_line.simps) (auto simp: serves_def bus_ok_def split: option.splits)
  qed
qed

lemma authenticate_serves: "bus_ok b \<Longrightarrow> serves (\<lambda>_. True) (authenticate uid b)"
  unfolding authenticate_def
  by (rule serves_bind [OF send_all_serves], assumption)
    (auto split: sum.split intro!: serves_bind [OF auth_line_serves] send_all_serves simp: serves_def [of _ "Some _"])

abbreviation sound_reply :: "string + message \<Rightarrow> bool" where
  "sound_reply r \<equiv> (\<forall>m. r = Inr m \<longrightarrow> message_ok m)"

lemma bus_receive_serves: "bus_ok b \<Longrightarrow> serves sound_reply (bus_receive b)"
proof (induction b rule: bus_receive.induct)
  case (1 b)
  obtain r b1 where f: "bus_fill ''D-Bus deadline expired'' ''D-Bus connection closed'' b = Some (r, b1)" "bus_ok b1"
    using bus_fill_serves [OF "1.prems"] unfolding serves_def by metis
  have wait: "serves sound_reply (case r of Inl e \<Rightarrow> Some (Inl e, b1) | Inr _ \<Rightarrow> bus_receive b1)"
    using "1.IH" [OF f(1) refl _ f(2)] f(2) by (cases r) (auto simp: serves_def)
  obtain len where len: "message_length (bus_inbox b) = Some len" using message_length_total by blast
  show ?case
  proof (cases "16 \<le> length (bus_inbox b) \<and> (\<forall>n. len = Some n \<longrightarrow> n \<le> length (bus_inbox b))")
    case True
    show ?thesis
    proof (cases len)
      case None
      then show ?thesis using True len "1.prems" by (subst bus_receive.simps) (simp add: serves_def)
    next
      case (Some n)
      obtain p where p: "parse_message (take n (bus_inbox b)) = Some p" "pred_option message_ok p"
        using parse_message_safe [of "take n (bus_inbox b)"] by (metis (no_types, lifting) option.pred_mono_strong)
      then show ?thesis using True len Some "1.prems" by (subst bus_receive.simps) (cases p; simp add: serves_def bus_ok_def ok_or_def)
    qed
  next
    case False
    then have "bus_receive b = (case r of Inl e \<Rightarrow> Some (Inl e, b1) | Inr _ \<Rightarrow> bus_receive b1)"
      using len f(1) by (subst bus_receive.simps) (auto simp: Let_def split: sum.split)
    then show ?thesis using wait by simp
  qed
qed

lemma queue_signal_ok: "bus_ok b \<Longrightarrow> message_ok m \<Longrightarrow> bus_ok (queue_signal m b)"
  by (cases "bus_pending b") (auto simp: bus_ok_def queue_signal_def Let_def)

lemma reply_loop_serves: "bus_ok b \<Longrightarrow> serves sound_reply (reply_loop member serial b)"
proof (induction member serial b rule: reply_loop.induct)
  case (1 member serial b)
  obtain r b1 where r: "bus_receive b = Some (r, b1)" "sound_reply r" "bus_ok b1"
    using bus_receive_serves [OF "1.prems"] unfolding serves_def by metis
  show ?case
  proof (cases r)
    case (Inl e)
    then show ?thesis using r by (subst reply_loop.simps) (simp add: serves_def)
  next
    case (Inr m)
    show ?thesis
    proof (cases "(dm_kind m = METHOD_RETURN \<or> dm_kind m = DBUS_ERROR) \<and> dm_reply_serial m = serial")
      case True
      then show ?thesis using r Inr by (subst reply_loop.simps) (auto simp: serves_def)
    next
      case False
      have "bus_ok (if dm_kind m = SIGNAL then queue_signal m b1 else b1)" using r(2,3) Inr queue_signal_ok by simp
      then show ?thesis using "1.IH" [OF r(1) refl Inr False] r(1) Inr False by (subst reply_loop.simps) auto
    qed
  qed
qed

lemma send_call_serves: "bus_ok b \<Longrightarrow> serves (\<lambda>_. True) (send_call flags d p i mem args b)"
  using send_all_serves [of "b\<lparr>bus_serial := max ((bus_serial b + 1) mod 4294967296) 1\<rparr>"]
  by (auto simp: send_call_def Let_def serves_def bus_ok_def split: option.splits) metis

lemma bus_call_serves: "bus_ok b \<Longrightarrow> serves sound_reply (bus_call d p i mem args b)"
  unfolding bus_call_def
  by (rule serves_bind [OF send_call_serves], assumption)
    (auto split: sum.split intro!: reply_loop_serves simp: serves_def [of _ "Some _"])

lemma send_no_reply_serves: "bus_ok b \<Longrightarrow> serves (\<lambda>_. True) (send_no_reply d p i mem b)"
  unfolding send_no_reply_def by (rule serves_map [OF send_call_serves]) auto

lemma open_system_serves: "bus_ok b \<Longrightarrow> serves (\<lambda>_. True) (open_system uid b)"
  unfolding open_system_def
  by (rule serves_bind [OF authenticate_serves], assumption)
    (auto split: sum.split intro!: serves_map [OF bus_call_serves] simp: serves_def [of _ "Some _"])

lemma bus_next_serves: "bus_ok b \<Longrightarrow> serves sound_reply (bus_next b)"
  using bus_receive_serves [of b] by (cases "bus_pending b") (auto simp: bus_next_def serves_def bus_ok_def)

text \<open>C35. Whatever bytes the bus sends, parsing them never panics: it returns a message or refuses. A message
  that is returned is within the size limit; its header strings lie inside it, are UTF-8 and hold no NUL, so
  its accessors never panic either; and a reader over its body stays inside the message, so that no read from
  it panics, however the reads are mixed and whatever they found before.\<close>

theorem dbus_parse_safe:
  "\<exists>r. parse_message raw = Some r
    \<and> (\<forall>m. r = Some m \<longrightarrow> length raw \<le> MAX_MESSAGE \<and> dm_raw m = raw \<and> spans_ok raw m
        \<and> path_of m \<noteq> None \<and> interface_of m \<noteq> None \<and> member_of m \<noteq> None \<and> signature_of m \<noteq> None
        \<and> reader_inside (body_of m))
    \<and> (\<forall>n>0. reads_safely (br_align n)) \<and> reads_safely br_u32 \<and> reads_safely br_i32 \<and> reads_safely br_u16 \<and> reads_safely br_bool
    \<and> reads_safely br_string \<and> reads_safely (\<lambda>r. map_option (Pair ()) (skip_aay r))"
proof -
  obtain r where r: "parse_message raw = Some r" "pred_option (\<lambda>m. message_ok m \<and> dm_raw m = raw) r" using parse_message_safe by blast
  have "reads_safely (\<lambda>r. map_option (Pair ()) (skip_aay r))"
    unfolding reads_safely_def using skip_aay_safe by force
  moreover have "length raw \<le> MAX_MESSAGE \<and> dm_raw m = raw \<and> spans_ok raw m \<and> path_of m \<noteq> None \<and> interface_of m \<noteq> None
      \<and> member_of m \<noteq> None \<and> signature_of m \<noteq> None \<and> reader_inside (body_of m)" if "r = Some m" for m
    using that r(2) message_texts [of m] by (auto simp: message_ok_def reader_inside_def body_of_def)
  ultimately show ?thesis using r(1) br_reads_safe br_string_safe br_align_safe by blast
qed

section \<open>What is marshalled parses back\<close>

definition text_ok :: "string \<Rightarrow> bool" where
  "text_ok s \<longleftrightarrow> utf8_valid s \<and> CHR 0x00 \<notin> set s"

definition span_is :: "u8 list \<Rightarrow> span \<Rightarrow> string \<Rightarrow> bool" where
  "span_is raw r s \<longleftrightarrow> fst r \<le> snd r \<and> snd r \<le> length raw \<and> slice raw (fst r) (snd r) = as_bytes s"

lemma length_w_align: "0 < n \<Longrightarrow> length (w_align b n) = next_multiple_of (length b) n"
  using next_multiple_of_ge [of n "length b"] by (simp add: w_align_def)

lemma next_multiple_of_shift: "0 < n \<Longrightarrow> n dvd k \<Longrightarrow> next_multiple_of (k + p) n = k + next_multiple_of p n"
proof -
  assume n: "0 < n" and "n dvd k"
  then obtain c where c: "k = n * c" by (elim dvdE)
  have "(n * c + p + n - 1) div n = c + (p + n - 1) div n"
    using n div_mult_self4 [of n c "p + n - 1"] by (simp add: add.assoc)
  then show ?thesis by (simp add: c next_multiple_of_def div_ceil_def algebra_simps)
qed

lemma as_bytes_append: "as_bytes (s @ t) = as_bytes s @ as_bytes t"
  by (simp add: as_bytes_def)

lemma zero_byte: "0 \<in> set (as_bytes s) \<longleftrightarrow> CHR 0x00 \<in> set s"
proof
  assume "0 \<in> set (as_bytes s)"
  then obtain c where c: "c \<in> set s" "of_char c = (0 :: u8)" by (auto simp: as_bytes_def)
  then have "byte c = 0" using unat_of_char [of c] by simp
  then have "c = CHR 0x00" by (cases c) (auto simp: of_char_def split: if_splits)
  then show "CHR 0x00 \<in> set s" using c(1) by simp
next
  assume "CHR 0x00 \<in> set s"
  moreover have "of_char (CHR 0x00) = (0 :: u8)" by simp
  ultimately show "0 \<in> set (as_bytes s)" unfolding as_bytes_def by (metis image_eqI set_map)
qed

lemma align_written:
  assumes "0 < n" "n dvd length pre" "raw = pre @ w_align b n @ rest" "length pre + length (w_align b n) \<le> fin"
  shows "align_to raw (length pre + length b) fin n = Some (True, length pre + length (w_align b n))"
proof -
  have l: "length pre + length (w_align b n) = next_multiple_of (length pre + length b) n"
    using assms(1,2) by (simp add: length_w_align next_multiple_of_shift)
  have "length b \<le> length (w_align b n)" by (simp add: w_align_def)
  then show ?thesis using assms(3,4) by (simp add: align_to_def Let_def get_range_def l [symmetric]) (simp add: w_align_def list_ex_iff)
qed

lemma load32_written: "load32 (pre @ le_bytes 4 v @ rest) (length pre) False = Some (v mod 4294967296)"
  using le_val_le_bytes [of 4 v] by (simp add: load32_def get_range_def)

lemma str_tail_written:
  assumes "text_ok s" "raw = pre @ as_bytes s @ [0] @ rest" "length pre + length s + 1 \<le> fin"
  shows "str_tail raw (length pre) fin (length s) = Some (Some (length pre, length pre + length s), length pre + length s + 1)"
    "span_is raw (length pre, length pre + length s) s"
  using assms by (auto simp: str_tail_def checked_sub_def get_at_def get_range_def zero_byte text_ok_def span_is_def nth_append)

lemma str_written:
  assumes "4 dvd length pre" "w_str b s = Some x" "raw = pre @ x @ rest" "length pre + length x \<le> fin" "text_ok s"
  shows "\<exists>r. read_str raw (length pre + length b) fin False False = Some (Some r, length pre + length x) \<and> span_is raw r s"
proof -
  have x: "x = w_align b 4 @ le_bytes 4 (length s) @ as_bytes s @ [0]" "length s \<le> U32_MAX"
    using assms(2) by (auto simp: w_str_def w_u32_def split: if_splits)
  have "align_to raw (length pre + length b) fin 4 = Some (True, length pre + length (w_align b 4))"
    using assms(1,3,4) x(1) by (intro align_written) auto
  moreover have "load32 raw (length pre + length (w_align b 4)) False = Some (length s)"
    using load32_written [of "pre @ w_align b 4" "length s" "as_bytes s @ [0] @ rest"] assms(3) x by simp
  moreover have "str_tail raw (length (pre @ w_align b 4 @ le_bytes 4 (length s))) fin (length s)
      = Some (Some (length (pre @ w_align b 4 @ le_bytes 4 (length s)), length (pre @ w_align b 4 @ le_bytes 4 (length s)) + length s),
          length (pre @ w_align b 4 @ le_bytes 4 (length s)) + length s + 1)"
    "span_is raw (length (pre @ w_align b 4 @ le_bytes 4 (length s)), length (pre @ w_align b 4 @ le_bytes 4 (length s)) + length s) s"
    using str_tail_written [of s raw "pre @ w_align b 4 @ le_bytes 4 (length s)" rest fin] assms(3,4,5) x(1) by auto
  ultimately show ?thesis using assms(4) x(1) by (auto simp: read_str_def checked_sub_def add.assoc add.left_commute add.commute)
qed

lemma sig_written:
  assumes "w_sig b s = Some x" "raw = x @ rest" "length x \<le> fin" "text_ok s"
  shows "\<exists>r. read_str raw (length b) fin False True = Some (Some r, length x) \<and> span_is raw r s"
proof -
  have x: "x = b @ [word_of_nat (length s)] @ as_bytes s @ [0]" "length s \<le> 255" using assms(1) by (auto simp: w_sig_def split: if_splits)
  have "str_tail raw (length (b @ [word_of_nat (length s) :: u8])) fin (length s)
      = Some (Some (length (b @ [word_of_nat (length s) :: u8]), length (b @ [word_of_nat (length s) :: u8]) + length s), length (b @ [word_of_nat (length s) :: u8]) + length s + 1)"
    "span_is raw (length (b @ [word_of_nat (length s) :: u8]), length (b @ [word_of_nat (length s) :: u8]) + length s) s"
    using str_tail_written [of s raw "b @ [word_of_nat (length s)]" rest fin] assms(2,3,4) x(1) by auto
  moreover have "raw ! length b = word_of_nat (length s)" "length b < length raw" using assms(2) x(1) by simp_all
  ultimately show ?thesis using assms(3) x by (auto simp: read_str_def get_at_def)
qed

definition put_field :: "nat \<Rightarrow> span \<Rightarrow> message \<Rightarrow> message" where
  "put_field code r m =
     (if code = FIELD_PATH then m\<lparr>dm_path := Some r\<rparr>
      else if code = FIELD_INTERFACE then m\<lparr>dm_interface := Some r\<rparr>
      else if code = FIELD_MEMBER then m\<lparr>dm_member := Some r\<rparr>
      else if code = FIELD_SIGNATURE then m\<lparr>dm_signature := Some r\<rparr>
      else m)"

definition field_kind :: "nat \<Rightarrow> u8" where
  "field_kind code = (if code = FIELD_PATH then 0x6F else if code = FIELD_SIGNATURE then 0x67 else 0x73)"

abbreviation string_fields :: "nat set" where
  "string_fields \<equiv> {FIELD_PATH, FIELD_INTERFACE, FIELD_MEMBER, FIELD_DESTINATION, FIELD_SIGNATURE}"

lemma field_value_written:
  assumes "code \<in> string_fields" "str_q raw pos fin False (code = FIELD_SIGNATURE) = accept (r, p)"
  shows "field_value raw False fin code (field_kind code) pos m = accept (put_field code r m, p)"
  using assms by (auto simp: field_value_def field_kind_def put_field_def bind2_def)

lemma field_written:
  assumes "w_field b code (field_kind code) s = Some x" "raw = x @ rest" "length x \<le> fin" "text_ok s" "code \<in> string_fields"
  shows "\<exists>r. field_step raw False fin (length b) m = accept (put_field code r m, length x) \<and> span_is raw r s \<and> length b < length x"
proof -
  let ?h = "w_align b 8 @ [word_of_nat code, 1, field_kind code, 0]"
  let ?a = "length (w_align b 8)"
  have w: "(if code = FIELD_SIGNATURE then w_sig ?h s else w_str ?h s) = Some x"
    using assms(1,5) by (auto simp: w_field_def field_kind_def)
  obtain y where y: "x = ?h @ y" using w by (auto simp: w_sig_def w_str_def w_u32_def w_align_def split: if_splits)
  have align: "align_q raw (length b) fin 8 = accept ?a"
    using align_written [of 8 "[]" raw b "[word_of_nat code, 1, field_kind code, 0] @ y @ rest" fin] assms(2,3) y by (simp add: align_q_def)
  have bytes: "get_at raw ?a = Some (word_of_nat code)" "get_at raw (?a + 2) = Some (field_kind code)" "get_at raw (?a + 1) = Some 1"
      "get_at raw (?a + 3) = Some 0"
    using assms(2) y by (simp_all add: get_at_def nth_append)
  have "word_of_nat (length [field_kind code]) = (1 :: u8)" by simp
  have sig: "str_q raw (?a + 1) fin False True = accept ((?a + 2, ?a + 3), ?a + 4)"
  proof -
    have "utf8_valid (of_bytes [field_kind code])" "field_kind code \<noteq> 0" by (simp_all add: field_kind_def of_bytes_def utf8_valid_def from_utf8_ascii)
    moreover have "get_range raw (?a + 2) (?a + 3) = Some [field_kind code]" using assms(2) y by (simp add: get_range_def)
    moreover have "?a + 4 \<le> fin" using assms(3) y by simp
    ultimately show ?thesis using bytes by (auto simp: str_q_def read_str_def str_tail_def checked_sub_def numeral_eq_Suc)
  qed
  have hl: "length ?h = ?a + 4" by simp
  obtain r where r: "str_q raw (?a + 4) fin False (code = FIELD_SIGNATURE) = accept (r, length x)" "span_is raw r s"
  proof (cases "code = FIELD_SIGNATURE")
    case True
    then have "w_sig ?h s = Some x" using w by simp
    from sig_written [OF this assms(2-4)] show ?thesis using True that unfolding hl by (auto simp: str_q_def)
  next
    case False
    then have "w_str ?h s = Some x" using w by simp
    from str_written [OF _ this, of "[]" raw rest fin] show ?thesis using False assms(2-4) that unfolding hl by (auto simp: str_q_def)
  qed
  have "unat (word_of_nat code :: u8) = code" using assms(5) by auto
  then have "field_step raw False fin (length b) m = accept (put_field code r m, length x)"
    using align sig bytes field_value_written [OF assms(5) r(1), of m] assms(3) y by (simp add: field_step_def bind2_def)
  moreover have "length b < length x" using y by (simp add: w_align_def)
  ultimately show ?thesis using r(2) by blast
qed

text \<open>A field only depends on how long the bytes before it are.\<close>

lemma w_field_prefix:
  assumes "w_field (h @ g) code kind s = Some x"
  shows "\<exists>g'. x = h @ g' \<and> (\<forall>h'. length h' = length h \<longrightarrow> w_field (h' @ g) code kind s = Some (h' @ g'))"
  using assms by (auto simp: w_field_def w_sig_def w_str_def w_u32_def w_align_def Let_def split: if_splits)

lemma w_optional_prefix:
  assumes "w_optional (h @ g) code kind s = Some x"
  shows "\<exists>g'. x = h @ g' \<and> (\<forall>h'. length h' = length h \<longrightarrow> w_optional (h' @ g) code kind s = Some (h' @ g'))"
  using assms w_field_prefix [of h g code kind] by (cases s) (auto simp: w_optional_def)

lemma w_optional_extends: "w_optional b code kind s = Some x \<Longrightarrow> \<exists>y. x = b @ y"
  by (cases s) (auto simp: w_optional_def w_field_def w_sig_def w_str_def w_u32_def w_align_def Let_def split: if_splits)

lemma fields_loop_step: "field_step raw big fin pos m = accept (m', p) \<Longrightarrow> pos < fin \<Longrightarrow> fields_loop raw big fin pos m = fields_loop raw big fin p m'"
  by (subst fields_loop.simps) simp

definition put_opt :: "nat \<Rightarrow> span option \<Rightarrow> message \<Rightarrow> message" where
  "put_opt code r m = (case r of None \<Rightarrow> m | Some r \<Rightarrow> put_field code r m)"

lemma put_opt_fields:
  "dm_path (put_opt FIELD_PATH r m) = (if r = None then dm_path m else r)"
  "dm_interface (put_opt FIELD_PATH r m) = dm_interface m"
  "dm_member (put_opt FIELD_PATH r m) = dm_member m"
  "dm_signature (put_opt FIELD_PATH r m) = dm_signature m"
  "dm_path (put_opt FIELD_INTERFACE r m) = dm_path m"
  "dm_interface (put_opt FIELD_INTERFACE r m) = (if r = None then dm_interface m else r)"
  "dm_member (put_opt FIELD_INTERFACE r m) = dm_member m"
  "dm_signature (put_opt FIELD_INTERFACE r m) = dm_signature m"
  "dm_path (put_opt FIELD_MEMBER r m) = dm_path m"
  "dm_interface (put_opt FIELD_MEMBER r m) = dm_interface m"
  "dm_member (put_opt FIELD_MEMBER r m) = (if r = None then dm_member m else r)"
  "dm_signature (put_opt FIELD_MEMBER r m) = dm_signature m"
  "dm_path (put_opt FIELD_SIGNATURE r m) = dm_path m"
  "dm_interface (put_opt FIELD_SIGNATURE r m) = dm_interface m"
  "dm_member (put_opt FIELD_SIGNATURE r m) = dm_member m"
  "dm_signature (put_opt FIELD_SIGNATURE r m) = (if r = None then dm_signature m else r)"
  "dm_path (put_opt FIELD_DESTINATION r m) = dm_path m"
  "dm_interface (put_opt FIELD_DESTINATION r m) = dm_interface m"
  "dm_member (put_opt FIELD_DESTINATION r m) = dm_member m"
  "dm_signature (put_opt FIELD_DESTINATION r m) = dm_signature m"
  "dm_kind (put_opt code r m) = dm_kind m"
  "dm_serial (put_opt code r m) = dm_serial m"
  "dm_big (put_opt code r m) = dm_big m"
  by (cases r; simp add: put_opt_def put_field_def)+

lemma loop_field:
  assumes "w_optional b code (field_kind code) s = Some x" "raw = x @ rest" "length x \<le> fin" "pred_option text_ok s" "code \<in> string_fields"
  shows "\<exists>r. fields_loop raw False fin (length b) m = fields_loop raw False fin (length x) (put_opt code r m)
    \<and> rel_option (span_is raw) r s"
proof (cases s)
  case None
  then show ?thesis using assms(1) by (intro exI [of _ None]) (simp add: w_optional_def put_opt_def)
next
  case (Some t)
  obtain r where "field_step raw False fin (length b) m = accept (put_field code r m, length x)" "span_is raw r t" "length b < length x"
    using field_written [of b code t x raw rest fin m] assms Some by (auto simp: w_optional_def)
  then show ?thesis using fields_loop_step [of raw False fin "length b" m] assms(3) Some by (intro exI [of _ "Some r"]) (simp add: put_opt_def)
qed

text \<open>The body: each argument is read back where it was written.\<close>

fun read_args :: "string \<Rightarrow> body_reader \<Rightarrow> (arg list \<times> body_reader) option" where
  "read_args [] r = Some ([], r)"
| "read_args (c # cs) r =
     do { (a, r) \<leftarrow>
            (if c = CHR ''i'' then map_option (map_prod ArgI32 id) (br_i32 r)
             else if c = CHR ''u'' then map_option (map_prod ArgU32 id) (br_u32 r)
             else if c = CHR ''s'' then map_option (map_prod ArgStr id) (br_string r)
             else map_option (map_prod ArgPath id) (br_string r));
          (as, r) \<leftarrow> read_args cs r;
          Some (a # as, r) }"

fun arg_ok :: "arg \<Rightarrow> bool" where
  "arg_ok (ArgI32 v) \<longleftrightarrow> - 2147483648 \<le> v \<and> v < 2147483648"
| "arg_ok (ArgU32 v) \<longleftrightarrow> v \<le> U32_MAX"
| "arg_ok (ArgStr s) \<longleftrightarrow> text_ok s"
| "arg_ok (ArgPath s) \<longleftrightarrow> text_ok s"

fun arg_sig :: "arg \<Rightarrow> char" where
  "arg_sig (ArgI32 v) = CHR ''i''"
| "arg_sig (ArgU32 v) = CHR ''u''"
| "arg_sig (ArgStr s) = CHR ''s''"
| "arg_sig (ArgPath s) = CHR ''o''"

lemma text_ok_signature: "text_ok (map arg_sig args)"
proof -
  have "utf8_valid (map arg_sig args)"
  proof (induction args)
    case (Cons a args)
    then show ?case by (cases a) (auto simp: utf8_valid_def from_utf8_ascii)
  qed (simp add: utf8_valid_def)
  moreover have "arg_sig a \<noteq> CHR 0x00" for a by (cases a) auto
  ultimately show ?thesis unfolding text_ok_def by (metis (no_types, lifting) image_iff list.set_map)
qed

definition reader_at :: "message \<Rightarrow> nat \<Rightarrow> body_reader" where
  "reader_at m p = \<lparr>br_message = m, br_pos = p, br_end = length (dm_raw m), br_failed = False\<rparr>"

lemma number_written:
  assumes "4 dvd length pre" "dm_raw m = pre @ w_u32 b v @ rest" "\<not> dm_big m" "v \<le> U32_MAX"
  shows "br_u32 (reader_at m (length pre + length b)) = Some (v, reader_at m (length pre + length (w_u32 b v)))"
proof -
  have "align_to (dm_raw m) (length pre + length b) (length (dm_raw m)) 4 = Some (True, length pre + length (w_align b 4))"
    using assms(1,2) by (intro align_written) (auto simp: w_u32_def)
  moreover have "get_range (dm_raw m) (length pre + length (w_align b 4)) (length pre + length (w_align b 4) + 4) = Some (le_bytes 4 v)"
    using assms(2) by (simp add: get_range_def w_u32_def)
  ultimately show ?thesis using assms(2-4) le_val_le_bytes [of 4 v]
    by (simp add: br_u32_def br_number_def br_align_def reader_at_def checked_sub_def w_u32_def)
qed

lemma string_written:
  assumes "4 dvd length pre" "w_str b s = Some x" "dm_raw m = pre @ x @ rest" "\<not> dm_big m" "text_ok s"
  shows "br_string (reader_at m (length pre + length b)) = Some (s, reader_at m (length pre + length x))"
proof -
  obtain r where r: "read_str (dm_raw m) (length pre + length b) (length (dm_raw m)) False False = Some (Some r, length pre + length x)" "span_is (dm_raw m) r s"
    using str_written [OF assms(1-3) _ assms(5), of "length (dm_raw m)"] assms(3) by auto
  then have "get_range (dm_raw m) (fst r) (snd r) = Some (as_bytes s)" by (auto simp: span_is_def get_range_def)
  then show ?thesis using r(1) assms(4,5) by (cases r) (simp add: br_string_def reader_at_def text_ok_def)
qed

lemma arg_written:
  assumes "4 dvd length pre" "arg_ok a" "w_arg a (sig, b) = Some (sig', x)" "dm_raw m = pre @ x @ rest" "\<not> dm_big m"
  shows "sig' = sig @ [arg_sig a]" "\<exists>y. x = b @ y"
    "read_args (arg_sig a # cs) (reader_at m (length pre + length b)) =
       map_option (\<lambda>(as, r). (a # as, r)) (read_args cs (reader_at m (length pre + length x)))"
proof -
  show "sig' = sig @ [arg_sig a]" using assms(3) by (cases a) (auto simp: w_arg_def)
  show "\<exists>y. x = b @ y" using assms(3) by (cases a) (auto simp: w_arg_def w_str_def w_u32_def w_align_def split: if_splits)
  have fold: "map_option (\<lambda>(as, r). (a # as, r)) z = Option.bind z (\<lambda>(as, r). Some (a # as, r))" for a and z :: "(arg list \<times> body_reader) option"
    by (cases z) auto
  show "read_args (arg_sig a # cs) (reader_at m (length pre + length b)) =
       map_option (\<lambda>(as, r). (a # as, r)) (read_args cs (reader_at m (length pre + length x)))"
  proof (cases a)
    case (ArgI32 v)
    have "unsigned_of 32 v \<le> U32_MAX" by (simp add: unsigned_of_def nat_le_iff)
    moreover have "signed_of 32 (unsigned_of 32 v) = v" using signed_of_unsigned_of [of 32 v] assms(2) ArgI32 by simp
    ultimately show ?thesis using number_written [OF assms(1) _ assms(5), of b "unsigned_of 32 v" rest] assms(3,4) ArgI32
      by (simp add: w_arg_def br_i32_def fold)
  next
    case (ArgU32 v)
    then show ?thesis using number_written [OF assms(1) _ assms(5), of b v rest] assms(2-4) by (simp add: w_arg_def fold)
  next
    case (ArgStr s)
    then show ?thesis using string_written [OF assms(1) _ assms(4,5), of b s] assms(2,3) by (auto simp: w_arg_def fold)
  next
    case (ArgPath s)
    then show ?thesis using string_written [OF assms(1) _ assms(4,5), of b s] assms(2,3) by (auto simp: w_arg_def fold)
  qed
qed

lemma args_written:
  assumes "4 dvd length pre" "\<forall>a\<in>set args. arg_ok a" "w_args args (sig, b) = Some (sig', x)" "dm_raw m = pre @ x" "\<not> dm_big m"
  shows "sig' = sig @ map arg_sig args \<and> (\<exists>y. x = b @ y)
    \<and> read_args (map arg_sig args) (reader_at m (length pre + length b)) = Some (args, reader_at m (length pre + length x))"
  using assms(2,3)
proof (induction args arbitrary: sig b)
  case (Cons a args)
  obtain sig1 x1 where w: "w_arg a (sig, b) = Some (sig1, x1)" "w_args args (sig1, x1) = Some (sig', x)"
    using Cons.prems(2) by (cases "w_arg a (sig, b)") auto
  note ih = Cons.IH [OF _ w(2)]
  obtain y where y: "x = x1 @ y" using ih Cons.prems(1) by auto
  have a: "arg_ok a" "dm_raw m = pre @ x1 @ y" using Cons.prems(1) assms(4) y by simp_all
  note one = arg_written [OF assms(1) a(1) w(1) a(2) assms(5)]
  show ?case using one(1,2) one(3) [of "map arg_sig args"] ih Cons.prems(1) y by auto
qed simp

definition fields_at :: "u8 list \<Rightarrow> string option \<Rightarrow> string \<Rightarrow> string option \<Rightarrow> string \<Rightarrow> string option \<Rightarrow> u8 list \<Rightarrow> u8 list \<Rightarrow> u8 list \<Rightarrow> u8 list \<Rightarrow> u8 list \<Rightarrow> bool" where
  "fields_at h destination path interface member so g1 g2 g3 g4 g5 \<longleftrightarrow>
     w_optional h FIELD_PATH (field_kind FIELD_PATH) (Some path) = Some (h @ g1)
     \<and> w_optional (h @ g1) FIELD_INTERFACE (field_kind FIELD_INTERFACE) interface = Some (h @ g2)
     \<and> w_optional (h @ g2) FIELD_MEMBER (field_kind FIELD_MEMBER) (Some member) = Some (h @ g3)
     \<and> w_optional (h @ g3) FIELD_DESTINATION (field_kind FIELD_DESTINATION) destination = Some (h @ g4)
     \<and> w_optional (h @ g4) FIELD_SIGNATURE (field_kind FIELD_SIGNATURE) so = Some (h @ g5)"

lemma field_kinds: "field_kind FIELD_PATH = 0x6F" "field_kind FIELD_INTERFACE = 0x73" "field_kind FIELD_MEMBER = 0x73"
  "field_kind FIELD_DESTINATION = 0x73" "field_kind FIELD_SIGNATURE = 0x67"
  by (simp_all add: field_kind_def)

lemma w_optional_Some: "w_optional b code kind (Some s) = w_field b code kind s"
  by (simp add: w_optional_def)

lemma call_fields_layout:
  assumes "call_fields h0 destination path interface member so = Some x5"
  shows "\<exists>g1 g2 g3 g4 g5. x5 = h0 @ g5 \<and> (\<forall>h. length h = length h0 \<longrightarrow> fields_at h destination path interface member so g1 g2 g3 g4 g5)"
proof -
  obtain x1 x2 x3 x4 where w: "w_field h0 FIELD_PATH 0x6F path = Some x1" "w_optional x1 FIELD_INTERFACE 0x73 interface = Some x2"
    "w_field x2 FIELD_MEMBER 0x73 member = Some x3" "w_optional x3 FIELD_DESTINATION 0x73 destination = Some x4" "w_optional x4 FIELD_SIGNATURE 0x67 so = Some x5"
    using assms unfolding call_fields_def bind_eq_Some_conv by (elim exE conjE) (rule that)
  have x: "w_optional (h0 @ []) FIELD_PATH (field_kind FIELD_PATH) (Some path) = Some x1"
    "w_optional x1 FIELD_INTERFACE (field_kind FIELD_INTERFACE) interface = Some x2"
    "w_optional x2 FIELD_MEMBER (field_kind FIELD_MEMBER) (Some member) = Some x3"
    "w_optional x3 FIELD_DESTINATION (field_kind FIELD_DESTINATION) destination = Some x4"
    "w_optional x4 FIELD_SIGNATURE (field_kind FIELD_SIGNATURE) so = Some x5"
    using w by (simp_all only: field_kinds w_optional_Some append_Nil2)
  obtain g1 where g1: "x1 = h0 @ g1" "\<forall>h. length h = length h0 \<longrightarrow> w_optional (h @ []) FIELD_PATH (field_kind FIELD_PATH) (Some path) = Some (h @ g1)"
    using w_optional_prefix [OF x(1)] by blast
  obtain g2 where g2: "x2 = h0 @ g2" "\<forall>h. length h = length h0 \<longrightarrow> w_optional (h @ g1) FIELD_INTERFACE (field_kind FIELD_INTERFACE) interface = Some (h @ g2)"
    using w_optional_prefix [OF x(2) [unfolded g1(1)]] by blast
  obtain g3 where g3: "x3 = h0 @ g3" "\<forall>h. length h = length h0 \<longrightarrow> w_optional (h @ g2) FIELD_MEMBER (field_kind FIELD_MEMBER) (Some member) = Some (h @ g3)"
    using w_optional_prefix [OF x(3) [unfolded g2(1)]] by blast
  obtain g4 where g4: "x4 = h0 @ g4" "\<forall>h. length h = length h0 \<longrightarrow> w_optional (h @ g3) FIELD_DESTINATION (field_kind FIELD_DESTINATION) destination = Some (h @ g4)"
    using w_optional_prefix [OF x(4) [unfolded g3(1)]] by blast
  obtain g5 where g5: "x5 = h0 @ g5" "\<forall>h. length h = length h0 \<longrightarrow> w_optional (h @ g4) FIELD_SIGNATURE (field_kind FIELD_SIGNATURE) so = Some (h @ g5)"
    using w_optional_prefix [OF x(5) [unfolded g4(1)]] by blast
  have "fields_at h destination path interface member so g1 g2 g3 g4 g5" if "length h = length h0" for h
    unfolding fields_at_def using that g1(2) g2(2) g3(2) g4(2) g5(2) by (metis append_Nil2)
  then show ?thesis using g5(1) by blast
qed

lemma call_start_bytes: "call_start serial flags n = [0x6C, 1, word_of_nat flags, 1] @ le_bytes 4 n @ le_bytes 4 serial @ le_bytes 4 0"
  by (simp add: call_start_def w_u32_def w_align_def next_multiple_of_def div_ceil_def)

lemma build_call_parts:
  assumes "build_call serial flags destination path interface member args = Some raw"
  shows "\<exists>signature body x5. w_args args ([], []) = Some (signature, body) \<and> length body \<le> U32_MAX
    \<and> call_fields (call_start serial flags (length body)) destination path interface member (if args \<noteq> [] then Some signature else None) = Some x5
    \<and> length x5 - 16 \<le> U32_MAX \<and> raw = take 12 (w_align x5 8 @ body) @ le_bytes 4 (length x5 - 16) @ drop 16 (w_align x5 8 @ body)
    \<and> length raw \<le> MAX_MESSAGE"
proof -
  have lc: "length (call_start serial flags n) = 16" for n by (simp add: call_start_bytes)
  obtain signature body where sb: "w_args args ([], []) = Some (signature, body)"
    using assms by (cases "w_args args ([], [])") (auto simp: build_call_def split: if_splits)
  define so where "so = (if args \<noteq> [] then Some signature else None)"
  define raw_of where "raw_of out = take 12 (w_align out 8 @ body) @ le_bytes 4 (length out - 16) @ drop 16 (w_align out 8 @ body)" for out
  have e: "(if 32 \<le> length args then None
     else if U32_MAX < length body then None
     else do { out \<leftarrow> call_fields (call_start serial flags (length body)) destination path interface member so;
       if U32_MAX < length out - 16 then None else if length (raw_of out) \<le> MAX_MESSAGE then Some (raw_of out) else None }) = Some raw"
    using assms unfolding build_call_def sb raw_of_def so_def Let_def lc by (simp only: bind.bind_lunit prod.case)
  then obtain x5 where x5: "call_fields (call_start serial flags (length body)) destination path interface member so = Some x5" "length body \<le> U32_MAX"
    "(if U32_MAX < length x5 - 16 then None else if length (raw_of x5) \<le> MAX_MESSAGE then Some (raw_of x5) else None) = Some raw"
    by (cases "call_fields (call_start serial flags (length body)) destination path interface member so") (auto simp only: bind.simps option.distinct not_less split: if_split_asm)
  then have "length x5 - 16 \<le> U32_MAX" "raw = raw_of x5" "length raw \<le> MAX_MESSAGE" by (auto simp only: not_less option.inject option.distinct split: if_split_asm)
  then show ?thesis using sb x5(1,2) unfolding so_def raw_of_def by blast
qed

lemma build_call_layout:
  assumes "build_call serial flags destination path interface member args = Some raw"
  shows "\<exists>signature body h g1 g2 g3 g4 g5. w_args args ([], []) = Some (signature, body) \<and> length body \<le> U32_MAX
    \<and> h = [0x6C, 1, word_of_nat flags, 1] @ le_bytes 4 (length body) @ le_bytes 4 serial @ le_bytes 4 (length g5)
    \<and> fields_at h destination path interface member (if args \<noteq> [] then Some signature else None) g1 g2 g3 g4 g5
    \<and> length g5 \<le> U32_MAX \<and> raw = w_align (h @ g5) 8 @ body \<and> length raw \<le> MAX_MESSAGE"
proof -
  obtain signature body x5 where p: "w_args args ([], []) = Some (signature, body)" "length body \<le> U32_MAX"
    "call_fields (call_start serial flags (length body)) destination path interface member (if args \<noteq> [] then Some signature else None) = Some x5"
    "length x5 - 16 \<le> U32_MAX" "raw = take 12 (w_align x5 8 @ body) @ le_bytes 4 (length x5 - 16) @ drop 16 (w_align x5 8 @ body)" "length raw \<le> MAX_MESSAGE"
    using build_call_parts [OF assms] by blast
  obtain g1 g2 g3 g4 g5 where g: "x5 = call_start serial flags (length body) @ g5"
    "\<forall>h. length h = length (call_start serial flags (length body)) \<longrightarrow>
       fields_at h destination path interface member (if args \<noteq> [] then Some signature else None) g1 g2 g3 g4 g5"
    using call_fields_layout [OF p(3)] by blast
  define h where "h = [0x6C, 1, word_of_nat flags, 1] @ le_bytes 4 (length body) @ le_bytes 4 serial @ le_bytes 4 (length g5)"
  have "length h = length (call_start serial flags (length body))" by (simp add: h_def call_start_bytes)
  then have "fields_at h destination path interface member (if args \<noteq> [] then Some signature else None) g1 g2 g3 g4 g5" using g(2) by blast
  moreover have "length g5 \<le> U32_MAX" "raw = w_align (h @ g5) 8 @ body" using p(4,5) unfolding g(1) by (simp_all add: call_start_bytes w_align_def h_def)
  ultimately show ?thesis using p(1,2,6) h_def by blast
qed

lemma call_fields_parse:
  assumes f: "fields_at h destination path interface member so g1 g2 g3 g4 g5"
    and "raw = (h @ g5) @ rest" "fin = length (h @ g5)" "dm_path m0 = None" "dm_interface m0 = None" "dm_member m0 = None" "dm_signature m0 = None"
    and "text_ok path" "pred_option text_ok interface" "text_ok member" "pred_option text_ok destination" "pred_option text_ok so"
  shows "\<exists>m. fields_loop raw False fin (length h) m0 = accept m \<and> dm_kind m = dm_kind m0 \<and> dm_serial m = dm_serial m0 \<and> dm_big m = dm_big m0
    \<and> rel_option (span_is raw) (dm_path m) (Some path) \<and> rel_option (span_is raw) (dm_interface m) interface
    \<and> rel_option (span_is raw) (dm_member m) (Some member) \<and> rel_option (span_is raw) (dm_signature m) so"
proof -
  note f = f [unfolded fields_at_def]
  note loop = loop_field [where raw = raw and fin = fin]
  have f2: "w_optional (h @ g1) FIELD_INTERFACE (field_kind FIELD_INTERFACE) interface = Some (h @ g2)"
    "w_optional (h @ g2) FIELD_MEMBER (field_kind FIELD_MEMBER) (Some member) = Some (h @ g3)"
    "w_optional (h @ g3) FIELD_DESTINATION (field_kind FIELD_DESTINATION) destination = Some (h @ g4)"
    "w_optional (h @ g4) FIELD_SIGNATURE (field_kind FIELD_SIGNATURE) so = Some (h @ g5)" using f by blast+
  obtain y2 y3 y4 y5 where y: "g2 = g1 @ y2" "g3 = g2 @ y3" "g4 = g3 @ y4" "g5 = g4 @ y5"
    using w_optional_extends [OF f2(1)] w_optional_extends [OF f2(2)] w_optional_extends [OF f2(3)] w_optional_extends [OF f2(4)] by auto
  have p: "raw = (h @ g1) @ y2 @ y3 @ y4 @ y5 @ rest" "raw = (h @ g2) @ y3 @ y4 @ y5 @ rest" "raw = (h @ g3) @ y4 @ y5 @ rest" "raw = (h @ g4) @ y5 @ rest"
    "length (h @ g1) \<le> fin" "length (h @ g2) \<le> fin" "length (h @ g3) \<le> fin" "length (h @ g4) \<le> fin" "length (h @ g5) \<le> fin"
    using assms(2,3) by (simp_all add: y)
  obtain r1 where r1: "fields_loop raw False fin (length h) m0 = fields_loop raw False fin (length (h @ g1)) (put_opt FIELD_PATH r1 m0)"
    "rel_option (span_is raw) r1 (Some path)"
    using loop [OF conjunct1 [OF f] p(1), of m0] p(5) assms(8) by (simp only: option.pred_inject insertI1 simp_thms) blast
  define m1 where "m1 = (put_opt FIELD_PATH r1 m0)"
  obtain r2 where r2: "fields_loop raw False fin (length (h @ g1)) m1 = fields_loop raw False fin (length (h @ g2)) (put_opt FIELD_INTERFACE r2 m1)"
    "rel_option (span_is raw) r2 interface"
    using loop [OF f2(1) p(2), of m1] p(6) assms(9) by (simp only: insert_iff simp_thms) blast
  define m2 where "m2 = (put_opt FIELD_INTERFACE r2 m1)"
  obtain r3 where r3: "fields_loop raw False fin (length (h @ g2)) m2 = fields_loop raw False fin (length (h @ g3)) (put_opt FIELD_MEMBER r3 m2)"
    "rel_option (span_is raw) r3 (Some member)"
    using loop [OF f2(2) p(3), of m2] p(7) assms(10) by (simp only: option.pred_inject insert_iff simp_thms) blast
  define m3 where "m3 = (put_opt FIELD_MEMBER r3 m2)"
  obtain r4 where r4: "fields_loop raw False fin (length (h @ g3)) m3 = fields_loop raw False fin (length (h @ g4)) (put_opt FIELD_DESTINATION r4 m3)"
    using loop [OF f2(3) p(4), of m3] p(8) assms(11) by (simp only: insert_iff simp_thms) blast
  define m4 where "m4 = (put_opt FIELD_DESTINATION r4 m3)"
  obtain r5 where r5: "fields_loop raw False fin (length (h @ g4)) m4 = fields_loop raw False fin (length (h @ g5)) (put_opt FIELD_SIGNATURE r5 m4)"
    "rel_option (span_is raw) r5 so"
    using loop [OF f2(4) assms(2), of m4] p(9) assms(12) by (simp only: insert_iff simp_thms) blast
  define m5 where "m5 = (put_opt FIELD_SIGNATURE r5 m4)"
  have "fields_loop raw False fin (length h) m0 = accept m5"
    using r1(1) r2(1) r3(1) r4 r5(1) assms(3) unfolding m1_def [symmetric] m2_def [symmetric] m3_def [symmetric] m4_def [symmetric] m5_def [symmetric]
    by (simp add: fields_loop.simps [of raw False "length h + length g5" "length h + length g5"])
  moreover have "dm_path m5 = r1" "dm_interface m5 = r2" "dm_member m5 = r3" "dm_signature m5 = r5"
    "dm_kind m5 = dm_kind m0" "dm_serial m5 = dm_serial m0" "dm_big m5 = dm_big m0"
    using assms(4-7) by (simp_all add: m1_def m2_def m3_def m4_def m5_def put_opt_fields put_opt_fields [unfolded One_nat_def])
  ultimately show ?thesis using r1(2) r2(2) r3(2) r5(2) by auto
qed

lemma span_text_is: "span_is (dm_raw m) r s \<Longrightarrow> utf8_valid s \<Longrightarrow> span_text m (Some r) = accept s"
  by (cases r) (auto simp: span_text_def span_is_def get_range_def)

lemma header_words:
  assumes "raw = ([0x6C, 1, fl, 1] @ le_bytes 4 a @ le_bytes 4 b @ le_bytes 4 c) @ rest" "a \<le> U32_MAX" "b \<le> U32_MAX" "c \<le> U32_MAX"
  shows "load32 raw 4 False = Some a" "load32 raw 8 False = Some b" "load32 raw 12 False = Some c"
proof -
  have four: "length ([0x6C, 1, fl, 1] :: u8 list) = 4" by simp
  have "load32 ([0x6C, 1, fl, 1] @ le_bytes 4 a @ le_bytes 4 b @ le_bytes 4 c @ rest) 4 False = Some (a mod 4294967296)"
    using load32_written [of "[0x6C, 1, fl, 1]" a "le_bytes 4 b @ le_bytes 4 c @ rest"] unfolding four .
  then show "load32 raw 4 False = Some a" using assms(1,2) by simp
  have "load32 raw (length ([0x6C, 1, fl, 1] @ le_bytes 4 a)) False = Some (b mod 4294967296)"
    unfolding assms(1) using load32_written [of "[0x6C, 1, fl, 1] @ le_bytes 4 a"] by simp
  moreover have "load32 raw (length ([0x6C, 1, fl, 1] @ le_bytes 4 a @ le_bytes 4 b)) False = Some (c mod 4294967296)"
    unfolding assms(1) using load32_written [of "[0x6C, 1, fl, 1] @ le_bytes 4 a @ le_bytes 4 b"] by simp
  moreover have "length ([0x6C, 1, fl, 1] @ le_bytes 4 a) = 8" "length ([0x6C, 1, fl, 1] @ le_bytes 4 a @ le_bytes 4 b) = 12" by simp_all
  ultimately show "load32 raw 8 False = Some b" "load32 raw 12 False = Some c" using assms(2-4) by auto
qed

lemma call_parses_back:
  assumes "build_call serial flags destination path interface member args = Some raw"
    and "0 < serial" "serial \<le> U32_MAX" "text_ok path" "pred_option text_ok destination" "pred_option text_ok interface" "text_ok member"
    and "\<forall>a\<in>set args. arg_ok a"
  shows "\<exists>m r. parse_message raw = accept m \<and> dm_kind m = METHOD_CALL \<and> dm_serial m = serial
    \<and> path_of m = accept path \<and> interface_of m = Some interface \<and> member_of m = accept member \<and> signature_of m = Some (map arg_sig args)
    \<and> read_args (map arg_sig args) (body_of m) = Some (args, r) \<and> \<not> br_failed r \<and> br_pos r = br_end r"
proof -
  obtain sg body h g1 g2 g3 g4 g5 where b: "w_args args ([], []) = Some (sg, body)" "length body \<le> U32_MAX"
    and h: "h = [0x6C, 1, word_of_nat flags, 1] @ le_bytes 4 (length body) @ le_bytes 4 serial @ le_bytes 4 (length g5)"
    and f: "fields_at h destination path interface member (if args \<noteq> [] then Some sg else None) g1 g2 g3 g4 g5"
    and raw: "length g5 \<le> U32_MAX" "raw = w_align (h @ g5) 8 @ body" "length raw \<le> MAX_MESSAGE"
    using build_call_layout [OF assms(1)] by blast
  have lh: "length h = 16" by (simp add: h)
  define fin where "fin = 16 + length g5"
  have start: "next_multiple_of fin 8 = length (w_align (h @ g5) 8)" by (simp add: length_w_align lh fin_def)
  have w: "load32 raw 4 False = Some (length body)" "load32 raw 8 False = Some serial" "load32 raw 12 False = Some (length g5)"
    using header_words [of raw "word_of_nat flags" "length body" serial "length g5"] raw b(2) assms(3) by (auto simp: h w_align_def)
  have bytes: "raw ! 0 = 0x6C" "raw ! 1 = 1" "raw ! 3 = 1" "16 \<le> length raw" using raw(2) by (auto simp: h w_align_def)
  have len: "message_length raw = accept (length raw)"
    using w(1,3) bytes raw(2,3) start by (simp add: message_length_def fin_def not_less)
  have d: "4 dvd length (w_align (h @ g5) 8)"
    using start unfolding next_multiple_of_def by (metis dvd_triv_right dvd_mult_left mult_2_right numeral_Bit0 dvd_trans dvdI numeral_times_numeral semiring_norm(13))
  have args: "sg = map arg_sig args \<and> read_args (map arg_sig args) (reader_at m (next_multiple_of fin 8)) = Some (args, reader_at m (length raw))"
    if "dm_raw m = raw" "\<not> dm_big m" for m
    using args_written [OF d assms(8) b(1) _ that(2)] that(1) raw(2) start by simp
  define m0 where "m0 = \<lparr>dm_raw = [], dm_big = False, dm_kind = 1, dm_serial = serial, dm_reply_serial = 0, dm_path = None,
       dm_interface = None, dm_member = None, dm_signature = None, dm_body = (0, 0)\<rparr>"
  obtain m where m: "fields_loop raw False fin 16 m0 = accept m" "dm_kind m = 1" "dm_serial m = serial" "\<not> dm_big m"
    "rel_option (span_is raw) (dm_path m) (Some path)" "rel_option (span_is raw) (dm_interface m) interface"
    "rel_option (span_is raw) (dm_member m) (Some member)" "rel_option (span_is raw) (dm_signature m) (if args \<noteq> [] then Some sg else None)"
  proof -
    have "sg = map arg_sig args" using args [of "m0\<lparr>dm_raw := raw\<rparr>"] by (simp add: m0_def)
    then have so: "pred_option text_ok (if args \<noteq> [] then Some sg else None)" using text_ok_signature by simp
    have r: "raw = (h @ g5) @ replicate (next_multiple_of (16 + length g5) 8 - (16 + length g5)) 0 @ body" using raw(2) lh by (simp add: w_align_def)
    have z: "fin = length (h @ g5)" "dm_path m0 = None" "dm_interface m0 = None" "dm_member m0 = None" "dm_signature m0 = None"
      "dm_kind m0 = 1" "dm_serial m0 = serial" "\<not> dm_big m0" by (simp_all add: fin_def lh m0_def)
    show ?thesis using call_fields_parse [OF f r z(1-5) assms(4,6,7,5) so] that unfolding lh by (metis z(6-8))
  qed
  define m' where "m' = m\<lparr>dm_body := (next_multiple_of fin 8, length raw), dm_raw := raw\<rparr>"
  have "get_range raw fin (next_multiple_of fin 8) = Some (replicate (next_multiple_of fin 8 - fin) 0)"
    unfolding raw(2) using lh next_multiple_of_ge [of 8 fin] by (simp add: get_range_def w_align_def fin_def)
  moreover have "next_multiple_of fin 8 \<le> length raw" using raw(2) start by simp
  ultimately have p: "parse_message raw = accept m'" unfolding parse_message_def len bind2_def Let_def
    using w(2,3) bytes(1,2) assms(2) m(1) by (simp add: fin_def [symmetric] m0_def m'_def bind2_def list_ex_iff)
  have span: "span_text m' r = Some s" if "rel_option (span_is raw) r s" "pred_option text_ok s" for r s
    using that span_text_is [of m'] by (cases r; cases s) (auto simp: m'_def span_text_def text_ok_def)
  have "signature_of m' = Some (map arg_sig args)"
    using span [OF m(8)] args [of m'] m(4) text_ok_signature by (auto simp: signature_of_def m'_def split: if_splits)
  moreover have "path_of m' = accept path" "interface_of m' = Some interface" "member_of m' = accept member"
    using span [OF m(5)] span [OF m(6)] span [OF m(7)] assms(4,6,7) by (simp_all add: path_of_def interface_of_def member_of_def m'_def)
  moreover have "body_of m' = reader_at m' (next_multiple_of fin 8)" by (simp add: body_of_def reader_at_def m'_def)
  ultimately show ?thesis using p m(2,3,4) args [of m']
    by (intro exI [of _ m'] exI [of _ "reader_at m' (length raw)"]) (simp add: m'_def reader_at_def)
qed

text \<open>C36. A method call that the client marshals parses back to itself: the message is accepted, with the
  serial number, path, interface, member and signature that were given, and reading its body by that
  signature gives the arguments in order and ends exactly at the end of the body. The strings are UTF-8
  without NUL, as every string is that the receiver took from the bus.\<close>

theorem dbus_call_roundtrip:
  assumes "build_call serial flags destination path interface member args = Some raw"
    and "0 < serial" "serial \<le> U32_MAX" "text_ok path" "pred_option text_ok destination" "pred_option text_ok interface" "text_ok member"
    and "\<forall>a\<in>set args. arg_ok a"
  shows "\<exists>m r. parse_message raw = accept m \<and> dm_kind m = METHOD_CALL \<and> dm_serial m = serial
    \<and> path_of m = accept path \<and> interface_of m = Some interface \<and> member_of m = accept member \<and> signature_of m = Some (map arg_sig args)
    \<and> read_args (map arg_sig args) (body_of m) = Some (args, r) \<and> \<not> br_failed r \<and> br_pos r = br_end r"
  by (rule call_parses_back [OF assms])

definition demo_call :: "u8 list" where
  "demo_call = the (build_call 7 0 None ''/p'' None ''M'' [ArgU32 5])"

lemma demo_fields:
  "length b = 16 \<Longrightarrow> \<exists>x. call_fields b None ''/p'' None ''M'' (Some ''u'') = Some (b @ x) \<and> length x = 39"
proof -
  let ?f1 = "[1, 1, 0x6F, 0] @ le_bytes 4 2 @ as_bytes ''/p'' @ [0] :: u8 list"
  let ?f2 = "replicate 5 0 @ [3, 1, 0x73, 0] @ le_bytes 4 1 @ as_bytes ''M'' @ [0] :: u8 list"
  let ?f3 = "replicate 6 0 @ [8, 1, 0x67, 0] @ [1] @ as_bytes ''u'' @ [0] :: u8 list"
  assume b: "length b = 16"
  have two: "le_bytes 4 (length ''/p'') = le_bytes 4 2" by (simp add: numeral_2_eq_2)
  have "w_field b FIELD_PATH 0x6F ''/p'' = Some (b @ ?f1)"
    using b by (simp add: w_field_def w_str_def w_u32_def w_align_def next_multiple_of_def div_ceil_def two [symmetric])
  moreover have "w_field c FIELD_MEMBER 0x73 ''M'' = Some (c @ ?f2)" if "length c = 27" for c
    using that by (simp add: w_field_def w_str_def w_u32_def w_align_def next_multiple_of_def div_ceil_def)
  moreover have "w_field c FIELD_SIGNATURE 0x67 ''u'' = Some (c @ ?f3)" if "length c = 42" for c
    using that by (simp add: w_field_def w_sig_def w_align_def next_multiple_of_def div_ceil_def)
  ultimately show ?thesis using b by (simp add: call_fields_def w_optional_def)
qed

lemma demo_call_built: "build_call 7 0 None ''/p'' None ''M'' [ArgU32 5] = Some demo_call"
proof -
  have cs: "length (call_start 7 0 4) = 16" by (simp add: call_start_bytes)
  obtain x where x: "call_fields (call_start 7 0 4) None ''/p'' None ''M'' (Some ''u'') = Some (call_start 7 0 4 @ x)" "length x = 39"
    using demo_fields [OF cs] by blast
  have "w_arg (ArgU32 5) ([], []) = Some (''u'', le_bytes 4 5)" by (simp add: w_arg_def w_u32_def w_align_def next_multiple_of_def div_ceil_def)
  moreover have "length (w_align (call_start 7 0 4 @ x) 8) = 56" using x(2) by (simp add: length_w_align cs next_multiple_of_def div_ceil_def)
  ultimately have "build_call 7 0 None ''/p'' None ''M'' [ArgU32 5] \<noteq> None" using x cs by (simp add: build_call_def Let_def)
  then show ?thesis by (auto simp: demo_call_def)
qed

lemma demo_texts: "text_ok ''/p''" "text_ok ''M''"
  by (simp_all add: text_ok_def utf8_valid_def from_utf8_ascii)

theorem dbus_call_roundtrip_witness:
  "build_call 7 0 None ''/p'' None ''M'' [ArgU32 5] = Some demo_call
   \<and> text_ok ''/p'' \<and> arg_ok (ArgU32 5)
   \<and> (\<exists>m r. parse_message demo_call = accept m \<and> dm_serial m = 7 \<and> path_of m = accept ''/p'' \<and> signature_of m = Some ''u''
        \<and> read_args ''u'' (body_of m) = Some ([ArgU32 5], r))"
  using dbus_call_roundtrip [OF demo_call_built] demo_call_built demo_texts by auto

theorem dbus_parse_safe_witness:
  "\<exists>m. parse_message demo_call = accept m \<and> spans_ok demo_call m \<and> reader_inside (body_of m) \<and> reads_safely (br_align 8)"
proof -
  obtain m where "parse_message demo_call = accept m"
    using call_parses_back [OF demo_call_built] demo_texts by auto
  then show ?thesis using dbus_parse_safe [of demo_call] by auto
qed

end
