(* ===== verification/Mdns.thy ===== *)
theory Mdns
  imports Discovery Dbus
begin

text \<open>
  \<^verbatim>\<open>crates/omt-receiver/src/mdns.rs\<close>, the browse of the local network through the Avahi daemon, and the rest of
  \<^verbatim>\<open>crates/omt-receiver/src/discovery.rs\<close>: the discovery over whichever transport is configured, and the
  resolution of a target. As in \<open>Dbus\<close>, the outer \<open>None\<close> is a panic or the end of the answers.
\<close>

section \<open>Messages of the browse\<close>

abbreviation SERVICE :: string where "SERVICE \<equiv> ''org.freedesktop.Avahi''"
abbreviation SERVER_INTERFACE :: string where "SERVER_INTERFACE \<equiv> ''org.freedesktop.Avahi.Server''"
abbreviation BROWSER_INTERFACE :: string where "BROWSER_INTERFACE \<equiv> ''org.freedesktop.Avahi.ServiceBrowser''"
abbreviation RESOLVER_INTERFACE :: string where "RESOLVER_INTERFACE \<equiv> ''org.freedesktop.Avahi.ServiceResolver''"
abbreviation SERVICE_TYPE :: string where "SERVICE_TYPE \<equiv> ''_omt._tcp''"
abbreviation (input) UNSPEC :: int where "UNSPEC \<equiv> - 1"
abbreviation (input) MAX_RESOLVERS :: nat where "MAX_RESOLVERS \<equiv> 256"
abbreviation (input) MAX_REMOVED :: nat where "MAX_REMOVED \<equiv> 256"

definition is_signal :: "message \<Rightarrow> string \<Rightarrow> string \<Rightarrow> bool option" where
  "is_signal m interface member =
     (if dm_kind m \<noteq> SIGNAL then Some False
      else do { mm \<leftarrow> member_of m;
                if mm \<noteq> Some member then Some False
                else do { mi \<leftarrow> interface_of m; Some (mi = Some interface) } })"

record browser_item =
  bi_interface :: int
  bi_protocol :: int
  bi_name :: string
  bi_kind :: string
  bi_domain :: string

definition read_browser_item :: "message \<Rightarrow> browser_item attempt" where
  "read_browser_item m =
     do { sg \<leftarrow> signature_of m;
          if sg \<noteq> ''iisssu'' then refuse
          else
            do { (interface, r) \<leftarrow> br_i32 (body_of m);
                 (protocol, r) \<leftarrow> br_i32 r;
                 (name, r) \<leftarrow> br_string r;
                 (kind, r) \<leftarrow> br_string r;
                 (domain, r) \<leftarrow> br_string r;
                 (_, r) \<leftarrow> br_u32 r;
                 if br_failed r then refuse
                 else accept \<lparr>bi_interface = interface, bi_protocol = protocol, bi_name = name, bi_kind = kind, bi_domain = domain\<rparr> } }"

definition resolved_source :: "message \<Rightarrow> (string \<times> endpoint) attempt" where
  "resolved_source m =
     do { sg \<leftarrow> signature_of m;
          if sg \<noteq> ''iissssisqaayu'' then refuse
          else
            do { (_, r) \<leftarrow> br_i32 (body_of m);
                 (_, r) \<leftarrow> br_i32 r;
                 (name, r) \<leftarrow> br_string r;
                 (_, r) \<leftarrow> br_string r;
                 (_, r) \<leftarrow> br_string r;
                 (_, r) \<leftarrow> br_string r;
                 (_, r) \<leftarrow> br_i32 r;
                 (address, r) \<leftarrow> br_string r;
                 (port, r) \<leftarrow> br_u16 r;
                 r \<leftarrow> skip_aay r;
                 (_, r) \<leftarrow> br_u32 r;
                 if br_failed r \<or> br_pos r \<noteq> br_end r \<or> \<not> is_valid_source_name_bytes (as_bytes name) then refuse
                 else Some (map_option (Pair name) (endpoint_from_parts address port)) } }"

definition reply_path :: "message \<Rightarrow> string attempt" where
  "reply_path reply =
     do { sg \<leftarrow> signature_of reply;
          if sg \<noteq> ''o'' then refuse
          else do { (path, r) \<leftarrow> br_string (body_of reply); Some (if br_failed r then None else Some path) } }"

section \<open>The browse\<close>

text \<open>A call whose reply is an object path; \<open>None\<close> inside when it failed.\<close>

definition call_path :: "string \<Rightarrow> arg list \<Rightarrow> bus \<Rightarrow> (string option \<times> bus) option" where
  "call_path member args b =
     do { (r, b) \<leftarrow> bus_call (Some SERVICE) ''/'' (Some SERVER_INTERFACE) member args b;
          case r of
            Inl _ \<Rightarrow> Some (None, b)
          | Inr reply \<Rightarrow> do { p \<leftarrow> reply_path reply; Some (p, b) } }"

record browse_state =
  bs_bus :: bus
  bs_resolvers :: "string list"
  bs_removed :: "string list"
  bs_out :: source_set

definition item_new :: "message \<Rightarrow> browse_state \<Rightarrow> browse_state option" where
  "item_new m st =
     (if MAX_RESOLVERS \<le> length (bs_resolvers st) then Some st
      else do { it \<leftarrow> read_browser_item m;
                case it of
                  None \<Rightarrow> Some st
                | Some it \<Rightarrow>
                    if bi_kind it \<noteq> SERVICE_TYPE then Some st
                    else do { (p, b) \<leftarrow> call_path ''ServiceResolverNew''
                                [ArgI32 (bi_interface it), ArgI32 (bi_protocol it), ArgStr (bi_name it), ArgStr (bi_kind it), ArgStr (bi_domain it), ArgI32 UNSPEC, ArgU32 0]
                                (bs_bus st);
                              Some (st\<lparr>bs_bus := b, bs_resolvers := bs_resolvers st @ (case p of None \<Rightarrow> [] | Some p \<Rightarrow> [p])\<rparr>) } })"

definition item_remove :: "message \<Rightarrow> browse_state \<Rightarrow> browse_state option" where
  "item_remove m st =
     do { it \<leftarrow> read_browser_item m;
          case it of
            None \<Rightarrow> Some st
          | Some it \<Rightarrow>
              Some (st\<lparr>bs_out := source_remove (bi_name it) (bs_out st),
                       bs_removed := (if length (bs_removed st) < MAX_REMOVED \<and> length (bi_name it) \<le> SOURCE_NAME_MAX_BYTES \<and> bi_name it \<notin> set (bs_removed st)
                                      then bs_removed st @ [bi_name it] else bs_removed st)\<rparr>) }"

definition found :: "nat \<Rightarrow> message \<Rightarrow> browse_state \<Rightarrow> browse_state option" where
  "found capacity m st =
     do { s \<leftarrow> resolved_source m;
          case s of
            None \<Rightarrow> Some st
          | Some (name, ep) \<Rightarrow>
              Some (if name \<notin> set (bs_removed st) \<and> length (bs_out st) < capacity then st\<lparr>bs_out := fst (source_put name ep (bs_out st))\<rparr> else st) }"

definition browse_message :: "nat \<Rightarrow> message \<Rightarrow> browse_state \<Rightarrow> browse_state option" where
  "browse_message capacity m st =
     do { new \<leftarrow> is_signal m BROWSER_INTERFACE ''ItemNew'';
          if new then item_new m st
          else do { rem \<leftarrow> is_signal m BROWSER_INTERFACE ''ItemRemove'';
                    if rem then item_remove m st
                    else do { fnd \<leftarrow> is_signal m RESOLVER_INTERFACE ''Found''; if fnd then found capacity m st else Some st } } }"

text \<open>What is left to read: the queued signals and the bytes. A call may turn bytes into queued signals,
  but a signal takes at least sixteen bytes, so the sum never grows, and each message taken lowers it.\<close>

definition bus_weight :: "bus \<Rightarrow> nat" where
  "bus_weight b = length (bus_pending b) + bus_bytes b"

lemma send_all_weight: "send_all data b = Some (r, b') \<Longrightarrow> bus_weight b' = bus_weight b"
  by (auto simp: send_all_def bus_weight_def bus_bytes_def split: list.splits)

lemma bus_fill_weight: "bus_fill t c b = Some (r, b') \<Longrightarrow> bus_bytes b' \<le> bus_bytes b \<and> bus_pending b' = bus_pending b"
  by (auto simp: bus_fill_def bus_bytes_def Let_def split: list.splits bus_answer.splits if_splits)

lemma bus_receive_weight: "bus_receive b = Some (r, b') \<Longrightarrow> bus_bytes b' \<le> bus_bytes b \<and> bus_pending b' = bus_pending b"
proof (induction b rule: bus_receive.induct)
  case (1 b)
  show ?case
  proof (cases "16 \<le> length (bus_inbox b) \<and> (\<forall>len. message_length (bus_inbox b) = accept len \<longrightarrow> len \<le> length (bus_inbox b))")
    case True
    then show ?thesis using "1.prems" by (subst (asm) bus_receive.simps) (auto simp: bus_bytes_def split: option.splits)
  next
    case False
    then obtain r1 b1 where b1: "bus_fill ''D-Bus deadline expired'' ''D-Bus connection closed'' b = Some (r1, b1)"
      "(case r1 of Inl e \<Rightarrow> Some (Inl e, b1) | Inr _ \<Rightarrow> bus_receive b1) = Some (r, b')"
      using "1.prems" by (subst (asm) (2) bus_receive.simps) (auto simp: Let_def split: option.splits sum.splits if_splits)
    show ?thesis
    proof (cases r1)
      case (Inl e)
      then show ?thesis using b1 bus_fill_weight [OF b1(1)] by auto
    next
      case (Inr u)
      then show ?thesis using "1.IH" [OF b1(1) refl] b1(2) bus_fill_weight [OF b1(1)] by auto
    qed
  qed
qed

lemma bus_next_weight: "bus_next b = Some (Inr m, b') \<Longrightarrow> bus_weight b' < bus_weight b"
  using bus_receive_bytes [of b m b'] bus_receive_weight [of b "Inr m" b']
  by (auto simp: bus_next_def bus_weight_def bus_bytes_def split: list.splits)

lemma queue_signal_weight: "bus_weight (queue_signal m b) \<le> bus_weight b + 1"
  by (auto simp: queue_signal_def bus_weight_def bus_bytes_def Let_def)

lemma reply_loop_weight: "reply_loop member serial b = Some (r, b') \<Longrightarrow> bus_weight b' \<le> bus_weight b"
proof (induction member serial b rule: reply_loop.induct)
  case (1 member serial b)
  then obtain r1 b1 where b1: "bus_receive b = Some (r1, b1)" by (subst (asm) (2) reply_loop.simps) (auto split: option.splits)
  have w: "bus_weight b1 \<le> bus_weight b" using bus_receive_weight [OF b1] by (simp add: bus_weight_def)
  show ?case
  proof (cases r1)
    case (Inl e)
    then show ?thesis using "1.prems" b1 w by (subst (asm) reply_loop.simps) simp
  next
    case (Inr m)
    have less: "bus_weight b1 + 1 \<le> bus_weight b" using bus_receive_bytes [of b m b1] bus_receive_weight [OF b1] b1 Inr by (simp add: bus_weight_def)
    show ?thesis
    proof (cases "(dm_kind m = METHOD_RETURN \<or> dm_kind m = DBUS_ERROR) \<and> dm_reply_serial m = serial")
      case True
      then show ?thesis using "1.prems" b1 Inr w by (subst (asm) reply_loop.simps) simp
    next
      case False
      then have "reply_loop member serial (if dm_kind m = SIGNAL then queue_signal m b1 else b1) = Some (r, b')"
        using "1.prems" b1 Inr by (subst (asm) reply_loop.simps) (simp split: if_split_asm)
      then have "bus_weight b' \<le> bus_weight (if dm_kind m = SIGNAL then queue_signal m b1 else b1)" using "1.IH" [OF b1 refl Inr False] by simp
      then show ?thesis using queue_signal_weight [of m b1] less by (auto split: if_splits)
    qed
  qed
qed

lemma send_call_weight: "send_call flags d p i mem args b = Some (r, b') \<Longrightarrow> bus_weight b' = bus_weight b"
  by (auto simp: send_call_def Let_def split: option.splits dest!: send_all_weight) (simp_all add: bus_weight_def bus_bytes_def)

lemma bus_call_weight:
  assumes "bus_call d p i mem args b = Some (r, b')"
  shows "bus_weight b' \<le> bus_weight b"
proof -
  obtain r1 b1 where s: "send_call 0 d p i mem args b = Some (r1, b1)" "(case r1 of Inl e \<Rightarrow> Some (Inl e, b1) | Inr serial \<Rightarrow> reply_loop mem serial b1) = Some (r, b')"
    using assms by (auto simp: bus_call_def bind_eq_Some_conv)
  then show ?thesis using send_call_weight [OF s(1)] reply_loop_weight [of mem _ b1 r b'] by (cases r1) auto
qed

lemma call_path_weight: "call_path member args b = Some (p, b') \<Longrightarrow> bus_weight b' \<le> bus_weight b"
  unfolding call_path_def by (auto elim!: bind_SomeE split: sum.split_asm dest!: bus_call_weight)

lemma browse_message_weight: "browse_message capacity m st = Some st' \<Longrightarrow> bus_weight (bs_bus st') \<le> bus_weight (bs_bus st)"
  unfolding browse_message_def item_new_def item_remove_def found_def
  by (auto elim!: bind_SomeE split: if_split_asm option.split_asm dest!: call_path_weight)

function browse_loop :: "nat \<Rightarrow> browse_state \<Rightarrow> browse_state option" where
  "browse_loop capacity st =
     (case bus_next (bs_bus st) of
        None \<Rightarrow> None
      | Some (Inl _, b) \<Rightarrow> Some (st\<lparr>bs_bus := b\<rparr>)
      | Some (Inr m, b) \<Rightarrow>
          (case browse_message capacity m (st\<lparr>bs_bus := b\<rparr>) of None \<Rightarrow> None | Some st' \<Rightarrow> browse_loop capacity st'))"
  by pat_completeness auto
termination
proof (relation "measure (\<lambda>(capacity, st). bus_weight (bs_bus st))", goal_cases)
  case (2 capacity st p r b m st')
  then show ?case using bus_next_weight [of "bs_bus st" m b] browse_message_weight [of capacity m "st\<lparr>bs_bus := b\<rparr>" st'] by auto
qed simp

declare browse_loop.simps [simp del]

fun free_resolvers :: "string list \<Rightarrow> bus \<Rightarrow> bus option" where
  "free_resolvers [] b = Some b"
| "free_resolvers (p # ps) b = do { (_, b) \<leftarrow> send_no_reply SERVICE p RESOLVER_INTERFACE ''Free'' b; free_resolvers ps b }"

text \<open>\<open>browse\<close> over a bus that was connected, or not.\<close>

definition browse :: "nat \<Rightarrow> nat \<Rightarrow> bus option \<Rightarrow> source_set option" where
  "browse capacity uid link =
     (case link of
        None \<Rightarrow> Some []
      | Some b \<Rightarrow>
          do { (r, b) \<leftarrow> open_system uid b;
               case r of
                 Inl _ \<Rightarrow> Some []
               | Inr _ \<Rightarrow>
                   do { (browser, b) \<leftarrow> call_path ''ServiceBrowserNew'' [ArgI32 UNSPEC, ArgI32 UNSPEC, ArgStr SERVICE_TYPE, ArgStr [], ArgU32 0] b;
                        case browser of
                          None \<Rightarrow> Some []
                        | Some browser \<Rightarrow>
                            do { st \<leftarrow> browse_loop capacity \<lparr>bs_bus = b, bs_resolvers = [], bs_removed = [], bs_out = []\<rparr>;
                                 b \<leftarrow> free_resolvers (bs_resolvers st) (bs_bus st);
                                 _ \<leftarrow> send_no_reply SERVICE browser BROWSER_INTERFACE ''Free'' b;
                                 Some (bs_out st) } } })"

definition mdns_available :: "nat \<Rightarrow> bus option \<Rightarrow> bool option" where
  "mdns_available uid link =
     (case link of
        None \<Rightarrow> Some False
      | Some b \<Rightarrow>
          do { (r, b) \<leftarrow> open_system uid b;
               case r of
                 Inl _ \<Rightarrow> Some False
               | Inr _ \<Rightarrow>
                   do { (r, b) \<leftarrow> bus_call (Some ''org.freedesktop.DBus'') ''/org/freedesktop/DBus'' (Some ''org.freedesktop.DBus'') ''NameHasOwner'' [ArgStr SERVICE] b;
                        case r of
                          Inl _ \<Rightarrow> Some False
                        | Inr reply \<Rightarrow>
                            do { sg \<leftarrow> signature_of reply;
                                 if sg \<noteq> ''b'' then Some False
                                 else do { (v, rd) \<leftarrow> br_bool (body_of reply); Some (v \<and> \<not> br_failed rd) } } } })"

section \<open>Discovery over the configured transport\<close>

record 'a discovery_env =
  de_read :: "string \<Rightarrow> string option"
  de_storage :: "string option"
  de_lookup :: "string \<Rightarrow> nat \<Rightarrow> string + 'a list"
  de_attempt :: "'a \<Rightarrow> nat \<times> (string + unit)"
  de_writes :: "write_result list"
  de_rounds :: "(nat \<times> io_answer list) list"
  de_uid :: nat
  de_bus :: "(bus_answer list \<times> (string + unit) list) option"

definition bus_link :: "'a discovery_env \<Rightarrow> bus option" where
  "bus_link env = map_option (case_prod bus_new) (de_bus env)"

definition transport_available :: "'a discovery_env \<Rightarrow> bool option" where
  "transport_available env =
     (if configured_server (de_read env) (de_storage env) \<noteq> None then Some True else mdns_available (de_uid env) (bus_link env))"

definition discover_sources :: "'a discovery_env \<Rightarrow> nat \<Rightarrow> source_set option" where
  "discover_sources env deadline =
     map_option source_sort
       (case configured_server (de_read env) (de_storage env) of
          Some server \<Rightarrow> server_sources (de_lookup env) (de_attempt env) (de_writes env) server deadline (de_rounds env) []
        | None \<Rightarrow> browse MAX_SOURCES (de_uid env) (bus_link env))"

definition resolve_target :: "'a discovery_env \<Rightarrow> nat \<Rightarrow> string \<Rightarrow> endpoint option option" where
  "resolve_target env deadline target =
     (case parse_direct_target target of
        Inr t \<Rightarrow> Some (Some \<lparr>ep_host = dt_host t, ep_port = dt_port t\<rparr>)
      | Inl _ \<Rightarrow>
          if starts_with ''omt://'' target \<or> \<not> is_valid_source_name_bytes (as_bytes target) then Some None
          else map_option (\<lambda>out. map_option so_endpoint (find (\<lambda>s. so_name s = target) out)) (discover_sources env deadline))"

section \<open>What discovery returns\<close>

text \<open>Whatever arrives, the browse only holds valid sources, at most as many as the capacity, one per name, and
  none whose removal it remembers.\<close>

definition browse_ok :: "browse_state \<Rightarrow> bool" where
  "browse_ok st \<longleftrightarrow> sources_ok (bs_out st) \<and> (\<forall>s\<in>set (bs_out st). source_valid s \<and> so_name s \<notin> set (bs_removed st))
     \<and> length (bs_removed st) \<le> MAX_REMOVED \<and> length (bs_resolvers st) \<le> MAX_RESOLVERS"

lemma resolved_source_ok:
  assumes "resolved_source m = accept (name, ep)"
  shows "source_valid \<lparr>so_name = name, so_endpoint = ep\<rparr>"
proof -
  have "is_valid_source_name_bytes (as_bytes name)" and e: "\<exists>address port. endpoint_from_parts address port = Some ep"
    using assms by (auto simp: resolved_source_def bind_eq_Some_conv split: if_splits)
  then show ?thesis using e endpoint_from_parts_ok by (auto simp: source_valid_def is_valid_source_name_bytes_def split: option.splits)
qed

lemma source_remove_names: "sources_ok items \<Longrightarrow> n \<notin> so_name ` set (source_remove n items)"
  using source_remove_ok [of items n] dom_source_lookup [of "source_remove n items"] by (metis domIff fun_upd_same)

lemma browse_message_ok:
  assumes "browse_ok st" "browse_message capacity m st = Some st'"
  shows "browse_ok st'"
proof -
  consider "item_new m st = Some st'" | "item_remove m st = Some st'" | "found capacity m st = Some st'" | "st' = st"
    using assms(2) by (auto simp: browse_message_def bind_eq_Some_conv split: if_splits)
  then show ?thesis
  proof cases
    case 1
    then show ?thesis using assms(1) unfolding item_new_def browse_ok_def by (auto elim!: bind_SomeE split: if_split_asm option.split_asm)
  next
    case 2
    then obtain it where it: "read_browser_item m = Some it" by (auto simp: item_remove_def bind_eq_Some_conv)
    show ?thesis
    proof (cases it)
      case None
      then show ?thesis using 2 it assms(1) by (simp add: item_remove_def)
    next
      case (Some i)
      have out: "bs_out st' = source_remove (bi_name i) (bs_out st)" "bs_resolvers st' = bs_resolvers st"
        "set (bs_removed st') \<subseteq> insert (bi_name i) (set (bs_removed st))" "length (bs_removed st') \<le> max MAX_REMOVED (length (bs_removed st))"
        using 2 it Some by (auto simp: item_remove_def split: if_split_asm)
      have "sources_ok (bs_out st')" using assms(1) source_remove_ok [of "bs_out st" "bi_name i"] out(1) by (simp add: browse_ok_def)
      moreover have "source_valid s \<and> so_name s \<notin> set (bs_removed st')" if "s \<in> set (bs_out st')" for s
      proof -
        have "s \<in> set (bs_out st)" using that out(1) source_remove_set [of "bi_name i" "bs_out st"] by auto
        moreover have "so_name s \<noteq> bi_name i"
          using that out(1) assms(1) source_remove_names [of "bs_out st" "bi_name i"] unfolding browse_ok_def by (metis imageI)
        ultimately show ?thesis using out(3) assms(1) by (auto simp: browse_ok_def)
      qed
      ultimately show ?thesis using assms(1) out(2,4) by (auto simp: browse_ok_def)
    qed
  next
    case 3
    then obtain r where r: "resolved_source m = Some r" by (auto simp: found_def bind_eq_Some_conv)
    show ?thesis
    proof (cases "\<exists>name ep. r = Some (name, ep) \<and> name \<notin> set (bs_removed st) \<and> length (bs_out st) < capacity")
      case True
      then obtain name ep where n: "r = Some (name, ep)" "name \<notin> set (bs_removed st)"
        and st': "st' = st\<lparr>bs_out := fst (source_put name ep (bs_out st))\<rparr>" using 3 r by (auto simp: found_def)
      have v: "source_valid \<lparr>so_name = name, so_endpoint = ep\<rparr>" using resolved_source_ok r n(1) by simp
      have "source_valid s \<and> so_name s \<notin> set (bs_removed st)" if "s \<in> set (fst (source_put name ep (bs_out st)))" for s
        using source_put_set [OF that] assms(1) v n(2) by (auto simp: browse_ok_def source_valid_def)
      then show ?thesis using assms(1) source_put_ok [of "bs_out st" name ep] st' by (simp add: browse_ok_def)
    next
      case False
      then show ?thesis using 3 r assms(1) by (cases r) (auto simp: found_def split: if_splits)
    qed
  qed (use assms(1) in simp)
qed

lemma browse_loop_ok: "browse_ok st \<Longrightarrow> browse_loop capacity st = Some st' \<Longrightarrow> browse_ok st'"
proof (induction capacity st rule: browse_loop.induct)
  case (1 capacity st)
  obtain r b where b: "bus_next (bs_bus st) = Some (r, b)" using "1.prems"(2) by (subst (asm) browse_loop.simps) (auto split: option.splits)
  have st: "browse_ok (st\<lparr>bs_bus := b\<rparr>)" using "1.prems"(1) by (simp add: browse_ok_def)
  show ?case
  proof (cases r)
    case (Inl e)
    then show ?thesis using "1.prems"(2) b st by (subst (asm) browse_loop.simps) simp
  next
    case (Inr m)
    then obtain st1 where st1: "browse_message capacity m (st\<lparr>bs_bus := b\<rparr>) = Some st1" "browse_loop capacity st1 = Some st'"
      using "1.prems"(2) b by (subst (asm) browse_loop.simps) (auto split: option.splits)
    show ?thesis using "1.IH" [OF b refl Inr st1(1) browse_message_ok [OF st st1(1)] st1(2)] .
  qed
qed

lemma browse_result:
  assumes "browse capacity uid link = Some out"
  shows "sources_ok out \<and> (\<forall>s\<in>set out. source_valid s)"
proof (cases "out = []")
  case False
  then obtain b st where st: "browse_loop capacity \<lparr>bs_bus = b, bs_resolvers = [], bs_removed = [], bs_out = []\<rparr> = Some st" "out = bs_out st"
    using assms unfolding browse_def by (auto elim!: bind_SomeE split: option.split_asm sum.split_asm intro: that)
  have "browse_ok \<lparr>bs_bus = b, bs_resolvers = [], bs_removed = [], bs_out = []\<rparr>" by (simp add: browse_ok_def sources_ok_def)
  then show ?thesis using browse_loop_ok [OF _ st(1)] st(2) by (simp add: browse_ok_def)
qed (simp add: sources_ok_def)

lemma source_sort_ok:
  assumes "sources_ok items"
  shows "sorted_wrt (<) (map so_name (source_sort items))" "sources_ok (source_sort items)" "set (source_sort items) = set items"
    "source_lookup (source_sort items) = source_lookup items"
proof -
  have m: "mset (source_sort items) = mset items" by (simp add: source_sort_def)
  then have mn: "mset (map so_name (source_sort items)) = mset (map so_name items)" by simp
  have d: "distinct (map so_name (source_sort items))" using assms mset_eq_imp_distinct_iff [OF mn] by (simp add: sources_ok_def)
  have "sorted (map so_name (source_sort items))" by (simp add: source_sort_def)
  then show "sorted_wrt (<) (map so_name (source_sort items))" using d by (simp add: strict_sorted_iff)
  show "sources_ok (source_sort items)" using d assms by (simp add: sources_ok_def source_sort_def)
  show "set (source_sort items) = set items" by (simp add: source_sort_def)
  show "source_lookup (source_sort items) = source_lookup items" using source_lookup_mset [OF d m] .
qed

lemma server_sources_result:
  assumes "server_sources lookup attempt ws server deadline rounds [] = Some out"
  shows "sources_ok out \<and> (\<forall>s\<in>set out. source_valid s)
    \<and> (\<exists>c k. source_lookup out = foldl announce Map.empty (heard (take k (received deadline rounds c))))"
proof -
  have "out = [] \<or> (\<exists>c. server_loop deadline rounds c [] = Some out)"
    using assms unfolding server_sources_def by (auto elim!: bind_SomeE split: sum.split_asm)
  then obtain c k where "out = foldl absorb_frame [] (take k (received deadline rounds c))"
    using server_loop_frames by (metis foldl_Nil take0)
  then have out: "out = foldl apply_announcement [] (heard (take k (received deadline rounds c)))" by (simp add: absorb_frames)
  have "sources_ok []" "source_lookup [] = Map.empty" by (simp_all add: sources_ok_def source_lookup_map_of)
  then show ?thesis using announcements_refine [OF _ _ heard_ok, of "[]" "take k (received deadline rounds c)"] unfolding out by auto
qed

text \<open>Whatever the bus sends, the browse returns: no message makes it panic, and its calls end by the deadline.\<close>

lemma reads_safely_bind:
  assumes "reads_safely f" "reader_inside r" "\<And>v r'. reader_inside r' \<Longrightarrow> \<exists>y. g (v, r') = Some y"
  shows "\<exists>y. Option.bind (f r) g = Some y"
  using assms unfolding reads_safely_def by (metis bind.bind_lunit)

lemmas read_safe_intros = reads_safely_bind [OF br_reads_safe(1)] reads_safely_bind [OF br_reads_safe(2)] reads_safely_bind [OF br_reads_safe(3)]
  reads_safely_bind [OF br_reads_safe(4)] reads_safely_bind [OF br_string_safe]

lemma body_of_inside: "message_ok m \<Longrightarrow> reader_inside (body_of m)"
  by (auto simp: message_ok_def reader_inside_def body_of_def)

lemma is_signal_total: "message_ok m \<Longrightarrow> is_signal m i n \<noteq> None"
  using message_texts [of m] by (auto simp: is_signal_def)

lemma read_browser_item_total: "message_ok m \<Longrightarrow> \<exists>y. read_browser_item m = Some y"
  using message_texts(4) [of m] by (auto simp: read_browser_item_def intro!: read_safe_intros body_of_inside)

lemma reply_path_total: "message_ok m \<Longrightarrow> \<exists>y. reply_path m = Some y"
  using message_texts(4) [of m] by (auto simp: reply_path_def intro!: read_safe_intros body_of_inside)

lemma skip_aay_bind: "reader_inside r \<Longrightarrow> (\<And>r'. reader_inside r' \<Longrightarrow> \<exists>y. g r' = Some y) \<Longrightarrow> \<exists>y. Option.bind (skip_aay r) g = Some y"
  using skip_aay_safe [of r] by auto

lemma resolved_source_total: "message_ok m \<Longrightarrow> \<exists>y. resolved_source m = Some y"
  using message_texts(4) [of m] by (auto simp: resolved_source_def intro!: read_safe_intros skip_aay_bind body_of_inside)

lemma call_path_serves: "bus_ok b \<Longrightarrow> serves (\<lambda>_. True) (call_path member args b)"
  unfolding call_path_def
proof (rule serves_bind [OF bus_call_serves], assumption)
  fix r b1 assume r: "sound_reply r" "bus_ok b1"
  show "serves (\<lambda>_. True) (case (r, b1) of (Inl _, b) \<Rightarrow> Some (None, b) | (Inr reply, b) \<Rightarrow> reply_path reply \<bind> (\<lambda>p. Some (p, b)))"
    using r reply_path_total by (cases r) (fastforce simp: serves_def)+
qed

lemma browse_message_total:
  assumes "message_ok m" "bus_ok (bs_bus st)"
  shows "\<exists>st'. browse_message capacity m st = Some st' \<and> bus_ok (bs_bus st')"
proof -
  obtain it src where it: "read_browser_item m = Some it" "resolved_source m = Some src"
    using read_browser_item_total resolved_source_total assms(1) by blast
  have "\<exists>st'. item_new m st = Some st' \<and> bus_ok (bs_bus st')"
  proof (cases "MAX_RESOLVERS \<le> length (bs_resolvers st) \<or> it = None \<or> bi_kind (the it) \<noteq> SERVICE_TYPE")
    case True
    then show ?thesis using it(1) assms(2) by (cases it) (auto simp: item_new_def)
  next
    case False
    then obtain i where i: "it = Some i" by auto
    obtain p b where "call_path ''ServiceResolverNew''
       [ArgI32 (bi_interface i), ArgI32 (bi_protocol i), ArgStr (bi_name i), ArgStr (bi_kind i), ArgStr (bi_domain i), ArgI32 UNSPEC, ArgU32 0] (bs_bus st) = Some (p, b)"
      "bus_ok b" using call_path_serves [OF assms(2)] unfolding serves_def by metis
    then show ?thesis using False i it(1) by (simp add: item_new_def)
  qed
  moreover have "\<exists>st'. item_remove m st = Some st' \<and> bus_ok (bs_bus st')" using it(1) assms(2) by (cases it) (auto simp: item_remove_def)
  moreover have "\<exists>st'. found capacity m st = Some st' \<and> bus_ok (bs_bus st')" using it(2) assms(2) by (cases src) (auto simp: found_def)
  moreover obtain x y z where "is_signal m BROWSER_INTERFACE ''ItemNew'' = Some x" "is_signal m BROWSER_INTERFACE ''ItemRemove'' = Some y"
    "is_signal m RESOLVER_INTERFACE ''Found'' = Some z" using is_signal_total [OF assms(1)] by blast
  ultimately show ?thesis using assms(2) by (cases x; cases y; cases z) (auto simp: browse_message_def)
qed

lemma browse_loop_total: "bus_ok (bs_bus st) \<Longrightarrow> \<exists>st'. browse_loop capacity st = Some st' \<and> bus_ok (bs_bus st')"
proof (induction capacity st rule: browse_loop.induct)
  case (1 capacity st)
  obtain r b where b: "bus_next (bs_bus st) = Some (r, b)" "sound_reply r" "bus_ok b"
    using bus_next_serves [OF "1.prems"] unfolding serves_def by metis
  show ?case
  proof (cases r)
    case (Inl e)
    then show ?thesis using b by (subst browse_loop.simps) simp
  next
    case (Inr m)
    obtain st1 where st1: "browse_message capacity m (st\<lparr>bs_bus := b\<rparr>) = Some st1" "bus_ok (bs_bus st1)"
      using browse_message_total [of m "st\<lparr>bs_bus := b\<rparr>"] b Inr by auto
    then show ?thesis using "1.IH" [OF b(1) refl Inr st1(1) st1(2)] b(1) Inr by (subst browse_loop.simps) simp
  qed
qed

lemma free_resolvers_total: "bus_ok b \<Longrightarrow> \<exists>b'. free_resolvers ps b = Some b' \<and> bus_ok b'"
proof (induction ps arbitrary: b)
  case (Cons p ps)
  obtain r b1 where "send_no_reply SERVICE p RESOLVER_INTERFACE ''Free'' b = Some (r, b1)" "bus_ok b1"
    using send_no_reply_serves [OF Cons.prems] unfolding serves_def by metis
  then show ?case using Cons.IH by simp
qed simp

lemma browse_total:
  assumes "pred_option bus_ok link"
  shows "browse capacity uid link \<noteq> None"
proof (cases link)
  case (Some b)
  then have "bus_ok b" using assms by simp
  then obtain r b1 where o: "open_system uid b = Some (r, b1)" "bus_ok b1" using open_system_serves [of b uid] unfolding serves_def by metis
  obtain p b2 where c: "call_path ''ServiceBrowserNew'' [ArgI32 UNSPEC, ArgI32 UNSPEC, ArgStr SERVICE_TYPE, ArgStr [], ArgU32 0] b1 = Some (p, b2)" "bus_ok b2"
    using call_path_serves [OF o(2)] unfolding serves_def by metis
  obtain st where st: "browse_loop capacity \<lparr>bs_bus = b2, bs_resolvers = [], bs_removed = [], bs_out = []\<rparr> = Some st" "bus_ok (bs_bus st)"
    using browse_loop_total [of "\<lparr>bs_bus = b2, bs_resolvers = [], bs_removed = [], bs_out = []\<rparr>" capacity] c(2) by auto
  obtain b3 where f: "free_resolvers (bs_resolvers st) (bs_bus st) = Some b3" "bus_ok b3" using free_resolvers_total [OF st(2)] by blast
  show ?thesis
  proof (cases "\<exists>u q. r = Inr u \<and> p = Some q")
    case True
    then obtain u q where q: "r = Inr u" "p = Some q" by blast
    obtain s b4 where "send_no_reply SERVICE q BROWSER_INTERFACE ''Free'' b3 = Some (s, b4)"
      using send_no_reply_serves [OF f(2)] unfolding serves_def by metis
    then show ?thesis using q Some o(1) c(1) st(1) f(1) by (simp add: browse_def)
  next
    case False
    then show ?thesis using Some o(1) c(1) by (cases r; cases p) (auto simp: browse_def)
  qed
qed (simp add: browse_def)

lemma bus_link_ok: "pred_option bus_ok (bus_link env)"
  by (cases "de_bus env") (auto simp: bus_link_def bus_ok_def bus_new_def)

lemma resolve_target_ok:
  assumes "\<And>out. discover_sources env deadline = Some out \<Longrightarrow> \<forall>s\<in>set out. source_valid s" "resolve_target env deadline target = Some (Some ep)"
  shows "endpoint_ok ep"
proof (cases "parse_direct_target target")
  case (Inl e)
  then obtain out src where "discover_sources env deadline = Some out" "find (\<lambda>s. so_name s = target) out = Some src" "ep = so_endpoint src"
    using assms(2) by (auto simp: resolve_target_def split: if_split_asm)
  then show ?thesis using assms(1) by (auto simp: find_Some_iff source_valid_def)
next
  case (Inr t)
  then show ?thesis using assms(2) target_endpoint_ok by (auto simp: resolve_target_def)
qed

text \<open>C37. Discovery, over either transport and whatever the network sends. Browsing over the bus always
  returns, for no message makes it panic. The sources returned are sorted by name without duplicates and are
  at most 256; each has a valid source name and an endpoint the target grammar accepts, so it can be shown and
  dialled. With a discovery server configured, the endpoint listed for a name is what the announcements heard
  up to some moment make of it when the last word on a name wins. A target that resolves does so to an endpoint
  that can be dialled.\<close>

theorem discovery_sound:
  "(configured_server (de_read env) (de_storage env) = None \<longrightarrow> discover_sources env deadline \<noteq> None)
   \<and> (\<forall>out. discover_sources env deadline = Some out \<longrightarrow>
        sorted_wrt (<) (map so_name out) \<and> length out \<le> MAX_SOURCES \<and> (\<forall>s\<in>set out. source_valid s)
        \<and> (configured_server (de_read env) (de_storage env) \<noteq> None \<longrightarrow>
            (\<exists>c k. source_lookup out = foldl announce Map.empty (heard (take k (received deadline (de_rounds env) c))))))
   \<and> (\<forall>target ep. resolve_target env deadline target = Some (Some ep) \<longrightarrow> endpoint_ok ep)"
proof -
  have sound: "sorted_wrt (<) (map so_name out) \<and> length out \<le> MAX_SOURCES \<and> (\<forall>s\<in>set out. source_valid s)
        \<and> (configured_server (de_read env) (de_storage env) \<noteq> None \<longrightarrow>
            (\<exists>c k. source_lookup out = foldl announce Map.empty (heard (take k (received deadline (de_rounds env) c)))))"
    if out: "discover_sources env deadline = Some out" for out
  proof -
    obtain raw where raw: "out = source_sort raw" "sources_ok raw" "\<forall>s\<in>set raw. source_valid s"
      "configured_server (de_read env) (de_storage env) \<noteq> None \<longrightarrow>
          (\<exists>c k. source_lookup raw = foldl announce Map.empty (heard (take k (received deadline (de_rounds env) c))))"
      using out browse_result server_sources_result [of "de_lookup env" "de_attempt env" "de_writes env" _ deadline "de_rounds env"]
      by (auto simp: discover_sources_def split: option.split_asm)
    note s = source_sort_ok [OF raw(2)]
    show ?thesis using raw s by (simp add: sources_ok_def)
  qed
  moreover have "endpoint_ok ep" if "resolve_target env deadline target = Some (Some ep)" for target ep
    using resolve_target_ok [OF _ that] sound by blast
  moreover have "discover_sources env deadline \<noteq> None" if "configured_server (de_read env) (de_storage env) = None"
    using browse_total [OF bus_link_ok, of MAX_SOURCES "de_uid env" env] that by (simp add: discover_sources_def)
  ultimately show ?thesis by blast
qed

definition demo_discovery :: "unit discovery_env" where
  "demo_discovery = \<lparr>de_read = (\<lambda>_. None), de_storage = None, de_lookup = (\<lambda>_ _. Inr []), de_attempt = (\<lambda>_. (0, Inl [])), de_writes = [],
     de_rounds = [], de_uid = 0, de_bus = None\<rparr>"

lemma demo_target: "parse_direct_target ''omt://h:7'' = Inr \<lparr>dt_host = ''h'', dt_port = 7\<rparr>"
proof -
  have "host_ok False ''h''"
    by (simp add: host_ok_def parse_ipv4_def read_ipv4_addr_def numeral_eq_Suc read_separator_def read_number_def dec_digit_def is_ascii_digit_def
        valid_dns_def valid_label_def is_ascii_alphanumeric_def)
  moreover have "show_nat 7 = ''7''" by code_simp
  ultimately show ?thesis using parse_direct_target_complete [of False "\<lparr>dt_host = ''h'', dt_port = 7\<rparr>"] by (simp add: format_target_def)
qed

theorem discovery_sound_witness:
  "discover_sources demo_discovery 5 = Some []
   \<and> resolve_target demo_discovery 5 ''omt://h:7'' = Some (Some \<lparr>ep_host = ''h'', ep_port = 7\<rparr>)
   \<and> endpoint_ok \<lparr>ep_host = ''h'', ep_port = 7\<rparr>"
proof -
  have d: "discover_sources demo_discovery 5 = Some []"
    by (simp add: discover_sources_def demo_discovery_def configured_server_def browse_def source_sort_def bus_link_def)
  have "resolve_target demo_discovery 5 ''omt://h:7'' = Some (Some \<lparr>ep_host = ''h'', ep_port = 7\<rparr>)" by (simp add: resolve_target_def demo_target)
  then show ?thesis using d discovery_sound [of demo_discovery 5] by blast
qed

end
