(* ===== verification/Fsio.thy ===== *)
theory Fsio
  imports Rust_Text
begin

text \<open>
  \<^verbatim>\<open>crates/omt-common/src/fsio.rs\<close>: bounded reads that refuse links and swapped files, atomic replacement,
  durable removal and in-place request writes. Every system call is answered by the environment; the disk
  keeps what the calls make of the target and of the staged file, and every operation returns the states the
  disk goes through. The lemmas show that the target is never seen, not even after a crash, with anything but
  its old document or the whole new one.
\<close>

section \<open>System calls\<close>

datatype 'a sys = Answer 'a | Missing string | Refused string

datatype file_kind = RegularFile | Directory | Symlink | OtherFile

record metadata =
  md_kind :: file_kind
  md_len :: nat
  md_dev :: nat
  md_ino :: nat

definition sys_result :: "'a sys \<Rightarrow> string + 'a" where
  "sys_result r = (case r of Answer x \<Rightarrow> Inr x | Missing e \<Rightarrow> Inl e | Refused e \<Rightarrow> Inl e)"

abbreviation same_file :: "metadata \<Rightarrow> metadata \<Rightarrow> bool" where
  "same_file a b \<equiv> md_dev a = md_dev b \<and> md_ino a = md_ino b"

section \<open>Bounded reads\<close>

datatype read_answer = ReadBytes string | ReadInterrupted | ReadFailed string

record read_env =
  re_stat :: "metadata sys"
  re_open :: "unit sys"
  re_fstat :: "metadata sys"
  re_reads :: "read_answer list"

text \<open>The loop over \<open>take(maximum + 1)\<close>: a read asks for at most 8192 bytes and no more than are left to take,
  and the end of the answers is the end of the file.\<close>

fun read_loop :: "nat \<Rightarrow> read_answer list \<Rightarrow> string \<Rightarrow> string + string" where
  "read_loop maximum [] out = Inr out"
| "read_loop maximum (a # as) out =
     (let left = saturating_add USIZE_MAX maximum 1 - length out
      in if left = 0 then Inr out
         else
           case a of
             ReadInterrupted \<Rightarrow> read_loop maximum as out
           | ReadFailed e \<Rightarrow> Inl e
           | ReadBytes bs \<Rightarrow>
               (let n = take (min 8192 left) bs
                in if n = [] then Inr out
                   else if maximum < length (out @ n) then Inl ''file exceeds its size limit''
                   else read_loop maximum as (out @ n)))"

definition read_bounded :: "read_env \<Rightarrow> nat \<Rightarrow> string + string option" where
  "read_bounded env maximum =
     (case re_stat env of
        Missing _ \<Rightarrow> Inr None
      | Refused e \<Rightarrow> Inl e
      | Answer before \<Rightarrow>
          if md_kind before \<noteq> RegularFile then Inl ''path is not a safe regular file''
          else if maximum < md_len before then Inl ''file exceeds its size limit''
          else
            and_then (sys_result (re_open env)) (\<lambda>_.
            and_then (sys_result (re_fstat env)) (\<lambda>opened.
              if \<not> same_file opened before \<or> md_kind opened \<noteq> RegularFile then Inl ''file changed while opening''
              else map_sum id Some (read_loop maximum (re_reads env) []))))"

definition read_text :: "read_env \<Rightarrow> nat \<Rightarrow> string + string option" where
  "read_text env maximum =
     and_then (read_bounded env maximum) (\<lambda>r.
       case r of
         None \<Rightarrow> Inr None
       | Some bytes \<Rightarrow> if utf8_valid bytes then Inr (Some bytes) else Inl ''file is not valid UTF-8'')"

section \<open>The disk\<close>

text \<open>A file holds bytes that are on the medium once they are synced.\<close>

record stored =
  fl_data :: string
  fl_synced :: bool

record disk =
  dk_target :: "stored option"
  dk_staged :: "stored option"

text \<open>\<open>write_all\<close> fails after some of the bytes, or not; the states of the file while it runs.\<close>

definition written :: "(nat \<times> string) option \<Rightarrow> string \<Rightarrow> string" where
  "written failure data = (case failure of None \<Rightarrow> data | Some (n, _) \<Rightarrow> take n data)"

definition write_states :: "(nat \<times> string) option \<Rightarrow> string \<Rightarrow> stored list" where
  "write_states failure data = map (\<lambda>n. \<lparr>fl_data = take n data, fl_synced = False\<rparr>) [0..<Suc (length (written failure data))]"

section \<open>Atomic replacement\<close>

record replace_env =
  rp_split :: bool
  rp_dir :: "metadata sys"
  rp_stat :: "metadata sys"
  rp_nonce :: "string option"
  rp_create :: "string option"
  rp_write :: "(nat \<times> string) option"
  rp_sync :: "string option"
  rp_rename :: "string option"
  rp_dirsync :: "string option"
  rp_remove :: bool

text \<open>The closure: write, sync, rename, sync the directory. The states come one after another.\<close>

definition stage_and_rename :: "replace_env \<Rightarrow> string \<Rightarrow> disk \<Rightarrow> (string + unit) \<times> disk list" where
  "stage_and_rename env data d =
     (let ds = map (\<lambda>f. d\<lparr>dk_staged := Some f\<rparr>) (write_states (rp_write env) data)
      in case rp_write env of
           Some (_, e) \<Rightarrow> (Inl e, ds)
         | None \<Rightarrow>
             (case rp_sync env of
                Some e \<Rightarrow> (Inl e, ds)
              | None \<Rightarrow>
                  (let synced = d\<lparr>dk_staged := Some \<lparr>fl_data = data, fl_synced = True\<rparr>\<rparr>
                   in case rp_rename env of
                        Some e \<Rightarrow> (Inl e, ds @ [synced])
                      | None \<Rightarrow>
                          (let renamed = d\<lparr>dk_target := dk_staged synced, dk_staged := None\<rparr>
                           in (case rp_dirsync env of Some e \<Rightarrow> Inl e | None \<Rightarrow> Inr (), ds @ [synced, renamed])))))"

definition atomic_replace :: "replace_env \<Rightarrow> string \<Rightarrow> string \<Rightarrow> nat \<Rightarrow> disk \<Rightarrow> (string + unit) \<times> disk list" where
  "atomic_replace env path data maximum d =
     (if maximum < length data then (Inl ''replacement exceeds its size limit'', [d])
      else if path \<noteq> [] \<and> last path = CHR ''/'' then (Inl ''invalid target path'', [d])
      else if \<not> rp_split env then (Inl ''invalid target path'', [d])
      else
        case sys_result (rp_dir env) of
          Inl e \<Rightarrow> (Inl e, [d])
        | Inr m \<Rightarrow>
            if md_kind m \<noteq> Directory then (Inl ''target directory is unsafe'', [d])
            else if (case rp_stat env of Answer t \<Rightarrow> md_kind t \<noteq> RegularFile | _ \<Rightarrow> False) then (Inl ''target path is unsafe'', [d])
            else
              (case rp_nonce env of
                 Some e \<Rightarrow> (Inl e, [d])
               | None \<Rightarrow>
                   (case rp_create env of
                      Some e \<Rightarrow> (Inl e, [d])
                    | None \<Rightarrow>
                        (let (result, ds) = stage_and_rename env data d
                         in if is_ok result then (result, d # ds)
                            else (result, d # ds @ [if rp_remove env then (last ds)\<lparr>dk_staged := None\<rparr> else last ds])))))"

section \<open>Removal and in-place writes\<close>

record remove_env =
  rm_stat :: "metadata sys"
  rm_remove :: "string option"
  rm_split :: bool
  rm_dirsync :: "string option"

definition remove_file_durable :: "remove_env \<Rightarrow> disk \<Rightarrow> (string + unit) \<times> disk" where
  "remove_file_durable env d =
     (case rm_stat env of
        Missing _ \<Rightarrow> (Inr (), d)
      | Refused e \<Rightarrow> (Inl e, d)
      | Answer m \<Rightarrow>
          if md_kind m \<noteq> RegularFile then (Inl ''target path is unsafe'', d)
          else
            (case rm_remove env of
               Some e \<Rightarrow> (Inl e, d)
             | None \<Rightarrow>
                 (let d = d\<lparr>dk_target := None\<rparr>
                  in if \<not> rm_split env then (Inl ''target has no parent'', d)
                     else (case rm_dirsync env of Some e \<Rightarrow> (Inl e, d) | None \<Rightarrow> (Inr (), d)))))"

record fixed_env =
  fx_stat :: "metadata sys"
  fx_open :: "unit sys"
  fx_fstat :: "metadata sys"
  fx_truncate :: "string option"
  fx_seek :: "string option"
  fx_write :: "(nat \<times> string) option"
  fx_sync :: "string option"
  fx_after :: "metadata sys"

text \<open>Between the check and the second look at the path: truncate, seek, write, sync.\<close>

definition fixed_write :: "fixed_env \<Rightarrow> string \<Rightarrow> disk \<Rightarrow> (string + unit) \<times> disk" where
  "fixed_write env data d =
     (case fx_truncate env of
        Some e \<Rightarrow> (Inl e, d)
      | None \<Rightarrow>
          (case fx_seek env of
             Some e \<Rightarrow> (Inl e, d\<lparr>dk_target := Some \<lparr>fl_data = [], fl_synced = False\<rparr>\<rparr>)
           | None \<Rightarrow>
               (case fx_write env of
                  Some (n, e) \<Rightarrow> (Inl e, d\<lparr>dk_target := Some \<lparr>fl_data = take n data, fl_synced = False\<rparr>\<rparr>)
                | None \<Rightarrow>
                    (case fx_sync env of
                       Some e \<Rightarrow> (Inl e, d\<lparr>dk_target := Some \<lparr>fl_data = data, fl_synced = False\<rparr>\<rparr>)
                     | None \<Rightarrow> (Inr (), d\<lparr>dk_target := Some \<lparr>fl_data = data, fl_synced = True\<rparr>\<rparr>)))))"

definition write_fixed_inode :: "fixed_env \<Rightarrow> string \<Rightarrow> nat \<Rightarrow> disk \<Rightarrow> (string + unit) \<times> disk" where
  "write_fixed_inode env data maximum d =
     (if maximum < length data then (Inl ''request exceeds its size limit'', d)
      else
        case sys_result (fx_stat env) of
          Inl e \<Rightarrow> (Inl e, d)
        | Inr before \<Rightarrow>
            if md_kind before \<noteq> RegularFile then (Inl ''request file is unsafe'', d)
            else
              (case and_then (sys_result (fx_open env)) (\<lambda>_. sys_result (fx_fstat env)) of
                 Inl e \<Rightarrow> (Inl e, d)
               | Inr opened \<Rightarrow>
                   if \<not> same_file opened before \<or> md_kind opened \<noteq> RegularFile then (Inl ''request file changed while opening'', d)
                   else
                     (case fixed_write env data d of
                        (Inl e, d) \<Rightarrow> (Inl e, d)
                      | (Inr _, d) \<Rightarrow>
                          (case sys_result (fx_after env) of
                             Inl e \<Rightarrow> (Inl e, d)
                           | Inr after \<Rightarrow>
                               (if md_kind after = Symlink \<or> \<not> same_file after before then Inl ''request file changed during write'' else Inr (), d)))))"

definition mkdir_all :: "bool sys \<Rightarrow> metadata sys \<Rightarrow> string + unit" where
  "mkdir_all create stat =
     (case create of
        Missing e \<Rightarrow> Inl e
      | Refused e \<Rightarrow> Inl e
      | Answer _ \<Rightarrow>
          (case stat of
             Answer m \<Rightarrow> if md_kind m = Directory then Inr () else Inl ''File exists (os error 17)''
           | _ \<Rightarrow> Inl ''File exists (os error 17)''))"

section \<open>Reading what is there\<close>

text \<open>The answers of a system on which a file holds the given bytes and nobody interferes: the reads give the
  bytes in pieces, with interruptions.\<close>

fun delivers :: "read_answer list \<Rightarrow> string \<Rightarrow> bool" where
  "delivers [] s \<longleftrightarrow> s = []"
| "delivers (ReadInterrupted # as) s \<longleftrightarrow> delivers as s"
| "delivers (ReadFailed e # as) s \<longleftrightarrow> False"
| "delivers (ReadBytes bs # as) s \<longleftrightarrow> bs \<noteq> [] \<and> length bs \<le> 8192 \<and> (\<exists>rest. s = bs @ rest \<and> delivers as rest)"

definition honest :: "read_env \<Rightarrow> string option \<Rightarrow> bool" where
  "honest env content \<longleftrightarrow>
     (case content of
        None \<Rightarrow> (\<exists>e. re_stat env = Missing e)
      | Some s \<Rightarrow>
          (\<exists>m. re_stat env = Answer m \<and> re_fstat env = Answer m \<and> md_kind m = RegularFile \<and> md_len m = length s)
          \<and> re_open env = Answer () \<and> delivers (re_reads env) s)"

lemma read_loop_delivers:
  assumes "delivers as s" "length (out @ s) \<le> maximum" "maximum < USIZE_MAX"
  shows "read_loop maximum as out = Inr (out @ s)"
  using assms
proof (induction as arbitrary: s out)
  case (Cons a as)
  have left: "saturating_add USIZE_MAX maximum 1 - length out = Suc (maximum - length out)"
    using Cons.prems(2,3) by (simp add: saturating_add_def)
  show ?case
  proof (cases a)
    case (ReadBytes bs)
    then obtain rest where rest: "s = bs @ rest" "delivers as rest" "bs \<noteq> []" "length bs \<le> 8192" using Cons.prems(1) by auto
    have "take (min 8192 (Suc (maximum - length out))) bs = bs" using rest(1,4) Cons.prems(2) by simp
    then show ?thesis using ReadBytes rest left Cons.IH [OF rest(2), of "out @ bs"] Cons.prems(2,3) by (simp add: Let_def)
  qed (use left Cons in \<open>auto simp: Let_def\<close>)
qed simp

lemma read_bounded_exact:
  assumes "honest env content" "maximum < USIZE_MAX"
  shows "read_bounded env maximum =
    (case content of None \<Rightarrow> Inr None | Some s \<Rightarrow> if length s \<le> maximum then Inr (Some s) else Inl ''file exceeds its size limit'')"
  using assms read_loop_delivers [of "re_reads env" _ "[]" maximum]
  by (cases content) (auto simp: honest_def read_bounded_def sys_result_def)

lemma read_loop_bounded: "length out \<le> maximum \<Longrightarrow> read_loop maximum as out = Inr r \<Longrightarrow> length r \<le> maximum"
  by (induction maximum as out rule: read_loop.induct) (auto simp: Let_def split: read_answer.splits if_splits)

lemma read_bounded_size:
  assumes "read_bounded env maximum = Inr (Some s)"
  shows "length s \<le> maximum"
proof -
  have "map_sum id Some (read_loop maximum (re_reads env) []) = Inr (Some s)"
    using assms by (auto simp: read_bounded_def and_then_def split: sys.split_asm if_split_asm sum.split_asm)
  then show ?thesis using read_loop_bounded [of "[]" maximum "re_reads env"] by (cases "read_loop maximum (re_reads env) []") simp_all
qed

section \<open>Replacement is atomic\<close>

lemma stage_and_rename_states:
  assumes "stage_and_rename env data d = (result, ds)"
  shows "ds \<noteq> [] \<and> (\<forall>x\<in>set ds. dk_target x = dk_target d \<or> dk_target x = Some \<lparr>fl_data = data, fl_synced = True\<rparr>)
    \<and> (is_ok result \<longrightarrow> dk_target (last ds) = Some \<lparr>fl_data = data, fl_synced = True\<rparr> \<and> dk_staged (last ds) = None)"
  using assms by (auto simp: stage_and_rename_def Let_def write_states_def split: option.splits prod.splits)

lemma atomic_replace_cases:
  assumes "atomic_replace env path data maximum d = (result, ds)" "stage_and_rename env data d = (r, xs)"
  shows "\<not> is_ok result \<and> ds = [d] \<or> is_ok result \<and> length data \<le> maximum \<and> result = r \<and> ds = d # xs
    \<or> \<not> is_ok result \<and> (\<exists>x. ds = d # xs @ [x] \<and> dk_target x = dk_target (last xs))"
  using assms by (auto simp: atomic_replace_def split: if_splits sum.splits option.splits)

text \<open>C38. Replacing a document is atomic. Whichever system calls fail and whenever, and at whatever state of the
  disk the machine stops, the file at the path is either what it was before or the whole new document with its
  bytes already on the medium; a replacement that reports success has put the new document there and left no
  staged file. What a bounded read returns is never larger than its limit, and on a file that is not being
  interfered with it returns exactly its bytes, or refuses it for its size.\<close>

theorem replace_atomic:
  assumes "atomic_replace env path data maximum d = (result, ds)"
  shows "(\<forall>x\<in>set ds. dk_target x = dk_target d \<or> dk_target x = Some \<lparr>fl_data = data, fl_synced = True\<rparr>)
    \<and> (result = Inr () \<longrightarrow> length data \<le> maximum \<and> dk_target (last ds) = Some \<lparr>fl_data = data, fl_synced = True\<rparr> \<and> dk_staged (last ds) = None)
    \<and> (\<forall>renv limit s. read_bounded renv limit = Inr (Some s) \<longrightarrow> length s \<le> limit)
    \<and> (\<forall>renv limit s. honest renv (Some s) \<and> limit < USIZE_MAX \<longrightarrow>
         read_bounded renv limit = (if length s \<le> limit then Inr (Some s) else Inl ''file exceeds its size limit''))"
proof -
  obtain r xs where s: "stage_and_rename env data d = (r, xs)" by (cases "stage_and_rename env data d")
  let ?new = "Some \<lparr>fl_data = data, fl_synced = True\<rparr>"
  have all: "\<forall>x\<in>set xs. dk_target x \<in> {dk_target d, ?new}" "xs \<noteq> []" using stage_and_rename_states [OF s] by auto
  have "dk_target (last xs) \<in> {dk_target d, ?new}" using all by simp
  then have "\<forall>x\<in>set ds. dk_target x \<in> {dk_target d, ?new}" using all(1) atomic_replace_cases [OF assms s] by force
  then show ?thesis
    using stage_and_rename_states [OF s] atomic_replace_cases [OF assms s] read_bounded_size read_bounded_exact [of _ "Some _"] by auto
qed

definition demo_folder :: metadata where
  "demo_folder = \<lparr>md_kind = Directory, md_len = 0, md_dev = 1, md_ino = 2\<rparr>"

definition demo_replace :: replace_env where
  "demo_replace = \<lparr>rp_split = True, rp_dir = Answer demo_folder, rp_stat = Missing ''No such file or directory (os error 2)'', rp_nonce = None,
     rp_create = None, rp_write = None, rp_sync = None, rp_rename = None, rp_dirsync = None, rp_remove = True\<rparr>"

definition demo_disk :: disk where
  "demo_disk = \<lparr>dk_target = Some \<lparr>fl_data = ''old'', fl_synced = True\<rparr>, dk_staged = None\<rparr>"

theorem replace_atomic_witness:
  "fst (atomic_replace demo_replace ''a/f'' ''new'' 8 demo_disk) = Inr ()
   \<and> dk_target (last (snd (atomic_replace demo_replace ''a/f'' ''new'' 8 demo_disk))) = Some \<lparr>fl_data = ''new'', fl_synced = True\<rparr>
   \<and> fst (atomic_replace (demo_replace\<lparr>rp_write := Some (1, ''disk full'')\<rparr>) ''a/f'' ''new'' 8 demo_disk) = Inl ''disk full''
   \<and> dk_target ` set (snd (atomic_replace (demo_replace\<lparr>rp_write := Some (1, ''disk full'')\<rparr>) ''a/f'' ''new'' 8 demo_disk))
        \<subseteq> {dk_target demo_disk, Some \<lparr>fl_data = ''new'', fl_synced = True\<rparr>}"
proof -
  have a: "fst (atomic_replace demo_replace ''a/f'' ''new'' 8 demo_disk) = Inr ()"
    by (simp add: atomic_replace_def demo_replace_def demo_folder_def sys_result_def stage_and_rename_def Let_def)
  have b: "fst (atomic_replace (demo_replace\<lparr>rp_write := Some (1, ''disk full'')\<rparr>) ''a/f'' ''new'' 8 demo_disk) = Inl ''disk full''"
    by (simp add: atomic_replace_def demo_replace_def demo_folder_def sys_result_def stage_and_rename_def Let_def)
  show ?thesis
    using a b replace_atomic [OF prod.collapse [symmetric], of demo_replace "''a/f''" "''new''" 8 demo_disk]
      replace_atomic [OF prod.collapse [symmetric], of "demo_replace\<lparr>rp_write := Some (1, ''disk full'')\<rparr>" "''a/f''" "''new''" 8 demo_disk]
    by auto
qed

end
