(* ===== verification/Saved_State.thy ===== *)
theory Saved_State
  imports Fsio Json Protocol Ceiling
begin

text \<open>
  \<^verbatim>\<open>crates/omt-web/src/state.rs\<close>: the operator's saved target and video limit, each a small strict JSON
  document replaced atomically. The lemmas show that a saved choice is read back, that what is read is what the
  receiver accepts, and how the limits the Web form accepts relate to those the receiver accepts.
\<close>

section \<open>Records\<close>

abbreviation (input) SOURCE_LIMIT :: nat where "SOURCE_LIMIT \<equiv> 1024"
abbreviation (input) CEILING_LIMIT :: nat where "CEILING_LIMIT \<equiv> 256"

record source_target =
  sg_direct :: bool
  sg_value :: string

text \<open>The parser's fuel never runs out, so the second case does not arise.\<close>

definition json_result :: "string \<Rightarrow> string + json_value" where
  "json_result raw = (case json_parse raw of Some r \<Rightarrow> r | None \<Rightarrow> Inl [])"

definition read_record :: "read_env \<Rightarrow> nat \<Rightarrow> string \<Rightarrow> string + json_value option" where
  "read_record env limit what =
     and_then (read_bounded env limit) (\<lambda>r.
       case r of
         None \<Rightarrow> Inr None
       | Some raw \<Rightarrow> map_sum (\<lambda>e. what @ '' is invalid JSON: '' @ e) Some (json_result raw))"

definition schema :: "json_value \<Rightarrow> nat option" where
  "schema doc = do { v \<leftarrow> get doc ''schema''; n \<leftarrow> as_u64 v; if n \<le> 255 then Some n else None }"

definition optional_str :: "json_value \<Rightarrow> string \<Rightarrow> string option option" where
  "optional_str doc key =
     (case get doc key of
        None \<Rightarrow> Some None
      | Some v \<Rightarrow> if v = Null then Some None else map_option Some (as_str v))"

section \<open>The target\<close>

definition source_of :: "json_value \<Rightarrow> string + source_target option" where
  "source_of doc =
     (let kind = Option.bind (get doc ''kind'') as_str; name = optional_str doc ''name''; uri = optional_str doc ''uri''
      in if \<not> (as_object doc \<noteq> None \<and> only_keys doc [''schema'', ''kind'', ''name'', ''uri''] \<and> schema doc \<noteq> None
                \<and> kind \<noteq> None \<and> name \<noteq> None \<and> uri \<noteq> None)
         then Inl ''saved OMT target is invalid JSON: unexpected record shape''
         else if schema doc \<noteq> Some 1 then Inl ''saved OMT target has an invalid schema''
         else
           (case (kind, Option.bind name id, Option.bind uri id) of
              (Some k, Some n, None) \<Rightarrow>
                if k = ''discovered'' \<and> is_valid_source_name_bytes (as_bytes n) then Inr (Some \<lparr>sg_direct = False, sg_value = n\<rparr>)
                else Inl ''saved OMT target kind or value is invalid''
            | (Some k, None, Some u) \<Rightarrow>
                if k = ''direct'' \<and> is_ok (parse_direct_target u) then Inr (Some \<lparr>sg_direct = True, sg_value = u\<rparr>)
                else Inl ''saved OMT target kind or value is invalid''
            | _ \<Rightarrow> Inl ''saved OMT target kind or value is invalid''))"

definition read_source :: "read_env \<Rightarrow> string + source_target option" where
  "read_source env =
     and_then (read_record env SOURCE_LIMIT ''saved OMT target'') (\<lambda>r. case r of None \<Rightarrow> Inr None | Some doc \<Rightarrow> source_of doc)"

definition source_valid_target :: "source_target \<Rightarrow> bool" where
  "source_valid_target t =
     (if sg_direct t then is_ok (parse_direct_target (sg_value t)) else is_valid_source_name_bytes (as_bytes (sg_value t)))"

definition source_document :: "source_target \<Rightarrow> string" where
  "source_document t =
     (let (kind, field) = (if sg_direct t then (''direct'', ''uri'') else (''discovered'', ''name''))
      in write_string (''{'' @ [CHR 0x22] @ ''schema'' @ [CHR 0x22] @ '':1,'' @ [CHR 0x22] @ ''kind'' @ [CHR 0x22] @ '':'' @ [CHR 0x22] @ kind @ [CHR 0x22]
           @ '','' @ [CHR 0x22] @ field @ [CHR 0x22] @ '':'') (sg_value t) @ ''}'' @ [CHR 0x0A])"

definition save_source :: "replace_env \<Rightarrow> remove_env \<Rightarrow> string \<Rightarrow> source_target option \<Rightarrow> disk \<Rightarrow> (string + unit) \<times> disk" where
  "save_source renv menv path target d =
     (case target of
        None \<Rightarrow> remove_file_durable menv d
      | Some t \<Rightarrow>
          if \<not> source_valid_target t then (Inl ''invalid OMT target kind or value'', d)
          else if SOURCE_LIMIT < length (source_document t) then (Inl ''replacement exceeds its size limit'', d)
          else (let (r, ds) = atomic_replace renv path (source_document t) SOURCE_LIMIT d in (r, last ds)))"

section \<open>The video limit\<close>

definition all_digits :: "string \<Rightarrow> bool" where
  "all_digits s = list_all is_ascii_digit s"

definition invalid_limit :: "string \<Rightarrow> string" where
  "invalid_limit shape = ''Invalid video limit: '' @ shape @ ''. Expected WIDTHxHEIGHT@FPS.''"

definition limit_numbers :: "nat \<Rightarrow> nat \<Rightarrow> nat \<Rightarrow> string + unit" where
  "limit_numbers w h f =
     (if 255 < f then Inl ''Invalid frame rate''
      else if \<not> (16 \<le> w \<and> w \<le> 1920) then Inl (''Width '' @ show_nat w @ '' is outside 16-1920.'')
      else if \<not> (16 \<le> h \<and> h \<le> 1080) then Inl (''Height '' @ show_nat h @ '' is outside 16-1080.'')
      else if \<not> (1 \<le> f \<and> f \<le> 60) then Inl (''Frame rate '' @ show_nat f @ '' is outside 1-60.'')
      else Inr ())"

definition limit_shape :: "string \<Rightarrow> string + unit" where
  "limit_shape shape =
     and_then (ok_or (split_once (CHR ''@'') shape) (invalid_limit shape)) (\<lambda>(sz, fps).
     and_then (ok_or (split_once (CHR ''x'') sz) (invalid_limit shape)) (\<lambda>(w, h).
       if \<not> (2 \<le> length w \<and> length w \<le> 4) \<or> \<not> (2 \<le> length h \<and> length h \<le> 4) \<or> \<not> (1 \<le> length fps \<and> length fps \<le> 3)
          \<or> \<not> all_digits w \<or> \<not> all_digits h \<or> \<not> all_digits fps
       then Inl (invalid_limit shape)
       else limit_numbers (case parse_uint U64_MAX w of Some n \<Rightarrow> n | None \<Rightarrow> 0) (case parse_uint U64_MAX h of Some n \<Rightarrow> n | None \<Rightarrow> 0)
              (case parse_uint U64_MAX fps of Some n \<Rightarrow> n | None \<Rightarrow> 0)))"

fun limit_shapes :: "string list \<Rightarrow> string + unit" where
  "limit_shapes [] = Inr ()"
| "limit_shapes (s # ss) = and_then (limit_shape s) (\<lambda>_. limit_shapes ss)"

definition parse_video_ceiling :: "string \<Rightarrow> string + unit" where
  "parse_video_ceiling value =
     (if 4 < length (filter (\<lambda>c. c = CHR '','') value) + 1 then Inl ''A video limit must list between 1 and 4 resolutions.''
      else limit_shapes (split_on (CHR '','') value))"

definition describe_limit :: "string \<Rightarrow> string" where
  "describe_limit shape =
     (case split_once (CHR ''@'') shape of
        None \<Rightarrow> shape
      | Some (sz, fps) \<Rightarrow> sz @ '' at '' @ (case parse_uint 255 fps of Some f \<Rightarrow> show_nat f | None \<Rightarrow> fps) @ '' fps'')"

fun describe_limits :: "string list \<Rightarrow> string" where
  "describe_limits [] = []"
| "describe_limits [s] = describe_limit s"
| "describe_limits (s # ss) = describe_limit s @ '', or '' @ describe_limits ss"

definition describe_video_ceiling :: "string \<Rightarrow> string" where
  "describe_video_ceiling value = describe_limits (split_on (CHR '','') value)"

definition ceiling_of :: "json_value \<Rightarrow> string + string option" where
  "ceiling_of doc =
     (case Option.bind (get doc ''ceiling'') as_str of
        None \<Rightarrow> Inl ''saved video limit is invalid JSON: unexpected record shape''
      | Some c \<Rightarrow>
          if \<not> (as_object doc \<noteq> None \<and> only_keys doc [''schema'', ''ceiling''] \<and> schema doc \<noteq> None)
          then Inl ''saved video limit is invalid JSON: unexpected record shape''
          else if schema doc \<noteq> Some 1 then Inl ''saved video limit has an invalid schema''
          else and_then (parse_video_ceiling c) (\<lambda>_. Inr (Some c)))"

definition read_video_ceiling :: "read_env \<Rightarrow> string + string option" where
  "read_video_ceiling env =
     and_then (read_record env CEILING_LIMIT ''saved video limit'') (\<lambda>r. case r of None \<Rightarrow> Inr None | Some doc \<Rightarrow> ceiling_of doc)"

definition effective_video_ceiling :: "read_env \<Rightarrow> string \<Rightarrow> string + string" where
  "effective_video_ceiling env board_default =
     and_then (parse_video_ceiling board_default) (\<lambda>_.
     and_then (read_video_ceiling env) (\<lambda>r. Inr (case r of Some c \<Rightarrow> c | None \<Rightarrow> board_default)))"

definition ceiling_document :: "string \<Rightarrow> string" where
  "ceiling_document c =
     write_string (''{'' @ [CHR 0x22] @ ''schema'' @ [CHR 0x22] @ '':1,'' @ [CHR 0x22] @ ''ceiling'' @ [CHR 0x22] @ '':'') c @ ''}'' @ [CHR 0x0A]"

definition save_video_ceiling :: "replace_env \<Rightarrow> remove_env \<Rightarrow> string \<Rightarrow> string option \<Rightarrow> disk \<Rightarrow> (string + unit) \<times> disk" where
  "save_video_ceiling renv menv path choice d =
     (case choice of
        None \<Rightarrow> remove_file_durable menv d
      | Some c \<Rightarrow>
          (case parse_video_ceiling c of
             Inl e \<Rightarrow> (Inl e, d)
           | Inr _ \<Rightarrow>
               if CEILING_LIMIT < length (ceiling_document c) then (Inl ''replacement exceeds its size limit'', d)
               else (let (r, ds) = atomic_replace renv path (ceiling_document c) CEILING_LIMIT d in (r, last ds))))"

definition rate_number :: "string \<Rightarrow> nat option" where
  "rate_number s = (if s = [] \<or> \<not> all_digits s then None else parse_uint U64_MAX s)"

definition shape_rate :: "string \<Rightarrow> nat option" where
  "shape_rate shape =
     do { (sz, fps) \<leftarrow> split_once (CHR ''@'') shape;
          (w, h) \<leftarrow> split_once (CHR ''x'') sz;
          a \<leftarrow> rate_number w;
          b \<leftarrow> rate_number h;
          ab \<leftarrow> checked_mul U64_MAX a b;
          f \<leftarrow> rate_number fps;
          checked_mul U64_MAX ab f }"

definition pixel_rate :: "string \<Rightarrow> nat" where
  "pixel_rate value = foldl max 0 (List.map_filter shape_rate (split_on (CHR '','') value))"

section \<open>Saved choices are read back\<close>

lemma json_result_eq: "json_parse raw = Some r \<Longrightarrow> json_result raw = r"
  by (simp add: json_result_def)

definition source_value :: "source_target \<Rightarrow> json_value" where
  "source_value t =
     Object [(''schema'', Number (int_number 1)), (''kind'', String (if sg_direct t then ''direct'' else ''discovered'')),
             (if sg_direct t then ''uri'' else ''name'', String (sg_value t))]"

definition ceiling_value :: "string \<Rightarrow> json_value" where
  "ceiling_value c = Object [(''schema'', Number (int_number 1)), (''ceiling'', String c)]"

lemma quote_word: "list_all (\<lambda>c. 32 \<le> byte c \<and> byte c \<noteq> 34 \<and> byte c \<noteq> 92) s \<Longrightarrow> quote s = CHR 0x22 # s @ [CHR 0x22]"
  unfolding quote_concat by (induction s) auto

lemma number_one: "number_text (int_number 1) = ''1''"
proof -
  have "show_nat 1 = ''1''" by code_simp
  then show ?thesis by (simp add: number_text_def int_number_def)
qed

lemma source_document_render: "source_document t = render (source_value t) @ [CHR 0x0A]"
  by (simp add: source_document_def source_value_def write_string_quote quote_word number_one Let_def)

lemma ceiling_document_render: "ceiling_document c = render (ceiling_value c) @ [CHR 0x0A]"
  by (simp add: ceiling_document_def ceiling_value_def write_string_quote quote_word number_one)

lemma utf8_valid_word: "\<forall>c\<in>set s. byte c < 128 \<Longrightarrow> utf8_valid s"
  using ascii_valid [of s "[]"] by (simp add: ascii_def utf8_valid_def)

lemma document_read:
  assumes "doc_ok 128 v" "integers_only v" "length (render v @ [CHR 0x0A]) \<le> limit" "honest env (Some (render v @ [CHR 0x0A]))" "limit \<le> SOURCE_LIMIT"
  shows "read_record env limit what = Inr (Some v)"
proof -
  have "json_parse (render v @ [CHR 0x0A]) = Some (Inr v)"
    using assms by (intro parse_render_then) (simp_all add: is_json_ws_def)
  moreover have "read_bounded env limit = Inr (Some (render v @ [CHR 0x0A]))"
    using read_bounded_exact [OF assms(4), of limit] assms(3,5) by simp
  ultimately show ?thesis by (simp add: read_record_def json_result_eq)
qed

lemma one_number: "as_u64 (Number (int_number 1)) = Some 1"
  by (simp add: nu_as_u64_def int_number_def)

lemma schema_one: "get doc ''schema'' = Some (Number (int_number 1)) \<Longrightarrow> schema doc = Some 1"
  by (simp add: schema_def one_number del: as_u64.simps)

text \<open>Neither a source name nor a target holds a NUL.\<close>

lemma encode_char_no_nul:
  assumes "0 < c" "is_scalar c"
  shows "CHR 0x00 \<notin> set (encode_char c)"
proof (cases "c < 128")
  case True
  have "char_of c \<noteq> CHR 0x00"
  proof
    assume "char_of c = CHR 0x00"
    then have "byte (char_of c) = 0" by simp
    then show False using True assms(1) by simp
  qed
  then show ?thesis using True by (simp add: encode_char_def)
next
  case False
  then show ?thesis using encode_char_high [OF assms(2), of "CHR 0x00"] by fastforce
qed

lemma source_name_no_nul:
  assumes "is_valid_source_name_bytes (as_bytes s)"
  shows "CHR 0x00 \<notin> set s" "utf8_valid s"
proof -
  obtain cs where cs: "from_utf8 s = Some cs" "is_valid_source_name cs"
    using assms by (auto simp: is_valid_source_name_bytes_def split: option.splits)
  have "0 \<notin> set cs"
    using cs(2) is_forbidden_iff [of 0] by (auto simp: is_valid_source_name_def list_ex_iff FORBIDDEN_NAME_RANGES_def split: if_splits)
  then have "\<forall>c\<in>set cs. 0 < c" by (metis gr0I)
  then show "CHR 0x00 \<notin> set s" using encode_utf8_from_utf8 [OF cs(1)] encode_char_no_nul by (auto simp: encode_utf8_def)
  show "utf8_valid s" using cs(1) by (simp add: utf8_valid_def)
qed

lemma target_no_nul:
  assumes "is_ok (parse_direct_target s)"
  shows "CHR 0x00 \<notin> set s"
proof -
  have len: "\<not> TARGET_MAX_BYTES < length s" using assms by (auto simp: parse_direct_target_def)
  then obtain auth where auth: "strip_prefix ''omt://'' s = Some auth"
    using assms by (cases "strip_prefix ''omt://'' s") (simp_all add: parse_direct_target_def)
  have "\<not> list_ex bad_authority_byte auth"
  proof
    assume "list_ex bad_authority_byte auth"
    then have "parse_direct_target s = Inl (ProtoError Invalid ''OMT direct target'')" using len auth by (simp add: parse_direct_target_def)
    then show False using assms by simp
  qed
  moreover have "bad_authority_byte (CHR 0x00)" by (simp add: bad_authority_byte_def)
  ultimately have "CHR 0x00 \<notin> set auth" unfolding list_ex_iff by blast
  moreover have "s = ''omt://'' @ auth" using auth by (simp add: strip_prefix_Some)
  ultimately show ?thesis by simp
qed

lemma source_of_value:
  assumes "source_valid_target t"
  shows "source_of (source_value t) = Inr (Some t)"
proof -
  have nul: "CHR 0x00 \<notin> set (sg_value t)"
    using assms source_name_no_nul(1) target_no_nul by (auto simp: source_valid_target_def split: if_splits)
  have s: "schema (source_value t) = Some 1" by (rule schema_one) (simp add: source_value_def)
  show ?thesis using assms nul s
    by (cases "sg_direct t") (simp_all add: source_of_def source_value_def source_valid_target_def optional_str_def Let_def)
qed

lemma source_doc_ok:
  assumes "utf8_valid (sg_value t)"
  shows "doc_ok 128 (source_value t)" "integers_only (source_value t)"
  using assms by (auto simp: source_value_def intro!: utf8_valid_word exI [of _ 1])

lemma limit_digits:
  assumes "limit_shapes (split_on (CHR '','') c) = Inr ()"
  shows "\<forall>x\<in>set c. is_ascii_digit x \<or> x \<in> {CHR ''@'', CHR ''x'', CHR '',''}"
proof -
  have shape: "\<forall>x\<in>set s. is_ascii_digit x \<or> x \<in> {CHR ''@'', CHR ''x''}" if "limit_shape s = Inr ()" for s
    using that by (auto simp: limit_shape_def and_then_eq_Inr ok_or_eq_Inr all_digits_def list_all_iff split: if_splits dest!: split_once_Some)
  have "\<forall>s\<in>set ss. limit_shape s = Inr ()" if "limit_shapes ss = Inr ()" for ss
    using that by (induction ss) (auto simp: and_then_eq_Inr)
  then show ?thesis using assms shape split_on_chars [of _ c "CHR '',''"] by blast
qed

lemma ceiling_of_value:
  assumes "parse_video_ceiling c = Inr ()"
  shows "ceiling_of (ceiling_value c) = Inr (Some c)" "utf8_valid c"
proof -
  have c: "\<forall>x\<in>set c. is_ascii_digit x \<or> x \<in> {CHR ''@'', CHR ''x'', CHR '',''}"
    using assms limit_digits by (auto simp: parse_video_ceiling_def split: if_splits)
  then have "CHR 0x00 \<notin> set c" by (auto simp: is_ascii_digit_def)
  moreover have "schema (ceiling_value c) = Some 1" by (rule schema_one) (simp add: ceiling_value_def)
  ultimately show "ceiling_of (ceiling_value c) = Inr (Some c)" using assms by (simp add: ceiling_of_def ceiling_value_def)
  show "utf8_valid c" using c by (intro utf8_valid_word) (auto simp: is_ascii_digit_def)
qed

lemma ceiling_doc_ok:
  assumes "utf8_valid c"
  shows "doc_ok 128 (ceiling_value c)" "integers_only (ceiling_value c)"
  using assms by (auto simp: ceiling_value_def intro!: utf8_valid_word exI [of _ 1])

lemma atomic_replace_Inr:
  assumes "atomic_replace renv path data maximum d = (Inr (), ds)"
  shows "dk_target (last ds) = Some \<lparr>fl_data = data, fl_synced = True\<rparr>" "length data \<le> maximum"
proof -
  obtain r xs where s: "stage_and_rename renv data d = (r, xs)" by (cases "stage_and_rename renv data d")
  show "dk_target (last ds) = Some \<lparr>fl_data = data, fl_synced = True\<rparr>" "length data \<le> maximum"
    using stage_and_rename_states [OF s] atomic_replace_cases [OF assms s] by auto
qed

lemma remove_Inr:
  assumes "remove_file_durable menv d = (Inr (), d')" "(\<exists>e. rm_stat menv = Missing e) \<longrightarrow> dk_target d = None"
  shows "dk_target d' = None"
  using assms by (auto simp: remove_file_durable_def Let_def split: sys.splits if_splits option.splits)

text \<open>The content a reader finds at the path on a disk.\<close>

abbreviation reads_disk :: "read_env \<Rightarrow> disk \<Rightarrow> bool" where
  "reads_disk env d \<equiv> honest env (map_option fl_data (dk_target d))"

lemma saved_source_read:
  assumes "save_source renv menv path (Some t) d = (Inr (), d')" "utf8_valid (sg_value t)" "reads_disk env d'"
  shows "read_source env = Inr (Some t)"
proof -
  have v: "source_valid_target t" and len: "length (source_document t) \<le> SOURCE_LIMIT"
    using assms(1) by (auto simp: save_source_def split: if_splits)
  obtain ds where ds: "atomic_replace renv path (source_document t) SOURCE_LIMIT d = (Inr (), ds)" "d' = last ds"
    using assms(1) v len by (auto simp: save_source_def split: prod.splits)
  have h: "honest env (Some (source_document t))" using assms(3) atomic_replace_Inr(1) [OF ds(1)] ds(2) by simp
  have "read_record env SOURCE_LIMIT ''saved OMT target'' = Inr (Some (source_value t))"
    using source_doc_ok [OF assms(2)] h len unfolding source_document_render by (intro document_read) simp_all
  then show ?thesis using source_of_value [OF v] by (simp add: read_source_def)
qed

lemma saved_ceiling_read:
  assumes "save_video_ceiling renv menv path (Some c) d = (Inr (), d')" "reads_disk env d'"
  shows "read_video_ceiling env = Inr (Some c)"
proof -
  have v: "parse_video_ceiling c = Inr ()" and len: "length (ceiling_document c) \<le> CEILING_LIMIT"
    using assms(1) by (auto simp: save_video_ceiling_def split: if_splits sum.splits)
  obtain ds where ds: "atomic_replace renv path (ceiling_document c) CEILING_LIMIT d = (Inr (), ds)" "d' = last ds"
    using assms(1) v len by (auto simp: save_video_ceiling_def split: prod.splits)
  have h: "honest env (Some (ceiling_document c))" using assms(2) atomic_replace_Inr(1) [OF ds(1)] ds(2) by simp
  have "read_record env CEILING_LIMIT ''saved video limit'' = Inr (Some (ceiling_value c))"
    using ceiling_doc_ok [OF ceiling_of_value(2) [OF v]] h len unfolding ceiling_document_render by (intro document_read) simp_all
  then show ?thesis using ceiling_of_value(1) [OF v] by (simp add: read_video_ceiling_def)
qed

lemma read_source_valid:
  assumes "read_source env = Inr (Some t)"
  shows "source_valid_target t"
proof -
  obtain doc where "source_of doc = Inr (Some t)"
    using assms by (auto simp: read_source_def and_then_eq_Inr split: option.split_asm)
  then show ?thesis by (auto simp: source_of_def source_valid_target_def Let_def split: if_split_asm option.split_asm)
qed

lemma read_nothing: "reads_disk env d \<Longrightarrow> dk_target d = None \<Longrightarrow> read_source env = Inr None \<and> read_video_ceiling env = Inr None"
  by (simp add: honest_def read_source_def read_video_ceiling_def read_record_def read_bounded_def) (auto)

text \<open>C39. The operator's choices survive. A target that was saved is read back, and so is a video limit, which is
  then the one in effect; a choice that was cleared reads as none. A target that is read, whatever the file holds,
  is one the receiver accepts: a direct target of the grammar or a valid source name.\<close>

theorem saved_choices_read_back:
  "(\<forall>t d'. save_source renv menv path (Some t) d = (Inr (), d') \<and> utf8_valid (sg_value t) \<and> reads_disk env d' \<longrightarrow> read_source env = Inr (Some t))
   \<and> (\<forall>c d'. save_video_ceiling renv menv path (Some c) d = (Inr (), d') \<and> reads_disk env d' \<longrightarrow>
        read_video_ceiling env = Inr (Some c) \<and> (parse_video_ceiling board = Inr () \<longrightarrow> effective_video_ceiling env board = Inr c))
   \<and> (\<forall>d'. (save_source renv menv path None d = (Inr (), d') \<or> save_video_ceiling renv menv path None d = (Inr (), d'))
        \<and> ((\<exists>e. rm_stat menv = Missing e) \<longrightarrow> dk_target d = None) \<and> reads_disk env d' \<longrightarrow>
        read_source env = Inr None \<and> read_video_ceiling env = Inr None)
   \<and> (\<forall>t. read_source env = Inr (Some t) \<longrightarrow> source_valid_target t)"
proof (intro conjI allI impI)
  fix d' assume a: "(save_source renv menv path None d = (Inr (), d') \<or> save_video_ceiling renv menv path None d = (Inr (), d'))
        \<and> ((\<exists>e. rm_stat menv = Missing e) \<longrightarrow> dk_target d = None) \<and> reads_disk env d'"
  then have "dk_target d' = None" using remove_Inr [of menv d d'] by (auto simp: save_source_def save_video_ceiling_def)
  then show "read_source env = Inr None" "read_video_ceiling env = Inr None" using a read_nothing [of env d'] by blast+
next
  fix t assume "read_source env = Inr (Some t)"
  then show "source_valid_target t" by (rule read_source_valid)
qed (use saved_source_read saved_ceiling_read in \<open>auto simp: effective_video_ceiling_def\<close>)

definition demo_read_env :: "string \<Rightarrow> read_env" where
  "demo_read_env s =
     (let m = \<lparr>md_kind = RegularFile, md_len = length s, md_dev = 1, md_ino = 3\<rparr>
      in \<lparr>re_stat = Answer m, re_open = Answer (), re_fstat = Answer m, re_reads = [ReadInterrupted, ReadBytes s]\<rparr>)"

definition demo_remove :: remove_env where
  "demo_remove = \<lparr>rm_stat = Missing ''No such file or directory (os error 2)'', rm_remove = None, rm_split = True, rm_dirsync = None\<rparr>"

lemma demo_limit: "parse_video_ceiling ''1920x1080@30'' = Inr ()"
  by (simp add: parse_video_ceiling_def limit_shape_def limit_numbers_def split_once_def all_digits_def is_ascii_digit_def parse_uint_def
      strip_prefix_def decimal_def digit_val_def)

theorem saved_choices_read_back_witness:
  "\<exists>d'. save_video_ceiling demo_replace demo_remove ''a/f'' (Some ''1920x1080@30'') demo_disk = (Inr (), d')
     \<and> read_video_ceiling (demo_read_env (ceiling_document ''1920x1080@30'')) = Inr (Some ''1920x1080@30'')"
proof -
  have len: "length (ceiling_document ''1920x1080@30'') = 38" by code_simp
  let ?r = "atomic_replace demo_replace ''a/f'' (ceiling_document ''1920x1080@30'') CEILING_LIMIT demo_disk"
  have r: "fst ?r = Inr ()" using len
    by (simp add: atomic_replace_def demo_replace_def demo_folder_def sys_result_def stage_and_rename_def Let_def)
  then obtain ds where ds: "?r = (Inr (), ds)" by (cases ?r) simp
  then have s: "save_video_ceiling demo_replace demo_remove ''a/f'' (Some ''1920x1080@30'') demo_disk = (Inr (), last ds)"
    using len by (simp add: save_video_ceiling_def demo_limit)
  have "ceiling_document ''1920x1080@30'' \<noteq> []" using len by auto
  then have "reads_disk (demo_read_env (ceiling_document ''1920x1080@30'')) (last ds)"
    using atomic_replace_Inr(1) [OF ds] len by (simp add: honest_def demo_read_env_def Let_def)
  then show ?thesis using s saved_choices_read_back [of demo_replace demo_remove "''a/f''" demo_disk "demo_read_env (ceiling_document ''1920x1080@30'')" "[]"] by blast
qed

section \<open>The two grammars of a limit\<close>

text \<open>The Web form and the receiver have a parser each. They differ on numbers that start with a zero.\<close>

definition canonical_shape :: "string \<Rightarrow> bool" where
  "canonical_shape shape =
     (case split_once (CHR ''@'') shape of
        None \<Rightarrow> True
      | Some (sz, fps) \<Rightarrow>
          \<not> starts_with ''0'' fps \<and> (case split_once (CHR ''x'') sz of None \<Rightarrow> True | Some (w, h) \<Rightarrow> \<not> starts_with ''0'' w \<and> \<not> starts_with ''0'' h))"

lemma shape_splits:
  assumes "all_digits w" "all_digits h"
  shows "split_once (CHR ''@'') (w @ ''x'' @ h @ ''@'' @ fps) = Some (w @ ''x'' @ h, fps)" "split_once (CHR ''x'') (w @ ''x'' @ h) = Some (w, h)"
proof -
  have no: "CHR ''@'' \<notin> set (w @ ''x'' @ h)" "CHR ''x'' \<notin> set w" using assms by (auto simp: all_digits_def list_all_iff is_ascii_digit_def)
  show "split_once (CHR ''@'') (w @ ''x'' @ h @ ''@'' @ fps) = Some (w @ ''x'' @ h, fps)" "split_once (CHR ''x'') (w @ ''x'' @ h) = Some (w, h)"
    using split_once_append [OF no(1), of fps] split_once_append [OF no(2), of h] by simp_all
qed

lemma parse_short:
  assumes "all_digits s" "s \<noteq> []" "length s \<le> 4"
  shows "parse_uint U64_MAX s = Some (decimal s)"
proof -
  have "decimal s < 10 ^ length s" using assms(1) by (intro decimal_less) (simp add: all_digits_def list_all_iff)
  also have "\<dots> \<le> 10 ^ 4" using assms(3) by (intro power_increasing) simp_all
  finally show ?thesis using assms(1,2) by (intro parse_uint_digits) (simp_all add: all_digits_def)
qed

lemma two_digits: "10 \<le> n \<Longrightarrow> 2 \<le> length (show_nat n)"
  using show_nat_nonempty [of "n div 10"] by (subst show_nat.simps) (simp add: Suc_le_eq)

lemma canonical_number:
  assumes "all_digits s" "s \<noteq> []" "\<not> starts_with ''0'' s"
  shows "show_nat (decimal s) = s"
  using assms by (intro show_nat_decimal) (cases s; auto simp: all_digits_def list_all_iff starts_with_def)+

lemma limit_numbers_Inr: "limit_numbers w h f = Inr () \<longleftrightarrow> 16 \<le> w \<and> w \<le> 1920 \<and> 16 \<le> h \<and> h \<le> 1080 \<and> 1 \<le> f \<and> f \<le> 60"
  by (auto simp: limit_numbers_def)

lemma limit_shape_Inr:
  "limit_shape shape = Inr () \<longleftrightarrow>
     (\<exists>w h fps. shape = w @ ''x'' @ h @ ''@'' @ fps \<and> all_digits w \<and> all_digits h \<and> all_digits fps
        \<and> 2 \<le> length w \<and> length w \<le> 4 \<and> 2 \<le> length h \<and> length h \<le> 4 \<and> 1 \<le> length fps \<and> length fps \<le> 3
        \<and> limit_numbers (decimal w) (decimal h) (decimal fps) = Inr ())" (is "?l \<longleftrightarrow> ?r")
proof
  assume l: ?l
  then obtain sz fps w h where s: "split_once (CHR ''@'') shape = Some (sz, fps)" "split_once (CHR ''x'') sz = Some (w, h)"
    by (auto simp: limit_shape_def result_inv)
  then have eq: "shape = w @ ''x'' @ h @ ''@'' @ fps" using split_once_Some [OF s(1)] split_once_Some [OF s(2)] by simp
  have d: "all_digits w" "all_digits h" "all_digits fps" "2 \<le> length w" "length w \<le> 4" "2 \<le> length h" "length h \<le> 4" "1 \<le> length fps" "length fps \<le> 3"
    using l s by (auto simp: limit_shape_def split: if_splits)
  have p: "parse_uint U64_MAX w = Some (decimal w)" "parse_uint U64_MAX h = Some (decimal h)" "parse_uint U64_MAX fps = Some (decimal fps)"
    using d by (intro parse_short; auto)+
  have "limit_numbers (decimal w) (decimal h) (decimal fps) = Inr ()" using l s d p by (simp add: limit_shape_def)
  then show ?r using eq d by blast
next
  assume ?r
  then obtain w h fps where r: "shape = w @ ''x'' @ h @ ''@'' @ fps" "all_digits w" "all_digits h" "all_digits fps"
    "2 \<le> length w" "length w \<le> 4" "2 \<le> length h" "length h \<le> 4" "1 \<le> length fps" "length fps \<le> 3"
    "limit_numbers (decimal w) (decimal h) (decimal fps) = Inr ()" by blast
  note s = shape_splits(1) [OF r(2,3), of fps, folded r(1)] shape_splits(2) [OF r(2,3)]
  have p: "parse_uint U64_MAX w = Some (decimal w)" "parse_uint U64_MAX h = Some (decimal h)" "parse_uint U64_MAX fps = Some (decimal fps)"
    using r by (intro parse_short; auto)+
  show ?l using s p r by (simp add: limit_shape_def)
qed

lemma shape_grammars: "(\<exists>s. shape_of field = Inr s) \<longleftrightarrow> limit_shape field = Inr () \<and> canonical_shape field"
proof
  assume "\<exists>s. shape_of field = Inr s"
  then obtain s where s: "field = show_shape s" "shape_ok s" by (auto simp: shape_of_Inr)
  let ?w = "show_nat (sh_width s)" and ?h = "show_nat (sh_height s)" and ?f = "show_nat (sh_fps s)"
  have ok: "16 \<le> sh_width s" "sh_width s \<le> 1920" "16 \<le> sh_height s" "sh_height s \<le> 1080" "1 \<le> sh_fps s" "sh_fps s \<le> 60"
    using s(2) by (auto simp: shape_ok_def)
  have dig: "all_digits (show_nat n)" for n using show_nat_digits by (auto simp: all_digits_def list_all_iff)
  have len: "2 \<le> length ?w" "length ?w \<le> 4" "2 \<le> length ?h" "length ?h \<le> 4" "1 \<le> length ?f" "length ?f \<le> 3"
    using ok two_digits length_show_nat_le [of "sh_width s" 3] length_show_nat_le [of "sh_height s" 3] length_show_nat_le [of "sh_fps s" 1]
      show_nat_nonempty [of "sh_fps s"] by (auto simp: Suc_le_eq)
  have "limit_shape field = Inr ()" unfolding limit_shape_Inr s(1) show_shape_def
    using dig len ok by (intro exI [of _ ?w] exI [of _ ?h] exI [of _ ?f]) (simp add: decimal_show_nat limit_numbers_Inr)
  moreover have "\<not> starts_with ''0'' (show_nat n)" if "0 < n" for n
    using show_nat_no_leading_zero [OF that] by (cases "show_nat n") (auto simp: starts_with_def)
  then have "canonical_shape field"
    using ok shape_splits(1) [OF dig [of "sh_width s"] dig [of "sh_height s"], of ?f] shape_splits(2) [OF dig [of "sh_width s"] dig [of "sh_height s"]] by (simp add: canonical_shape_def s(1) show_shape_def)
  ultimately show "limit_shape field = Inr () \<and> canonical_shape field" by blast
next
  assume a: "limit_shape field = Inr () \<and> canonical_shape field"
  then obtain w h fps where r: "field = w @ ''x'' @ h @ ''@'' @ fps" "all_digits w" "all_digits h" "all_digits fps"
    "2 \<le> length w" "2 \<le> length h" "1 \<le> length fps" "limit_numbers (decimal w) (decimal h) (decimal fps) = Inr ()" unfolding limit_shape_Inr by blast
  have z: "\<not> starts_with ''0'' w" "\<not> starts_with ''0'' h" "\<not> starts_with ''0'' fps"
    using a shape_splits(1) [OF r(2,3), of fps] shape_splits(2) [OF r(2,3)] by (simp_all add: canonical_shape_def r(1))
  have c: "show_nat (decimal w) = w" "show_nat (decimal h) = h" "show_nat (decimal fps) = fps"
    using r(2-7) z by (intro canonical_number; auto)+
  have "shape_of field = Inr \<lparr>sh_width = decimal w, sh_height = decimal h, sh_fps = decimal fps\<rparr>"
    using r(1,8) c by (auto simp: shape_of_Inr show_shape_def shape_ok_def limit_numbers_Inr)
  then show "\<exists>s. shape_of field = Inr s" by blast
qed

lemma length_split_on: "length (split_on c s) = Suc (length (filter (\<lambda>x. x = c) s))"
proof (induction s)
  case (Cons x s)
  then show ?case using split_on_nonempty [of c s] by (auto split: list.splits)
qed simp

lemma limit_shapes_Inr: "limit_shapes ss = Inr () \<longleftrightarrow> (\<forall>s\<in>set ss. limit_shape s = Inr ())"
  by (induction ss) (auto simp: and_then_eq_Inr)

lemma ceiling_parse_shapes:
  "(\<exists>c. ceiling_parse s = Inr c) \<longleftrightarrow> length (split_on (CHR '','') s) \<le> 4 \<and> (\<forall>f\<in>set (split_on (CHR '','') s). \<exists>x. shape_of f = Inr x)"
proof -
  have "(\<exists>ss. fs = map show_shape ss \<and> list_all shape_ok ss) \<longleftrightarrow> (\<forall>f\<in>set fs. \<exists>x. shape_of f = Inr x)" for fs
  proof (induction fs)
    case (Cons f fs)
    have "(\<exists>ss. f # fs = map show_shape ss \<and> list_all shape_ok ss)
        \<longleftrightarrow> (\<exists>x. f = show_shape x \<and> shape_ok x) \<and> (\<exists>ss. fs = map show_shape ss \<and> list_all shape_ok ss)"
      by (auto simp: Cons_eq_map_conv) (metis list.pred_inject(2))
    then show ?case using Cons by (simp add: shape_of_Inr)
  qed simp
  moreover have "(\<exists>c. ceiling_parse s = Inr c) \<longleftrightarrow>
      length (split_on (CHR '','') s) \<le> 4 \<and> (\<exists>ss. split_on (CHR '','') s = map show_shape ss \<and> list_all shape_ok ss)"
    using ceiling_fields_Inr [of "[]" "split_on (CHR '','') s"] by (auto simp: ceiling_parse_def)
  ultimately show ?thesis by simp
qed

text \<open>A limit the Web form accepts and describes, and with which the receiver does not start.\<close>

lemma leading_zero_limit:
  "parse_video_ceiling ''1280x720@060'' = Inr () \<and> describe_video_ceiling ''1280x720@060'' = ''1280x720 at 60 fps''
   \<and> (\<nexists>c. ceiling_parse ''1280x720@060'' = Inr c)"
proof -
  have z: "\<not> canonical_shape ''1280x720@060''" "split_on (CHR '','') ''1280x720@060'' = [''1280x720@060'']" by code_simp+
  have "parse_video_ceiling ''1280x720@060'' = Inr ()"
    by (simp add: parse_video_ceiling_def limit_shape_def limit_numbers_def split_once_def all_digits_def is_ascii_digit_def parse_uint_def
        strip_prefix_def decimal_def digit_val_def)
  moreover have "describe_video_ceiling ''1280x720@060'' = ''1280x720 at 60 fps''" by code_simp
  ultimately show ?thesis using z shape_grammars [of "''1280x720@060''"] unfolding ceiling_parse_shapes by simp
qed

text \<open>C40. The two parsers of a video limit, the Web form's and the receiver's, accept the same texts but for
  numbers with a leading zero: the receiver accepts a text exactly when the Web form does and no width, height or
  rate in it starts with a zero. So a limit in effect that is written without them is one the receiver starts
  with; and one with them, which the Web form accepts and describes, is not.\<close>

theorem ceiling_grammars:
  "((\<exists>c. ceiling_parse s = Inr c) \<longleftrightarrow> parse_video_ceiling s = Inr () \<and> list_all canonical_shape (split_on (CHR '','') s))
   \<and> (effective_video_ceiling env board = Inr s \<and> list_all canonical_shape (split_on (CHR '','') s) \<longrightarrow> (\<exists>c. ceiling_parse s = Inr c))
   \<and> (parse_video_ceiling ''1280x720@060'' = Inr () \<and> describe_video_ceiling ''1280x720@060'' = ''1280x720 at 60 fps''
        \<and> (\<nexists>c. ceiling_parse ''1280x720@060'' = Inr c))"
proof -
  have eq: "(\<exists>c. ceiling_parse s = Inr c) \<longleftrightarrow> parse_video_ceiling s = Inr () \<and> list_all canonical_shape (split_on (CHR '','') s)"
    unfolding ceiling_parse_shapes shape_grammars
    by (auto simp: parse_video_ceiling_def limit_shapes_Inr length_split_on list_all_iff)
  have "parse_video_ceiling s = Inr ()" if "effective_video_ceiling env board = Inr s"
  proof -
    have "parse_video_ceiling c = Inr ()" if "ceiling_of doc = Inr (Some c)" for doc c
      using that by (auto simp: ceiling_of_def and_then_eq_Inr split: option.split_asm if_split_asm)
    then have "parse_video_ceiling c = Inr ()" if "read_video_ceiling env = Inr (Some c)" for c
      using that by (auto simp: read_video_ceiling_def and_then_eq_Inr split: option.split_asm)
    then show ?thesis using that by (auto simp: effective_video_ceiling_def and_then_eq_Inr split: option.split_asm)
  qed
  then show ?thesis using eq leading_zero_limit by blast
qed

theorem ceiling_grammars_witness:
  "(\<exists>c. ceiling_parse ''1920x1080@30'' = Inr c)
   \<and> effective_video_ceiling ((demo_read_env [])\<lparr>re_stat := Missing []\<rparr>) ''1920x1080@30'' = Inr ''1920x1080@30''"
proof -
  have "effective_video_ceiling ((demo_read_env [])\<lparr>re_stat := Missing []\<rparr>) ''1920x1080@30'' = Inr ''1920x1080@30''"
    by (simp add: effective_video_ceiling_def demo_limit read_video_ceiling_def read_record_def read_bounded_def)
  moreover have "list_all canonical_shape (split_on (CHR '','') ''1920x1080@30'')" by code_simp
  ultimately show ?thesis using ceiling_grammars [of "''1920x1080@30''"] by blast
qed

end
