(* ===== verification/Spec2Isabelle.thy ===== *)
theory Spec2Isabelle
  imports Buf Timefmt Protocol Ceiling Channel Handoff Scale Vmx_Run Json Status Flip_Chain Audio Mdns Saved_State
begin

text \<open>
  Verification of the Raspberry Pi OMT client: an appliance that receives an OMT stream over the network, decodes
  its VMX video and shows it on HDMI, with a Web page to choose the source. The sources are the Rust crates under
  \<^verbatim>\<open>src/crates\<close>; the models follow the functions they name.

  \<^bold>\<open>Parts and how they interact.\<close> Discovery (\<^verbatim>\<open>omt-receiver/discovery.rs\<close>, \<^verbatim>\<open>mdns.rs\<close>, \<^verbatim>\<open>dbus.rs\<close>) turns the saved
  target into an endpoint, over a discovery server or over Avahi on the system bus. A channel
  (\<^verbatim>\<open>channel.rs\<close>) connects to it, subscribes, and reassembles frames whose headers \<^verbatim>\<open>omt-protocol\<close> validates.
  Frames pass through a bounded queue (\<^verbatim>\<open>handoff.rs\<close>) to the video output (\<^verbatim>\<open>video.rs\<close>, \<^verbatim>\<open>scale.rs\<close>), which
  checks the board's ceiling (\<^verbatim>\<open>ceiling.rs\<close>), picks a display mode, loads the frame into the decoder
  (\<^verbatim>\<open>omt-vmx\<close>), decodes it with a pool of threads into a surface and flips it; and to the audio output
  (\<^verbatim>\<open>audio.rs\<close>). Playback reports to a status file (\<^verbatim>\<open>status.rs\<close>), which the Web front end reads with the JSON
  reader (\<^verbatim>\<open>omt-common/json.rs\<close>); the operator's choices are saved by \<^verbatim>\<open>omt-web/state.rs\<close> through
  \<^verbatim>\<open>omt-common/fsio.rs\<close>.

  \<^bold>\<open>Foundations.\<close>
  \<^item> \<open>Prelude\<close>: machine types, results, checked arithmetic, byte codecs, binary search.
  \<^item> \<open>Rust_Text\<close>, \<open>Rust_Float\<close>, \<open>Rust_Net\<close>: what the sources use of the standard library: strings and UTF-8, the
    printing and parsing of numbers, rounding to doubles, the parsers of IP addresses. Their definitions are
    collected under \<open>std_defs\<close>.

  \<^bold>\<open>Shared code\<close> (\<^verbatim>\<open>omt-common\<close>, \<^verbatim>\<open>omt-protocol\<close>).
  \<^item> \<open>Buf\<close> (\<^verbatim>\<open>buf.rs\<close>): the bounded buffer and the cursor. A buffer checked once is complete or refused.
  \<^item> \<open>Timefmt\<close> (\<^verbatim>\<open>timefmt.rs\<close>): the calendar is a bijection; printed instants parse back.
  \<^item> \<open>Nfc_Tables\<close>, \<open>Nfc\<close> (\<^verbatim>\<open>nfc_tables.rs\<close>, \<^verbatim>\<open>nfc.rs\<close>): Unicode normalization with all its tables.
  \<^item> \<open>Protocol\<close> (\<^verbatim>\<open>omt-protocol/lib.rs\<close>): exact grammars of frame, video and audio headers, targets and names.
  \<^item> \<open>Json\<close> (\<^verbatim>\<open>json.rs\<close>): the parser's limits, and that what the writers write reads back. The recursion is on fuel,
    twice the length of the text and one more; \<open>json_total\<close> shows that it never runs out.
  \<^item> \<open>Xml\<close> (\<^verbatim>\<open>xml.rs\<close>): the pull tokenizer and the extraction of unique elements.
  \<^item> \<open>Fsio\<close> (\<^verbatim>\<open>fsio.rs\<close>): reads and replacements as sequences of states of the disk; replacement is atomic.

  \<^bold>\<open>Receiver.\<close>
  \<^item> \<open>Ceiling\<close>, \<open>Status\<close> (\<^verbatim>\<open>omt-receiver-core\<close>): the decode ceiling with its floating-point comparison decided
    exactly; the status file always shows the newest published state.
  \<^item> \<open>Channel\<close> (\<^verbatim>\<open>channel.rs\<close>): receiving refines cutting the byte stream into frames, however it is split, and
    returns within one largest frame of reads; the outcomes of connecting.
  \<^item> \<open>Handoff\<close> (\<^verbatim>\<open>handoff.rs\<close>): order, bounds and accounting of the queues.
  \<^item> \<open>Discovery\<close>, \<open>Dbus\<close>, \<open>Mdns\<close>: the set of sources meets the contract of a bounded map (locale \<open>source_store\<close>);
    no bytes from the bus make the client panic; calls read back; discovery returns valid sources.
  \<^item> \<open>Scale\<close>, \<open>Video_Modes\<close>, \<open>Video_Output\<close>, \<open>Flip_Chain\<close> (\<^verbatim>\<open>scale.rs\<close>, \<^verbatim>\<open>video.rs\<close>): placement and sampling
    tables, the best mode, surfaces, and presenting: a surface that may be on screen is never decoded into, and
    the decoder never refuses the geometry it is given.
  \<^item> \<open>Audio\<close> (\<^verbatim>\<open>audio.rs\<close>): what reaches the device is owed silence and exactly the interleaved samples.

  \<^bold>\<open>Codec\<close> (\<^verbatim>\<open>omt-vmx\<close>).
  \<^item> \<open>Vmx_Tables\<close>, \<open>Vmx_Lookahead\<close>: the tables, and the lookahead table entry by entry.
  \<^item> \<open>Vmx_Bits\<close>: the windowed reader refines a list of bits. \<open>Vmx_Idct\<close>: the portable transform, and the SSE2
    kernel equal to it. \<open>Vmx_Plane\<close>: the table-driven plane decoder equals a bit-by-bit reference and stays inside
    its rows. \<open>Vmx_Convert\<close>: the exact colour formula.
  \<^item> \<open>Vmx_Decoder\<close>, \<open>Vmx_Pool\<close>, \<open>Vmx_Frames\<close>, \<open>Vmx_Run\<close>: loading, slices, placement, and the pool as a step
    relation with one step per access to shared state: under every schedule a frame is what one thread would
    decode, no two threads touch the same bytes, and every frame returns.

  \<^bold>\<open>Web.\<close> \<open>Saved_State\<close> (\<^verbatim>\<open>omt-web/state.rs\<close>): saved choices are read back, and the grammars of a video limit in the
  Web form and in the receiver differ exactly on leading zeros.

  \<^bold>\<open>Conventions.\<close> Sockets, the clock, the allocator, DRM, ALSA and files are arguments: lists of answers or records of
  results. In \<open>Channel\<close>, \<open>Audio\<close> and \<open>Flip_Chain\<close> the result \<open>None\<close> means that the list of answers was too short or
  that the code panicked; returning is a theorem of its own there. In \<open>Dbus\<close>, \<open>Mdns\<close> and \<open>Discovery\<close> the end of the
  answers is the deadline, so \<open>None\<close> is a panic, and its absence is proved. The step relation of the pool is
  sequentially consistent; the relaxed atomics of the source are ordered by its lock where it matters.

  \<^bold>\<open>Not modelled.\<close> The supervisor \<^verbatim>\<open>play.rs\<close> joins the modelled parts with threads, signals and sleeps. The Web
  pages, its HTTPS server, sessions and archive writer, and the editor of \<^verbatim>\<open>settings.xml\<close> are left out. So are the
  system bindings (\<^verbatim>\<open>omt-sys\<close>, \<^verbatim>\<open>omt-crypto\<close>), whose calls are the environment of the models; the deployment tool
  with its SSH client and front ends, which is a program of its own; generated templates; test, fuzzing and
  benchmark programs; and the AArch64 assembly, of which only the portable counterpart is modelled.
\<close>

end
